(* ===== verification/Prelude.thy ===== *)
theory Prelude
  imports Complex_Main "HOL-Library.Word"
begin

text \<open>
  Shared vocabulary of the development: Go's fixed-width integers, time and durations,
  maps with the iteration order chosen by the runtime, ASCII case conversion, and the
  generic list lemmas the components use.

  \<^item> An \<open>int\<close> or \<open>int64\<close> of the source is an \<open>int\<close> whose arithmetic is wrapped by
    \<open>i64\<close> where the source computes; an \<open>uint64\<close> or \<open>uint\<close> is wrapped by \<open>u64\<close>.
    Bit-level code (the identifiers) uses words directly.
  \<^item> A \<open>time.Time\<close> is the number of nanoseconds since the Unix epoch, an \<open>int\<close>; the zero
    \<open>time.Time\<close> (January 1 of year 1) is \<open>zero_time\<close>. A \<open>time.Duration\<close> is a number of
    nanoseconds; \<open>time_sub\<close> is \<open>Time.Sub\<close>, which saturates at the ends of the
    duration range. Every call of \<open>time.Now()\<close> is an explicit argument.
  \<^item> A Go map is a map; a loop over it gets the runtime's iteration order as a list of
    keys, of which \<open>iterates\<close> says that it visits each key once.
  \<^item> A Go string is a list of bytes.
\<close>

named_theorems go_simps "evaluation of the Go vocabulary"

type_synonym time = int
type_synonym duration = int

definition i64 :: "int \<Rightarrow> int" where
  "i64 x = (x + 2 ^ 63) mod 2 ^ 64 - 2 ^ 63"

definition u64 :: "int \<Rightarrow> int" where
  "u64 x = x mod 2 ^ 64"

abbreviation max_i64 :: int where "max_i64 \<equiv> 9223372036854775807"
abbreviation min_i64 :: int where "min_i64 \<equiv> - 9223372036854775808"

lemma i64_id [simp]: "min_i64 \<le> x \<Longrightarrow> x \<le> max_i64 \<Longrightarrow> i64 x = x"
  by (simp add: i64_def)

lemma i64_range [simp]: "min_i64 \<le> i64 x" "i64 x \<le> max_i64"
  using pos_mod_bound[of "2 ^ 64" "x + 2 ^ 63"] by (auto simp: i64_def)

lemma u64_id [simp]: "0 \<le> x \<Longrightarrow> x < 2 ^ 64 \<Longrightarrow> u64 x = x"
  by (simp add: u64_def)

lemma u64_range [simp]: "0 \<le> u64 x" "u64 x < 18446744073709551616"
  using pos_mod_bound[of "2 ^ 64" x] by (auto simp: u64_def)

text \<open>Go's integer division and remainder truncate towards zero.\<close>

definition go_quot :: "int \<Rightarrow> int \<Rightarrow> int" where
  "go_quot a b = sgn a * sgn b * (\<bar>a\<bar> div \<bar>b\<bar>)"

definition go_rem :: "int \<Rightarrow> int \<Rightarrow> int" where
  "go_rem a b = a - b * go_quot a b"

lemma go_quot_nonneg [simp]: "0 \<le> a \<Longrightarrow> 0 < b \<Longrightarrow> go_quot a b = a div b"
  by (cases "a = 0") (auto simp: go_quot_def)

lemma go_rem_nonneg [simp]: "0 \<le> a \<Longrightarrow> 0 < b \<Longrightarrow> go_rem a b = a mod b"
  by (simp add: go_rem_def minus_mult_div_eq_mod)

subsection \<open>Calls that may panic\<close>

datatype 'a go = Returns 'a | Panics

fun go_bind :: "'a go \<Rightarrow> ('a \<Rightarrow> 'b go) \<Rightarrow> 'b go" where
  "go_bind (Returns x) f = f x"
| "go_bind Panics f = Panics"

text \<open>Following a pointer; a nil pointer panics.\<close>

fun deref :: "'a option \<Rightarrow> 'a go" where
  "deref (Some x) = Returns x"
| "deref None = Panics"

fun go_map :: "('a \<Rightarrow> 'b go) \<Rightarrow> 'a list \<Rightarrow> 'b list go" where
  "go_map f [] = Returns []"
| "go_map f (x # xs) = go_bind (f x) (\<lambda>y. go_bind (go_map f xs) (\<lambda>ys. Returns (y # ys)))"

lemma go_bind_Returns [simp]: "go_bind m f = Returns y \<longleftrightarrow> (\<exists>x. m = Returns x \<and> f x = Returns y)"
  by (cases m) auto

lemma deref_Returns [simp]: "deref p = Returns x \<longleftrightarrow> p = Some x"
  by (cases p) auto

lemma go_map_Returns: "go_map f xs = Returns ys \<longleftrightarrow> list_all2 (\<lambda>x y. f x = Returns y) xs ys"
  by (induction xs arbitrary: ys) (auto simp: list_all2_Cons1)

lemma go_map_total: "(\<And>x. x \<in> set xs \<Longrightarrow> f x = Returns (g x)) \<Longrightarrow> go_map f xs = Returns (map g xs)"
  by (induction xs) auto

subsection \<open>Time\<close>

definition millisecond :: duration where "millisecond = 1000000"
definition second :: duration where "second = 1000000000"
definition minute :: duration where "minute = 60 * second"
definition hour :: duration where "hour = 60 * minute"
definition day :: duration where "day = 24 * hour"

lemmas duration_defs [go_simps] =
  millisecond_def second_def minute_def hour_def day_def

definition zero_time :: time where
  "zero_time = - 62135596800 * 1000000000"

definition time_sub :: "time \<Rightarrow> time \<Rightarrow> duration" where
  "time_sub t u = max min_i64 (min max_i64 (t - u))"

lemma time_sub_mono: "t \<le> t' \<Longrightarrow> time_sub t u \<le> time_sub t' u"
  by (simp add: time_sub_def)

lemma time_sub_less_iff:
  "min_i64 < d \<Longrightarrow> d \<le> max_i64 \<Longrightarrow> time_sub t u < d \<longleftrightarrow> t - u < d"
  by (auto simp: time_sub_def)

lemma time_sub_gt_iff:
  "min_i64 \<le> d \<Longrightarrow> d < max_i64 \<Longrightarrow> d < time_sub t u \<longleftrightarrow> d < t - u"
  by (auto simp: time_sub_def)

subsection \<open>Maps and their iteration order\<close>

definition iterates :: "('k \<rightharpoonup> 'v) \<Rightarrow> 'k list \<Rightarrow> bool" where
  "iterates m ks \<longleftrightarrow> distinct ks \<and> set ks = dom m"

lemma iterates_length: "iterates m ks \<Longrightarrow> length ks = card (dom m)"
  unfolding iterates_def using distinct_card by metis

lemma iterates_finite: "iterates m ks \<Longrightarrow> finite (dom m)"
  by (metis iterates_def List.finite_set)

lemma iterates_insert:
  "iterates m ks \<Longrightarrow> k \<notin> dom m \<Longrightarrow> iterates (m(k \<mapsto> v)) (k # ks)"
  by (auto simp: iterates_def)

lemma iterates_update:
  "iterates m ks \<Longrightarrow> k \<in> dom m \<Longrightarrow> iterates (m(k \<mapsto> v)) ks"
  by (auto simp: iterates_def)

lemma iterates_remove:
  "iterates m ks \<Longrightarrow> iterates (m(k := None)) (removeAll k ks)"
  by (auto simp: iterates_def distinct_removeAll)

subsection \<open>Strings\<close>

definition lower_char :: "char \<Rightarrow> char" where
  "lower_char c = (let n = of_char c :: nat in
     if 65 \<le> n \<and> n \<le> 90 then char_of (n + 32) else c)"

definition upper_char :: "char \<Rightarrow> char" where
  "upper_char c = (let n = of_char c :: nat in
     if 97 \<le> n \<and> n \<le> 122 then char_of (n - 32) else c)"

definition to_lower :: "string \<Rightarrow> string" where "to_lower = map lower_char"
definition to_upper :: "string \<Rightarrow> string" where "to_upper = map upper_char"

text \<open>\<open>strings.EqualFold\<close> on ASCII strings.\<close>

definition equal_fold :: "string \<Rightarrow> string \<Rightarrow> bool" where
  "equal_fold a b \<longleftrightarrow> to_lower a = to_lower b"

lemma equal_fold_refl [simp]: "equal_fold a a"
  by (simp add: equal_fold_def)

text \<open>\<open>fmt.Sprintf("%d", n)\<close>: the decimal digits of an integer, with a sign.\<close>

function show_nat :: "int \<Rightarrow> string" where
  "show_nat n = (if n < 10 then [char_of (48 + n)]
     else show_nat (n div 10) @ [char_of (48 + n mod 10)])"
  by pat_completeness auto
termination by (relation "measure nat") auto

declare show_nat.simps [simp del]

definition show_int :: "int \<Rightarrow> string" where
  "show_int i = (if i < 0 then CHR ''-'' # show_nat (- i) else show_nat i)"

definition read_nat :: "string \<Rightarrow> int" where
  "read_nat s = foldl (\<lambda>acc c. 10 * acc + (of_char c - 48)) 0 s"

lemma of_char_digit [simp]: "0 \<le> d \<Longrightarrow> d < 10 \<Longrightarrow> of_char (char_of (48 + d) :: char) = 48 + (d :: int)"
  by simp

lemma read_show_nat: "0 \<le> n \<Longrightarrow> read_nat (show_nat n) = n"
proof (induction n rule: show_nat.induct)
  case (1 n)
  show ?case
  proof (cases "n < 10")
    case True
    with 1 show ?thesis by (subst show_nat.simps) (simp add: read_nat_def)
  next
    case False
    with 1 have "read_nat (show_nat (n div 10)) = n div 10" by simp
    then show ?thesis using False by (subst show_nat.simps) (simp add: read_nat_def)
  qed
qed

lemma show_nat_inj: "0 \<le> m \<Longrightarrow> 0 \<le> n \<Longrightarrow> show_nat m = show_nat n \<Longrightarrow> m = n"
  by (metis read_show_nat)

lemma show_nat_digits:
  "0 \<le> n \<Longrightarrow> c \<in> set (show_nat n) \<Longrightarrow> 48 \<le> (of_char c :: int) \<and> (of_char c :: int) \<le> 57"
proof (induction n rule: show_nat.induct)
  case (1 n)
  show ?case
  proof (cases "n < 10")
    case True
    with 1 show ?thesis by (simp add: show_nat.simps [of n])
  next
    case False
    with 1 show ?thesis by (auto simp add: show_nat.simps [of n])
  qed
qed

lemma show_nat_no_minus: "0 \<le> n \<Longrightarrow> CHR ''-'' \<notin> set (show_nat n)"
  using show_nat_digits[of n "CHR ''-''"] by auto

lemma show_nat_not_minus: "0 \<le> n \<Longrightarrow> show_nat n \<noteq> CHR ''-'' # xs"
  using show_nat_no_minus[of n] by auto

lemma show_int_inj:
  assumes eq: "show_int i = show_int j"
  shows "i = j"
proof -
  consider "i < 0" "j < 0" | "i < 0" "0 \<le> j" | "0 \<le> i" "j < 0" | "0 \<le> i" "0 \<le> j" by linarith
  then show ?thesis
  proof cases
    case 1
    with eq have "show_nat (- i) = show_nat (- j)" by (simp add: show_int_def)
    with 1 have "- i = - j" by (intro show_nat_inj) auto
    then show ?thesis by simp
  next
    case 2
    with eq show ?thesis using show_nat_not_minus[of j "show_nat (- i)"] by (simp add: show_int_def)
  next
    case 3
    with eq show ?thesis using show_nat_not_minus[of i "show_nat (- j)"] by (simp add: show_int_def)
  next
    case 4
    with eq show ?thesis by (intro show_nat_inj) (auto simp: show_int_def)
  qed
qed

text \<open>\<open>strings.Split\<close> at a one-character separator.\<close>

fun split_on :: "char \<Rightarrow> string \<Rightarrow> string list" where
  "split_on c [] = [[]]"
| "split_on c (x # xs) =
     (if x = c then [] # split_on c xs
      else (case split_on c xs of [] \<Rightarrow> [[x]] | y # ys \<Rightarrow> (x # y) # ys))"

lemma split_on_free [simp]: "c \<notin> set xs \<Longrightarrow> split_on c xs = [xs]"
  by (induction xs) auto

lemma split_on_append [simp]: "c \<notin> set xs \<Longrightarrow> split_on c (xs @ c # ys) = xs # split_on c ys"
  by (induction xs) auto

subsection \<open>Lists\<close>

lemma filter_sorted_after:
  "sorted (xs :: 'a::linorder list) \<Longrightarrow> sorted (filter P xs)"
  by (rule sorted_filter[where f = "\<lambda>x. x", simplified])

lemma length_filter_mono:
  "(\<And>x. x \<in> set xs \<Longrightarrow> P x \<Longrightarrow> Q x) \<Longrightarrow> length (filter P xs) \<le> length (filter Q xs)"
  by (induction xs) auto

end
