(* ===== verification/Breaker.thy ===== *)
theory Breaker
  imports Prelude
begin

text \<open>
  The contract both circuit breakers of the platform promise to a client that calls them
  one request at a time: the locale \<open>circuit_breaker\<close> states it over an abstract phase,
  and proves tripping, rejection and recovery once. The providers are the theories
  \<open>Infra_Breaker\<close> (carrier connector) and \<open>Api_Breaker\<close> (API server).
\<close>

datatype phase = Closed | Open | HalfOpen

text \<open>One protected call: admitted or not, at time \<open>t\<close>; if admitted the protected function
  ends at \<open>t'\<close>, with or without an error.\<close>

definition protect ::
  "(time \<Rightarrow> 's \<Rightarrow> bool \<times> 's) \<Rightarrow> (time \<Rightarrow> 's \<Rightarrow> 's) \<Rightarrow> ('s \<Rightarrow> 's) \<Rightarrow>
   time \<Rightarrow> time \<Rightarrow> bool \<Rightarrow> 's \<Rightarrow> bool \<times> 's" where
  "protect admit failed succeeded t t' err s =
     (let (ok, s1) = admit t s in
      if ok then (True, if err then failed t' s1 else succeeded s1) else (False, s1))"

text \<open>A sequence of calls with the given times and outcomes: which were admitted, and the
  state after the last.\<close>

fun protect_all ::
  "(time \<Rightarrow> 's \<Rightarrow> bool \<times> 's) \<Rightarrow> (time \<Rightarrow> 's \<Rightarrow> 's) \<Rightarrow> ('s \<Rightarrow> 's) \<Rightarrow>
   (time \<times> time \<times> bool) list \<Rightarrow> 's \<Rightarrow> bool list \<times> 's" where
  "protect_all admit failed succeeded [] s = ([], s)"
| "protect_all admit failed succeeded ((t, t', err) # cs) s =
     (let (ok, s1) = protect admit failed succeeded t t' err s;
          (oks, s2) = protect_all admit failed succeeded cs s1
      in (ok # oks, s2))"

locale circuit_breaker =
  fixes phase_of :: "'s \<Rightarrow> phase"
    and admit :: "time \<Rightarrow> 's \<Rightarrow> bool \<times> 's"
    and failed :: "time \<Rightarrow> 's \<Rightarrow> 's"
    and succeeded :: "'s \<Rightarrow> 's"
    and failures :: "'s \<Rightarrow> int"
    and successes :: "'s \<Rightarrow> int"
    and last_failure :: "'s \<Rightarrow> time"
    and trip_at :: "'s \<Rightarrow> int"
    and close_at :: "'s \<Rightarrow> int"
    and timeout :: "'s \<Rightarrow> duration"
    and inv :: "'s \<Rightarrow> bool"
    and room :: "'s \<Rightarrow> bool"
  assumes counts: "inv s \<Longrightarrow> phase_of s = Closed \<Longrightarrow> 0 \<le> failures s \<and> failures s < trip_at s"
    and admit_serving: "inv s \<Longrightarrow> phase_of s \<noteq> Open \<Longrightarrow> admit t s = (True, s)"
    and admit_waiting: "inv s \<Longrightarrow> phase_of s = Open \<Longrightarrow> time_sub t (last_failure s) \<le> timeout s
        \<Longrightarrow> admit t s = (False, s)"
    and admit_probe: "inv s \<Longrightarrow> phase_of s = Open \<Longrightarrow> timeout s < time_sub t (last_failure s)
        \<Longrightarrow> \<exists>s'. admit t s = (True, s') \<and> inv s' \<and> phase_of s' = HalfOpen \<and> successes s' = 0
             \<and> close_at s' = close_at s"
    and failed_closed: "inv s \<Longrightarrow> phase_of s = Closed \<Longrightarrow>
        inv (failed t s) \<and> last_failure (failed t s) = t \<and> trip_at (failed t s) = trip_at s
        \<and> timeout (failed t s) = timeout s
        \<and> (if failures s + 1 < trip_at s
           then phase_of (failed t s) = Closed \<and> failures (failed t s) = failures s + 1
           else phase_of (failed t s) = Open)"
    and failed_probe: "inv s \<Longrightarrow> room s \<Longrightarrow> phase_of s = HalfOpen \<Longrightarrow>
        inv (failed t s) \<and> phase_of (failed t s) = Open \<and> last_failure (failed t s) = t
        \<and> timeout (failed t s) = timeout s"
    and succeeded_closed: "inv s \<Longrightarrow> phase_of s = Closed \<Longrightarrow>
        inv (succeeded s) \<and> phase_of (succeeded s) = Closed \<and> failures (succeeded s) = 0"
    and succeeded_probe: "inv s \<Longrightarrow> phase_of s = HalfOpen \<Longrightarrow>
        inv (succeeded s) \<and> close_at (succeeded s) = close_at s
        \<and> (if successes s + 1 < close_at s
           then phase_of (succeeded s) = HalfOpen \<and> successes (succeeded s) = successes s + 1
           else phase_of (succeeded s) = Closed \<and> failures (succeeded s) = 0)"
begin

abbreviation run :: "(time \<times> time \<times> bool) list \<Rightarrow> 's \<Rightarrow> bool list \<times> 's" where
  "run \<equiv> protect_all admit failed succeeded"

text \<open>While it waits, an open breaker admits nothing and does not change.\<close>

lemma open_rejects:
  assumes "inv s" "phase_of s = Open"
    and "\<forall>(t, t', err) \<in> set cs. time_sub t (last_failure s) \<le> timeout s"
  shows "run cs s = (replicate (length cs) False, s)"
  using assms(3)
  by (induction cs) (auto simp: protect_def admit_waiting assms(1,2))

text \<open>Consecutive failures trip a closed breaker exactly when the threshold is reached.\<close>

lemma failures_trip:
  assumes "inv s" "phase_of s = Closed" "\<forall>(t, t', err) \<in> set cs. err"
    and "int (length cs) \<le> trip_at s - failures s" "cs \<noteq> []"
  shows "fst (run cs s) = replicate (length cs) True \<and> inv (snd (run cs s))
    \<and> (phase_of (snd (run cs s)) = Open \<longleftrightarrow> int (length cs) = trip_at s - failures s)
    \<and> last_failure (snd (run cs s)) = fst (snd (last cs)) \<and> timeout (snd (run cs s)) = timeout s"
  using assms
proof (induction cs arbitrary: s)
  case (Cons c cs)
  obtain t t' err where c: "c = (t, t', err)" by (cases c)
  with Cons.prems have err by simp
  let ?s = "failed t' s"
  note f = failed_closed[OF Cons.prems(1,2), of t'] and a = admit_serving[OF Cons.prems(1)]
  have p: "protect admit failed succeeded t t' err s = (True, ?s)"
    using a Cons.prems(2) \<open>err\<close> by (simp add: protect_def)
  show ?case
  proof (cases "cs = []")
    case True
    then show ?thesis
      using f Cons.prems(4) by (auto simp: c p split: if_splits)
  next
    case False
    then have "1 \<le> length cs" by (cases cs) auto
    with Cons.prems(4) have lt: "failures s + 1 < trip_at s" by simp
    with f have st: "inv ?s" "phase_of ?s = Closed" "failures ?s = failures s + 1"
        "trip_at ?s = trip_at s" "timeout ?s = timeout s" by auto
    have "\<forall>(t, t', err) \<in> set cs. err" "int (length cs) \<le> trip_at ?s - failures ?s"
      using Cons.prems(3,4) st by auto
    from Cons.IH[OF st(1,2) this False] show ?thesis
      using False st by (auto simp: c p Let_def split: prod.splits)
  qed
qed simp

text \<open>After the timeout, consecutive successes close an open breaker exactly when the success
  threshold is reached.\<close>

lemma successes_close_half:
  assumes "inv s" "phase_of s = HalfOpen" "\<forall>(t, t', err) \<in> set cs. \<not> err"
    and "int (length cs) \<le> max 1 (close_at s - successes s)" "cs \<noteq> []"
  shows "fst (run cs s) = replicate (length cs) True \<and> inv (snd (run cs s))
    \<and> (if int (length cs) = max 1 (close_at s - successes s)
       then phase_of (snd (run cs s)) = Closed \<and> failures (snd (run cs s)) = 0
       else phase_of (snd (run cs s)) = HalfOpen)"
  using assms
proof (induction cs arbitrary: s)
  case (Cons c cs)
  obtain t t' err where c: "c = (t, t', err)" by (cases c)
  with Cons.prems have "\<not> err" by simp
  let ?s = "succeeded s"
  note f = succeeded_probe[OF Cons.prems(1,2)] and a = admit_serving[OF Cons.prems(1)]
  have p: "protect admit failed succeeded t t' err s = (True, ?s)"
    using a Cons.prems(2) \<open>\<not> err\<close> by (simp add: protect_def)
  show ?case
  proof (cases "cs = []")
    case True
    then show ?thesis
      using f Cons.prems(4) by (auto simp: c p split: if_splits)
  next
    case False
    then have l: "1 \<le> length cs" by (cases cs) auto
    with Cons.prems(4) have lt: "successes s + 1 < close_at s" by simp
    with f have st: "inv ?s" "phase_of ?s = HalfOpen" "successes ?s = successes s + 1"
        "close_at ?s = close_at s" by auto
    have "\<forall>(t, t', err) \<in> set cs. \<not> err"
        "int (length cs) \<le> max 1 (close_at ?s - successes ?s)"
      using Cons.prems(3,4) st lt by auto
    from Cons.IH[OF st(1,2) this False] show ?thesis
      using lt st by (auto simp: c p Let_def max_def split: prod.splits if_splits)
  qed
qed simp

lemma successes_probe:
  assumes "inv s" "phase_of s = Open" "\<forall>(t, t', err) \<in> set ((t0, t1, e) # cs). \<not> err"
    and "timeout s < time_sub t0 (last_failure s)"
    and "int (Suc (length cs)) \<le> max 1 (close_at s)"
  shows "fst (run ((t0, t1, e) # cs) s) = replicate (Suc (length cs)) True \<and> inv (snd (run ((t0, t1, e) # cs) s))
    \<and> (if int (Suc (length cs)) = max 1 (close_at s)
       then phase_of (snd (run ((t0, t1, e) # cs) s)) = Closed \<and> failures (snd (run ((t0, t1, e) # cs) s)) = 0
       else phase_of (snd (run ((t0, t1, e) # cs) s)) = HalfOpen)"
proof -
  from admit_probe[OF assms(1,2,4)] obtain s' where s': "admit t0 s = (True, s')" "inv s'"
    "phase_of s' = HalfOpen" "successes s' = 0" "close_at s' = close_at s" by blast
  have "protect_all admit failed succeeded ((t0, t1, e) # cs) s
      = protect_all admit failed succeeded ((t0, t1, e) # cs) s'"
    using s'(1) admit_serving[OF s'(2), of t0] s'(3) by (simp add: protect_def)
  then show ?thesis
    using successes_close_half[OF s'(2,3) assms(3)] assms(5) s'(4,5) by (simp del: protect_all.simps)
qed

lemma successes_close:
  assumes "inv s" "phase_of s = Open" "\<forall>(t, t', err) \<in> set ((t0, t1, e) # cs). \<not> err"
    and "timeout s < time_sub t0 (last_failure s)"
    and "int (Suc (length cs)) = max 1 (close_at s)"
  shows "fst (run ((t0, t1, e) # cs) s) = replicate (Suc (length cs)) True
    \<and> phase_of (snd (run ((t0, t1, e) # cs) s)) = Closed \<and> failures (snd (run ((t0, t1, e) # cs) s)) = 0"
  using successes_probe[OF assms(1-4)] assms(5) by (simp del: protect_all.simps)

text \<open>A failed probe opens the breaker again, and the wait starts over.\<close>

lemma probe_failure_reopens:
  assumes "inv s" "phase_of s = HalfOpen" "room s"
  shows "fst (protect admit failed succeeded t t' True s)
    \<and> phase_of (snd (protect admit failed succeeded t t' True s)) = Open
    \<and> (\<forall>cs. (\<forall>(u, u', err) \<in> set cs. time_sub u t' \<le> timeout s) \<longrightarrow>
         fst (run cs (snd (protect admit failed succeeded t t' True s))) = replicate (length cs) False)"
  using failed_probe[OF assms(1,3,2), of t'] admit_serving[OF assms(1)] assms(2)
    open_rejects[of "failed t' s"]
  by (simp add: protect_def)

end

end
