(* ===== verification/Api_Breaker.thy ===== *)
theory Api_Breaker
  imports Breaker
begin

text \<open>
  The circuit breaker of \<open>apps/api-server/internal/circuitbreaker/circuitbreaker.go\<close>. It has
  the contract of \<open>circuit_breaker\<close> too, by different means: it does not clear its failure
  count when it opens, so that a single failed probe finds the count above the threshold.
\<close>

datatype State = SClosed | SOpen | SHalfOpen

fun State_String :: "State \<Rightarrow> string" where
  "State_String SClosed = ''Closed''"
| "State_String SOpen = ''Open''"
| "State_String SHalfOpen = ''HalfOpen''"

record api_breaker =
  ab_state :: State
  ab_failureCount :: int
  ab_failureThreshold :: int
  ab_successThreshold :: int
  ab_timeout :: duration
  ab_lastFailureTime :: time
  ab_halfOpenSuccesses :: int

record api_breaker_config =
  ac_FailureThreshold :: int
  ac_SuccessThreshold :: int
  ac_Timeout :: duration

definition api_NewCircuitBreaker :: "api_breaker_config \<Rightarrow> api_breaker" where
  "api_NewCircuitBreaker config =
     \<lparr>ab_state = SClosed, ab_failureCount = 0, ab_failureThreshold = ac_FailureThreshold config,
      ab_successThreshold = ac_SuccessThreshold config, ab_timeout = ac_Timeout config,
      ab_lastFailureTime = zero_time, ab_halfOpenSuccesses = 0\<rparr>"

definition DefaultConfig :: api_breaker_config where
  "DefaultConfig = \<lparr>ac_FailureThreshold = 5, ac_SuccessThreshold = 2, ac_Timeout = 60 * second\<rparr>"

text \<open>The part of \<open>Execute\<close> before the protected function, under the mutex.\<close>

definition ab_admit :: "time \<Rightarrow> api_breaker \<Rightarrow> bool \<times> api_breaker" where
  "ab_admit now cb =
     (let cb1 = (if ab_state cb = SOpen \<and> ab_timeout cb < time_sub now (ab_lastFailureTime cb)
                 then cb\<lparr>ab_state := SHalfOpen, ab_halfOpenSuccesses := 0\<rparr> else cb)
      in (ab_state cb1 \<noteq> SOpen, cb1))"

definition onFailure :: "time \<Rightarrow> api_breaker \<Rightarrow> api_breaker" where
  "onFailure now cb =
     (let cb1 = cb\<lparr>ab_failureCount := u64 (ab_failureCount cb + 1), ab_lastFailureTime := now\<rparr> in
      if ab_failureThreshold cb1 \<le> ab_failureCount cb1 then cb1\<lparr>ab_state := SOpen\<rparr> else cb1)"

definition onSuccess :: "api_breaker \<Rightarrow> api_breaker" where
  "onSuccess cb =
     (if ab_state cb = SClosed then cb\<lparr>ab_failureCount := 0\<rparr>
      else if ab_state cb = SHalfOpen then
        let cb1 = cb\<lparr>ab_halfOpenSuccesses := u64 (ab_halfOpenSuccesses cb + 1)\<rparr> in
        (if ab_successThreshold cb1 \<le> ab_halfOpenSuccesses cb1
         then cb1\<lparr>ab_state := SClosed, ab_failureCount := 0\<rparr> else cb1)
      else cb)"

datatype 'e api_outcome = CircuitOpenError | FnResult "'e option"

definition ab_Execute :: "time \<Rightarrow> time \<Rightarrow> 'e option \<Rightarrow> api_breaker \<Rightarrow> 'e api_outcome \<times> api_breaker" where
  "ab_Execute t t' err cb =
     (let (ok, cb1) = ab_admit t cb in
      if \<not> ok then (CircuitOpenError, cb1)
      else if err \<noteq> None then (FnResult err, onFailure t' cb1)
      else (FnResult None, onSuccess cb1))"

definition ab_GetState :: "api_breaker \<Rightarrow> State" where
  "ab_GetState cb = ab_state cb"

definition ab_Reset :: "api_breaker \<Rightarrow> api_breaker" where
  "ab_Reset cb = cb\<lparr>ab_state := SClosed, ab_failureCount := 0, ab_halfOpenSuccesses := 0\<rparr>"

fun ab_Execute_all :: "(time \<times> time \<times> 'e option) list \<Rightarrow> api_breaker \<Rightarrow> 'e api_outcome list \<times> api_breaker" where
  "ab_Execute_all [] cb = ([], cb)"
| "ab_Execute_all ((t, t', err) # cs) cb =
     (let (r, cb1) = ab_Execute t t' err cb; (rs, cb2) = ab_Execute_all cs cb1 in (r # rs, cb2))"

section \<open>The contract\<close>

definition ab_inv :: "api_breaker \<Rightarrow> bool" where
  "ab_inv cb \<longleftrightarrow> 1 \<le> ab_failureThreshold cb \<and> ab_failureThreshold cb < 2 ^ 64
     \<and> 1 \<le> ab_successThreshold cb \<and> ab_successThreshold cb < 2 ^ 64
     \<and> 0 \<le> ab_failureCount cb \<and> ab_failureCount cb < 2 ^ 64
     \<and> (ab_state cb = SClosed \<longleftrightarrow> ab_failureCount cb < ab_failureThreshold cb)
     \<and> (ab_state cb = SHalfOpen \<longrightarrow> 0 \<le> ab_halfOpenSuccesses cb \<and> ab_halfOpenSuccesses cb < ab_successThreshold cb)"

fun api_phase :: "State \<Rightarrow> phase" where
  "api_phase SClosed = Closed"
| "api_phase SOpen = Open"
| "api_phase SHalfOpen = HalfOpen"

lemma api_phase_iff [simp]:
  "api_phase st = Closed \<longleftrightarrow> st = SClosed"
  "api_phase st = Open \<longleftrightarrow> st = SOpen"
  "api_phase st = HalfOpen \<longleftrightarrow> st = SHalfOpen"
  by (cases st; simp)+

interpretation api: circuit_breaker "\<lambda>cb. api_phase (ab_state cb)" ab_admit onFailure onSuccess
    ab_failureCount ab_halfOpenSuccesses ab_lastFailureTime ab_failureThreshold ab_successThreshold
    ab_timeout ab_inv "\<lambda>cb. ab_failureCount cb + 1 < 2 ^ 64"
  by unfold_locales
    (auto simp: ab_inv_def ab_admit_def onFailure_def onSuccess_def Let_def)

lemma ab_Execute_outcomes:
  "map2 (\<lambda>ok (t, t', err). if ok then FnResult err else CircuitOpenError) (replicate (length ys) True) ys
     = map (\<lambda>(t, t', err). FnResult err) ys"
  "map2 (\<lambda>ok (t, t', err). if ok then FnResult err else CircuitOpenError) (replicate (length ys) False) ys
     = replicate (length ys) CircuitOpenError"
  by (induction ys) auto

lemma ab_Execute_protect:
  "ab_Execute t t' err cb =
     (let (ok, cb') = protect ab_admit onFailure onSuccess t t' (err \<noteq> None) cb
      in (if ok then FnResult err else CircuitOpenError, cb'))"
  by (auto simp: ab_Execute_def protect_def Let_def split: prod.splits)

lemma ab_Execute_all_protect:
  "ab_Execute_all cs cb =
    (let (oks, cb') = protect_all ab_admit onFailure onSuccess
            (map (\<lambda>(t, t', err). (t, t', err \<noteq> None)) cs) cb
     in (map2 (\<lambda>ok (t, t', err). if ok then FnResult err else CircuitOpenError) oks cs, cb'))"
  by (induction cs arbitrary: cb) (auto simp: ab_Execute_protect Let_def split: prod.splits)

section \<open>Properties\<close>

text \<open>The API server's breaker counts consecutive failures: from a closed state, failing
  calls open it exactly when the count reaches the threshold, and from then on every call
  within the timeout is refused without running and without changing the breaker.\<close>

theorem api_breaker_trips:
  assumes "ab_inv cb" and "ab_state cb = SClosed" and "\<forall>(t, t', err) \<in> set cs. err \<noteq> None"
    and "int (length cs) = ab_failureThreshold cb - ab_failureCount cb"
    and "ab_Execute_all cs cb = (rs, cb')"
    and "\<forall>(t, t', err) \<in> set waits. time_sub t (fst (snd (last cs))) \<le> ab_timeout cb"
  shows "ab_state cb' = SOpen \<and> rs = map (\<lambda>(t, t', err). FnResult err) cs
    \<and> ab_Execute_all waits cb' = (replicate (length waits) CircuitOpenError, cb')"
proof -
  let ?f = "map (\<lambda>(t, t', err). (t, t', err \<noteq> None))"
  have ne: "cs \<noteq> []" using assms(1,2,4) by (auto simp: ab_inv_def)
  have e: "\<forall>(t, t', err) \<in> set (?f cs). err" using assms(3) by fastforce
  have l: "int (length (?f cs)) \<le> ab_failureThreshold cb - ab_failureCount cb" using assms(4) by simp
  have p: "api_phase (ab_state cb) = Closed" "?f cs \<noteq> []" using assms(2) ne by simp_all
  note t = api.failures_trip[OF assms(1) p(1) e l p(2)]
  have cb': "cb' = snd (api.run (?f cs) cb)"
    using assms(5) by (simp add: ab_Execute_all_protect split_beta Let_def)
  have last: "fst (snd (last (?f cs))) = fst (snd (last cs))" using ne by (simp add: last_map split_beta)
  have st: "ab_inv cb'" "ab_state cb' = SOpen" "ab_lastFailureTime cb' = fst (snd (last cs))"
    "ab_timeout cb' = ab_timeout cb"
    using t assms(4) last by (auto simp: cb')
  have "\<forall>(t, t', err) \<in> set (?f waits). time_sub t (ab_lastFailureTime cb') \<le> ab_timeout cb'"
    using assms(6) st by fastforce
  then have "api.run (?f waits) cb' = (replicate (length (?f waits)) False, cb')"
    using st by (intro api.open_rejects) simp_all
  then have "ab_Execute_all waits cb' = (replicate (length waits) CircuitOpenError, cb')"
    using ab_Execute_outcomes(2)[of waits] by (simp add: ab_Execute_all_protect)
  then show ?thesis
    using t st assms(5) ab_Execute_outcomes(1)[of cs] by (auto simp: ab_Execute_all_protect split_beta Let_def)
qed

abbreviation ab_demo :: api_breaker where
  "ab_demo \<equiv> \<lparr>ab_state = SClosed, ab_failureCount = 1, ab_failureThreshold = 3, ab_successThreshold = 1,
     ab_timeout = 10, ab_lastFailureTime = 0, ab_halfOpenSuccesses = 0\<rparr>"

theorem api_breaker_trips_witness:
  "ab_state (snd (ab_Execute_all [(1, 2, Some ''e''), (3, 4, Some ''e'')] ab_demo)) = SOpen
   \<and> ab_Execute_all [(14, 15, None :: string option)] (snd (ab_Execute_all [(1, 2, Some ''e''), (3, 4, Some ''e'')] ab_demo))
     = ([CircuitOpenError], snd (ab_Execute_all [(1, 2, Some ''e''), (3, 4, Some ''e'')] ab_demo))"
proof -
  have i: "ab_inv ab_demo" by (simp add: ab_inv_def)
  let ?cs = "[(1, 2, Some ''e''), (3, 4, Some ''e'')]"
  have e: "ab_Execute_all ?cs ab_demo = (fst (ab_Execute_all ?cs ab_demo), snd (ab_Execute_all ?cs ab_demo))" by simp
  show ?thesis
    using api_breaker_trips[OF i _ _ _ e, of "[(14, 15, None :: string option)]"]
    by (simp add: time_sub_def del: ab_Execute_all.simps)
qed

text \<open>One failed probe is enough: in the half-open state a failing call reopens the breaker,
  and all calls of the next timeout period are refused (as long as the failure counter, an
  unsigned 64-bit integer, has not just wrapped around).\<close>

theorem api_breaker_probe_failure_reopens:
  assumes "ab_inv cb" and "ab_state cb = SHalfOpen" and "ab_failureCount cb + 1 < 2 ^ 64" and "err \<noteq> None"
    and "\<forall>(u, u', e) \<in> set waits. time_sub u t' \<le> ab_timeout cb"
  shows "fst (ab_Execute t t' err cb) = FnResult err
    \<and> ab_state (snd (ab_Execute t t' err cb)) = SOpen
    \<and> fst (ab_Execute_all waits (snd (ab_Execute t t' err cb))) = replicate (length waits) CircuitOpenError"
proof -
  let ?f = "map (\<lambda>(t, t', err). (t, t', err \<noteq> None))"
  have "api_phase (ab_state cb) = HalfOpen" using assms(2) by simp
  note p = api.probe_failure_reopens[OF assms(1) this assms(3), of t t']
  have "\<forall>(u, u', e) \<in> set (?f waits). time_sub u t' \<le> ab_timeout cb" using assms(5) by fastforce
  with p have "fst (api.run (?f waits) (snd (protect ab_admit onFailure onSuccess t t' True cb)))
      = replicate (length (?f waits)) False" by blast
  then show ?thesis
    using p assms(4) ab_Execute_outcomes(2)[of waits]
    by (auto simp: ab_Execute_protect ab_Execute_all_protect[of waits] split_beta Let_def)
qed

theorem api_breaker_probe_failure_reopens_witness:
  "let cb = ab_demo\<lparr>ab_state := SHalfOpen, ab_failureCount := 3\<rparr> in
   ab_state (snd (ab_Execute 20 21 (Some ''e'') cb)) = SOpen
   \<and> fst (ab_Execute_all [(25, 26, None :: string option)] (snd (ab_Execute 20 21 (Some ''e'') cb))) = [CircuitOpenError]"
proof -
  let ?cb = "ab_demo\<lparr>ab_state := SHalfOpen, ab_failureCount := 3\<rparr>"
  have i: "ab_inv ?cb" by (simp add: ab_inv_def)
  show ?thesis
    using api_breaker_probe_failure_reopens[OF i, of "Some ''e''" "[(25, 26, None :: string option)]" 21 20]
    by (simp add: time_sub_def Let_def del: ab_Execute_all.simps)
qed

end
