(* ===== verification/Sliding_Window.thy ===== *)
theory Sliding_Window
  imports Prelude
begin

text \<open>
  The contract of a sliding-window request log, shared by the tenant rate limiter of the
  carrier connector and the rate limiting middleware of the API server: a request at time
  \<open>now\<close> is admitted exactly when fewer than \<open>limit\<close> requests were admitted in the
  \<open>width\<close> before it. The locale proves the bound every client of a limiter wants: no
  window of that width ever holds more than \<open>limit\<close> admitted requests.
\<close>

text \<open>The requests of \<open>xs\<close> in the window of the given width that ends at \<open>t\<close>.\<close>

definition in_window :: "duration \<Rightarrow> time \<Rightarrow> time list \<Rightarrow> nat" where
  "in_window w t xs = length (filter (\<lambda>x. t - x < w \<and> x \<le> t) xs)"

fun admitted :: "(time \<Rightarrow> 's \<Rightarrow> bool \<times> 's) \<Rightarrow> time list \<Rightarrow> 's \<Rightarrow> time list" where
  "admitted allow [] s = []"
| "admitted allow (t # ts) s =
     (let (ok, s') = allow t s in if ok then t # admitted allow ts s' else admitted allow ts s')"

fun after :: "(time \<Rightarrow> 's \<Rightarrow> bool \<times> 's) \<Rightarrow> time list \<Rightarrow> 's \<Rightarrow> 's" where
  "after allow [] s = s"
| "after allow (t # ts) s = after allow ts (snd (allow t s))"

lemma in_window_append [simp]: "in_window w t (xs @ ys) = in_window w t xs + in_window w t ys"
  by (simp add: in_window_def)

lemma in_window_Nil [simp]: "in_window w t [] = 0"
  by (simp add: in_window_def)

lemma in_window_Cons [simp]:
  "in_window w t (x # xs) = (if t - x < w \<and> x \<le> t then 1 else 0) + in_window w t xs"
  by (simp add: in_window_def)

lemma filter_later:
  "(t :: time) \<le> t' \<Longrightarrow> filter (\<lambda>x. t - x < w \<and> t' - x < w) xs = filter (\<lambda>x. t' - x < w) xs"
  by (auto intro: filter_cong)

locale sliding_window =
  fixes allow :: "time \<Rightarrow> 's \<Rightarrow> bool \<times> 's"
    and log :: "'s \<Rightarrow> time list"
    and limit :: "'s \<Rightarrow> int"
    and width :: "'s \<Rightarrow> duration"
    and inv :: "'s \<Rightarrow> bool"
  assumes allow_iff: "inv s \<Longrightarrow>
      fst (allow now s) \<longleftrightarrow> int (length (filter (\<lambda>x. now - x < width s) (log s))) < limit s"
    and allow_log: "inv s \<Longrightarrow> log (snd (allow now s)) =
      filter (\<lambda>x. now - x < width s) (log s) @ (if fst (allow now s) then [now] else [])"
    and allow_frame: "inv s \<Longrightarrow> inv (snd (allow now s)) \<and> limit (snd (allow now s)) = limit s
      \<and> width (snd (allow now s)) = width s"
begin

lemma frame [simp]:
  "inv s \<Longrightarrow> inv (snd (allow now s))"
  "inv s \<Longrightarrow> limit (snd (allow now s)) = limit s"
  "inv s \<Longrightarrow> width (snd (allow now s)) = width s"
  using allow_frame by auto

text \<open>\<open>agrees h s t\<close>: from \<open>t\<close> on the log of \<open>s\<close> is as good as the whole history.\<close>

definition agrees :: "time list \<Rightarrow> 's \<Rightarrow> time \<Rightarrow> bool" where
  "agrees h s t \<longleftrightarrow> (\<forall>x \<in> set h. x \<le> t) \<and>
     (\<forall>t' \<ge> t. filter (\<lambda>x. t' - x < width s) (log s) = filter (\<lambda>x. t' - x < width s) h)"

lemma agrees_mono: "agrees h s t \<Longrightarrow> t \<le> t' \<Longrightarrow> agrees h s t'"
  by (fastforce simp: agrees_def)

lemma agrees_step:
  assumes "inv s" "agrees h s t"
  shows "agrees (h @ (if fst (allow t s) then [t] else [])) (snd (allow t s)) t"
  using assms by (auto simp: agrees_def allow_log filter_later)

lemma allow_history:
  assumes "inv s" "agrees h s t"
  shows "fst (allow t s) \<longleftrightarrow> int (in_window (width s) t h) < limit s"
proof -
  have "filter (\<lambda>x. t - x < width s) (log s) = filter (\<lambda>x. t - x < width s \<and> x \<le> t) h"
    using assms(2) by (auto simp: agrees_def intro: filter_cong)
  then show ?thesis by (simp add: allow_iff[OF assms(1)] in_window_def)
qed

lemma in_window_admit:
  assumes "inv s" "agrees h s t" "fst (allow t s)" "\<forall>u. int (in_window (width s) u h) \<le> max 0 (limit s)"
  shows "int (in_window (width s) u (h @ [t])) \<le> max 0 (limit s)"
proof (cases "u - t < width s \<and> t \<le> u")
  case False
  then show ?thesis using assms(4) by auto
next
  case True
  have "in_window (width s) u h \<le> in_window (width s) t h"
    unfolding in_window_def using True assms(2)
    by (intro length_filter_mono) (auto simp: agrees_def)
  then show ?thesis
    using True allow_history[OF assms(1,2)] assms(3) by simp
qed

lemma bounded_from:
  assumes "inv s" "agrees h s t0" "sorted (t0 # ts)"
    and "\<forall>u. int (in_window (width s) u h) \<le> max 0 (limit s)"
  shows "int (in_window (width s) u (h @ admitted allow ts s)) \<le> max 0 (limit s)"
  using assms
proof (induction ts arbitrary: s h t0)
  case Nil
  then show ?case by simp
next
  case (Cons t ts)
  let ?s = "snd (allow t s)" and ?h = "h @ (if fst (allow t s) then [t] else [])"
  have a: "agrees h s t" using Cons.prems(2,3) by (auto intro: agrees_mono)
  have "agrees ?h ?s t" using Cons.prems(1) a by (rule agrees_step)
  moreover have "\<forall>u. int (in_window (width ?s) u ?h) \<le> max 0 (limit ?s)"
    using in_window_admit[OF Cons.prems(1) a _ Cons.prems(4)] Cons.prems(1,4) by simp
  ultimately have "int (in_window (width ?s) u (?h @ admitted allow ts ?s)) \<le> max 0 (limit ?s)"
    using Cons.prems(1,3) by (intro Cons.IH) auto
  then show ?case using Cons.prems(1) by (auto simp: split_beta Let_def split: if_splits)
qed

text \<open>The bound: requests at non-decreasing times, starting from an empty log.\<close>

theorem window_bound:
  assumes "inv s" "log s = []" "sorted ts"
  shows "int (in_window (width s) u (admitted allow ts s)) \<le> max 0 (limit s)"
proof (cases ts)
  case (Cons t ts')
  have "agrees [] s t" using assms(2) by (simp add: agrees_def)
  from bounded_from[OF assms(1) this, of ts u] assms(3) Cons show ?thesis by simp
qed simp

lemma after_frame: "inv s \<Longrightarrow> inv (after allow ts s) \<and> limit (after allow ts s) = limit s
    \<and> width (after allow ts s) = width s"
  by (induction ts arbitrary: s) auto

lemma agrees_after:
  "inv s \<Longrightarrow> agrees h s t0 \<Longrightarrow> sorted (t0 # ts) \<Longrightarrow> (\<forall>t \<in> set ts. t \<le> t') \<Longrightarrow> t0 \<le> t' \<Longrightarrow>
   agrees (h @ admitted allow ts s) (after allow ts s) t'"
proof (induction ts arbitrary: s h t0)
  case Nil
  then show ?case by (auto intro: agrees_mono)
next
  case (Cons t ts)
  let ?s = "snd (allow t s)" and ?h = "h @ (if fst (allow t s) then [t] else [])"
  have a: "agrees h s t" using Cons.prems(2,3) by (auto intro: agrees_mono)
  have "agrees ?h ?s t" using Cons.prems(1) a by (rule agrees_step)
  then have "agrees (?h @ admitted allow ts ?s) (after allow ts ?s) t'"
    using Cons.prems by (intro Cons.IH) auto
  then show ?case by (auto simp: split_beta Let_def split: if_splits)
qed

text \<open>Exactness: a request is refused only when its window is full.\<close>

theorem admitted_iff:
  assumes "inv s" "log s = []" "sorted (ts @ [t])"
  shows "fst (allow t (after allow ts s)) \<longleftrightarrow> int (in_window (width s) t (admitted allow ts s)) < limit s"
proof -
  have "agrees (admitted allow ts s) (after allow ts s) t"
  proof (cases ts)
    case Nil
    then show ?thesis using assms(2) by (simp add: agrees_def)
  next
    case (Cons t0 ts')
    have "agrees [] s t0" using assms(2) by (simp add: agrees_def)
    from agrees_after[OF assms(1) this, of ts t] assms(3) Cons show ?thesis
      by (auto simp: sorted_append)
  qed
  from allow_history[OF _ this] after_frame[OF assms(1)] show ?thesis by simp
qed

end

end
