(* ===== verification/Api_Limiter.thy ===== *)
theory Api_Limiter
  imports Sliding_Window
begin

text \<open>
  The rate limiting middleware of the API server
  (\<open>apps/api-server/internal/middleware/ratelimit.go\<close>): a sliding window per key and the gin
  handlers that choose the key and the limiter. A handler is a function of the reading of the
  clock, the request and the limiters; it either passes the request on, aborts it with a
  status, or panics.
\<close>

section \<open>The limiter\<close>

record SimpleRateLimiter =
  srl_requests :: "string \<rightharpoonup> time list"
  srl_limit :: int
  srl_window :: duration

definition NewSimpleRateLimiter :: "int \<Rightarrow> duration \<Rightarrow> SimpleRateLimiter" where
  "NewSimpleRateLimiter limit window =
     \<lparr>srl_requests = Map.empty, srl_limit = limit, srl_window = window\<rparr>"

text \<open>A missing key of the map reads as the nil slice.\<close>

definition key_log :: "string \<Rightarrow> SimpleRateLimiter \<Rightarrow> time list" where
  "key_log key r = (case srl_requests r key of None \<Rightarrow> [] | Some xs \<Rightarrow> xs)"

definition Allow :: "string \<Rightarrow> time \<Rightarrow> SimpleRateLimiter \<Rightarrow> bool \<times> SimpleRateLimiter" where
  "Allow key now r =
     (let r1 = (case srl_requests r key of
            None \<Rightarrow> r
          | Some requests \<Rightarrow> r\<lparr>srl_requests := (srl_requests r)
              (key \<mapsto> filter (\<lambda>reqTime. time_sub now reqTime < srl_window r) requests)\<rparr>)
      in if int (length (key_log key r1)) < srl_limit r1
         then (True, r1\<lparr>srl_requests := (srl_requests r1)(key \<mapsto> key_log key r1 @ [now])\<rparr>)
         else (False, r1))"

definition window_ok :: "SimpleRateLimiter \<Rightarrow> bool" where
  "window_ok r \<longleftrightarrow> min_i64 < srl_window r \<and> srl_window r \<le> max_i64"

lemma Allow_log:
  "key_log key (snd (Allow key now r)) =
     filter (\<lambda>x. time_sub now x < srl_window r) (key_log key r) @ (if fst (Allow key now r) then [now] else [])"
  by (auto simp: Allow_def key_log_def Let_def split: option.splits)

lemma Allow_iff:
  "fst (Allow key now r) \<longleftrightarrow>
     int (length (filter (\<lambda>x. time_sub now x < srl_window r) (key_log key r))) < srl_limit r"
  by (auto simp: Allow_def key_log_def Let_def split: option.splits)

lemma Allow_frame [simp]:
  "srl_limit (snd (Allow key now r)) = srl_limit r"
  "srl_window (snd (Allow key now r)) = srl_window r"
  "key' \<noteq> key \<Longrightarrow> key_log key' (snd (Allow key now r)) = key_log key' r"
  by (auto simp: Allow_def key_log_def Let_def split: option.splits)

lemma window_ok_Allow [simp]: "window_ok (snd (Allow key now r)) = window_ok r"
  by (simp add: window_ok_def)

interpretation srl: sliding_window "Allow key" "key_log key" srl_limit srl_window window_ok
proof unfold_locales
  fix s now
  assume w: "window_ok s"
  then have eq: "(\<lambda>x. time_sub now x < srl_window s) = (\<lambda>x. now - x < srl_window s)"
    by (simp add: window_ok_def time_sub_less_iff)
  show "fst (Allow key now s) \<longleftrightarrow> int (length (filter (\<lambda>x. now - x < srl_window s) (key_log key s))) < srl_limit s"
    by (simp add: Allow_iff eq)
  show "key_log key (snd (Allow key now s)) = filter (\<lambda>x. now - x < srl_window s) (key_log key s) @
      (if fst (Allow key now s) then [now] else [])"
    by (simp add: Allow_log eq)
  show "window_ok (snd (Allow key now s)) \<and> srl_limit (snd (Allow key now s)) = srl_limit s
      \<and> srl_window (snd (Allow key now s)) = srl_window s"
    using w by simp
qed

text \<open>Traffic on other keys does not matter to a key.\<close>

definition same_key :: "string \<Rightarrow> SimpleRateLimiter \<Rightarrow> SimpleRateLimiter \<Rightarrow> bool" where
  "same_key k r r' \<longleftrightarrow> key_log k r = key_log k r' \<and> srl_limit r = srl_limit r' \<and> srl_window r = srl_window r'"

lemma same_key_Allow:
  "same_key k r r' \<Longrightarrow> fst (Allow k now r) = fst (Allow k now r')"
  "same_key k r r' \<Longrightarrow> same_key k (snd (Allow k now r)) (snd (Allow k now r'))"
  "k' \<noteq> k \<Longrightarrow> same_key k (snd (Allow k' now r)) r"
  by (auto simp: same_key_def Allow_iff Allow_log)

lemma same_key_trans: "same_key k r r' \<Longrightarrow> same_key k r' r'' \<Longrightarrow> same_key k r r''"
  by (simp add: same_key_def)

lemma admitted_same_key: "same_key k r r' \<Longrightarrow> admitted (Allow k) ts r = admitted (Allow k) ts r'"
proof (induction ts arbitrary: r r')
  case (Cons t ts)
  from Cons.IH[OF same_key_Allow(2)[OF Cons.prems]] same_key_Allow(1)[OF Cons.prems]
  show ?case by (simp add: split_beta Let_def)
qed simp

section \<open>The handlers\<close>

text \<open>A value of the gin context; the handlers assert that \<open>user_id\<close> holds a string.\<close>

datatype ctx_value = StringValue string | OtherValue

record Request =
  req_method :: string
  req_path :: string
  req_ip :: string
  req_user :: "ctx_value option"

datatype outcome =
    Next "(string \<times> string) list"
  | Abort int "(string \<times> string) list"
  | Panic

definition StatusTooManyRequests :: int where "StatusTooManyRequests = 429"

definition respond :: "(string \<times> string) list \<Rightarrow> bool \<times> 'l \<Rightarrow> outcome \<times> 'l" where
  "respond headers res =
     (if fst res then Next headers else Abort StatusTooManyRequests headers, snd res)"

definition RateLimit :: "time \<Rightarrow> Request \<Rightarrow> SimpleRateLimiter \<Rightarrow> outcome \<times> SimpleRateLimiter" where
  "RateLimit now c limiter = respond [] (Allow (req_ip c) now limiter)"

definition RateLimit_limiter :: "int \<Rightarrow> SimpleRateLimiter" where
  "RateLimit_limiter requestsPerMinute = NewSimpleRateLimiter requestsPerMinute minute"

record endpoint_limiters =
  authRateLimiter :: SimpleRateLimiter
  apiRateLimiter :: SimpleRateLimiter
  readRateLimiter :: SimpleRateLimiter
  adminRateLimiter :: SimpleRateLimiter

definition global_limiters :: endpoint_limiters where
  "global_limiters =
     \<lparr>authRateLimiter = NewSimpleRateLimiter 10 minute,
      apiRateLimiter = NewSimpleRateLimiter 100 minute,
      readRateLimiter = NewSimpleRateLimiter 200 minute,
      adminRateLimiter = NewSimpleRateLimiter 50 minute\<rparr>"

definition RateLimitByEndpoint ::
  "time \<Rightarrow> Request \<Rightarrow> endpoint_limiters \<Rightarrow> outcome \<times> endpoint_limiters" where
  "RateLimitByEndpoint now c g =
     (let path = req_path c; method = req_method c; key = req_ip c in respond []
      (if path = ''/v1/auth/login'' \<or> path = ''/v1/auth/register''
       then let (ok, l) = Allow key now (authRateLimiter g) in (ok, g\<lparr>authRateLimiter := l\<rparr>)
       else if method = ''GET'' \<and> (path = ''/v1/services'' \<or> path = ''/v1/monitoring/metrics'')
       then let (ok, l) = Allow key now (readRateLimiter g) in (ok, g\<lparr>readRateLimiter := l\<rparr>)
       else if path = ''/v1/users'' \<or> path = ''/v1/config''
       then let (ok, l) = Allow key now (adminRateLimiter g) in (ok, g\<lparr>adminRateLimiter := l\<rparr>)
       else let (ok, l) = Allow key now (apiRateLimiter g) in (ok, g\<lparr>apiRateLimiter := l\<rparr>)))"

text \<open>The key of \<open>RateLimitByUser\<close>; \<open>None\<close> is the failed type assertion.\<close>

definition user_key :: "Request \<Rightarrow> string option" where
  "user_key c = (case req_user c of
       Some (StringValue userID) \<Rightarrow> Some (''user:'' @ userID)
     | Some OtherValue \<Rightarrow> None
     | None \<Rightarrow> Some (''anon:'' @ req_ip c))"

definition RateLimitByUser :: "time \<Rightarrow> Request \<Rightarrow> SimpleRateLimiter \<Rightarrow> outcome \<times> SimpleRateLimiter" where
  "RateLimitByUser now c limiter =
     (case user_key c of None \<Rightarrow> (Panic, limiter) | Some key \<Rightarrow> respond [] (Allow key now limiter))"

definition RateLimitByIP :: "time \<Rightarrow> Request \<Rightarrow> SimpleRateLimiter \<Rightarrow> outcome \<times> SimpleRateLimiter" where
  "RateLimitByIP now c limiter = respond [] (Allow (req_ip c) now limiter)"

definition RateLimitWithHeaders ::
  "int \<Rightarrow> time \<Rightarrow> Request \<Rightarrow> SimpleRateLimiter \<Rightarrow> outcome \<times> SimpleRateLimiter" where
  "RateLimitWithHeaders requestsPerMinute now c limiter =
     respond [(''X-RateLimit-Limit'', show_int requestsPerMinute), (''X-RateLimit-Window'', ''60'')]
       (Allow (req_ip c) now limiter)"

section \<open>Runs\<close>

fun is_next :: "outcome \<Rightarrow> bool" where
  "is_next (Next hs) = True"
| "is_next _ = False"

text \<open>The times at which a handler passes a request on, for the requests that satisfy \<open>P\<close>.\<close>

fun passed :: "(time \<Rightarrow> Request \<Rightarrow> 'l \<Rightarrow> outcome \<times> 'l) \<Rightarrow> (Request \<Rightarrow> bool) \<Rightarrow> (time \<times> Request) list \<Rightarrow> 'l \<Rightarrow> time list" where
  "passed h P [] l = []"
| "passed h P ((t, c) # cs) l =
     (let (out, l') = h t c l in
      (if P c \<and> is_next out then [t] else []) @ passed h P cs l')"

definition times_of :: "(Request \<Rightarrow> bool) \<Rightarrow> (time \<times> Request) list \<Rightarrow> time list" where
  "times_of P cs = map fst (filter (\<lambda>(t, c). P c) cs)"

lemma times_of_simps [simp]:
  "times_of P [] = []"
  "times_of P ((t, c) # cs) = (if P c then t # times_of P cs else times_of P cs)"
  by (auto simp: times_of_def)

lemma times_of_sorted: "sorted (map fst cs) \<Longrightarrow> sorted (times_of P cs)"
  unfolding times_of_def by (rule sorted_filter)

text \<open>A handler that, on the requests of \<open>P\<close>, is \<open>Allow k\<close> of the limiter \<open>get l\<close>, and that
  leaves the log of \<open>k\<close> in that limiter alone on the others.\<close>

definition keyed :: "(time \<Rightarrow> Request \<Rightarrow> 'l \<Rightarrow> outcome \<times> 'l) \<Rightarrow> (Request \<Rightarrow> bool)
    \<Rightarrow> ('l \<Rightarrow> SimpleRateLimiter) \<Rightarrow> string \<Rightarrow> bool" where
  "keyed h P get k \<longleftrightarrow> (\<forall>t c l. (P c \<longrightarrow> (\<exists>hs. fst (h t c l) = (if fst (Allow k t (get l)) then Next hs
        else Abort StatusTooManyRequests hs)) \<and> get (snd (h t c l)) = snd (Allow k t (get l)))
     \<and> (\<not> P c \<longrightarrow> same_key k (get (snd (h t c l))) (get l)))"

lemma passed_admitted:
  assumes "keyed h P get k"
  shows "passed h P cs l = admitted (Allow k) (times_of P cs) (get l)"
proof (induction cs arbitrary: l)
  case (Cons tc cs)
  obtain t c where tc [simp]: "tc = (t, c)" by fastforce
  show ?case
  proof (cases "P c")
    case True
    with assms obtain hs where
      "fst (h t c l) = (if fst (Allow k t (get l)) then Next hs else Abort StatusTooManyRequests hs)"
      "get (snd (h t c l)) = snd (Allow k t (get l))"
      unfolding keyed_def by blast
    then show ?thesis using True Cons.IH by (simp add: split_beta Let_def)
  next
    case False
    with assms have "same_key k (get (snd (h t c l))) (get l)" unfolding keyed_def by blast
    from admitted_same_key[OF this] False Cons.IH show ?thesis by (simp add: split_beta Let_def)
  qed
qed simp

lemma keyed_bound:
  assumes "keyed h P get k" "get l = NewSimpleRateLimiter n minute" "sorted (map fst cs)"
  shows "int (in_window minute u (passed h P cs l)) \<le> max 0 n"
proof -
  have "window_ok (get l)" using assms(2) by (simp add: window_ok_def NewSimpleRateLimiter_def go_simps)
  from srl.window_bound[OF this _ times_of_sorted[OF assms(3)], of k u P] assms(2)
  show ?thesis by (simp add: passed_admitted[OF assms(1)] key_log_def NewSimpleRateLimiter_def)
qed

lemma respond_next:
  "\<exists>hs. fst (respond h res) = (if fst res then Next hs else Abort StatusTooManyRequests hs)"
  "snd (respond h res) = snd res"
  by (auto simp: respond_def)

lemma keyed_ip:
  "keyed RateLimitByIP (\<lambda>c. req_ip c = ip) id ip"
  "keyed (RateLimitWithHeaders n) (\<lambda>c. req_ip c = ip) id ip"
  "keyed RateLimit (\<lambda>c. req_ip c = ip) id ip"
  by (auto simp: keyed_def RateLimitByIP_def RateLimitWithHeaders_def RateLimit_def respond_next same_key_Allow
      intro: respond_next(1))

definition auth_request :: "string \<Rightarrow> Request \<Rightarrow> bool" where
  "auth_request ip c \<longleftrightarrow> req_ip c = ip \<and> (req_path c = ''/v1/auth/login'' \<or> req_path c = ''/v1/auth/register'')"

lemma same_key_refl [simp]: "same_key k r r"
  by (simp add: same_key_def)

lemma keyed_auth: "keyed RateLimitByEndpoint (auth_request ip) authRateLimiter ip"
  unfolding keyed_def
proof (intro allI conjI impI)
  fix t c l
  assume "auth_request ip c"
  then have eq: "RateLimitByEndpoint t c l =
      respond [] (fst (Allow ip t (authRateLimiter l)), l\<lparr>authRateLimiter := snd (Allow ip t (authRateLimiter l))\<rparr>)"
    by (auto simp: RateLimitByEndpoint_def auth_request_def Let_def split_beta)
  show "\<exists>hs. fst (RateLimitByEndpoint t c l) =
      (if fst (Allow ip t (authRateLimiter l)) then Next hs else Abort StatusTooManyRequests hs)"
    by (simp add: eq respond_def)
  show "authRateLimiter (snd (RateLimitByEndpoint t c l)) = snd (Allow ip t (authRateLimiter l))"
    by (simp add: eq respond_def)
next
  fix t c l
  assume "\<not> auth_request ip c"
  then show "same_key ip (authRateLimiter (snd (RateLimitByEndpoint t c l))) (authRateLimiter l)"
    by (auto simp: RateLimitByEndpoint_def auth_request_def Let_def split_beta respond_def same_key_Allow)
qed

lemma keyed_user:
  assumes "user_key c0 = Some k"
  shows "keyed RateLimitByUser (\<lambda>c. user_key c = user_key c0) id k"
  unfolding keyed_def
  using assms by (auto simp: RateLimitByUser_def respond_next same_key_Allow split: option.splits
      intro: respond_next(1))

section \<open>Properties\<close>

text \<open>However requests of all endpoints and clients are mixed, one client address gets at
  most ten login or registration attempts through in any minute.\<close>

theorem endpoint_auth_bound:
  assumes "sorted (map fst cs)"
  shows "int (in_window minute u (passed RateLimitByEndpoint (auth_request ip) cs global_limiters)) \<le> 10"
  using keyed_bound[OF keyed_auth, of global_limiters 10 cs u ip] assms
  by (simp add: global_limiters_def)

theorem endpoint_auth_bound_witness:
  "int (in_window minute 9 (passed RateLimitByEndpoint (auth_request ''10.0.0.1'')
     [(3, \<lparr>req_method = ''POST'', req_path = ''/v1/auth/login'', req_ip = ''10.0.0.1'', req_user = None\<rparr>),
      (5, \<lparr>req_method = ''GET'', req_path = ''/v1/users'', req_ip = ''10.0.0.1'', req_user = None\<rparr>)]
     global_limiters)) \<le> 10"
  by (rule endpoint_auth_bound) simp

text \<open>\<open>RateLimitByUser\<close> gives every authenticated user and every anonymous address a
  window of its own: the requests of one identity pass exactly as if it were alone, at most
  \<open>n\<close> of them in any minute, and a user never shares a key with an anonymous client.\<close>

theorem user_limiter_separate:
  assumes "user_key c0 = Some k" and "sorted (map fst cs)"
  shows "passed RateLimitByUser (\<lambda>c. user_key c = user_key c0) cs (RateLimit_limiter n)
      = admitted (Allow k) (times_of (\<lambda>c. user_key c = user_key c0) cs) (RateLimit_limiter n)
    \<and> int (in_window minute u (passed RateLimitByUser (\<lambda>c. user_key c = user_key c0) cs (RateLimit_limiter n))) \<le> max 0 n
    \<and> (user_key c = Some k \<longleftrightarrow> req_user c = req_user c0 \<and> (req_user c0 = None \<longrightarrow> req_ip c = req_ip c0))"
proof -
  have "user_key c = Some k \<longleftrightarrow> req_user c = req_user c0 \<and> (req_user c0 = None \<longrightarrow> req_ip c = req_ip c0)"
    using assms(1) by (auto simp: user_key_def split: option.splits ctx_value.splits)
  then show ?thesis
    using passed_admitted[OF keyed_user[OF assms(1)], of cs "RateLimit_limiter n"]
      keyed_bound[OF keyed_user[OF assms(1)], of "RateLimit_limiter n" n cs u] assms(2)
    by (simp add: RateLimit_limiter_def)
qed

theorem user_limiter_separate_witness:
  "let c0 = \<lparr>req_method = ''GET'', req_path = ''/v1/x'', req_ip = ''1.2.3.4'', req_user = Some (StringValue ''u1'')\<rparr>
   in passed RateLimitByUser (\<lambda>c. user_key c = user_key c0) [(1, c0), (2, c0)] (RateLimit_limiter 1) = [1]"
proof -
  let ?c0 = "\<lparr>req_method = ''GET'', req_path = ''/v1/x'', req_ip = ''1.2.3.4'', req_user = Some (StringValue ''u1'')\<rparr>"
  have k: "user_key ?c0 = Some ''user:u1''" by (simp add: user_key_def)
  have "admitted (Allow ''user:u1'') [1, 2] (RateLimit_limiter 1) = [1]" by code_simp
  with user_limiter_separate[OF k, of "[(1, ?c0), (2, ?c0)]" 1] show ?thesis by (simp add: k)
qed

end
