(* ===== verification/Milenage.thy ===== *)
theory Milenage
  imports Prelude "HOL-Library.Word"
begin

unbundle bit_operations_syntax

text \<open>
  The authentication centre of the API server (\<open>apps/api-server/internal/services\<close>:
  \<open>subscriber_auth.go\<close>, \<open>subscriber_auc.go\<close>): subscriber keys, the Milenage functions and the
  authentication vector. Bytes are \<open>8 word\<close>. AES of the standard library is a parameter: \<open>aes k\<close> maps a block of
  16 bytes to one, so that the theorems hold for every block cipher. A slice or an index out of
  range panics. The query and the increment of the database are parameters.
\<close>

section \<open>Bytes\<close>

type_synonym byte = "8 word"
type_synonym cipher = "byte list \<Rightarrow> byte list"

text \<open>\<open>copy(dst[a:b], src)\<close>.\<close>

definition copy_into :: "byte list \<Rightarrow> nat \<Rightarrow> nat \<Rightarrow> byte list \<Rightarrow> byte list" where
  "copy_into dst a b src = (let part = take (b - a) src in take a dst @ part @ drop (a + length part) dst)"

definition xorBytes :: "byte list \<Rightarrow> byte list \<Rightarrow> byte list go" where
  "xorBytes a b = (if length a \<le> length b then Returns (map2 (XOR) a b) else Panics)"

definition rotLeft :: "byte list \<Rightarrow> nat \<Rightarrow> byte list go" where
  "rotLeft x byteCount = (if length x < 16 then Panics else Returns (map (\<lambda>i. x ! ((i + byteCount) mod 16)) [0..<16]))"

text \<open>\<open>block.Encrypt\<close> panics on a short block and encrypts the first 16 bytes of a longer one.\<close>

definition Encrypt :: "cipher \<Rightarrow> byte list \<Rightarrow> byte list go" where
  "Encrypt E src = (if length src < 16 then Panics else Returns (E (take 16 src)))"

definition NewCipher :: "(byte list \<Rightarrow> cipher) \<Rightarrow> byte list \<Rightarrow> cipher option" where
  "NewCipher aes k = (if length k \<in> {16, 24, 32} then Some (aes k) else None)"

definition flip_last :: "byte \<Rightarrow> byte list \<Rightarrow> byte list go" where
  "flip_last c x = (if length x < 16 then Panics else Returns (x[15 := x ! 15 XOR c]))"

definition hex_digit :: "nat \<Rightarrow> char" where
  "hex_digit n = char_of (if n < 10 then 48 + n else 87 + n)"

definition EncodeToString :: "byte list \<Rightarrow> string" where
  "EncodeToString bs = concat (map (\<lambda>b. [hex_digit (unat b div 16), hex_digit (unat b mod 16)]) bs)"

definition hex_value :: "char \<Rightarrow> nat option" where
  "hex_value c = (let n = of_char c :: nat in
     if 48 \<le> n \<and> n \<le> 57 then Some (n - 48)
     else if 97 \<le> n \<and> n \<le> 102 then Some (n - 87)
     else if 65 \<le> n \<and> n \<le> 70 then Some (n - 55)
     else None)"

fun DecodeString :: "string \<Rightarrow> byte list option" where
  "DecodeString [] = Some []"
| "DecodeString [_] = None"
| "DecodeString (c # d # cs) = (case (hex_value c, hex_value d, DecodeString cs) of
     (Some h, Some l, Some bs) \<Rightarrow> Some (of_nat (16 * h + l) # bs) | _ \<Rightarrow> None)"

section \<open>Keys\<close>

datatype auth_error = RandomFailed | ShortKey | BadKeySize | SubscriberNotFound string | InvalidAuthKey string | InvalidOPc string | SQNFailed string

definition deriveOPc :: "(byte list \<Rightarrow> cipher) \<Rightarrow> byte list \<Rightarrow> byte list \<Rightarrow> (auth_error + byte list) go" where
  "deriveOPc aes k op =
     (if length k \<noteq> 16 \<or> length op \<noteq> 16 then Returns (Inl ShortKey)
      else case NewCipher aes k of
          None \<Rightarrow> Returns (Inl BadKeySize)
        | Some E \<Rightarrow> go_bind (Encrypt E op) (\<lambda>opc. go_bind (xorBytes opc op) (\<lambda>x. Returns (Inr x))))"

definition default_variant :: string where
  "default_variant = ''TelecomOP1234567''"

definition getOperatorVariant :: "string \<Rightarrow> byte list" where
  "getOperatorVariant env =
     (let opStr = (if env = '''' then default_variant else env)
      in copy_into (replicate 16 0) 0 16 (map (\<lambda>c. of_nat (of_char c)) opStr))"

text \<open>\<open>random\<close> is what the random source returned for 16 bytes, if it did.\<close>

definition generateAuthKeys :: "(byte list \<Rightarrow> cipher) \<Rightarrow> string \<Rightarrow> byte list option \<Rightarrow> (auth_error + string \<times> string) go" where
  "generateAuthKeys aes env random =
     (case random of
        None \<Rightarrow> Returns (Inl RandomFailed)
      | Some k \<Rightarrow> go_bind (deriveOPc aes k (getOperatorVariant env)) (\<lambda>r. Returns (case r of
            Inl e \<Rightarrow> Inl e
          | Inr opc \<Rightarrow> Inr (EncodeToString k, EncodeToString opc))))"

section \<open>The functions of Milenage\<close>

definition milenageTemp :: "cipher \<Rightarrow> byte list \<Rightarrow> byte list \<Rightarrow> byte list go" where
  "milenageTemp E rand16 opc = go_bind (xorBytes rand16 opc) (Encrypt E)"

definition f1_input :: "byte list \<Rightarrow> byte list \<Rightarrow> byte list" where
  "f1_input sqn6 amf2 =
     copy_into (copy_into (copy_into (copy_into (replicate 16 0) 0 6 sqn6) 6 8 amf2) 8 14 sqn6) 14 16 amf2"

definition milenageF1 :: "cipher \<Rightarrow> byte list \<Rightarrow> byte list \<Rightarrow> byte list \<Rightarrow> byte list \<Rightarrow> byte list go" where
  "milenageF1 E temp opc sqn6 amf2 =
     go_bind (xorBytes temp opc) (\<lambda>x0.
     go_bind (rotLeft x0 8) (\<lambda>x1.
     go_bind (xorBytes x1 (f1_input sqn6 amf2)) (\<lambda>x.
     go_bind (Encrypt E x) (\<lambda>out.
     go_bind (xorBytes out opc) (\<lambda>r. Returns (take 8 r))))))"

definition milenageF2F5 :: "cipher \<Rightarrow> byte list \<Rightarrow> byte list \<Rightarrow> (byte list \<times> byte list) go" where
  "milenageF2F5 E temp opc =
     go_bind (xorBytes temp opc) (\<lambda>x0.
     go_bind (flip_last 1 x0) (\<lambda>x.
     go_bind (Encrypt E x) (\<lambda>out.
     go_bind (xorBytes out opc) (\<lambda>r. Returns (take 8 (drop 8 r), take 6 r)))))"

definition milenageF3 :: "cipher \<Rightarrow> byte list \<Rightarrow> byte list \<Rightarrow> byte list go" where
  "milenageF3 E temp opc =
     go_bind (xorBytes temp opc) (\<lambda>x0.
     go_bind (rotLeft x0 4) (\<lambda>x1.
     go_bind (flip_last 2 x1) (\<lambda>x.
     go_bind (Encrypt E x) (\<lambda>out. xorBytes out opc))))"

definition milenageF4 :: "cipher \<Rightarrow> byte list \<Rightarrow> byte list \<Rightarrow> byte list go" where
  "milenageF4 E temp opc =
     go_bind (xorBytes temp opc) (\<lambda>x0.
     go_bind (rotLeft x0 8) (\<lambda>x1.
     go_bind (flip_last 4 x1) (\<lambda>x.
     go_bind (Encrypt E x) (\<lambda>out. xorBytes out opc))))"

section \<open>Authentication vectors\<close>

record AuthVector =
  av_RAND :: string
  av_XRES :: string
  av_CK :: string
  av_IK :: string
  av_AUTN :: string

definition defaultAMF :: "byte list" where
  "defaultAMF = [0x80, 0x00]"

definition PutUint64 :: "64 word \<Rightarrow> byte list" where
  "PutUint64 v = map (\<lambda>i. ucast (drop_bit (56 - 8 * i) v)) [0..<8]"

definition runMilenage ::
  "(byte list \<Rightarrow> cipher) \<Rightarrow> byte list \<Rightarrow> byte list \<Rightarrow> byte list \<Rightarrow> 64 word \<Rightarrow> byte list \<Rightarrow> (auth_error + AuthVector) go" where
  "runMilenage aes k opc randBytes sqn amf =
     (case NewCipher aes k of
        None \<Rightarrow> Returns (Inl BadKeySize)
      | Some E \<Rightarrow>
          let sqn6 = drop 2 (PutUint64 sqn) in
          go_bind (milenageTemp E randBytes opc) (\<lambda>temp.
          go_bind (milenageF2F5 E temp opc) (\<lambda>(res, ak).
          go_bind (milenageF3 E temp opc) (\<lambda>ck.
          go_bind (milenageF4 E temp opc) (\<lambda>ik.
          go_bind (milenageF1 E temp opc sqn6 amf) (\<lambda>macA.
          go_bind (xorBytes sqn6 ak) (\<lambda>sqnXorAK.
            let autn = copy_into (copy_into (copy_into (replicate 16 0) 0 6 sqnXorAK) 6 8 amf) 8 16 macA in
            Returns (Inr \<lparr>av_RAND = EncodeToString randBytes, av_XRES = EncodeToString res, av_CK = EncodeToString ck,
              av_IK = EncodeToString ik, av_AUTN = EncodeToString autn\<rparr>))))))))"

text \<open>The fields of a subscriber the centre reads, and its two queries.\<close>

record auth_row =
  au_ID :: int
  au_IMSI :: string
  au_AuthKey :: string
  au_OPc :: string
  au_SQN :: int

record 's auth_db =
  ad_by_imsi :: "string \<Rightarrow> 's \<Rightarrow> string + auth_row"
  ad_increment :: "int \<Rightarrow> 's \<Rightarrow> (string + int) \<times> 's"

definition incrementSQN :: "'s auth_db \<Rightarrow> auth_row \<Rightarrow> 's \<Rightarrow> (auth_error + 64 word) \<times> 's" where
  "incrementSQN db sub s = (case ad_increment db (au_ID sub) s of
     (Inl e, s') \<Rightarrow> (Inl (SQNFailed e), s') | (Inr n, s') \<Rightarrow> (Inr (word_of_int n), s'))"

definition GenerateAuthVector ::
  "(byte list \<Rightarrow> cipher) \<Rightarrow> 's auth_db \<Rightarrow> byte list option \<Rightarrow> string \<Rightarrow> 's \<Rightarrow> ((auth_error + AuthVector) \<times> 's) go" where
  "GenerateAuthVector aes db random imsi s =
     (case ad_by_imsi db imsi s of
        Inl _ \<Rightarrow> Returns (Inl (SubscriberNotFound imsi), s)
      | Inr sub \<Rightarrow>
          (case DecodeString (au_AuthKey sub) of
             None \<Rightarrow> Returns (Inl (InvalidAuthKey imsi), s)
           | Some k \<Rightarrow>
               if length k \<noteq> 16 then Returns (Inl (InvalidAuthKey imsi), s)
               else (case DecodeString (au_OPc sub) of
                   None \<Rightarrow> Returns (Inl (InvalidOPc imsi), s)
                 | Some opc \<Rightarrow>
                     if length opc \<noteq> 16 then Returns (Inl (InvalidOPc imsi), s)
                     else (case incrementSQN db sub s of
                         (Inl e, s') \<Rightarrow> Returns (Inl e, s')
                       | (Inr sqn, s') \<Rightarrow> (case random of
                             None \<Rightarrow> Returns (Inl RandomFailed, s')
                           | Some randBytes \<Rightarrow>
                               go_bind (runMilenage aes k opc randBytes sqn defaultAMF) (\<lambda>r. Returns (r, s')))))))"

section \<open>Hexadecimal text\<close>

lemma hex_value_digit: "n < 16 \<Longrightarrow> hex_value (hex_digit n) = Some n"
  by (auto simp: hex_value_def hex_digit_def)

lemma byte_halves: "(of_nat (16 * (unat b div 16) + unat b mod 16) :: byte) = b"
  by simp

lemma Decode_Encode [simp]: "DecodeString (EncodeToString bs) = Some bs"
proof (induction bs)
  case (Cons b bs)
  have "unat b < 256" using unsigned_less[of b] by simp
  then have "hex_value (hex_digit (unat b div 16)) = Some (unat b div 16)" "hex_value (hex_digit (unat b mod 16)) = Some (unat b mod 16)"
    by (intro hex_value_digit; simp add: div_less_iff_less_mult)+
  then show ?case using Cons byte_halves[of b] by (simp add: EncodeToString_def)
qed (simp add: EncodeToString_def)

lemma length_Encode [simp]: "length (EncodeToString bs) = 2 * length bs"
  by (induction bs) (simp_all add: EncodeToString_def)

section \<open>Blocks\<close>

definition bxor :: "byte list \<Rightarrow> byte list \<Rightarrow> byte list" where
  "bxor a b = map2 (XOR) a b"

definition block_cipher :: "cipher \<Rightarrow> bool" where
  "block_cipher E \<longleftrightarrow> (\<forall>b. length b = 16 \<longrightarrow> length (E b) = 16)"

lemma length_bxor [simp]: "length (bxor a b) = min (length a) (length b)"
  by (simp add: bxor_def)

lemma xorBytes_blocks: "length a \<le> length b \<Longrightarrow> xorBytes a b = Returns (bxor a b)"
  by (simp add: xorBytes_def bxor_def)

lemma rotLeft_block: "length x = 16 \<Longrightarrow> rotLeft x n = Returns (rotate n x)"
  by (simp add: rotLeft_def) (auto intro!: nth_equalityI simp: nth_rotate add.commute)

lemma Encrypt_block: "length x = 16 \<Longrightarrow> Encrypt E x = Returns (E x)"
  by (simp add: Encrypt_def)

lemma cipher_length: "block_cipher E \<Longrightarrow> length x = 16 \<Longrightarrow> length (E x) = 16"
  by (simp add: block_cipher_def)

lemma f1_input_block:
  assumes "length sqn6 = 6" "length amf2 = 2"
  shows "f1_input sqn6 amf2 = sqn6 @ amf2 @ sqn6 @ amf2"
  using assms by (simp add: f1_input_def copy_into_def Let_def)

lemmas block_simps = xorBytes_blocks rotLeft_block Encrypt_block cipher_length flip_last_def

text \<open>On blocks no function panics.\<close>

definition f1_block :: "byte list \<Rightarrow> byte list \<Rightarrow> byte list \<Rightarrow> byte list \<Rightarrow> byte list" where
  "f1_block temp opc sqn6 amf2 = bxor (rotate 8 (bxor temp opc)) (sqn6 @ amf2 @ sqn6 @ amf2)"

lemma milenage_blocks:
  assumes "block_cipher E" "length temp = 16" "length opc = 16"
  shows "length r = 16 \<Longrightarrow> milenageTemp E r opc = Returns (E (bxor r opc))"
    "milenageF2F5 E temp opc = Returns (let out = bxor (E ((bxor temp opc)[15 := bxor temp opc ! 15 XOR 1])) opc in (drop 8 out, take 6 out))"
    "milenageF3 E temp opc = Returns (bxor (E ((rotate 4 (bxor temp opc))[15 := rotate 4 (bxor temp opc) ! 15 XOR 2])) opc)"
    "milenageF4 E temp opc = Returns (bxor (E ((rotate 8 (bxor temp opc))[15 := rotate 8 (bxor temp opc) ! 15 XOR 4])) opc)"
    "length sqn6 = 6 \<Longrightarrow> length amf2 = 2 \<Longrightarrow> milenageF1 E temp opc sqn6 amf2 = Returns (take 8 (bxor (E (f1_block temp opc sqn6 amf2)) opc))"
  using assms by (simp_all add: milenageTemp_def milenageF2F5_def milenageF3_def milenageF4_def milenageF1_def block_simps
      f1_input_block f1_block_def Let_def)

section \<open>The standard\<close>

text \<open>The functions as 3GPP TS 35.206 defines them, on strings of bits with the most significant bit first:
  \<open>OUT1 = E[TEMP + rot(IN1 + OPc, r1) + c1] + OPc\<close> and \<open>OUTi = E[rot(TEMP + OPc, ri) + ci] + OPc\<close>.\<close>

definition bits :: "byte list \<Rightarrow> bool list" where
  "bits bs = concat (map (\<lambda>b. map (bit b) (rev [0..<8])) bs)"

definition byte_of :: "bool list \<Rightarrow> byte" where
  "byte_of xs = horner_sum of_bool 2 (rev xs)"

definition bytes :: "bool list \<Rightarrow> byte list" where
  "bytes xs = map (\<lambda>i. byte_of (take 8 (drop (8 * i) xs))) [0..<length xs div 8]"

definition xor_bits :: "bool list \<Rightarrow> bool list \<Rightarrow> bool list" where
  "xor_bits a b = map2 (\<noteq>) a b"

definition const_bit :: "nat \<Rightarrow> bool list" where
  "const_bit i = (replicate 128 False)[i := True]"

definition on_bits :: "cipher \<Rightarrow> bool list \<Rightarrow> bool list" where
  "on_bits E x = bits (E (bytes x))"

definition std_TEMP :: "cipher \<Rightarrow> bool list \<Rightarrow> bool list \<Rightarrow> bool list" where
  "std_TEMP E rnd opc = on_bits E (xor_bits rnd opc)"

definition std_OUT1 :: "cipher \<Rightarrow> bool list \<Rightarrow> bool list \<Rightarrow> bool list \<Rightarrow> bool list \<Rightarrow> bool list" where
  "std_OUT1 E temp opc sqn amf =
     xor_bits (on_bits E (xor_bits (xor_bits temp (rotate 64 (xor_bits (sqn @ amf @ sqn @ amf) opc))) (replicate 128 False))) opc"

definition std_OUT :: "cipher \<Rightarrow> nat \<Rightarrow> bool list \<Rightarrow> bool list \<Rightarrow> bool list \<Rightarrow> bool list" where
  "std_OUT E r c temp opc = xor_bits (on_bits E (xor_bits (rotate r (xor_bits temp opc)) c)) opc"

definition std_f1 :: "cipher \<Rightarrow> bool list \<Rightarrow> bool list \<Rightarrow> bool list \<Rightarrow> bool list \<Rightarrow> bool list" where
  "std_f1 E temp opc sqn amf = take 64 (std_OUT1 E temp opc sqn amf)"

definition std_f2 :: "cipher \<Rightarrow> bool list \<Rightarrow> bool list \<Rightarrow> bool list" where
  "std_f2 E temp opc = drop 64 (std_OUT E 0 (const_bit 127) temp opc)"

definition std_f3 :: "cipher \<Rightarrow> bool list \<Rightarrow> bool list \<Rightarrow> bool list" where
  "std_f3 E temp opc = std_OUT E 32 (const_bit 126) temp opc"

definition std_f4 :: "cipher \<Rightarrow> bool list \<Rightarrow> bool list \<Rightarrow> bool list" where
  "std_f4 E temp opc = std_OUT E 64 (const_bit 125) temp opc"

definition std_f5 :: "cipher \<Rightarrow> bool list \<Rightarrow> bool list \<Rightarrow> bool list" where
  "std_f5 E temp opc = take 48 (std_OUT E 0 (const_bit 127) temp opc)"

lemma bits_simps [simp]: "bits [] = []" "bits (b # bs) = map (bit b) (rev [0..<8]) @ bits bs" "bits (xs @ ys) = bits xs @ bits ys"
  by (simp_all add: bits_def)

lemma length_bits [simp]: "length (bits bs) = 8 * length bs"
  by (induction bs) (simp_all del: upt_Suc upt_rec_numeral)

lemma bits_take: "bits (take n bs) = take (8 * n) (bits bs)"
proof (induction bs arbitrary: n)
  case (Cons b bs)
  then show ?case by (cases n) (simp_all del: upt_Suc upt_rec_numeral)
qed simp

lemma bits_drop: "bits (drop n bs) = drop (8 * n) (bits bs)"
proof (induction bs arbitrary: n)
  case (Cons b bs)
  then show ?case by (cases n) (simp_all del: upt_Suc upt_rec_numeral)
qed simp

lemma bits_rotate: "bits (rotate n bs) = rotate (8 * n) (bits bs)"
  by (simp add: rotate_drop_take bits_take bits_drop flip: mult_mod_right)

lemma bits_bxor: "length a = length b \<Longrightarrow> bits (bxor a b) = xor_bits (bits a) (bits b)"
proof (induction a b rule: list_induct2)
  case (Cons x xs y ys)
  have "map (bit (x XOR y)) is = map2 (\<noteq>) (map (bit x) is) (map (bit y) is)" for "is"
    by (induction "is") (simp_all add: bit_xor_iff)
  then show ?case using Cons by (simp add: bxor_def xor_bits_def del: upt_Suc upt_rec_numeral)
qed (simp add: bxor_def xor_bits_def)

lemma byte_of_bits: "byte_of (map (bit b) (rev [0..<8])) = b"
  by (rule bit_word_eqI) (simp add: byte_of_def bit_horner_sum_bit_word_iff rev_map del: upt_Suc upt_rec_numeral)

lemma bytes_bits [simp]: "bytes (bits bs) = bs"
proof (rule nth_equalityI)
  fix i assume "i < length (bytes (bits bs))"
  then have i: "i < length bs" by (simp add: bytes_def)
  have "take 8 (drop (8 * i) (bits bs)) = bits (take 1 (drop i bs))" by (simp only: bits_take bits_drop) simp
  also have "\<dots> = map (bit (bs ! i)) (rev [0..<8])" using i by (simp add: take_Suc_conv_app_nth flip: Cons_nth_drop_Suc del: upt_Suc upt_rec_numeral)
  finally show "bytes (bits bs) ! i = bs ! i" using i byte_of_bits by (simp add: bytes_def del: upt_Suc upt_rec_numeral)
qed (simp add: bytes_def)

lemma on_bits [simp]: "on_bits E (bits x) = bits (E x)"
  by (simp add: on_bits_def)

lemma bits_nth: "n < 8 * length bs \<Longrightarrow> bits bs ! n = bit (bs ! (n div 8)) (7 - n mod 8)"
proof (induction bs arbitrary: n)
  case (Cons b bs)
  show ?case
  proof (cases "n < 8")
    case True
    then show ?thesis by (simp add: nth_append rev_nth del: upt_Suc upt_rec_numeral)
  next
    case False
    then have "n div 8 = Suc ((n - 8) div 8)" "n mod 8 = (n - 8) mod 8" by (simp_all add: le_div_geq le_mod_geq)
    then show ?thesis using Cons.IH[of "n - 8"] Cons.prems False by (simp add: nth_append del: upt_Suc upt_rec_numeral)
  qed
qed simp

lemma last_byte:
  assumes "i < 8"
  shows "n div 8 = 15 \<and> 7 - n mod 8 = i \<longleftrightarrow> n = 127 - (i :: nat)"
proof
  assume l: "n div 8 = 15 \<and> 7 - n mod 8 = i"
  have "n = 8 * (n div 8) + n mod 8" "n mod 8 < 8" by simp_all
  then show "n = 127 - i" using l by linarith
next
  assume "n = 127 - i"
  then have n: "n = 127 - i" "120 \<le> n" "n < 128" using assms by simp_all
  have "n div 8 = 15" by (rule div_nat_eqI) (use n in simp_all)
  moreover have "n = 8 * (n div 8) + n mod 8" by simp
  ultimately show "n div 8 = 15 \<and> 7 - n mod 8 = i" using n assms by linarith
qed

lemma bits_flip:
  assumes "length x = 16" "i < 8"
  shows "bits (x[15 := x ! 15 XOR push_bit i 1]) = xor_bits (bits x) (const_bit (127 - i))"
proof (rule nth_equalityI)
  show "length (bits (x[15 := x ! 15 XOR push_bit i 1])) = length (xor_bits (bits x) (const_bit (127 - i)))"
    using assms(1) by (simp add: xor_bits_def const_bit_def)
  fix n assume "n < length (bits (x[15 := x ! 15 XOR push_bit i 1]))"
  then have n: "n < 128" using assms(1) by simp
  have "n div 8 = 15 \<and> 7 - n mod 8 = i \<longleftrightarrow> n = 127 - i" by (rule last_byte[OF assms(2)])
  moreover have "const_bit (127 - i) ! n \<longleftrightarrow> n = 127 - i" using n by (simp add: const_bit_def nth_list_update)
  moreover have "n div 8 < 16" "7 - n mod 8 < 8" using n by auto
  ultimately show "bits (x[15 := x ! 15 XOR push_bit i 1]) ! n = xor_bits (bits x) (const_bit (127 - i)) ! n"
    using n assms by (auto simp: xor_bits_def bits_nth const_bit_def nth_list_update bit_simps)
qed

lemma std_OUT_block:
  assumes "length temp = 16" "length opc = 16" "block_cipher E" "i < 8"
  shows "std_OUT E (8 * n) (const_bit (127 - i)) (bits temp) (bits opc)
    = bits (bxor (E ((rotate n (bxor temp opc))[15 := rotate n (bxor temp opc) ! 15 XOR push_bit i 1])) opc)"
proof -
  let ?x = "rotate n (bxor temp opc)" and ?y = "(rotate n (bxor temp opc))[15 := rotate n (bxor temp opc) ! 15 XOR push_bit i 1]"
  have l: "length ?x = 16" "length ?y = 16" "length (E ?y) = 16" using assms(1-3) by (simp_all add: cipher_length)
  have "rotate (8 * n) (xor_bits (bits temp) (bits opc)) = bits ?x" using assms(1,2) by (simp add: bits_bxor bits_rotate)
  then have "on_bits E (xor_bits (rotate (8 * n) (xor_bits (bits temp) (bits opc))) (const_bit (127 - i))) = bits (E ?y)"
    using bits_flip[OF l(1) assms(4)] by (metis on_bits)
  then show ?thesis using l(3) assms(2) by (simp add: std_OUT_def bits_bxor)
qed

lemma std_blocks:
  assumes "length temp = 16" "length opc = 16" "block_cipher E"
  shows "std_OUT E 0 (const_bit 127) (bits temp) (bits opc) = bits (bxor (E ((bxor temp opc)[15 := bxor temp opc ! 15 XOR 1])) opc)"
    "std_OUT E 32 (const_bit 126) (bits temp) (bits opc) = bits (bxor (E ((rotate 4 (bxor temp opc))[15 := rotate 4 (bxor temp opc) ! 15 XOR 2])) opc)"
    "std_OUT E 64 (const_bit 125) (bits temp) (bits opc) = bits (bxor (E ((rotate 8 (bxor temp opc))[15 := rotate 8 (bxor temp opc) ! 15 XOR 4])) opc)"
  using std_OUT_block[OF assms, of 0 0] std_OUT_block[OF assms, of 1 4] std_OUT_block[OF assms, of 2 8] by simp_all

lemma length_PutUint64 [simp]: "length (PutUint64 v) = 8"
  by (simp add: PutUint64_def)

text \<open>What a vector is made of.\<close>

definition out2 :: "cipher \<Rightarrow> byte list \<Rightarrow> byte list \<Rightarrow> byte list" where
  "out2 E temp opc = bxor (E ((bxor temp opc)[15 := bxor temp opc ! 15 XOR 1])) opc"

definition autn_of :: "cipher \<Rightarrow> byte list \<Rightarrow> byte list \<Rightarrow> byte list \<Rightarrow> byte list \<Rightarrow> byte list" where
  "autn_of E temp opc sqn6 amf =
     bxor sqn6 (take 6 (out2 E temp opc)) @ amf @ take 8 (bxor (E (f1_block temp opc sqn6 amf)) opc)"

lemma length_out2: "block_cipher E \<Longrightarrow> length temp = 16 \<Longrightarrow> length opc = 16 \<Longrightarrow> length (out2 E temp opc) = 16"
  by (simp add: out2_def cipher_length)

lemma length_f1: "length temp = 16 \<Longrightarrow> length opc = 16 \<Longrightarrow> length sqn6 = 6 \<Longrightarrow> length amf = 2 \<Longrightarrow> length (f1_block temp opc sqn6 amf) = 16"
  by (simp add: f1_block_def)

lemma runMilenage_block:
  assumes "length k = 16" "length opc = 16" "length rnd = 16" "length amf = 2" "block_cipher (aes k)"
  defines "E \<equiv> aes k" and "temp \<equiv> aes k (bxor rnd opc)"
  shows "length temp = 16" "milenageTemp E rnd opc = Returns temp"
    "runMilenage aes k opc rnd sqn amf = Returns (Inr \<lparr>av_RAND = EncodeToString rnd,
       av_XRES = EncodeToString (drop 8 (out2 E temp opc)),
       av_CK = EncodeToString (bxor (E ((rotate 4 (bxor temp opc))[15 := rotate 4 (bxor temp opc) ! 15 XOR 2])) opc),
       av_IK = EncodeToString (bxor (E ((rotate 8 (bxor temp opc))[15 := rotate 8 (bxor temp opc) ! 15 XOR 4])) opc),
       av_AUTN = EncodeToString (autn_of E temp opc (drop 2 (PutUint64 sqn)) amf)\<rparr>)"
proof -
  have E: "block_cipher E" using assms(5) by (simp add: E_def)
  show temp: "length temp = 16" using assms(2,3,5) by (simp add: temp_def cipher_length)
  note blocks = milenage_blocks[OF E temp assms(2)]
  show t: "milenageTemp E rnd opc = Returns temp" using blocks(1) assms(3) by (simp add: temp_def E_def)
  have "NewCipher aes k = Some E" using assms(1) by (simp add: NewCipher_def E_def)
  moreover have "copy_into (copy_into (copy_into (replicate 16 0) 0 6 a) 6 8 b) 8 16 c = a @ b @ c"
    if "length a = 6" "length b = 2" "length c = 8" for a b c :: "byte list"
    using that by (simp add: copy_into_def Let_def)
  ultimately show "runMilenage aes k opc rnd sqn amf = Returns (Inr \<lparr>av_RAND = EncodeToString rnd,
       av_XRES = EncodeToString (drop 8 (out2 E temp opc)),
       av_CK = EncodeToString (bxor (E ((rotate 4 (bxor temp opc))[15 := rotate 4 (bxor temp opc) ! 15 XOR 2])) opc),
       av_IK = EncodeToString (bxor (E ((rotate 8 (bxor temp opc))[15 := rotate 8 (bxor temp opc) ! 15 XOR 4])) opc),
       av_AUTN = EncodeToString (autn_of E temp opc (drop 2 (PutUint64 sqn)) amf)\<rparr>)"
    using blocks(2-5) t E temp assms(2,4) length_out2[OF E temp assms(2)] length_f1[OF temp assms(2)]
    by (simp add: runMilenage_def out2_def autn_of_def Let_def xorBytes_blocks cipher_length)
qed

text \<open>C14. For a key, OPc and challenge of 16 bytes the vector has the response, the cipher key, the integrity
  key and the concealed sequence number of the standard: XRES = f2, CK = f3, IK = f4, and the first
  six bytes of AUTN are the sequence number concealed by f5.\<close>

theorem milenage_standard:
  assumes "length k = 16" "length opc = 16" "length rnd = 16" "length amf = 2" "block_cipher (aes k)"
  shows "\<exists>av. runMilenage aes k opc rnd sqn amf = Returns (Inr av)
    \<and> (let T = std_TEMP (aes k) (bits rnd) (bits opc); hex = (\<lambda>s. map_option bits (DecodeString s)) in
        hex (av_RAND av) = Some (bits rnd)
      \<and> hex (av_XRES av) = Some (std_f2 (aes k) T (bits opc))
      \<and> hex (av_CK av) = Some (std_f3 (aes k) T (bits opc))
      \<and> hex (av_IK av) = Some (std_f4 (aes k) T (bits opc))
      \<and> map_option (take 64) (hex (av_AUTN av)) = Some (xor_bits (bits (drop 2 (PutUint64 sqn))) (std_f5 (aes k) T (bits opc)) @ bits amf))"
proof -
  let ?temp = "aes k (bxor rnd opc)" and ?sqn = "drop 2 (PutUint64 sqn)"
  note run = runMilenage_block[where aes = aes and k = k, OF assms]
  have T: "std_TEMP (aes k) (bits rnd) (bits opc) = bits ?temp" using assms(2,3) by (simp add: std_TEMP_def flip: bits_bxor)
  have o: "length (out2 (aes k) ?temp opc) = 16" using length_out2[OF assms(5) run(1) assms(2)] .
  have f5: "std_f5 (aes k) (bits ?temp) (bits opc) = bits (take 6 (out2 (aes k) ?temp opc))"
    using std_blocks(1)[OF run(1) assms(2,5)] by (simp add: std_f5_def bits_take out2_def)
  have "take 64 (bits (autn_of (aes k) ?temp opc ?sqn amf)) = bits (take 8 (autn_of (aes k) ?temp opc ?sqn amf))" by (simp add: bits_take)
  also have "take 8 (autn_of (aes k) ?temp opc ?sqn amf) = bxor ?sqn (take 6 (out2 (aes k) ?temp opc)) @ amf"
    using assms(4) o by (simp add: autn_of_def)
  finally have "take 64 (bits (autn_of (aes k) ?temp opc ?sqn amf)) = xor_bits (bits ?sqn) (std_f5 (aes k) (bits ?temp) (bits opc)) @ bits amf"
    using o by (simp add: f5 bits_bxor)
  then show ?thesis
    using run(3) std_blocks[OF run(1) assms(2,5)] unfolding T Let_def std_f2_def std_f3_def std_f4_def out2_def[symmetric]
    by (simp add: bits_drop)
qed

text \<open>The number a list of bytes denotes, most significant byte first.\<close>

definition number48 :: "byte list \<Rightarrow> nat" where
  "number48 bs = foldl (\<lambda>n b. 256 * n + unat b) 0 bs"

lemma bxor_cancel: "length a = length b \<Longrightarrow> bxor (bxor a b) b = a"
proof (induction a b rule: list_induct2)
  case (Cons x xs y ys)
  then show ?case by (simp add: bxor_def xor.assoc)
qed (simp add: bxor_def)

lemma digit256: "(v :: nat) mod (256 * m) = m * (v div m mod 256) + v mod m"
  by (simp add: mod_mult2_eq mult.commute[of 256])

lemma number48_PutUint64: "number48 (drop 2 (PutUint64 v)) = unat v mod 2 ^ 48"
proof -
  have "unat v < 18446744073709551616" by (rule order.strict_trans2[OF unsigned_less]) simp
  then have v: "unat v mod 18446744073709551616 = unat v" by simp
  have d: "unat (ucast (drop_bit n v) :: byte) = unat v div 2 ^ n mod 256" for n
    unfolding unsigned_ucast_eq unsigned_drop_bit_eq by (simp add: take_bit_eq_mod drop_bit_eq_div v)
  have "number48 (drop 2 (PutUint64 v)) = 1099511627776 * (unat v div 1099511627776 mod 256) + 4294967296 * (unat v div 4294967296 mod 256)
     + 16777216 * (unat v div 16777216 mod 256) + 65536 * (unat v div 65536 mod 256) + 256 * (unat v div 256 mod 256) + unat v mod 256"
    by (simp add: number48_def PutUint64_def d d[of 0, simplified] upt_conv_Cons)
  also have "\<dots> = unat v mod 2 ^ 48"
    using digit256[of "unat v" 1099511627776] digit256[of "unat v" 4294967296] digit256[of "unat v" 16777216] digit256[of "unat v" 65536]
      digit256[of "unat v" 256] by simp
  finally show ?thesis .
qed

text \<open>C16. Whoever holds the keys recovers from AUTN the sequence number the vector was made with, modulo
  2^48, the management field, and a MAC that the same computation of f1 reproduces.\<close>

theorem autn_roundtrip:
  assumes "length k = 16" "length opc = 16" "length rnd = 16" "length amf = 2" "block_cipher (aes k)"
    and "runMilenage aes k opc rnd sqn amf = Returns (Inr av)"
  shows "\<exists>autn temp res ak sqn6. DecodeString (av_AUTN av) = Some autn \<and> length autn = 16
    \<and> milenageTemp (aes k) rnd opc = Returns temp \<and> milenageF2F5 (aes k) temp opc = Returns (res, ak)
    \<and> xorBytes (take 6 autn) ak = Returns sqn6 \<and> number48 sqn6 = unat sqn mod 2 ^ 48
    \<and> take 2 (drop 6 autn) = amf \<and> milenageF1 (aes k) temp opc sqn6 amf = Returns (drop 8 autn)"
proof -
  let ?temp = "aes k (bxor rnd opc)"
  note run = runMilenage_block[where aes = aes and k = k, OF assms(1-5)]
  note blocks = milenage_blocks[OF assms(5) run(1) assms(2)]
  obtain sqn6 where sqn6: "sqn6 = drop 2 (PutUint64 sqn)" "length sqn6 = 6" by simp
  obtain ak where ak: "ak = take 6 (out2 (aes k) ?temp opc)" "length ak = 6" using length_out2[OF assms(5) run(1) assms(2)] by simp
  obtain mac where mac: "mac = take 8 (bxor (aes k (f1_block ?temp opc sqn6 amf)) opc)" "length mac = 8"
    using cipher_length[OF assms(5) length_f1[OF run(1) assms(2) sqn6(2) assms(4)]] assms(2) by simp
  have x: "bxor (bxor sqn6 ak) ak = sqn6" using sqn6(2) ak(2) by (intro bxor_cancel) simp
  have "av_AUTN av = EncodeToString (bxor sqn6 ak @ amf @ mac)"
    using run(3)[of sqn] assms(6) unfolding autn_of_def sqn6(1)[symmetric] ak(1)[symmetric] mac(1)[symmetric] by auto
  then have "DecodeString (av_AUTN av) = Some (bxor sqn6 ak @ amf @ mac)" by (simp only: Decode_Encode)
  moreover have "milenageF2F5 (aes k) ?temp opc = Returns (drop 8 (out2 (aes k) ?temp opc), ak)" using blocks(2) unfolding ak(1) by (simp add: out2_def Let_def)
  moreover have "take 6 (bxor sqn6 ak @ amf @ mac) = bxor sqn6 ak" "take 2 (drop 6 (bxor sqn6 ak @ amf @ mac)) = amf"
    "drop 8 (bxor sqn6 ak @ amf @ mac) = mac" "length (bxor sqn6 ak @ amf @ mac) = 16"
    using sqn6(2) ak(2) mac(2) assms(4) by simp_all
  moreover have "xorBytes (bxor sqn6 ak) ak = Returns sqn6" using sqn6(2) ak(2) x by (simp add: xorBytes_blocks)
  moreover have "milenageF1 (aes k) ?temp opc sqn6 amf = Returns mac" using blocks(5) sqn6(2) assms(4) unfolding mac(1) by simp
  moreover have "number48 sqn6 = unat sqn mod 2 ^ 48" unfolding sqn6(1) by (rule number48_PutUint64)
  ultimately show ?thesis using run(2) by metis
qed

section \<open>The MAC is not the one of the standard\<close>

definition std_f1_block :: "byte list \<Rightarrow> byte list \<Rightarrow> byte list \<Rightarrow> byte list \<Rightarrow> byte list" where
  "std_f1_block temp opc sqn6 amf = bxor temp (rotate 8 (bxor (sqn6 @ amf @ sqn6 @ amf) opc))"

lemma std_f1_encrypts:
  assumes "length temp = 16" "length opc = 16" "length sqn6 = 6" "length amf = 2" "block_cipher E"
  shows "std_OUT1 E (bits temp) (bits opc) (bits sqn6) (bits amf) = bits (bxor (E (std_f1_block temp opc sqn6 amf)) opc)"
proof -
  have z: "xor_bits x (replicate 128 False) = x" if "length x = 128" for x
    using that by (auto simp: xor_bits_def intro!: nth_equalityI)
  have "xor_bits (bits temp) (rotate 64 (xor_bits (bits sqn6 @ bits amf @ bits sqn6 @ bits amf) (bits opc))) = bits (std_f1_block temp opc sqn6 amf)"
    using assms bits_rotate[of 8 "bxor (sqn6 @ amf @ sqn6 @ amf) opc"] by (simp add: std_f1_block_def bits_bxor)
  moreover have l: "length (std_f1_block temp opc sqn6 amf) = 16" using assms by (simp add: std_f1_block_def)
  ultimately show ?thesis using assms by (simp add: std_OUT1_def z bits_bxor cipher_length)
qed

lemma nth_bxor: "i < length a \<Longrightarrow> i < length b \<Longrightarrow> bxor a b ! i = a ! i XOR b ! i"
  by (simp add: bxor_def)

lemma xor_cancels: "(a XOR z) XOR b = c XOR (b XOR z) \<longleftrightarrow> a = (c :: byte)"
  by (auto simp: bit_eq_iff bit_xor_iff)

lemma f1_blocks_agree:
  assumes "length temp = 16" "length opc = 16" "length sqn6 = 6" "length amf = 2"
  shows "f1_block temp opc sqn6 amf = std_f1_block temp opc sqn6 amf \<longleftrightarrow> take 8 temp = drop 8 temp"
proof -
  obtain inp where inp: "inp = sqn6 @ amf @ sqn6 @ amf" "length inp = 16" using assms by simp
  have r: "rotate 8 x = drop 8 x @ take 8 x" if "length x = 16" for x :: "byte list" using that by (simp add: rotate_drop_take)
  have "take 8 inp = sqn6 @ amf" "drop 8 inp = sqn6 @ amf" using assms inp(1) by simp_all
  then have in8: "inp ! ((i + 8) mod 16) = inp ! i" if "i < 16" for i
  proof -
    have "rotate 8 inp = inp" unfolding r[OF inp(2)] \<open>take 8 inp = sqn6 @ amf\<close> \<open>drop 8 inp = sqn6 @ amf\<close> by (simp add: inp(1))
    then show ?thesis using nth_rotate[of i inp 8] inp(2) that by (simp add: add.commute)
  qed
  have rot: "rotate 8 x ! i = x ! ((i + 8) mod 16)" if "length x = 16" "i < 16" for x :: "byte list" and i
    using nth_rotate[of i x 8] that by (simp add: add.commute)
  have j: "(i + 8) mod 16 < 16" for i :: nat by simp
  have "f1_block temp opc sqn6 amf ! i = (temp ! ((i + 8) mod 16) XOR opc ! ((i + 8) mod 16)) XOR inp ! i"
    "std_f1_block temp opc sqn6 amf ! i = temp ! i XOR (inp ! i XOR opc ! ((i + 8) mod 16))" if i: "i < 16" for i
    unfolding f1_block_def std_f1_block_def inp(1)[symmetric] using i assms(1,2) inp(2) in8[OF i] j[of i] by (simp_all add: nth_bxor rot)
  then have "f1_block temp opc sqn6 amf ! i = std_f1_block temp opc sqn6 amf ! i \<longleftrightarrow> rotate 8 temp ! i = temp ! i" if "i < 16" for i
    using that rot[OF assms(1)] by (simp add: xor_cancels)
  moreover have "length (f1_block temp opc sqn6 amf) = 16" "length (std_f1_block temp opc sqn6 amf) = 16"
    using assms by (simp_all add: f1_block_def std_f1_block_def)
  ultimately have "f1_block temp opc sqn6 amf = std_f1_block temp opc sqn6 amf \<longleftrightarrow> rotate 8 temp = temp"
    using assms(1) by (simp add: list_eq_iff_nth_eq)
  also have "\<dots> \<longleftrightarrow> drop 8 temp @ take 8 temp = take 8 temp @ drop 8 temp" using assms(1) by (simp add: r)
  also have "\<dots> \<longleftrightarrow> take 8 temp = drop 8 temp" using assms(1) by (subst append_eq_append_conv) auto
  finally show ?thesis .
qed

lemma bxor_inject: "length a = length c \<Longrightarrow> length b = length c \<Longrightarrow> bxor a c = bxor b c \<longleftrightarrow> a = b"
  by (metis bxor_cancel)

text \<open>What the code computes, in the terms of the standard: it rotates TEMP + OPc and adds the input
  afterwards, where the standard rotates the input + OPc and adds TEMP.\<close>

definition code_OUT1 :: "cipher \<Rightarrow> bool list \<Rightarrow> bool list \<Rightarrow> bool list \<Rightarrow> bool list \<Rightarrow> bool list" where
  "code_OUT1 E temp opc sqn amf =
     xor_bits (on_bits E (xor_bits (rotate 64 (xor_bits temp opc)) (sqn @ amf @ sqn @ amf))) opc"

lemma f1_block_encrypts:
  assumes "length temp = 16" "length opc = 16" "length sqn6 = 6" "length amf = 2" "block_cipher E"
  shows "code_OUT1 E (bits temp) (bits opc) (bits sqn6) (bits amf) = bits (bxor (E (f1_block temp opc sqn6 amf)) opc)"
proof -
  have "rotate 64 (xor_bits (bits temp) (bits opc)) = bits (rotate 8 (bxor temp opc))"
    using assms bits_rotate[of 8 "bxor temp opc"] by (simp add: bits_bxor)
  then have "xor_bits (rotate 64 (xor_bits (bits temp) (bits opc))) (bits sqn6 @ bits amf @ bits sqn6 @ bits amf) = bits (f1_block temp opc sqn6 amf)"
    using assms by (simp add: f1_block_def bits_bxor)
  moreover have l: "length (f1_block temp opc sqn6 amf) = 16" using assms by (simp add: f1_block_def)
  ultimately show ?thesis using assms by (simp add: code_OUT1_def on_bits_def bits_bxor cipher_length)
qed

lemma bits_inject: "bits a = bits b \<longleftrightarrow> a = b"
  by (metis bytes_bits)

text \<open>Two different blocks are told apart by the first halves of their encryptions under a suitable
  permutation of blocks.\<close>

lemma separating_cipher:
  assumes "length x = 16" "length y = 16" "x \<noteq> y"
  shows "\<exists>E. block_cipher E \<and> inj_on E {b. length b = 16} \<and> take 8 (E x) \<noteq> take 8 (E y)"
proof (cases "take 8 x = take 8 y")
  case True
  then have "drop 8 x \<noteq> drop 8 y" using assms(3) by (metis append_take_drop_id)
  then have "take 8 (rotate 8 x) \<noteq> take 8 (rotate 8 y)" using assms(1,2) by (simp add: rotate_drop_take)
  moreover have "block_cipher (rotate 8)" by (simp add: block_cipher_def)
  moreover have "rotate 8 (rotate 8 b) = b" if "length b = 16" for b :: "byte list"
    using that rotate_id[of 16 b] by (simp add: rotate_rotate)
  then have "inj_on (rotate 8) {b :: byte list. length b = 16}" by (intro inj_on_inverseI[where g = "rotate 8"]) simp
  ultimately show ?thesis by blast
next
  case False
  moreover have "block_cipher id" "inj_on id {b. length b = 16}" by (simp_all add: block_cipher_def)
  ultimately show ?thesis by (intro exI[of _ id]) simp
qed

text \<open>C15. The MAC is the first half of \<open>code_OUT1\<close> under every block cipher. Under an injective cipher, such
  as AES under any key, \<open>code_OUT1\<close> is the OUT1 of the standard exactly when the halves of TEMP are
  equal; for every TEMP with different halves there is an injective cipher under which the MAC
  itself is not the standard's.\<close>

theorem mac_not_standard:
  assumes "length temp = 16" "length opc = 16" "length sqn6 = 6" "length amf = 2"
  shows "(\<forall>E. block_cipher E \<longrightarrow> (\<exists>mac. milenageF1 E temp opc sqn6 amf = Returns mac
        \<and> bits mac = take 64 (code_OUT1 E (bits temp) (bits opc) (bits sqn6) (bits amf))))
    \<and> (\<forall>E. block_cipher E \<and> inj_on E {b. length b = 16} \<longrightarrow>
        (code_OUT1 E (bits temp) (bits opc) (bits sqn6) (bits amf) = std_OUT1 E (bits temp) (bits opc) (bits sqn6) (bits amf)
           \<longleftrightarrow> take 8 temp = drop 8 temp))
    \<and> (take 8 temp \<noteq> drop 8 temp \<longrightarrow> (\<exists>E mac. block_cipher E \<and> inj_on E {b. length b = 16}
        \<and> milenageF1 E temp opc sqn6 amf = Returns mac \<and> bits mac \<noteq> std_f1 E (bits temp) (bits opc) (bits sqn6) (bits amf)))"
proof -
  let ?x = "f1_block temp opc sqn6 amf" and ?y = "std_f1_block temp opc sqn6 amf"
  have l: "length ?x = 16" "length ?y = 16" using assms by (simp_all add: f1_block_def std_f1_block_def)
  have mac: "milenageF1 E temp opc sqn6 amf = Returns (take 8 (bxor (E ?x) opc))" if "block_cipher E" for E
    using milenage_blocks(5)[OF that assms] .
  have code: "code_OUT1 E (bits temp) (bits opc) (bits sqn6) (bits amf) = bits (bxor (E ?x) opc)"
    and std: "std_OUT1 E (bits temp) (bits opc) (bits sqn6) (bits amf) = bits (bxor (E ?y) opc)" if "block_cipher E" for E
    using f1_block_encrypts[OF assms that] std_f1_encrypts[OF assms that] .
  have "E ?x = E ?y \<longleftrightarrow> ?x = ?y" if "inj_on E {b. length b = 16}" for E using inj_on_eq_iff[OF that] l by simp
  then have agree: "bxor (E ?x) opc = bxor (E ?y) opc \<longleftrightarrow> take 8 temp = drop 8 temp"
    if "block_cipher E" "inj_on E {b. length b = 16}" for E
    using bxor_inject[of "E ?x" opc "E ?y"] cipher_length[OF that(1)] l that(2) assms(2) f1_blocks_agree[OF assms] by simp
  have "\<exists>E mac. block_cipher E \<and> inj_on E {b. length b = 16} \<and> milenageF1 E temp opc sqn6 amf = Returns mac
      \<and> bits mac \<noteq> std_f1 E (bits temp) (bits opc) (bits sqn6) (bits amf)" if "take 8 temp \<noteq> drop 8 temp"
  proof -
    have "?x \<noteq> ?y" using f1_blocks_agree[OF assms] that by simp
    then obtain E where E: "block_cipher E" "inj_on E {b. length b = 16}" "take 8 (E ?x) \<noteq> take 8 (E ?y)"
      using separating_cipher[OF l] by blast
    have e: "length (E ?x) = 16" "length (E ?y) = 16" using cipher_length[OF E(1)] l by simp_all
    have half: "take 8 (bxor z opc) = bxor (take 8 z) (take 8 opc)" for z by (simp add: bxor_def take_map take_zip)
    have half64: "bits (take 8 z) = take 64 (bits z)" for z by (simp add: bits_take)
    have "take 8 (bxor (E ?x) opc) \<noteq> take 8 (bxor (E ?y) opc)"
      using bxor_inject[of "take 8 (E ?x)" "take 8 opc" "take 8 (E ?y)"] e assms(2) E(3) by (simp add: half)
    then have "bits (take 8 (bxor (E ?x) opc)) \<noteq> std_f1 E (bits temp) (bits opc) (bits sqn6) (bits amf)"
      unfolding std_f1_def std[OF E(1)] by (simp add: half64[symmetric] bits_inject)
    then show ?thesis using E(1,2) mac[OF E(1)] by blast
  qed
  then show ?thesis using mac code std agree by (simp add: bits_take bits_inject)
qed

section \<open>Generated keys\<close>

lemma operator_variant_length: "length (getOperatorVariant env) = 16"
  by (simp add: getOperatorVariant_def copy_into_def Let_def min_def)

lemma generated_keys:
  assumes "length k = 16" "block_cipher (aes k)"
  shows "generateAuthKeys aes env (Some k) = Returns (Inr (EncodeToString k,
    EncodeToString (bxor (aes k (getOperatorVariant env)) (getOperatorVariant env))))"
  using assms by (simp add: generateAuthKeys_def deriveOPc_def NewCipher_def operator_variant_length Encrypt_block xorBytes_blocks cipher_length)

text \<open>C17. The generated keys have 32 hexadecimal digits, and a vector made from them has fields of the lengths
  the standard asks for: only the database and the random source can make it fail, nothing panics.\<close>

theorem generated_keys_usable:
  assumes "length k = 16" "\<forall>k. block_cipher (aes k)" "generateAuthKeys aes env (Some k) = Returns (Inr (key, opc))"
    and "ad_by_imsi db imsi s = Inr sub" "au_AuthKey sub = key" "au_OPc sub = opc" "length rnd = 16"
  shows "length key = 32 \<and> length opc = 32
    \<and> (\<exists>r s'. GenerateAuthVector aes db (Some rnd) imsi s = Returns (r, s')
        \<and> (case r of
            Inl e \<Rightarrow> \<exists>m. e = SQNFailed m \<and> fst (ad_increment db (au_ID sub) s) = Inl m
          | Inr av \<Rightarrow> av_RAND av = EncodeToString rnd \<and> length (av_RAND av) = 32 \<and> length (av_XRES av) = 16 \<and> length (av_CK av) = 32
              \<and> length (av_IK av) = 32 \<and> length (av_AUTN av) = 32))"
proof -
  let ?opc = "bxor (aes k (getOperatorVariant env)) (getOperatorVariant env)"
  have key: "key = EncodeToString k" "opc = EncodeToString ?opc" using assms(1-3) by (simp_all add: generated_keys)
  have l: "length ?opc = 16" using assms(2) by (simp add: operator_variant_length cipher_length)
  have E: "block_cipher (aes k)" using assms(2) by blast
  have "length defaultAMF = 2" by (simp add: defaultAMF_def)
  note run = runMilenage_block[where aes = aes and k = k, OF assms(1) l assms(7) this E]
  have gen: "GenerateAuthVector aes db (Some rnd) imsi s = (case incrementSQN db sub s of (Inl e, s') \<Rightarrow> Returns (Inl e, s')
      | (Inr sqn, s') \<Rightarrow> go_bind (runMilenage aes k ?opc rnd sqn defaultAMF) (\<lambda>r. Returns (r, s')))"
    using assms(1,4-6) key l by (simp add: GenerateAuthVector_def split: prod.splits sum.splits)
  have o: "length (out2 (aes k) (aes k (bxor rnd ?opc)) ?opc) = 16" using length_out2[OF E run(1) l] .
  have "length (autn_of (aes k) (aes k (bxor rnd ?opc)) ?opc (drop 2 (PutUint64 sqn)) defaultAMF) = 16" for sqn
    using o l length_f1[OF run(1) l, of "drop 2 (PutUint64 sqn)" defaultAMF] E
    by (simp add: autn_of_def cipher_length defaultAMF_def)
  then show ?thesis using key assms(1,7) l o run(1,3) E
    by (cases "ad_increment db (au_ID sub) s"; cases "fst (ad_increment db (au_ID sub) s)")
      (simp_all add: gen incrementSQN_def cipher_length)
qed

section \<open>An example\<close>

text \<open>Any permutation of blocks will do: here every byte is complemented.\<close>

definition demo_cipher :: "byte list \<Rightarrow> cipher" where
  "demo_cipher k = map (\<lambda>b. b XOR 255)"

lemma demo_cipher_ok: "block_cipher (demo_cipher k)" "inj_on (demo_cipher k) {b. length b = 16}"
proof -
  have "inj (\<lambda>b :: byte. b XOR 255)" by (rule inj_on_inverseI[where g = "\<lambda>b. b XOR 255"]) (simp add: xor.assoc)
  then show "inj_on (demo_cipher k) {b. length b = 16}" by (auto simp: demo_cipher_def inj_on_def inj_map_eq_map)
qed (simp add: block_cipher_def demo_cipher_def)

theorem milenage_standard_witness:
  "\<exists>av. runMilenage demo_cipher (replicate 16 1) (replicate 16 2) (replicate 16 3) 7 defaultAMF = Returns (Inr av)
     \<and> map_option bits (DecodeString (av_RAND av)) = Some (bits (replicate 16 3))"
  using milenage_standard[of "replicate 16 1" "replicate 16 2" "replicate 16 3" defaultAMF demo_cipher 7] demo_cipher_ok
  by (auto simp: defaultAMF_def Let_def)

theorem autn_roundtrip_witness:
  "\<exists>av autn sqn6. runMilenage demo_cipher (replicate 16 1) (replicate 16 2) (replicate 16 3) 7 defaultAMF = Returns (Inr av)
     \<and> DecodeString (av_AUTN av) = Some autn \<and> take 2 (drop 6 autn) = defaultAMF \<and> number48 sqn6 = 7"
proof -
  have l: "length (replicate 16 1 :: byte list) = 16" "length (replicate 16 2 :: byte list) = 16" "length (replicate 16 3 :: byte list) = 16"
    "length defaultAMF = 2" by (simp_all add: defaultAMF_def)
  obtain av where av: "runMilenage demo_cipher (replicate 16 1) (replicate 16 2) (replicate 16 3) 7 defaultAMF = Returns (Inr av)"
    using runMilenage_block(3)[where aes = demo_cipher and sqn = 7, OF l demo_cipher_ok(1)] by blast
  from autn_roundtrip[OF l demo_cipher_ok(1) this] av show ?thesis by auto
qed

theorem mac_not_standard_witness:
  "\<exists>E mac. block_cipher E \<and> milenageF1 E (replicate 8 1 @ replicate 8 2) (replicate 16 0) (replicate 6 0) defaultAMF = Returns mac
     \<and> bits mac \<noteq> std_f1 E (bits (replicate 8 1 @ replicate 8 2)) (bits (replicate 16 0)) (bits (replicate 6 0)) (bits defaultAMF)"
proof -
  let ?t = "replicate 8 1 @ replicate 8 2 :: byte list"
  have l: "length ?t = 16" "length (replicate 16 0 :: byte list) = 16" "length (replicate 6 0 :: byte list) = 6" "length defaultAMF = 2"
    by (simp_all add: defaultAMF_def)
  have "take 8 ?t \<noteq> drop 8 ?t" by (simp add: numeral_eq_Suc)
  with mac_not_standard[OF l, THEN conjunct2, THEN conjunct2] show ?thesis by blast
qed

definition demo_auth_db :: "int auth_db" where
  "demo_auth_db = \<lparr>ad_by_imsi = (\<lambda>imsi s. Inr \<lparr>au_ID = 1, au_IMSI = imsi, au_AuthKey = EncodeToString (replicate 16 1),
       au_OPc = EncodeToString (bxor (demo_cipher [] (getOperatorVariant '''')) (getOperatorVariant '''')), au_SQN = s\<rparr>),
     ad_increment = (\<lambda>_ s. (Inr (s + 1), s + 1))\<rparr>"

theorem generated_keys_usable_witness:
  "\<exists>av s'. GenerateAuthVector demo_cipher demo_auth_db (Some (replicate 16 3)) ''i'' 5 = Returns (Inr av, s') \<and> length (av_AUTN av) = 32"
proof -
  let ?opc = "EncodeToString (bxor (demo_cipher [] (getOperatorVariant '''')) (getOperatorVariant ''''))"
  have c: "demo_cipher k = demo_cipher []" for k by (simp add: demo_cipher_def)
  have k: "length (replicate 16 1 :: byte list) = 16" "\<forall>k. block_cipher (demo_cipher k)" using demo_cipher_ok(1) by simp_all
  have g: "generateAuthKeys demo_cipher '''' (Some (replicate 16 1)) = Returns (Inr (EncodeToString (replicate 16 1), ?opc))"
    unfolding generated_keys[OF k(1) demo_cipher_ok(1)] c[of "replicate 16 1"] by simp
  let ?sub = "\<lparr>au_ID = 1, au_IMSI = ''i'', au_AuthKey = EncodeToString (replicate 16 1), au_OPc = ?opc, au_SQN = 5\<rparr>"
  have "ad_by_imsi demo_auth_db ''i'' 5 = Inr ?sub" by (simp add: demo_auth_db_def)
  from generated_keys_usable[OF k g this, of "replicate 16 3"] show ?thesis
    by (simp, elim conjE exE) (rename_tac r s', case_tac r, auto simp: demo_auth_db_def)
qed

end
