(* ===== verification/Gorm.thy ===== *)
theory Gorm
  imports Prelude "HOL-Library.Multiset"
begin

text \<open>
  The tables of a database behind GORM, which is not part of the repository: the operations on a
  table are parameters of the repositories, \<open>table_ok\<close> and \<open>save_ok\<close> state the documented behaviour their
  proofs rely on, and \<open>list_table\<close>, the rows as a list in memory, has it.
\<close>

section \<open>Tables\<close>

text \<open>\<open>tb_first P k\<close> is \<open>Where(P).Order(k DESC).First\<close>, \<open>tb_find\<close> the same with all rows, a limit and
  an offset, \<open>tb_updates P r\<close> is \<open>Where(P).Updates(r)\<close> and returns the number of rows, \<open>tb_save r\<close> is \<open>Save(r)\<close>, which replaces the
  row with the primary key of \<open>r\<close> or adds \<open>r\<close>, \<open>tb_count\<close> is \<open>Count\<close>, and \<open>tb_set P f\<close> is
  \<open>Where(P).Update(column, value)\<close>, with the assignment as a function on rows. The hooks of the models are applied
  by the repositories; GORM's own tracking of \<open>CreatedAt\<close> and \<open>UpdatedAt\<close> is left out.\<close>

record ('row, 's) table =
  tb_first :: "('row \<Rightarrow> bool) \<Rightarrow> ('row \<Rightarrow> int) \<Rightarrow> 's \<Rightarrow> string + 'row option"
  tb_find :: "('row \<Rightarrow> bool) \<Rightarrow> ('row \<Rightarrow> int) \<Rightarrow> int option \<Rightarrow> int option \<Rightarrow> 's \<Rightarrow> string + 'row list"
  tb_create :: "'row \<Rightarrow> 's \<Rightarrow> string option \<times> 's"
  tb_updates :: "('row \<Rightarrow> bool) \<Rightarrow> 'row \<Rightarrow> 's \<Rightarrow> (string + int) \<times> 's"
  tb_save :: "'row \<Rightarrow> 's \<Rightarrow> string option \<times> 's"
  tb_delete :: "('row \<Rightarrow> bool) \<Rightarrow> 's \<Rightarrow> (string + int) \<times> 's"
  tb_count :: "('row \<Rightarrow> bool) \<Rightarrow> 's \<Rightarrow> string + int"
  tb_set :: "('row \<Rightarrow> bool) \<Rightarrow> ('row \<Rightarrow> 'row) \<Rightarrow> 's \<Rightarrow> string option \<times> 's"

section \<open>Documented behaviour\<close>

text \<open>\<open>rows s\<close> are the rows of the table in the state \<open>s\<close>: a query answers from them, a successful
  change has its effect on them, and a failed one none.\<close>

definition table_ok :: "('row, 's) table \<Rightarrow> ('s \<Rightarrow> 'row multiset) \<Rightarrow> ('row \<Rightarrow> 'row \<Rightarrow> 'row) \<Rightarrow> bool" where
  "table_ok t rows merge \<longleftrightarrow>
     (\<forall>P k s. case tb_first t P k s of Inl _ \<Rightarrow> True
        | Inr None \<Rightarrow> \<forall>x \<in># rows s. \<not> P x
        | Inr (Some r) \<Rightarrow> r \<in># rows s \<and> P r \<and> (\<forall>x \<in># rows s. P x \<longrightarrow> k x \<le> k r))
   \<and> (\<forall>P k l off s rs. tb_find t P k l off s = Inr rs \<longrightarrow> (\<forall>r \<in> set rs. r \<in># rows s \<and> P r))
   \<and> (\<forall>r s. case tb_create t r s of (None, s') \<Rightarrow> rows s' = add_mset r (rows s) | (Some _, s') \<Rightarrow> rows s' = rows s)
   \<and> (\<forall>P r s. case tb_updates t P r s of
        (Inl _, s') \<Rightarrow> rows s' = rows s
      | (Inr n, s') \<Rightarrow> rows s' = image_mset (\<lambda>x. if P x then merge r x else x) (rows s) \<and> n = int (size (filter_mset P (rows s))))
   \<and> (\<forall>P s. case tb_delete t P s of
        (Inl _, s') \<Rightarrow> rows s' = rows s
      | (Inr n, s') \<Rightarrow> rows s' = filter_mset (\<lambda>x. \<not> P x) (rows s) \<and> n = int (size (filter_mset P (rows s))))"

text \<open>\<open>Save\<close>, for a primary key.\<close>

definition save_ok :: "('row, 's) table \<Rightarrow> ('s \<Rightarrow> 'row multiset) \<Rightarrow> ('row \<Rightarrow> 'k) \<Rightarrow> bool" where
  "save_ok t rows key \<longleftrightarrow> (\<forall>r s. case tb_save t r s of
     (None, s') \<Rightarrow> rows s' = add_mset r (filter_mset (\<lambda>x. key x \<noteq> key r) (rows s)) | (Some _, s') \<Rightarrow> rows s' = rows s)"

lemma table_save:
  "save_ok t rows key \<Longrightarrow> tb_save t r s = (err, s') \<Longrightarrow>
     rows s' = (if err = None then add_mset r (filter_mset (\<lambda>x. key x \<noteq> key r) (rows s)) else rows s)"
  unfolding save_ok_def by (drule_tac x = r in spec, drule_tac x = s in spec) (auto split: option.splits)

text \<open>A change of one table leaves the others alone.\<close>

definition table_frame :: "('row, 's) table \<Rightarrow> ('s \<Rightarrow> 'x multiset) \<Rightarrow> bool" where
  "table_frame t rows \<longleftrightarrow> (\<forall>r s. rows (snd (tb_create t r s)) = rows s)
     \<and> (\<forall>P r s. rows (snd (tb_updates t P r s)) = rows s) \<and> (\<forall>P s. rows (snd (tb_delete t P s)) = rows s)
     \<and> (\<forall>r s. rows (snd (tb_save t r s)) = rows s)"

lemma table_first: "table_ok t rows merge \<Longrightarrow> tb_first t P k s = Inr (Some r) \<Longrightarrow> r \<in># rows s \<and> P r \<and> (\<forall>x \<in># rows s. P x \<longrightarrow> k x \<le> k r)"
  unfolding table_ok_def by (auto dest!: conjunct1 spec[of _ P] spec[of _ k] spec[of _ s])

lemma table_first_none: "table_ok t rows merge \<Longrightarrow> tb_first t P k s = Inr None \<Longrightarrow> \<forall>x \<in># rows s. \<not> P x"
  unfolding table_ok_def by (auto dest!: conjunct1 spec[of _ P] spec[of _ k] spec[of _ s])

lemma table_find: "table_ok t rows merge \<Longrightarrow> tb_find t P k l off s = Inr rs \<Longrightarrow> r \<in> set rs \<Longrightarrow> r \<in># rows s \<and> P r"
  unfolding table_ok_def by blast

lemma table_create: "table_ok t rows merge \<Longrightarrow> tb_create t r s = (err, s') \<Longrightarrow> rows s' = (if err = None then add_mset r (rows s) else rows s)"
  unfolding table_ok_def by (elim conjE, drule_tac x = r in spec, drule_tac x = s in spec) (auto split: option.splits)

lemma table_updates:
  "table_ok t rows merge \<Longrightarrow> tb_updates t P r s = (res, s') \<Longrightarrow>
     rows s' = (case res of Inl _ \<Rightarrow> rows s | Inr _ \<Rightarrow> image_mset (\<lambda>x. if P x then merge r x else x) (rows s))"
  unfolding table_ok_def
  by (elim conjE, drule_tac x = P in spec, drule_tac x = r and P = "\<lambda>r. \<forall>s. _ r s" in spec, drule_tac x = s in spec) (auto split: sum.splits)

lemma frame_create: "table_frame t rows \<Longrightarrow> tb_create t r s = (e, s') \<Longrightarrow> rows s' = rows s"
  unfolding table_frame_def by (metis snd_conv)

lemma frame_updates: "table_frame t rows \<Longrightarrow> tb_updates t P r s = (e, s') \<Longrightarrow> rows s' = rows s"
  unfolding table_frame_def by (metis snd_conv)

lemma frame_delete: "table_frame t rows \<Longrightarrow> tb_delete t P s = (e, s') \<Longrightarrow> rows s' = rows s"
  unfolding table_frame_def by (metis snd_conv)

lemma frame_save: "table_frame t rows \<Longrightarrow> tb_save t r s = (e, s') \<Longrightarrow> rows s' = rows s"
  unfolding table_frame_def by (metis snd_conv)

lemma table_delete:
  assumes "table_ok t rows merge" "tb_delete t P s = (res, s')"
  shows "rows s' = (case res of Inl _ \<Rightarrow> rows s | Inr _ \<Rightarrow> filter_mset (\<lambda>x. \<not> P x) (rows s))"
proof -
  from assms(1) have "\<forall>P s. case tb_delete t P s of (Inl _, s') \<Rightarrow> rows s' = rows s
      | (Inr n, s') \<Rightarrow> rows s' = filter_mset (\<lambda>x. \<not> P x) (rows s) \<and> n = int (size (filter_mset P (rows s)))"
    unfolding table_ok_def by (elim conjE) assumption
  from spec[OF spec[OF this, of P], of s] show ?thesis using assms(2) by (auto split: sum.splits)
qed

section \<open>Tables in memory\<close>

text \<open>The rows of a table as a list in a larger state, which shows that the documented behaviour can
  be had.\<close>

fun best_row :: "('row \<Rightarrow> int) \<Rightarrow> 'row \<Rightarrow> 'row list \<Rightarrow> 'row" where
  "best_row k b [] = b"
| "best_row k b (x # xs) = best_row k (if k b < k x then x else b) xs"

definition list_table :: "('s \<Rightarrow> 'row list) \<Rightarrow> ('row list \<Rightarrow> 's \<Rightarrow> 's) \<Rightarrow> ('row \<Rightarrow> 'k) \<Rightarrow> ('row \<Rightarrow> 'row \<Rightarrow> 'row) \<Rightarrow> ('row, 's) table" where
  "list_table get put key merge = \<lparr>
     tb_first = (\<lambda>P k s. Inr (case filter P (get s) of [] \<Rightarrow> None | x # xs \<Rightarrow> Some (best_row k x xs))),
     tb_find = (\<lambda>P k l off s. Inr (sort_key (\<lambda>r. - k r) (filter P (get s)))),
     tb_create = (\<lambda>r s. (None, put (r # get s) s)),
     tb_updates = (\<lambda>P r s. (Inr (int (length (filter P (get s)))), put (map (\<lambda>x. if P x then merge r x else x) (get s)) s)),
     tb_save = (\<lambda>r s. (None, put (r # filter (\<lambda>x. key x \<noteq> key r) (get s)) s)),
     tb_delete = (\<lambda>P s. (Inr (int (length (filter P (get s)))), put (filter (\<lambda>x. \<not> P x) (get s)) s)),
     tb_count = (\<lambda>P s. Inr (int (length (filter P (get s))))),
     tb_set = (\<lambda>P f s. (None, put (map (\<lambda>x. if P x then f x else x) (get s)) s))\<rparr>"

lemma best_row: "best_row k b xs \<in> set (b # xs) \<and> (\<forall>x \<in> set (b # xs). k x \<le> k (best_row k b xs))"
  by (induction xs arbitrary: b) (auto, (force+)?)

lemma first_of_list:
  "case filter P xs of [] \<Rightarrow> \<forall>x \<in> set xs. \<not> P x
      | y # ys \<Rightarrow> best_row k y ys \<in> set xs \<and> P (best_row k y ys) \<and> (\<forall>x \<in> set xs. P x \<longrightarrow> k x \<le> k (best_row k y ys))"
proof (cases "filter P xs")
  case Nil
  then show ?thesis by (simp add: filter_empty_conv)
next
  case (Cons y ys)
  then have s: "set (y # ys) = {x \<in> set xs. P x}" by (metis set_filter)
  have "best_row k y ys \<in> {x \<in> set xs. P x}" "\<forall>x \<in> {x \<in> set xs. P x}. k x \<le> k (best_row k y ys)"
    using best_row[of k y ys] unfolding s by auto
  then show ?thesis by (auto simp: Cons)
qed

lemma list_table_ok:
  assumes "\<And>xs s. get (put xs s) = xs"
  shows "table_ok (list_table get put key merge) (\<lambda>s. mset (get s)) merge"
  unfolding table_ok_def
proof (intro conjI allI)
  fix P k s
  show "case tb_first (list_table get put key merge) P k s of Inl _ \<Rightarrow> True
      | Inr None \<Rightarrow> \<forall>x \<in># mset (get s). \<not> P x
      | Inr (Some r) \<Rightarrow> r \<in># mset (get s) \<and> P r \<and> (\<forall>x \<in># mset (get s). P x \<longrightarrow> k x \<le> k r)"
    using first_of_list[where P = P and xs = "get s" and k = k] by (cases "filter P (get s)") (simp_all add: list_table_def)
qed (auto simp: list_table_def assms simp flip: mset_filter)

text \<open>A query without a limit returns all rows it asks for.\<close>

definition find_ok :: "('row, 's) table \<Rightarrow> ('s \<Rightarrow> 'row multiset) \<Rightarrow> bool" where
  "find_ok t rows \<longleftrightarrow> (\<forall>P k s rs. tb_find t P k None None s = Inr rs \<longrightarrow> mset rs = filter_mset P (rows s))"

lemma list_table_find: "find_ok (list_table get put key merge) (\<lambda>s. mset (get s))"
  by (simp add: find_ok_def list_table_def mset_filter)

lemma list_table_save: "(\<And>xs s. get (put xs s) = xs) \<Longrightarrow> save_ok (list_table get put key merge) (\<lambda>s. mset (get s)) key"
  by (simp add: save_ok_def list_table_def)

text \<open>\<open>Update\<close> and \<open>Count\<close>.\<close>

definition set_ok :: "('row, 's) table \<Rightarrow> ('s \<Rightarrow> 'row multiset) \<Rightarrow> bool" where
  "set_ok t rows \<longleftrightarrow> (\<forall>P f s. case tb_set t P f s of
     (None, s') \<Rightarrow> rows s' = image_mset (\<lambda>x. if P x then f x else x) (rows s) | (Some _, s') \<Rightarrow> rows s' = rows s)
   \<and> (\<forall>P s n. tb_count t P s = Inr n \<longrightarrow> n = int (size (filter_mset P (rows s))))"

lemma table_set: "set_ok t rows \<Longrightarrow> tb_set t P f s = (err, s') \<Longrightarrow>
  rows s' = (if err = None then image_mset (\<lambda>x. if P x then f x else x) (rows s) else rows s)"
  unfolding set_ok_def by (elim conjE, drule_tac x = P in spec, drule_tac x = f in spec, drule_tac x = s in spec) (auto split: option.splits)

lemma table_count: "set_ok t rows \<Longrightarrow> tb_count t P s = Inr n \<Longrightarrow> n = int (size (filter_mset P (rows s)))"
  unfolding set_ok_def by blast

lemma list_table_set: "(\<And>xs s. get (put xs s) = xs) \<Longrightarrow> set_ok (list_table get put key merge) (\<lambda>s. mset (get s))"
  by (simp add: set_ok_def list_table_def flip: mset_filter)

text \<open>A table that accepts no new row.\<close>

definition full_table :: "string \<Rightarrow> ('row, 's) table \<Rightarrow> ('row, 's) table" where
  "full_table e t = t\<lparr>tb_create := (\<lambda>r s. (Some e, s))\<rparr>"

lemma full_table_fields [simp]:
  "tb_first (full_table e t) = tb_first t" "tb_find (full_table e t) = tb_find t" "tb_updates (full_table e t) = tb_updates t"
  "tb_save (full_table e t) = tb_save t" "tb_delete (full_table e t) = tb_delete t" "tb_create (full_table e t) r s = (Some e, s)"
  by (simp_all add: full_table_def)

lemma full_table_ok: "table_ok t rows m \<Longrightarrow> table_ok (full_table e t) rows m"
  unfolding table_ok_def full_table_fields by (elim conjE, intro conjI, assumption, assumption, simp, assumption, assumption)

lemma full_table_others: "save_ok t rows key \<Longrightarrow> save_ok (full_table e t) rows key" "find_ok t rows \<Longrightarrow> find_ok (full_table e t) rows"
  "table_frame t rows' \<Longrightarrow> table_frame (full_table e t) rows'"
  by (simp_all add: save_ok_def find_ok_def table_frame_def)

text \<open>Rows with pairwise different keys, and the row that \<open>Save\<close> replaces.\<close>

definition unique_by :: "('row \<Rightarrow> 'k) \<Rightarrow> 'row multiset \<Rightarrow> bool" where
  "unique_by key M \<longleftrightarrow> (\<forall>k. size (filter_mset (\<lambda>x. key x = k) M) \<le> 1)"

lemma unique_by_empty [simp]: "unique_by key {#}"
  by (simp add: unique_by_def)

lemma unique_by_sub: "unique_by key M \<Longrightarrow> N \<subseteq># M \<Longrightarrow> unique_by key N"
  unfolding unique_by_def by (meson le_trans multiset_filter_mono size_mset_mono)

lemma unique_by_add: "unique_by key (add_mset r M) \<longleftrightarrow> unique_by key M \<and> (\<forall>x \<in># M. key x \<noteq> key r)"
proof -
  have e: "size (filter_mset (\<lambda>x. key x = key r) M) = 0 \<longleftrightarrow> (\<forall>x \<in># M. key x \<noteq> key r)"
    by (auto simp: filter_mset_eq_conv size_eq_0_iff_empty)
  show ?thesis
    unfolding unique_by_def e[symmetric] by (auto simp: le_Suc_eq)
qed

lemma unique_by_remove: "unique_by key M \<Longrightarrow> r \<in># M \<Longrightarrow> filter_mset (\<lambda>x. key x \<noteq> key r) M = M - {#r#}"
proof -
  assume u: "unique_by key M" and r: "r \<in># M"
  then obtain N where M: "M = add_mset r N" by (meson multi_member_split)
  then have "\<forall>x \<in># N. key x \<noteq> key r" using u by (simp add: unique_by_add)
  then show ?thesis by (simp add: M filter_mset_eq_conv)
qed

lemma unique_by_same: "unique_by key M \<Longrightarrow> x \<in># M \<Longrightarrow> y \<in># M \<Longrightarrow> key x = key y \<Longrightarrow> x = y"
  by (metis insert_noteq_member multi_member_split unique_by_add)

lemma unique_by_replace:
  assumes "unique_by key M" "r \<in># M" "key r' = key r" "unique_by f M" "f r' = f r"
  shows "unique_by f (add_mset r' (filter_mset (\<lambda>x. key x \<noteq> key r') M))"
proof -
  obtain N where M: "M = add_mset r N" using assms(2) by (meson multi_member_split)
  have "filter_mset (\<lambda>x. key x \<noteq> key r') M = N"
    using unique_by_remove[OF assms(1,2)] assms(3) M by simp
  then show ?thesis using assms(4,5) by (simp add: M unique_by_add)
qed

end
