(* ===== verification/Auth.thy ===== *)
theory Auth
  imports Milenage Gorm
begin

text \<open>
  Accounts of the API server (\<open>apps/api-server/internal\<close>: \<open>models/auth.go\<close>, \<open>services/auth.go\<close>,
  \<open>middleware/auth.go\<close>, \<open>handlers/auth.go\<close>, \<open>rbac/casbin.go\<close>): tokens and sessions, login, registration, passwords, the
  middleware that authenticates and authorizes a request, and the handlers. JWT, bcrypt, Casbin and the database are
  parameters. \<open>now i\<close> is the \<open>i\<close>-th reading of the clock of an operation, \<open>sid\<close> the random identifier of a new session.
\<close>

section \<open>Rows\<close>

record User =
  usr_ID :: int
  usr_Username :: string
  usr_Email :: string
  usr_Password :: string
  usr_FirstName :: string
  usr_LastName :: string
  usr_Role :: string
  usr_IsActive :: bool
  usr_LastLogin :: "time option"

record AuthSession =
  as_ID :: string
  as_UserID :: int
  as_Token :: string
  as_RefreshToken :: string
  as_ExpiresAt :: time
  as_IPAddress :: string
  as_UserAgent :: string
  as_IsActive :: bool

text \<open>The database; \<open>ac_grants role resource action\<close> is the query that joins roles and permissions.\<close>

record 's account_db =
  ac_users :: "(User, 's) table"
  ac_sessions :: "(AuthSession, 's) table"
  ac_grants :: "string \<Rightarrow> string \<Rightarrow> string \<Rightarrow> 's \<Rightarrow> bool"

text \<open>The method \<open>HasPermission\<close> of a user.\<close>

definition HasPermission :: "'s account_db \<Rightarrow> User \<Rightarrow> string \<Rightarrow> string \<Rightarrow> 's \<Rightarrow> bool" where
  "HasPermission db u resource action s = ac_grants db (usr_Role u) resource action s"

section \<open>Libraries\<close>

record Claims =
  cl_UserID :: int
  cl_Username :: string
  cl_Role :: string
  cl_ExpiresAt :: time
  cl_IssuedAt :: time
  cl_NotBefore :: time
  cl_Issuer :: string
  cl_Subject :: string

datatype signing_method = HMAC | OtherMethod string

text \<open>\<open>jw_date\<close> is \<open>NewNumericDate\<close>, \<open>jw_sign\<close> signs claims by HS256 with a key, \<open>jw_parse\<close> is \<open>ParseWithClaims\<close>: it
  gets the function that gives the key for the method of the token and the time.\<close>

record jwt =
  jw_date :: "time \<Rightarrow> time"
  jw_sign :: "string \<Rightarrow> Claims \<Rightarrow> string + string"
  jw_parse :: "(signing_method \<Rightarrow> string + string) \<Rightarrow> time \<Rightarrow> string \<Rightarrow> string + Claims"

text \<open>\<open>bc_hash\<close> is \<open>GenerateFromPassword\<close> with the salt it draws, \<open>bc_compare\<close> is \<open>CompareHashAndPassword\<close>.\<close>

record bcrypt =
  bc_hash :: "string \<Rightarrow> string \<Rightarrow> string + string"
  bc_compare :: "string \<Rightarrow> string \<Rightarrow> string option"

datatype auth_failure =
    SignFailed string | SessionNotCreated string | ParseFailed string | SessionNotFound | SessionExpired
  | InvalidRefreshToken | RefreshExpired | UserNotFound | InvalidCredentials | DatabaseFailed string
  | HashFailed string | UserNotCreated string | WrongPassword | PasswordNotUpdated string

text \<open>The result of a query for one row when its error is not looked at.\<close>

definition row_of :: "string + 'row option \<Rightarrow> 'row option" where
  "row_of res = (case res of Inl _ \<Rightarrow> None | Inr r \<Rightarrow> r)"

section \<open>Tokens and sessions\<close>

text \<open>\<open>First\<close> sorts by the primary key; identifiers of sessions have the same length, so that their order is that of
  the numbers they write.\<close>

definition id_number :: "string \<Rightarrow> int" where
  "id_number i = foldl (\<lambda>n c. 256 * n + of_char c) 0 i"

definition first_user :: "'s account_db \<Rightarrow> (User \<Rightarrow> bool) \<Rightarrow> 's \<Rightarrow> string + User option" where
  "first_user db P s = tb_first (ac_users db) P (\<lambda>u. - usr_ID u) s"

definition first_session :: "'s account_db \<Rightarrow> (AuthSession \<Rightarrow> bool) \<Rightarrow> 's \<Rightarrow> AuthSession option" where
  "first_session db P s = row_of (tb_first (ac_sessions db) P (\<lambda>x. - id_number (as_ID x)) s)"

definition generateSessionID :: "byte list \<Rightarrow> string" where
  "generateSessionID rnd = EncodeToString rnd"

definition claims_of :: "jwt \<Rightarrow> User \<Rightarrow> time \<Rightarrow> time \<Rightarrow> time \<Rightarrow> Claims" where
  "claims_of j u expiry issued notBefore = \<lparr>cl_UserID = usr_ID u, cl_Username = usr_Username u, cl_Role = usr_Role u,
     cl_ExpiresAt = jw_date j expiry, cl_IssuedAt = jw_date j issued, cl_NotBefore = jw_date j notBefore,
     cl_Issuer = ''telecom-platform'', cl_Subject = show_int (usr_ID u)\<rparr>"

definition access_claims :: "jwt \<Rightarrow> User \<Rightarrow> (nat \<Rightarrow> time) \<Rightarrow> Claims" where
  "access_claims j u now = claims_of j u (now 0 + 15 * minute) (now 1) (now 2)"

definition refresh_claims :: "jwt \<Rightarrow> User \<Rightarrow> (nat \<Rightarrow> time) \<Rightarrow> Claims" where
  "refresh_claims j u now = claims_of j u (now 3 + 7 * 24 * hour) (now 4) (now 5)"

definition new_session :: "byte list \<Rightarrow> User \<Rightarrow> string \<Rightarrow> string \<Rightarrow> time \<Rightarrow> AuthSession" where
  "new_session rnd u access refresh expiry = \<lparr>as_ID = generateSessionID rnd, as_UserID = usr_ID u, as_Token = access, as_RefreshToken = refresh,
     as_ExpiresAt = expiry, as_IPAddress = '''', as_UserAgent = '''', as_IsActive = True\<rparr>"

definition GenerateToken ::
  "'s account_db \<Rightarrow> jwt \<Rightarrow> string \<Rightarrow> (nat \<Rightarrow> time) \<Rightarrow> byte list \<Rightarrow> User \<Rightarrow> 's \<Rightarrow> (auth_failure + string \<times> string) \<times> 's" where
  "GenerateToken db j key now rnd u s =
     (case jw_sign j key (access_claims j u now) of
        Inl e \<Rightarrow> (Inl (SignFailed e), s)
      | Inr access \<Rightarrow>
        (case jw_sign j key (refresh_claims j u now) of
           Inl e \<Rightarrow> (Inl (SignFailed e), s)
         | Inr refresh \<Rightarrow>
           (let s1 = snd (tb_delete (ac_sessions db) (\<lambda>x. as_UserID x = usr_ID u \<and> \<not> as_IsActive x) s) in
            case tb_create (ac_sessions db) (new_session rnd u access refresh (now 0 + 15 * minute)) s1 of
              (Some e, s2) \<Rightarrow> (Inl (SessionNotCreated e), s2)
            | (None, s2) \<Rightarrow> (Inr (access, refresh), s2))))"

definition key_for :: "string \<Rightarrow> signing_method \<Rightarrow> string + string" where
  "key_for key m = (case m of HMAC \<Rightarrow> Inr key | OtherMethod alg \<Rightarrow> Inl (''unexpected signing method: '' @ alg))"

definition validateTokenWithoutSessionCheck :: "jwt \<Rightarrow> string \<Rightarrow> time \<Rightarrow> string \<Rightarrow> auth_failure + Claims" where
  "validateTokenWithoutSessionCheck j key tm token = map_sum ParseFailed id (jw_parse j (key_for key) tm token)"

definition ValidateToken :: "'s account_db \<Rightarrow> jwt \<Rightarrow> string \<Rightarrow> (nat \<Rightarrow> time) \<Rightarrow> string \<Rightarrow> 's \<Rightarrow> auth_failure + Claims" where
  "ValidateToken db j key now token s =
     (case jw_parse j (key_for key) (now 0) token of
        Inl e \<Rightarrow> Inl (ParseFailed e)
      | Inr claims \<Rightarrow>
        (case first_session db (\<lambda>x. as_Token x = token \<and> as_IsActive x) s of
           None \<Rightarrow> Inl SessionNotFound
         | Some x \<Rightarrow> if as_ExpiresAt x < now 1 then Inl SessionExpired else Inr claims))"

text \<open>Refreshing reads the session and the user, then it writes.\<close>

definition refresh_check :: "'s account_db \<Rightarrow> jwt \<Rightarrow> string \<Rightarrow> (nat \<Rightarrow> time) \<Rightarrow> string \<Rightarrow> 's \<Rightarrow> auth_failure + User" where
  "refresh_check db j key now token s =
     (case first_session db (\<lambda>x. as_RefreshToken x = token \<and> as_IsActive x) s of
        None \<Rightarrow> Inl InvalidRefreshToken
      | Some x \<Rightarrow>
        if as_ExpiresAt x < now 0 then Inl RefreshExpired
        else (case validateTokenWithoutSessionCheck j key (now 1) token of
            Inl _ \<Rightarrow> Inl InvalidRefreshToken
          | Inr claims \<Rightarrow> (case row_of (first_user db (\<lambda>u. usr_ID u = cl_UserID claims) s) of
               None \<Rightarrow> Inl UserNotFound
             | Some u \<Rightarrow> Inr u)))"

definition refresh_issue ::
  "'s account_db \<Rightarrow> jwt \<Rightarrow> string \<Rightarrow> (nat \<Rightarrow> time) \<Rightarrow> byte list \<Rightarrow> string \<Rightarrow> User \<Rightarrow> 's \<Rightarrow> (auth_failure + string \<times> string) \<times> 's" where
  "refresh_issue db j key now rnd token u s =
     GenerateToken db j key (\<lambda>i. now (i + 2)) rnd u (snd (tb_set (ac_sessions db) (\<lambda>x. as_RefreshToken x = token) (\<lambda>x. x\<lparr>as_IsActive := False\<rparr>) s))"

definition RefreshToken ::
  "'s account_db \<Rightarrow> jwt \<Rightarrow> string \<Rightarrow> (nat \<Rightarrow> time) \<Rightarrow> byte list \<Rightarrow> string \<Rightarrow> 's \<Rightarrow> (auth_failure + string \<times> string) \<times> 's" where
  "RefreshToken db j key now rnd token s =
     (case refresh_check db j key now token s of Inl e \<Rightarrow> (Inl e, s) | Inr u \<Rightarrow> refresh_issue db j key now rnd token u s)"

definition InvalidateSession :: "'s account_db \<Rightarrow> string \<Rightarrow> 's \<Rightarrow> string option \<times> 's" where
  "InvalidateSession db token s = tb_set (ac_sessions db) (\<lambda>x. as_Token x = token) (\<lambda>x. x\<lparr>as_IsActive := False\<rparr>) s"

definition InvalidateAllUserSessions :: "'s account_db \<Rightarrow> int \<Rightarrow> 's \<Rightarrow> string option \<times> 's" where
  "InvalidateAllUserSessions db userID s = tb_set (ac_sessions db) (\<lambda>x. as_UserID x = userID) (\<lambda>x. x\<lparr>as_IsActive := False\<rparr>) s"

section \<open>Accounts\<close>

definition HashPassword :: "bcrypt \<Rightarrow> string \<Rightarrow> string \<Rightarrow> auth_failure + string" where
  "HashPassword bc salt password = map_sum HashFailed id (bc_hash bc salt password)"

definition CheckPassword :: "bcrypt \<Rightarrow> string \<Rightarrow> string \<Rightarrow> string option" where
  "CheckPassword bc password hash = bc_compare bc hash password"

definition Login ::
  "'s account_db \<Rightarrow> jwt \<Rightarrow> bcrypt \<Rightarrow> string \<Rightarrow> (nat \<Rightarrow> time) \<Rightarrow> byte list \<Rightarrow> string \<Rightarrow> string \<Rightarrow> 's \<Rightarrow> (auth_failure + string \<times> string \<times> User) \<times> 's" where
  "Login db j bc key now rnd username password s =
     (case first_user db (\<lambda>u. usr_Username u = username \<and> usr_IsActive u) s of
        Inl e \<Rightarrow> (Inl (DatabaseFailed e), s)
      | Inr None \<Rightarrow> (Inl InvalidCredentials, s)
      | Inr (Some u) \<Rightarrow>
        if CheckPassword bc password (usr_Password u) \<noteq> None then (Inl InvalidCredentials, s)
        else
          (let u1 = u\<lparr>usr_LastLogin := Some (now 0)\<rparr>;
               s1 = snd (tb_set (ac_users db) (\<lambda>x. usr_ID x = usr_ID u) (\<lambda>x. x\<lparr>usr_LastLogin := Some (now 0)\<rparr>) s)
           in case GenerateToken db j key (\<lambda>i. now (i + 1)) rnd u1 s1 of
                (Inl e, s2) \<Rightarrow> (Inl e, s2)
              | (Inr (access, refresh), s2) \<Rightarrow> (Inr (access, refresh, u1), s2)))"

text \<open>The database chooses the key \<open>newID\<close>; the column of the role has a default.\<close>

definition new_user :: "int \<Rightarrow> string \<Rightarrow> string \<Rightarrow> string \<Rightarrow> string \<Rightarrow> string \<Rightarrow> string \<Rightarrow> User" where
  "new_user newID username email hashed firstName lastName role = \<lparr>usr_ID = newID, usr_Username = username, usr_Email = email, usr_Password = hashed,
     usr_FirstName = firstName, usr_LastName = lastName, usr_Role = (if role = '''' then ''viewer'' else role), usr_IsActive = True, usr_LastLogin = None\<rparr>"

definition Register ::
  "'s account_db \<Rightarrow> bcrypt \<Rightarrow> string \<Rightarrow> int \<Rightarrow> string \<Rightarrow> string \<Rightarrow> string \<Rightarrow> string \<Rightarrow> string \<Rightarrow> string \<Rightarrow> 's \<Rightarrow> (auth_failure + User) \<times> 's" where
  "Register db bc salt newID username email password firstName lastName role s =
     (case HashPassword bc salt password of
        Inl e \<Rightarrow> (Inl e, s)
      | Inr hashed \<Rightarrow>
        (let u = new_user newID username email hashed firstName lastName role in
         case tb_create (ac_users db) u s of (Some e, s1) \<Rightarrow> (Inl (UserNotCreated e), s1) | (None, s1) \<Rightarrow> (Inr u, s1)))"

definition GetUserByID :: "'s account_db \<Rightarrow> int \<Rightarrow> 's \<Rightarrow> auth_failure + User" where
  "GetUserByID db userID s = (case row_of (first_user db (\<lambda>u. usr_ID u = userID) s) of None \<Rightarrow> Inl UserNotFound | Some u \<Rightarrow> Inr u)"

text \<open>Whether the sessions were invalidated is not looked at.\<close>

definition ChangePassword :: "'s account_db \<Rightarrow> bcrypt \<Rightarrow> string \<Rightarrow> int \<Rightarrow> string \<Rightarrow> string \<Rightarrow> 's \<Rightarrow> auth_failure option \<times> 's" where
  "ChangePassword db bc salt userID oldPassword newPassword s =
     (case row_of (first_user db (\<lambda>u. usr_ID u = userID) s) of
        None \<Rightarrow> (Some UserNotFound, s)
      | Some u \<Rightarrow>
        if CheckPassword bc oldPassword (usr_Password u) \<noteq> None then (Some WrongPassword, s)
        else (case HashPassword bc salt newPassword of
            Inl e \<Rightarrow> (Some e, s)
          | Inr hashed \<Rightarrow>
            (case tb_set (ac_users db) (\<lambda>x. usr_ID x = usr_ID u) (\<lambda>x. x\<lparr>usr_Password := hashed\<rparr>) s of
               (Some e, s1) \<Rightarrow> (Some (PasswordNotUpdated e), s1)
             | (None, s1) \<Rightarrow> (None, snd (InvalidateAllUserSessions db userID s1)))))"
section \<open>The middleware\<close>

text \<open>What the middleware stores in the context of a request, and what becomes of the request: it is aborted with a
  status, or passed on.\<close>

record request_ctx =
  rc_user :: "User option"
  rc_user_id :: "int option"
  rc_username :: "string option"
  rc_role :: "string option"
  rc_db :: bool

datatype outcome = Aborted int | PassedOn request_ctx

definition no_ctx :: request_ctx where
  "no_ctx = \<lparr>rc_user = None, rc_user_id = None, rc_username = None, rc_role = None, rc_db = False\<rparr>"

definition bearer_token :: "string \<Rightarrow> string option" where
  "bearer_token header = (case split_on (CHR '' '') header of
     [b, token] \<Rightarrow> if b = ''Bearer'' then Some token else None
   | _ \<Rightarrow> None)"

definition set_user :: "User \<Rightarrow> Claims \<Rightarrow> request_ctx \<Rightarrow> request_ctx" where
  "set_user u claims c = c\<lparr>rc_user := Some u, rc_user_id := Some (cl_UserID claims), rc_username := Some (cl_Username claims), rc_role := Some (cl_Role claims)\<rparr>"

definition AuthMiddleware :: "'s account_db \<Rightarrow> jwt \<Rightarrow> string \<Rightarrow> (nat \<Rightarrow> time) \<Rightarrow> string \<Rightarrow> request_ctx \<Rightarrow> 's \<Rightarrow> outcome" where
  "AuthMiddleware db j key now header c s =
     (if header = '''' then Aborted 401
      else (case bearer_token header of
          None \<Rightarrow> Aborted 401
        | Some token \<Rightarrow> (case ValidateToken db j key now token s of
            Inl _ \<Rightarrow> Aborted 401
          | Inr claims \<Rightarrow> (case GetUserByID db (cl_UserID claims) s of
              Inl _ \<Rightarrow> Aborted 401
            | Inr u \<Rightarrow> PassedOn (set_user u claims c)))))"

definition OptionalAuthMiddleware :: "'s account_db \<Rightarrow> jwt \<Rightarrow> string \<Rightarrow> (nat \<Rightarrow> time) \<Rightarrow> string \<Rightarrow> request_ctx \<Rightarrow> 's \<Rightarrow> outcome" where
  "OptionalAuthMiddleware db j key now header c s =
     (if header = '''' then PassedOn c
      else (case bearer_token header of
          None \<Rightarrow> PassedOn c
        | Some token \<Rightarrow> (case ValidateToken db j key now token s of
            Inl _ \<Rightarrow> PassedOn c
          | Inr claims \<Rightarrow> (case GetUserByID db (cl_UserID claims) s of
              Inl _ \<Rightarrow> PassedOn c
            | Inr u \<Rightarrow> PassedOn (set_user u claims c)))))"

definition RequirePermission :: "'s account_db \<Rightarrow> string \<Rightarrow> string \<Rightarrow> request_ctx \<Rightarrow> 's \<Rightarrow> outcome" where
  "RequirePermission db resource action c s =
     (case rc_user c of
        None \<Rightarrow> Aborted 401
      | Some u \<Rightarrow> if \<not> rc_db c then Aborted 500
          else if \<not> HasPermission db u resource action s then Aborted 403
          else PassedOn c)"

definition RequireRole :: "string list \<Rightarrow> request_ctx \<Rightarrow> outcome" where
  "RequireRole allowedRoles c =
     (case rc_role c of
        None \<Rightarrow> Aborted 401
      | Some role \<Rightarrow> if role \<in> set allowedRoles then PassedOn c else Aborted 403)"

section \<open>Policies\<close>

text \<open>The enforcer of Casbin with the model of \<open>NewCasbinService\<close>: a request of a role, an object and an action, policies of
  the same three, the effect is that some policy allows.\<close>

record 'e casbin =
  cb_AddPolicy :: "string list \<Rightarrow> 'e \<Rightarrow> (string + bool) \<times> 'e"
  cb_RemovePolicy :: "string list \<Rightarrow> 'e \<Rightarrow> (string + bool) \<times> 'e"
  cb_Enforce :: "string \<Rightarrow> string \<Rightarrow> string \<Rightarrow> 'e \<Rightarrow> string + bool"
  cb_GetPolicy :: "'e \<Rightarrow> string + string list list"
  cb_GetPermissionsForUser :: "string \<Rightarrow> 'e \<Rightarrow> string + string list list"

datatype casbin_error = EnforcerFailed string | PolicyExists | PolicyMissing | NoSuchUser

definition defaultPolicies :: "string list list" where
  "defaultPolicies = [
     [''admin'', ''/v1/services'', ''GET''],
     [''admin'', ''/v1/services'', ''POST''],
     [''admin'', ''/v1/monitoring'', ''GET''],
     [''admin'', ''/v1/deploy'', ''GET''],
     [''admin'', ''/v1/deploy'', ''POST''],
     [''admin'', ''/v1/plugins'', ''GET''],
     [''admin'', ''/v1/plugins'', ''POST''],
     [''admin'', ''/v1/plugins'', ''DELETE''],
     [''admin'', ''/v1/automation'', ''GET''],
     [''admin'', ''/v1/automation'', ''POST''],
     [''admin'', ''/v1/billing'', ''GET''],
     [''admin'', ''/v1/billing'', ''POST''],
     [''admin'', ''/v1/config'', ''GET''],
     [''admin'', ''/v1/config'', ''POST''],
     [''admin'', ''/v1/chaos'', ''GET''],
     [''admin'', ''/v1/chaos'', ''POST''],
     [''operator'', ''/v1/services'', ''GET''],
     [''operator'', ''/v1/services'', ''POST''],
     [''operator'', ''/v1/monitoring'', ''GET''],
     [''operator'', ''/v1/deploy'', ''GET''],
     [''operator'', ''/v1/plugins'', ''GET''],
     [''operator'', ''/v1/automation'', ''GET''],
     [''operator'', ''/v1/billing'', ''GET''],
     [''operator'', ''/v1/config'', ''GET''],
     [''operator'', ''/v1/chaos'', ''GET''],
     [''viewer'', ''/v1/services'', ''GET''],
     [''viewer'', ''/v1/monitoring'', ''GET''],
     [''viewer'', ''/v1/deploy'', ''GET''],
     [''viewer'', ''/v1/plugins'', ''GET''],
     [''viewer'', ''/v1/automation'', ''GET''],
     [''viewer'', ''/v1/billing'', ''GET''],
     [''viewer'', ''/v1/config'', ''GET''],
     [''viewer'', ''/v1/chaos'', ''GET'']]"

fun add_policies :: "'e casbin \<Rightarrow> string list list \<Rightarrow> 'e \<Rightarrow> casbin_error option \<times> 'e" where
  "add_policies cb [] e = (None, e)"
| "add_policies cb (p # ps) e = (case cb_AddPolicy cb p e of
     (Inl err, e') \<Rightarrow> (Some (EnforcerFailed err), e')
   | (Inr _, e') \<Rightarrow> add_policies cb ps e')"

definition initializeDefaultPolicies :: "'e casbin \<Rightarrow> 'e \<Rightarrow> casbin_error option \<times> 'e" where
  "initializeDefaultPolicies cb e = add_policies cb defaultPolicies e"

definition CheckPermission :: "'s account_db \<Rightarrow> 'e casbin \<Rightarrow> int \<Rightarrow> string \<Rightarrow> string \<Rightarrow> 's \<Rightarrow> 'e \<Rightarrow> casbin_error + bool" where
  "CheckPermission db cb userID resource action s e =
     (case row_of (first_user db (\<lambda>u. usr_ID u = userID) s) of
        None \<Rightarrow> Inl NoSuchUser
      | Some u \<Rightarrow> map_sum EnforcerFailed id (cb_Enforce cb (usr_Role u) resource action e))"

definition AddPolicy :: "'e casbin \<Rightarrow> string \<Rightarrow> string \<Rightarrow> string \<Rightarrow> 'e \<Rightarrow> casbin_error option \<times> 'e" where
  "AddPolicy cb role resource action e = (case cb_AddPolicy cb [role, resource, action] e of
     (Inl err, e') \<Rightarrow> (Some (EnforcerFailed err), e')
   | (Inr ok, e') \<Rightarrow> (if ok then None else Some PolicyExists, e'))"

definition RemovePolicy :: "'e casbin \<Rightarrow> string \<Rightarrow> string \<Rightarrow> string \<Rightarrow> 'e \<Rightarrow> casbin_error option \<times> 'e" where
  "RemovePolicy cb role resource action e = (case cb_RemovePolicy cb [role, resource, action] e of
     (Inl err, e') \<Rightarrow> (Some (EnforcerFailed err), e')
   | (Inr ok, e') \<Rightarrow> (if ok then None else Some PolicyMissing, e'))"

definition GetPolicies :: "'e casbin \<Rightarrow> 'e \<Rightarrow> string + string list list" where
  "GetPolicies cb e = cb_GetPolicy cb e"

definition GetRolesForUser :: "'s account_db \<Rightarrow> int \<Rightarrow> 's \<Rightarrow> casbin_error + string list" where
  "GetRolesForUser db userID s = (case row_of (first_user db (\<lambda>u. usr_ID u = userID) s) of None \<Rightarrow> Inl NoSuchUser | Some u \<Rightarrow> Inr [usr_Role u])"

definition GetPermissionsForRole :: "'e casbin \<Rightarrow> string \<Rightarrow> 'e \<Rightarrow> string + string list list" where
  "GetPermissionsForRole cb role e = cb_GetPermissionsForUser cb role e"

definition HasPermissionForRole :: "'e casbin \<Rightarrow> string \<Rightarrow> string \<Rightarrow> string \<Rightarrow> 'e \<Rightarrow> string + bool" where
  "HasPermissionForRole cb role resource action e = cb_Enforce cb role resource action e"

text \<open>\<open>AssignRole\<close> and \<open>RemoveRole\<close> do nothing and report success.\<close>

definition AssignRole :: "int \<Rightarrow> string \<Rightarrow> 's \<Rightarrow> casbin_error option \<times> 's" where
  "AssignRole userID roleName s = (None, s)"

definition RemoveRole :: "int \<Rightarrow> string \<Rightarrow> 's \<Rightarrow> casbin_error option \<times> 's" where
  "RemoveRole userID roleName s = (None, s)"

definition RequireCasbinPermission :: "'s account_db \<Rightarrow> 'e casbin \<Rightarrow> string \<Rightarrow> string \<Rightarrow> request_ctx \<Rightarrow> 's \<Rightarrow> 'e \<Rightarrow> outcome" where
  "RequireCasbinPermission db cb resource action c s e =
     (case rc_user_id c of
        None \<Rightarrow> Aborted 401
      | Some userID \<Rightarrow> (case CheckPermission db cb userID resource action s e of
          Inl _ \<Rightarrow> Aborted 500
        | Inr allowed \<Rightarrow> if \<not> allowed then Aborted 403 else PassedOn c))"

text \<open>A group of routes is guarded by Casbin where it is configured, and by roles otherwise.\<close>

definition applyRBAC :: "'s account_db \<Rightarrow> ('e casbin \<times> 'e) option \<Rightarrow> string \<Rightarrow> string \<Rightarrow> string list \<Rightarrow> request_ctx \<Rightarrow> 's \<Rightarrow> outcome" where
  "applyRBAC db casbinSvc path action fallbackRoles c s =
     (case casbinSvc of
        Some (cb, e) \<Rightarrow> RequireCasbinPermission db cb path action c s e
      | None \<Rightarrow> RequireRole fallbackRoles c)"

section \<open>The handlers\<close>

text \<open>An answer is a status and, if the request succeeded, a body.\<close>

type_synonym 'a answer = "int \<times> 'a option"

record LoginRequest =
  lq_Username :: string
  lq_Password :: string

record RegisterRequest =
  rq_Username :: string
  rq_Email :: string
  rq_Password :: string
  rq_FirstName :: string
  rq_LastName :: string
  rq_Role :: string

record ChangePasswordRequest =
  cp_OldPassword :: string
  cp_NewPassword :: string

text \<open>The validation that the tags of the fields ask for: \<open>min=6\<close> counts characters, those bytes of valid UTF-8 that continue no
  character. What an e-mail address is is a parameter.\<close>

definition characters :: "string \<Rightarrow> nat" where
  "characters s = length (filter (\<lambda>c. \<not> (128 \<le> (of_char c :: nat) \<and> (of_char c :: nat) < 192)) s)"

definition valid_login :: "LoginRequest \<Rightarrow> bool" where
  "valid_login r \<longleftrightarrow> lq_Username r \<noteq> '''' \<and> lq_Password r \<noteq> ''''"

definition valid_register :: "(string \<Rightarrow> bool) \<Rightarrow> RegisterRequest \<Rightarrow> bool" where
  "valid_register is_email r \<longleftrightarrow> rq_Username r \<noteq> '''' \<and> rq_Email r \<noteq> '''' \<and> is_email (rq_Email r) \<and> rq_Password r \<noteq> '''' \<and> 6 \<le> characters (rq_Password r)
     \<and> rq_FirstName r \<noteq> '''' \<and> rq_LastName r \<noteq> '''' \<and> rq_Role r \<noteq> '''' \<and> rq_Role r \<in> {''admin'', ''operator'', ''viewer''}"

definition valid_change :: "ChangePasswordRequest \<Rightarrow> bool" where
  "valid_change r \<longleftrightarrow> cp_OldPassword r \<noteq> '''' \<and> cp_NewPassword r \<noteq> '''' \<and> 6 \<le> characters (cp_NewPassword r)"

definition h_Login :: "'s account_db \<Rightarrow> jwt \<Rightarrow> bcrypt \<Rightarrow> string \<Rightarrow> (nat \<Rightarrow> time) \<Rightarrow> byte list \<Rightarrow> LoginRequest \<Rightarrow> 's \<Rightarrow> (string \<times> string \<times> User) answer \<times> 's" where
  "h_Login db j bc key now rnd r s =
     (if \<not> valid_login r then ((400, None), s)
      else (case Login db j bc key now rnd (lq_Username r) (lq_Password r) s of
          (Inl _, s1) \<Rightarrow> ((401, None), s1)
        | (Inr x, s1) \<Rightarrow> ((200, Some x), s1)))"

definition h_Register ::
  "'s account_db \<Rightarrow> bcrypt \<Rightarrow> (string \<Rightarrow> bool) \<Rightarrow> (string \<Rightarrow> string) \<Rightarrow> string \<Rightarrow> int \<Rightarrow> RegisterRequest \<Rightarrow> 's \<Rightarrow> User answer \<times> 's" where
  "h_Register db bc is_email sanitize salt newID r s =
     (if \<not> valid_register is_email r then ((400, None), s)
      else (case Register db bc salt newID (sanitize (rq_Username r)) (sanitize (rq_Email r)) (rq_Password r) (sanitize (rq_FirstName r))
              (sanitize (rq_LastName r)) (sanitize (rq_Role r)) s of
          (Inl _, s1) \<Rightarrow> ((400, None), s1)
        | (Inr u, s1) \<Rightarrow> ((201, Some (u\<lparr>usr_Password := ''''\<rparr>)), s1)))"

definition h_CreateUser :: "'s account_db \<Rightarrow> bcrypt \<Rightarrow> (string \<Rightarrow> bool) \<Rightarrow> string \<Rightarrow> int \<Rightarrow> RegisterRequest \<Rightarrow> 's \<Rightarrow> User answer \<times> 's" where
  "h_CreateUser db bc is_email salt newID r s =
     (if \<not> valid_register is_email r then ((400, None), s)
      else (case Register db bc salt newID (rq_Username r) (rq_Email r) (rq_Password r) (rq_FirstName r) (rq_LastName r) (rq_Role r) s of
          (Inl _, s1) \<Rightarrow> ((400, None), s1)
        | (Inr u, s1) \<Rightarrow> ((201, Some (u\<lparr>usr_Password := ''''\<rparr>)), s1)))"

definition h_RefreshToken :: "'s account_db \<Rightarrow> jwt \<Rightarrow> string \<Rightarrow> (nat \<Rightarrow> time) \<Rightarrow> byte list \<Rightarrow> string \<Rightarrow> 's \<Rightarrow> (string \<times> string) answer \<times> 's" where
  "h_RefreshToken db j key now rnd token s =
     (if token = '''' then ((400, None), s)
      else (case RefreshToken db j key now rnd token s of
          (Inl _, s1) \<Rightarrow> ((401, None), s1)
        | (Inr x, s1) \<Rightarrow> ((200, Some x), s1)))"

definition h_Logout :: "'s account_db \<Rightarrow> string \<Rightarrow> 's \<Rightarrow> unit answer \<times> 's" where
  "h_Logout db header s =
     (if header = '''' then ((400, None), s)
      else (case bearer_token header of
          None \<Rightarrow> ((400, None), s)
        | Some token \<Rightarrow> (case InvalidateSession db token s of
            (Some _, s1) \<Rightarrow> ((500, None), s1)
          | (None, s1) \<Rightarrow> ((200, Some ()), s1))))"

definition h_GetProfile :: "'s account_db \<Rightarrow> request_ctx \<Rightarrow> 's \<Rightarrow> User answer" where
  "h_GetProfile db c s =
     (case rc_user_id c of
        None \<Rightarrow> (401, None)
      | Some userID \<Rightarrow> (case GetUserByID db userID s of Inl _ \<Rightarrow> (404, None) | Inr u \<Rightarrow> (200, Some (u\<lparr>usr_Password := ''''\<rparr>))))"

definition h_ChangePassword :: "'s account_db \<Rightarrow> bcrypt \<Rightarrow> string \<Rightarrow> request_ctx \<Rightarrow> ChangePasswordRequest \<Rightarrow> 's \<Rightarrow> unit answer \<times> 's" where
  "h_ChangePassword db bc salt c r s =
     (case rc_user_id c of
        None \<Rightarrow> ((401, None), s)
      | Some userID \<Rightarrow>
        if \<not> valid_change r then ((400, None), s)
        else (case ChangePassword db bc salt userID (cp_OldPassword r) (cp_NewPassword r) s of
            (Some _, s1) \<Rightarrow> ((400, None), s1)
          | (None, s1) \<Rightarrow> ((200, Some ()), s1)))"

text \<open>\<open>page0\<close> and \<open>limit0\<close> are what \<open>strconv.Atoi\<close> reads in the query. The body is the page, the limit, the number of users, the number of
  pages and the users.\<close>

definition h_GetUsers :: "'s account_db \<Rightarrow> int \<Rightarrow> int \<Rightarrow> 's \<Rightarrow> (int \<times> int \<times> int \<times> int \<times> User list) answer" where
  "h_GetUsers db page0 limit0 s =
     (let page = (if page0 < 1 then 1 else page0);
          limit = (if limit0 < 1 \<or> 100 < limit0 then 20 else limit0);
          offset = i64 (i64 (page - 1) * limit)
      in case tb_count (ac_users db) (\<lambda>_. True) s of
           Inl _ \<Rightarrow> (500, None)
         | Inr totalUsers \<Rightarrow> (case tb_find (ac_users db) (\<lambda>_. True) (\<lambda>_. 0) (Some limit) (Some offset) s of
             Inl _ \<Rightarrow> (500, None)
           | Inr users \<Rightarrow> (200, Some (page, limit, totalUsers, go_quot (i64 (i64 (totalUsers + limit) - 1)) limit, map (\<lambda>u. u\<lparr>usr_Password := ''''\<rparr>) users))))"

record UpdateUserRequest =
  uu_FirstName :: "string option"
  uu_LastName :: "string option"
  uu_Email :: "string option"
  uu_Role :: "string option"
  uu_IsActive :: "bool option"

definition given :: "'a option \<Rightarrow> 'a \<Rightarrow> 'a" where
  "given new old = (case new of None \<Rightarrow> old | Some x \<Rightarrow> x)"

definition updated_user :: "UpdateUserRequest \<Rightarrow> User \<Rightarrow> User" where
  "updated_user r u = u\<lparr>usr_FirstName := given (uu_FirstName r) (usr_FirstName u), usr_LastName := given (uu_LastName r) (usr_LastName u),
     usr_Email := given (uu_Email r) (usr_Email u), usr_Role := given (uu_Role r) (usr_Role u), usr_IsActive := given (uu_IsActive r) (usr_IsActive u)\<rparr>"

text \<open>\<open>userID\<close> is what \<open>strconv.ParseUint\<close> reads in the path.\<close>

definition h_UpdateUser :: "'s account_db \<Rightarrow> int option \<Rightarrow> UpdateUserRequest option \<Rightarrow> 's \<Rightarrow> User answer \<times> 's" where
  "h_UpdateUser db userID req s =
     (case userID of
        None \<Rightarrow> ((400, None), s)
      | Some i \<Rightarrow> (case req of
          None \<Rightarrow> ((400, None), s)
        | Some r \<Rightarrow> (case row_of (first_user db (\<lambda>u. usr_ID u = i) s) of
            None \<Rightarrow> ((404, None), s)
          | Some u \<Rightarrow> (case tb_save (ac_users db) (updated_user r u) s of
              (Some _, s1) \<Rightarrow> ((500, None), s1)
            | (None, s1) \<Rightarrow> ((200, Some ((updated_user r u)\<lparr>usr_Password := ''''\<rparr>)), s1)))))"

definition h_DeleteUser :: "'s account_db \<Rightarrow> int option \<Rightarrow> request_ctx \<Rightarrow> 's \<Rightarrow> unit answer \<times> 's" where
  "h_DeleteUser db userID c s =
     (case userID of
        None \<Rightarrow> ((400, None), s)
      | Some i \<Rightarrow> (case rc_user_id c of
          None \<Rightarrow> ((401, None), s)
        | Some current \<Rightarrow>
          if current = i then ((400, None), s)
          else (case tb_delete (ac_users db) (\<lambda>u. usr_ID u = i) s of
              (Inl _, s1) \<Rightarrow> ((500, None), s1)
            | (Inr _, s1) \<Rightarrow> ((200, Some ()), s1))))"
section \<open>What is used of the libraries\<close>

definition whole :: "Claims \<Rightarrow> bool" where
  "whole c \<longleftrightarrow> cl_ExpiresAt c mod second = 0 \<and> cl_IssuedAt c mod second = 0 \<and> cl_NotBefore c mod second = 0"

definition valid_at :: "time \<Rightarrow> Claims \<Rightarrow> bool" where
  "valid_at t c \<longleftrightarrow> cl_NotBefore c \<le> t \<and> t < cl_ExpiresAt c"

text \<open>Dates are whole seconds, and a token that was signed with the key that the given function returns for its method parses to
  its claims exactly at the times at which they are valid.\<close>

definition jwt_ok :: "jwt \<Rightarrow> bool" where
  "jwt_ok j \<longleftrightarrow> (\<forall>t. jw_date j t = t - t mod second)
     \<and> (\<forall>key f t c token. whole c \<longrightarrow> jw_sign j key c = Inr token \<longrightarrow> f HMAC = Inr key \<longrightarrow>
          (if valid_at t c then jw_parse j f t token = Inr c else \<exists>e. jw_parse j f t token = Inl e))"

definition account_ok :: "'s account_db \<Rightarrow> ('s \<Rightarrow> User multiset) \<Rightarrow> ('s \<Rightarrow> AuthSession multiset) \<Rightarrow> bool" where
  "account_ok db users sessions \<longleftrightarrow>
     (\<exists>m. table_ok (ac_users db) users m) \<and> (\<exists>m. table_ok (ac_sessions db) sessions m)
   \<and> set_ok (ac_users db) users \<and> set_ok (ac_sessions db) sessions \<and> save_ok (ac_users db) users usr_ID
   \<and> table_frame (ac_users db) sessions \<and> table_frame (ac_sessions db) users
   \<and> (\<forall>P f s. sessions (snd (tb_set (ac_users db) P f s)) = sessions s)
   \<and> (\<forall>P f s. users (snd (tb_set (ac_sessions db) P f s)) = users s)"

text \<open>A database whose queries and insertions do not fail.\<close>

definition reliable :: "'s account_db \<Rightarrow> bool" where
  "reliable db \<longleftrightarrow> (\<forall>P k s. \<exists>r. tb_first (ac_users db) P k s = Inr r) \<and> (\<forall>P k s. \<exists>r. tb_first (ac_sessions db) P k s = Inr r)
     \<and> (\<forall>u s. fst (tb_create (ac_users db) u s) = None) \<and> (\<forall>x s. fst (tb_create (ac_sessions db) x s) = None)"

lemma account_sessions:
  assumes "account_ok db users sessions"
  shows "first_session db P s = Some x \<Longrightarrow> x \<in># sessions s \<and> P x"
    "tb_set (ac_sessions db) P f s = (err, s') \<Longrightarrow> sessions s' = (if err = None then image_mset (\<lambda>x. if P x then f x else x) (sessions s) else sessions s) \<and> users s' = users s"
    "tb_create (ac_sessions db) x s = (err, s') \<Longrightarrow> sessions s' = (if err = None then add_mset x (sessions s) else sessions s) \<and> users s' = users s"
    "sessions (snd (tb_delete (ac_sessions db) P s)) \<in> {sessions s, filter_mset (\<lambda>x. \<not> P x) (sessions s)} \<and> users (snd (tb_delete (ac_sessions db) P s)) = users s"
proof -
  obtain m where t: "table_ok (ac_sessions db) sessions m" and st: "set_ok (ac_sessions db) sessions" and fr: "table_frame (ac_sessions db) users"
    and fs: "\<forall>P f s. users (snd (tb_set (ac_sessions db) P f s)) = users s"
    using assms unfolding account_ok_def by blast
  show "first_session db P s = Some x \<Longrightarrow> x \<in># sessions s \<and> P x"
    using table_first[OF t] by (auto simp: first_session_def row_of_def split: sum.splits)
  show "tb_set (ac_sessions db) P f s = (err, s') \<Longrightarrow> sessions s' = (if err = None then image_mset (\<lambda>x. if P x then f x else x) (sessions s) else sessions s) \<and> users s' = users s"
    using table_set[OF st] fs by (metis snd_conv)
  show "tb_create (ac_sessions db) x s = (err, s') \<Longrightarrow> sessions s' = (if err = None then add_mset x (sessions s) else sessions s) \<and> users s' = users s"
    using table_create[OF t] frame_create[OF fr] by blast
  obtain res s' where d: "tb_delete (ac_sessions db) P s = (res, s')" by (cases "tb_delete (ac_sessions db) P s")
  show "sessions (snd (tb_delete (ac_sessions db) P s)) \<in> {sessions s, filter_mset (\<lambda>x. \<not> P x) (sessions s)} \<and> users (snd (tb_delete (ac_sessions db) P s)) = users s"
    using table_delete[OF t d] frame_delete[OF fr d] d by (simp split: sum.splits)
qed

lemma account_users:
  assumes "account_ok db users sessions"
  shows "first_user db P s = Inr (Some u) \<Longrightarrow> u \<in># users s \<and> P u" "first_user db P s = Inr None \<Longrightarrow> \<forall>u \<in># users s. \<not> P u"
    "tb_set (ac_users db) P f s = (err, s') \<Longrightarrow> users s' = (if err = None then image_mset (\<lambda>x. if P x then f x else x) (users s) else users s) \<and> sessions s' = sessions s"
    "tb_create (ac_users db) u s = (err, s') \<Longrightarrow> users s' = (if err = None then add_mset u (users s) else users s) \<and> sessions s' = sessions s"
    "tb_save (ac_users db) u s = (err, s') \<Longrightarrow> users s' = (if err = None then add_mset u (filter_mset (\<lambda>x. usr_ID x \<noteq> usr_ID u) (users s)) else users s) \<and> sessions s' = sessions s"
    "tb_delete (ac_users db) P s = (res, s') \<Longrightarrow> sessions s' = sessions s"
proof -
  obtain m where t: "table_ok (ac_users db) users m" and st: "set_ok (ac_users db) users" and sv: "save_ok (ac_users db) users usr_ID"
    and fr: "table_frame (ac_users db) sessions" and fs: "\<forall>P f s. sessions (snd (tb_set (ac_users db) P f s)) = sessions s"
    using assms unfolding account_ok_def by blast
  show "first_user db P s = Inr (Some u) \<Longrightarrow> u \<in># users s \<and> P u" using table_first[OF t] by (auto simp: first_user_def)
  show "first_user db P s = Inr None \<Longrightarrow> \<forall>u \<in># users s. \<not> P u" using table_first_none[OF t] unfolding first_user_def by blast
  show "tb_set (ac_users db) P f s = (err, s') \<Longrightarrow> users s' = (if err = None then image_mset (\<lambda>x. if P x then f x else x) (users s) else users s) \<and> sessions s' = sessions s"
    using table_set[OF st] fs by (metis snd_conv)
  show "tb_create (ac_users db) u s = (err, s') \<Longrightarrow> users s' = (if err = None then add_mset u (users s) else users s) \<and> sessions s' = sessions s"
    using table_create[OF t] frame_create[OF fr] by blast
  show "tb_save (ac_users db) u s = (err, s') \<Longrightarrow> users s' = (if err = None then add_mset u (filter_mset (\<lambda>x. usr_ID x \<noteq> usr_ID u) (users s)) else users s) \<and> sessions s' = sessions s"
    using table_save[OF sv] frame_save[OF fr] by blast
  show "tb_delete (ac_users db) P s = (res, s') \<Longrightarrow> sessions s' = sessions s" by (rule frame_delete[OF fr])
qed

section \<open>Sessions of reachable states\<close>

datatype auth_op =
    OpLogin "nat \<Rightarrow> time" "byte list" string string
  | OpRegister string int string string string string string string
  | OpRefresh "nat \<Rightarrow> time" "byte list" string
  | OpLogout string
  | OpChangePassword string int string string
  | OpUpdateUser "int option" "UpdateUserRequest option"
  | OpDeleteUser "int option" request_ctx

fun auth_step :: "'s account_db \<Rightarrow> jwt \<Rightarrow> bcrypt \<Rightarrow> string \<Rightarrow> auth_op \<Rightarrow> 's \<Rightarrow> 's" where
  "auth_step db j bc key (OpLogin now rnd username password) s = snd (Login db j bc key now rnd username password s)"
| "auth_step db j bc key (OpRegister salt newID username email password firstName lastName role) s =
     snd (Register db bc salt newID username email password firstName lastName role s)"
| "auth_step db j bc key (OpRefresh now rnd token) s = snd (RefreshToken db j key now rnd token s)"
| "auth_step db j bc key (OpLogout token) s = snd (InvalidateSession db token s)"
| "auth_step db j bc key (OpChangePassword salt userID oldPassword newPassword) s = snd (ChangePassword db bc salt userID oldPassword newPassword s)"
| "auth_step db j bc key (OpUpdateUser userID req) s = snd (h_UpdateUser db userID req s)"
| "auth_step db j bc key (OpDeleteUser userID c) s = snd (h_DeleteUser db userID c s)"

text \<open>The tokens an operation issues: for a user, with the readings of the clock of \<open>GenerateToken\<close>.\<close>

inductive issues :: "'s account_db \<Rightarrow> jwt \<Rightarrow> bcrypt \<Rightarrow> string \<Rightarrow> auth_op \<Rightarrow> 's \<Rightarrow> User \<Rightarrow> (nat \<Rightarrow> time) \<Rightarrow> string \<Rightarrow> string \<Rightarrow> bool"
  for db j bc key where
  by_login: "fst (Login db j bc key now rnd username password s) = Inr (a, r, u)
     \<Longrightarrow> issues db j bc key (OpLogin now rnd username password) s u (\<lambda>i. now (i + 1)) a r"
| by_refresh: "refresh_check db j key now token s = Inr u \<Longrightarrow> fst (RefreshToken db j key now rnd token s) = Inr (a, r)
     \<Longrightarrow> issues db j bc key (OpRefresh now rnd token) s u (\<lambda>i. now (i + 2)) a r"

inductive_cases issues_login: "issues db j bc key (OpLogin now rnd username password) s u n a r"
inductive_cases issues_refresh: "issues db j bc key (OpRefresh now rnd token) s u n a r"

lemma generate_sessions:
  assumes "account_ok db users sessions" "GenerateToken db j key now rnd u s = (res, s')"
  shows "users s' = users s \<and> (\<exists>M. M \<subseteq># sessions s \<and> (case res of
      Inl _ \<Rightarrow> sessions s' = M
    | Inr (a, r) \<Rightarrow> sessions s' = add_mset (new_session rnd u a r (now 0 + 15 * minute)) M
        \<and> jw_sign j key (access_claims j u now) = Inr a \<and> jw_sign j key (refresh_claims j u now) = Inr r))"
proof (cases "jw_sign j key (access_claims j u now)")
  case (Inr a)
  show ?thesis
  proof (cases "jw_sign j key (refresh_claims j u now)")
    case r: (Inr r)
    let ?P = "\<lambda>x. as_UserID x = usr_ID u \<and> \<not> as_IsActive x"
    let ?s1 = "snd (tb_delete (ac_sessions db) ?P s)"
    let ?x = "new_session rnd u a r (now 0 + 15 * minute)"
    obtain err s2 where c: "tb_create (ac_sessions db) ?x ?s1 = (err, s2)" by (cases "tb_create (ac_sessions db) ?x ?s1")
    have d: "sessions ?s1 \<subseteq># sessions s" "users ?s1 = users s"
      using account_sessions(4)[OF assms(1), of ?P s] by auto
    note e = account_sessions(3)[OF assms(1) c]
    show ?thesis
    proof (cases err)
      case None
      then have "res = Inr (a, r)" "s' = s2" using assms(2) Inr r c by (auto simp: GenerateToken_def Let_def)
      then show ?thesis using d e None Inr r by auto
    next
      case (Some x)
      then have "res = Inl (SessionNotCreated x)" "s' = s2" using assms(2) Inr r c by (auto simp: GenerateToken_def Let_def)
      then show ?thesis using d e Some by auto
    qed
  qed (use assms(2) Inr in \<open>auto simp: GenerateToken_def\<close>)
qed (use assms(2) in \<open>auto simp: GenerateToken_def\<close>)

text \<open>A session after an operation is one from before, perhaps no longer active, or one of the issued tokens.\<close>

definition derived :: "AuthSession \<Rightarrow> AuthSession multiset \<Rightarrow> bool" where
  "derived x M \<longleftrightarrow> (\<exists>y \<in># M. x = y \<or> x = y\<lparr>as_IsActive := False\<rparr>)"

definition issued :: "'s account_db \<Rightarrow> jwt \<Rightarrow> bcrypt \<Rightarrow> string \<Rightarrow> auth_op \<Rightarrow> 's \<Rightarrow> AuthSession \<Rightarrow> bool" where
  "issued db j bc key op s x \<longleftrightarrow> (\<exists>u now a r rnd. issues db j bc key op s u now a r \<and> x = new_session rnd u a r (now 0 + 15 * minute)
     \<and> jw_sign j key (access_claims j u now) = Inr a \<and> jw_sign j key (refresh_claims j u now) = Inr r)"

lemma derived_self: "x \<in># M \<Longrightarrow> derived x M"
  by (auto simp: derived_def)

lemma issuedI:
  "issues db j bc key op s u now a r \<Longrightarrow> jw_sign j key (access_claims j u now) = Inr a \<Longrightarrow> jw_sign j key (refresh_claims j u now) = Inr r
    \<Longrightarrow> issued db j bc key op s (new_session rnd u a r (now 0 + 15 * minute))"
  unfolding issued_def by blast

lemma deactivated_sessions:
  assumes "account_ok db users sessions" "x \<in># sessions (snd (tb_set (ac_sessions db) P (\<lambda>x. x\<lparr>as_IsActive := False\<rparr>) s))"
  shows "derived x (sessions s)"
proof -
  obtain err s' where st: "tb_set (ac_sessions db) P (\<lambda>x. x\<lparr>as_IsActive := False\<rparr>) s = (err, s')"
    by (cases "tb_set (ac_sessions db) P (\<lambda>x. x\<lparr>as_IsActive := False\<rparr>) s")
  with account_sessions(2)[OF assms(1) this] assms(2) show ?thesis
    by (auto simp: derived_def split: if_splits)
qed

lemma login_sessions:
  assumes "account_ok db users sessions" "x \<in># sessions (snd (Login db j bc key now rnd username password s))"
  shows "derived x (sessions s) \<or> issued db j bc key (OpLogin now rnd username password) s x"
proof (cases "\<exists>u. first_user db (\<lambda>u. usr_Username u = username \<and> usr_IsActive u) s = Inr (Some u) \<and> CheckPassword bc password (usr_Password u) = None")
  case True
  then obtain u where u: "first_user db (\<lambda>u. usr_Username u = username \<and> usr_IsActive u) s = Inr (Some u)" "CheckPassword bc password (usr_Password u) = None"
    by blast
  define u1 where "u1 = u\<lparr>usr_LastLogin := Some (now 0)\<rparr>"
  define n where "n = (\<lambda>i. now (i + 1))"
  define s1 where "s1 = snd (tb_set (ac_users db) (\<lambda>x. usr_ID x = usr_ID u) (\<lambda>x. x\<lparr>usr_LastLogin := Some (now 0)\<rparr>) s)"
  have s1: "sessions s1 = sessions s" using account_users(3)[OF assms(1) surjective_pairing] unfolding s1_def by blast
  obtain res s2 where g: "GenerateToken db j key n rnd u1 s1 = (res, s2)" by (cases "GenerateToken db j key n rnd u1 s1")
  have l: "Login db j bc key now rnd username password s = (case res of Inl e \<Rightarrow> (Inl e, s2) | Inr (a, r) \<Rightarrow> (Inr (a, r, u1), s2))"
    using u g by (simp add: Login_def Let_def n_def s1_def u1_def split: sum.splits)
  then have x: "x \<in># sessions s2" using assms(2) by (simp split: sum.splits prod.splits)
  show ?thesis
  proof (cases res)
    case (Inl e)
    with generate_sessions[OF assms(1) g] x s1 show ?thesis by (auto intro: derived_self dest: mset_subset_eqD)
  next
    case (Inr p)
    obtain a b where p: "p = (a, b)" by (cases p)
    then have "issues db j bc key (OpLogin now rnd username password) s u1 n a b" unfolding n_def by (intro by_login) (simp add: l Inr)
    note i = issuedI[OF this, of rnd]
    from generate_sessions[OF assms(1) g] p Inr s1 obtain M where "M \<subseteq># sessions s" "sessions s2 = add_mset (new_session rnd u1 a b (n 0 + 15 * minute)) M"
      "jw_sign j key (access_claims j u1 n) = Inr a" "jw_sign j key (refresh_claims j u1 n) = Inr b" by auto
    with x i show ?thesis by (auto intro: derived_self dest: mset_subset_eqD)
  qed
next
  case False
  then have "snd (Login db j bc key now rnd username password s) = s"
    by (auto simp: Login_def split: sum.splits option.splits)
  with assms(2) show ?thesis by (simp add: derived_self)
qed

lemma refresh_sessions:
  assumes "account_ok db users sessions" "x \<in># sessions (snd (RefreshToken db j key now rnd token s))"
  shows "derived x (sessions s) \<or> issued db j bc key (OpRefresh now rnd token) s x"
proof (cases "refresh_check db j key now token s")
  case (Inr u)
  define n where "n = (\<lambda>i. now (i + 2))"
  define s1 where "s1 = snd (tb_set (ac_sessions db) (\<lambda>x. as_RefreshToken x = token) (\<lambda>x. x\<lparr>as_IsActive := False\<rparr>) s)"
  obtain res s2 where g: "GenerateToken db j key n rnd u s1 = (res, s2)" by (cases "GenerateToken db j key n rnd u s1")
  have l: "RefreshToken db j key now rnd token s = (res, s2)" using Inr g by (simp add: RefreshToken_def refresh_issue_def n_def s1_def)
  have d: "derived y (sessions s)" if "y \<in># sessions s1" for y using deactivated_sessions[OF assms(1)] that unfolding s1_def by blast
  have x: "x \<in># sessions s2" using assms(2) l by simp
  show ?thesis
  proof (cases res)
    case (Inl e)
    with generate_sessions[OF assms(1) g] x d show ?thesis by (auto dest: mset_subset_eqD)
  next
    case r: (Inr p)
    obtain a b where p: "p = (a, b)" by (cases p)
    then have "issues db j bc key (OpRefresh now rnd token) s u n a b" unfolding n_def by (intro by_refresh[OF Inr]) (simp add: l r)
    note i = issuedI[OF this, of rnd]
    from generate_sessions[OF assms(1) g] p r obtain M where "M \<subseteq># sessions s1" "sessions s2 = add_mset (new_session rnd u a b (n 0 + 15 * minute)) M"
      "jw_sign j key (access_claims j u n) = Inr a" "jw_sign j key (refresh_claims j u n) = Inr b" by auto
    with x d i show ?thesis by (auto dest: mset_subset_eqD)
  qed
next
  case (Inl e)
  with assms(2) show ?thesis by (simp add: RefreshToken_def derived_self)
qed

lemma ChangePassword_cases:
  obtains (unchanged) e where "ChangePassword db bc salt userID oldPassword newPassword s = (Some e, s)"
  | (not_updated) P f e s0 where "tb_set (ac_users db) P f s = (Some e, s0)"
      "ChangePassword db bc salt userID oldPassword newPassword s = (Some (PasswordNotUpdated e), s0)"
  | (updated) P f s0 where "tb_set (ac_users db) P f s = (None, s0)"
      "ChangePassword db bc salt userID oldPassword newPassword s = (None, snd (InvalidateAllUserSessions db userID s0))"
proof (cases "row_of (first_user db (\<lambda>u. usr_ID u = userID) s)")
  case (Some u)
  show ?thesis
  proof (cases "CheckPassword bc oldPassword (usr_Password u)")
    case None
    show ?thesis
    proof (cases "HashPassword bc salt newPassword")
      case (Inr hashed)
      let ?P = "\<lambda>x. usr_ID x = usr_ID u" and ?f = "\<lambda>x. x\<lparr>usr_Password := hashed\<rparr>"
      obtain err s0 where st: "tb_set (ac_users db) ?P ?f s = (err, s0)" by (cases "tb_set (ac_users db) ?P ?f s")
      then show ?thesis
        using updated[of ?P ?f s0] not_updated[of ?P ?f _ s0] Some None Inr by (cases err) (simp_all add: ChangePassword_def)
    qed (use unchanged Some None in \<open>simp add: ChangePassword_def\<close>)
  qed (use unchanged Some in \<open>simp add: ChangePassword_def\<close>)
qed (use unchanged in \<open>simp add: ChangePassword_def\<close>)

lemma change_sessions:
  assumes "account_ok db users sessions" "x \<in># sessions (snd (ChangePassword db bc salt userID oldPassword newPassword s))"
  shows "derived x (sessions s)"
proof (cases rule: ChangePassword_cases[of db bc salt userID oldPassword newPassword s])
  case (unchanged e)
  then show ?thesis using assms(2) by (simp add: derived_self)
next
  case (not_updated P f e s0)
  then show ?thesis using assms(2) account_users(3)[OF assms(1) not_updated(1)] by (simp add: derived_self)
next
  case (updated P f s0)
  have "x \<in># sessions (snd (tb_set (ac_sessions db) (\<lambda>x. as_UserID x = userID) (\<lambda>x. x\<lparr>as_IsActive := False\<rparr>) s0))"
    using assms(2) unfolding updated(2) InvalidateAllUserSessions_def by simp
  from deactivated_sessions[OF assms(1) this] show ?thesis using account_users(3)[OF assms(1) updated(1)] by simp
qed

lemma user_ops_sessions:
  assumes "account_ok db users sessions"
  shows "sessions (snd (Register db bc salt newID username email password firstName lastName role s)) = sessions s"
    "sessions (snd (h_UpdateUser db i req s)) = sessions s" "sessions (snd (h_DeleteUser db i c s)) = sessions s"
proof -
  show "sessions (snd (Register db bc salt newID username email password firstName lastName role s)) = sessions s"
    using account_users(4)[OF assms(1)] by (auto simp: Register_def Let_def split: sum.splits prod.splits option.splits)
  show "sessions (snd (h_UpdateUser db i req s)) = sessions s"
    using account_users(5)[OF assms(1)] by (auto simp: h_UpdateUser_def split: option.splits prod.splits)
  show "sessions (snd (h_DeleteUser db i c s)) = sessions s"
    using account_users(6)[OF assms(1)] by (auto simp: h_DeleteUser_def split: option.splits prod.splits sum.splits)
qed

lemma step_sessions:
  assumes "account_ok db users sessions" "x \<in># sessions (auth_step db j bc key op s)"
  shows "derived x (sessions s) \<or> issued db j bc key op s x"
proof (cases op)
  case (OpLogin now rnd username password)
  then show ?thesis using login_sessions[OF assms(1)] assms(2) by simp
next
  case (OpRefresh now rnd token)
  then show ?thesis using refresh_sessions[OF assms(1)] assms(2) by simp
next
  case (OpLogout token)
  then show ?thesis using assms(2) deactivated_sessions[OF assms(1)] by (simp add: InvalidateSession_def)
next
  case (OpChangePassword salt userID oldPassword newPassword)
  then show ?thesis using change_sessions[OF assms(1)] assms(2) by simp
qed (use assms(2) user_ops_sessions[OF assms(1)] in \<open>simp_all add: derived_self\<close>)

text \<open>Every session has tokens that were signed for its user; its end is the one of the access token.\<close>

definition session_ok :: "jwt \<Rightarrow> string \<Rightarrow> AuthSession \<Rightarrow> bool" where
  "session_ok j key x \<longleftrightarrow> (\<exists>c d. jw_sign j key c = Inr (as_Token x) \<and> jw_sign j key d = Inr (as_RefreshToken x) \<and> whole c \<and> whole d
     \<and> cl_UserID c = as_UserID x \<and> cl_UserID d = as_UserID x \<and> cl_ExpiresAt c = jw_date j (as_ExpiresAt x))"

definition sessions_ok :: "jwt \<Rightarrow> string \<Rightarrow> AuthSession multiset \<Rightarrow> bool" where
  "sessions_ok j key M \<longleftrightarrow> (\<forall>x \<in># M. session_ok j key x)"

lemma session_ok_deactivated [simp]: "session_ok j key (x\<lparr>as_IsActive := False\<rparr>) = session_ok j key x"
  by (simp add: session_ok_def)

lemma new_session_fields [simp]:
  "as_UserID (new_session rnd u a r e) = usr_ID u" "as_Token (new_session rnd u a r e) = a" "as_RefreshToken (new_session rnd u a r e) = r"
  "as_ExpiresAt (new_session rnd u a r e) = e" "as_IsActive (new_session rnd u a r e)"
  by (simp_all add: new_session_def)

lemma claims_fields [simp]:
  "cl_UserID (claims_of j u e i n) = usr_ID u" "cl_Username (claims_of j u e i n) = usr_Username u" "cl_Role (claims_of j u e i n) = usr_Role u"
  "cl_ExpiresAt (claims_of j u e i n) = jw_date j e" "cl_NotBefore (claims_of j u e i n) = jw_date j n"
  by (simp_all add: claims_of_def)

lemma date_whole: "jwt_ok j \<Longrightarrow> jw_date j t = t - t mod second"
  by (simp add: jwt_ok_def)

lemma whole_claims: "jwt_ok j \<Longrightarrow> whole (claims_of j u e i n)"
  by (simp add: whole_def claims_of_def date_whole minus_mod_eq_mult_div)

lemma issued_session_ok: "jwt_ok j \<Longrightarrow> issued db j bc key op s x \<Longrightarrow> session_ok j key x"
proof -
  assume j: "jwt_ok j" and "issued db j bc key op s x"
  then obtain u now a r rnd where x: "x = new_session rnd u a r (now 0 + 15 * minute)"
    and sign: "jw_sign j key (access_claims j u now) = Inr a" "jw_sign j key (refresh_claims j u now) = Inr r" by (auto simp: issued_def)
  have w: "whole (access_claims j u now)" "whole (refresh_claims j u now)" using whole_claims[OF j] by (simp_all add: access_claims_def refresh_claims_def)
  show "session_ok j key x" unfolding session_ok_def
    by (rule exI[of _ "access_claims j u now"], rule exI[of _ "refresh_claims j u now"]) (use w sign in \<open>simp add: x, simp add: access_claims_def refresh_claims_def\<close>)
qed

lemma step_sessions_ok:
  assumes "account_ok db users sessions" "jwt_ok j" "sessions_ok j key (sessions s)"
  shows "sessions_ok j key (sessions (auth_step db j bc key op s))"
  unfolding sessions_ok_def
proof
  fix x assume "x \<in># sessions (auth_step db j bc key op s)"
  from step_sessions[OF assms(1) this] show "session_ok j key x"
    using assms(3) issued_session_ok[OF assms(2)] by (auto simp: derived_def sessions_ok_def)
qed

lemma steps_sessions_ok:
  "account_ok db users sessions \<Longrightarrow> jwt_ok j \<Longrightarrow> sessions_ok j key (sessions s) \<Longrightarrow> sessions_ok j key (sessions (fold (auth_step db j bc key) ops s))"
  by (induction ops arbitrary: s) (simp_all add: step_sessions_ok)

lemma no_sessions_ok [simp]: "sessions_ok j key {#}"
  by (simp add: sessions_ok_def)

lemma parse_signed:
  assumes "jwt_ok j" "whole c" "jw_sign j key c = Inr token"
  shows "valid_at t c \<Longrightarrow> jw_parse j (key_for key) t token = Inr c" "jw_parse j (key_for key) t token = Inr c' \<Longrightarrow> c' = c \<and> valid_at t c"
proof -
  have k: "key_for key HMAC = Inr key" by (simp add: key_for_def)
  have "if valid_at t c then jw_parse j (key_for key) t token = Inr c else \<exists>e. jw_parse j (key_for key) t token = Inl e"
    using assms k unfolding jwt_ok_def by blast
  then show "valid_at t c \<Longrightarrow> jw_parse j (key_for key) t token = Inr c" "jw_parse j (key_for key) t token = Inr c' \<Longrightarrow> c' = c \<and> valid_at t c"
    by (auto split: if_splits)
qed

lemma same_token_same_claims:
  assumes "jwt_ok j" "whole c" "whole d" "jw_sign j key c = Inr token" "jw_sign j key d = Inr token" "valid_at t c"
  shows "d = c"
  using parse_signed(1)[OF assms(1,2,4,6)] parse_signed(2)[OF assms(1,3,5)] by metis

text \<open>An active session of the user is needed to be authenticated as that user, or to refresh.\<close>

lemma validated_session:
  assumes "account_ok db users sessions" "jwt_ok j" "sessions_ok j key (sessions s)" "ValidateToken db j key now token s = Inr c"
  shows "\<exists>x \<in># sessions s. as_Token x = token \<and> as_IsActive x \<and> as_UserID x = cl_UserID c"
proof -
  obtain x where p: "jw_parse j (key_for key) (now 0) token = Inr c" and x: "first_session db (\<lambda>x. as_Token x = token \<and> as_IsActive x) s = Some x"
    using assms(4) by (auto simp: ValidateToken_def split: sum.splits option.splits if_splits)
  note m = account_sessions(1)[OF assms(1) x]
  then have "session_ok j key x" using assms(3) by (simp add: sessions_ok_def)
  then obtain d where "jw_sign j key d = Inr token" "whole d" "cl_UserID d = as_UserID x" using m by (auto simp: session_ok_def)
  with parse_signed(2)[OF assms(2) _ _ p] m show ?thesis by auto
qed

lemma refreshed_session:
  assumes "account_ok db users sessions" "jwt_ok j" "sessions_ok j key (sessions s)" "refresh_check db j key now token s = Inr u"
  shows "\<exists>x \<in># sessions s. as_RefreshToken x = token \<and> as_IsActive x \<and> as_UserID x = usr_ID u \<and> now 0 \<le> as_ExpiresAt x"
proof -
  obtain x c where x: "first_session db (\<lambda>x. as_RefreshToken x = token \<and> as_IsActive x) s = Some x" "\<not> as_ExpiresAt x < now 0"
    and p: "jw_parse j (key_for key) (now 1) token = Inr c" and u: "row_of (first_user db (\<lambda>u. usr_ID u = cl_UserID c) s) = Some u"
    using assms(4) by (auto simp: refresh_check_def validateTokenWithoutSessionCheck_def map_sum_def split: sum.splits option.splits if_splits)
  note m = account_sessions(1)[OF assms(1) x(1)]
  then have "session_ok j key x" using assms(3) by (simp add: sessions_ok_def)
  then obtain d where "jw_sign j key d = Inr token" "whole d" "cl_UserID d = as_UserID x" using m by (auto simp: session_ok_def)
  with parse_signed(2)[OF assms(2) _ _ p] have "as_UserID x = cl_UserID c" by auto
  moreover have "usr_ID u = cl_UserID c" using u account_users(1)[OF assms(1)] by (auto simp: row_of_def split: sum.splits)
  ultimately show ?thesis using m x(2) by auto
qed
section \<open>Passwords and sessions\<close>

definition logs_in :: "'s account_db \<Rightarrow> jwt \<Rightarrow> bcrypt \<Rightarrow> string \<Rightarrow> int \<Rightarrow> auth_op \<Rightarrow> 's \<Rightarrow> bool" where
  "logs_in db j bc key userID op s \<longleftrightarrow> (case op of
     OpLogin now rnd username password \<Rightarrow> (case fst (Login db j bc key now rnd username password s) of Inr (_, _, u) \<Rightarrow> usr_ID u = userID | Inl _ \<Rightarrow> False)
   | _ \<Rightarrow> False)"

fun never_logs_in :: "'s account_db \<Rightarrow> jwt \<Rightarrow> bcrypt \<Rightarrow> string \<Rightarrow> int \<Rightarrow> auth_op list \<Rightarrow> 's \<Rightarrow> bool" where
  "never_logs_in db j bc key userID [] s \<longleftrightarrow> True"
| "never_logs_in db j bc key userID (op # ops) s \<longleftrightarrow> \<not> logs_in db j bc key userID op s \<and> never_logs_in db j bc key userID ops (auth_step db j bc key op s)"

definition logged_out :: "int \<Rightarrow> AuthSession multiset \<Rightarrow> bool" where
  "logged_out userID M \<longleftrightarrow> (\<forall>x \<in># M. as_UserID x = userID \<longrightarrow> \<not> as_IsActive x)"

lemma step_logged_out:
  assumes "account_ok db users sessions" "jwt_ok j" "sessions_ok j key (sessions s)" "logged_out userID (sessions s)" "\<not> logs_in db j bc key userID op s"
  shows "logged_out userID (sessions (auth_step db j bc key op s))"
  unfolding logged_out_def
proof (intro ballI impI)
  fix x assume x: "x \<in># sessions (auth_step db j bc key op s)" and u: "as_UserID x = userID"
  from step_sessions[OF assms(1) x] show "\<not> as_IsActive x"
  proof
    assume "derived x (sessions s)"
    then show ?thesis using assms(4) u by (auto simp: derived_def logged_out_def)
  next
    assume "issued db j bc key op s x"
    then obtain v now a r rnd where i: "issues db j bc key op s v now a r" and v: "usr_ID v = userID"
      using u by (auto simp: issued_def)
    from i have False
    proof cases
      case (by_login n rnd username password)
      then show False using assms(5) v by (simp add: logs_in_def)
    next
      case (by_refresh n token rnd)
      from refreshed_session[OF assms(1-3) by_refresh(3)] show False using assms(4) v by (auto simp: logged_out_def)
    qed
    then show ?thesis ..
  qed
qed

lemma steps_logged_out:
  assumes "account_ok db users sessions" "jwt_ok j"
  shows "sessions_ok j key (sessions s) \<Longrightarrow> logged_out userID (sessions s) \<Longrightarrow> never_logs_in db j bc key userID ops s
    \<Longrightarrow> logged_out userID (sessions (fold (auth_step db j bc key) ops s))"
proof (induction ops arbitrary: s)
  case (Cons op ops)
  then show ?case using step_logged_out[OF assms] step_sessions_ok[OF assms] by simp
qed simp

lemma logged_out_set: "logged_out userID (image_mset (\<lambda>x. if as_UserID x = userID then x\<lparr>as_IsActive := False\<rparr> else x) M)"
proof -
  let ?f = "\<lambda>x :: AuthSession. if as_UserID x = userID then x\<lparr>as_IsActive := False\<rparr> else x"
  have f: "as_UserID (?f y) = userID \<longrightarrow> \<not> as_IsActive (?f y)" for y by (cases "as_UserID y = userID") simp_all
  show ?thesis unfolding logged_out_def set_image_mset ball_simps(9) using f by (intro ballI)
qed

lemma change_password_logs_out:
  assumes "account_ok db users sessions" "\<And>s. fst (InvalidateAllUserSessions db userID s) = None"
    "ChangePassword db bc salt userID oldPassword newPassword s = (None, s1)"
  shows "logged_out userID (sessions s1)"
proof (cases rule: ChangePassword_cases[of db bc salt userID oldPassword newPassword s])
  case (updated P f s0)
  let ?t = "tb_set (ac_sessions db) (\<lambda>x. as_UserID x = userID) (\<lambda>x. x\<lparr>as_IsActive := False\<rparr>) s0"
  have "s1 = snd ?t" using updated(2) assms(3) unfolding InvalidateAllUserSessions_def by (metis prod.inject)
  then have "?t = (None, s1)" using assms(2)[of s0] unfolding InvalidateAllUserSessions_def by (metis prod.collapse)
  from account_sessions(2)[OF assms(1) this] logged_out_set show ?thesis by metis
qed (use assms(3) in simp_all)

text \<open>C32. After the password of a user was changed, no token is accepted for that user, whatever other
  operations of any users are completed, one after another, until the user logs in again. This
  holds if the update that ends the sessions of the user does not fail: the code ignores its error
  (\<open>password_change_ignores_failure\<close>). A refresh that is under way while the password is changed is
  not one of these operations: it leaves the user with an active session (\<open>password_change_race\<close>).\<close>

theorem password_change_ends_sessions:
  assumes "account_ok db users sessions" "jwt_ok j" "sessions s0 = {#}" "\<forall>s. fst (InvalidateAllUserSessions db userID s) = None"
    "ChangePassword db bc salt userID oldPassword newPassword (fold (auth_step db j bc key) ops s0) = (None, s1)"
    "never_logs_in db j bc key userID ops' s1"
    "ValidateToken db j key now token (fold (auth_step db j bc key) ops' s1) = Inr c"
  shows "cl_UserID c \<noteq> userID"
proof -
  let ?s = "fold (auth_step db j bc key) ops s0"
  have s: "sessions_ok j key (sessions ?s)" by (rule steps_sessions_ok[OF assms(1,2)]) (simp add: assms(3))
  have c: "auth_step db j bc key (OpChangePassword salt userID oldPassword newPassword) ?s = s1" unfolding auth_step.simps assms(5) by (rule snd_conv)
  have s1: "sessions_ok j key (sessions s1)"
    by (rule step_sessions_ok[OF assms(1,2) s, of bc "OpChangePassword salt userID oldPassword newPassword", unfolded c])
  have "logged_out userID (sessions s1)" by (rule change_password_logs_out[OF assms(1) _ assms(5)]) (simp add: assms(4))
  then have "logged_out userID (sessions (fold (auth_step db j bc key) ops' s1))" by (rule steps_logged_out[OF assms(1,2) s1 _ assms(6)])
  moreover obtain x where "x \<in># sessions (fold (auth_step db j bc key) ops' s1)" "as_IsActive x" "as_UserID x = cl_UserID c"
    using validated_session[OF assms(1,2) steps_sessions_ok[OF assms(1,2) s1] assms(7)] by blast
  ultimately show ?thesis unfolding logged_out_def by blast
qed

text \<open>A failure to end the sessions is reported to nobody, and they stay active.\<close>

lemma password_change_ignores_failure:
  assumes "account_ok db users sessions" "\<And>s. fst (InvalidateAllUserSessions db userID s) = Some e"
    "ChangePassword db bc salt userID oldPassword newPassword s = (None, s1)"
  shows "sessions s1 = sessions s"
proof (cases rule: ChangePassword_cases[of db bc salt userID oldPassword newPassword s])
  case (updated P f s0)
  let ?t = "tb_set (ac_sessions db) (\<lambda>x. as_UserID x = userID) (\<lambda>x. x\<lparr>as_IsActive := False\<rparr>) s0"
  have "s1 = snd ?t" using updated(2) assms(3) unfolding InvalidateAllUserSessions_def by (metis prod.inject)
  then have "?t = (Some e, s1)" using assms(2)[of s0] unfolding InvalidateAllUserSessions_def by (metis prod.collapse)
  then have "sessions s1 = sessions s0" using account_sessions(2)[OF assms(1)] by force
  moreover have "sessions s0 = sessions s" using updated(1) assms(1) unfolding account_ok_def by (metis snd_conv)
  ultimately show ?thesis by simp
qed (use assms(3) in simp_all)

text \<open>A refresh that read the session before the password was changed issues its tokens afterwards: the
  thief of a session keeps it.\<close>

theorem password_change_race:
  assumes "account_ok db users sessions" "refresh_check db j key now token s = Inr u"
    "ChangePassword db bc salt (usr_ID u) oldPassword newPassword s = (None, s1)"
    "refresh_issue db j key now rnd token u s1 = (Inr (a, r), s2)"
  shows "\<exists>x \<in># sessions s2. as_UserID x = usr_ID u \<and> as_Token x = a \<and> as_RefreshToken x = r \<and> as_IsActive x
    \<and> as_ExpiresAt x = now 2 + 15 * minute"
proof -
  let ?n = "\<lambda>i. now (i + 2)"
  obtain M where "sessions s2 = add_mset (new_session rnd u a r (?n 0 + 15 * minute)) M"
    using generate_sessions[OF assms(1) assms(4)[unfolded refresh_issue_def]] by auto
  then show ?thesis by (intro bexI[of _ "new_session rnd u a r (?n 0 + 15 * minute)"]) (simp_all add: numeral_2_eq_2)
qed

section \<open>How long a session lives\<close>

text \<open>The user an operation issues tokens to, and when.\<close>

definition issue :: "'s account_db \<Rightarrow> jwt \<Rightarrow> bcrypt \<Rightarrow> string \<Rightarrow> auth_op \<Rightarrow> 's \<Rightarrow> (int \<times> time) option" where
  "issue db j bc key op s = (case op of
     OpLogin now rnd username password \<Rightarrow>
       (case fst (Login db j bc key now rnd username password s) of Inr (_, _, u) \<Rightarrow> Some (usr_ID u, now 1) | Inl _ \<Rightarrow> None)
   | OpRefresh now rnd token \<Rightarrow>
       (case refresh_check db j key now token s of
          Inr u \<Rightarrow> (case fst (RefreshToken db j key now rnd token s) of Inr _ \<Rightarrow> Some (usr_ID u, now 2) | Inl _ \<Rightarrow> None)
        | Inl _ \<Rightarrow> None)
   | _ \<Rightarrow> None)"

lemma issues_issue: "issues db j bc key op s u n a r \<Longrightarrow> issue db j bc key op s = Some (usr_ID u, n 0)"
  by (cases rule: issues.cases, assumption) (simp_all add: issue_def numeral_2_eq_2)

text \<open>In a run, no tokens are issued to a user after \<open>T\<close>; others may do what they like.\<close>

fun idle_since :: "'s account_db \<Rightarrow> jwt \<Rightarrow> bcrypt \<Rightarrow> string \<Rightarrow> int \<Rightarrow> time \<Rightarrow> auth_op list \<Rightarrow> 's \<Rightarrow> bool" where
  "idle_since db j bc key userID T [] s \<longleftrightarrow> True"
| "idle_since db j bc key userID T (op # ops) s \<longleftrightarrow>
     (case issue db j bc key op s of Some (i, t) \<Rightarrow> i = userID \<longrightarrow> t \<le> T | None \<Rightarrow> True)
   \<and> idle_since db j bc key userID T ops (auth_step db j bc key op s)"

definition over_by :: "int \<Rightarrow> time \<Rightarrow> AuthSession multiset \<Rightarrow> bool" where
  "over_by userID t M \<longleftrightarrow> (\<forall>x \<in># M. as_UserID x = userID \<longrightarrow> as_ExpiresAt x \<le> t)"

lemma steps_session_end:
  assumes "account_ok db users sessions"
  shows "over_by userID (T + 15 * minute) (sessions s) \<Longrightarrow> idle_since db j bc key userID T ops s
    \<Longrightarrow> over_by userID (T + 15 * minute) (sessions (fold (auth_step db j bc key) ops s))"
proof (induction ops arbitrary: s)
  case (Cons op ops)
  have "over_by userID (T + 15 * minute) (sessions (auth_step db j bc key op s))"
    unfolding over_by_def
  proof (intro ballI impI)
    fix x assume "x \<in># sessions (auth_step db j bc key op s)" and u: "as_UserID x = userID"
    from step_sessions[OF assms this(1)] show "as_ExpiresAt x \<le> T + 15 * minute"
    proof
      assume "derived x (sessions s)"
      then show ?thesis using Cons.prems(1) u by (auto simp: derived_def over_by_def)
    next
      assume "issued db j bc key op s x"
      then obtain v n a r rnd where i: "issues db j bc key op s v n a r" and x: "as_UserID x = usr_ID v" "as_ExpiresAt x = n 0 + 15 * minute"
        by (auto simp: issued_def)
      then have "n 0 \<le> T" using issues_issue[OF i] Cons.prems(2) u by simp
      then show ?thesis by (simp add: x)
    qed
  qed
  then show ?case using Cons.IH Cons.prems(2) by simp
qed simp

lemma refresh_claims_seven_days:
  assumes "jwt_ok j" "jw_sign j key (refresh_claims j u n) = Inr token" "n 5 \<le> t" "t < n 3 + 7 * 24 * hour - second"
  shows "validateTokenWithoutSessionCheck j key t token = Inr (refresh_claims j u n)"
proof -
  have s: "0 \<le> x mod second" "x mod second < second" for x by (simp_all add: second_def)
  have "valid_at t (refresh_claims j u n)"
    unfolding valid_at_def refresh_claims_def claims_fields date_whole[OF assms(1)]
    using assms(3,4) s(1)[of "n 5"] s(2)[of "n 3 + 7 * 24 * hour"] by linarith
  with parse_signed(1)[OF assms(1) _ assms(2)] show ?thesis
    using whole_claims[OF assms(1)] by (simp add: validateTokenWithoutSessionCheck_def refresh_claims_def)
qed
text \<open>C33. A refresh token of a user is valid for seven days (up to the whole seconds of its claims), but
  is of no use for that long: if no tokens were issued to the user since \<open>T\<close>, whatever others do, a
  refresh with it later than fifteen minutes after \<open>T\<close> fails and changes nothing.\<close>

theorem refresh_dies_with_access:
  assumes "account_ok db users sessions" "jwt_ok j" "sessions s0 = {#}" "jw_sign j key (refresh_claims j u n) = Inr token"
    and "idle_since db j bc key (usr_ID u) T ops s0" "T + 15 * minute < now 0"
  shows "(\<exists>e. RefreshToken db j key now rnd token (fold (auth_step db j bc key) ops s0) = (Inl e, fold (auth_step db j bc key) ops s0))
    \<and> (n 5 \<le> t \<and> t < n 3 + 7 * 24 * hour - second \<longrightarrow> validateTokenWithoutSessionCheck j key t token = Inr (refresh_claims j u n))"
proof (intro conjI impI)
  let ?s = "fold (auth_step db j bc key) ops s0"
  have b: "over_by (usr_ID u) (T + 15 * minute) (sessions ?s)"
    by (rule steps_session_end[OF assms(1) _ assms(5)]) (simp add: assms(3) over_by_def)
  have ok: "sessions_ok j key (sessions ?s)" by (rule steps_sessions_ok[OF assms(1,2)]) (simp add: assms(3))
  have "refresh_check db j key now token ?s \<noteq> Inr v" for v
  proof
    assume c: "refresh_check db j key now token ?s = Inr v"
    obtain x where x: "x \<in># sessions ?s" "as_UserID x = usr_ID v" "now 0 \<le> as_ExpiresAt x"
      using refreshed_session[OF assms(1,2) ok c] by blast
    obtain d where p: "jw_parse j (key_for key) (now 1) token = Inr d" and v: "row_of (first_user db (\<lambda>w. usr_ID w = cl_UserID d) ?s) = Some v"
      using c by (auto simp: refresh_check_def validateTokenWithoutSessionCheck_def map_sum_def split: sum.splits option.splits if_splits)
    have w: "whole (refresh_claims j u n)" unfolding refresh_claims_def by (rule whole_claims[OF assms(2)])
    have "d = refresh_claims j u n" using parse_signed(2)[OF assms(2) w assms(4) p] by blast
    then have "cl_UserID d = usr_ID u" by (simp add: refresh_claims_def)
    moreover have "usr_ID v = cl_UserID d" using v account_users(1)[OF assms(1)] by (auto simp: row_of_def split: sum.splits)
    ultimately show False using b x assms(6) unfolding over_by_def by force
  qed
  then obtain e where "refresh_check db j key now token ?s = Inl e" by (cases "refresh_check db j key now token ?s") blast+
  then show "\<exists>e. RefreshToken db j key now rnd token ?s = (Inl e, ?s)" by (simp add: RefreshToken_def)
  show "validateTokenWithoutSessionCheck j key t token = Inr (refresh_claims j u n)" if "n 5 \<le> t \<and> t < n 3 + 7 * 24 * hour - second"
    using refresh_claims_seven_days[OF assms(2,4)] that by blast
qed

section \<open>Requests after a login\<close>

text \<open>Signing does not fail, and its tokens have no spaces; a password matches its own hash.\<close>

definition jwt_signs :: "jwt \<Rightarrow> string \<Rightarrow> bool" where
  "jwt_signs j key \<longleftrightarrow> (\<forall>c. \<exists>t. jw_sign j key c = Inr t \<and> CHR '' '' \<notin> set t)"

definition bcrypt_ok :: "bcrypt \<Rightarrow> bool" where
  "bcrypt_ok bc \<longleftrightarrow> (\<forall>salt p h. bc_hash bc salt p = Inr h \<longrightarrow> bc_compare bc h p = None)"

lemma session_found:
  assumes "account_ok db users sessions" "reliable db" "x \<in># sessions s" "P x"
  shows "\<exists>y. first_session db P s = Some y"
proof -
  obtain m where t: "table_ok (ac_sessions db) sessions m" using assms(1) unfolding account_ok_def by blast
  obtain o1 where f: "tb_first (ac_sessions db) P (\<lambda>x. - id_number (as_ID x)) s = Inr o1" using assms(2) unfolding reliable_def by blast
  then have "o1 \<noteq> None" using table_first_none[OF t] assms(3,4) by (metis (no_types, lifting))
  then show ?thesis using f by (auto simp: first_session_def row_of_def)
qed

lemma user_found:
  assumes "account_ok db users sessions" "reliable db" "u \<in># users s" "P u"
  shows "\<exists>v. first_user db P s = Inr (Some v) \<and> v \<in># users s \<and> P v"
proof -
  obtain o1 where f: "first_user db P s = Inr o1" using assms(2) unfolding reliable_def first_user_def by blast
  then have "o1 \<noteq> None" using account_users(2)[OF assms(1)] assms(3,4) by (metis (no_types, lifting))
  then show ?thesis using f account_users(1)[OF assms(1)] by blast
qed

lemma generate_with:
  assumes "reliable db" "jw_sign j key (access_claims j u now) = Inr a" "jw_sign j key (refresh_claims j u now) = Inr r"
  shows "fst (GenerateToken db j key now rnd u s) = Inr (a, r)"
proof -
  let ?s1 = "snd (tb_delete (ac_sessions db) (\<lambda>x. as_UserID x = usr_ID u \<and> \<not> as_IsActive x) s)"
  obtain err s2 where c: "tb_create (ac_sessions db) (new_session rnd u a r (now 0 + 15 * minute)) ?s1 = (err, s2)"
    by (cases "tb_create (ac_sessions db) (new_session rnd u a r (now 0 + 15 * minute)) ?s1")
  then have "err = None" using assms(1) unfolding reliable_def by (metis fst_conv)
  then show ?thesis using assms(2,3) c by (simp add: GenerateToken_def Let_def)
qed

lemma generate_succeeds:
  assumes "reliable db" "jwt_signs j key"
  shows "\<exists>a r s'. GenerateToken db j key now rnd u s = (Inr (a, r), s') \<and> CHR '' '' \<notin> set a"
proof -
  obtain a where a: "jw_sign j key (access_claims j u now) = Inr a" "CHR '' '' \<notin> set a" using assms(2) unfolding jwt_signs_def by blast
  obtain r where r: "jw_sign j key (refresh_claims j u now) = Inr r" using assms(2) unfolding jwt_signs_def by blast
  have "GenerateToken db j key now rnd u s = (Inr (a, r), snd (GenerateToken db j key now rnd u s))"
    using generate_with[OF assms(1) a(1) r] by (metis prod.collapse)
  with a(2) show ?thesis by blast
qed

lemma active_token_accepted:
  assumes "account_ok db users sessions" "jwt_ok j" "reliable db" "sessions_ok j key (sessions s)" "x \<in># sessions s" "as_IsActive x"
    "jw_sign j key c = Inr (as_Token x)" "whole c" "valid_at (now 0) c" "now 1 \<le> cl_ExpiresAt c"
  shows "ValidateToken db j key now (as_Token x) s = Inr c"
proof -
  have p: "jw_parse j (key_for key) (now 0) (as_Token x) = Inr c" by (rule parse_signed(1)[OF assms(2,8,7,9)])
  obtain y where y: "first_session db (\<lambda>y. as_Token y = as_Token x \<and> as_IsActive y) s = Some y"
    using session_found[where P = "\<lambda>y. as_Token y = as_Token x \<and> as_IsActive y", OF assms(1,3,5)] assms(6) by blast
  have m: "y \<in># sessions s \<and> as_Token y = as_Token x" using account_sessions(1)[OF assms(1) y] by simp
  then have "session_ok j key y" using assms(4) unfolding sessions_ok_def by blast
  then obtain d where d: "jw_sign j key d = Inr (as_Token x)" "whole d" "cl_ExpiresAt d = jw_date j (as_ExpiresAt y)"
    using m unfolding session_ok_def by metis
  have "d = c" by (rule same_token_same_claims[OF assms(2,8) d(2) assms(7) d(1) assms(9)])
  then have "now 1 \<le> jw_date j (as_ExpiresAt y)" using assms(10) d(3) by simp
  moreover have "jw_date j (as_ExpiresAt y) \<le> as_ExpiresAt y" by (simp add: date_whole[OF assms(2)] second_def)
  ultimately show ?thesis using p y by (simp add: ValidateToken_def)
qed

lemma login_result:
  assumes "account_ok db users sessions" "Login db j bc key now rnd username password s = (Inr (a, r, u), s1)"
  shows "\<exists>v. first_user db (\<lambda>u. usr_Username u = username \<and> usr_IsActive u) s = Inr (Some v) \<and> u = v\<lparr>usr_LastLogin := Some (now 0)\<rparr>
      \<and> (\<exists>w \<in># users s1. w = v \<or> w = u) \<and> (\<forall>w \<in># users s1. \<exists>v \<in># users s. w = v \<or> w = v\<lparr>usr_LastLogin := Some (now 0)\<rparr>)"
    "new_session rnd u a r (now 1 + 15 * minute) \<in># sessions s1"
    "jw_sign j key (access_claims j u (\<lambda>i. now (i + 1))) = Inr a" "jw_sign j key (refresh_claims j u (\<lambda>i. now (i + 1))) = Inr r"
proof -
  obtain v where v: "first_user db (\<lambda>u. usr_Username u = username \<and> usr_IsActive u) s = Inr (Some v)" "CheckPassword bc password (usr_Password v) = None"
    using assms(2) by (auto simp: Login_def split: sum.splits option.splits if_splits)
  define s0 where "s0 = snd (tb_set (ac_users db) (\<lambda>x. usr_ID x = usr_ID v) (\<lambda>x. x\<lparr>usr_LastLogin := Some (now 0)\<rparr>) s)"
  define n where "n = (\<lambda>i. now (i + 1))"
  obtain res s2 where g: "GenerateToken db j key n rnd (v\<lparr>usr_LastLogin := Some (now 0)\<rparr>) s0 = (res, s2)"
    by (cases "GenerateToken db j key n rnd (v\<lparr>usr_LastLogin := Some (now 0)\<rparr>) s0")
  have l: "res = Inr (a, r)" "s2 = s1" "u = v\<lparr>usr_LastLogin := Some (now 0)\<rparr>"
    using assms(2) v g by (auto simp: Login_def Let_def n_def s0_def split: sum.splits)
  note gs = generate_sessions[OF assms(1) g]
  then obtain M where m: "users s1 = users s0" "sessions s1 = add_mset (new_session rnd u a r (n 0 + 15 * minute)) M"
    "jw_sign j key (access_claims j u n) = Inr a" "jw_sign j key (refresh_claims j u n) = Inr r" by (auto simp: l)
  have "v \<in># users s" using account_users(1)[OF assms(1) v(1)] by blast
  moreover obtain err where st: "tb_set (ac_users db) (\<lambda>x. usr_ID x = usr_ID v) (\<lambda>x. x\<lparr>usr_LastLogin := Some (now 0)\<rparr>) s = (err, s0)"
    unfolding s0_def by (metis surjective_pairing)
  ultimately have "(\<exists>w \<in># users s0. w = v \<or> w = u) \<and> (\<forall>w \<in># users s0. \<exists>v \<in># users s. w = v \<or> w = v\<lparr>usr_LastLogin := Some (now 0)\<rparr>)"
    using account_users(3)[OF assms(1) st] unfolding l(3) by (cases err) auto
  then show "\<exists>v. first_user db (\<lambda>u. usr_Username u = username \<and> usr_IsActive u) s = Inr (Some v) \<and> u = v\<lparr>usr_LastLogin := Some (now 0)\<rparr>
      \<and> (\<exists>w \<in># users s1. w = v \<or> w = u) \<and> (\<forall>w \<in># users s1. \<exists>v \<in># users s. w = v \<or> w = v\<lparr>usr_LastLogin := Some (now 0)\<rparr>)"
    using v(1) l(3) m(1) by metis
  show "new_session rnd u a r (now 1 + 15 * minute) \<in># sessions s1" using m(2) by (simp add: n_def)
  show "jw_sign j key (access_claims j u (\<lambda>i. now (i + 1))) = Inr a" "jw_sign j key (refresh_claims j u (\<lambda>i. now (i + 1))) = Inr r"
    using m(3,4) by (simp_all only: n_def)
qed

lemma login_sessions_ok:
  assumes "account_ok db users sessions" "jwt_ok j" "sessions_ok j key (sessions s)" "Login db j bc key now rnd username password s = (res, s1)"
  shows "sessions_ok j key (sessions s1)"
  using step_sessions_ok[OF assms(1-3), of bc "OpLogin now rnd username password"] by (simp add: assms(4))

lemma access_valid:
  assumes "jwt_ok j" "n 2 \<le> t" "t < n 0 + 15 * minute - second"
  shows "valid_at t (access_claims j u n) \<and> t \<le> cl_ExpiresAt (access_claims j u n)"
proof -
  have s: "0 \<le> x mod second" "x mod second < second" for x by (simp_all add: second_def)
  show ?thesis
    unfolding valid_at_def access_claims_def claims_fields date_whole[OF assms(1)]
    using assms(2,3) s(1)[of "n 2"] s(2)[of "n 0 + 15 * minute"] by linarith
qed

lemma bearer_token_of: "CHR '' '' \<notin> set a \<Longrightarrow> bearer_token (''Bearer '' @ a) = Some a"
  using split_on_append[of "CHR '' ''" "''Bearer''" a] by (simp add: bearer_token_def)

text \<open>A token that was issued by a login is accepted from the next reading of the clock on, for a quarter of an hour less a second.\<close>

lemma login_then_request:
  assumes "account_ok db users sessions" "jwt_ok j" "reliable db" "sessions_ok j key (sessions s)"
    "Login db j bc key now rnd username password s = (Inr (a, r, u), s1)" "CHR '' '' \<notin> set a"
    "now 3 \<le> now' 0" "now' 0 \<le> now' 1" "now' 1 < now 1 + 15 * minute - second"
  shows "\<exists>v. AuthMiddleware db j key now' (''Bearer '' @ a) c s1 = PassedOn (set_user v (access_claims j u (\<lambda>i. now (i + 1))) c) \<and> usr_ID v = usr_ID u"
proof -
  let ?n = "\<lambda>i. now (i + 1)" and ?x = "new_session rnd u a r (now 1 + 15 * minute)"
  note l = login_result[OF assms(1,5)]
  have v: "valid_at (now' 0) (access_claims j u ?n)" "now' 1 \<le> cl_ExpiresAt (access_claims j u ?n)"
    using access_valid[of j ?n "now' 0" u] access_valid[of j ?n "now' 1" u] assms(2,7-9) by simp_all
  have "ValidateToken db j key now' (as_Token ?x) s1 = Inr (access_claims j u ?n)"
  proof (rule active_token_accepted[OF assms(1-3) login_sessions_ok[OF assms(1,2,4,5)] l(2) _ _ _ v])
    show "jw_sign j key (access_claims j u ?n) = Inr (as_Token ?x)" unfolding new_session_fields by (rule l(3))
    show "whole (access_claims j u ?n)" unfolding access_claims_def by (rule whole_claims[OF assms(2)])
  qed simp
  moreover obtain w where w: "w \<in># users s1" "usr_ID w = usr_ID u" using l(1) by auto
  ultimately show ?thesis
    using user_found[where P = "\<lambda>v. usr_ID v = usr_ID u", OF assms(1,3) w] bearer_token_of[OF assms(6)]
    by (auto simp: AuthMiddleware_def GetUserByID_def row_of_def access_claims_def)
qed

section \<open>Deactivated users and repeated tokens\<close>

text \<open>C37. Deactivating a user ends no session: the user can no longer log in, but the refresh token of an active session still
  gets new tokens.\<close>

theorem deactivated_user_refreshes:
  assumes "account_ok db users sessions" "jwt_ok j" "reliable db" "jwt_signs j key" "sessions_ok j key (sessions s)"
    "x \<in># sessions s" "as_IsActive x" "\<forall>y \<in># sessions s. as_RefreshToken y = as_RefreshToken x \<longrightarrow> now 0 \<le> as_ExpiresAt y"
    "jw_parse j (key_for key) (now 1) (as_RefreshToken x) = Inr d" "u \<in># users s" "usr_ID u = as_UserID x"
    "unique_by usr_ID (users s)" "unique_by usr_Username (users s)"
    "h_UpdateUser db (Some (as_UserID x)) (Some q) s = ((200, Some v), s1)" "uu_IsActive q = Some False"
  shows "fst (Login db j bc key now' rnd' (usr_Username u) password s1) = Inl InvalidCredentials
    \<and> (\<exists>a r. fst (RefreshToken db j key now rnd (as_RefreshToken x) s1) = Inr (a, r))"
proof
  obtain w where w: "first_user db (\<lambda>u. usr_ID u = as_UserID x) s = Inr (Some w)" "w \<in># users s" "usr_ID w = as_UserID x"
    using user_found[where P = "\<lambda>u. usr_ID u = as_UserID x", OF assms(1,3,10,11)] by blast
  have "w = u" by (rule unique_by_same[OF assms(12) w(2) assms(10)]) (simp add: w(3) assms(11))
  then have sv: "tb_save (ac_users db) (updated_user q u) s = (None, s1)"
    using assms(14) w(1) by (auto simp: h_UpdateUser_def row_of_def split: prod.splits option.splits)
  have up: "usr_ID (updated_user q u) = usr_ID u" "usr_Username (updated_user q u) = usr_Username u" "\<not> usr_IsActive (updated_user q u)"
    using assms(15) by (simp_all add: updated_user_def given_def)
  have s1: "users s1 = add_mset (updated_user q u) (filter_mset (\<lambda>x. usr_ID x \<noteq> usr_ID u) (users s))" "sessions s1 = sessions s"
    using account_users(5)[OF assms(1) sv] up(1) by simp_all
  have "\<not> (usr_Username w = usr_Username u \<and> usr_IsActive w)" if "w \<in># users s1" for w
  proof
    assume h: "usr_Username w = usr_Username u \<and> usr_IsActive w"
    then have "w \<in># users s" "usr_ID w \<noteq> usr_ID u" using that s1(1) up(3) by auto
    then show False using unique_by_same[OF assms(13) _ assms(10)] h by blast
  qed
  then have "first_user db (\<lambda>w. usr_Username w = usr_Username u \<and> usr_IsActive w) s1 \<noteq> Inr (Some w)" for w
    using account_users(1)[OF assms(1)] by blast
  moreover obtain o1 where "first_user db (\<lambda>w. usr_Username w = usr_Username u \<and> usr_IsActive w) s1 = Inr o1"
    using assms(3) unfolding reliable_def first_user_def by blast
  ultimately have "first_user db (\<lambda>w. usr_Username w = usr_Username u \<and> usr_IsActive w) s1 = Inr None" by (metis (no_types, lifting) option.exhaust)
  then show "fst (Login db j bc key now' rnd' (usr_Username u) password s1) = Inl InvalidCredentials" by (simp add: Login_def)
  obtain y where y: "first_session db (\<lambda>y. as_RefreshToken y = as_RefreshToken x \<and> as_IsActive y) s1 = Some y"
    using session_found[where P = "\<lambda>y. as_RefreshToken y = as_RefreshToken x \<and> as_IsActive y", OF assms(1,3), of x s1] assms(6,7) s1(2) by auto
  then have e: "now 0 \<le> as_ExpiresAt y" using account_sessions(1)[OF assms(1) y] s1(2) assms(8) by auto
  have "session_ok j key x" using assms(5,6) unfolding sessions_ok_def by blast
  then obtain c where "jw_sign j key c = Inr (as_RefreshToken x)" "whole c" "cl_UserID c = as_UserID x" unfolding session_ok_def by blast
  then have d: "cl_UserID d = as_UserID x" using parse_signed(2)[OF assms(2) _ _ assms(9)] by metis
  obtain z where z: "first_user db (\<lambda>w. usr_ID w = as_UserID x) s1 = Inr (Some z)"
    using user_found[where P = "\<lambda>w. usr_ID w = as_UserID x" and u = "updated_user q u" and s = s1, OF assms(1,3)] s1(1) up(1) assms(11) by auto
  have "refresh_check db j key now (as_RefreshToken x) s1 = Inr z"
    using y e z assms(9) d by (simp add: refresh_check_def validateTokenWithoutSessionCheck_def row_of_def)
  then show "\<exists>a r. fst (RefreshToken db j key now rnd (as_RefreshToken x) s1) = Inr (a, r)"
    using generate_succeeds[OF assms(3,4)] by (simp add: RefreshToken_def refresh_issue_def) (metis fst_conv)
qed

lemma same_second: "jwt_ok j \<Longrightarrow> t div second = t' div second \<Longrightarrow> jw_date j (t + n * second) = jw_date j (t' + n * second)"
proof -
  assume j: "jwt_ok j" and t: "t div second = t' div second"
  have "jw_date j (x + n * second) = second * (x div second + n)" for x
    unfolding date_whole[OF j] by (simp add: minus_mod_eq_mult_div second_def)
  then show ?thesis by (simp add: t)
qed

lemma same_claims:
  assumes "jwt_ok j" "list_all (\<lambda>i. n i div second = n' i div second) [0, 1, 2, 3, 4, 5]"
    "usr_ID u = usr_ID v" "usr_Username u = usr_Username v" "usr_Role u = usr_Role v"
  shows "access_claims j u n = access_claims j v n'" "refresh_claims j u n = refresh_claims j v n'"
proof -
  have m: "15 * minute = 900 * second" "7 * 24 * hour = 604800 * second" by (simp_all add: duration_defs)
  have d: "jw_date j (n i) = jw_date j (n' i)" if "n i div second = n' i div second" for i
    using same_second[OF assms(1) that, of 0] by simp
  show "access_claims j u n = access_claims j v n'"
    using assms(2-5) d[of 1] d[of 2] same_second[OF assms(1), of "n 0" "n' 0" 900] unfolding access_claims_def claims_of_def m by simp
  show "refresh_claims j u n = refresh_claims j v n'"
    using assms(2-5) d[of 4] d[of 5] same_second[OF assms(1), of "n 3" "n' 3" 604800] unfolding refresh_claims_def claims_of_def m by simp
qed

lemma login_session_end:
  assumes "account_ok db users sessions" "Login db j bc key now rnd username password s = (res, s1)" "y \<in># sessions s1"
  shows "derived y (sessions s) \<or> as_ExpiresAt y = now 1 + 15 * minute"
proof -
  have "y \<in># sessions (snd (Login db j bc key now rnd username password s))" using assms(2,3) by simp
  from login_sessions[OF assms(1) this] show ?thesis
  proof
    assume "issued db j bc key (OpLogin now rnd username password) s y"
    then obtain u t a r where "issues db j bc key (OpLogin now rnd username password) s u t a r" "as_ExpiresAt y = t 0 + 15 * minute"
      unfolding issued_def by (metis new_session_fields(4))
    then show ?thesis by (elim issues_login) simp
  qed simp
qed

lemma login_same_user:
  assumes "account_ok db users sessions" "Login db j bc key now rnd username password s = (Inr (a, r, u), s1)" "unique_by usr_ID (users s)"
  shows "\<exists>w \<in># users s1. usr_ID w = usr_ID u"
    "w \<in># users s1 \<Longrightarrow> usr_ID w = usr_ID u \<Longrightarrow> usr_Username w = usr_Username u \<and> usr_Role w = usr_Role u"
proof -
  obtain v where v: "v \<in># users s" "u = v\<lparr>usr_LastLogin := Some (now 0)\<rparr>" "\<exists>w \<in># users s1. w = v \<or> w = u"
    "\<forall>w \<in># users s1. \<exists>v \<in># users s. w = v \<or> w = v\<lparr>usr_LastLogin := Some (now 0)\<rparr>"
    using login_result(1)[OF assms(1,2)] account_users(1)[OF assms(1)] by blast
  have u: "usr_ID u = usr_ID v" "usr_Username u = usr_Username v" "usr_Role u = usr_Role v" by (simp_all add: v(2))
  show "\<exists>w \<in># users s1. usr_ID w = usr_ID u" using v(3) u(1) by metis
  assume w: "w \<in># users s1" "usr_ID w = usr_ID u"
  then obtain v' where v': "v' \<in># users s" "w = v' \<or> w = v'\<lparr>usr_LastLogin := Some (now 0)\<rparr>" using v(4) by blast
  then have f: "usr_ID w = usr_ID v' \<and> usr_Username w = usr_Username v' \<and> usr_Role w = usr_Role v'" by (elim disjE) simp_all
  have "v' = v" by (rule unique_by_same[OF assms(3) v'(1) v(1)]) (use f w(2) u(1) in simp)
  with f u show "usr_Username w = usr_Username u \<and> usr_Role w = usr_Role u" by simp
qed

text \<open>Tokens hold times in seconds and nothing random, so a refresh in the second of the login gives back the same two tokens: the
  refresh token that was used stays in use, and is not rotated.\<close>

theorem refresh_in_same_second:
  assumes "account_ok db users sessions" "jwt_ok j" "reliable db" "sessions_ok j key (sessions s)" "unique_by usr_ID (users s)"
    "Login db j bc key now rnd username password s = (Inr (a, r, u), s1)" "\<forall>y \<in># sessions s. as_RefreshToken y \<noteq> r"
    "list_all (\<lambda>i. now (i + 1) div second = k) [0, 1, 2, 3, 4, 5]" "list_all (\<lambda>i. now' (i + 2) div second = k) [0, 1, 2, 3, 4, 5]"
    "now 6 \<le> now' 1" "now' 1 \<le> now' 2" "now' 0 \<le> now 1 + 15 * minute"
  shows "fst (RefreshToken db j key now' rnd' r s1) = Inr (a, r)"
proof -
  define n where "n = (\<lambda>i. now (i + 1))"
  define n' where "n' = (\<lambda>i. now' (i + 2))"
  note l = login_result(2-)[OF assms(1,6), folded n_def]
  obtain y where y: "first_session db (\<lambda>y. as_RefreshToken y = r \<and> as_IsActive y) s1 = Some y"
    using session_found[where P = "\<lambda>y. as_RefreshToken y = r \<and> as_IsActive y", OF assms(1,3) l(1)] by auto
  note m = account_sessions(1)[OF assms(1) y]
  have "\<not> derived y (sessions s)" using m assms(7) by (auto simp: derived_def)
  then have e: "\<not> as_ExpiresAt y < now' 0" using login_session_end[OF assms(1,6)] m assms(12) by force
  obtain z where z: "first_user db (\<lambda>w. usr_ID w = usr_ID u) s1 = Inr (Some z)" "z \<in># users s1" "usr_ID z = usr_ID u"
    using login_same_user(1)[OF assms(1,6,5)] user_found[where P = "\<lambda>w. usr_ID w = usr_ID u", OF assms(1,3)] by blast
  have d: "list_all (\<lambda>i. n i div second = n' i div second) [0, 1, 2, 3, 4, 5]" using assms(8,9) by (simp add: n_def n'_def)
  note c = same_claims[OF assms(2) d z(3)[symmetric] login_same_user(2)[OF assms(1,6,5) z(2,3), THEN conjunct1, symmetric]
      login_same_user(2)[OF assms(1,6,5) z(2,3), THEN conjunct2, symmetric]]
  have w: "whole (refresh_claims j u n)" unfolding refresh_claims_def by (rule whole_claims[OF assms(2)])
  have "valid_at (now' 1) (refresh_claims j u n)"
  proof -
    have s: "0 \<le> n 5 mod second" "(n 3 + 7 * 24 * hour) mod second < second" "n 3 mod second \<le> n 3 mod second + 1" by (simp_all add: second_def)
    have "now' 2 div second = n 3 div second" using assms(8,9) by (simp add: n_def numeral_eq_Suc)
    then have "now' 2 < n 3 + second" unfolding second_def by linarith
    moreover have "2 * second \<le> 7 * 24 * hour" by (simp add: duration_defs)
    ultimately show ?thesis
      unfolding valid_at_def refresh_claims_def claims_fields date_whole[OF assms(2)]
      using assms(10,11) s by (simp add: n_def)
  qed
  then have p: "validateTokenWithoutSessionCheck j key (now' 1) r = Inr (refresh_claims j u n)"
    using parse_signed(1)[OF assms(2) w l(3)] by (simp add: validateTokenWithoutSessionCheck_def)
  have "refresh_check db j key now' r s1 = Inr z"
    using y e p z(1) by (simp add: refresh_check_def row_of_def refresh_claims_def)
  then show ?thesis
    using generate_with[OF assms(3), of j key z n' a r] l(2,3) c by (simp add: RefreshToken_def refresh_issue_def n'_def)
qed

section \<open>Routes without a policy\<close>

text \<open>What the model of the enforcer says: a role may do what a policy for it names, and nothing else.\<close>

definition casbin_ok :: "'e casbin \<Rightarrow> ('e \<Rightarrow> string list set) \<Rightarrow> bool" where
  "casbin_ok cb pol \<longleftrightarrow>
     (\<forall>p e. case cb_AddPolicy cb p e of (Inl _, e') \<Rightarrow> pol e' = pol e | (Inr _, e') \<Rightarrow> pol e' = insert p (pol e))
   \<and> (\<forall>role resource action e b. cb_Enforce cb role resource action e = Inr b \<longrightarrow> (b \<longleftrightarrow> [role, resource, action] \<in> pol e))"

lemma add_policies_set: "casbin_ok cb pol \<Longrightarrow> pol (snd (add_policies cb ps e)) \<subseteq> pol e \<union> set ps"
proof (induction ps arbitrary: e)
  case (Cons p ps)
  obtain res e' where a: "cb_AddPolicy cb p e = (res, e')" by (cases "cb_AddPolicy cb p e")
  have "case cb_AddPolicy cb p e of (Inl _, e') \<Rightarrow> pol e' = pol e | (Inr _, e') \<Rightarrow> pol e' = insert p (pol e)"
    by (rule spec[OF spec[OF conjunct1[OF Cons.prems[unfolded casbin_ok_def]], of p], of e])
  with Cons.IH[OF Cons.prems, of e'] show ?case by (cases res) (auto simp: a)
qed simp

lemma no_policy: "path \<in> {''/api/v1/users'', ''/v1/subscribers''} \<Longrightarrow> [role, path, action] \<notin> set defaultPolicies"
  by (auto simp: defaultPolicies_def)

text \<open>C26. Where Casbin is configured, the routes of the users and those that change subscribers are closed to every role, administrators
  included, because no default policy names them; the fallback by roles lets administrators pass.\<close>

theorem routes_without_policy:
  assumes "casbin_ok cb pol" "path \<in> {''/api/v1/users'', ''/v1/subscribers''}" "\<forall>role. [role, path, action] \<notin> pol e0"
  shows "applyRBAC db (Some (cb, snd (initializeDefaultPolicies cb e0))) path action roles c s \<noteq> PassedOn c'
    \<and> applyRBAC db None path action (''admin'' # roles) (c\<lparr>rc_role := Some ''admin''\<rparr>) s = PassedOn (c\<lparr>rc_role := Some ''admin''\<rparr>)"
proof
  let ?e = "snd (initializeDefaultPolicies cb e0)"
  have n: "[role, path, action] \<notin> pol ?e" for role
    using add_policies_set[OF assms(1), of defaultPolicies e0] assms(3) no_policy[OF assms(2)] by (auto simp: initializeDefaultPolicies_def)
  have "cb_Enforce cb role path action ?e \<noteq> Inr True" for role using n assms(1) unfolding casbin_ok_def by blast
  then have "CheckPermission db cb i path action s ?e \<noteq> Inr True" for i
    by (auto simp: CheckPermission_def map_sum_def split: option.splits sum.splits)
  then show "applyRBAC db (Some (cb, ?e)) path action roles c s \<noteq> PassedOn c'"
    by (auto simp: applyRBAC_def RequireCasbinPermission_def split: option.splits sum.splits)
  show "applyRBAC db None path action (''admin'' # roles) (c\<lparr>rc_role := Some ''admin''\<rparr>) s = PassedOn (c\<lparr>rc_role := Some ''admin''\<rparr>)"
    by (simp add: applyRBAC_def RequireRole_def)
qed
section \<open>Administrators\<close>

text \<open>With an enforcer that does not fail, the default policies are stored and answered.\<close>

definition casbin_works :: "'e casbin \<Rightarrow> bool" where
  "casbin_works cb \<longleftrightarrow> (\<forall>p e. \<exists>b e'. cb_AddPolicy cb p e = (Inr b, e')) \<and> (\<forall>role resource action e. \<exists>b. cb_Enforce cb role resource action e = Inr b)"

lemma add_policies_all: "casbin_ok cb pol \<Longrightarrow> casbin_works cb \<Longrightarrow> pol e \<union> set ps \<subseteq> pol (snd (add_policies cb ps e))"
proof (induction ps arbitrary: e)
  case (Cons p ps)
  obtain b e' where a: "cb_AddPolicy cb p e = (Inr b, e')" using Cons.prems(2) unfolding casbin_works_def by blast
  have "case cb_AddPolicy cb p e of (Inl _, e') \<Rightarrow> pol e' = pol e | (Inr _, e') \<Rightarrow> pol e' = insert p (pol e)"
    by (rule spec[OF spec[OF conjunct1[OF Cons.prems(1)[unfolded casbin_ok_def]], of p], of e])
  then show ?case using Cons.IH[OF Cons.prems, of e'] a by auto
qed simp

lemma default_policy_enforced:
  assumes "casbin_ok cb pol" "casbin_works cb" "[role, path, action] \<in> set defaultPolicies"
  shows "cb_Enforce cb role path action (snd (initializeDefaultPolicies cb e)) = Inr True"
proof -
  let ?e = "snd (initializeDefaultPolicies cb e)"
  obtain b where b: "cb_Enforce cb role path action ?e = Inr b" using assms(2) unfolding casbin_works_def by blast
  have "[role, path, action] \<in> pol ?e" using add_policies_all[OF assms(1,2), of e defaultPolicies] assms(3) by (auto simp: initializeDefaultPolicies_def)
  moreover have "b \<longleftrightarrow> [role, path, action] \<in> pol ?e" using b assms(1) unfolding casbin_ok_def by metis
  ultimately show ?thesis using b by simp
qed

lemma admin_passes:
  assumes "account_ok db users sessions" "reliable db" "u \<in># users s" "\<forall>v \<in># users s. usr_ID v = usr_ID u \<longrightarrow> usr_Role v = ''admin''"
    and "rc_user_id c = Some (usr_ID u)" "cb_Enforce cb ''admin'' path action e = Inr True"
  shows "applyRBAC db (Some (cb, e)) path action roles c s = PassedOn c"
proof -
  obtain w where w: "first_user db (\<lambda>v. usr_ID v = usr_ID u) s = Inr (Some w)" "w \<in># users s" "usr_ID w = usr_ID u"
    using user_found[where P = "\<lambda>v. usr_ID v = usr_ID u", OF assms(1-3)] by blast
  then have "usr_Role w = ''admin''" using assms(4) by blast
  then show ?thesis using w(1) assms(5,6) by (simp add: applyRBAC_def RequireCasbinPermission_def CheckPermission_def row_of_def)
qed

text \<open>C39. Anybody becomes an administrator: the public registration takes the role that is asked for. The account can log in and
  passes every guard that lets administrators pass: by roles, if Casbin is not configured, each that names them; by
  Casbin, which \<open>server_deps.go\<close> configures, each that a default policy opens to them. (The guard of the user routes
  is then closed to administrators too, see C26.) The database and the enforcer answer, and the key of the account is new.\<close>

theorem anyone_becomes_admin:
  assumes "account_ok db users sessions" "jwt_ok j" "reliable db" "sessions_ok j key (sessions s)" "jwt_signs j key" "bcrypt_ok bc"
    "valid_register is_email q" "rq_Role q = ''admin''" "sanitize ''admin'' = ''admin''" "sanitize (rq_Username q) \<noteq> ''''"
    "\<forall>v \<in># users s. usr_Username v \<noteq> sanitize (rq_Username q) \<and> usr_ID v \<noteq> newID" "bc_hash bc salt (rq_Password q) = Inr h"
    "now 3 \<le> now' 0" "now' 0 \<le> now' 1" "now' 1 < now 1 + 15 * minute - second"
    "h_Register db bc is_email sanitize salt newID q s = (ans, s1)"
    "h_Login db j bc key now rnd \<lparr>lq_Username = sanitize (rq_Username q), lq_Password = rq_Password q\<rparr> s1 = (ans', s2)"
    "casbin_ok (cb :: 'e casbin) pol" "casbin_works cb"
  shows "fst ans = 201 \<and> (\<exists>a r u c. ans' = (200, Some (a, r, u)) \<and> AuthMiddleware db j key now' (''Bearer '' @ a) no_ctx s2 = PassedOn c
    \<and> (\<forall>path action roles. ''admin'' \<in> set roles \<longrightarrow> applyRBAC db (None :: ('e casbin \<times> 'e) option) path action roles c s2 = PassedOn c)
    \<and> (\<forall>path action roles. [''admin'', path, action] \<in> set defaultPolicies \<longrightarrow>
         applyRBAC db (Some (cb, snd (initializeDefaultPolicies cb e0))) path action roles c s2 = PassedOn c))"
proof -
  let ?name = "sanitize (rq_Username q)"
  define u0 where "u0 = new_user newID ?name (sanitize (rq_Email q)) h (sanitize (rq_FirstName q)) (sanitize (rq_LastName q)) ''admin''"
  have u0: "usr_Username u0 = ?name" "usr_Role u0 = ''admin''" "usr_IsActive u0" "usr_Password u0 = h" by (simp_all add: u0_def new_user_def)
  obtain s1' where c: "tb_create (ac_users db) u0 s = (None, s1')"
    using assms(3) unfolding reliable_def by (metis prod.collapse)
  then have "h_Register db bc is_email sanitize salt newID q s = ((201, Some (u0\<lparr>usr_Password := ''''\<rparr>)), s1')"
    using assms(7-9,12) by (simp add: h_Register_def Register_def HashPassword_def u0_def Let_def)
  then have ans: "ans = (201, Some (u0\<lparr>usr_Password := ''''\<rparr>))" "s1' = s1" using assms(16) by simp_all
  have us: "users s1 = add_mset u0 (users s)" "sessions s1 = sessions s" using account_users(4)[OF assms(1) c] ans(2) by simp_all
  have found: "first_user db (\<lambda>u. usr_Username u = ?name \<and> usr_IsActive u) s1 = Inr (Some u0)"
    using user_found[where P = "\<lambda>u. usr_Username u = ?name \<and> usr_IsActive u" and u = u0 and s = s1, OF assms(1,3)] us(1) u0 assms(11) by auto
  have "CheckPassword bc (rq_Password q) (usr_Password u0) = None" using assms(6,12) u0(4) by (simp add: CheckPassword_def bcrypt_ok_def)
  moreover obtain a r s2' where "GenerateToken db j key (\<lambda>i. now (i + 1)) rnd (u0\<lparr>usr_LastLogin := Some (now 0)\<rparr>)
      (snd (tb_set (ac_users db) (\<lambda>x. usr_ID x = usr_ID u0) (\<lambda>x. x\<lparr>usr_LastLogin := Some (now 0)\<rparr>) s1)) = (Inr (a, r), s2')" "CHR '' '' \<notin> set a"
    using generate_succeeds[OF assms(3,5)] by metis
  ultimately have l: "Login db j bc key now rnd ?name (rq_Password q) s1 = (Inr (a, r, u0\<lparr>usr_LastLogin := Some (now 0)\<rparr>), s2')"
    using found by (simp add: Login_def Let_def)
  then have ans': "ans' = (200, Some (a, r, u0\<lparr>usr_LastLogin := Some (now 0)\<rparr>))" "s2' = s2"
    using assms(7,10,17) by (simp_all add: h_Login_def valid_login_def valid_register_def)
  obtain v where mw: "AuthMiddleware db j key now' (''Bearer '' @ a) no_ctx s2 = PassedOn (set_user v (access_claims j (u0\<lparr>usr_LastLogin := Some (now 0)\<rparr>) (\<lambda>i. now (i + 1))) no_ctx)"
    using login_then_request[OF assms(1-3) _ l \<open>CHR '' '' \<notin> set a\<close> assms(13-15)] us(2) assms(4) ans'(2) by auto
  let ?u = "u0\<lparr>usr_LastLogin := Some (now 0)\<rparr>"
  let ?c = "set_user v (access_claims j ?u (\<lambda>i. now (i + 1))) no_ctx"
  have id: "usr_ID u0 = newID" by (simp add: u0_def new_user_def)
  have mem: "(\<exists>w \<in># users s2. w = u0 \<or> w = ?u) \<and> (\<forall>w \<in># users s2. \<exists>x \<in># users s1. w = x \<or> w = x\<lparr>usr_LastLogin := Some (now 0)\<rparr>)"
    using login_result(1)[OF assms(1) l[unfolded ans'(2)]] found by auto
  have role: "\<forall>w \<in># users s2. usr_ID w = newID \<longrightarrow> usr_Role w = ''admin''"
  proof (intro ballI impI)
    fix w assume "w \<in># users s2" "usr_ID w = newID"
    then obtain x where x: "x \<in># users s1" "usr_ID x = newID" "usr_Role w = usr_Role x" using mem by fastforce
    then have "x = u0" using us(1) assms(11) by auto
    then show "usr_Role w = ''admin''" using x(3) u0(2) by simp
  qed
  obtain w where w: "w \<in># users s2" "usr_ID w = newID" using mem id by auto
  have uid: "rc_user_id ?c = Some (usr_ID w)" using w(2) id by (simp add: set_user_def access_claims_def)
  have "applyRBAC db (Some (cb, snd (initializeDefaultPolicies cb e0))) path action roles ?c s2 = PassedOn ?c"
    if "[''admin'', path, action] \<in> set defaultPolicies" for path action roles
    by (rule admin_passes[OF assms(1,3) w(1) _ uid default_policy_enforced[OF assms(18,19) that]]) (use role w(2) in simp)
  moreover have "applyRBAC db (None :: ('e casbin \<times> 'e) option) path action roles ?c s2 = PassedOn ?c" if "''admin'' \<in> set roles" for path action roles
    using that u0(2) by (simp add: applyRBAC_def RequireRole_def set_user_def access_claims_def)
  ultimately show ?thesis using ans(1) ans'(1) mw
    by (intro conjI, simp) (rule exI[of _ a], rule exI[of _ r], rule exI[of _ ?u], rule exI[of _ ?c], simp)
qed

section \<open>Instances\<close>

text \<open>The two tables as lists, tokens that write their claims and the key by the bits of the characters, passwords in clear, policies as a
  list.\<close>

type_synonym demo_state = "User list \<times> AuthSession list"

definition demo_accounts :: "demo_state account_db" where
  "demo_accounts = \<lparr>ac_users = list_table fst (\<lambda>xs s. (xs, snd s)) usr_ID (\<lambda>r _. r),
     ac_sessions = list_table snd (\<lambda>xs s. (fst s, xs)) as_ID (\<lambda>r _. r), ac_grants = (\<lambda>_ _ _ _. False)\<rparr>"

lemma demo_accounts_ok: "account_ok demo_accounts (\<lambda>s. mset (fst s)) (\<lambda>s. mset (snd s))" "reliable demo_accounts"
proof -
  have "\<exists>m. table_ok (ac_users demo_accounts) (\<lambda>s. mset (fst s)) m" "\<exists>m. table_ok (ac_sessions demo_accounts) (\<lambda>s. mset (snd s)) m"
    unfolding demo_accounts_def by (auto intro!: exI list_table_ok)
  moreover have "set_ok (ac_users demo_accounts) (\<lambda>s. mset (fst s))" "set_ok (ac_sessions demo_accounts) (\<lambda>s. mset (snd s))"
    "save_ok (ac_users demo_accounts) (\<lambda>s. mset (fst s)) usr_ID"
    unfolding demo_accounts_def by (auto intro!: list_table_set list_table_save)
  ultimately show "account_ok demo_accounts (\<lambda>s. mset (fst s)) (\<lambda>s. mset (snd s))"
    unfolding account_ok_def by (simp add: demo_accounts_def table_frame_def list_table_def)
  show "reliable demo_accounts" by (simp add: reliable_def demo_accounts_def list_table_def)
qed

fun char_bits :: "char \<Rightarrow> string" where
  "char_bits (Char a b c d e f g h) = map (\<lambda>x. if x then CHR ''1'' else CHR ''0'') [a, b, c, d, e, f, g, h]"

definition write_bits :: "string \<Rightarrow> string" where
  "write_bits s = concat (map char_bits s)"

fun read_bits :: "string \<Rightarrow> string" where
  "read_bits (a # b # c # d # e # f # g # h # r) =
     Char (a = CHR ''1'') (b = CHR ''1'') (c = CHR ''1'') (d = CHR ''1'') (e = CHR ''1'') (f = CHR ''1'') (g = CHR ''1'') (h = CHR ''1'') # read_bits r"
| "read_bits _ = []"

lemma read_write_bits [simp]: "read_bits (write_bits s) = s"
proof (induction s)
  case (Cons c s)
  obtain b0 b1 b2 b3 b4 b5 b6 b7 where "c = Char b0 b1 b2 b3 b4 b5 b6 b7" by (cases c)
  with Cons show ?case by (simp add: write_bits_def)
qed (simp add: write_bits_def)

lemma char_bits_set: "set (char_bits c) \<subseteq> {CHR ''0'', CHR ''1''}"
  by (cases c) auto

lemma write_bits_set: "set (write_bits s) \<subseteq> {CHR ''0'', CHR ''1''}"
  unfolding write_bits_def using char_bits_set by fastforce

definition read_int :: "string \<Rightarrow> int" where
  "read_int s = (case s of [] \<Rightarrow> 0 | c # r \<Rightarrow> if c = CHR ''-'' then - read_nat r else read_nat s)"

lemma read_show_int [simp]: "read_int (show_int i) = i"
proof (cases "i < 0")
  case True
  then show ?thesis by (simp add: show_int_def read_int_def read_show_nat)
next
  case False
  then have "read_nat (show_nat i) = i" by (simp add: read_show_nat)
  moreover have "show_nat i \<noteq> CHR ''-'' # r" for r using show_nat_not_minus[of i r] False by simp
  moreover have "show_nat i \<noteq> []" by (subst show_nat.simps) simp
  ultimately show ?thesis using False by (cases "show_nat i") (auto simp: show_int_def read_int_def)
qed

definition write_fields :: "string list \<Rightarrow> string" where
  "write_fields fs = concat (map (\<lambda>f. write_bits f @ ''.'') fs)"

lemma split_fields: "split_on (CHR ''.'') (write_fields fs) = map write_bits fs @ ['''']"
proof (induction fs)
  case (Cons f fs)
  have "CHR ''.'' \<notin> set (write_bits f)" using write_bits_set by fastforce
  from split_on_append[OF this, of "write_fields fs"] Cons show ?case by (simp add: write_fields_def)
qed (simp add: write_fields_def)

lemma write_fields_set: "set (write_fields fs) \<subseteq> {CHR ''0'', CHR ''1'', CHR ''.''}"
proof (induction fs)
  case (Cons f fs)
  then show ?case using write_bits_set[of f] by (auto simp: write_fields_def)
qed (simp add: write_fields_def)

lemma claims_eta: "\<lparr>cl_UserID = cl_UserID c, cl_Username = cl_Username c, cl_Role = cl_Role c, cl_ExpiresAt = cl_ExpiresAt c,
    cl_IssuedAt = cl_IssuedAt c, cl_NotBefore = cl_NotBefore c, cl_Issuer = cl_Issuer c, cl_Subject = cl_Subject c\<rparr> = c"
  by simp

definition demo_sign :: "string \<Rightarrow> Claims \<Rightarrow> string + string" where
  "demo_sign key c = Inr (write_fields [key, show_int (cl_UserID c), cl_Username c, cl_Role c, show_int (cl_ExpiresAt c), show_int (cl_IssuedAt c),
     show_int (cl_NotBefore c), cl_Issuer c, cl_Subject c])"

definition demo_parse :: "(signing_method \<Rightarrow> string + string) \<Rightarrow> time \<Rightarrow> string \<Rightarrow> string + Claims" where
  "demo_parse f t token = (case f HMAC of
     Inl e \<Rightarrow> Inl e
   | Inr key \<Rightarrow> (case map read_bits (split_on (CHR ''.'') token) of
       [k, uid, name, role, expires, issuedAt, notBefore, issuer, subject, _] \<Rightarrow>
         (let c = \<lparr>cl_UserID = read_int uid, cl_Username = name, cl_Role = role, cl_ExpiresAt = read_int expires, cl_IssuedAt = read_int issuedAt,
                   cl_NotBefore = read_int notBefore, cl_Issuer = issuer, cl_Subject = subject\<rparr>
          in if k \<noteq> key then Inl ''signature is invalid'' else if valid_at t c then Inr c else Inl ''token is expired'')
     | _ \<Rightarrow> Inl ''token is malformed''))"

definition demo_jwt :: jwt where
  "demo_jwt = \<lparr>jw_date = (\<lambda>t. t - t mod second), jw_sign = demo_sign, jw_parse = demo_parse\<rparr>"

lemma demo_jwt_ok: "jwt_ok demo_jwt" "jwt_signs demo_jwt key"
proof -
  show "jwt_ok demo_jwt"
    by (auto simp: jwt_ok_def demo_jwt_def demo_sign_def demo_parse_def split_fields comp_def Let_def claims_eta)
  have "CHR '' '' \<notin> set (write_fields fs)" for fs using write_fields_set[of fs] by auto
  then show "jwt_signs demo_jwt key" by (simp add: jwt_signs_def demo_jwt_def demo_sign_def)
qed

definition demo_bcrypt :: bcrypt where
  "demo_bcrypt = \<lparr>bc_hash = (\<lambda>salt p. Inr p), bc_compare = (\<lambda>h p. if h = p then None else Some ''mismatch'')\<rparr>"

lemma demo_bcrypt_ok: "bcrypt_ok demo_bcrypt"
  by (simp add: bcrypt_ok_def demo_bcrypt_def)

definition demo_user :: "int \<Rightarrow> string \<Rightarrow> User" where
  "demo_user i name = new_user i name (name @ ''@example.org'') ''secret'' ''A'' ''B'' ''operator''"

definition demo_clock :: "nat \<Rightarrow> time" where
  "demo_clock i = 1700000000 * second"

definition demo_users :: demo_state where
  "demo_users = ([demo_user 1 ''ann'', demo_user 2 ''bob''], [])"
abbreviation demo_login :: "string \<Rightarrow> demo_state \<Rightarrow> (auth_failure + string \<times> string \<times> User) \<times> demo_state" where
  "demo_login name \<equiv> Login demo_accounts demo_jwt demo_bcrypt ''k'' demo_clock [] name ''secret''"

lemma demo_clock_numbers: "demo_clock i = 1700000000000000000"
  by (simp add: demo_clock_def second_def)

lemma demo_user_fields [simp]:
  "usr_ID (demo_user i name) = i" "usr_Username (demo_user i name) = name" "usr_Password (demo_user i name) = ''secret''" "usr_IsActive (demo_user i name)"
  by (simp_all add: demo_user_def new_user_def)

text \<open>Two users have logged in.\<close>

definition demo_session :: "User \<Rightarrow> AuthSession" where
  "demo_session u = new_session [] u (projr (demo_sign ''k'' (access_claims demo_jwt u demo_clock))) (projr (demo_sign ''k'' (refresh_claims demo_jwt u demo_clock)))
     (1700000000 * second + 15 * minute)"

lemma demo_generate:
  "GenerateToken demo_accounts demo_jwt ''k'' demo_clock [] u (us, ss) = (Inr (as_Token (demo_session u), as_RefreshToken (demo_session u)),
     (us, demo_session u # filter (\<lambda>x. \<not> (as_UserID x = usr_ID u \<and> \<not> as_IsActive x)) ss))"
  by (simp add: GenerateToken_def demo_accounts_def list_table_def demo_jwt_def demo_sign_def demo_session_def Let_def demo_clock_numbers second_def)

lemma demo_clock_shift [simp]: "(\<lambda>i. demo_clock (i + k)) = demo_clock" "(\<lambda>i. demo_clock (Suc i)) = demo_clock"
  by (simp_all add: fun_eq_iff demo_clock_numbers)

lemma demo_tables [simp]:
  "tb_first (ac_users demo_accounts) P k (us, ss) = Inr (case filter P us of [] \<Rightarrow> None | x # xs \<Rightarrow> Some (best_row k x xs))"
  "tb_set (ac_users demo_accounts) P f (us, ss) = (None, (map (\<lambda>x. if P x then f x else x) us, ss))"
  "tb_create (ac_users demo_accounts) u (us, ss) = (None, (u # us, ss))"
  "tb_save (ac_users demo_accounts) u (us, ss) = (None, (u # filter (\<lambda>x. usr_ID x \<noteq> usr_ID u) us, ss))"
  "tb_set (ac_sessions demo_accounts) Q g (us, ss) = (None, (us, map (\<lambda>x. if Q x then g x else x) ss))"
  "fst (tb_set (ac_sessions demo_accounts) Q g s) = None"
  by (simp_all add: demo_accounts_def list_table_def)

definition bob :: User where
  "bob = (demo_user 2 ''bob'')\<lparr>usr_LastLogin := Some (1700000000 * second)\<rparr>"

lemma bob_fields [simp]: "usr_ID bob = 2" "usr_Username bob = ''bob''" "usr_IsActive bob"
  by (simp_all add: bob_def)

definition one_session :: demo_state where
  "one_session = ([demo_user 1 ''ann'', bob], [demo_session bob])"

lemma demo_login_bob:
  "demo_login ''bob'' demo_users = (Inr (as_Token (demo_session bob), as_RefreshToken (demo_session bob), bob), one_session)"
proof -
  have b: "(demo_user 2 ''bob'')\<lparr>usr_LastLogin := Some (demo_clock 0)\<rparr> = bob" by (simp add: bob_def demo_clock_def)
  show ?thesis
    by (simp add: Login_def first_user_def demo_users_def CheckPassword_def demo_bcrypt_def Let_def b demo_generate one_session_def)
qed

lemma one_session_rows: "mset (fst one_session) = {#demo_user 1 ''ann'', bob#}" "mset (snd one_session) = {#demo_session bob#}"
  by (simp_all add: one_session_def)

lemma one_session_ok: "sessions_ok demo_jwt ''k'' (mset (snd one_session))"
  using login_sessions_ok[OF demo_accounts_ok(1) demo_jwt_ok(1) _ demo_login_bob] by (simp add: demo_users_def)

lemma demo_session_signed:
  "jw_sign demo_jwt ''k'' (access_claims demo_jwt bob demo_clock) = Inr (as_Token (demo_session bob))"
  "jw_sign demo_jwt ''k'' (refresh_claims demo_jwt bob demo_clock) = Inr (as_RefreshToken (demo_session bob))"
  by (simp_all add: demo_session_def demo_jwt_def demo_sign_def)

lemma demo_session_fields [simp]: "as_UserID (demo_session bob) = 2" "as_IsActive (demo_session bob)" "as_ExpiresAt (demo_session bob) = 1700000900000000000"
  by (simp_all add: demo_session_def duration_defs)

theorem password_change_ends_sessions_witness:
  "case ValidateToken demo_accounts demo_jwt ''k'' demo_clock (as_Token (demo_session bob))
      (snd (ChangePassword demo_accounts demo_bcrypt '''' 1 ''secret'' ''other'' (snd (demo_login ''bob'' demo_users)))) of
     Inr c \<Rightarrow> cl_UserID c \<noteq> 1 | Inl _ \<Rightarrow> False"
proof -
  let ?ops = "[OpLogin demo_clock [] ''bob'' ''secret'']"
  let ?s1 = "([(demo_user 1 ''ann'')\<lparr>usr_Password := ''other''\<rparr>, bob], [demo_session bob])"
  have f: "fold (auth_step demo_accounts demo_jwt demo_bcrypt ''k'') ?ops demo_users = one_session" by (simp add: demo_login_bob)
  have c: "ChangePassword demo_accounts demo_bcrypt '''' 1 ''secret'' ''other'' one_session = (None, ?s1)"
    by (simp add: ChangePassword_def one_session_def first_user_def row_of_def CheckPassword_def HashPassword_def demo_bcrypt_def InvalidateAllUserSessions_def)
  have "valid_at (demo_clock 0) (access_claims demo_jwt bob demo_clock) \<and> demo_clock 1 \<le> cl_ExpiresAt (access_claims demo_jwt bob demo_clock)"
    using access_valid[OF demo_jwt_ok(1), of demo_clock "demo_clock 0" bob] by (simp add: demo_clock_numbers duration_defs)
  then have v: "ValidateToken demo_accounts demo_jwt ''k'' demo_clock (as_Token (demo_session bob)) ?s1 = Inr (access_claims demo_jwt bob demo_clock)"
    using one_session_ok whole_claims[OF demo_jwt_ok(1)]
    by (intro active_token_accepted[OF demo_accounts_ok(1) demo_jwt_ok(1) demo_accounts_ok(2) _ _ _ demo_session_signed(1)])
      (simp_all add: one_session_def access_claims_def)
  have "cl_UserID (access_claims demo_jwt bob demo_clock) \<noteq> 1"
    by (rule password_change_ends_sessions[OF demo_accounts_ok(1) demo_jwt_ok(1), where ?s0.0 = demo_users and ops = ?ops and ops' = "[]" and ?s1.0 = ?s1 and bc = demo_bcrypt and key = "''k''"
          and salt = "''''" and oldPassword = "''secret''" and newPassword = "''other''", unfolded f])
      (use c v in \<open>simp_all add: demo_users_def InvalidateAllUserSessions_def\<close>)
  with c v show ?thesis by (simp add: demo_login_bob)
qed

theorem refresh_dies_with_access_witness:
  "case RefreshToken demo_accounts demo_jwt ''k'' (\<lambda>i. demo_clock i + 16 * minute) [] (as_RefreshToken (demo_session bob)) one_session of
     (Inl _, s) \<Rightarrow> s = one_session \<and> validateTokenWithoutSessionCheck demo_jwt ''k'' (1700000000 * second + 6 * 24 * hour)
        (as_RefreshToken (demo_session bob)) = Inr (refresh_claims demo_jwt bob demo_clock)
   | _ \<Rightarrow> False"
proof -
  let ?ops = "[OpLogin demo_clock [] ''bob'' ''secret'']"
  let ?t = "1700000000 * second + 6 * 24 * hour"
  have f: "fold (auth_step demo_accounts demo_jwt demo_bcrypt ''k'') ?ops demo_users = one_session" by (simp add: demo_login_bob)
  have i: "idle_since demo_accounts demo_jwt demo_bcrypt ''k'' (usr_ID bob) (1700000000 * second) ?ops demo_users"
    by (simp add: issue_def demo_login_bob demo_clock_numbers second_def)
  have t: "demo_clock 5 \<le> ?t \<and> ?t < demo_clock 3 + 7 * 24 * hour - second" by (simp add: demo_clock_numbers duration_defs)
  have l: "1700000000 * second + 15 * minute < demo_clock 0 + 16 * minute" by (simp add: demo_clock_numbers duration_defs)
  have r: "mset (snd demo_users) = {#}" by (simp add: demo_users_def)
  from refresh_dies_with_access[where sessions = "\<lambda>s. mset (snd s)", OF demo_accounts_ok(1) demo_jwt_ok(1) r demo_session_signed(2) i, where now = "\<lambda>i. demo_clock i + 16 * minute", OF l, of "[]" ?t, unfolded f] t
  show ?thesis by auto
qed

theorem refresh_in_same_second_witness:
  "fst (RefreshToken demo_accounts demo_jwt ''k'' demo_clock [] (as_RefreshToken (demo_session bob)) one_session)
     = Inr (as_Token (demo_session bob), as_RefreshToken (demo_session bob))"
  by (rule refresh_in_same_second[OF demo_accounts_ok(1) demo_jwt_ok(1) demo_accounts_ok(2) _ _ demo_login_bob, where k = 1700000000])
    (simp_all add: demo_users_def unique_by_add demo_clock_numbers duration_defs)

theorem deactivated_user_refreshes_witness:
  "let s1 = snd (h_UpdateUser demo_accounts (Some 2) (Some \<lparr>uu_FirstName = None, uu_LastName = None, uu_Email = None, uu_Role = None, uu_IsActive = Some False\<rparr>) one_session)
   in fst (Login demo_accounts demo_jwt demo_bcrypt ''k'' demo_clock [] ''bob'' ''secret'' s1) = Inl InvalidCredentials
    \<and> (\<exists>a r. fst (RefreshToken demo_accounts demo_jwt ''k'' demo_clock [] (as_RefreshToken (demo_session bob)) s1) = Inr (a, r))"
proof -
  let ?q = "\<lparr>uu_FirstName = None, uu_LastName = None, uu_Email = None, uu_Role = None, uu_IsActive = Some False\<rparr>"
  have q: "h_UpdateUser demo_accounts (Some (as_UserID (demo_session bob))) (Some ?q) one_session
      = ((200, Some ((updated_user ?q bob)\<lparr>usr_Password := ''''\<rparr>)), snd (h_UpdateUser demo_accounts (Some 2) (Some ?q) one_session))"
    by (simp add: h_UpdateUser_def one_session_def first_user_def row_of_def)
  have "valid_at (demo_clock 1) (refresh_claims demo_jwt bob demo_clock)"
    by (simp add: valid_at_def refresh_claims_def demo_jwt_def demo_clock_numbers duration_defs)
  from parse_signed(1)[OF demo_jwt_ok(1) _ demo_session_signed(2) this]
  have p: "jw_parse demo_jwt (key_for ''k'') (demo_clock 1) (as_RefreshToken (demo_session bob)) = Inr (refresh_claims demo_jwt bob demo_clock)"
    using whole_claims[OF demo_jwt_ok(1)] by (simp add: refresh_claims_def)
  show ?thesis
    using deactivated_user_refreshes[where x = "demo_session bob" and u = bob and s = one_session and j = demo_jwt and key = "''k''" and now = demo_clock
        and sessions = "\<lambda>s. mset (snd s)" and users = "\<lambda>s. mset (fst s)", OF demo_accounts_ok(1) demo_jwt_ok(1) demo_accounts_ok(2)
        demo_jwt_ok(2) one_session_ok _ _ _ p _ _ _ _ q, of demo_bcrypt demo_clock "[]" "''secret''" "[]"]
    by (simp add: one_session_rows unique_by_add Let_def demo_clock_numbers)
qed

definition demo_registration :: RegisterRequest where
  "demo_registration = \<lparr>rq_Username = ''eve'', rq_Email = ''eve@example.org'', rq_Password = ''secret'', rq_FirstName = ''E'', rq_LastName = ''V'', rq_Role = ''admin''\<rparr>"

definition demo_casbin :: "string list list casbin" where
  "demo_casbin = \<lparr>cb_AddPolicy = (\<lambda>p e. (Inr (p \<notin> set e), p # e)), cb_RemovePolicy = (\<lambda>p e. (Inr (p \<in> set e), removeAll p e)),
     cb_Enforce = (\<lambda>role resource action e. Inr ([role, resource, action] \<in> set e)), cb_GetPolicy = Inr,
     cb_GetPermissionsForUser = (\<lambda>role e. Inr (filter (\<lambda>p. hd p = role) e))\<rparr>"

theorem routes_without_policy_witness:
  "applyRBAC demo_accounts (Some (demo_casbin, snd (initializeDefaultPolicies demo_casbin []))) ''/v1/subscribers'' ''POST'' [''admin'', ''operator'']
     (no_ctx\<lparr>rc_user_id := Some 1, rc_role := Some ''admin''\<rparr>) demo_users \<noteq> PassedOn (no_ctx\<lparr>rc_user_id := Some 1, rc_role := Some ''admin''\<rparr>)"
proof -
  have "casbin_ok demo_casbin set" by (simp add: casbin_ok_def demo_casbin_def)
  from routes_without_policy[OF this, of "''/v1/subscribers''" "''POST''" "[]", THEN conjunct1] show ?thesis by simp
qed

lemma demo_casbin_ok: "casbin_ok demo_casbin set" "casbin_works demo_casbin"
  by (simp_all add: casbin_ok_def casbin_works_def demo_casbin_def)

theorem anyone_becomes_admin_witness:
  "let (ans, s1) = h_Register demo_accounts demo_bcrypt (\<lambda>_. True) id '''' 3 demo_registration demo_users;
       (ans', s2) = h_Login demo_accounts demo_jwt demo_bcrypt ''k'' demo_clock [] \<lparr>lq_Username = ''eve'', lq_Password = ''secret''\<rparr> s1
   in fst ans = 201 \<and> (\<exists>a r u c. ans' = (200, Some (a, r, u)) \<and> AuthMiddleware demo_accounts demo_jwt ''k'' demo_clock (''Bearer '' @ a) no_ctx s2 = PassedOn c
     \<and> applyRBAC demo_accounts (None :: (string list list casbin \<times> string list list) option) ''/api/v1/users'' ''GET'' [''admin''] c s2 = PassedOn c
     \<and> applyRBAC demo_accounts (Some (demo_casbin, snd (initializeDefaultPolicies demo_casbin []))) ''/v1/config'' ''POST'' [''admin''] c s2 = PassedOn c)"
proof -
  obtain ans s1 where r: "h_Register demo_accounts demo_bcrypt (\<lambda>_. True) id '''' 3 demo_registration demo_users = (ans, s1)" by (rule prod.exhaust)
  obtain ans' s2 where l: "h_Login demo_accounts demo_jwt demo_bcrypt ''k'' demo_clock [] \<lparr>lq_Username = ''eve'', lq_Password = ''secret''\<rparr> s1 = (ans', s2)" by (rule prod.exhaust)
  have "valid_register (\<lambda>_. True) demo_registration" by code_simp
  moreover have "rq_Username demo_registration = ''eve''" "rq_Password demo_registration = ''secret''" "rq_Role demo_registration = ''admin''"
    by (simp_all add: demo_registration_def)
  ultimately have "fst ans = 201 \<and> (\<exists>a r u c. ans' = (200, Some (a, r, u)) \<and> AuthMiddleware demo_accounts demo_jwt ''k'' demo_clock (''Bearer '' @ a) no_ctx s2 = PassedOn c
    \<and> (\<forall>path action roles. ''admin'' \<in> set roles \<longrightarrow> applyRBAC demo_accounts (None :: (string list list casbin \<times> string list list) option) path action roles c s2 = PassedOn c)
    \<and> (\<forall>path action roles. [''admin'', path, action] \<in> set defaultPolicies \<longrightarrow>
         applyRBAC demo_accounts (Some (demo_casbin, snd (initializeDefaultPolicies demo_casbin []))) path action roles c s2 = PassedOn c))"
    using anyone_becomes_admin[where db = demo_accounts and users = "\<lambda>s. mset (fst s)" and sessions = "\<lambda>s. mset (snd s)" and j = demo_jwt and bc = demo_bcrypt
        and s = demo_users and key = "''k''"
        and is_email = "\<lambda>_. True" and q = demo_registration and sanitize = id and salt = "''''" and h = "''secret''" and now = demo_clock and now' = demo_clock
        and newID = 3 and ans = ans and ?s1.0 = s1 and rnd = "[]" and ans' = ans' and ?s2.0 = s2 and cb = demo_casbin and pol = set and ?e0.0 = "[]"]
      demo_accounts_ok demo_jwt_ok demo_bcrypt_ok demo_casbin_ok r l
    by (simp add: demo_users_def demo_bcrypt_def demo_clock_numbers duration_defs)
  moreover have "[''admin'', ''/v1/config'', ''POST''] \<in> set defaultPolicies" by (simp add: defaultPolicies_def)
  ultimately show ?thesis using r l by (auto simp: Let_def)
qed

end
