(* ===== verification/Float64.thy ===== *)
theory Float64
  imports Complex_Main "HOL-Library.Log_Nat"
begin

text \<open>
  Go's \<open>float64\<close>: IEEE 754 binary64 with round to nearest, ties to even, executable over
  the rationals. A finite value is a sign (which only a zero needs) and its rational value;
  \<open>rnd\<close> rounds a rational to the 53 bit grid of its binade. The arithmetic computes
  exactly and rounds once, as the standard asks and as the compiler does on a target without
  fused operations (amd64). The predicate \<open>f64_in lo hi x\<close> carries the interval
  arithmetic in which the score and rate bounds of the components are proved.
\<close>

section \<open>Rounding\<close>

definition rhe :: "rat \<Rightarrow> int" where
  "rhe q = (let f = \<lfloor>q\<rfloor>; d = q - of_int f in
     if d < 1 / 2 then f else if 1 / 2 < d then f + 1 else if even f then f else f + 1)"

definition ilog2 :: "rat \<Rightarrow> int" where
  "ilog2 r = (let (a, b) = quotient_of r; e = bitlen \<bar>a\<bar> - bitlen b in
     if 2 powi e \<le> \<bar>r\<bar> then e else e - 1)"

definition ulp_exp :: "rat \<Rightarrow> int" where
  "ulp_exp r = max (ilog2 r - 52) (- 1074)"

definition rnd :: "rat \<Rightarrow> rat" where
  "rnd r = (let u = 2 powi (ulp_exp r) in of_int (rhe (r / u)) * u)"

lemma rhe_of_int [simp]: "rhe (of_int k) = k"
  by (simp add: rhe_def Let_def)

lemma rhe_bounds: "\<lfloor>q\<rfloor> \<le> rhe q" "rhe q \<le> \<lfloor>q\<rfloor> + 1"
  by (auto simp: rhe_def Let_def)

lemma rhe_mono: "x \<le> y \<Longrightarrow> rhe x \<le> rhe y"
proof -
  assume xy: "x \<le> y"
  then have fl: "\<lfloor>x\<rfloor> \<le> \<lfloor>y\<rfloor>" by (rule floor_mono)
  show ?thesis
  proof (cases "\<lfloor>x\<rfloor> = \<lfloor>y\<rfloor>")
    case True
    then show ?thesis using xy by (auto simp: rhe_def Let_def)
  next
    case False
    with fl have "\<lfloor>x\<rfloor> + 1 \<le> \<lfloor>y\<rfloor>" by simp
    then show ?thesis using rhe_bounds[of x] rhe_bounds[of y] by linarith
  qed
qed

lemma rhe_ge: "of_int k \<le> x \<Longrightarrow> k \<le> rhe x"
  using rhe_mono[of "of_int k" x] by simp

lemma rhe_le: "x \<le> of_int k \<Longrightarrow> rhe x \<le> k"
  using rhe_mono[of x "of_int k"] by simp

lemma rhe_minus: "rhe (- q) = - rhe q"
proof (cases "q \<in> \<int>")
  case True
  then obtain k where "q = of_int k" by (auto elim: Ints_cases)
  then show ?thesis using rhe_of_int[of "- k"] by simp
next
  case False
  then have c: "\<lfloor>- q\<rfloor> = - \<lfloor>q\<rfloor> - 1"
    by (metis add.inverse_inverse ceiling_altdef ceiling_def
        Ints_of_int uminus_add_conv_diff minus_add)
  show ?thesis by (auto simp: rhe_def Let_def c)
qed

lemma powi2_pos [simp]: "(0::rat) < 2 powi e"
  by (simp add: zero_less_power_int)

lemma powi2_nz [simp]: "(2::rat) powi e \<noteq> 0"
  by simp

lemma powi2_less: "m < n \<Longrightarrow> (2::rat) powi m < 2 powi n"
  by (rule power_int_strict_increasing) auto

lemma powi2_mono: "m \<le> n \<Longrightarrow> (2::rat) powi m \<le> 2 powi n"
  by (rule power_int_increasing) auto

lemma powi2_less_iff: "(2::rat) powi m < 2 powi n \<longleftrightarrow> m < n"
  using powi2_less[of m n] powi2_mono[of n m] by fastforce

lemma powi2_add: "(2::rat) powi (m + n) = 2 powi m * 2 powi n"
  by (simp add: power_int_add)

lemma ilog2_bounds:
  assumes "r \<noteq> 0"
  shows "2 powi (ilog2 r) \<le> \<bar>r\<bar>" "\<bar>r\<bar> < 2 powi (ilog2 r + 1)"
proof -
  obtain a b where q: "quotient_of r = (a, b)" by fastforce
  then have b: "0 < b" by (rule quotient_of_denom_pos)
  have r: "r = of_int a / of_int b" by (rule quotient_of_div[OF q])
  with assms have a: "0 < \<bar>a\<bar>" by auto
  define la lb where "la = bitlen \<bar>a\<bar>" and "lb = bitlen b"
  have la1: "1 \<le> la" and lb1: "1 \<le> lb"
    using a b by (auto simp: la_def lb_def bitlen_alt_def)
  have up: "of_int x < (2::rat) powi bitlen x" and lo: "2 powi (bitlen x - 1) \<le> (of_int x :: rat)"
    if "0 < x" for x
  proof -
    from that have l: "1 \<le> bitlen x" by (auto simp: bitlen_alt_def)
    have "(of_int x :: rat) < of_int (2 ^ nat (bitlen x))"
      using bitlen_bounds[OF that] by (simp only: of_int_less_iff)
    then show "of_int x < (2::rat) powi bitlen x"
      using l by (simp add: power_int_nonneg_exp)
    have "of_int (2 ^ nat (bitlen x - 1)) \<le> (of_int x :: rat)"
      using bitlen_bounds[OF that] by (simp only: of_int_le_iff)
    then show "2 powi (bitlen x - 1) \<le> (of_int x :: rat)"
      using l by (simp add: power_int_nonneg_exp)
  qed
  have ab: "\<bar>r\<bar> = of_int \<bar>a\<bar> / of_int b" using b by (simp add: r)
  have bp: "(0::rat) < of_int b" using b by simp
  have hi: "\<bar>r\<bar> < 2 powi (la - lb + 1)"
  proof -
    have "of_int \<bar>a\<bar> < (2::rat) powi la" using up[OF a] by (simp add: la_def)
    also have "\<dots> = 2 powi (la - lb + 1) * 2 powi (lb - 1)"
      by (simp flip: powi2_add)
    also have "\<dots> \<le> 2 powi (la - lb + 1) * of_int b"
      using lo[OF b] by (simp add: lb_def)
    finally show ?thesis using bp by (simp add: ab divide_less_eq)
  qed
  have low: "2 powi (la - lb - 1) \<le> \<bar>r\<bar>"
  proof -
    have "2 powi (la - lb - 1) * of_int b \<le> (2::rat) powi (la - lb - 1) * 2 powi lb"
      using up[OF b] by (simp add: lb_def)
    also have "\<dots> = 2 powi (la - 1)" by (simp flip: powi2_add)
    also have "\<dots> \<le> of_int \<bar>a\<bar>" using lo[OF a] by (simp add: la_def)
    finally show ?thesis using bp by (simp add: ab le_divide_eq)
  qed
  have "2 powi (ilog2 r) \<le> \<bar>r\<bar> \<and> \<bar>r\<bar> < 2 powi (ilog2 r + 1)"
    using hi low by (auto simp: ilog2_def q Let_def la_def lb_def not_le)
  then show "2 powi (ilog2 r) \<le> \<bar>r\<bar>" "\<bar>r\<bar> < 2 powi (ilog2 r + 1)" by auto
qed

lemma ilog2_mono: "0 < x \<Longrightarrow> x \<le> y \<Longrightarrow> ilog2 x \<le> ilog2 y"
proof -
  assume x: "0 < x" and xy: "x \<le> y"
  have "2 powi (ilog2 x) \<le> \<bar>x\<bar>" using x by (intro ilog2_bounds) simp
  also have "\<bar>x\<bar> \<le> \<bar>y\<bar>" using x xy by simp
  also have "\<bar>y\<bar> < 2 powi (ilog2 y + 1)" using x xy by (intro ilog2_bounds) simp
  finally show ?thesis by (simp add: powi2_less_iff)
qed

lemma ilog2_minus [simp]: "ilog2 (- r) = ilog2 r"
proof (cases "r = 0")
  case False
  note b = ilog2_bounds[OF False] and b' = ilog2_bounds[of "- r"]
  from False have "- r \<noteq> 0" by simp
  note b' = ilog2_bounds[OF this, simplified]
  have "(2::rat) powi ilog2 r < 2 powi (ilog2 (- r) + 1)" using b(1) b'(2) by linarith
  moreover have "(2::rat) powi ilog2 (- r) < 2 powi (ilog2 r + 1)" using b(2) b'(1) by linarith
  ultimately show ?thesis by (simp add: powi2_less_iff)
qed simp

lemma ulp_exp_minus [simp]: "ulp_exp (- r) = ulp_exp r"
  by (simp add: ulp_exp_def)

lemma ulp_exp_ge: "- 1074 \<le> ulp_exp r"
  by (simp add: ulp_exp_def)

lemma ulp_exp_mono: "0 < x \<Longrightarrow> x \<le> y \<Longrightarrow> ulp_exp x \<le> ulp_exp y"
  using ilog2_mono[of x y] by (simp add: ulp_exp_def)

lemma ulp_exp_bound: "\<bar>r\<bar> \<le> 2 ^ 53 * 2 powi (ulp_exp r)"
proof (cases "r = 0")
  case False
  have "\<bar>r\<bar> < 2 powi (ilog2 r + 1)" using False by (rule ilog2_bounds)
  also have "\<dots> \<le> 2 powi (53 + ulp_exp r)" by (rule powi2_mono) (simp add: ulp_exp_def)
  finally show ?thesis by (simp add: powi2_add)
qed simp

lemma rnd_0 [simp]: "rnd 0 = 0"
  by (simp add: rnd_def Let_def rhe_def)

lemma rnd_minus: "rnd (- r) = - rnd r"
  by (simp add: rnd_def Let_def rhe_minus)

lemma rnd_grid:
  assumes "\<bar>k\<bar> \<le> 2 ^ 53" and "- 1074 \<le> e"
  shows "rnd (of_int k * 2 powi e) = of_int k * 2 powi e"
proof -
  define r :: rat where "r = of_int k * 2 powi e"
  let ?u = "ulp_exp r"
  have int: "\<exists>j. r / 2 powi ?u = of_int j"
  proof (cases "?u \<le> e \<or> k = 0")
    case True
    then have "r / 2 powi ?u = of_int (k * 2 ^ nat (e - ?u))"
      by (auto simp: r_def power_int_diff simp flip: power_int_nonneg_exp)
    then show ?thesis by blast
  next
    case False
    with assms have u: "?u = ilog2 r - 52" by (auto simp: ulp_exp_def)
    from False have r0: "r \<noteq> 0" by (simp add: r_def)
    have "2 powi (e + 53) \<le> (2::rat) powi (ilog2 r)" using False u by (intro powi2_mono) simp
    also have "\<dots> \<le> \<bar>r\<bar>" using r0 by (rule ilog2_bounds)
    also have "\<dots> = of_int \<bar>k\<bar> * 2 powi e" by (simp add: r_def abs_mult)
    finally have "of_int (2 ^ 53) \<le> (of_int \<bar>k\<bar> :: rat)" by (simp add: powi2_add)
    then have "2 ^ 53 \<le> \<bar>k\<bar>" by (simp only: of_int_le_iff)
    with assms have k: "\<bar>k\<bar> = 2 ^ 53" by simp
    have "2 powi (ilog2 r) \<le> \<bar>r\<bar>" using r0 by (rule ilog2_bounds)
    also have "\<bar>r\<bar> = of_int \<bar>k\<bar> * 2 powi e" by (simp add: r_def abs_mult)
    also have "\<dots> = 2 powi (53 + e)" by (simp add: k powi2_add)
    finally have "ilog2 r \<le> 53 + e" using powi2_less_iff[of "53 + e" "ilog2 r"] by linarith
    with False u have "?u = e + 1" by simp
    then have "r / 2 powi ?u = of_int k / 2" by (simp add: r_def powi2_add)
    also have "\<dots> = of_int (sgn k * 2 ^ 52)"
      using k by (cases "0 \<le> k") (auto simp: sgn_if)
    finally show ?thesis by blast
  qed
  then obtain j where j: "r / 2 powi ?u = of_int j" by blast
  then have "r = of_int j * 2 powi ?u" by (simp add: divide_eq_eq)
  then have "rnd r = r" by (simp add: rnd_def Let_def j)
  then show ?thesis by (simp add: r_def)
qed

lemma rnd_idem [simp]: "rnd (rnd r) = rnd r"
proof -
  let ?u = "ulp_exp r"
  have "r / 2 powi ?u \<le> of_int (2 ^ 53)" "of_int (- (2 ^ 53)) \<le> r / 2 powi ?u"
    using ulp_exp_bound[of r] by (auto simp: divide_le_eq le_divide_eq abs_le_iff)
  then have "rhe (r / 2 powi ?u) \<le> 2 ^ 53" "- (2 ^ 53) \<le> rhe (r / 2 powi ?u)"
    by (auto intro: rhe_le rhe_ge)
  then have "\<bar>rhe (r / 2 powi ?u)\<bar> \<le> 2 ^ 53" by (simp add: abs_le_iff)
  then have "rnd (of_int (rhe (r / 2 powi ?u)) * 2 powi ?u) = of_int (rhe (r / 2 powi ?u)) * 2 powi ?u"
    using ulp_exp_ge by (rule rnd_grid)
  then show ?thesis by (simp add: rnd_def Let_def)
qed

lemma rnd_nonneg: "0 \<le> r \<Longrightarrow> 0 \<le> rnd r"
  using rhe_ge[of 0 "r / 2 powi ulp_exp r"] by (simp add: rnd_def Let_def)

lemma rnd_mono_pos:
  assumes "0 < x" and "x \<le> y"
  shows "rnd x \<le> rnd y"
proof (cases "ulp_exp x = ulp_exp y")
  case True
  have "rhe (x / 2 powi ulp_exp y) \<le> rhe (y / 2 powi ulp_exp y)"
    using assms by (intro rhe_mono) (simp add: divide_right_mono)
  then show ?thesis by (simp add: rnd_def Let_def True)
next
  case False
  with ulp_exp_mono[OF assms] have lt: "ulp_exp x < ulp_exp y" by simp
  have "x / 2 powi ulp_exp x \<le> of_int (2 ^ 53)"
    using ulp_exp_bound[of x] assms by (simp add: divide_le_eq)
  then have "rhe (x / 2 powi ulp_exp x) \<le> 2 ^ 53" by (rule rhe_le)
  then have "of_int (rhe (x / 2 powi ulp_exp x)) \<le> (of_int (2 ^ 53) :: rat)"
    by (simp only: of_int_le_iff)
  then have "rnd x \<le> 2 ^ 53 * 2 powi ulp_exp x" by (simp add: rnd_def Let_def)
  also have "\<dots> = 2 powi (53 + ulp_exp x)" by (simp add: powi2_add)
  also have "\<dots> \<le> 2 powi (52 + ulp_exp y)" using lt by (intro powi2_mono) simp
  also have "\<dots> \<le> rnd y"
  proof -
    have y: "ulp_exp y = ilog2 y - 52" using lt ulp_exp_ge[of x] unfolding ulp_exp_def by linarith
    have "2 powi (ilog2 y) \<le> \<bar>y\<bar>" using assms by (intro ilog2_bounds) simp
    moreover have "ilog2 y = ulp_exp y + 52" using y by simp
    ultimately have "2 ^ 52 * 2 powi ulp_exp y \<le> y" using assms by (simp add: powi2_add)
    then have "of_int (2 ^ 52) \<le> y / 2 powi ulp_exp y" by (simp add: le_divide_eq)
    then have "2 ^ 52 \<le> rhe (y / 2 powi ulp_exp y)" by (rule rhe_ge)
    then have "of_int (2 ^ 52) \<le> (of_int (rhe (y / 2 powi ulp_exp y)) :: rat)"
      by (simp only: of_int_le_iff)
    then show ?thesis by (simp add: rnd_def Let_def powi2_add)
  qed
  finally show ?thesis .
qed

lemma rnd_mono: "x \<le> y \<Longrightarrow> rnd x \<le> rnd y"
proof -
  assume xy: "x \<le> y"
  consider "0 < x" | "y < 0" | "x \<le> 0" "0 \<le> y" by linarith
  then show ?thesis
  proof cases
    case 1
    then show ?thesis using xy by (rule rnd_mono_pos)
  next
    case 2
    then have "rnd (- y) \<le> rnd (- x)" using xy by (intro rnd_mono_pos) auto
    then show ?thesis by (simp add: rnd_minus)
  next
    case 3
    then show ?thesis using rnd_nonneg[of y] rnd_nonneg[of "- x"] by (simp add: rnd_minus)
  qed
qed


section \<open>Values and operations\<close>

datatype f64 = NaN | Inf bool | Fin bool rat

definition f64_round :: "bool \<Rightarrow> rat \<Rightarrow> f64" where
  "f64_round s r = (let q = rnd r in
     if 2 ^ 1024 \<le> \<bar>q\<bar> then Inf (r < 0)
     else Fin (if r = 0 then s else r < 0) q)"

definition f64_lit :: "rat \<Rightarrow> f64" where
  "f64_lit r = f64_round False r"

definition f64_of_int :: "int \<Rightarrow> f64" where
  "f64_of_int n = f64_round False (of_int n)"

fun f64_neg :: "f64 \<Rightarrow> f64" where
  "f64_neg NaN = NaN"
| "f64_neg (Inf s) = Inf (\<not> s)"
| "f64_neg (Fin s r) = Fin (\<not> s) (- r)"

fun f64_add :: "f64 \<Rightarrow> f64 \<Rightarrow> f64" where
  "f64_add NaN y = NaN"
| "f64_add x NaN = NaN"
| "f64_add (Inf s) (Inf t) = (if s = t then Inf s else NaN)"
| "f64_add (Inf s) (Fin _ _) = Inf s"
| "f64_add (Fin _ _) (Inf t) = Inf t"
| "f64_add (Fin s a) (Fin t b) = f64_round (s \<and> t) (a + b)"

definition f64_sub :: "f64 \<Rightarrow> f64 \<Rightarrow> f64" where
  "f64_sub x y = f64_add x (f64_neg y)"

fun f64_mul :: "f64 \<Rightarrow> f64 \<Rightarrow> f64" where
  "f64_mul NaN y = NaN"
| "f64_mul x NaN = NaN"
| "f64_mul (Inf s) (Inf t) = Inf (s \<noteq> t)"
| "f64_mul (Inf s) (Fin t b) = (if b = 0 then NaN else Inf (s \<noteq> t))"
| "f64_mul (Fin s a) (Inf t) = (if a = 0 then NaN else Inf (s \<noteq> t))"
| "f64_mul (Fin s a) (Fin t b) = f64_round (s \<noteq> t) (a * b)"

fun f64_div :: "f64 \<Rightarrow> f64 \<Rightarrow> f64" where
  "f64_div NaN y = NaN"
| "f64_div x NaN = NaN"
| "f64_div (Inf s) (Inf t) = NaN"
| "f64_div (Inf s) (Fin t b) = Inf (s \<noteq> t)"
| "f64_div (Fin s a) (Inf t) = Fin (s \<noteq> t) 0"
| "f64_div (Fin s a) (Fin t b) =
     (if b = 0 then (if a = 0 then NaN else Inf (s \<noteq> t))
      else f64_round (s \<noteq> t) (a / b))"

fun f64_lt :: "f64 \<Rightarrow> f64 \<Rightarrow> bool" where
  "f64_lt (Fin _ a) (Fin _ b) = (a < b)"
| "f64_lt (Inf s) (Fin _ _) = s"
| "f64_lt (Fin _ _) (Inf t) = (\<not> t)"
| "f64_lt (Inf s) (Inf t) = (s \<and> \<not> t)"
| "f64_lt _ _ = False"

fun f64_le :: "f64 \<Rightarrow> f64 \<Rightarrow> bool" where
  "f64_le (Fin _ a) (Fin _ b) = (a \<le> b)"
| "f64_le (Inf s) (Fin _ _) = s"
| "f64_le (Fin _ _) (Inf t) = (\<not> t)"
| "f64_le (Inf s) (Inf t) = (s \<or> \<not> t)"
| "f64_le _ _ = False"

fun f64_eq :: "f64 \<Rightarrow> f64 \<Rightarrow> bool" where
  "f64_eq (Fin _ a) (Fin _ b) = (a = b)"
| "f64_eq (Inf s) (Inf t) = (s = t)"
| "f64_eq _ _ = False"

abbreviation f64_gt :: "f64 \<Rightarrow> f64 \<Rightarrow> bool" where
  "f64_gt x y \<equiv> f64_lt y x"

abbreviation f64_ge :: "f64 \<Rightarrow> f64 \<Rightarrow> bool" where
  "f64_ge x y \<equiv> f64_le y x"

definition f64_min :: "f64 \<Rightarrow> f64 \<Rightarrow> f64" where
  "f64_min x y =
    (if x = Inf True \<or> y = Inf True then Inf True
     else if x = NaN \<or> y = NaN then NaN
     else case (x, y) of
       (Fin s a, Fin t b) \<Rightarrow>
         (if a = 0 \<and> a = b then (if s then x else y) else if a < b then x else y)
     | _ \<Rightarrow> (if f64_lt x y then x else y))"

definition f64_max :: "f64 \<Rightarrow> f64 \<Rightarrow> f64" where
  "f64_max x y =
    (if x = Inf False \<or> y = Inf False then Inf False
     else if x = NaN \<or> y = NaN then NaN
     else case (x, y) of
       (Fin s a, Fin t b) \<Rightarrow>
         (if a = 0 \<and> a = b then (if s then y else x) else if b < a then x else y)
     | _ \<Rightarrow> (if f64_lt y x then x else y))"

text \<open>The conversion \<open>int(x)\<close>; out of range it is what amd64 computes.\<close>

fun f64_to_int :: "f64 \<Rightarrow> int" where
  "f64_to_int (Fin s r) =
     (let k = (if 0 \<le> r then \<lfloor>r\<rfloor> else - \<lfloor>- r\<rfloor>) in
      if - (2 ^ 63) \<le> k \<and> k < 2 ^ 63 then k else - (2 ^ 63))"
| "f64_to_int _ = - (2 ^ 63)"

fun f64_abs :: "f64 \<Rightarrow> f64" where
  "f64_abs NaN = NaN"
| "f64_abs (Inf _) = Inf False"
| "f64_abs (Fin _ r) = Fin False \<bar>r\<bar>"

section \<open>Representable values and intervals\<close>

definition rep64 :: "rat \<Rightarrow> bool" where
  "rep64 r \<longleftrightarrow> rnd r = r \<and> \<bar>r\<bar> < 2 ^ 1024"

fun f64_ok :: "f64 \<Rightarrow> bool" where
  "f64_ok (Fin s r) = (rep64 r \<and> (r \<noteq> 0 \<longrightarrow> s = (r < 0)))"
| "f64_ok _ = True"

fun f64_in :: "rat \<Rightarrow> rat \<Rightarrow> f64 \<Rightarrow> bool" where
  "f64_in lo hi (Fin s r) = (lo \<le> r \<and> r \<le> hi)"
| "f64_in lo hi _ = False"

lemma rep64_0 [simp]: "rep64 0"
  by (simp add: rep64_def)

lemma rep64_of_int: "\<bar>k\<bar> \<le> 2 ^ 53 \<Longrightarrow> rep64 (of_int k)"
proof -
  assume k: "\<bar>k\<bar> \<le> 2 ^ 53"
  have "rnd (of_int k) = of_int k" using rnd_grid[OF k, of 0] by simp
  moreover have "(of_int \<bar>k\<bar> :: rat) \<le> of_int (2 ^ 53)" using k by (simp only: of_int_le_iff)
  then have "\<bar>of_int k :: rat\<bar> < 2 ^ 1024" by simp
  ultimately show ?thesis by (simp add: rep64_def)
qed

lemma rep64_1 [simp]: "rep64 1"
  using rep64_of_int[of 1] by simp

lemma rep64_numeral [simp]: "(numeral n :: int) \<le> 2 ^ 53 \<Longrightarrow> rep64 (numeral n)"
  using rep64_of_int[of "numeral n"] by simp

lemma rep64_minus [simp]: "rep64 (- r) = rep64 r"
  by (simp add: rep64_def rnd_minus)

lemma f64_round_in:
  assumes "rep64 a" "rep64 b" "a \<le> r" "r \<le> b"
  shows "f64_in a b (f64_round s r)"
proof -
  have "rnd a \<le> rnd r" "rnd r \<le> rnd b" using assms rnd_mono by auto
  with assms have "a \<le> rnd r" "rnd r \<le> b" by (auto simp: rep64_def)
  moreover from this assms have "\<bar>rnd r\<bar> < 2 ^ 1024" by (auto simp: rep64_def)
  ultimately show ?thesis by (simp add: f64_round_def Let_def)
qed

lemma f64_round_ok [simp]: "f64_ok (f64_round s r)"
proof (cases "2 ^ 1024 \<le> \<bar>rnd r\<bar>")
  case False
  moreover have "rnd r < 0 \<longleftrightarrow> r < 0" if "rnd r \<noteq> 0"
    using that rnd_mono[of r 0] rnd_mono[of 0 r] by fastforce
  ultimately show ?thesis by (auto simp: f64_round_def Let_def rep64_def)
qed (simp add: f64_round_def)

lemma f64_lit_ok [simp]: "f64_ok (f64_lit r)" "f64_ok (f64_of_int n)"
  by (simp_all add: f64_lit_def f64_of_int_def)

lemma f64_neg_ok [simp]: "f64_ok x \<Longrightarrow> f64_ok (f64_neg x)"
  by (cases x) auto

lemma f64_add_ok [simp]: "f64_ok x \<Longrightarrow> f64_ok y \<Longrightarrow> f64_ok (f64_add x y)"
  by (cases "(x, y)" rule: f64_add.cases) auto

lemma f64_sub_ok [simp]: "f64_ok x \<Longrightarrow> f64_ok y \<Longrightarrow> f64_ok (f64_sub x y)"
  by (simp add: f64_sub_def)

lemma f64_mul_ok [simp]: "f64_ok x \<Longrightarrow> f64_ok y \<Longrightarrow> f64_ok (f64_mul x y)"
  by (cases "(x, y)" rule: f64_mul.cases) auto

lemma f64_div_ok [simp]: "f64_ok x \<Longrightarrow> f64_ok y \<Longrightarrow> f64_ok (f64_div x y)"
  by (cases "(x, y)" rule: f64_div.cases) auto

lemma f64_in_lit: "rep64 a \<Longrightarrow> rep64 b \<Longrightarrow> a \<le> r \<Longrightarrow> r \<le> b \<Longrightarrow> f64_in a b (f64_lit r)"
  by (simp add: f64_lit_def f64_round_in)

lemma f64_in_of_int:
  "rep64 a \<Longrightarrow> rep64 b \<Longrightarrow> a \<le> of_int n \<Longrightarrow> of_int n \<le> b \<Longrightarrow> f64_in a b (f64_of_int n)"
  by (simp add: f64_of_int_def f64_round_in)

lemma f64_in_weaken: "f64_in a b x \<Longrightarrow> a' \<le> a \<Longrightarrow> b \<le> b' \<Longrightarrow> f64_in a' b' x"
  by (cases x) auto

lemma f64_in_add:
  "f64_in a b x \<Longrightarrow> f64_in c d y \<Longrightarrow> rep64 (a + c) \<Longrightarrow> rep64 (b + d)
   \<Longrightarrow> f64_in (a + c) (b + d) (f64_add x y)"
  by (cases x; cases y) (auto intro: f64_round_in)

lemma f64_in_neg: "f64_in a b x \<Longrightarrow> f64_in (- b) (- a) (f64_neg x)"
  by (cases x) auto

lemma f64_in_sub:
  "f64_in a b x \<Longrightarrow> f64_in c d y \<Longrightarrow> rep64 (a - d) \<Longrightarrow> rep64 (b - c)
   \<Longrightarrow> f64_in (a - d) (b - c) (f64_sub x y)"
  using f64_in_add[of a b x "- d" "- c" "f64_neg y"] by (simp add: f64_sub_def f64_in_neg)

lemma f64_in_mul:
  assumes "f64_in a b x" "f64_in c d y" "0 \<le> a" "0 \<le> c" "rep64 (a * c)" "rep64 (b * d)"
  shows "f64_in (a * c) (b * d) (f64_mul x y)"
  using assms by (cases x; cases y) (auto intro!: f64_round_in mult_mono)

lemma f64_in_div:
  assumes "f64_in a b x" "f64_in c d y" "0 \<le> a" "0 < c" "rep64 (a / d)" "rep64 (b / c)"
  shows "f64_in (a / d) (b / c) (f64_div x y)"
  using assms by (cases x; cases y) (auto intro!: f64_round_in frac_le)

lemma f64_in_min: "f64_in a b x \<Longrightarrow> f64_in c d y \<Longrightarrow> f64_in (min a c) (min b d) (f64_min x y)"
  by (cases x; cases y) (auto simp: f64_min_def)

lemma f64_in_max: "f64_in a b x \<Longrightarrow> f64_in c d y \<Longrightarrow> f64_in (max a c) (max b d) (f64_max x y)"
  by (cases x; cases y) (auto simp: f64_max_def)

lemma f64_in_abs: "f64_in a b x \<Longrightarrow> f64_in 0 (max \<bar>a\<bar> \<bar>b\<bar>) (f64_abs x)"
  by (cases x) auto

lemma f64_to_int_in:
  assumes "f64_in (of_int a) (of_int b) x" "0 \<le> a" "b < 2 ^ 63"
  shows "a \<le> f64_to_int x" "f64_to_int x \<le> b"
proof -
  obtain s r where x: "x = Fin s r" "of_int a \<le> r" "r \<le> of_int b"
    using assms(1) by (cases x) auto
  then have "a \<le> \<lfloor>r\<rfloor>" "\<lfloor>r\<rfloor> \<le> b" by (simp add: le_floor_iff, linarith)
  moreover have "0 \<le> r" using x(2) assms(2) by (meson of_int_0_le_iff order_trans)
  moreover have "r < 2 ^ 63"
    using x(3) assms(3) by (metis le_less_trans of_int_less_iff of_int_numeral of_int_power)
  ultimately show "a \<le> f64_to_int x" "f64_to_int x \<le> b"
    using x(1) assms(2,3) by (simp_all add: Let_def)
qed

lemma rep64_pow2: "k \<le> 1000 \<Longrightarrow> rep64 (2 ^ k)"
proof -
  assume k: "k \<le> 1000"
  have "rnd (of_int 1 * 2 powi int k) = of_int 1 * 2 powi int k" by (rule rnd_grid) auto
  moreover have "(2 :: rat) ^ k < 2 ^ 1024"
    using k by (intro power_strict_increasing) auto
  ultimately show ?thesis by (simp add: rep64_def power_int_of_nat)
qed

text \<open>The quotient of two counters, as every success rate of the program computes it.\<close>

lemma f64_of_int_pos:
  assumes "0 < n" "n \<le> 2 ^ 64"
  shows "f64_of_int n = Fin False (rnd (of_int n))" "1 \<le> rnd (of_int n)"
proof -
  have "rat_of_int n \<le> 2 ^ 64"
    using assms(2) by (metis of_int_le_iff of_int_numeral of_int_power)
  then have "rnd (rat_of_int n) \<le> rnd (2 ^ 64)" by (rule rnd_mono)
  also have "rnd (2 ^ 64) = 2 ^ 64" using rep64_pow2[of 64] unfolding rep64_def by simp
  finally have le: "rnd (rat_of_int n) \<le> 2 ^ 64" .
  have "rnd 1 \<le> rnd (rat_of_int n)" using assms(1) by (intro rnd_mono) simp
  then show ge: "1 \<le> rnd (rat_of_int n)" using rep64_1 unfolding rep64_def by simp
  have "(2 :: rat) ^ 64 < 2 ^ 1024" by (rule power_strict_increasing) simp_all
  with le have "rnd (rat_of_int n) < 2 ^ 1024" by (rule le_less_trans)
  with ge have "\<not> 2 ^ 1024 \<le> \<bar>rnd (rat_of_int n)\<bar>" by linarith
  then show "f64_of_int n = Fin False (rnd (rat_of_int n))"
    using assms(1) unfolding f64_of_int_def f64_round_def Let_def by (simp only: if_False) simp
qed

lemma f64_of_int_0 [simp]: "f64_of_int 0 = Fin False 0"
  by (simp add: f64_of_int_def f64_round_def Let_def)

lemma f64_ratio_in:
  assumes "0 \<le> a" "a \<le> b" "0 < b" "b \<le> 2 ^ 64"
  shows "f64_in 0 1 (f64_div (f64_of_int a) (f64_of_int b))"
proof (cases "a = 0")
  case True
  have "rnd (of_int b) \<noteq> 0" using f64_of_int_pos(2)[OF assms(3,4)] by auto
  then show ?thesis
    using f64_of_int_pos(1)[OF assms(3,4)] True by (simp add: f64_round_in)
next
  case False
  note fa = f64_of_int_pos[of a] and fb = f64_of_int_pos[OF assms(3,4)]
  have "rnd (of_int a) \<le> rnd (of_int b)" using assms(2) by (intro rnd_mono) simp
  then show ?thesis
    using fa fb False assms by (simp add: f64_round_in divide_le_eq_1)
qed

lemma f64_in_fin: "f64_in a b x \<Longrightarrow> \<exists>s r. x = Fin s r \<and> a \<le> r \<and> r \<le> b"
  by (cases x) auto

lemma f64_le_refl_in: "f64_in a b x \<Longrightarrow> f64_le x x"
  by (cases x) auto

text \<open>Comparisons of finite values are those of their values.\<close>

fun f64_val :: "f64 \<Rightarrow> rat" where
  "f64_val (Fin s r) = r"
| "f64_val _ = 0"

lemma f64_lt_val: "f64_in a b x \<Longrightarrow> f64_in c d y \<Longrightarrow> f64_lt x y \<longleftrightarrow> f64_val x < f64_val y"
  by (cases x; cases y) auto

text \<open>Sums whose exact bounds need rounding themselves, and products of either sign.\<close>

lemma f64_round_in_rnd:
  assumes "a \<le> r" "r \<le> b" "- (2 ^ 1024) < rnd a" "rnd b < 2 ^ 1024"
  shows "f64_in (rnd a) (rnd b) (f64_round s r)"
proof -
  have "rnd a \<le> rnd r" "rnd r \<le> rnd b" using assms(1,2) rnd_mono by auto
  with assms(3,4) have "\<bar>rnd r\<bar> < 2 ^ 1024" by linarith
  with \<open>rnd a \<le> rnd r\<close> \<open>rnd r \<le> rnd b\<close> show ?thesis by (simp add: f64_round_def Let_def)
qed

lemma f64_in_add_rnd:
  assumes "f64_in a b x" "f64_in c d y" "- (2 ^ 1024) < rnd (a + c)" "rnd (b + d) < 2 ^ 1024"
  shows "f64_in (rnd (a + c)) (rnd (b + d)) (f64_add x y)"
  using assms by (cases x; cases y) (auto intro!: f64_round_in_rnd)

lemma f64_in_mul_sym:
  assumes "f64_in (- a) a x" "f64_in (- b) b y" "rep64 (a * b)"
  shows "f64_in (- (a * b)) (a * b) (f64_mul x y)"
proof -
  obtain s r t q where x: "x = Fin s r" "- a \<le> r" "r \<le> a" and y: "y = Fin t q" "- b \<le> q" "q \<le> b"
    using assms(1,2) by (cases x; cases y) auto
  have "\<bar>r * q\<bar> \<le> a * b" unfolding abs_mult using x y by (intro mult_mono) auto
  then have "- (a * b) \<le> r * q" "r * q \<le> a * b" by linarith+
  then show ?thesis using x(1) y(1) assms(3) by (simp add: f64_round_in)
qed

text \<open>A part of a sum of parts that are not negative is a share between 0 and 1.\<close>

lemma f64_in_share:
  assumes "f64_in 0 b x" "f64_le x y" "f64_lt (Fin False 0) y" "f64_in 0 c y"
  shows "f64_in 0 1 (f64_div x y)"
  using assms by (cases x; cases y) (auto intro!: f64_round_in simp: divide_le_eq_1)

lemma f64_le_add:
  assumes "f64_in 0 b x" "f64_in 0 d y" "f64_ok x" "rep64 b'" "b + d \<le> b'"
  shows "f64_le x (f64_add x y)" "f64_in 0 b' (f64_add x y)"
proof -
  obtain s r t q where x: "x = Fin s r" "0 \<le> r" "r \<le> b" and y: "y = Fin t q" "0 \<le> q" "q \<le> d"
    using assms(1,2) by (cases x; cases y) auto
  have r: "rep64 r" using assms(3) x(1) by simp
  then have "f64_in r b' (f64_round (s \<and> t) (r + q))" using x y assms(4,5) by (intro f64_round_in) auto
  then show "f64_le x (f64_add x y)" "f64_in 0 b' (f64_add x y)"
    using x y by (cases "f64_round (s \<and> t) (r + q)"; auto)+
qed

lemma f64_add_commute: "f64_add x y = f64_add y x"
  by (cases x; cases y) (auto simp: add.commute conj_commute)

lemma f64_le_trans: "f64_le x y \<Longrightarrow> f64_le y z \<Longrightarrow> f64_le x z"
  by (cases x; cases y; cases z) auto

text \<open>Amounts: not negative, not a negative zero, possibly infinite. Sums and products of amounts are
  amounts, and adding one never lowers a sum.\<close>

fun amount :: "f64 \<Rightarrow> bool" where
  "amount (Fin s r) = (\<not> s \<and> 0 \<le> r \<and> rep64 r)"
| "amount (Inf s) = (\<not> s)"
| "amount NaN = False"

fun f64_finite :: "f64 \<Rightarrow> bool" where
  "f64_finite (Fin s r) = True"
| "f64_finite _ = False"

lemma rep64_rnd: "\<bar>rnd r\<bar> < 2 ^ 1024 \<Longrightarrow> rep64 (rnd r)"
  by (simp add: rep64_def)

lemma amount_round: "0 \<le> r \<Longrightarrow> amount (f64_round False r)"
  using rnd_nonneg[of r] by (auto simp: f64_round_def Let_def intro: rep64_rnd)

lemma amount_lit [simp]: "0 \<le> r \<Longrightarrow> amount (f64_lit r)"
  by (simp add: f64_lit_def amount_round)

lemma amount_of_int [simp]: "0 \<le> n \<Longrightarrow> amount (f64_of_int n)"
  by (simp add: f64_of_int_def amount_round)

lemma amount_add [simp]: "amount x \<Longrightarrow> amount y \<Longrightarrow> amount (f64_add x y)"
  by (cases x; cases y) (auto simp: amount_round)

lemma amount_mul [simp]: "amount x \<Longrightarrow> amount y \<Longrightarrow> f64_finite x \<Longrightarrow> f64_finite y \<Longrightarrow> amount (f64_mul x y)"
  by (cases x; cases y) (auto simp: amount_round)

lemma amount_div [simp]: "amount x \<Longrightarrow> amount y \<Longrightarrow> f64_gt y (Fin False 0) \<Longrightarrow> f64_finite y \<Longrightarrow> amount (f64_div x y)"
  by (cases x; cases y) (auto simp: amount_round)

lemma rep64_round: "rep64 r \<Longrightarrow> r \<noteq> 0 \<Longrightarrow> f64_round s r = Fin (r < 0) r"
  by (auto simp: f64_round_def rep64_def)

lemma f64_round_0: "f64_round s 0 = Fin s 0"
  by (simp add: f64_round_def)

lemma amount_add_zero [simp]:
  shows "\<And>x. amount x \<Longrightarrow> f64_add x (Fin False 0) = x" "\<And>x. amount x \<Longrightarrow> f64_add (Fin False 0) x = x"
proof -
  show "f64_add x (Fin False 0) = x" if "amount x" for x
  proof (cases x)
    case (Fin s r)
    then show ?thesis using that by (cases "r = 0") (auto simp: rep64_round f64_round_0)
  qed (use that in auto)
  then show "f64_add (Fin False 0) x = x" if "amount x" for x
    using that by (simp add: f64_add_commute)
qed

lemma amount_cases: "amount x \<Longrightarrow> x = Fin False 0 \<or> f64_gt x (Fin False 0)"
  by (cases x) auto

lemma amount_le_add: "amount x \<Longrightarrow> amount y \<Longrightarrow> f64_le x (f64_add x y)"
proof (cases x; cases y)
  fix s r t q assume a: "amount x" "amount y" "x = Fin s r" "y = Fin t q"
  then have "rnd r \<le> rnd (r + q)" by (intro rnd_mono) auto
  moreover have "rnd r = r" using a by (auto simp: rep64_def)
  ultimately have "r \<le> rnd (r + q)" by simp
  with a show ?thesis by (auto simp: f64_round_def Let_def)
qed auto

lemma amount_le_trans: "amount x \<Longrightarrow> f64_le x y \<Longrightarrow> amount z \<Longrightarrow> f64_le y z \<Longrightarrow> f64_le x z"
  by (rule f64_le_trans)

lemma f64_lit_0: "f64_lit 0 = Fin False 0"
  by (simp add: f64_lit_def f64_round_0)

lemma f64_lit_numeral: "(numeral n :: int) \<le> 2 ^ 53 \<Longrightarrow> f64_lit (numeral n) = Fin False (numeral n)"
  by (simp add: f64_lit_def rep64_round)

end
