(* ===== verification/Go_Any.thy ===== *)
theory Go_Any
  imports Prelude Float64
begin

text \<open>
  Values of Go's type \<open>any\<close> as the components of the carrier connector use them: decoded JSON
  and the entries of \<open>map[string]any\<close> metadata. A type assertion \<open>v.(T)\<close> with two results is
  a function into an option; \<open>AnyOther t\<close> is a value of the named type \<open>t\<close>, which no such assertion
  matches. A metadata map may be nil: reading a nil map finds nothing,
  writing to one panics.
\<close>

datatype go_any =
    AnyNil
  | AnyString string
  | AnyInt int
  | AnyFloat f64
  | AnyBool bool
  | AnyTime time
  | AnyList "go_any list"
  | AnyOther string
  | AnyMap "(string \<times> go_any) list"

type_synonym metadata = "(string \<rightharpoonup> go_any) option"

definition meta_get :: "metadata \<Rightarrow> string \<Rightarrow> go_any option" where
  "meta_get md k = (case md of None \<Rightarrow> None | Some m \<Rightarrow> m k)"

definition meta_set :: "metadata \<Rightarrow> string \<Rightarrow> go_any \<Rightarrow> metadata go" where
  "meta_set md k v = (case md of None \<Rightarrow> Panics | Some m \<Rightarrow> Returns (Some (m(k \<mapsto> v))))"

text \<open>\<open>if md == nil { md = make(map[string]any) }\<close>\<close>

definition meta_make :: "metadata \<Rightarrow> metadata" where
  "meta_make md = (case md of None \<Rightarrow> Some Map.empty | Some m \<Rightarrow> Some m)"

fun any_string :: "go_any \<Rightarrow> string option" where
  "any_string (AnyString s) = Some s"
| "any_string _ = None"

definition meta_string :: "metadata \<Rightarrow> string \<Rightarrow> string option" where
  "meta_string md k = Option.bind (meta_get md k) any_string"

lemma meta_get_nil [simp]: "meta_get None k = None"
  by (simp add: meta_get_def)

lemma meta_set_make: "\<exists>m. meta_set (meta_make md) k v = Returns (Some m) \<and> m k = Some v"
  by (cases md) (auto simp: meta_set_def meta_make_def)

lemma meta_get_set: "meta_set md k v = Returns md' \<Longrightarrow> meta_get md' j = (if j = k then Some v else meta_get md j)"
  by (cases md) (auto simp: meta_set_def meta_get_def)

end
