(* ===== verification/Billing.thy ===== *)
theory Billing
  imports Go_Any Gorm "HOL-Library.Sublist"
begin

text \<open>
  Currencies, exchange rates and billing in several currencies
  (\<open>apps/carrier-connector/internal\<close>: \<open>currency/types.go\<close>, \<open>currency/models.go\<close>,
  \<open>repository/repository_core.go\<close>, \<open>repository_helpers.go\<close>, \<open>repository_rates.go\<close>,
  \<open>repository_transactions.go\<close>, \<open>services/exchange_rate_service.go\<close>, \<open>services/billing_core.go\<close>).
  The rows are tables of \<open>Gorm\<close>, JSON and the external rate providers are parameters, amounts
  and rates are binary64. The order of a listing is SQL text, an argument of the query.
\<close>

section \<open>Rows\<close>

record Currency =
  cy_Code :: string
  cy_Name :: string
  cy_Symbol :: string
  cy_DecimalPlaces :: int
  cy_IsActive :: bool
  cy_SupportedRegions :: "string list"
  cy_CreatedAt :: time
  cy_UpdatedAt :: time

record CurrencyModel =
  cm_Code :: string
  cm_Name :: string
  cm_Symbol :: string
  cm_DecimalPlaces :: int
  cm_IsActive :: bool
  cm_SupportedRegions :: string
  cm_CreatedAt :: time
  cm_UpdatedAt :: time

text \<open>The domain type and the row of an exchange rate have the same fields.\<close>

record ExchangeRate =
  er_ID :: string
  er_FromCurrency :: string
  er_ToCurrency :: string
  er_Rate :: f64
  er_Source :: string
  er_ValidFrom :: time
  er_ValidTo :: "time option"
  er_IsActive :: bool
  er_CreatedAt :: time
  er_UpdatedAt :: time

type_synonym TransactionType = string
type_synonym TransactionStatus = string

abbreviation TransactionTypeSubscription :: TransactionType where "TransactionTypeSubscription \<equiv> ''subscription''"
abbreviation TransactionStatusPending :: TransactionStatus where "TransactionStatusPending \<equiv> ''pending''"
abbreviation TransactionStatusCompleted :: TransactionStatus where "TransactionStatusCompleted \<equiv> ''completed''"

record Transaction =
  tn_ID :: string
  tn_ProfileID :: string
  tn_SubscriptionID :: string
  tn_Type :: TransactionType
  tn_Amount :: f64
  tn_Currency :: string
  tn_BaseAmount :: f64
  tn_BaseCurrency :: string
  tn_ExchangeRate :: f64
  tn_Description :: string
  tn_Status :: TransactionStatus
  tn_Metadata :: metadata
  tn_CreatedAt :: time
  tn_UpdatedAt :: time

record TransactionModel =
  tm_ID :: string
  tm_ProfileID :: string
  tm_SubscriptionID :: string
  tm_Type :: string
  tm_Amount :: f64
  tm_Currency :: string
  tm_BaseAmount :: f64
  tm_BaseCurrency :: string
  tm_ExchangeRate :: f64
  tm_Description :: string
  tm_Status :: string
  tm_Metadata :: string
  tm_CreatedAt :: time
  tm_UpdatedAt :: time

fun join :: "string \<Rightarrow> string list \<Rightarrow> string" where
  "join sep [] = ''''"
| "join sep [x] = x"
| "join sep (x # y # ys) = x @ sep @ join sep (y # ys)"

definition currencyToModel :: "Currency \<Rightarrow> CurrencyModel" where
  "currencyToModel c = \<lparr>cm_Code = cy_Code c, cm_Name = cy_Name c, cm_Symbol = cy_Symbol c, cm_DecimalPlaces = cy_DecimalPlaces c,
     cm_IsActive = cy_IsActive c, cm_SupportedRegions = join '','' (cy_SupportedRegions c),
     cm_CreatedAt = cy_CreatedAt c, cm_UpdatedAt = cy_UpdatedAt c\<rparr>"

definition modelToCurrency :: "CurrencyModel \<Rightarrow> Currency" where
  "modelToCurrency m = \<lparr>cy_Code = cm_Code m, cy_Name = cm_Name m, cy_Symbol = cm_Symbol m, cy_DecimalPlaces = cm_DecimalPlaces m,
     cy_IsActive = cm_IsActive m,
     cy_SupportedRegions = (if cm_SupportedRegions m \<noteq> '''' then split_on CHR '','' (cm_SupportedRegions m) else []),
     cy_CreatedAt = cm_CreatedAt m, cy_UpdatedAt = cm_UpdatedAt m\<rparr>"

text \<open>The hooks of the three models, with the time they read.\<close>

definition CurrencyModel_BeforeCreate :: "time \<Rightarrow> CurrencyModel \<Rightarrow> CurrencyModel" where
  "CurrencyModel_BeforeCreate now c = c\<lparr>cm_CreatedAt := (if cm_CreatedAt c = zero_time then now else cm_CreatedAt c), cm_UpdatedAt := now\<rparr>"

definition CurrencyModel_BeforeUpdate :: "time \<Rightarrow> CurrencyModel \<Rightarrow> CurrencyModel" where
  "CurrencyModel_BeforeUpdate now c = c\<lparr>cm_UpdatedAt := now\<rparr>"

definition ExchangeRateModel_BeforeCreate :: "time \<Rightarrow> ExchangeRate \<Rightarrow> ExchangeRate" where
  "ExchangeRateModel_BeforeCreate now e = e\<lparr>er_CreatedAt := (if er_CreatedAt e = zero_time then now else er_CreatedAt e), er_UpdatedAt := now\<rparr>"

definition ExchangeRateModel_BeforeUpdate :: "time \<Rightarrow> ExchangeRate \<Rightarrow> ExchangeRate" where
  "ExchangeRateModel_BeforeUpdate now e = e\<lparr>er_UpdatedAt := now\<rparr>"

definition TransactionModel_BeforeCreate :: "time \<Rightarrow> TransactionModel \<Rightarrow> TransactionModel" where
  "TransactionModel_BeforeCreate now t = t\<lparr>tm_CreatedAt := (if tm_CreatedAt t = zero_time then now else tm_CreatedAt t), tm_UpdatedAt := now\<rparr>"

definition TransactionModel_BeforeUpdate :: "time \<Rightarrow> TransactionModel \<Rightarrow> TransactionModel" where
  "TransactionModel_BeforeUpdate now t = t\<lparr>tm_UpdatedAt := now\<rparr>"

text \<open>JSON objects; metadata that cannot be encoded is stored as the empty text.\<close>

record json =
  json_encode :: "(string \<rightharpoonup> go_any) \<Rightarrow> string option"
  json_decode :: "string \<Rightarrow> metadata option"

definition transactionToModel :: "json \<Rightarrow> Transaction \<Rightarrow> TransactionModel" where
  "transactionToModel j t = \<lparr>tm_ID = tn_ID t, tm_ProfileID = tn_ProfileID t, tm_SubscriptionID = tn_SubscriptionID t, tm_Type = tn_Type t,
     tm_Amount = tn_Amount t, tm_Currency = tn_Currency t, tm_BaseAmount = tn_BaseAmount t, tm_BaseCurrency = tn_BaseCurrency t,
     tm_ExchangeRate = tn_ExchangeRate t, tm_Description = tn_Description t, tm_Status = tn_Status t,
     tm_Metadata = (case tn_Metadata t of None \<Rightarrow> '''' | Some m \<Rightarrow> (case json_encode j m of None \<Rightarrow> '''' | Some d \<Rightarrow> d)),
     tm_CreatedAt = tn_CreatedAt t, tm_UpdatedAt = tn_UpdatedAt t\<rparr>"

definition modelToTransaction :: "json \<Rightarrow> TransactionModel \<Rightarrow> Transaction option" where
  "modelToTransaction j m = map_option (\<lambda>md. \<lparr>tn_ID = tm_ID m, tn_ProfileID = tm_ProfileID m, tn_SubscriptionID = tm_SubscriptionID m,
     tn_Type = tm_Type m, tn_Amount = tm_Amount m, tn_Currency = tm_Currency m, tn_BaseAmount = tm_BaseAmount m,
     tn_BaseCurrency = tm_BaseCurrency m, tn_ExchangeRate = tm_ExchangeRate m, tn_Description = tm_Description m, tn_Status = tm_Status m,
     tn_Metadata = md, tn_CreatedAt = tm_CreatedAt m, tn_UpdatedAt = tm_UpdatedAt m\<rparr>)
     (if tm_Metadata m \<noteq> '''' then json_decode j (tm_Metadata m) else Some None)"

section \<open>Repository\<close>

record 's currency_db =
  cdb_currencies :: "(CurrencyModel, 's) table"
  cdb_rates :: "(ExchangeRate, 's) table"
  cdb_transactions :: "(TransactionModel, 's) table"
  cdb_json :: json

datatype currency_error =
    CurrencyNotFound string | RateNotFound string string | TransactionNotFound string | BadMetadata
  | StorageError string

definition found :: "currency_error \<Rightarrow> string + 'row option \<Rightarrow> currency_error + 'row" where
  "found missing res = (case res of Inl e \<Rightarrow> Inl (StorageError e) | Inr None \<Rightarrow> Inl missing | Inr (Some r) \<Rightarrow> Inr r)"

fun stored :: "string option \<times> 's \<Rightarrow> currency_error option \<times> 's" where
  "stored (e, s) = (map_option StorageError e, s)"

fun removed :: "(string + int) \<times> 's \<Rightarrow> currency_error option \<times> 's" where
  "removed (Inl e, s) = (Some (StorageError e), s)"
| "removed (Inr n, s) = (None, s)"

definition CreateCurrency :: "'s currency_db \<Rightarrow> time \<Rightarrow> Currency \<Rightarrow> 's \<Rightarrow> currency_error option \<times> 's" where
  "CreateCurrency db now c s = stored (tb_create (cdb_currencies db) (CurrencyModel_BeforeCreate now (currencyToModel c)) s)"

definition GetCurrency :: "'s currency_db \<Rightarrow> string \<Rightarrow> 's \<Rightarrow> currency_error + Currency" where
  "GetCurrency db code s =
     map_sum id modelToCurrency (found (CurrencyNotFound code) (tb_first (cdb_currencies db) (\<lambda>m. cm_Code m = code) (\<lambda>_. 0) s))"

definition UpdateCurrency :: "'s currency_db \<Rightarrow> time \<Rightarrow> Currency \<Rightarrow> 's \<Rightarrow> currency_error option \<times> 's" where
  "UpdateCurrency db now c s = stored (tb_save (cdb_currencies db) (CurrencyModel_BeforeUpdate now (currencyToModel c)) s)"

definition DeleteCurrency :: "'s currency_db \<Rightarrow> string \<Rightarrow> 's \<Rightarrow> currency_error option \<times> 's" where
  "DeleteCurrency db code s = removed (tb_delete (cdb_currencies db) (\<lambda>m. cm_Code m = code) s)"

text \<open>\<open>LIKE\<close> with the region between two wildcards; the wildcards inside a region are not modelled, and the order
  of the listing is an argument.\<close>

record CurrencyFilter =
  kf_IsActive :: "bool option"
  kf_Region :: string
  kf_Limit :: int
  kf_Offset :: int
  kf_order :: "CurrencyModel \<Rightarrow> int"

definition currency_matches :: "CurrencyFilter \<Rightarrow> CurrencyModel \<Rightarrow> bool" where
  "currency_matches f m \<longleftrightarrow> (case kf_IsActive f of None \<Rightarrow> True | Some b \<Rightarrow> cm_IsActive m = b)
     \<and> (kf_Region f = '''' \<or> sublist (kf_Region f) (cm_SupportedRegions m))"

definition at_most :: "int \<Rightarrow> int option" where
  "at_most n = (if 0 < n then Some n else None)"

definition ListCurrencies :: "'s currency_db \<Rightarrow> CurrencyFilter \<Rightarrow> 's \<Rightarrow> currency_error + Currency list" where
  "ListCurrencies db f s = map_sum StorageError (map modelToCurrency)
     (tb_find (cdb_currencies db) (currency_matches f) (kf_order f) (at_most (kf_Limit f)) (at_most (kf_Offset f)) s)"

definition CountCurrencies :: "'s currency_db \<Rightarrow> CurrencyFilter \<Rightarrow> 's \<Rightarrow> currency_error + int" where
  "CountCurrencies db f s = map_sum StorageError id (tb_count (cdb_currencies db) (currency_matches f) s)"

definition store_CreateExchangeRate :: "'s currency_db \<Rightarrow> time \<Rightarrow> ExchangeRate \<Rightarrow> 's \<Rightarrow> currency_error option \<times> 's" where
  "store_CreateExchangeRate db now r s = stored (tb_create (cdb_rates db) (ExchangeRateModel_BeforeCreate now r) s)"

definition store_GetExchangeRate :: "'s currency_db \<Rightarrow> string \<Rightarrow> string \<Rightarrow> 's \<Rightarrow> currency_error + ExchangeRate" where
  "store_GetExchangeRate db a b s =
     found (RateNotFound a b) (tb_first (cdb_rates db) (\<lambda>r. er_FromCurrency r = a \<and> er_ToCurrency r = b) (\<lambda>_. 0) s)"

definition store_UpdateExchangeRate :: "'s currency_db \<Rightarrow> time \<Rightarrow> ExchangeRate \<Rightarrow> 's \<Rightarrow> currency_error option \<times> 's" where
  "store_UpdateExchangeRate db now r s = stored (tb_save (cdb_rates db) (ExchangeRateModel_BeforeUpdate now r) s)"

definition DeleteExchangeRate :: "'s currency_db \<Rightarrow> string \<Rightarrow> 's \<Rightarrow> currency_error option \<times> 's" where
  "DeleteExchangeRate db i s = removed (tb_delete (cdb_rates db) (\<lambda>r. er_ID r = i) s)"

definition valid_at :: "time \<Rightarrow> ExchangeRate \<Rightarrow> bool" where
  "valid_at now r \<longleftrightarrow> er_ValidFrom r \<le> now \<and> (case er_ValidTo r of None \<Rightarrow> True | Some t \<Rightarrow> now \<le> t)"

definition GetLatestExchangeRate :: "'s currency_db \<Rightarrow> time \<Rightarrow> string \<Rightarrow> string \<Rightarrow> 's \<Rightarrow> currency_error + ExchangeRate" where
  "GetLatestExchangeRate db now a b s =
     found (RateNotFound a b) (tb_first (cdb_rates db)
       (\<lambda>r. (er_FromCurrency r = a \<and> er_ToCurrency r = b \<and> er_IsActive r) \<and> valid_at now r) er_ValidFrom s)"

record ExchangeRateFilter =
  ef_FromCurrency :: string
  ef_ToCurrency :: string
  ef_Source :: string
  ef_IsValid :: "bool option"
  ef_Limit :: int
  ef_Offset :: int
  ef_order :: "ExchangeRate \<Rightarrow> int"

text \<open>A comparison of SQL with NULL is not true.\<close>

definition rate_matches :: "time \<Rightarrow> ExchangeRateFilter \<Rightarrow> ExchangeRate \<Rightarrow> bool" where
  "rate_matches now f r \<longleftrightarrow> (ef_FromCurrency f = '''' \<or> er_FromCurrency r = ef_FromCurrency f)
     \<and> (ef_ToCurrency f = '''' \<or> er_ToCurrency r = ef_ToCurrency f)
     \<and> (ef_Source f = '''' \<or> er_Source r = ef_Source f)
     \<and> (case ef_IsValid f of None \<Rightarrow> True
        | Some True \<Rightarrow> valid_at now r
        | Some False \<Rightarrow> (case er_ValidTo r of None \<Rightarrow> False | Some t \<Rightarrow> t < now))"

definition ListExchangeRates :: "'s currency_db \<Rightarrow> time \<Rightarrow> ExchangeRateFilter \<Rightarrow> 's \<Rightarrow> currency_error + ExchangeRate list" where
  "ListExchangeRates db now f s =
     map_sum StorageError id (tb_find (cdb_rates db) (rate_matches now f) (ef_order f) (at_most (ef_Limit f)) (at_most (ef_Offset f)) s)"

definition CreateTransaction :: "'s currency_db \<Rightarrow> time \<Rightarrow> Transaction \<Rightarrow> 's \<Rightarrow> currency_error option \<times> 's" where
  "CreateTransaction db now t s = stored (tb_create (cdb_transactions db) (TransactionModel_BeforeCreate now (transactionToModel (cdb_json db) t)) s)"

definition as_transaction :: "json \<Rightarrow> TransactionModel \<Rightarrow> currency_error + Transaction" where
  "as_transaction j m = (case modelToTransaction j m of None \<Rightarrow> Inl BadMetadata | Some t \<Rightarrow> Inr t)"

definition GetTransaction :: "'s currency_db \<Rightarrow> string \<Rightarrow> 's \<Rightarrow> currency_error + Transaction" where
  "GetTransaction db i s =
     (case found (TransactionNotFound i) (tb_first (cdb_transactions db) (\<lambda>m. tm_ID m = i) (\<lambda>_. 0) s) of
        Inl e \<Rightarrow> Inl e | Inr m \<Rightarrow> as_transaction (cdb_json db) m)"

definition UpdateTransaction :: "'s currency_db \<Rightarrow> time \<Rightarrow> Transaction \<Rightarrow> 's \<Rightarrow> currency_error option \<times> 's" where
  "UpdateTransaction db now t s = stored (tb_save (cdb_transactions db) (TransactionModel_BeforeUpdate now (transactionToModel (cdb_json db) t)) s)"

definition DeleteTransaction :: "'s currency_db \<Rightarrow> string \<Rightarrow> 's \<Rightarrow> currency_error option \<times> 's" where
  "DeleteTransaction db i s = removed (tb_delete (cdb_transactions db) (\<lambda>m. tm_ID m = i) s)"

record TransactionFilter =
  nf_ProfileID :: string
  nf_SubscriptionID :: string
  nf_Type :: TransactionType
  nf_Status :: TransactionStatus
  nf_Currency :: string
  nf_FromDate :: "time option"
  nf_ToDate :: "time option"
  nf_MinAmount :: f64
  nf_MaxAmount :: f64
  nf_Limit :: int
  nf_Offset :: int
  nf_order :: "TransactionModel \<Rightarrow> int"

definition transaction_matches :: "TransactionFilter \<Rightarrow> TransactionModel \<Rightarrow> bool" where
  "transaction_matches f m \<longleftrightarrow> (nf_ProfileID f = '''' \<or> tm_ProfileID m = nf_ProfileID f)
     \<and> (nf_SubscriptionID f = '''' \<or> tm_SubscriptionID m = nf_SubscriptionID f)
     \<and> (nf_Type f = '''' \<or> tm_Type m = nf_Type f) \<and> (nf_Status f = '''' \<or> tm_Status m = nf_Status f)
     \<and> (nf_Currency f = '''' \<or> tm_Currency m = nf_Currency f)
     \<and> pred_option (\<lambda>t. t \<le> tm_CreatedAt m) (nf_FromDate f) \<and> pred_option (\<lambda>t. tm_CreatedAt m \<le> t) (nf_ToDate f)
     \<and> (f64_gt (nf_MinAmount f) (f64_lit 0) \<longrightarrow> f64_le (nf_MinAmount f) (tm_Amount m))
     \<and> (f64_gt (nf_MaxAmount f) (f64_lit 0) \<longrightarrow> f64_le (tm_Amount m) (nf_MaxAmount f))"

text \<open>Rows whose metadata cannot be read are left out of a listing.\<close>

definition ListTransactions :: "'s currency_db \<Rightarrow> TransactionFilter \<Rightarrow> 's \<Rightarrow> currency_error + Transaction list" where
  "ListTransactions db f s =
     map_sum StorageError (List.map_filter (modelToTransaction (cdb_json db)))
       (tb_find (cdb_transactions db) (transaction_matches f) (nf_order f) (at_most (nf_Limit f)) (at_most (nf_Offset f)) s)"

definition CountTransactions :: "'s currency_db \<Rightarrow> TransactionFilter \<Rightarrow> 's \<Rightarrow> currency_error + int" where
  "CountTransactions db f s = map_sum StorageError id (tb_count (cdb_transactions db) (transaction_matches f) s)"

section \<open>The tables of the billing\<close>

definition currency_db_ok ::
  "'s currency_db \<Rightarrow> ('s \<Rightarrow> CurrencyModel multiset) \<Rightarrow> ('s \<Rightarrow> ExchangeRate multiset) \<Rightarrow> ('s \<Rightarrow> TransactionModel multiset) \<Rightarrow> bool" where
  "currency_db_ok db currencies rates txs \<longleftrightarrow>
     table_ok (cdb_currencies db) currencies (\<lambda>n r. n) \<and> save_ok (cdb_currencies db) currencies cm_Code
   \<and> table_ok (cdb_rates db) rates (\<lambda>n r. n) \<and> save_ok (cdb_rates db) rates er_ID \<and> find_ok (cdb_rates db) rates
   \<and> table_ok (cdb_transactions db) txs (\<lambda>n r. n) \<and> save_ok (cdb_transactions db) txs tm_ID
   \<and> table_frame (cdb_rates db) currencies \<and> table_frame (cdb_rates db) txs
   \<and> table_frame (cdb_transactions db) currencies \<and> table_frame (cdb_transactions db) rates"

lemma found_cases:
  "table_ok t rows m \<Longrightarrow> found e (tb_first t P k s) = Inr r \<Longrightarrow> r \<in># rows s \<and> P r"
  "table_ok t rows m \<Longrightarrow> found (RateNotFound a b) (tb_first t P k s) = Inl (RateNotFound a b) \<Longrightarrow> \<forall>x \<in># rows s. \<not> P x"
  by (auto simp: found_def split: sum.splits option.splits dest: table_first table_first_none)

lemma stored_create: "table_ok t rows m \<Longrightarrow> stored (tb_create t r s) = (e, s') \<Longrightarrow>
  rows s' = (if e = None then add_mset r (rows s) else rows s)"
  by (cases "tb_create t r s") (auto dest: table_create)

lemma stored_save: "save_ok t rows key \<Longrightarrow> stored (tb_save t r s) = (e, s') \<Longrightarrow>
  rows s' = (if e = None then add_mset r (filter_mset (\<lambda>x. key x \<noteq> key r) (rows s)) else rows s)"
  by (cases "tb_save t r s") (auto dest: table_save)

lemma stored_frame: "table_frame t rows \<Longrightarrow> rows (snd (stored (tb_create t r s))) = rows s"
  "table_frame t rows \<Longrightarrow> rows (snd (stored (tb_save t r s))) = rows s"
  by (cases "tb_create t r s", simp add: frame_create, cases "tb_save t r s", simp add: frame_save)

text \<open>Regions survive the round trip through a row if they contain no comma and are not the one
  empty region.\<close>

lemma split_join: "xs \<noteq> [] \<Longrightarrow> \<forall>x \<in> set xs. CHR '','' \<notin> set x \<Longrightarrow> split_on CHR '','' (join '','' xs) = xs"
  by (induction "'',''" xs rule: join.induct) auto

lemma join_empty: "join '','' xs = '''' \<longleftrightarrow> xs = [] \<or> xs = ['''']"
  by (induction "'',''" xs rule: join.induct) auto

lemma currency_roundtrip:
  assumes "\<forall>x \<in> set (cy_SupportedRegions c). CHR '','' \<notin> set x" "cy_SupportedRegions c \<noteq> ['''']"
  shows "modelToCurrency (currencyToModel c) = c"
  using assms split_join[of "cy_SupportedRegions c"]
  by (cases "cy_SupportedRegions c = []") (simp_all add: modelToCurrency_def currencyToModel_def join_empty)

record billing_memory =
  bm_currencies :: "CurrencyModel list"
  bm_rates :: "ExchangeRate list"
  bm_transactions :: "TransactionModel list"

definition memory_billing :: "billing_memory currency_db" where
  "memory_billing = \<lparr>cdb_currencies = list_table bm_currencies (\<lambda>xs s. s\<lparr>bm_currencies := xs\<rparr>) cm_Code (\<lambda>n r. n),
     cdb_rates = list_table bm_rates (\<lambda>xs s. s\<lparr>bm_rates := xs\<rparr>) er_ID (\<lambda>n r. n),
     cdb_transactions = list_table bm_transactions (\<lambda>xs s. s\<lparr>bm_transactions := xs\<rparr>) tm_ID (\<lambda>n r. n),
     cdb_json = \<lparr>json_encode = (\<lambda>_. None), json_decode = (\<lambda>_. None)\<rparr>\<rparr>"

lemma memory_billing_ok:
  "currency_db_ok memory_billing (\<lambda>s. mset (bm_currencies s)) (\<lambda>s. mset (bm_rates s)) (\<lambda>s. mset (bm_transactions s))"
  unfolding currency_db_ok_def memory_billing_def
  by (simp add: list_table_ok list_table_save list_table_find table_frame_def) (simp add: list_table_def)

end
