(* ===== verification/Billing_Service.thy ===== *)
theory Billing_Service
  imports Billing
begin

text \<open>
  The exchange rate service and the billing service
  (\<open>apps/carrier-connector/internal/services/exchange_rate_service.go\<close>, \<open>billing_core.go\<close>) over
  the repository of \<open>Billing\<close>. A provider of rates is a function from a pair of currencies;
  \<open>now i\<close> is the i-th reading of the clock in a call.
\<close>

section \<open>Exchange rates\<close>

type_synonym provider = "string \<Rightarrow> string \<Rightarrow> string + f64"

datatype exchange_error =
    NoRate string string | FailedToGetRate exchange_error | RateNotPositive | SameCurrency | Failed currency_error
  | UnsupportedFrom string | UnsupportedTo string | NoRateAvailable string string

record CurrencyConversionResponse =
  cv_OriginalAmount :: f64
  cv_OriginalCurrency :: string
  cv_ConvertedAmount :: f64
  cv_ConvertedCurrency :: string
  cv_ExchangeRate :: f64
  cv_ConvertedAt :: time

definition unix :: "time \<Rightarrow> int" where
  "unix t = t div 1000000000"

definition rate_id :: "string \<Rightarrow> string \<Rightarrow> time \<Rightarrow> string" where
  "rate_id a b now = a @ ''_'' @ b @ ''_'' @ show_int (unix now)"

definition direct_rate :: "time \<Rightarrow> string \<Rightarrow> string \<Rightarrow> ExchangeRate" where
  "direct_rate now a b = \<lparr>er_ID = '''', er_FromCurrency = a, er_ToCurrency = b, er_Rate = f64_lit 1, er_Source = ''direct'',
     er_ValidFrom = now, er_ValidTo = None, er_IsActive = True, er_CreatedAt = zero_time, er_UpdatedAt = zero_time\<rparr>"

definition provider_rate :: "time \<Rightarrow> time \<Rightarrow> string \<Rightarrow> string \<Rightarrow> f64 \<Rightarrow> ExchangeRate" where
  "provider_rate now1 now2 a b rate = \<lparr>er_ID = rate_id a b now1, er_FromCurrency = a, er_ToCurrency = b, er_Rate = rate,
     er_Source = ''provider'', er_ValidFrom = now2, er_ValidTo = None, er_IsActive = True, er_CreatedAt = zero_time, er_UpdatedAt = zero_time\<rparr>"

fun first_quote :: "provider list \<Rightarrow> string \<Rightarrow> string \<Rightarrow> f64 option" where
  "first_quote [] a b = None"
| "first_quote (p # ps) a b = (case p a b of Inr rate \<Rightarrow> Some rate | Inl _ \<Rightarrow> first_quote ps a b)"

text \<open>Any failure of the lookup, also one of the database, falls back on the providers; the failure to
  save their answer is only logged.\<close>

definition GetExchangeRate ::
  "'s currency_db \<Rightarrow> provider list \<Rightarrow> (nat \<Rightarrow> time) \<Rightarrow> string \<Rightarrow> string \<Rightarrow> 's \<Rightarrow> (exchange_error + ExchangeRate) \<times> 's" where
  "GetExchangeRate db ps now a b s =
     (if a = b then (Inr (direct_rate (now 0) a b), s)
      else (case GetLatestExchangeRate db (now 0) a b s of
          Inr rate \<Rightarrow> (Inr rate, s)
        | Inl _ \<Rightarrow>
            (case first_quote ps a b of
               Some rate \<Rightarrow>
                 let newRate = provider_rate (now 1) (now 2) a b rate
                 in (Inr newRate, snd (store_CreateExchangeRate db (now 3) newRate s))
             | None \<Rightarrow> (Inl (NoRate a b), s))))"

definition ConvertAmount ::
  "'s currency_db \<Rightarrow> provider list \<Rightarrow> (nat \<Rightarrow> time) \<Rightarrow> f64 \<Rightarrow> string \<Rightarrow> string \<Rightarrow> 's \<Rightarrow> (exchange_error + CurrencyConversionResponse) \<times> 's" where
  "ConvertAmount db ps now amt a b s =
     (case GetExchangeRate db ps now a b s of
        (Inl e, s') \<Rightarrow> (Inl (FailedToGetRate e), s')
      | (Inr rate, s') \<Rightarrow> (Inr \<lparr>cv_OriginalAmount = amt, cv_OriginalCurrency = a, cv_ConvertedAmount = f64_mul amt (er_Rate rate),
          cv_ConvertedCurrency = b, cv_ExchangeRate = er_Rate rate, cv_ConvertedAt = now 4\<rparr>, s'))"

definition history_filter :: "(ExchangeRate \<Rightarrow> int) \<Rightarrow> string \<Rightarrow> string \<Rightarrow> int \<Rightarrow> ExchangeRateFilter" where
  "history_filter order a b days = \<lparr>ef_FromCurrency = a, ef_ToCurrency = b, ef_Source = '''', ef_IsValid = Some False,
     ef_Limit = days, ef_Offset = 0, ef_order = order\<rparr>"

definition GetRateHistory :: "'s currency_db \<Rightarrow> time \<Rightarrow> string \<Rightarrow> string \<Rightarrow> int \<Rightarrow> 's \<Rightarrow> exchange_error + ExchangeRate list" where
  "GetRateHistory db now a b days s = map_sum Failed id (ListExchangeRates db now (history_filter er_ValidFrom a b days) s)"

definition valid_filter :: "(ExchangeRate \<Rightarrow> int) \<Rightarrow> string \<Rightarrow> string \<Rightarrow> ExchangeRateFilter" where
  "valid_filter order a b = \<lparr>ef_FromCurrency = a, ef_ToCurrency = b, ef_Source = '''', ef_IsValid = Some True,
     ef_Limit = 0, ef_Offset = 0, ef_order = order\<rparr>"

fun deactivate_all :: "'s currency_db \<Rightarrow> (nat \<Rightarrow> time) \<Rightarrow> ExchangeRate list \<Rightarrow> 's \<Rightarrow> 's" where
  "deactivate_all db now [] s = s"
| "deactivate_all db now (r # rs) s =
     deactivate_all db (\<lambda>i. now (Suc i)) rs (snd (store_UpdateExchangeRate db (now 0) (r\<lparr>er_IsActive := False\<rparr>) s))"

text \<open>The steps of an update after its two checks: the rates that are valid are deactivated one by
  one, and then the new one is created, under an identifier with a resolution of a second.\<close>

definition deactivate_valid :: "'s currency_db \<Rightarrow> (ExchangeRate \<Rightarrow> int) \<Rightarrow> (nat \<Rightarrow> time) \<Rightarrow> ExchangeRate \<Rightarrow> 's \<Rightarrow> 's" where
  "deactivate_valid db order now rate s =
     (case ListExchangeRates db (now 1) (valid_filter order (er_FromCurrency rate) (er_ToCurrency rate)) s of
        Inl _ \<Rightarrow> s
      | Inr oldRates \<Rightarrow> deactivate_all db (\<lambda>i. now (i + 4)) oldRates s)"

definition dated_rate :: "time \<Rightarrow> time \<Rightarrow> ExchangeRate \<Rightarrow> ExchangeRate" where
  "dated_rate now0 now2 rate =
     rate\<lparr>er_ValidFrom := now0, er_IsActive := True, er_ID := rate_id (er_FromCurrency rate) (er_ToCurrency rate) now2\<rparr>"

definition UpdateExchangeRate ::
  "'s currency_db \<Rightarrow> (ExchangeRate \<Rightarrow> int) \<Rightarrow> (nat \<Rightarrow> time) \<Rightarrow> ExchangeRate \<Rightarrow> 's \<Rightarrow> exchange_error option \<times> 's" where
  "UpdateExchangeRate db order now rate s =
     (if f64_le (er_Rate rate) (f64_lit 0) then (Some RateNotPositive, s)
      else if er_FromCurrency rate = er_ToCurrency rate then (Some SameCurrency, s)
      else
        let s1 = deactivate_valid db order now rate s
        in map_prod (map_option Failed) id (store_CreateExchangeRate db (now 3) (dated_rate (now 0) (now 2) rate) s1))"

text \<open>A refresh asks every provider and logs the failures.\<close>

definition RefreshRates :: "('s \<Rightarrow> string option \<times> 's) list \<Rightarrow> 's \<Rightarrow> exchange_error option \<times> 's" where
  "RefreshRates refreshers s = (None, fold (\<lambda>f s. snd (f s)) refreshers s)"

definition GetSupportedCurrencies :: "'s currency_db \<Rightarrow> (CurrencyModel \<Rightarrow> int) \<Rightarrow> 's \<Rightarrow> exchange_error + Currency list" where
  "GetSupportedCurrencies db by_code s = map_sum Failed id
     (ListCurrencies db \<lparr>kf_IsActive = Some True, kf_Region = '''', kf_Limit = 0, kf_Offset = 0, kf_order = by_code\<rparr> s)"

definition ValidateCurrencyPair ::
  "'s currency_db \<Rightarrow> provider list \<Rightarrow> (nat \<Rightarrow> time) \<Rightarrow> string \<Rightarrow> string \<Rightarrow> 's \<Rightarrow> exchange_error option \<times> 's" where
  "ValidateCurrencyPair db ps now a b s =
     (case GetCurrency db a s of
        Inl _ \<Rightarrow> (Some (UnsupportedFrom a), s)
      | Inr _ \<Rightarrow>
          (case GetCurrency db b s of
             Inl _ \<Rightarrow> (Some (UnsupportedTo b), s)
           | Inr _ \<Rightarrow>
               (case GetExchangeRate db ps now a b s of
                  (Inl _, s') \<Rightarrow> (Some (NoRateAvailable a b), s')
                | (Inr _, s') \<Rightarrow> (None, s'))))"

section \<open>Billing\<close>

record BillingRequest =
  br_ProfileID :: string
  br_SubscriptionID :: string
  br_Amount :: f64
  br_Currency :: string
  br_Description :: string
  br_BillingDate :: time

record BillingResponse =
  bs_TransactionID :: string
  bs_Amount :: f64
  bs_Currency :: string
  bs_BaseAmount :: f64
  bs_BaseCurrency :: string
  bs_ExchangeRate :: f64
  bs_Status :: string
  bs_ProcessedAt :: time

datatype billing_error =
    ProfileRequired | SubscriptionRequired | AmountNotPositive | CurrencyMissing | InvalidCurrency exchange_error
  | ConversionFailed exchange_error | CreateFailed currency_error | UpdateFailed currency_error | HistoryFailed currency_error

text \<open>The billing date the validation fills in is read by nobody.\<close>

definition validateBillingRequest ::
  "'s currency_db \<Rightarrow> provider list \<Rightarrow> string \<Rightarrow> (nat \<Rightarrow> time) \<Rightarrow> BillingRequest \<Rightarrow> 's \<Rightarrow> billing_error option \<times> 's" where
  "validateBillingRequest db ps baseCurrency now req s =
     (if br_ProfileID req = '''' then (Some ProfileRequired, s)
      else if br_SubscriptionID req = '''' then (Some SubscriptionRequired, s)
      else if f64_le (br_Amount req) (f64_lit 0) then (Some AmountNotPositive, s)
      else if br_Currency req = '''' then (Some CurrencyMissing, s)
      else map_prod (map_option InvalidCurrency) id (ValidateCurrencyPair db ps now (br_Currency req) baseCurrency s))"

definition base_amount ::
  "'s currency_db \<Rightarrow> provider list \<Rightarrow> string \<Rightarrow> (nat \<Rightarrow> time) \<Rightarrow> BillingRequest \<Rightarrow> 's \<Rightarrow> (exchange_error + f64 \<times> f64) \<times> 's" where
  "base_amount db ps baseCurrency now req s =
     (if br_Currency req \<noteq> baseCurrency then
        (case ConvertAmount db ps now (br_Amount req) (br_Currency req) baseCurrency s of
           (Inl e, s') \<Rightarrow> (Inl e, s')
         | (Inr c, s') \<Rightarrow> (Inr (cv_ConvertedAmount c, cv_ExchangeRate c), s'))
      else (Inr (br_Amount req, f64_lit 1), s))"

definition billing_transaction :: "string \<Rightarrow> string \<Rightarrow> time \<Rightarrow> time \<Rightarrow> BillingRequest \<Rightarrow> f64 \<Rightarrow> f64 \<Rightarrow> Transaction" where
  "billing_transaction uuid baseCurrency now1 now2 req baseAmount rate = \<lparr>tn_ID = uuid, tn_ProfileID = br_ProfileID req,
     tn_SubscriptionID = br_SubscriptionID req, tn_Type = TransactionTypeSubscription, tn_Amount = br_Amount req,
     tn_Currency = br_Currency req, tn_BaseAmount = baseAmount, tn_BaseCurrency = baseCurrency, tn_ExchangeRate = rate,
     tn_Description = br_Description req, tn_Status = TransactionStatusPending, tn_Metadata = None, tn_CreatedAt = now1, tn_UpdatedAt = now2\<rparr>"

text \<open>The clock is read by the validation (\<open>now 0\<close>), the conversion (\<open>now 1\<close>) and the rest.\<close>

definition ProcessBilling ::
  "'s currency_db \<Rightarrow> provider list \<Rightarrow> string \<Rightarrow> string \<Rightarrow> (nat \<Rightarrow> nat \<Rightarrow> time) \<Rightarrow> BillingRequest \<Rightarrow> 's
   \<Rightarrow> (billing_error + BillingResponse) \<times> 's" where
  "ProcessBilling db ps baseCurrency uuid now req s =
     (case validateBillingRequest db ps baseCurrency (now 0) req s of
        (Some e, s1) \<Rightarrow> (Inl e, s1)
      | (None, s1) \<Rightarrow>
          (case base_amount db ps baseCurrency (now 1) req s1 of
             (Inl e, s2) \<Rightarrow> (Inl (ConversionFailed e), s2)
           | (Inr (baseAmount, rate), s2) \<Rightarrow>
               let t = billing_transaction uuid baseCurrency (now 2 0) (now 2 1) req baseAmount rate in
               (case CreateTransaction db (now 2 2) t s2 of
                  (Some e, s3) \<Rightarrow> (Inl (CreateFailed e), s3)
                | (None, s3) \<Rightarrow>
                    let t' = t\<lparr>tn_Status := TransactionStatusCompleted\<rparr> in
                    (case UpdateTransaction db (now 2 3) t' s3 of
                       (Some e, s4) \<Rightarrow> (Inl (UpdateFailed e), s4)
                     | (None, s4) \<Rightarrow> (Inr \<lparr>bs_TransactionID = tn_ID t', bs_Amount = tn_Amount t', bs_Currency = tn_Currency t',
                         bs_BaseAmount = tn_BaseAmount t', bs_BaseCurrency = tn_BaseCurrency t', bs_ExchangeRate = tn_ExchangeRate t',
                         bs_Status = tn_Status t', bs_ProcessedAt = now 2 4\<rparr>, s4)))))"

definition GetBillingHistory :: "'s currency_db \<Rightarrow> TransactionFilter \<Rightarrow> string \<Rightarrow> TransactionFilter option \<Rightarrow> 's \<Rightarrow> billing_error + Transaction list" where
  "GetBillingHistory db zero profileID f s =
     map_sum HistoryFailed id (ListTransactions db ((case f of None \<Rightarrow> zero | Some x \<Rightarrow> x)\<lparr>nf_ProfileID := profileID\<rparr>) s)"

section \<open>Updates of rates\<close>

abbreviation deactivated :: "time \<Rightarrow> ExchangeRate \<Rightarrow> ExchangeRate" where
  "deactivated t r \<equiv> ExchangeRateModel_BeforeUpdate t (r\<lparr>er_IsActive := False\<rparr>)"

lemma deactivated_fields [simp]:
  "er_ID (deactivated t r) = er_ID r" "\<not> er_IsActive (deactivated t r)" "er_ValidFrom (deactivated t r) = er_ValidFrom r"
  by (simp_all add: ExchangeRateModel_BeforeUpdate_def)

lemma update_rate:
  assumes "save_ok (cdb_rates db) rates er_ID"
  shows "rates (snd (store_UpdateExchangeRate db t r s)) =
    (if fst (store_UpdateExchangeRate db t r s) = None
     then add_mset (ExchangeRateModel_BeforeUpdate t r) (filter_mset (\<lambda>x. er_ID x \<noteq> er_ID r) (rates s)) else rates s)"
  using stored_save[OF assms, of "ExchangeRateModel_BeforeUpdate t r" s]
  by (cases "stored (tb_save (cdb_rates db) (ExchangeRateModel_BeforeUpdate t r) s)")
    (simp add: store_UpdateExchangeRate_def, simp add: ExchangeRateModel_BeforeUpdate_def)

lemma deactivate_all_rows:
  assumes "save_ok (cdb_rates db) rates er_ID"
  shows "x \<in># rates (deactivate_all db now rs s) \<Longrightarrow> (\<exists>r \<in> set rs. \<exists>t. x = deactivated t r) \<or> x \<in># rates s"
proof (induction rs arbitrary: s now)
  case (Cons r rs)
  let ?s = "snd (store_UpdateExchangeRate db (now 0) (r\<lparr>er_IsActive := False\<rparr>) s)"
  have "(\<exists>r \<in> set rs. \<exists>t. x = deactivated t r) \<or> x \<in># rates ?s" using Cons.IH Cons.prems by simp
  moreover have "x = deactivated (now 0) r \<or> x \<in># rates s" if "x \<in># rates ?s"
    using that unfolding update_rate[OF assms] by (auto split: if_splits)
  ultimately show ?case by auto
qed simp

lemma saves_succeed: "\<forall>r s. fst (tb_save (cdb_rates db) r s) = None \<Longrightarrow> fst (store_UpdateExchangeRate db t r s) = None"
  by (drule spec[of _ "ExchangeRateModel_BeforeUpdate t r"], drule spec[of _ s],
      cases "tb_save (cdb_rates db) (ExchangeRateModel_BeforeUpdate t r) s") (simp add: store_UpdateExchangeRate_def)

lemma deactivate_all_done:
  assumes "save_ok (cdb_rates db) rates er_ID" and "\<forall>r s. fst (tb_save (cdb_rates db) r s) = None"
  shows "x \<in># rates (deactivate_all db now rs s) \<Longrightarrow> (\<exists>r \<in> set rs. \<exists>t. x = deactivated t r) \<or> x \<in># rates s \<and> x \<notin> set rs"
proof (induction rs arbitrary: s now)
  case (Cons r rs)
  let ?s = "snd (store_UpdateExchangeRate db (now 0) (r\<lparr>er_IsActive := False\<rparr>) s)"
  have "x = deactivated (now 0) r \<or> x \<in># rates s \<and> x \<noteq> r" if "x \<in># rates ?s"
    using that unfolding update_rate[OF assms(1)] by (auto simp: saves_succeed[OF assms(2)])
  moreover have "(\<exists>r \<in> set rs. \<exists>t. x = deactivated t r) \<or> x \<in># rates ?s \<and> x \<notin> set rs" using Cons.IH Cons.prems by simp
  ultimately show ?case by auto
qed simp

lemma deactivate_valid_rows:
  assumes ok: "currency_db_ok db currencies rates txs" and "x \<in># rates (deactivate_valid db order now rate s)"
  shows "\<exists>r \<in># rates s. x = r \<or> (\<exists>t. x = deactivated t r)"
proof (cases "ListExchangeRates db (now 1) (valid_filter order (er_FromCurrency rate) (er_ToCurrency rate)) s")
  case (Inr rs)
  have "r \<in># rates s" if "r \<in> set rs" for r
    using Inr that ok by (cases "tb_find (cdb_rates db) (rate_matches (now 1) (valid_filter order (er_FromCurrency rate) (er_ToCurrency rate)))
        (ef_order (valid_filter order (er_FromCurrency rate) (er_ToCurrency rate))) (at_most (ef_Limit (valid_filter order (er_FromCurrency rate) (er_ToCurrency rate))))
        (at_most (ef_Offset (valid_filter order (er_FromCurrency rate) (er_ToCurrency rate)))) s")
      (auto simp: ListExchangeRates_def currency_db_ok_def dest: table_find)
  then show ?thesis using assms(2) ok Inr deactivate_all_rows[of db rates x "\<lambda>i. now (i + 4)" rs s]
    by (auto simp: deactivate_valid_def currency_db_ok_def)
qed (use assms(2) in \<open>auto simp: deactivate_valid_def\<close>)

lemma deactivate_valid_done:
  assumes ok: "currency_db_ok db currencies rates txs" and saves: "\<forall>r s. fst (tb_save (cdb_rates db) r s) = None"
    and listed: "ListExchangeRates db (now 1) (valid_filter order (er_FromCurrency rate) (er_ToCurrency rate)) s = Inr rs"
    and x: "x \<in># rates (deactivate_valid db order now rate s)"
      "er_FromCurrency x = er_FromCurrency rate" "er_ToCurrency x = er_ToCurrency rate" "valid_at (now 1) x"
  shows "\<not> er_IsActive x"
proof -
  let ?P = "rate_matches (now 1) (valid_filter order (er_FromCurrency rate) (er_ToCurrency rate))"
  have "tb_find (cdb_rates db) ?P order None None s = Inr rs"
    using listed by (cases "tb_find (cdb_rates db) ?P order None None s") (auto simp: ListExchangeRates_def valid_filter_def at_most_def)
  then have "mset rs = filter_mset ?P (rates s)" using ok by (auto simp: currency_db_ok_def find_ok_def)
  then have rs: "set rs = {r. r \<in># rates s \<and> ?P r}" by (metis set_mset_filter set_mset_mset)
  have "x \<in># rates (deactivate_all db (\<lambda>i. now (i + 4)) rs s)" using x(1) listed by (simp add: deactivate_valid_def)
  then have "(\<exists>r \<in> set rs. \<exists>t. x = deactivated t r) \<or> x \<in># rates s \<and> x \<notin> set rs"
    using deactivate_all_done[of db rates x _ rs s] ok saves by (auto simp: currency_db_ok_def)
  moreover have "?P x" using x by (simp add: rate_matches_def valid_filter_def)
  ultimately show ?thesis using rs by auto
qed

text \<open>The rows after an update: the old ones with the valid rates of the pair deactivated, and the new
  rate when its creation succeeded.\<close>

lemma update_rows:
  assumes ok: "currency_db_ok db currencies rates txs" and "UpdateExchangeRate db order now rate s = (res, s')"
    and "res = None \<or> (\<exists>e. res = Some (Failed e))"
  shows "rates s' = (if res = None then add_mset (ExchangeRateModel_BeforeCreate (now 3) (dated_rate (now 0) (now 2) rate))
    (rates (deactivate_valid db order now rate s)) else rates (deactivate_valid db order now rate s))"
proof -
  define s1 where "s1 = deactivate_valid db order now rate s"
  have "map_prod (map_option Failed) id (store_CreateExchangeRate db (now 3) (dated_rate (now 0) (now 2) rate) s1) = (res, s')"
    using assms(2,3) by (auto simp: UpdateExchangeRate_def s1_def Let_def split: if_splits)
  moreover have "table_ok (cdb_rates db) rates (\<lambda>n r. n)" using ok by (simp add: currency_db_ok_def)
  note stored_create[OF this, of "ExchangeRateModel_BeforeCreate (now 3) (dated_rate (now 0) (now 2) rate)" s1]
  ultimately show ?thesis
    unfolding s1_def[symmetric] store_CreateExchangeRate_def
    by (cases "stored (tb_create (cdb_rates db) (ExchangeRateModel_BeforeCreate (now 3) (dated_rate (now 0) (now 2) rate)) s1)") auto
qed

text \<open>After a successful update the new rate is the one in force, from the moment of the update
  until it expires: no rate that was valid before is found any more.\<close>

theorem updated_rate_in_force:
  assumes ok: "currency_db_ok db currencies rates txs" and "\<forall>r s. fst (tb_save (cdb_rates db) r s) = None"
    and "ListExchangeRates db (now 1) (valid_filter order (er_FromCurrency rate) (er_ToCurrency rate)) s = Inr rs"
    and "\<forall>r \<in># rates s. er_ValidFrom r \<le> now 1" and "UpdateExchangeRate db order now rate s = (None, s')" and "now 1 \<le> t"
    and "GetLatestExchangeRate db t (er_FromCurrency rate) (er_ToCurrency rate) s' = Inr r"
  shows "r = ExchangeRateModel_BeforeCreate (now 3) (dated_rate (now 0) (now 2) rate)"
proof -
  have r: "r \<in># rates s'" "er_FromCurrency r = er_FromCurrency rate" "er_ToCurrency r = er_ToCurrency rate" "er_IsActive r" "valid_at t r"
    using found_cases(1)[OF _ assms(7)[unfolded GetLatestExchangeRate_def], of rates] ok by (auto simp: currency_db_ok_def)
  show ?thesis
  proof (rule ccontr)
    assume "r \<noteq> ExchangeRateModel_BeforeCreate (now 3) (dated_rate (now 0) (now 2) rate)"
    then have in1: "r \<in># rates (deactivate_valid db order now rate s)" using r(1) update_rows[OF ok assms(5)] by simp
    then have "er_ValidFrom r \<le> now 1" using deactivate_valid_rows[OF ok] assms(4) by fastforce
    then have "valid_at (now 1) r" using r(5) assms(6) by (auto simp: valid_at_def split: option.splits)
    from deactivate_valid_done[OF ok assms(2,3) in1 r(2,3) this] show False using r(4) by blast
  qed
qed

text \<open>An update that fails to create the new rate, as the second one within a second does because
  its identifier is taken, leaves the pair without any rate.\<close>

theorem failed_update_leaves_no_rate:
  assumes ok: "currency_db_ok db currencies rates txs" and "\<forall>r s. fst (tb_save (cdb_rates db) r s) = None"
    and "ListExchangeRates db (now 1) (valid_filter order (er_FromCurrency rate) (er_ToCurrency rate)) s = Inr rs"
    and "UpdateExchangeRate db order now rate s = (Some (Failed e), s')"
  shows "isl (GetLatestExchangeRate db (now 1) (er_FromCurrency rate) (er_ToCurrency rate) s')"
proof (cases "GetLatestExchangeRate db (now 1) (er_FromCurrency rate) (er_ToCurrency rate) s'")
  case (Inr r)
  have r: "r \<in># rates s'" "er_FromCurrency r = er_FromCurrency rate" "er_ToCurrency r = er_ToCurrency rate" "er_IsActive r" "valid_at (now 1) r"
    using found_cases(1)[OF _ Inr[unfolded GetLatestExchangeRate_def], of rates] ok by (auto simp: currency_db_ok_def)
  have "r \<in># rates (deactivate_valid db order now rate s)" using r(1) update_rows[OF ok assms(4)] by simp
  from deactivate_valid_done[OF ok assms(2,3) this r(2,3,5)] show ?thesis using r(4) by blast
qed simp

section \<open>Payments\<close>

text \<open>Looking up a rate may store one, and touches no transaction.\<close>

lemma exchange_frame:
  assumes ok: "currency_db_ok db currencies rates txs"
  shows "txs (snd (GetExchangeRate db ps now a b s)) = txs s" "txs (snd (ConvertAmount db ps now amt a b s)) = txs s"
    "txs (snd (ValidateCurrencyPair db ps now a b s)) = txs s" "txs (snd (validateBillingRequest db ps base now req s)) = txs s"
    "txs (snd (base_amount db ps base now req s)) = txs s"
proof -
  have "table_frame (cdb_rates db) txs" using ok by (simp add: currency_db_ok_def)
  then have g: "txs (snd (GetExchangeRate db ps now a b s)) = txs s" for a b s now
    by (auto simp: GetExchangeRate_def store_CreateExchangeRate_def stored_frame Let_def split: sum.splits option.splits)
  show "txs (snd (GetExchangeRate db ps now a b s)) = txs s" by (rule g)
  have c: "txs (snd (ConvertAmount db ps now amt a b s)) = txs s" for amt a b s now
    using g[of now a b s] by (auto simp: ConvertAmount_def split: prod.splits sum.splits)
  show "txs (snd (ConvertAmount db ps now amt a b s)) = txs s" by (rule c)
  have v: "txs (snd (ValidateCurrencyPair db ps now a b s)) = txs s" for a b s now
    using g[of now a b s] by (auto simp: ValidateCurrencyPair_def split: prod.splits sum.splits)
  show "txs (snd (ValidateCurrencyPair db ps now a b s)) = txs s" by (rule v)
  show "txs (snd (validateBillingRequest db ps base now req s)) = txs s" by (simp add: validateBillingRequest_def v)
  show "txs (snd (base_amount db ps base now req s)) = txs s"
    using c[of now "br_Amount req" "br_Currency req" base s] by (auto simp: base_amount_def split: prod.splits sum.splits)
qed

lemma base_amount_value:
  "base_amount db ps base now req s = (Inr (b, rate), s') \<Longrightarrow>
     b = (if br_Currency req = base then br_Amount req else f64_mul (br_Amount req) rate)"
  by (auto simp: base_amount_def ConvertAmount_def split: if_splits prod.splits sum.splits)

lemma accepted_billing: "validateBillingRequest db ps base now req s = (None, s') \<Longrightarrow> \<not> f64_le (br_Amount req) (f64_lit 0)"
  by (simp add: validateBillingRequest_def split: if_splits)

lemma write_transaction:
  assumes "currency_db_ok db currencies rates txs"
  shows "CreateTransaction db now t s = (e, s') \<Longrightarrow> txs s' =
      (if e = None then add_mset (TransactionModel_BeforeCreate now (transactionToModel (cdb_json db) t)) (txs s) else txs s)"
    "UpdateTransaction db now t s = (e, s') \<Longrightarrow> txs s' =
      (if e = None then add_mset (TransactionModel_BeforeUpdate now (transactionToModel (cdb_json db) t)) (filter_mset (\<lambda>x. tm_ID x \<noteq> tn_ID t) (txs s))
       else txs s)"
  using assms stored_create[of "cdb_transactions db" txs "\<lambda>n r. n"] stored_save[of "cdb_transactions db" txs tm_ID]
  by (auto simp: currency_db_ok_def CreateTransaction_def UpdateTransaction_def TransactionModel_BeforeUpdate_def transactionToModel_def)

text \<open>The steps of a payment after its validation.\<close>

lemma billing_steps:
  assumes "currency_db_ok db currencies rates txs" and "ProcessBilling db ps base uuid now req s = (res, s')"
  obtains
    (refused) e where "res = Inl e" "\<forall>e'. e \<noteq> UpdateFailed e'" "txs s' = txs s"
  | (pending) b rate m e where "res = Inl (UpdateFailed e)" "m = TransactionModel_BeforeCreate (now 2 2) (transactionToModel (cdb_json db)
        (billing_transaction uuid base (now 2 0) (now 2 1) req b rate))" "txs s' = add_mset m (txs s)"
  | (paid) b rate t s1 s2 s3 where "res = Inr \<lparr>bs_TransactionID = uuid, bs_Amount = br_Amount req, bs_Currency = br_Currency req,
        bs_BaseAmount = b, bs_BaseCurrency = base, bs_ExchangeRate = rate, bs_Status = TransactionStatusCompleted, bs_ProcessedAt = now 2 4\<rparr>"
      "validateBillingRequest db ps base (now 0) req s = (None, s1)" "base_amount db ps base (now 1) req s1 = (Inr (b, rate), s2)"
      "t = billing_transaction uuid base (now 2 0) (now 2 1) req b rate" "CreateTransaction db (now 2 2) t s2 = (None, s3)"
      "UpdateTransaction db (now 2 3) (t\<lparr>tn_Status := TransactionStatusCompleted\<rparr>) s3 = (None, s')" "txs s2 = txs s"
proof -
  obtain v s1 where v: "validateBillingRequest db ps base (now 0) req s = (v, s1)" by fastforce
  then have s1: "txs s1 = txs s" using exchange_frame(4)[OF assms(1)] by (metis snd_conv)
  show thesis
  proof (cases v)
    case (Some e)
    have "\<forall>e'. e \<noteq> UpdateFailed e'" using v Some
      by (cases "ValidateCurrencyPair db ps (now 0) (br_Currency req) base s") (auto simp: validateBillingRequest_def split: if_splits)
    moreover have "res = Inl e" "s' = s1" using v Some assms(2) by (simp_all add: ProcessBilling_def)
    ultimately show ?thesis using refused s1 by blast
  next
    case None
    obtain r s2 where r: "base_amount db ps base (now 1) req s1 = (r, s2)" by fastforce
    then have s2: "txs s2 = txs s" using exchange_frame(5)[OF assms(1)] s1 by (metis snd_conv)
    show ?thesis
    proof (cases r)
      case (Inl e)
      then show ?thesis using v None r assms(2) refused s2 by (auto simp: ProcessBilling_def)
    next
      case (Inr p)
      obtain b rate where p: "p = (b, rate)" by fastforce
      define t where "t = billing_transaction uuid base (now 2 0) (now 2 1) req b rate"
      obtain c s3 where c: "CreateTransaction db (now 2 2) t s2 = (c, s3)" by fastforce
      obtain u s4 where u: "UpdateTransaction db (now 2 3) (t\<lparr>tn_Status := TransactionStatusCompleted\<rparr>) s3 = (u, s4)" by fastforce
      note run = assms(2)[unfolded ProcessBilling_def v None r Inr p prod.case option.case sum.case Let_def, folded t_def, unfolded c u prod.case]
      show ?thesis
      proof (cases c)
        case (Some e)
        then show ?thesis using run refused write_transaction(1)[OF assms(1) c] s2 by auto
      next
        case None': None
        show ?thesis
        proof (cases u)
          case (Some e)
          then show ?thesis using run None' pending write_transaction[OF assms(1)] c u s2 by (auto simp: t_def)
        next
          case None'': None
          then show ?thesis using run None' by (intro paid[OF _ v[unfolded None] r[unfolded Inr p] t_def]) (use c u s2 in \<open>auto simp: t_def billing_transaction_def\<close>)
        qed
      qed
    qed
  qed
qed


text \<open>A payment that fails records nothing, except when the last step fails: then the transaction
  stays, pending, and nothing ever completes it.\<close>

theorem failed_billing:
  assumes ok: "currency_db_ok db currencies rates txs" and run: "ProcessBilling db ps base uuid now req s = (Inl e, s')"
  shows "if \<exists>e'. e = UpdateFailed e' then \<exists>m. txs s' = add_mset m (txs s) \<and> tm_ID m = uuid \<and> tm_Status m = TransactionStatusPending
    else txs s' = txs s"
  by (cases rule: billing_steps[OF ok run]) (auto simp: TransactionModel_BeforeCreate_def transactionToModel_def billing_transaction_def)

section \<open>Rates of the past\<close>

text \<open>The history of a pair holds only rates whose end has passed; as neither an update nor a
  provider sets the end of a rate, a history built by them is always empty.\<close>

theorem rate_history_expired_only:
  assumes ok: "currency_db_ok db currencies rates txs" and "GetRateHistory db now a b days s = Inr rs" and "r \<in> set rs"
  shows "\<exists>t. er_ValidTo r = Some t \<and> t < now"
proof -
  have "table_ok (cdb_rates db) rates (\<lambda>n r. n)" using ok by (simp add: currency_db_ok_def)
  moreover obtain P where "tb_find (cdb_rates db) (rate_matches now (history_filter er_ValidFrom a b days)) P
      (at_most days) (at_most 0) s = Inr rs"
    using assms(2) by (cases "tb_find (cdb_rates db) (rate_matches now (history_filter er_ValidFrom a b days)) er_ValidFrom (at_most days) (at_most 0) s")
      (auto simp: GetRateHistory_def ListExchangeRates_def history_filter_def)
  ultimately have "rate_matches now (history_filter er_ValidFrom a b days) r" using table_find[of "cdb_rates db" rates] assms(3) by blast
  then show ?thesis by (auto simp: rate_matches_def history_filter_def split: option.splits)
qed

lemma written_rates_open: "er_ValidTo (provider_rate t u a b q) = None" "er_ValidTo (dated_rate t u r) = er_ValidTo r"
  by (simp_all add: provider_rate_def dated_rate_def)

lemma same_currency_exact: "ConvertAmount db ps now x a a s = (Inr c, s') \<Longrightarrow> cv_ExchangeRate c = f64_lit 1 \<and> cv_ConvertedAmount c = f64_mul x (f64_lit 1) \<and> s' = s"
  by (auto simp: ConvertAmount_def GetExchangeRate_def direct_rate_def)

section \<open>An example\<close>

definition demo_rate :: "string \<Rightarrow> time \<Rightarrow> time option \<Rightarrow> int \<Rightarrow> ExchangeRate" where
  "demo_rate i since till q = \<lparr>er_ID = i, er_FromCurrency = ''EUR'', er_ToCurrency = ''USD'', er_Rate = f64_lit (of_int q), er_Source = ''manual'',
     er_ValidFrom = since, er_ValidTo = till, er_IsActive = True, er_CreatedAt = 1, er_UpdatedAt = 1\<rparr>"

definition demo_currency :: "string \<Rightarrow> CurrencyModel" where
  "demo_currency c = \<lparr>cm_Code = c, cm_Name = c, cm_Symbol = c, cm_DecimalPlaces = 2, cm_IsActive = True, cm_SupportedRegions = '''',
     cm_CreatedAt = 1, cm_UpdatedAt = 1\<rparr>"

definition demo_billing :: billing_memory where
  "demo_billing = \<lparr>bm_currencies = [demo_currency ''EUR'', demo_currency ''USD''], bm_rates = [demo_rate ''r1'' 5 None 2], bm_transactions = []\<rparr>"

definition demo_clock :: "nat \<Rightarrow> time" where
  "demo_clock i = 10 + int i"

definition demo_request :: BillingRequest where
  "demo_request = \<lparr>br_ProfileID = ''p'', br_SubscriptionID = ''s'', br_Amount = f64_lit 3, br_Currency = ''EUR'', br_Description = '''', br_BillingDate = 1\<rparr>"

text \<open>A table whose creations fail, as one with the identifier taken does.\<close>

definition full_billing :: "billing_memory currency_db" where
  "full_billing = memory_billing\<lparr>cdb_rates := full_table ''duplicate key'' (cdb_rates memory_billing)\<rparr>"

lemma full_billing_ok:
  "currency_db_ok full_billing (\<lambda>s. mset (bm_currencies s)) (\<lambda>s. mset (bm_rates s)) (\<lambda>s. mset (bm_transactions s))"
  using memory_billing_ok unfolding currency_db_ok_def full_billing_def by (simp add: full_table_ok full_table_others)

lemma memory_rates_saved: "fst (tb_save (cdb_rates memory_billing) r s) = None" "fst (tb_save (cdb_rates full_billing) r s) = None"
  by (simp_all add: memory_billing_def full_billing_def list_table_def)

lemma demo_listed:
  "ListExchangeRates memory_billing 11 (valid_filter er_ValidFrom ''EUR'' ''USD'') demo_billing = Inr [demo_rate ''r1'' 5 None 2]"
  "ListExchangeRates full_billing 11 (valid_filter er_ValidFrom ''EUR'' ''USD'') demo_billing = Inr [demo_rate ''r1'' 5 None 2]"
  by (simp_all add: ListExchangeRates_def full_billing_def memory_billing_def list_table_def valid_filter_def rate_matches_def valid_at_def
      demo_billing_def demo_rate_def at_most_def)

lemma demo_rate_positive: "\<not> f64_le (er_Rate (demo_rate i a t 4)) (f64_lit 0)"
  by (simp add: demo_rate_def f64_lit_numeral f64_lit_0)

lemma demo_update:
  "UpdateExchangeRate memory_billing er_ValidFrom demo_clock (demo_rate '' '' 0 None 4) demo_billing = (None, demo_billing\<lparr>bm_rates :=
     [ExchangeRateModel_BeforeCreate 13 (dated_rate 10 12 (demo_rate '' '' 0 None 4)), deactivated 14 (demo_rate ''r1'' 5 None 2)]\<rparr>)"
  using demo_rate_positive[of "'' ''" 0 None]
  by (simp add: UpdateExchangeRate_def deactivate_valid_def demo_clock_def demo_rate_def[of "'' ''"] demo_listed)
    (simp add: store_UpdateExchangeRate_def store_CreateExchangeRate_def memory_billing_def list_table_def demo_billing_def demo_rate_def
      ExchangeRateModel_BeforeUpdate_def)

lemma demo_update_fails:
  "UpdateExchangeRate full_billing er_ValidFrom demo_clock (demo_rate '' '' 0 None 4) demo_billing = (Some (Failed (StorageError ''duplicate key'')),
     demo_billing\<lparr>bm_rates := [deactivated 14 (demo_rate ''r1'' 5 None 2)]\<rparr>)"
  using demo_rate_positive[of "'' ''" 0 None]
  by (simp add: UpdateExchangeRate_def deactivate_valid_def demo_clock_def demo_rate_def[of "'' ''"] demo_listed)
    (simp add: store_UpdateExchangeRate_def store_CreateExchangeRate_def full_billing_def memory_billing_def list_table_def demo_billing_def demo_rate_def
      ExchangeRateModel_BeforeUpdate_def)

lemma demo_rate_fields [simp]:
  "er_FromCurrency (demo_rate i a t q) = ''EUR''" "er_ToCurrency (demo_rate i a t q) = ''USD''" "er_ValidFrom (demo_rate i a t q) = a"
  by (simp_all add: demo_rate_def)

theorem updated_rate_in_force_witness:
  "GetLatestExchangeRate memory_billing 20 ''EUR'' ''USD'' (snd (UpdateExchangeRate memory_billing er_ValidFrom demo_clock (demo_rate '' '' 0 None 4) demo_billing))
   = Inr (ExchangeRateModel_BeforeCreate 13 (dated_rate 10 12 (demo_rate '' '' 0 None 4)))"
proof -
  let ?s = "snd (UpdateExchangeRate memory_billing er_ValidFrom demo_clock (demo_rate '' '' 0 None 4) demo_billing)"
  obtain r where r: "GetLatestExchangeRate memory_billing 20 ''EUR'' ''USD'' ?s = Inr r"
    unfolding demo_update by (simp add: GetLatestExchangeRate_def memory_billing_def list_table_def demo_rate_def dated_rate_def ExchangeRateModel_BeforeCreate_def
        ExchangeRateModel_BeforeUpdate_def valid_at_def found_def)
  have "r = ExchangeRateModel_BeforeCreate (demo_clock 3) (dated_rate (demo_clock 0) (demo_clock 2) (demo_rate '' '' 0 None 4))"
  proof (rule updated_rate_in_force[OF memory_billing_ok])
    show "ListExchangeRates memory_billing (demo_clock 1) (valid_filter er_ValidFrom (er_FromCurrency (demo_rate '' '' 0 None 4)) (er_ToCurrency (demo_rate '' '' 0 None 4)))
        demo_billing = Inr [demo_rate ''r1'' 5 None 2]"
      using demo_listed(1) by (simp add: demo_clock_def)
    show "UpdateExchangeRate memory_billing er_ValidFrom demo_clock (demo_rate '' '' 0 None 4) demo_billing = (None, ?s)" by (simp add: demo_update)
    show "GetLatestExchangeRate memory_billing 20 (er_FromCurrency (demo_rate '' '' 0 None 4)) (er_ToCurrency (demo_rate '' '' 0 None 4)) ?s = Inr r"
      using r by simp
  qed (simp_all add: memory_rates_saved demo_clock_def demo_billing_def)
  then show ?thesis using r by (simp add: demo_clock_def)
qed

theorem failed_update_leaves_no_rate_witness:
  "isl (GetLatestExchangeRate full_billing 11 ''EUR'' ''USD'' (demo_billing\<lparr>bm_rates := [deactivated 14 (demo_rate ''r1'' 5 None 2)]\<rparr>))"
  using failed_update_leaves_no_rate[OF full_billing_ok _ _ demo_update_fails, of "[demo_rate ''r1'' 5 None 2]"] demo_listed
  by (simp add: memory_rates_saved demo_clock_def demo_rate_def[of "'' ''"])

lemma demo_quote: "GetExchangeRate memory_billing ps now ''EUR'' ''USD'' demo_billing = (Inr (demo_rate ''r1'' 5 None 2), demo_billing)" if "5 \<le> now 0"
  using that by (simp add: GetExchangeRate_def GetLatestExchangeRate_def memory_billing_def list_table_def demo_billing_def demo_rate_def found_def valid_at_def)

lemma demo_pair: "ValidateCurrencyPair memory_billing ps now ''EUR'' ''USD'' demo_billing = (None, demo_billing)" if "5 \<le> now 0"
  using demo_quote[of now ps, OF that] by (simp add: ValidateCurrencyPair_def GetCurrency_def memory_billing_def list_table_def demo_billing_def demo_currency_def found_def)

definition demo_times :: "nat \<Rightarrow> nat \<Rightarrow> time" where
  "demo_times i j = 10 + int (5 * i + j)"

definition demo_payment :: Transaction where
  "demo_payment = billing_transaction ''u'' ''USD'' 20 21 demo_request (f64_mul (f64_lit 3) (f64_lit 2)) (f64_lit 2)"

lemma demo_validated: "validateBillingRequest memory_billing [] ''USD'' (demo_times 0) demo_request demo_billing = (None, demo_billing)"
  by (simp add: validateBillingRequest_def demo_request_def demo_pair demo_times_def f64_lit_0 f64_lit_numeral)

lemma demo_converted: "base_amount memory_billing [] ''USD'' (demo_times 1) demo_request demo_billing
  = (Inr (f64_mul (f64_lit 3) (f64_lit 2), f64_lit 2), demo_billing)"
  using demo_quote[of "demo_times 1" "[]"]
  by (simp add: base_amount_def demo_request_def ConvertAmount_def demo_times_def demo_rate_def)

lemma demo_paid:
  "ProcessBilling memory_billing [] ''USD'' ''u'' demo_times demo_request demo_billing = (Inr \<lparr>bs_TransactionID = ''u'', bs_Amount = f64_lit 3,
     bs_Currency = ''EUR'', bs_BaseAmount = f64_mul (f64_lit 3) (f64_lit 2), bs_BaseCurrency = ''USD'', bs_ExchangeRate = f64_lit 2,
     bs_Status = TransactionStatusCompleted, bs_ProcessedAt = 24\<rparr>,
   demo_billing\<lparr>bm_transactions := [TransactionModel_BeforeUpdate 23
     (transactionToModel (cdb_json memory_billing) (demo_payment\<lparr>tn_Status := TransactionStatusCompleted\<rparr>))]\<rparr>)"
  unfolding ProcessBilling_def demo_validated prod.case option.case demo_converted sum.case
  by (simp add: CreateTransaction_def UpdateTransaction_def memory_billing_def list_table_def demo_times_def demo_payment_def demo_billing_def
      transactionToModel_def billing_transaction_def TransactionModel_BeforeCreate_def TransactionModel_BeforeUpdate_def demo_request_def)


theorem failed_billing_witness:
  "bm_transactions (snd (ProcessBilling memory_billing [] ''USD'' ''u'' demo_times (demo_request\<lparr>br_ProfileID := ''''\<rparr>) demo_billing)) = []"
proof -
  have p: "ProcessBilling memory_billing [] ''USD'' ''u'' demo_times (demo_request\<lparr>br_ProfileID := ''''\<rparr>) demo_billing = (Inl ProfileRequired, demo_billing)"
    by (simp add: ProcessBilling_def validateBillingRequest_def)
  from failed_billing[OF memory_billing_ok p] show ?thesis unfolding p by (simp add: demo_billing_def)
qed

theorem rate_history_expired_only_witness:
  "\<exists>t. er_ValidTo (demo_rate ''r0'' 1 (Some 4) 3) = Some t \<and> t < 10"
  using rate_history_expired_only[OF memory_billing_ok, of 10 "''EUR''" "''USD''" 0 "demo_billing\<lparr>bm_rates := [demo_rate ''r0'' 1 (Some 4) 3]\<rparr>"
      "[demo_rate ''r0'' 1 (Some 4) 3]" "demo_rate ''r0'' 1 (Some 4) 3"]
  by (simp add: GetRateHistory_def ListExchangeRates_def memory_billing_def list_table_def history_filter_def rate_matches_def demo_rate_def)

end
