(* ===== verification/Cache.thy ===== *)
theory Cache
  imports Float64 Prelude
begin

text \<open>
  The in-memory cache of the carrier connector (\<open>apps/carrier-connector/internal/infra/cache.go\<close>).
  Each operation is one step, with the readings of the clock as arguments and, where the code
  ranges over the map of entries, the order in which it does so.
\<close>

section \<open>State\<close>

type_synonym bytes = "8 word list"

type_synonym CacheStrategy = string

abbreviation CacheStrategyLRU :: CacheStrategy where "CacheStrategyLRU \<equiv> ''lru''"
abbreviation CacheStrategyTTL :: CacheStrategy where "CacheStrategyTTL \<equiv> ''ttl''"

record CacheEntry =
  ce_Key :: string
  ce_Value :: bytes
  ce_ExpiresAt :: time
  ce_CreatedAt :: time
  ce_HitCount :: int

record CacheStats =
  cs_Size :: int
  cs_Hits :: int
  cs_Misses :: int
  cs_Sets :: int
  cs_Deletes :: int
  cs_Evictions :: int
  cs_HitRate :: f64

record Cache =
  entries :: "string \<rightharpoonup> CacheEntry"
  maxSize :: int
  defaultTTL :: duration
  strategy :: CacheStrategy
  stats :: CacheStats

record CacheConfig =
  cc_MaxSize :: int
  cc_DefaultTTL :: duration
  cc_Strategy :: CacheStrategy

definition DefaultCacheConfig :: CacheConfig where
  "DefaultCacheConfig = \<lparr>cc_MaxSize = 10000, cc_DefaultTTL = 5 * minute, cc_Strategy = CacheStrategyTTL\<rparr>"

definition zero_stats :: CacheStats where
  "zero_stats = \<lparr>cs_Size = 0, cs_Hits = 0, cs_Misses = 0, cs_Sets = 0, cs_Deletes = 0,
     cs_Evictions = 0, cs_HitRate = f64_of_int 0\<rparr>"

definition NewCache :: "CacheConfig \<Rightarrow> Cache" where
  "NewCache config = \<lparr>entries = Map.empty, maxSize = cc_MaxSize config,
     defaultTTL = cc_DefaultTTL config, strategy = cc_Strategy config, stats = zero_stats\<rparr>"

section \<open>Operations\<close>

definition Delete :: "string \<Rightarrow> Cache \<Rightarrow> Cache" where
  "Delete key c = c\<lparr>entries := (entries c)(key := None),
     stats := (stats c)\<lparr>cs_Deletes := i64 (cs_Deletes (stats c) + 1)\<rparr>\<rparr>"

definition miss :: "Cache \<Rightarrow> Cache" where
  "miss c = c\<lparr>stats := (stats c)\<lparr>cs_Misses := i64 (cs_Misses (stats c) + 1)\<rparr>\<rparr>"

text \<open>\<open>Get\<close> finds the entry under the read lock, releases it, and takes the write lock again to delete an
  expired entry or to count a hit, in a cache \<open>c\<close> that others may have changed. A hit is counted in
  the entry that was found, if the map still holds it.\<close>

definition find_entry :: "string \<Rightarrow> Cache \<Rightarrow> CacheEntry option" where
  "find_entry key c = entries c key"

definition count_hit :: "string \<Rightarrow> CacheEntry \<Rightarrow> Cache \<Rightarrow> Cache" where
  "count_hit key entry c =
     (case entries c key of
        Some e \<Rightarrow>
          if e\<lparr>ce_HitCount := ce_HitCount entry\<rparr> = entry
          then c\<lparr>entries := (entries c)(key \<mapsto> e\<lparr>ce_HitCount := i64 (ce_HitCount e + 1)\<rparr>)\<rparr>
          else c
      | None \<Rightarrow> c)"

definition finish_get :: "string \<Rightarrow> time \<Rightarrow> CacheEntry option \<Rightarrow> Cache \<Rightarrow> (bytes \<times> bool) \<times> Cache" where
  "finish_get key now found c =
     (case found of
        None \<Rightarrow> (([], False), miss c)
      | Some entry \<Rightarrow>
          if ce_ExpiresAt entry < now then (([], False), miss (Delete key c))
          else ((ce_Value entry, True),
            (count_hit key entry c)\<lparr>stats := (stats c)\<lparr>cs_Hits := i64 (cs_Hits (stats c) + 1)\<rparr>\<rparr>))"

text \<open>A call that nothing comes between.\<close>

definition Get :: "string \<Rightarrow> time \<Rightarrow> Cache \<Rightarrow> (bytes \<times> bool) \<times> Cache" where
  "Get key now c = finish_get key now (find_entry key c) c"

lemma Get_cases:
  "Get key now c =
     (case entries c key of
        None \<Rightarrow> (([], False), miss c)
      | Some entry \<Rightarrow>
          if ce_ExpiresAt entry < now then (([], False), miss (Delete key c))
          else ((ce_Value entry, True),
            c\<lparr>entries := (entries c)(key \<mapsto> entry\<lparr>ce_HitCount := i64 (ce_HitCount entry + 1)\<rparr>),
              stats := (stats c)\<lparr>cs_Hits := i64 (cs_Hits (stats c) + 1)\<rparr>\<rparr>))"
  by (simp add: Get_def find_entry_def finish_get_def count_hit_def split: option.split)

text \<open>The loop of \<open>evict\<close> over the map, in the order \<open>ks\<close>.\<close>

fun oldest_entry :: "(string \<rightharpoonup> CacheEntry) \<Rightarrow> string list \<Rightarrow>
    CacheEntry option \<times> string \<Rightarrow> CacheEntry option \<times> string" where
  "oldest_entry m [] acc = acc"
| "oldest_entry m (key # ks) (oldest, oldestKey) =
     oldest_entry m ks
       (case m key of
          None \<Rightarrow> (oldest, oldestKey)
        | Some entry \<Rightarrow>
            (case oldest of
               None \<Rightarrow> (Some entry, key)
             | Some old \<Rightarrow> if ce_CreatedAt entry < ce_CreatedAt old then (Some entry, key)
                 else (oldest, oldestKey)))"

definition evict :: "string list \<Rightarrow> Cache \<Rightarrow> Cache" where
  "evict ks c =
     (let oldestKey = snd (oldest_entry (entries c) ks (None, [])) in
      if oldestKey \<noteq> [] then
        c\<lparr>entries := (entries c)(oldestKey := None),
          stats := (stats c)\<lparr>cs_Evictions := i64 (cs_Evictions (stats c) + 1)\<rparr>\<rparr>
      else c)"

text \<open>\<open>Set\<close> reads the clock twice; \<open>ks\<close> lists the keys of the map, so its length is
  \<open>len(c.entries)\<close>. It never fails.\<close>

definition Set :: "string list \<Rightarrow> string \<Rightarrow> bytes \<Rightarrow> duration \<Rightarrow> time \<Rightarrow> time \<Rightarrow> Cache \<Rightarrow> Cache" where
  "Set ks key value ttl0 now1 now2 c =
     (let ttl = (if ttl0 = 0 then defaultTTL c else ttl0);
          c1 = (if maxSize c \<le> int (length ks) then evict ks c else c)
      in c1\<lparr>entries := (entries c1)(key \<mapsto>
             \<lparr>ce_Key = key, ce_Value = value, ce_ExpiresAt = now1 + ttl, ce_CreatedAt = now2, ce_HitCount = 0\<rparr>),
           stats := (stats c1)\<lparr>cs_Sets := i64 (cs_Sets (stats c1) + 1)\<rparr>\<rparr>)"

definition Clear :: "Cache \<Rightarrow> Cache" where
  "Clear c = c\<lparr>entries := Map.empty\<rparr>"

fun cleanup :: "time \<Rightarrow> string list \<Rightarrow> Cache \<Rightarrow> Cache" where
  "cleanup now [] c = c"
| "cleanup now (key # ks) c =
     cleanup now ks
       (case entries c key of
          None \<Rightarrow> c
        | Some entry \<Rightarrow>
            if ce_ExpiresAt entry < now then
              c\<lparr>entries := (entries c)(key := None),
                stats := (stats c)\<lparr>cs_Evictions := i64 (cs_Evictions (stats c) + 1)\<rparr>\<rparr>
            else c)"

definition Stats :: "string list \<Rightarrow> Cache \<Rightarrow> CacheStats" where
  "Stats ks c =
     (let s = (stats c)\<lparr>cs_Size := int (length ks)\<rparr>; n = i64 (cs_Hits s + cs_Misses s) in
      if 0 < n
      then s\<lparr>cs_HitRate := f64_mul (f64_div (f64_of_int (cs_Hits s)) (f64_of_int n)) (f64_lit 100)\<rparr>
      else s)"

text \<open>The JSON variants, over the serializer of the standard library.\<close>

definition SetJSON :: "('v \<Rightarrow> string + bytes) \<Rightarrow> string list \<Rightarrow> string \<Rightarrow> 'v \<Rightarrow> duration \<Rightarrow> time \<Rightarrow> time
    \<Rightarrow> Cache \<Rightarrow> string option \<times> Cache" where
  "SetJSON marshal ks key value ttl now1 now2 c =
     (case marshal value of
        Inl err \<Rightarrow> (Some (''failed to marshal value: '' @ err), c)
      | Inr data \<Rightarrow> (None, Set ks key data ttl now1 now2 c))"

definition GetJSON :: "(bytes \<Rightarrow> string + 'v) \<Rightarrow> string \<Rightarrow> time \<Rightarrow> Cache \<Rightarrow> (string + 'v option) \<times> Cache" where
  "GetJSON unmarshal key now c =
     (case Get key now c of ((data, exists), c') \<Rightarrow>
        if \<not> exists then (Inr None, c')
        else (case unmarshal data of
            Inl err \<Rightarrow> (Inl (''failed to unmarshal value: '' @ err), c')
          | Inr v \<Rightarrow> (Inr (Some v), c')))"

section \<open>A race\<close>

text \<open>A \<open>Get\<close> that has found an expired entry deletes the key even if a new value was set meanwhile.\<close>

theorem stale_get_deletes_new_value:
  assumes "find_entry key c = Some e" and "ce_ExpiresAt e < now" and "c1 = Set ks key value ttl now1 now2 c"
  shows "find_entry key c1 \<noteq> None \<and> fst (finish_get key now (find_entry key c) c1) = ([], False)
    \<and> find_entry key (snd (finish_get key now (find_entry key c) c1)) = None"
  using assms by (simp add: find_entry_def finish_get_def Set_def Let_def miss_def Delete_def)

section \<open>Eviction\<close>

lemma oldest_entry_min:
  assumes "\<forall>k \<in> set ks. \<exists>e. m k = Some e"
  shows "\<exists>e k. oldest_entry m ks (Some e0, k0) = (Some e, k)
    \<and> ((e, k) = (e0, k0) \<or> k \<in> set ks \<and> m k = Some e)
    \<and> ce_CreatedAt e \<le> ce_CreatedAt e0 \<and> (\<forall>k' \<in> set ks. \<forall>e'. m k' = Some e' \<longrightarrow> ce_CreatedAt e \<le> ce_CreatedAt e')"
  using assms
proof (induction ks arbitrary: e0 k0)
  case (Cons k ks)
  then obtain ek where ek: "m k = Some ek" by auto
  have all: "\<forall>k \<in> set ks. \<exists>e. m k = Some e" using Cons.prems by simp
  show ?case
  proof (cases "ce_CreatedAt ek < ce_CreatedAt e0")
    case True
    from Cons.IH[OF all, of ek k] obtain e k1 where
      "oldest_entry m ks (Some ek, k) = (Some e, k1)" "(e, k1) = (ek, k) \<or> k1 \<in> set ks \<and> m k1 = Some e"
      "ce_CreatedAt e \<le> ce_CreatedAt ek" "\<forall>k' \<in> set ks. \<forall>e'. m k' = Some e' \<longrightarrow> ce_CreatedAt e \<le> ce_CreatedAt e'"
      by blast
    then show ?thesis using True ek by (intro exI[of _ e] exI[of _ k1]) auto
  next
    case False
    from Cons.IH[OF all, of e0 k0] obtain e k1 where
      "oldest_entry m ks (Some e0, k0) = (Some e, k1)" "(e, k1) = (e0, k0) \<or> k1 \<in> set ks \<and> m k1 = Some e"
      "ce_CreatedAt e \<le> ce_CreatedAt e0" "\<forall>k' \<in> set ks. \<forall>e'. m k' = Some e' \<longrightarrow> ce_CreatedAt e \<le> ce_CreatedAt e'"
      by blast
    then show ?thesis using False ek by (intro exI[of _ e] exI[of _ k1]) auto
  qed
qed simp

lemma oldest_key:
  assumes "iterates m ks" "ks \<noteq> []"
  obtains e where "m (snd (oldest_entry m ks (None, []))) = Some e"
    "\<forall>k' e'. m k' = Some e' \<longrightarrow> ce_CreatedAt e \<le> ce_CreatedAt e'"
proof -
  from assms(2) obtain k ks' where ks: "ks = k # ks'" by (cases ks) auto
  have d: "set ks = dom m" using assms(1) by (simp add: iterates_def)
  then have "\<forall>k \<in> set ks'. \<exists>e. m k = Some e" unfolding ks by (metis domD list.set_intros(2))
  obtain ek where ek: "m k = Some ek" using d ks by (metis domD list.set_intros(1))
  from oldest_entry_min[OF \<open>\<forall>k \<in> set ks'. \<exists>e. m k = Some e\<close>, of ek k] obtain e k1 where o:
    "oldest_entry m ks' (Some ek, k) = (Some e, k1)" "(e, k1) = (ek, k) \<or> k1 \<in> set ks' \<and> m k1 = Some e"
    "ce_CreatedAt e \<le> ce_CreatedAt ek" "\<forall>k' \<in> set ks'. \<forall>e'. m k' = Some e' \<longrightarrow> ce_CreatedAt e \<le> ce_CreatedAt e'"
    by blast
  have "m k1 = Some e" using o(2) ek by auto
  moreover have "\<forall>k' e'. m k' = Some e' \<longrightarrow> ce_CreatedAt e \<le> ce_CreatedAt e'"
  proof (intro allI impI)
    fix k' e' assume "m k' = Some e'"
    then have "k' = k \<or> k' \<in> set ks'" using d ks by (metis domI set_ConsD)
    then show "ce_CreatedAt e \<le> ce_CreatedAt e'" using o(3,4) ek \<open>m k' = Some e'\<close> by auto
  qed
  ultimately show ?thesis using that o(1) ek ks by simp
qed

section \<open>Histories\<close>

datatype cache_op =
    OpSet "string list" string bytes duration time time
  | OpGet string time
  | OpDelete string
  | OpClear
  | OpCleanup time "string list"

fun cache_step :: "cache_op \<Rightarrow> Cache \<Rightarrow> Cache" where
  "cache_step (OpSet ks key value ttl now1 now2) c = Set ks key value ttl now1 now2 c"
| "cache_step (OpGet key now) c = snd (Get key now c)"
| "cache_step (OpDelete key) c = Delete key c"
| "cache_step OpClear c = Clear c"
| "cache_step (OpCleanup now ks) c = cleanup now ks c"

text \<open>A history is well formed when each loop ranges over the keys of the map it finds.\<close>

fun op_ok :: "cache_op \<Rightarrow> Cache \<Rightarrow> bool" where
  "op_ok (OpSet ks key value ttl now1 now2) c = iterates (entries c) ks"
| "op_ok (OpCleanup now ks) c = iterates (entries c) ks"
| "op_ok _ c = True"

fun run_cache :: "cache_op list \<Rightarrow> Cache \<Rightarrow> Cache" where
  "run_cache [] c = c"
| "run_cache (op # ops) c = run_cache ops (cache_step op c)"

fun history_ok :: "cache_op list \<Rightarrow> Cache \<Rightarrow> bool" where
  "history_ok [] c = True"
| "history_ok (op # ops) c = (op_ok op c \<and> history_ok ops (cache_step op c))"

text \<open>The abstract cache: what the last \<open>Set\<close> of a key promised, with its expiry, unless the
  key was deleted or the cache cleared since.\<close>

fun promise :: "duration \<Rightarrow> cache_op \<Rightarrow> (string \<rightharpoonup> bytes \<times> time) \<Rightarrow> (string \<rightharpoonup> bytes \<times> time)" where
  "promise d (OpSet ks key value ttl now1 now2) p = p(key \<mapsto> (value, now1 + (if ttl = 0 then d else ttl)))"
| "promise d (OpDelete key) p = p(key := None)"
| "promise d OpClear p = Map.empty"
| "promise d _ p = p"

definition honest :: "(string \<rightharpoonup> bytes \<times> time) \<Rightarrow> Cache \<Rightarrow> bool" where
  "honest p c \<longleftrightarrow> (\<forall>k e. entries c k = Some e \<longrightarrow> ce_Key e = k \<and> p k = Some (ce_Value e, ce_ExpiresAt e))"

lemma evict_entries: "entries (evict ks c) k = Some e \<Longrightarrow> entries c k = Some e"
  by (auto simp: evict_def Let_def split: if_splits)

lemma evict_frame [simp]: "defaultTTL (evict ks c) = defaultTTL c" "maxSize (evict ks c) = maxSize c"
  by (auto simp: evict_def Let_def)

lemma cleanup_entries: "entries (cleanup now ks c) k = Some e \<Longrightarrow> entries c k = Some e"
proof (induction ks arbitrary: c)
  case (Cons key ks)
  let ?c = "case entries c key of None \<Rightarrow> c | Some entry \<Rightarrow>
    if ce_ExpiresAt entry < now then c\<lparr>entries := (entries c)(key := None),
      stats := (stats c)\<lparr>cs_Evictions := i64 (cs_Evictions (stats c) + 1)\<rparr>\<rparr> else c"
  have "entries ?c k = Some e" by (rule Cons.IH) (use Cons.prems in simp)
  then show ?case by (auto split: option.splits if_splits)
qed simp

lemma cleanup_frame [simp]: "defaultTTL (cleanup now ks c) = defaultTTL c" "maxSize (cleanup now ks c) = maxSize c"
  by (induction ks arbitrary: c) (simp_all split: option.split)

lemma step_frame [simp]: "defaultTTL (cache_step op c) = defaultTTL c" "maxSize (cache_step op c) = maxSize c"
  by (cases op; auto simp: Set_def Get_cases miss_def Delete_def Clear_def Let_def split: option.splits)+

lemma honest_step:
  assumes "honest p c"
  shows "honest (promise (defaultTTL c) op p) (cache_step op c)"
proof (cases op)
  case (OpSet ks key v ttl now1 now2)
  then show ?thesis using assms by (auto simp: honest_def Set_def Let_def dest: evict_entries)
next
  case (OpGet key now)
  then show ?thesis using assms
    by (auto simp: honest_def Get_cases miss_def Delete_def split: option.splits if_splits)
next
  case (OpCleanup now ks)
  then show ?thesis using assms by (auto simp: honest_def dest: cleanup_entries)
qed (use assms in \<open>auto simp: honest_def Delete_def Clear_def\<close>)

lemma honest_run:
  "honest p c \<Longrightarrow> honest (fold (promise (defaultTTL c)) ops p) (run_cache ops c)"
proof (induction ops arbitrary: p c)
  case (Cons op ops)
  from Cons.IH[OF honest_step[OF Cons.prems, of op]] show ?case by simp
qed simp

text \<open>The size.\<close>

definition size_of :: "Cache \<Rightarrow> nat" where
  "size_of c = card (dom (entries c))"

definition sized :: "Cache \<Rightarrow> bool" where
  "sized c \<longleftrightarrow> finite (dom (entries c)) \<and> [] \<notin> dom (entries c) \<and> int (size_of c) \<le> max 1 (maxSize c)"

lemma evict_size:
  assumes "iterates (entries c) ks" "ks \<noteq> []" "[] \<notin> dom (entries c)"
  shows "Suc (size_of (evict ks c)) = size_of c" "finite (dom (entries (evict ks c)))"
    "dom (entries (evict ks c)) \<subseteq> dom (entries c)"
proof -
  let ?k = "snd (oldest_entry (entries c) ks (None, []))"
  obtain e where e: "entries c ?k = Some e" using oldest_key[OF assms(1,2)] by metis
  then have "?k \<in> dom (entries c)" by blast
  then have nz: "?k \<noteq> []" using assms(3) by metis
  then have d: "dom (entries (evict ks c)) = dom (entries c) - {?k}"
    by (simp add: evict_def Let_def)
  have fin: "finite (dom (entries c))" using assms(1) by (rule iterates_finite)
  show "Suc (size_of (evict ks c)) = size_of c"
    unfolding size_of_def d using card_Suc_Diff1[OF fin \<open>?k \<in> dom (entries c)\<close>] .
  show "finite (dom (entries (evict ks c)))" "dom (entries (evict ks c)) \<subseteq> dom (entries c)"
    unfolding d using fin by auto
qed

lemma sized_Set:
  assumes "sized c" "iterates (entries c) ks" "key \<noteq> []"
  shows "sized (Set ks key value ttl now1 now2 c)"
proof -
  let ?c1 = "if maxSize c \<le> int (length ks) then evict ks c else c"
  have len: "length ks = size_of c" using iterates_length[OF assms(2)] by (simp add: size_of_def)
  have "finite (dom (entries ?c1)) \<and> [] \<notin> dom (entries ?c1) \<and> int (Suc (size_of ?c1)) \<le> max 1 (maxSize c)"
  proof (cases "maxSize c \<le> int (length ks) \<and> ks \<noteq> []")
    case True
    with evict_size[OF assms(2), of] assms(1) show ?thesis by (auto simp: sized_def)
  next
    case False
    have "evict [] c = c" by (simp add: evict_def)
    with False assms(1) len show ?thesis by (auto simp: sized_def)
  qed
  moreover have "dom (entries (Set ks key value ttl now1 now2 c)) = insert key (dom (entries ?c1))"
    by (simp add: Set_def Let_def)
  moreover have "maxSize (Set ks key value ttl now1 now2 c) = maxSize c" by (simp add: Set_def Let_def)
  ultimately show ?thesis using assms(3)
    by (auto simp: sized_def size_of_def card_insert_if)
qed

lemma sized_shrink:
  assumes "sized c" "dom (entries c') \<subseteq> dom (entries c)" "maxSize c' = maxSize c"
  shows "sized c'"
proof -
  have "card (dom (entries c')) \<le> card (dom (entries c))"
    using assms(1,2) by (intro card_mono) (auto simp: sized_def)
  then show ?thesis using assms by (auto simp: sized_def size_of_def intro: finite_subset)
qed

fun op_key_ok :: "cache_op \<Rightarrow> bool" where
  "op_key_ok (OpSet ks key value ttl now1 now2) = (key \<noteq> [])"
| "op_key_ok _ = True"

lemma sized_step:
  assumes "sized c" "op_ok op c" "op_key_ok op"
  shows "sized (cache_step op c)"
proof (cases op)
  case (OpSet ks key v ttl now1 now2)
  then show ?thesis using assms sized_Set by auto
next
  case (OpGet key now)
  have "dom (entries (snd (Get key now c))) \<subseteq> dom (entries c)"
    by (auto simp: Get_cases miss_def Delete_def split: option.splits if_splits)
  with assms(1) OpGet show ?thesis using sized_shrink step_frame(2)[of op c] by auto
next
  case (OpCleanup now ks)
  have "dom (entries (cleanup now ks c)) \<subseteq> dom (entries c)" by (auto dest: cleanup_entries)
  with assms(1) OpCleanup show ?thesis using sized_shrink by auto
next
  case (OpDelete key)
  with assms(1) show ?thesis using sized_shrink[of c "Delete key c"] by (auto simp: Delete_def)
next
  case OpClear
  with assms(1) show ?thesis using sized_shrink[of c "Clear c"] by (auto simp: Clear_def)
qed

section \<open>Properties\<close>

text \<open>C8. The cache refines its abstract specification: after any history of operations and
  evictions, a hit returns exactly the value of the last \<open>Set\<close> of that key, not deleted or
  cleared since, and only up to that value's own expiry.\<close>

theorem cache_hit_is_last_set:
  assumes "fst (Get key now (run_cache ops (NewCache config))) = (v, True)"
  shows "\<exists>expiry. fold (promise (cc_DefaultTTL config)) ops Map.empty key = Some (v, expiry) \<and> now \<le> expiry"
proof -
  have "honest Map.empty (NewCache config)" by (simp add: honest_def NewCache_def)
  from honest_run[OF this, of ops]
  have "honest (fold (promise (cc_DefaultTTL config)) ops Map.empty) (run_cache ops (NewCache config))"
    by (simp add: NewCache_def)
  with assms show ?thesis by (auto simp: honest_def Get_cases split: option.splits if_splits)
qed

theorem cache_hit_is_last_set_witness:
  "fst (Get ''k'' 25 (run_cache [OpSet [] ''k'' [1] 0 10 11, OpSet [''k''] ''k'' [2] 15 20 21]
     (NewCache \<lparr>cc_MaxSize = 9, cc_DefaultTTL = 100, cc_Strategy = ''ttl''\<rparr>))) = ([2], True)
   \<and> (\<exists>expiry. fold (promise 100) [OpSet [] ''k'' [1] 0 10 11, OpSet [''k''] ''k'' [2] 15 20 21] Map.empty ''k''
       = Some ([2], expiry) \<and> 25 \<le> expiry)"
proof -
  let ?ops = "[OpSet [] ''k'' [1] 0 10 11, OpSet [''k''] ''k'' [2] 15 20 21]"
  let ?cfg = "\<lparr>cc_MaxSize = 9, cc_DefaultTTL = 100, cc_Strategy = ''ttl''\<rparr>"
  have h: "fst (Get ''k'' 25 (run_cache ?ops (NewCache ?cfg))) = ([2], True)"
    by (simp add: Get_cases Set_def NewCache_def Let_def)
  from cache_hit_is_last_set[OF h] h show ?thesis by simp
qed

text \<open>As long as no empty key is stored, the cache never holds more than \<open>maxSize\<close> entries
  (one, when \<open>maxSize\<close> is not positive), whatever order its loops take.\<close>

theorem cache_bounded:
  assumes "history_ok ops (NewCache config)" and "list_all op_key_ok ops"
  shows "int (size_of (run_cache ops (NewCache config))) \<le> max 1 (cc_MaxSize config)"
proof -
  have "sized c \<Longrightarrow> history_ok ops c \<Longrightarrow> list_all op_key_ok ops
      \<Longrightarrow> sized (run_cache ops c) \<and> maxSize (run_cache ops c) = maxSize c" for c
    by (induction ops arbitrary: c) (auto simp: sized_step)
  moreover have "sized (NewCache config)" by (simp add: sized_def NewCache_def size_of_def)
  ultimately have "sized (run_cache ops (NewCache config))
      \<and> maxSize (run_cache ops (NewCache config)) = maxSize (NewCache config)"
    using assms by blast
  then show ?thesis by (auto simp: sized_def NewCache_def)
qed

theorem cache_bounded_witness:
  "int (size_of (run_cache [OpSet [] ''a'' [] 5 1 1, OpSet [''a''] ''b'' [] 5 2 2]
     (NewCache \<lparr>cc_MaxSize = 1, cc_DefaultTTL = 9, cc_Strategy = ''lru''\<rparr>))) \<le> 1"
proof -
  let ?cfg = "\<lparr>cc_MaxSize = 1, cc_DefaultTTL = 9, cc_Strategy = ''lru''\<rparr>"
  have "history_ok [OpSet [] ''a'' [] 5 1 1, OpSet [''a''] ''b'' [] 5 2 2] (NewCache ?cfg)"
    by (simp add: NewCache_def Set_def evict_def iterates_def Let_def)
  from cache_bounded[OF this] show ?thesis by simp
qed

text \<open>At capacity \<open>Set\<close> drops exactly one entry before it stores the new one, and it is
  one created no later than any other: first in, first out, not least recently used.\<close>

theorem cache_evicts_oldest:
  assumes "iterates (entries c) ks" and "ks \<noteq> []" and "[] \<notin> dom (entries c)"
  shows "\<exists>k e. entries c k = Some e \<and> (\<forall>k' e'. entries c k' = Some e' \<longrightarrow> ce_CreatedAt e \<le> ce_CreatedAt e')
    \<and> entries (evict ks c) = (entries c)(k := None)"
proof -
  from oldest_key[OF assms(1,2)] obtain e where
    e: "entries c (snd (oldest_entry (entries c) ks (None, []))) = Some e"
      "\<forall>k' e'. entries c k' = Some e' \<longrightarrow> ce_CreatedAt e \<le> ce_CreatedAt e'" by blast
  then have "snd (oldest_entry (entries c) ks (None, [])) \<noteq> []" using assms(3) by (metis domI)
  then have "entries (evict ks c) = (entries c)(snd (oldest_entry (entries c) ks (None, [])) := None)"
    by (simp add: evict_def Let_def)
  with e show ?thesis by blast
qed

theorem cache_evicts_oldest_witness:
  "\<exists>k. entries (evict [''b'', ''a''] (NewCache DefaultCacheConfig\<lparr>entries :=
      [''a'' \<mapsto> \<lparr>ce_Key = ''a'', ce_Value = [], ce_ExpiresAt = 9, ce_CreatedAt = 1, ce_HitCount = 7\<rparr>,
       ''b'' \<mapsto> \<lparr>ce_Key = ''b'', ce_Value = [], ce_ExpiresAt = 9, ce_CreatedAt = 2, ce_HitCount = 0\<rparr>]\<rparr>)) k = None
    \<and> k \<noteq> ''b''"
proof -
  let ?c = "NewCache DefaultCacheConfig\<lparr>entries :=
      [''a'' \<mapsto> \<lparr>ce_Key = ''a'', ce_Value = [], ce_ExpiresAt = 9, ce_CreatedAt = 1, ce_HitCount = 7\<rparr>,
       ''b'' \<mapsto> \<lparr>ce_Key = ''b'', ce_Value = [], ce_ExpiresAt = 9, ce_CreatedAt = 2, ce_HitCount = 0\<rparr>]\<rparr>"
  have "iterates (entries ?c) [''b'', ''a'']" "[] \<notin> dom (entries ?c)" by (auto simp: iterates_def)
  from cache_evicts_oldest[OF this(1) _ this(2)] obtain k e where
    "entries ?c k = Some e" "\<forall>k' e'. entries ?c k' = Some e' \<longrightarrow> ce_CreatedAt e \<le> ce_CreatedAt e'"
    "entries (evict [''b'', ''a''] ?c) = (entries ?c)(k := None)" by blast
  moreover have "k \<noteq> ''b''"
  proof
    assume "k = ''b''"
    with \<open>entries ?c k = Some e\<close> have "ce_CreatedAt e = 2" by auto
    moreover have "entries ?c ''a'' = Some \<lparr>ce_Key = ''a'', ce_Value = [], ce_ExpiresAt = 9, ce_CreatedAt = 1, ce_HitCount = 7\<rparr>"
      by simp
    ultimately show False using \<open>\<forall>k' e'. entries ?c k' = Some e' \<longrightarrow> ce_CreatedAt e \<le> ce_CreatedAt e'\<close> by fastforce
  qed
  ultimately show ?thesis by (metis fun_upd_same)
qed

text \<open>An entry stored under the empty key disables eviction for good once it is the oldest:
  from then on every \<open>Set\<close> of a new key makes the cache grow, past any \<open>maxSize\<close>.\<close>

theorem cache_empty_key_unbounded:
  assumes "iterates (entries c) ks" and "entries c [] = Some e0"
    and "\<forall>k e. entries c k = Some e \<longrightarrow> k = [] \<or> ce_CreatedAt e0 < ce_CreatedAt e"
    and "entries c key = None" and "ce_CreatedAt e0 < now2"
  shows "size_of (Set ks key value ttl now1 now2 c) = Suc (size_of c)
    \<and> entries (Set ks key value ttl now1 now2 c) [] = Some e0
    \<and> (\<forall>k e. entries (Set ks key value ttl now1 now2 c) k = Some e \<longrightarrow> k = [] \<or> ce_CreatedAt e0 < ce_CreatedAt e)"
proof -
  have "ks \<noteq> []" using assms(1,2) by (auto simp: iterates_def)
  then obtain e where e: "entries c (snd (oldest_entry (entries c) ks (None, []))) = Some e"
      "\<forall>k' e'. entries c k' = Some e' \<longrightarrow> ce_CreatedAt e \<le> ce_CreatedAt e'"
    using oldest_key[OF assms(1)] by blast
  then have "snd (oldest_entry (entries c) ks (None, [])) = []" using assms(2,3) by (metis not_less)
  then have "evict ks c = c" by (simp add: evict_def Let_def)
  then have s: "entries (Set ks key value ttl now1 now2 c) = (entries c)(key \<mapsto>
      \<lparr>ce_Key = key, ce_Value = value, ce_ExpiresAt = now1 + (if ttl = 0 then defaultTTL c else ttl),
       ce_CreatedAt = now2, ce_HitCount = 0\<rparr>)" by (auto simp: Set_def Let_def)
  have "finite (dom (entries c))" using assms(1) by (rule iterates_finite)
  moreover have "key \<notin> dom (entries c)" "key \<noteq> []" using assms(2,4) by auto
  ultimately show ?thesis using assms(2,3,5) by (auto simp: s size_of_def)
qed

theorem cache_empty_key_unbounded_witness:
  "size_of (Set [''''] ''a'' [] 5 2 2 (Set [] '''' [] 5 1 1
     (NewCache \<lparr>cc_MaxSize = 1, cc_DefaultTTL = 9, cc_Strategy = ''lru''\<rparr>))) = Suc 1"
proof -
  let ?c = "Set [] '''' [] 5 1 1 (NewCache \<lparr>cc_MaxSize = 1, cc_DefaultTTL = 9, cc_Strategy = ''lru''\<rparr>)"
  have e: "entries ?c = ['''' \<mapsto> \<lparr>ce_Key = '''', ce_Value = [], ce_ExpiresAt = 6, ce_CreatedAt = 1, ce_HitCount = 0\<rparr>]"
    by (simp add: Set_def NewCache_def Let_def)
  have "size_of ?c = 1" by (simp add: size_of_def e)
  with cache_empty_key_unbounded[of ?c "['''']" _ "''a''" 2 "[]" 5 2] e show ?thesis
    by (simp add: iterates_def)
qed

text \<open>The hit rate of the statistics is a percentage: between 0 and 100 whenever the two
  counters are not negative and their sum does not overflow.\<close>

theorem cache_hit_rate_percentage:
  assumes "0 \<le> cs_Hits (stats c)" and "0 \<le> cs_Misses (stats c)"
    and "cs_Hits (stats c) + cs_Misses (stats c) \<le> max_i64"
    and "0 < cs_Hits (stats c) + cs_Misses (stats c)"
  shows "f64_in 0 100 (cs_HitRate (Stats ks c))"
proof -
  let ?n = "cs_Hits (stats c) + cs_Misses (stats c)"
  have "f64_in 0 1 (f64_div (f64_of_int (cs_Hits (stats c))) (f64_of_int ?n))"
    using assms by (intro f64_ratio_in) auto
  moreover have "f64_in 100 100 (f64_lit 100)" by (rule f64_in_lit) auto
  ultimately have "f64_in (0 * 100) (1 * 100) (f64_mul (f64_div (f64_of_int (cs_Hits (stats c))) (f64_of_int ?n)) (f64_lit 100))"
    by (rule f64_in_mul) auto
  then show ?thesis using assms by (simp add: Stats_def Let_def)
qed

theorem cache_hit_rate_percentage_witness:
  "f64_in 0 100 (cs_HitRate (Stats [] (NewCache DefaultCacheConfig\<lparr>stats := zero_stats\<lparr>cs_Hits := 1, cs_Misses := 2\<rparr>\<rparr>)))"
  by (rule cache_hit_rate_percentage) (simp_all add: zero_stats_def)

end
