(* ===== verification/Calendar.thy ===== *)
theory Calendar
  imports Prelude
begin

text \<open>
  The civil calendar of Go's \<open>time\<close> package as the billing code uses it: the date of a day
  number and back, and \<open>Time.AddDate\<close>, which adds to the fields of a date and normalises, in
  a location of fixed offset from UTC. Day 0 is January 1 of 1970; years are proleptic
  Gregorian.
\<close>

section \<open>Years and months\<close>

definition is_leap :: "int \<Rightarrow> bool" where
  "is_leap y \<longleftrightarrow> y mod 4 = 0 \<and> (y mod 100 \<noteq> 0 \<or> y mod 400 = 0)"

text \<open>Days from January 1 of year 0 to January 1 of year \<open>y\<close>.\<close>

definition year_start :: "int \<Rightarrow> int" where
  "year_start y = 365 * y + ((y - 1) div 4 + 1) - ((y - 1) div 100 + 1) + ((y - 1) div 400 + 1)"

definition month_lengths :: "bool \<Rightarrow> int list" where
  "month_lengths leap = [31, if leap then 29 else 28, 31, 30, 31, 30, 31, 31, 30, 31, 30, 31]"

definition month_start :: "bool \<Rightarrow> int \<Rightarrow> int" where
  "month_start leap m = sum_list (take (nat (m - 1)) (month_lengths leap))"

text \<open>The day number of a date whose month and day may be out of range.\<close>

definition day_number :: "int \<Rightarrow> int \<Rightarrow> int \<Rightarrow> int" where
  "day_number y m d = (let y' = y + (m - 1) div 12; m' = (m - 1) mod 12 + 1
     in year_start y' + month_start (is_leap y') m' + d - 1 - 719528)"

definition year_of :: "int \<Rightarrow> int" where
  "year_of k = (let e = 400 * k div 146097 in
     if k < year_start e then e - 1 else if year_start (e + 1) \<le> k then e + 1 else e)"

definition month_of :: "bool \<Rightarrow> int \<Rightarrow> int" where
  "month_of leap r = int (length (filter (\<lambda>m. month_start leap m \<le> r) [1..12]))"

definition civil :: "int \<Rightarrow> int \<times> int \<times> int" where
  "civil n = (let k = n + 719528; y = year_of k; r = k - year_start y; m = month_of (is_leap y) r
     in (y, m, r - month_start (is_leap y) m + 1))"

definition AddDate :: "duration \<Rightarrow> int \<Rightarrow> int \<Rightarrow> int \<Rightarrow> time \<Rightarrow> time" where
  "AddDate off years months days t =
     (let local = t + off in
      case civil (local div day) of (y, m, d) \<Rightarrow>
        day_number (y + years) (m + months) (d + days) * day + local mod day - off)"

lemma div_pred: "0 < c \<Longrightarrow> (y :: int) div c = (y - 1) div c + (if y mod c = 0 then 1 else 0)"
proof -
  assume c: "0 < c"
  let ?q = "y div c" and ?r = "y mod c"
  have y: "y = c * ?q + ?r" "0 \<le> ?r" "?r < c" using c by simp_all
  show ?thesis
  proof (cases "?r = 0")
    case True
    then have "y - 1 = c * (?q - 1) + (c - 1)" using y(1) by (simp add: right_diff_distrib)
    then have "(y - 1) div c = ?q - 1" by (rule int_div_pos_eq) (use c in auto)
    then show ?thesis using True by simp
  next
    case False
    then have "y - 1 = c * ?q + (?r - 1)" "0 \<le> ?r - 1" "?r - 1 < c" using y by auto
    then have "(y - 1) div c = ?q" by (rule int_div_pos_eq)
    then show ?thesis using False by simp
  qed
qed

lemma mod_dvd_0: "(c :: int) dvd d \<Longrightarrow> y mod d = 0 \<Longrightarrow> y mod c = 0"
  by (meson dvd_trans mod_eq_0_iff_dvd)

lemma year_start_Suc: "year_start (y + 1) = year_start y + (if is_leap y then 366 else 365)"
proof -
  have a: "y mod 100 = 0 \<Longrightarrow> y mod 4 = 0" "y mod 400 = 0 \<Longrightarrow> y mod 100 = 0" by (rule mod_dvd_0, simp_all)+
  have e: "365 * (y + 1) + (A + (if p then 1 else 0) + 1) - (B + (if q then 1 else 0) + 1) + (C + (if r then 1 else 0) + 1)
      = 365 * y + (A + 1) - (B + 1) + (C + 1) + (if p \<and> (\<not> q \<or> r) then 366 else 365)"
    if "q \<Longrightarrow> p" "r \<Longrightarrow> q" for A B C :: int and p q r
    using that by (cases p; cases q; cases r) simp_all
  have y: "y + 1 - 1 = y" by simp
  show ?thesis
    unfolding year_start_def y is_leap_def div_pred[of 4 y, OF zero_less_numeral] div_pred[of 100 y, OF zero_less_numeral]
      div_pred[of 400 y, OF zero_less_numeral]
    by (rule e[OF a])
qed

lemma div_bounds:
  assumes "0 < (c :: int)"
  obtains q where "x div c = q" "c * q \<le> x" "x < c * q + c"
proof (rule that[OF refl])
  have x: "x = c * (x div c) + x mod c" by simp
  have m: "0 \<le> x mod c" "x mod c < c" using assms by simp_all
  show "c * (x div c) \<le> x" using x m by linarith
  show "x < c * (x div c) + c" using x m by linarith
qed

lemma year_start_bounds: "146097 * y - 396 \<le> 400 * year_start y" "400 * year_start y \<le> 146097 * y + 699"
proof -
  obtain a where a: "(y - 1) div 4 = a" "4 * a \<le> y - 1" "y - 1 < 4 * a + 4" by (rule div_bounds[of 4 "y - 1"]) auto
  obtain b where b: "(y - 1) div 100 = b" "100 * b \<le> y - 1" "y - 1 < 100 * b + 100" by (rule div_bounds[of 100 "y - 1"]) auto
  obtain c where c: "(y - 1) div 400 = c" "400 * c \<le> y - 1" "y - 1 < 400 * c + 400" by (rule div_bounds[of 400 "y - 1"]) auto
  have "year_start y = 365 * y + a + 1 - b - 1 + c + 1" by (simp add: year_start_def a b c)
  then show "146097 * y - 396 \<le> 400 * year_start y" "400 * year_start y \<le> 146097 * y + 699"
    using a(2,3) b(2,3) c(2,3) by linarith+
qed

lemma year_of_bounds: "year_start (year_of k) \<le> k" "k < year_start (year_of k + 1)"
proof -
  obtain e where e: "400 * k div 146097 = e" "146097 * e \<le> 400 * k" "400 * k < 146097 * e + 146097"
    by (rule div_bounds[of 146097 "400 * k"]) auto
  have "year_start (e - 1) \<le> k" using e(2) year_start_bounds(2)[of "e - 1"] by simp
  moreover have "k < year_start (e + 2)" using e(3) year_start_bounds(1)[of "e + 2"] by simp
  ultimately show "year_start (year_of k) \<le> k" "k < year_start (year_of k + 1)"
    by (auto simp: year_of_def Let_def e(1) add.assoc)
qed

lemma upto_12: "[1..12] = [1, 2, 3, 4, 5, 6, 7, 8, 9, 10, 11, 12 :: int]"
  by (simp add: upto_rec1)

lemma month_starts:
  "month_start l 1 = 0" "month_start l 2 = 31" "month_start l 3 = (if l then 60 else 59)" "month_start l 4 = (if l then 91 else 90)"
  "month_start l 5 = (if l then 121 else 120)" "month_start l 6 = (if l then 152 else 151)" "month_start l 7 = (if l then 182 else 181)"
  "month_start l 8 = (if l then 213 else 212)" "month_start l 9 = (if l then 244 else 243)" "month_start l 10 = (if l then 274 else 273)"
  "month_start l 11 = (if l then 305 else 304)" "month_start l 12 = (if l then 335 else 334)"
  by (simp_all add: month_start_def month_lengths_def)

lemma month_of_bounds:
  assumes "0 \<le> r" "r < (if l then 366 else 365)"
  shows "1 \<le> month_of l r" "month_of l r \<le> 12" "month_start l (month_of l r) \<le> r"
    "r < month_start l (month_of l r) + month_lengths l ! nat (month_of l r - 1)"
  using assms by (cases l; auto simp: month_of_def upto_12 month_starts month_lengths_def)+

text \<open>The day number of a date undoes \<open>civil\<close>, whose date is a proper one.\<close>

lemma civil_date:
  assumes "civil n = (y, m, d)"
  shows "day_number y m d = n" "1 \<le> m" "m \<le> 12" "1 \<le> d" "d \<le> month_lengths (is_leap y) ! nat (m - 1)"
proof -
  let ?k = "n + 719528"
  have y: "y = year_of ?k" and m: "m = month_of (is_leap y) (?k - year_start y)"
    and d: "d = ?k - year_start y - month_start (is_leap y) m + 1"
    using assms by (auto simp: civil_def Let_def)
  have r: "0 \<le> ?k - year_start y" "?k - year_start y < (if is_leap y then 366 else 365)"
    using year_of_bounds[of ?k] year_start_Suc[of y] by (auto simp: y)
  note b = month_of_bounds[OF r, folded m]
  show "1 \<le> m" "m \<le> 12" by (rule b(1,2))+
  show "1 \<le> d" "d \<le> month_lengths (is_leap y) ! nat (m - 1)" using b(3,4) by (auto simp: d)
  have "(m - 1) div 12 = 0" "(m - 1) mod 12 + 1 = m" using b(1,2) by auto
  then show "day_number y m d = n" by (simp add: day_number_def d)
qed

section \<open>Adding to a date\<close>

text \<open>The first day of month \<open>i\<close>, months being counted from January of year 0.\<close>

definition month_first :: "int \<Rightarrow> int" where
  "month_first i = year_start (i div 12) + month_start (is_leap (i div 12)) (i mod 12 + 1) - 719528"

lemma day_number_month: "day_number y m d = month_first (12 * y + m - 1) + d - 1"
proof -
  have i: "12 * y + m - 1 = (m - 1) + y * 12" by simp
  have "(12 * y + m - 1) div 12 = y + (m - 1) div 12" "(12 * y + m - 1) mod 12 = (m - 1) mod 12"
    unfolding i by simp_all
  then show ?thesis by (simp add: day_number_def month_first_def Let_def)
qed

lemma mod12_cases:
  fixes i :: int
  obtains "i mod 12 < 11" "(i + 1) div 12 = i div 12" "(i + 1) mod 12 = i mod 12 + 1"
    | "i mod 12 = 11" "(i + 1) div 12 = i div 12 + 1" "(i + 1) mod 12 = 0"
proof -
  have i: "i = 12 * (i div 12) + i mod 12" by simp
  have m: "0 \<le> i mod 12" "i mod 12 < 12" by simp_all
  show thesis
  proof (cases "i mod 12 = 11")
    case True
    then have "i + 1 = 12 * (i div 12 + 1) + 0" using i unfolding distrib_left by linarith
    then have "(i + 1) div 12 = i div 12 + 1" "(i + 1) mod 12 = 0" by (rule int_div_pos_eq, simp_all, rule int_mod_pos_eq) simp_all
    then show ?thesis using True by (intro that(2))
  next
    case False
    then have "i + 1 = 12 * (i div 12) + (i mod 12 + 1)" "i mod 12 < 11" using i m by linarith+
    then have "(i + 1) div 12 = i div 12" "(i + 1) mod 12 = i mod 12 + 1"
      using m by (intro int_div_pos_eq[of _ _ _ "i mod 12 + 1"] int_mod_pos_eq[of _ _ "i div 12"]; linarith)+
    then show ?thesis using \<open>i mod 12 < 11\<close> by (intro that(1))
  qed
qed

lemma mod12_set: "i mod 12 \<in> {0, 1, 2, 3, 4, 5, 6, 7, 8, 9, 10, 11 :: int}"
proof -
  have "i mod 12 \<in> set [0..11]" by simp
  then show ?thesis by (simp add: upto_rec1)
qed

lemma month_first_Suc: "month_first (i + 1) = month_first i + month_lengths (is_leap (i div 12)) ! nat (i mod 12)"
proof (cases rule: mod12_cases[of i])
  case 1
  then have m: "i mod 12 \<in> {0, 1, 2, 3, 4, 5, 6, 7, 8, 9, 10}" using mod12_set[of i] by auto
  have "month_start l (x + 1 + 1) = month_start l (x + 1) + month_lengths l ! nat x"
    if "x \<in> {0, 1, 2, 3, 4, 5, 6, 7, 8, 9, 10}" for x l
    using that by (auto simp: month_starts month_lengths_def)
  from this[OF m] show ?thesis using 1 by (simp add: month_first_def)
next
  case 2
  then show ?thesis
    by (simp add: month_first_def year_start_Suc month_starts month_lengths_def)
qed

lemma month_lengths_bounds:
  "28 \<le> month_lengths l ! nat (i mod 12)" "month_lengths l ! nat (i mod 12) \<le> 31"
  using mod12_set[of i] by (auto simp: month_lengths_def)

lemma month_first_add: "28 * int k \<le> month_first (i + int k) - month_first i \<and> month_first (i + int k) - month_first i \<le> 31 * int k"
proof (induction k)
  case (Suc k)
  have "month_first (i + int k + 1) = month_first (i + int k) + month_lengths (is_leap ((i + int k) div 12)) ! nat ((i + int k) mod 12)"
    by (rule month_first_Suc)
  then show ?case using Suc month_lengths_bounds[of "is_leap ((i + int k) div 12)" "i + int k"]
    by (simp add: add.assoc add.commute[of 1])
qed simp

lemma day_pos [simp]: "0 < day"
  by (simp add: go_simps)

text \<open>Adding days moves by exactly those days, adding months by 28 to 31 days for each of them.\<close>

lemma AddDate_days: "AddDate off 0 0 n t = t + n * day"
proof -
  obtain y m d where c: "civil ((t + off) div day) = (y, m, d)" by (cases "civil ((t + off) div day)")
  have "day_number y m (d + n) = (t + off) div day + n" using civil_date(1)[OF c] by (simp add: day_number_def Let_def)
  moreover have "(t + off) div day * day + (t + off) mod day = t + off" by simp
  ultimately show ?thesis by (simp only: AddDate_def c Let_def prod.case) (simp add: algebra_simps)
qed

lemma AddDate_months:
  assumes "0 \<le> years" "0 \<le> months"
  shows "28 * (12 * years + months) * day \<le> AddDate off years months 0 t - t
    \<and> AddDate off years months 0 t - t \<le> 31 * (12 * years + months) * day"
proof -
  obtain y m d where c: "civil ((t + off) div day) = (y, m, d)" by (cases "civil ((t + off) div day)")
  define k where "k = nat (12 * years + months)"
  have k: "int k = 12 * years + months" using assms by (simp add: k_def)
  let ?D = "day_number (y + years) (m + months) d - day_number y m d"
  have "?D = month_first (12 * y + m - 1 + int k) - month_first (12 * y + m - 1)"
    unfolding day_number_month k by (simp add: algebra_simps)
  then have D: "28 * int k \<le> ?D" "?D \<le> 31 * int k" using month_first_add[of k "12 * y + m - 1"] by simp_all
  have "(t + off) div day * day + (t + off) mod day = t + off" by simp
  then have "AddDate off years months 0 t - t = ?D * day"
    using civil_date(1)[OF c] by (simp only: AddDate_def c Let_def prod.case) (simp add: algebra_simps)
  moreover have "28 * int k * day \<le> ?D * day" "?D * day \<le> 31 * int k * day" using D less_imp_le[OF day_pos] by (auto intro: mult_right_mono)
  ultimately show ?thesis by (simp add: k mult.assoc)
qed

end
