(* ===== verification/Rate_Plan.thy ===== *)
theory Rate_Plan
  imports Go_Any
begin

text \<open>
  Rate plans and the pricing engine (\<open>apps/carrier-connector/internal/rateplan\<close>:
  \<open>types_core.go\<close>, \<open>types.go\<close>, \<open>types_extended.go\<close>, \<open>pricing_validate.go\<close>,
  \<open>price_calculation.go\<close>, \<open>pricing_engine.go\<close>): the validation of a plan, the cost of a
  subscription with its overage and discounts, and the recommended price. The repository the
  engine queries and the clock are arguments; warnings in the log are not modelled. Amounts
  are binary64.
\<close>

section \<open>Data\<close>

text \<open>A string type of the source with named constants is a datatype; \<open>...Other s\<close> is any other
  string.\<close>

datatype PlanType = PlanTypePrepaid | PlanTypePostpaid | PlanTypeHybrid | PlanTypePayAsYouGo | PlanTypeUnlimited
  | PlanTypeOther string

datatype PlanStatus = PlanStatusDraft | PlanStatusActive | PlanStatusInactive | PlanStatusArchived
  | PlanStatusOther string

datatype BillingCycle = BillingCycleDaily | BillingCycleWeekly | BillingCycleMonthly | BillingCycleQuarterly
  | BillingCycleYearly | BillingCycleOther string

datatype DataAllowanceType = DataAllowanceTypeDaily | DataAllowanceTypeMonthly | DataAllowanceTypeCycle
  | DataAllowanceTypeLifetime | DataAllowanceTypeOther string

record DataAllowance =
  da_Type :: DataAllowanceType
  da_Amount :: int
  da_Unit :: string
  da_Unlimited :: bool
  da_SpeedLimit :: "int option"

datatype VoiceAllowanceType = VoiceAllowanceTypeDaily | VoiceAllowanceTypeMonthly | VoiceAllowanceTypeCycle
  | VoiceAllowanceTypeUnlimited | VoiceAllowanceTypeOther string

record VoiceAllowance =
  va_Type :: VoiceAllowanceType
  va_Minutes :: int
  va_Unlimited :: bool
  va_Destinations :: "string list"

datatype SMSAllowanceType = SMSAllowanceTypeDaily | SMSAllowanceTypeMonthly | SMSAllowanceTypeCycle
  | SMSAllowanceTypeUnlimited | SMSAllowanceTypeOther string

record SMSAllowance =
  sa_Type :: SMSAllowanceType
  sa_Messages :: int
  sa_Unlimited :: bool
  sa_Destinations :: "string list"

record OverageRates =
  or_DataRate :: f64
  or_VoiceRate :: f64
  or_SMSRate :: f64
  or_Currency :: string

record PlanFeature =
  pf_Name :: string
  pf_Description :: string
  pf_Enabled :: bool
  pf_Config :: metadata

record EarlyTermination =
  et_Enabled :: bool
  et_FeeType :: string
  et_FeeAmount :: f64
  et_FeePercentage :: f64
  et_MinMonths :: int

datatype DiscountType = DiscountTypePercentage | DiscountTypeFixed | DiscountTypeRecurring | DiscountTypeOther string

record Discount =
  d_ID :: string
  d_Name :: string
  d_Type :: DiscountType
  d_Value :: f64
  d_ValidFrom :: time
  d_ValidTo :: "time option"
  d_Conditions :: string
  d_IsActive :: bool

text \<open>A nil slice of discounts is \<open>None\<close>; the code tells it from an empty one.\<close>

record RatePlan =
  rp_ID :: string
  rp_Name :: string
  rp_Description :: string
  rp_CarrierID :: string
  rp_Region :: string
  rp_PlanType :: PlanType
  rp_Status :: PlanStatus
  rp_BasePrice :: f64
  rp_Currency :: string
  rp_BillingCycle :: BillingCycle
  rp_DataAllowance :: "DataAllowance option"
  rp_VoiceAllowance :: "VoiceAllowance option"
  rp_SMSAllowance :: "SMSAllowance option"
  rp_OverageRates :: "OverageRates option"
  rp_Features :: "PlanFeature list"
  rp_ActivationFee :: f64
  rp_EarlyTermination :: "EarlyTermination option"
  rp_Discounts :: "Discount list option"
  rp_ValidFrom :: time
  rp_ValidTo :: "time option"
  rp_Priority :: int
  rp_IsActive :: bool
  rp_Metadata :: metadata
  rp_CreatedAt :: time
  rp_UpdatedAt :: time

record SubscribeRequest =
  sr_ProfileID :: string
  sr_RatePlanID :: string
  sr_AutoRenew :: bool
  sr_AppliedDiscounts :: "string list"
  sr_Metadata :: metadata

record CalculateCostRequest =
  cc_RatePlanID :: string
  cc_DataUsed :: int
  cc_VoiceUsed :: int
  cc_SMSUsed :: int
  cc_AppliedDiscounts :: "string list"

record CostItem =
  ci_Type :: string
  ci_Description :: string
  ci_Amount :: f64
  ci_Currency :: string

record CostBreakdown =
  cb_RatePlanID :: string
  cb_Currency :: string
  cb_TotalCost :: f64
  cb_Subtotal :: f64
  cb_DiscountTotal :: f64
  cb_BreakdownItems :: "CostItem list"
  cb_CalculatedAt :: time

record PriceOptimization =
  po_CurrentPrice :: f64
  po_MarketAverage :: f64
  po_RecommendedPrice :: f64
  po_PriceDifference :: f64
  po_CompetitorCount :: int
  po_OptimizedAt :: time

record RatePlanFilter =
  rf_CarrierID :: string
  rf_Region :: string
  rf_PlanType :: PlanType
  rf_Status :: PlanStatus
  rf_MinPrice :: f64
  rf_MaxPrice :: f64
  rf_IsActive :: "bool option"
  rf_ValidFrom :: "time option"
  rf_ValidTo :: "time option"
  rf_Limit :: int
  rf_Offset :: int
  rf_SortBy :: string
  rf_SortOrder :: string

datatype plan_error =
    NameRequired | CarrierRequired | RegionRequired | NegativeBasePrice | CurrencyRequired | CycleRequired
  | ValidFromRequired | ValidToBeforeFrom
  | DataAmountNotPositive | DataUnitRequired | VoiceMinutesNotPositive | SMSMessagesNotPositive
  | NegativeDataRate | NegativeVoiceRate | NegativeSMSRate | OverageCurrencyRequired
  | DiscountNameRequired | DiscountValueNotPositive | DiscountFromRequired | DiscountToBeforeFrom
  | FeeTypeRequired | FeeAmountNotPositive | FeePercentageOutOfRange
  | NoDiscountsForPlan | DiscountNotActive string | DiscountNotValid string | DiscountNotFound string
  | PlanNotFound string | PlanNotAvailable | PlanNotYetAvailable | PlanExpired
  | SimilarPlansFailed string

section \<open>Validation\<close>

definition validateBasicFields :: "RatePlan \<Rightarrow> plan_error option" where
  "validateBasicFields plan =
     (if rp_Name plan = '''' then Some NameRequired
      else if rp_CarrierID plan = '''' then Some CarrierRequired
      else if rp_Region plan = '''' then Some RegionRequired
      else if f64_lt (rp_BasePrice plan) (f64_lit 0) then Some NegativeBasePrice
      else if rp_Currency plan = '''' then Some CurrencyRequired
      else if rp_BillingCycle plan = BillingCycleOther '''' then Some CycleRequired
      else None)"

definition validateDates :: "RatePlan \<Rightarrow> plan_error option" where
  "validateDates plan =
     (if rp_ValidFrom plan = zero_time then Some ValidFromRequired
      else case rp_ValidTo plan of
          Some to \<Rightarrow> if to < rp_ValidFrom plan then Some ValidToBeforeFrom else None
        | None \<Rightarrow> None)"

text \<open>Checks in sequence: the first error is returned.\<close>

fun first_error :: "'e option list \<Rightarrow> 'e option" where
  "first_error [] = None"
| "first_error (Some e # cs) = Some e"
| "first_error (None # cs) = first_error cs"

definition check_opt :: "('a \<Rightarrow> 'e option) \<Rightarrow> 'a option \<Rightarrow> 'e option" where
  "check_opt f p = (case p of None \<Rightarrow> None | Some x \<Rightarrow> f x)"

definition validateAllowances :: "RatePlan \<Rightarrow> plan_error option" where
  "validateAllowances plan = first_error [
     check_opt (\<lambda>a. if da_Amount a \<le> 0 \<and> \<not> da_Unlimited a then Some DataAmountNotPositive
                    else if da_Unit a = '''' then Some DataUnitRequired else None) (rp_DataAllowance plan),
     check_opt (\<lambda>a. if va_Minutes a \<le> 0 \<and> \<not> va_Unlimited a then Some VoiceMinutesNotPositive else None) (rp_VoiceAllowance plan),
     check_opt (\<lambda>a. if sa_Messages a \<le> 0 \<and> \<not> sa_Unlimited a then Some SMSMessagesNotPositive else None) (rp_SMSAllowance plan)]"

definition validateOverageRates :: "RatePlan \<Rightarrow> plan_error option" where
  "validateOverageRates plan = check_opt (\<lambda>r.
     if f64_lt (or_DataRate r) (f64_lit 0) then Some NegativeDataRate
     else if f64_lt (or_VoiceRate r) (f64_lit 0) then Some NegativeVoiceRate
     else if f64_lt (or_SMSRate r) (f64_lit 0) then Some NegativeSMSRate
     else if or_Currency r = '''' then Some OverageCurrencyRequired
     else None) (rp_OverageRates plan)"

definition validateDiscount :: "Discount \<Rightarrow> plan_error option" where
  "validateDiscount d =
     (if d_Name d = '''' then Some DiscountNameRequired
      else if f64_le (d_Value d) (f64_lit 0) then Some DiscountValueNotPositive
      else if d_ValidFrom d = zero_time then Some DiscountFromRequired
      else case d_ValidTo d of
          Some to \<Rightarrow> if to < d_ValidFrom d then Some DiscountToBeforeFrom else None
        | None \<Rightarrow> None)"

definition validateDiscounts :: "RatePlan \<Rightarrow> plan_error option" where
  "validateDiscounts plan = check_opt (\<lambda>ds. first_error (map validateDiscount ds)) (rp_Discounts plan)"

definition validateEarlyTermination :: "RatePlan \<Rightarrow> plan_error option" where
  "validateEarlyTermination plan = check_opt (\<lambda>t.
     if et_Enabled t then
       (if et_FeeType t = '''' then Some FeeTypeRequired
        else if et_FeeType t = ''fixed'' \<and> f64_le (et_FeeAmount t) (f64_lit 0) then Some FeeAmountNotPositive
        else if et_FeeType t = ''percentage'' \<and> (f64_le (et_FeePercentage t) (f64_lit 0) \<or> f64_gt (et_FeePercentage t) (f64_lit 100))
        then Some FeePercentageOutOfRange
        else None)
     else None) (rp_EarlyTermination plan)"

definition ValidateRatePlan :: "RatePlan \<Rightarrow> plan_error option" where
  "ValidateRatePlan plan = first_error [validateBasicFields plan, validateDates plan, validateAllowances plan,
     validateOverageRates plan, validateDiscounts plan, validateEarlyTermination plan]"

text \<open>\<open>now\<close> is the clock reading at each discount; the first discount of the identifier decides.\<close>

fun find_discount :: "string \<Rightarrow> Discount list \<Rightarrow> Discount option" where
  "find_discount discountID [] = None"
| "find_discount discountID (d # ds) = (if d_ID d = discountID then Some d else find_discount discountID ds)"

definition check_discount :: "time \<Rightarrow> Discount list \<Rightarrow> string \<Rightarrow> plan_error option" where
  "check_discount now ds discountID =
     (case find_discount discountID ds of
        None \<Rightarrow> Some (DiscountNotFound discountID)
      | Some d \<Rightarrow>
          if \<not> d_IsActive d then Some (DiscountNotActive discountID)
          else if now < d_ValidFrom d \<or> (case d_ValidTo d of None \<Rightarrow> False | Some to \<Rightarrow> to < now)
          then Some (DiscountNotValid discountID)
          else None)"

definition validateSubscriptionDiscounts :: "(string \<Rightarrow> time) \<Rightarrow> RatePlan \<Rightarrow> string list \<Rightarrow> plan_error option" where
  "validateSubscriptionDiscounts now plan discountIDs =
     (case rp_Discounts plan of
        None \<Rightarrow> Some NoDiscountsForPlan
      | Some ds \<Rightarrow> first_error (map (\<lambda>i. check_discount (now i) ds i) discountIDs))"

definition ValidateSubscription ::
  "(string \<Rightarrow> string + RatePlan) \<Rightarrow> time \<Rightarrow> (string \<Rightarrow> time) \<Rightarrow> SubscribeRequest \<Rightarrow> plan_error option" where
  "ValidateSubscription getRatePlan now now_d req =
     (case getRatePlan (sr_RatePlanID req) of
        Inl err \<Rightarrow> Some (PlanNotFound err)
      | Inr plan \<Rightarrow>
          if \<not> rp_IsActive plan \<or> rp_Status plan \<noteq> PlanStatusActive then Some PlanNotAvailable
          else if now < rp_ValidFrom plan then Some PlanNotYetAvailable
          else if (case rp_ValidTo plan of None \<Rightarrow> False | Some to \<Rightarrow> to < now) then Some PlanExpired
          else if sr_AppliedDiscounts req \<noteq> [] then validateSubscriptionDiscounts now_d plan (sr_AppliedDiscounts req)
          else None)"

section \<open>Prices\<close>

definition allowance_mb :: "DataAllowance \<Rightarrow> int" where
  "allowance_mb a = (if da_Unit a = ''GB'' then i64 (da_Amount a * 1024) else da_Amount a)"

text \<open>The common end of the three overage calculations: nothing up to the allowance, then the rate for
  each unit above it.\<close>

definition overage :: "int \<Rightarrow> int \<Rightarrow> f64 \<Rightarrow> f64" where
  "overage used allowance rate =
     (if used \<le> allowance then f64_lit 0 else f64_mul (f64_of_int (i64 (used - allowance))) rate)"

definition calculateDataOverage :: "RatePlan \<Rightarrow> int \<Rightarrow> f64" where
  "calculateDataOverage plan dataUsed =
     (case (rp_DataAllowance plan, rp_OverageRates plan) of
        (Some a, Some r) \<Rightarrow> if da_Unlimited a then f64_lit 0 else overage dataUsed (allowance_mb a) (or_DataRate r)
      | _ \<Rightarrow> f64_lit 0)"

definition calculateVoiceOverage :: "RatePlan \<Rightarrow> int \<Rightarrow> f64" where
  "calculateVoiceOverage plan voiceUsed =
     (case (rp_VoiceAllowance plan, rp_OverageRates plan) of
        (Some a, Some r) \<Rightarrow> if va_Unlimited a then f64_lit 0 else overage voiceUsed (va_Minutes a) (or_VoiceRate r)
      | _ \<Rightarrow> f64_lit 0)"

definition calculateSMSOverage :: "RatePlan \<Rightarrow> int \<Rightarrow> f64" where
  "calculateSMSOverage plan smsUsed =
     (case (rp_SMSAllowance plan, rp_OverageRates plan) of
        (Some a, Some r) \<Rightarrow> if sa_Unlimited a then f64_lit 0 else overage smsUsed (sa_Messages a) (or_SMSRate r)
      | _ \<Rightarrow> f64_lit 0)"

definition add_discount :: "f64 \<Rightarrow> string \<Rightarrow> f64 \<Rightarrow> Discount \<Rightarrow> f64" where
  "add_discount baseCost discountID acc d =
     (if d_ID d = discountID \<and> d_IsActive d then
        (case d_Type d of
           DiscountTypePercentage \<Rightarrow> f64_add acc (f64_div (f64_mul baseCost (d_Value d)) (f64_lit 100))
         | DiscountTypeFixed \<Rightarrow> f64_add acc (d_Value d)
         | _ \<Rightarrow> acc)
      else acc)"

definition calculateDiscounts :: "RatePlan \<Rightarrow> string list \<Rightarrow> f64 \<Rightarrow> f64" where
  "calculateDiscounts plan discountIDs baseCost =
     (case rp_Discounts plan of
        None \<Rightarrow> f64_lit 0
      | Some ds \<Rightarrow>
          if discountIDs = [] then f64_lit 0
          else foldl (\<lambda>acc i. foldl (add_discount baseCost i) acc ds) (f64_lit 0) discountIDs)"

definition calculateRecommendedPrice :: "RatePlan \<Rightarrow> f64 \<Rightarrow> f64" where
  "calculateRecommendedPrice plan marketAverage =
     (if f64_gt marketAverage (f64_lit 0) then f64_mul marketAverage (f64_lit (95/100)) else rp_BasePrice plan)"

definition cost_item :: "RatePlan \<Rightarrow> string \<Rightarrow> string \<Rightarrow> f64 \<Rightarrow> CostItem" where
  "cost_item plan ty descr amt = \<lparr>ci_Type = ty, ci_Description = descr, ci_Amount = amt, ci_Currency = rp_Currency plan\<rparr>"

definition positive_item :: "RatePlan \<Rightarrow> string \<Rightarrow> string \<Rightarrow> f64 \<Rightarrow> f64 \<Rightarrow> CostItem list" where
  "positive_item plan ty descr guard amt = (if f64_gt guard (f64_lit 0) then [cost_item plan ty descr amt] else [])"

definition cost_breakdown :: "time \<Rightarrow> RatePlan \<Rightarrow> CalculateCostRequest \<Rightarrow> CostBreakdown" where
  "cost_breakdown now plan req =
     (let baseCost = rp_BasePrice plan;
          dataOverageCost = calculateDataOverage plan (cc_DataUsed req);
          voiceOverageCost = calculateVoiceOverage plan (cc_VoiceUsed req);
          smsOverageCost = calculateSMSOverage plan (cc_SMSUsed req);
          discountAmount = calculateDiscounts plan (cc_AppliedDiscounts req) baseCost
      in \<lparr>cb_RatePlanID = cc_RatePlanID req, cb_Currency = rp_Currency plan,
          cb_TotalCost = f64_sub (f64_add (f64_add (f64_add baseCost dataOverageCost) voiceOverageCost) smsOverageCost) discountAmount,
          cb_Subtotal = f64_add (f64_add (f64_add baseCost dataOverageCost) voiceOverageCost) smsOverageCost,
          cb_DiscountTotal = discountAmount,
          cb_BreakdownItems =
            [cost_item plan ''base_price'' ''Base subscription cost'' baseCost]
            @ positive_item plan ''data_overage'' ''Data usage over allowance'' dataOverageCost dataOverageCost
            @ positive_item plan ''voice_overage'' ''Voice usage over allowance'' voiceOverageCost voiceOverageCost
            @ positive_item plan ''sms_overage'' ''SMS usage over allowance'' smsOverageCost smsOverageCost
            @ positive_item plan ''discount'' ''Applied discounts'' discountAmount (f64_neg discountAmount),
          cb_CalculatedAt = now\<rparr>)"

definition CalculateSubscriptionCost ::
  "(string \<Rightarrow> string + RatePlan) \<Rightarrow> time \<Rightarrow> CalculateCostRequest \<Rightarrow> plan_error + CostBreakdown" where
  "CalculateSubscriptionCost getRatePlan now req =
     (case getRatePlan (cc_RatePlanID req) of
        Inl err \<Rightarrow> Inl (PlanNotFound err)
      | Inr plan \<Rightarrow> Inr (cost_breakdown now plan req))"

definition similar_filter :: "RatePlan \<Rightarrow> RatePlanFilter" where
  "similar_filter plan = \<lparr>rf_CarrierID = '''', rf_Region = rp_Region plan, rf_PlanType = rp_PlanType plan,
     rf_Status = PlanStatusActive, rf_MinPrice = f64_lit 0, rf_MaxPrice = f64_lit 0, rf_IsActive = Some True,
     rf_ValidFrom = None, rf_ValidTo = None, rf_Limit = 10, rf_Offset = 0, rf_SortBy = '''', rf_SortOrder = ''''\<rparr>"

definition market_average :: "RatePlan list \<Rightarrow> f64" where
  "market_average plans =
     (let total = foldl (\<lambda>acc p. f64_add acc (rp_BasePrice p)) (f64_lit 0) plans
      in if plans \<noteq> [] then f64_div total (f64_of_int (int (length plans))) else f64_lit 0)"

definition CalculateOptimalPrice ::
  "(RatePlanFilter \<Rightarrow> string + RatePlan list) \<Rightarrow> time \<Rightarrow> RatePlan \<Rightarrow> plan_error + PriceOptimization" where
  "CalculateOptimalPrice listRatePlans now plan =
     (case listRatePlans (similar_filter plan) of
        Inl err \<Rightarrow> Inl (SimilarPlansFailed err)
      | Inr similarPlans \<Rightarrow>
          let marketAverage = market_average similarPlans;
              recommendedPrice = calculateRecommendedPrice plan marketAverage
          in Inr \<lparr>po_CurrentPrice = rp_BasePrice plan, po_MarketAverage = marketAverage,
               po_RecommendedPrice = recommendedPrice, po_PriceDifference = f64_sub recommendedPrice (rp_BasePrice plan),
               po_CompetitorCount = int (length similarPlans), po_OptimizedAt = now\<rparr>)"

section \<open>Validation, declaratively\<close>

lemma first_error_None [simp]: "first_error cs = None \<longleftrightarrow> set cs \<subseteq> {None}"
  by (induction cs rule: first_error.induct) auto

lemma check_opt_None [simp]: "check_opt f p = None \<longleftrightarrow> pred_option (\<lambda>x. f x = None) p"
  by (cases p) (auto simp: check_opt_def)

definition discount_wf :: "Discount \<Rightarrow> bool" where
  "discount_wf d \<longleftrightarrow> d_Name d \<noteq> '''' \<and> \<not> f64_le (d_Value d) (f64_lit 0) \<and> d_ValidFrom d \<noteq> zero_time
     \<and> pred_option (\<lambda>to. d_ValidFrom d \<le> to) (d_ValidTo d)"

definition allowances_wf :: "RatePlan \<Rightarrow> bool" where
  "allowances_wf plan \<longleftrightarrow>
     pred_option (\<lambda>a. (da_Unlimited a \<or> 0 < da_Amount a) \<and> da_Unit a \<noteq> '''') (rp_DataAllowance plan)
   \<and> pred_option (\<lambda>a. va_Unlimited a \<or> 0 < va_Minutes a) (rp_VoiceAllowance plan)
   \<and> pred_option (\<lambda>a. sa_Unlimited a \<or> 0 < sa_Messages a) (rp_SMSAllowance plan)"

definition rates_wf :: "RatePlan \<Rightarrow> bool" where
  "rates_wf plan \<longleftrightarrow> pred_option (\<lambda>r. \<not> f64_lt (or_DataRate r) (f64_lit 0) \<and> \<not> f64_lt (or_VoiceRate r) (f64_lit 0)
     \<and> \<not> f64_lt (or_SMSRate r) (f64_lit 0) \<and> or_Currency r \<noteq> '''') (rp_OverageRates plan)"

definition termination_wf :: "RatePlan \<Rightarrow> bool" where
  "termination_wf plan \<longleftrightarrow> pred_option (\<lambda>t. et_Enabled t \<longrightarrow> et_FeeType t \<noteq> ''''
     \<and> (et_FeeType t = ''fixed'' \<longrightarrow> \<not> f64_le (et_FeeAmount t) (f64_lit 0))
     \<and> (et_FeeType t = ''percentage'' \<longrightarrow> \<not> f64_le (et_FeePercentage t) (f64_lit 0) \<and> \<not> f64_gt (et_FeePercentage t) (f64_lit 100))) (rp_EarlyTermination plan)"

definition plan_wf :: "RatePlan \<Rightarrow> bool" where
  "plan_wf plan \<longleftrightarrow> '''' \<notin> {rp_Name plan, rp_CarrierID plan, rp_Region plan, rp_Currency plan}
     \<and> \<not> f64_lt (rp_BasePrice plan) (f64_lit 0) \<and> rp_BillingCycle plan \<noteq> BillingCycleOther ''''
     \<and> rp_ValidFrom plan \<noteq> zero_time \<and> pred_option (\<lambda>to. rp_ValidFrom plan \<le> to) (rp_ValidTo plan)
     \<and> allowances_wf plan \<and> rates_wf plan \<and> termination_wf plan
     \<and> pred_option (\<lambda>ds. \<forall>d \<in> set ds. discount_wf d) (rp_Discounts plan)"

lemma validateDiscount_None: "validateDiscount d = None \<longleftrightarrow> discount_wf d"
  by (auto simp: validateDiscount_def discount_wf_def split: option.splits)

lemma validateDiscounts_None:
  "validateDiscounts plan = None \<longleftrightarrow> pred_option (\<lambda>ds. \<forall>d \<in> set ds. discount_wf d) (rp_Discounts plan)"
  by (cases "rp_Discounts plan") (auto simp: validateDiscounts_def validateDiscount_None [symmetric])

lemma validateAllowances_None: "validateAllowances plan = None \<longleftrightarrow> allowances_wf plan"
  by (cases "rp_DataAllowance plan"; cases "rp_VoiceAllowance plan"; cases "rp_SMSAllowance plan")
    (auto simp: validateAllowances_def allowances_wf_def check_opt_def not_le)

lemma validateOverageRates_None: "validateOverageRates plan = None \<longleftrightarrow> rates_wf plan"
  by (cases "rp_OverageRates plan") (auto simp: validateOverageRates_def rates_wf_def split: if_splits)

lemma validateEarlyTermination_None: "validateEarlyTermination plan = None \<longleftrightarrow> termination_wf plan"
  by (cases "rp_EarlyTermination plan") (auto simp: validateEarlyTermination_def termination_wf_def split: if_splits)

lemma ValidateRatePlan_None: "ValidateRatePlan plan = None \<longleftrightarrow> plan_wf plan"
proof -
  have basic: "validateBasicFields plan = None \<longleftrightarrow>
      '''' \<notin> {rp_Name plan, rp_CarrierID plan, rp_Region plan, rp_Currency plan}
      \<and> \<not> f64_lt (rp_BasePrice plan) (f64_lit 0) \<and> rp_BillingCycle plan \<noteq> BillingCycleOther ''''"
    by (auto simp: validateBasicFields_def)
  have dates: "validateDates plan = None \<longleftrightarrow> rp_ValidFrom plan \<noteq> zero_time
      \<and> pred_option (\<lambda>to. rp_ValidFrom plan \<le> to) (rp_ValidTo plan)"
    by (auto simp: validateDates_def split: option.splits)
  show ?thesis
    unfolding ValidateRatePlan_def plan_wf_def first_error_None
    using basic dates validateAllowances_None[of plan] validateOverageRates_None[of plan]
      validateDiscounts_None[of plan] validateEarlyTermination_None[of plan] by auto
qed

text \<open>Validation accepts exactly the well-formed plans: every required field is there, the dates
  are in order, every allowance is positive or unlimited, no rate is negative, every discount is
  positive and dated, and an early termination fee that is enabled has a sensible amount.\<close>

theorem plan_validation_exact: "ValidateRatePlan plan = None \<longleftrightarrow> plan_wf plan"
  by (rule ValidateRatePlan_None)

section \<open>Costs\<close>

text \<open>A plan whose amounts are finite and not negative, as a validated plan decoded from JSON has them.\<close>

definition amount64 :: "f64 \<Rightarrow> bool" where
  "amount64 x \<longleftrightarrow> amount x \<and> f64_finite x"

definition plan_amounts :: "RatePlan \<Rightarrow> bool" where
  "plan_amounts plan \<longleftrightarrow> amount64 (rp_BasePrice plan)
     \<and> pred_option (\<lambda>r. amount64 (or_DataRate r) \<and> amount64 (or_VoiceRate r) \<and> amount64 (or_SMSRate r)) (rp_OverageRates plan)
     \<and> pred_option (\<lambda>ds. \<forall>d \<in> set ds. amount64 (d_Value d)) (rp_Discounts plan)"

declare f64_lit_0 [simp]

lemma f64_lit_100: "f64_lit 100 = Fin False 100"
  unfolding f64_lit_def by (subst rep64_round) auto

lemma f64_of_int_finite: "min_i64 \<le> n \<Longrightarrow> n \<le> max_i64 \<Longrightarrow> f64_finite (f64_of_int n)"
proof -
  assume n: "min_i64 \<le> n" "n \<le> max_i64"
  have "f64_in (- (2 ^ 64)) (2 ^ 64) (f64_of_int n)"
    using n rep64_pow2[of 64] of_int_le_iff[of "- (2 ^ 64)" n, where 'a = rat] of_int_le_iff[of n "2 ^ 64", where 'a = rat]
    by (intro f64_in_of_int) auto
  then show ?thesis by (cases "f64_of_int n") auto
qed

lemma overage_amount:
  assumes "amount64 rate" "0 \<le> allowance" "used \<le> max_i64"
  shows "amount (overage used allowance rate)"
proof (cases "used \<le> allowance")
  case False
  then have "i64 (used - allowance) = used - allowance" using assms(2,3) by simp
  moreover have "f64_finite (f64_of_int (used - allowance))" using False assms(2,3) by (intro f64_of_int_finite) auto
  ultimately show ?thesis using False assms(1) by (simp add: overage_def amount64_def)
qed (simp add: overage_def)

text \<open>Allowances that do not wrap when converted to MB.\<close>

definition allowances_nonneg :: "RatePlan \<Rightarrow> bool" where
  "allowances_nonneg plan \<longleftrightarrow>
     pred_option (\<lambda>a. 0 \<le> da_Amount a \<and> da_Amount a * 1024 \<le> max_i64) (rp_DataAllowance plan)
   \<and> pred_option (\<lambda>a. 0 \<le> va_Minutes a) (rp_VoiceAllowance plan)
   \<and> pred_option (\<lambda>a. 0 \<le> sa_Messages a) (rp_SMSAllowance plan)"

lemma overages_amount:
  assumes "plan_amounts plan" "allowances_nonneg plan" "n \<le> max_i64"
  shows "amount (calculateDataOverage plan n)" "amount (calculateVoiceOverage plan n)" "amount (calculateSMSOverage plan n)"
proof -
  have mb: "0 \<le> allowance_mb a" if "rp_DataAllowance plan = Some a" for a
    using that assms(2) by (auto simp: allowance_mb_def allowances_nonneg_def)
  show "amount (calculateDataOverage plan n)"
    using assms mb by (auto simp: calculateDataOverage_def plan_amounts_def split: option.splits intro!: overage_amount)
  show "amount (calculateVoiceOverage plan n)"
    using assms by (auto simp: calculateVoiceOverage_def plan_amounts_def allowances_nonneg_def split: option.splits intro!: overage_amount)
  show "amount (calculateSMSOverage plan n)"
    using assms by (auto simp: calculateSMSOverage_def plan_amounts_def allowances_nonneg_def split: option.splits intro!: overage_amount)
qed

lemma amount_percent: "amount x \<Longrightarrow> amount (f64_div x (f64_lit 100))"
  unfolding f64_lit_100 by (cases x) (auto simp: amount_round)

lemma add_discount_amount: "amount64 b \<Longrightarrow> amount64 (d_Value d) \<Longrightarrow> amount t \<Longrightarrow> amount (add_discount b i t d)"
  by (auto simp: add_discount_def amount64_def amount_percent split: DiscountType.splits)

lemma discounts_fold_amount:
  "amount64 b \<Longrightarrow> (\<And>d. d \<in> set ds \<Longrightarrow> amount64 (d_Value d)) \<Longrightarrow> amount t \<Longrightarrow> amount (foldl (add_discount b i) t ds)"
  by (induction ds arbitrary: t) (auto simp: add_discount_amount)

lemma discounts_amount:
  assumes "plan_amounts plan"
  shows "amount (calculateDiscounts plan ids (rp_BasePrice plan))"
proof -
  have "amount (foldl (\<lambda>t i. foldl (add_discount (rp_BasePrice plan) i) t ds) t ids)"
    if "rp_Discounts plan = Some ds" "amount t" for ds t
    using that(2)
    by (induction ids arbitrary: t) (use that(1) assms in \<open>auto simp: plan_amounts_def intro!: discounts_fold_amount\<close>)
  then show ?thesis by (auto simp: calculateDiscounts_def split: option.split)
qed

lemma f64_sub_0: "f64_ok x \<Longrightarrow> x \<noteq> Fin True 0 \<Longrightarrow> f64_sub x (Fin False 0) = x"
proof (cases x)
  case (Fin s r)
  assume "f64_ok x" "x \<noteq> Fin True 0"
  with Fin show ?thesis by (cases "r = 0") (auto simp: f64_sub_def rep64_round f64_round_0)
qed (auto simp: f64_sub_def)

lemma amount_ok: "amount x \<Longrightarrow> f64_ok x \<and> x \<noteq> Fin True 0"
  by (cases x) auto

lemma amount_nonneg: "amount x \<Longrightarrow> f64_le (Fin False 0) x"
  by (cases x) auto

lemma item_sum:
  assumes "amount x" "amount y"
  shows "foldl f64_add x (map ci_Amount (positive_item plan t d y y)) = f64_add x y"
  using amount_cases[OF assms(2)] assms(1) by (auto simp: positive_item_def cost_item_def)

lemma discount_sum:
  assumes "amount x" "amount y"
  shows "foldl f64_add x (map ci_Amount (positive_item plan t d y (f64_neg y))) = f64_sub x y"
  using amount_cases[OF assms(2)] f64_sub_0[of x] amount_ok[OF assms(1)]
  by (auto simp: positive_item_def cost_item_def f64_sub_def)

text \<open>C5. The cost breakdown adds up, in binary64: the amounts of its items, added in their order,
  are exactly the total cost, the total is the subtotal less the discounts, and the subtotal is
  never below the base price. An overage is charged exactly for the units above the allowance.\<close>

theorem cost_breakdown_adds_up:
  assumes "getRatePlan (cc_RatePlanID req) = Inr plan" and "plan_amounts plan" and "allowances_nonneg plan"
    and "cc_DataUsed req \<le> max_i64" and "cc_VoiceUsed req \<le> max_i64" and "cc_SMSUsed req \<le> max_i64"
  shows "\<exists>cb. CalculateSubscriptionCost getRatePlan now req = Inr cb
    \<and> foldl f64_add (f64_lit 0) (map ci_Amount (cb_BreakdownItems cb)) = cb_TotalCost cb
    \<and> cb_TotalCost cb = f64_sub (cb_Subtotal cb) (cb_DiscountTotal cb)
    \<and> f64_le (rp_BasePrice plan) (cb_Subtotal cb) \<and> f64_le (f64_lit 0) (cb_DiscountTotal cb)
    \<and> (\<forall>a r. rp_VoiceAllowance plan = Some a \<and> \<not> va_Unlimited a \<and> rp_OverageRates plan = Some r \<and> va_Minutes a < cc_VoiceUsed req \<longrightarrow>
         calculateVoiceOverage plan (cc_VoiceUsed req) = f64_mul (f64_of_int (cc_VoiceUsed req - va_Minutes a)) (or_VoiceRate r))"
proof -
  let ?b = "rp_BasePrice plan"
  let ?d = "calculateDataOverage plan (cc_DataUsed req)"
  let ?v = "calculateVoiceOverage plan (cc_VoiceUsed req)"
  let ?s = "calculateSMSOverage plan (cc_SMSUsed req)"
  let ?o = "calculateDiscounts plan (cc_AppliedDiscounts req) ?b"
  have b: "amount ?b" using assms(2) by (simp add: plan_amounts_def amount64_def)
  note a = b overages_amount(1)[OF assms(2,3,4)] overages_amount(2)[OF assms(2,3,5)] overages_amount(3)[OF assms(2,3,6)]
    discounts_amount[OF assms(2)]
  have items: "foldl f64_add (f64_lit 0) (map ci_Amount (cb_BreakdownItems (cost_breakdown now plan req)))
      = f64_sub (f64_add (f64_add (f64_add ?b ?d) ?v) ?s) ?o"
    using a by (simp add: cost_breakdown_def Let_def item_sum discount_sum cost_item_def)
  have "f64_le ?b (f64_add ?b ?d)" "f64_le (f64_add ?b ?d) (f64_add (f64_add ?b ?d) ?v)"
    "f64_le (f64_add (f64_add ?b ?d) ?v) (f64_add (f64_add (f64_add ?b ?d) ?v) ?s)"
    using a by (auto intro!: amount_le_add)
  then have le: "f64_le ?b (f64_add (f64_add (f64_add ?b ?d) ?v) ?s)" by (meson f64_le_trans)
  have disc: "f64_le (f64_lit 0) ?o" using amount_nonneg[OF a(5)] by simp
  have voice: "?v = f64_mul (f64_of_int (cc_VoiceUsed req - va_Minutes x)) (or_VoiceRate r)"
    if "rp_VoiceAllowance plan = Some x" "\<not> va_Unlimited x" "rp_OverageRates plan = Some r" "va_Minutes x < cc_VoiceUsed req" for x r
    using that assms(3,5) by (simp add: calculateVoiceOverage_def overage_def allowances_nonneg_def)
  show ?thesis
    using assms(1) items le disc voice
    by (intro exI[of _ "cost_breakdown now plan req"]) (simp add: CalculateSubscriptionCost_def cost_breakdown_def Let_def)
qed

definition demo_discount :: Discount where
  "demo_discount = \<lparr>d_ID = ''welcome'', d_Name = ''Welcome'', d_Type = DiscountTypeFixed, d_Value = f64_lit 15,
     d_ValidFrom = 100, d_ValidTo = Some 200, d_Conditions = '''', d_IsActive = True\<rparr>"

definition demo_plan :: RatePlan where
  "demo_plan = \<lparr>rp_ID = ''p'', rp_Name = ''Basic'', rp_Description = '''', rp_CarrierID = ''c'', rp_Region = ''KE'',
     rp_PlanType = PlanTypePostpaid, rp_Status = PlanStatusActive, rp_BasePrice = f64_lit 10, rp_Currency = ''KES'',
     rp_BillingCycle = BillingCycleMonthly, rp_DataAllowance = None,
     rp_VoiceAllowance = Some \<lparr>va_Type = VoiceAllowanceTypeMonthly, va_Minutes = 100, va_Unlimited = False, va_Destinations = []\<rparr>,
     rp_SMSAllowance = None,
     rp_OverageRates = Some \<lparr>or_DataRate = f64_lit 0, or_VoiceRate = f64_lit 2, or_SMSRate = f64_lit 0, or_Currency = ''KES''\<rparr>,
     rp_Features = [], rp_ActivationFee = f64_lit 0, rp_EarlyTermination = None, rp_Discounts = Some [demo_discount],
     rp_ValidFrom = 50, rp_ValidTo = None, rp_Priority = 0, rp_IsActive = True, rp_Metadata = None, rp_CreatedAt = 0, rp_UpdatedAt = 0\<rparr>"

definition demo_usage :: "int \<Rightarrow> string list \<Rightarrow> CalculateCostRequest" where
  "demo_usage voice ds = \<lparr>cc_RatePlanID = ''p'', cc_DataUsed = 0, cc_VoiceUsed = voice, cc_SMSUsed = 0, cc_AppliedDiscounts = ds\<rparr>"

lemma amount64_numeral: "(numeral n :: int) \<le> 2 ^ 53 \<Longrightarrow> amount64 (f64_lit (numeral n))"
  by (simp add: amount64_def f64_lit_numeral)

lemma demo_plan_amounts: "plan_amounts demo_plan" "allowances_nonneg demo_plan" "plan_wf demo_plan"
  by (auto simp: demo_plan_def demo_discount_def plan_amounts_def allowances_nonneg_def amount64_numeral amount64_def f64_lit_numeral
      plan_wf_def discount_wf_def allowances_wf_def rates_wf_def termination_wf_def zero_time_def)

theorem cost_breakdown_adds_up_witness:
  "\<exists>cb. CalculateSubscriptionCost (\<lambda>_. Inr demo_plan) 7 (demo_usage 130 []) = Inr cb
    \<and> foldl f64_add (f64_lit 0) (map ci_Amount (cb_BreakdownItems cb)) = cb_TotalCost cb"
  using cost_breakdown_adds_up[of "\<lambda>_. Inr demo_plan" "demo_usage 130 []" demo_plan 7] demo_plan_amounts(1,2)
  by (auto simp: demo_usage_def)

definition demo_subscribe :: "string list \<Rightarrow> SubscribeRequest" where
  "demo_subscribe ds = \<lparr>sr_ProfileID = ''u'', sr_RatePlanID = ''p'', sr_AutoRenew = True, sr_AppliedDiscounts = ds, sr_Metadata = None\<rparr>"

definition demo_total :: "time \<Rightarrow> string list \<Rightarrow> f64 option" where
  "demo_total now ds = (case CalculateSubscriptionCost (\<lambda>_. Inr demo_plan) now (demo_usage 0 ds) of Inr cb \<Rightarrow> Some (cb_TotalCost cb) | Inl _ \<Rightarrow> None)"

text \<open>The cost calculation applies what the subscription check refuses: on a valid plan, an expired
  discount is refused for a subscription and deducted from its cost, a discount named twice is
  deducted twice, and the total cost goes below zero.\<close>

theorem expired_discount_deducted:
  "ValidateRatePlan demo_plan = None
   \<and> ValidateSubscription (\<lambda>_. Inr demo_plan) 300 (\<lambda>_. 300) (demo_subscribe [''welcome'']) = Some (DiscountNotValid ''welcome'')
   \<and> ValidateSubscription (\<lambda>_. Inr demo_plan) 150 (\<lambda>_. 150) (demo_subscribe [''welcome'', ''welcome'']) = None
   \<and> demo_total 300 [] = Some (Fin False 10)
   \<and> demo_total 300 [''welcome''] = Some (Fin True (- 5))
   \<and> demo_total 150 [''welcome'', ''welcome''] = Some (Fin True (- 20))"
proof (intro conjI)
  show "ValidateRatePlan demo_plan = None" using demo_plan_amounts(3) by (simp add: ValidateRatePlan_None)
qed (simp_all add: demo_total_def CalculateSubscriptionCost_def cost_breakdown_def Let_def demo_plan_def demo_usage_def demo_subscribe_def
    demo_discount_def ValidateSubscription_def validateSubscriptionDiscounts_def check_discount_def calculateDataOverage_def
    calculateVoiceOverage_def calculateSMSOverage_def overage_def calculateDiscounts_def add_discount_def f64_lit_numeral
    f64_sub_def rep64_round)

text \<open>The unit \<open>TB\<close> that the type documents is not converted, and the conversion of a large
  allowance in GB wraps around to a negative one.\<close>

lemma allowance_units:
  "allowance_mb \<lparr>da_Type = DataAllowanceTypeMonthly, da_Amount = 1, da_Unit = ''TB'', da_Unlimited = False, da_SpeedLimit = None\<rparr> = 1"
  "allowance_mb \<lparr>da_Type = DataAllowanceTypeMonthly, da_Amount = 2 ^ 53, da_Unit = ''GB'', da_Unlimited = False, da_SpeedLimit = None\<rparr> = - (2 ^ 63)"
  by (simp_all add: allowance_mb_def i64_def)

section \<open>Recommended prices\<close>

lemma f64_le_times_share:
  assumes "amount x" "f64_finite x" "0 \<le> q" "q \<le> 1"
  shows "f64_le (f64_mul x (f64_lit q)) x" "amount (f64_mul x (f64_lit q))"
proof -
  obtain r where x: "x = Fin False r" "0 \<le> r" "rnd r = r" "r < 2 ^ 1024"
    using assms(1,2) by (cases x) (auto simp: rep64_def)
  have l: "f64_in 0 1 (f64_lit q)" using assms(3,4) by (intro f64_in_lit) auto
  moreover have "amount (f64_lit q)" using assms(3) by simp
  ultimately obtain t where t: "f64_lit q = Fin False t" "0 \<le> t" "t \<le> 1" by (cases "f64_lit q") auto
  have "r * t \<le> r" using x t by (intro mult_left_le) auto
  then have le: "rnd (r * t) \<le> r" using rnd_mono[of "r * t" r] x by simp
  have "0 \<le> rnd (r * t)" using x t by (intro rnd_nonneg) auto
  with le x t show "f64_le (f64_mul x (f64_lit q)) x" by (auto simp: f64_round_def Let_def)
  show "amount (f64_mul x (f64_lit q))" using x t by (simp add: amount_round)
qed

lemma market_average_amount: "\<forall>p \<in> set plans. amount (rp_BasePrice p) \<Longrightarrow> int (length plans) \<le> max_i64 \<Longrightarrow> amount (market_average plans)"
proof -
  assume p: "\<forall>p \<in> set plans. amount (rp_BasePrice p)" and n: "int (length plans) \<le> max_i64"
  have s: "amount t \<Longrightarrow> amount (foldl (\<lambda>acc p. f64_add acc (rp_BasePrice p)) t plans)" for t
    using p by (induction plans arbitrary: t) auto
  have c: "f64_finite (f64_of_int (int (length plans)))" using n by (intro f64_of_int_finite) auto
  have g: "f64_gt (f64_of_int (int (length plans))) (Fin False 0)" if "plans \<noteq> []"
    using f64_of_int_pos[of "int (length plans)"] that n by (cases plans) auto
  have d: "amount (f64_div x y)" if "amount x" "amount y" "f64_gt y (Fin False 0)" "f64_finite y" for x y
    using that by (rule amount_div)
  show ?thesis using s[of "f64_lit 0"] c g d by (auto simp: market_average_def Let_def)
qed

text \<open>The recommended price is never above the market average of the similar active plans, and the
  plan's own price when there is none.\<close>

theorem recommended_price_competitive:
  assumes "listRatePlans (similar_filter plan) = Inr plans" and "\<forall>p \<in> set plans. amount (rp_BasePrice p)"
    and "int (length plans) \<le> max_i64" and "f64_finite (market_average plans)"
  shows "\<exists>po. CalculateOptimalPrice listRatePlans now plan = Inr po
    \<and> (if f64_gt (po_MarketAverage po) (f64_lit 0) then f64_le (po_RecommendedPrice po) (po_MarketAverage po)
       else po_RecommendedPrice po = rp_BasePrice plan)"
  using assms f64_le_times_share(1)[of "market_average plans" "95/100"] market_average_amount[OF assms(2,3)]
  by (auto simp: CalculateOptimalPrice_def calculateRecommendedPrice_def Let_def)

theorem recommended_price_competitive_witness:
  "\<exists>po. CalculateOptimalPrice (\<lambda>_. Inr [demo_plan]) 1 demo_plan = Inr po
    \<and> (if f64_gt (po_MarketAverage po) (f64_lit 0) then f64_le (po_RecommendedPrice po) (po_MarketAverage po)
       else po_RecommendedPrice po = rp_BasePrice demo_plan)"
proof (rule recommended_price_competitive)
  show "f64_finite (market_average [demo_plan])"
    by (simp add: market_average_def demo_plan_def f64_lit_numeral f64_of_int_def rep64_round)
qed (auto simp: demo_plan_def f64_lit_numeral)

end
