(* ===== verification/Carriers.thy ===== *)
theory Carriers
  imports Float64 Prelude
begin

text \<open>
  The carriers of the SM-DP+ manager (\<open>apps/carrier-connector/internal/smdp/types.go\<close>,
  \<open>config.go\<close>), and their health check (\<open>health_checker.go\<close>). Pointers that the code may leave nil are options.
\<close>

section \<open>Data\<close>

type_synonym CarrierHealthStatus = string

abbreviation CarrierStatusHealthy :: CarrierHealthStatus where "CarrierStatusHealthy \<equiv> ''healthy''"
abbreviation CarrierStatusDegraded :: CarrierHealthStatus where "CarrierStatusDegraded \<equiv> ''degraded''"
abbreviation CarrierStatusUnhealthy :: CarrierHealthStatus where "CarrierStatusUnhealthy \<equiv> ''unhealthy''"
abbreviation CarrierStatusUnknown :: CarrierHealthStatus where "CarrierStatusUnknown \<equiv> ''unknown''"

record ES2Config =
  es2_BaseURL :: string
  es2_APIKey :: string
  es2_InsecureSkipVerify :: bool
  es2_FunctionalityRequesterID :: string

record CarrierMetrics =
  TotalRequests :: int
  SuccessfulRequests :: int
  FailedRequests :: int
  AverageResponseTime :: duration
  LastError :: string
  LastErrorTime :: time
  RequestRate :: f64

record CarrierCapabilities =
  SupportedProfileTypes :: "string list"
  MaxConcurrentRequests :: int
  SupportedMCCs :: "string list"
  SupportedMNCs :: "string list"
  Features :: "string list"

record Carrier =
  car_ID :: string
  car_Name :: string
  car_CountryCode :: string
  car_MCC :: string
  car_MNC :: string
  car_ES2Config :: "ES2Config option"
  car_Priority :: int
  car_IsActive :: bool
  car_HealthStatus :: CarrierHealthStatus
  car_LastHealthCheck :: time
  car_Metrics :: "CarrierMetrics option"
  car_Capabilities :: "CarrierCapabilities option"

record CarrierConfig =
  cfg_ID :: string
  cfg_Name :: string
  cfg_CountryCode :: string
  cfg_MCC :: string
  cfg_MNC :: string
  cfg_ES2BaseURL :: string
  cfg_ES2APIKey :: string
  cfg_ES2InsecureSkip :: bool
  cfg_Priority :: int
  cfg_IsActive :: bool
  cfg_MaxConcurrentReqs :: int
  cfg_SupportedProfileTypes :: "string list"
  cfg_SupportedMCCs :: "string list"
  cfg_SupportedMNCs :: "string list"
  cfg_Features :: "string list"

definition new_metrics :: CarrierMetrics where
  "new_metrics = \<lparr>TotalRequests = 0, SuccessfulRequests = 0, FailedRequests = 0,
     AverageResponseTime = 0, LastError = '''', LastErrorTime = zero_time, RequestRate = f64_of_int 0\<rparr>"

definition ToCarrier :: "time \<Rightarrow> CarrierConfig \<Rightarrow> Carrier" where
  "ToCarrier now c =
     \<lparr>car_ID = cfg_ID c, car_Name = cfg_Name c, car_CountryCode = cfg_CountryCode c,
      car_MCC = cfg_MCC c, car_MNC = cfg_MNC c,
      car_ES2Config = Some \<lparr>es2_BaseURL = cfg_ES2BaseURL c, es2_APIKey = cfg_ES2APIKey c,
        es2_InsecureSkipVerify = cfg_ES2InsecureSkip c, es2_FunctionalityRequesterID = ''telecom-platform''\<rparr>,
      car_Priority = cfg_Priority c, car_IsActive = cfg_IsActive c,
      car_HealthStatus = CarrierStatusUnknown, car_LastHealthCheck = now,
      car_Metrics = Some new_metrics,
      car_Capabilities = Some \<lparr>SupportedProfileTypes = cfg_SupportedProfileTypes c,
        MaxConcurrentRequests = cfg_MaxConcurrentReqs c, SupportedMCCs = cfg_SupportedMCCs c,
        SupportedMNCs = cfg_SupportedMNCs c, Features = cfg_Features c\<rparr>\<rparr>"

record ManagerConfig =
  HealthCheckInterval :: duration
  MaxRetries :: int
  RetryDelay :: duration
  CircuitBreakerThreshold :: int
  CircuitBreakerTimeout :: duration
  EnableLoadBalancing :: bool
  EnableFailover :: bool
  DefaultTimeout :: duration

definition DefaultManagerConfig :: ManagerConfig where
  "DefaultManagerConfig = \<lparr>HealthCheckInterval = 30 * second, MaxRetries = 3, RetryDelay = 2 * second,
     CircuitBreakerThreshold = 5, CircuitBreakerTimeout = 60 * second, EnableLoadBalancing = True,
     EnableFailover = True, DefaultTimeout = 30 * second\<rparr>"

text \<open>Counters that count: what every run of the manager keeps of the metrics.\<close>

definition metrics_ok :: "CarrierMetrics \<Rightarrow> bool" where
  "metrics_ok m \<longleftrightarrow> 0 \<le> SuccessfulRequests m \<and> 0 \<le> FailedRequests m \<and> TotalRequests m < 2 ^ 64
     \<and> SuccessfulRequests m + FailedRequests m = TotalRequests m"

text \<open>The share of successes, where it is computed.\<close>

definition success_rate :: "CarrierMetrics \<Rightarrow> f64" where
  "success_rate m = f64_div (f64_of_int (SuccessfulRequests m)) (f64_of_int (TotalRequests m))"

lemma success_rate_in:
  "metrics_ok m \<Longrightarrow> 0 < TotalRequests m \<Longrightarrow> f64_in 0 1 (success_rate m)"
  unfolding success_rate_def metrics_ok_def by (intro f64_ratio_in) auto

section \<open>Health\<close>

definition evaluateHealth :: "string option \<Rightarrow> duration \<Rightarrow> CarrierMetrics option \<Rightarrow> CarrierHealthStatus go" where
  "evaluateHealth err responseTime metrics =
     (case err of
        Some _ \<Rightarrow> go_bind (deref metrics) (\<lambda>m.
          if 5 < FailedRequests m then Returns CarrierStatusUnhealthy else Returns CarrierStatusDegraded)
      | None \<Rightarrow>
          if 5 * second < responseTime then Returns CarrierStatusDegraded
          else go_bind (deref metrics) (\<lambda>m.
            if 0 < TotalRequests m
               \<and> f64_gt (f64_div (f64_of_int (FailedRequests m)) (f64_of_int (TotalRequests m))) (f64_lit (1 / 10))
            then Returns CarrierStatusDegraded
            else Returns CarrierStatusHealthy))"

text \<open>One check: the probe of the ES2+ client gives an error or not, and took some time.\<close>

record probe =
  pr_err :: "string option"
  pr_time :: duration

definition checkCarrier :: "probe \<Rightarrow> Carrier \<Rightarrow> CarrierHealthStatus go" where
  "checkCarrier p carrier = evaluateHealth (pr_err p) (pr_time p) (car_Metrics carrier)"

text \<open>The identifiers and statuses one round of checks reports, in the order the goroutines finish.\<close>

fun checkAllCarriers :: "(string \<Rightarrow> probe) \<Rightarrow> string list \<Rightarrow> (string \<rightharpoonup> Carrier) \<Rightarrow> (string \<times> CarrierHealthStatus) list go" where
  "checkAllCarriers probes [] carriers = Returns []"
| "checkAllCarriers probes (k # ks) carriers =
     (case carriers k of
        None \<Rightarrow> checkAllCarriers probes ks carriers
      | Some c \<Rightarrow>
          if \<not> car_IsActive c then checkAllCarriers probes ks carriers
          else go_bind (checkCarrier (probes k) c) (\<lambda>status.
            go_bind (checkAllCarriers probes ks carriers) (\<lambda>rest. Returns ((k, status) # rest))))"

text \<open>The threshold of ten percent is exact: no rounding error of the two divisions involved
  moves it, as long as the counters stay below \<open>2^52\<close>. The value \<open>g\<close> is the next float above
  the constant \<open>0.1\<close>.\<close>

lemma rnd_tenth: "rnd (1 / 10) = 3602879701896397 / 36028797018963968"
  by code_simp

lemma f64_of_int_exact: "\<bar>n\<bar> \<le> 2 ^ 53 \<Longrightarrow> f64_of_int n = Fin (n < 0) (of_int n)"
  using rep64_of_int[of n] by (auto simp: f64_of_int_def f64_round_def rep64_def Let_def)

lemma error_rate_exact:
  assumes "0 \<le> F" "F \<le> T" "0 < T" "T \<le> 2 ^ 52"
  shows "f64_gt (f64_div (f64_of_int F) (f64_of_int T)) (f64_lit (1 / 10)) \<longleftrightarrow> T < 10 * F"
proof -
  let ?q = "of_int F / of_int T :: rat" and ?g = "of_int 7205759403792795 * 2 powi (- 56) :: rat"
  have q: "0 \<le> ?q" "?q \<le> 1" using assms by auto
  from f64_round_in[of 0 1 ?q False] q obtain s where
    "f64_round False ?q = Fin s (rnd ?q)" by (auto simp: f64_round_def Let_def split: if_splits)
  then have d: "f64_div (f64_of_int F) (f64_of_int T) = Fin s (rnd ?q)"
    using assms by (simp add: f64_of_int_exact)
  have l: "f64_lit (1 / 10) = Fin False (rnd (1 / 10))"
    by (simp add: f64_lit_def f64_round_def Let_def rnd_tenth)
  have "rnd (1 / 10) < rnd ?q \<longleftrightarrow> T < 10 * F"
  proof (cases "T < 10 * F")
    case False
    then have "of_int (10 * F) \<le> (of_int T :: rat)" by (subst of_int_le_iff) simp
    then have "?q \<le> 1 / 10" using assms(3) by (simp add: field_simps)
    then have "rnd ?q \<le> rnd (1 / 10)" by (rule rnd_mono)
    with False show ?thesis by simp
  next
    case True
    have g: "?g = 7205759403792795 / 72057594037927936" by (simp add: power_int_def field_simps)
    have "of_int (T + 1) \<le> (of_int (10 * F) :: rat)" using True by (subst of_int_le_iff) simp
    then have "(of_int T + 1) / (10 * of_int T) \<le> of_int (10 * F) / (10 * (of_int T :: rat))"
      using assms(3) by (intro divide_right_mono) auto
    then have "1 / 10 + 1 / (10 * of_int T) \<le> ?q" using assms(3) by (simp add: add_divide_distrib)
    moreover have "of_int T \<le> (of_int (2 ^ 52) :: rat)" using assms(4) by (subst of_int_le_iff)
    then have "14 / 720575940379279360 \<le> 1 / (10 * (of_int T :: rat))"
      using assms(3) by (simp add: field_simps)
    ultimately have "?g \<le> ?q" unfolding g by linarith
    then have "rnd ?g \<le> rnd ?q" by (rule rnd_mono)
    moreover have "rnd ?g = ?g" by (rule rnd_grid) auto
    moreover have "rnd (1 / 10) < ?g" unfolding g rnd_tenth by simp
    ultimately show ?thesis using True by simp
  qed
  then show ?thesis by (simp add: d l)
qed

section \<open>Properties\<close>

text \<open>A health check of a carrier with metrics never panics and classifies it exactly: an
  error makes it degraded, and unhealthy after more than five failures; without an error it is
  healthy precisely when it answered within five seconds and at most one request in ten failed.\<close>

theorem health_classification:
  assumes "metrics_ok m" and "TotalRequests m \<le> 2 ^ 52"
  shows "evaluateHealth err t (Some m) = Returns
    (if err \<noteq> None then if 5 < FailedRequests m then CarrierStatusUnhealthy else CarrierStatusDegraded
     else if t \<le> 5 * second \<and> 10 * FailedRequests m \<le> TotalRequests m then CarrierStatusHealthy
     else CarrierStatusDegraded)"
proof -
  have m: "0 \<le> FailedRequests m" "FailedRequests m \<le> TotalRequests m"
    using assms(1) by (auto simp: metrics_ok_def)
  show ?thesis
  proof (cases "TotalRequests m = 0")
    case True
    then show ?thesis using m by (auto simp: evaluateHealth_def split: option.splits)
  next
    case False
    with m have "0 < TotalRequests m" by simp
    with error_rate_exact[OF m this assms(2)] show ?thesis
      by (auto simp: evaluateHealth_def split: option.splits)
  qed
qed

theorem health_classification_witness:
  "evaluateHealth None second (Some (new_metrics\<lparr>TotalRequests := 30, SuccessfulRequests := 27, FailedRequests := 3\<rparr>))
   = Returns CarrierStatusHealthy"
  by (subst health_classification) (simp_all add: new_metrics_def metrics_ok_def go_simps)

end
