(* ===== verification/Learning.thy ===== *)
theory Learning
  imports Float64 Prelude
begin

text \<open>
  The learning model behind the carrier selection
  (\<open>apps/carrier-connector/internal/smdp/selection_learning.go\<close>): performance records per carrier,
  moving averages, and selection weights moved by gradient steps and normalised again. All
  arithmetic is binary64; the readings of the clock are arguments.
\<close>

section \<open>State\<close>

record PerformanceMetrics =
  pm_SuccessRate :: f64
  pm_AverageResponseTime :: f64
  pm_Reliability :: f64
  pm_CostEfficiency :: f64
  pm_LastUpdated :: time
  pm_SampleCount :: int

record WeightVector =
  wv_Performance :: f64
  wv_Reliability :: f64
  wv_Cost :: f64
  wv_Region :: f64
  wv_Capability :: f64

record SelectionRecord =
  sr_CarrierID :: string
  sr_SelectedAt :: time
  sr_ExpectedScore :: f64
  sr_ActualScore :: f64
  sr_Performance :: f64
  sr_ResponseTime :: duration
  sr_Success :: bool
  sr_SelectionReason :: string

record LearningModel =
  lm_carrierPerformance :: "string \<rightharpoonup> PerformanceMetrics"
  lm_learningRate :: f64
  lm_adaptationThreshold :: f64
  lm_baseWeights :: WeightVector
  lm_optimizedWeights :: WeightVector
  lm_selectionHistory :: "string \<rightharpoonup> SelectionRecord list"
  lm_momentum :: f64
  lm_regularization :: f64
  lm_decayRate :: f64

definition default_weights :: WeightVector where
  "default_weights = \<lparr>wv_Performance = f64_lit (3/10), wv_Reliability = f64_lit (3/10),
     wv_Cost = f64_lit (2/10), wv_Region = f64_lit (1/10), wv_Capability = f64_lit (1/10)\<rparr>"

definition NewLearningModel :: LearningModel where
  "NewLearningModel = \<lparr>lm_carrierPerformance = Map.empty, lm_learningRate = f64_lit (1/100),
     lm_adaptationThreshold = f64_lit (5/100), lm_baseWeights = default_weights,
     lm_optimizedWeights = default_weights, lm_selectionHistory = Map.empty, lm_momentum = f64_lit (9/10),
     lm_regularization = f64_lit (1/1000), lm_decayRate = f64_lit (995/1000)\<rparr>"

abbreviation zero64 :: f64 where "zero64 \<equiv> Fin False 0"

section \<open>Operations\<close>

text \<open>\<open>d.Milliseconds()\<close>.\<close>

definition Milliseconds :: "duration \<Rightarrow> int" where
  "Milliseconds d = go_quot d 1000000"

definition zero_metrics :: "time \<Rightarrow> PerformanceMetrics" where
  "zero_metrics now = \<lparr>pm_SuccessRate = zero64, pm_AverageResponseTime = zero64, pm_Reliability = zero64,
     pm_CostEfficiency = zero64, pm_LastUpdated = now, pm_SampleCount = 0\<rparr>"

definition moving_average :: "f64 \<Rightarrow> f64 \<Rightarrow> f64 \<Rightarrow> f64" where
  "moving_average alpha x old = f64_add (f64_mul alpha x) (f64_mul (f64_sub (f64_lit 1) alpha) old)"

definition updatePerformanceMetrics :: "string \<Rightarrow> SelectionRecord \<Rightarrow> time \<Rightarrow> time \<Rightarrow> LearningModel \<Rightarrow> LearningModel" where
  "updatePerformanceMetrics carrierID r now1 now2 lm =
     (let metrics = (case lm_carrierPerformance lm carrierID of Some pm \<Rightarrow> pm | None \<Rightarrow> zero_metrics now1);
          alpha = f64_lit (1/10);
          ms = f64_of_int (Milliseconds (sr_ResponseTime r));
          m1 = (if pm_SampleCount metrics = 0
            then metrics\<lparr>pm_SuccessRate := (if \<not> sr_Success r then f64_lit 0 else f64_lit 1),
                   pm_AverageResponseTime := ms,
                   pm_Reliability := f64_div (sr_Performance r) (f64_lit 100)\<rparr>
            else metrics\<lparr>pm_SuccessRate := moving_average alpha (if sr_Success r then f64_lit 1 else f64_lit 0) (pm_SuccessRate metrics),
                   pm_AverageResponseTime := moving_average alpha ms (pm_AverageResponseTime metrics),
                   pm_Reliability := moving_average alpha (f64_div (sr_Performance r) (f64_lit 100)) (pm_Reliability metrics)\<rparr>);
          m2 = m1\<lparr>pm_CostEfficiency := f64_sub (f64_lit 1) (f64_div ms (f64_lit 1000)),
                  pm_LastUpdated := now2, pm_SampleCount := i64 (pm_SampleCount m1 + 1)\<rparr>
      in lm\<lparr>lm_carrierPerformance := (lm_carrierPerformance lm)(carrierID \<mapsto> m2)\<rparr>)"

definition calculateGradients :: "string \<Rightarrow> f64 \<Rightarrow> LearningModel \<Rightarrow> WeightVector" where
  "calculateGradients carrierID err lm =
     (case lm_carrierPerformance lm carrierID of
        None \<Rightarrow> \<lparr>wv_Performance = zero64, wv_Reliability = zero64, wv_Cost = zero64, wv_Region = zero64, wv_Capability = zero64\<rparr>
      | Some metrics \<Rightarrow>
          let grad = (\<lambda>x. f64_mul (f64_mul err (f64_sub x (f64_lit (1/2)))) (f64_lit 2)) in
          \<lparr>wv_Performance = grad (pm_Reliability metrics),
           wv_Reliability = grad (pm_SuccessRate metrics),
           wv_Cost = grad (pm_CostEfficiency metrics),
           wv_Region = f64_mul err (f64_lit (1/10)),
           wv_Capability = f64_mul err (f64_lit (1/10))\<rparr>)"

definition map_weights :: "(f64 \<Rightarrow> f64) \<Rightarrow> WeightVector \<Rightarrow> WeightVector" where
  "map_weights f w = \<lparr>wv_Performance = f (wv_Performance w), wv_Reliability = f (wv_Reliability w),
     wv_Cost = f (wv_Cost w), wv_Region = f (wv_Region w), wv_Capability = f (wv_Capability w)\<rparr>"

definition applyRegularization :: "LearningModel \<Rightarrow> LearningModel" where
  "applyRegularization lm = lm\<lparr>lm_optimizedWeights :=
     map_weights (\<lambda>w. f64_mul w (f64_sub (f64_lit 1) (lm_regularization lm))) (lm_optimizedWeights lm)\<rparr>"

definition weight_sum :: "WeightVector \<Rightarrow> f64" where
  "weight_sum w = f64_add (f64_add (f64_add (f64_add (wv_Performance w) (wv_Reliability w)) (wv_Cost w))
     (wv_Region w)) (wv_Capability w)"

definition normalizeWeights :: "LearningModel \<Rightarrow> LearningModel" where
  "normalizeWeights lm =
     (let w = map_weights (\<lambda>x. if f64_lt x zero64 then zero64 else x) (lm_optimizedWeights lm);
          total = weight_sum w
      in if f64_gt total zero64
         then lm\<lparr>lm_optimizedWeights := map_weights (\<lambda>x. f64_div x total) w\<rparr>
         else lm\<lparr>lm_optimizedWeights := lm_baseWeights lm\<rparr>)"

definition optimizeWeights :: "string \<Rightarrow> f64 \<Rightarrow> LearningModel \<Rightarrow> LearningModel" where
  "optimizeWeights carrierID err lm =
     (let g = calculateGradients carrierID err lm; rate = lm_learningRate lm; w = lm_optimizedWeights lm;
          step = (\<lambda>x d. f64_sub x (f64_mul rate d));
          lm1 = lm\<lparr>lm_optimizedWeights :=
            \<lparr>wv_Performance = step (wv_Performance w) (wv_Performance g),
             wv_Reliability = step (wv_Reliability w) (wv_Reliability g),
             wv_Cost = step (wv_Cost w) (wv_Cost g),
             wv_Region = step (wv_Region w) (wv_Region g),
             wv_Capability = step (wv_Capability w) (wv_Capability g)\<rparr>\<rparr>
      in normalizeWeights (applyRegularization lm1))"

definition UpdateLearning :: "string \<Rightarrow> f64 \<Rightarrow> f64 \<Rightarrow> time \<Rightarrow> time \<Rightarrow> time \<Rightarrow> LearningModel \<Rightarrow> LearningModel" where
  "UpdateLearning carrierID actual expected now1 now2 now3 lm =
     (let r = \<lparr>sr_CarrierID = carrierID, sr_SelectedAt = now1, sr_ExpectedScore = expected,
            sr_ActualScore = actual, sr_Performance = actual, sr_ResponseTime = 0,
            sr_Success = f64_ge actual (f64_lit 70), sr_SelectionReason = ''''\<rparr>;
          history = (case lm_selectionHistory lm carrierID of None \<Rightarrow> [] | Some h \<Rightarrow> h) @ [r];
          history' = (if 100 < length history then tl history else history);
          lm1 = updatePerformanceMetrics carrierID r now2 now3
            (lm\<lparr>lm_selectionHistory := (lm_selectionHistory lm)(carrierID \<mapsto> history')\<rparr>);
          predictionError = f64_sub actual expected;
          lm2 = (if f64_gt (f64_abs predictionError) (lm_adaptationThreshold lm1)
            then optimizeWeights carrierID predictionError lm1 else lm1);
          rate = f64_mul (lm_learningRate lm2) (lm_decayRate lm2)
      in lm2\<lparr>lm_learningRate := (if f64_lt rate (f64_lit (1/1000)) then f64_lit (1/1000) else rate)\<rparr>)"

definition GetOptimizedWeights :: "LearningModel \<Rightarrow> WeightVector" where
  "GetOptimizedWeights lm = lm_optimizedWeights lm"

definition lm_GetCarrierPerformance :: "string \<Rightarrow> LearningModel \<Rightarrow> PerformanceMetrics option" where
  "lm_GetCarrierPerformance carrierID lm = lm_carrierPerformance lm carrierID"

definition PredictPerformance :: "string \<Rightarrow> LearningModel \<Rightarrow> f64" where
  "PredictPerformance carrierID lm =
     (case lm_carrierPerformance lm carrierID of
        None \<Rightarrow> f64_lit 75
      | Some metrics \<Rightarrow>
          let w = lm_optimizedWeights lm;
              prediction =
                f64_add (f64_add (f64_add (f64_add
                  (f64_mul (f64_mul (pm_SuccessRate metrics) (wv_Reliability w)) (f64_lit 100))
                  (f64_mul (f64_mul (f64_sub (f64_lit 1) (f64_div (pm_AverageResponseTime metrics) (f64_lit 1000)))
                     (wv_Performance w)) (f64_lit 100)))
                  (f64_mul (f64_mul (pm_CostEfficiency metrics) (wv_Cost w)) (f64_lit 100)))
                  (f64_mul (f64_mul (f64_lit (1/2)) (wv_Region w)) (f64_lit 100)))
                  (f64_mul (f64_mul (f64_lit (1/2)) (wv_Capability w)) (f64_lit 100))
          in f64_min (f64_lit 100) (f64_max (f64_lit 0) prediction))"

record LearningStats =
  ls_learning_rate :: f64
  ls_total_carriers_tracked :: int
  ls_optimized_weights :: WeightVector
  ls_base_weights :: WeightVector
  ls_improvement :: "f64 option"

definition average_score :: "SelectionRecord list \<Rightarrow> f64" where
  "average_score h = f64_div (foldl (\<lambda>acc r. f64_add acc (sr_ActualScore r)) (f64_lit 0) h) (f64_of_int (int (length h)))"

text \<open>The statistics; \<open>ks\<close> is the order in which the loop ranges over the histories and \<open>tracked\<close>
  lists the carriers with metrics.\<close>

definition GetLearningStats :: "string list \<Rightarrow> string list \<Rightarrow> LearningModel \<Rightarrow> LearningStats" where
  "GetLearningStats tracked ks lm =
     (let (total, count) = foldl (\<lambda>(t, n) k.
            case lm_selectionHistory lm k of
              None \<Rightarrow> (t, n)
            | Some h \<Rightarrow>
                if 10 < length h then
                  (f64_add t (f64_sub (average_score (drop (length h div 2) h))
                     (average_score (take (length h div 2) h))), n + 1)
                else (t, n)) (f64_lit 0, 0) ks
      in \<lparr>ls_learning_rate = lm_learningRate lm, ls_total_carriers_tracked = int (length tracked),
          ls_optimized_weights = lm_optimizedWeights lm, ls_base_weights = lm_baseWeights lm,
          ls_improvement = (if 0 < count then Some (f64_div total (f64_of_int count)) else None)\<rparr>)"

section \<open>Bounds\<close>

definition share :: "f64 \<Rightarrow> bool" where
  "share x \<longleftrightarrow> f64_in 0 1 x \<and> f64_ok x"

fun all_weights :: "(f64 \<Rightarrow> bool) \<Rightarrow> WeightVector \<Rightarrow> bool" where
  "all_weights P w = (P (wv_Performance w) \<and> P (wv_Reliability w) \<and> P (wv_Cost w) \<and> P (wv_Region w) \<and> P (wv_Capability w))"

declare all_weights.simps [simp del]

lemma all_weights_map: "all_weights P w \<Longrightarrow> (\<And>x. P x \<Longrightarrow> Q (f x)) \<Longrightarrow> all_weights Q (map_weights f w)"
  by (simp add: all_weights.simps map_weights_def)

lemma share_lit: "0 \<le> r \<Longrightarrow> r \<le> 1 \<Longrightarrow> share (f64_lit r)"
  by (simp add: share_def f64_in_lit)

lemma share_zero [simp]: "share zero64"
  by (simp add: share_def)

text \<open>A moving average of shares is a share: with the rounded weights 0.1 and 0.9 the two products
  still add up to at most one, because the last rounding lands on it.\<close>

lemma rnd_alpha: "rnd (1/10) = 3602879701896397 / 36028797018963968"
  by code_simp

lemma alpha_value: "f64_lit (1/10) = Fin False (3602879701896397 / 36028797018963968)"
  by (simp add: f64_lit_def f64_round_def Let_def rnd_alpha)

lemma rnd_beta: "rnd (32425917317067571 / 36028797018963968) = 8106479329266893 / 9007199254740992"
  by code_simp

lemma lit_one: "f64_lit 1 = Fin False 1"
  using rep64_1 by (simp add: f64_lit_def f64_round_def Let_def rep64_def)

lemma one_minus_alpha: "f64_sub (f64_lit 1) (f64_lit (1/10)) = Fin False (8106479329266893 / 9007199254740992)"
  by (simp add: f64_sub_def alpha_value lit_one f64_round_def Let_def rnd_beta)

lemma moving_average_alpha: "moving_average (f64_lit (1/10)) x y =
    f64_add (f64_mul (Fin False (3602879701896397 / 36028797018963968)) x)
      (f64_mul (Fin False (8106479329266893 / 9007199254740992)) y)"
  unfolding moving_average_def one_minus_alpha by (simp only: alpha_value)

lemma rep64_alpha: "rep64 (3602879701896397 / 36028797018963968)" "rep64 (8106479329266893 / 9007199254740992)"
  by code_simp+

lemma rnd_ema: "rnd (36028797018963969 / 36028797018963968) = 1"
  by code_simp

lemma moving_average_share:
  assumes "share x" "share y"
  shows "share (moving_average (f64_lit (1/10)) x y)"
proof -
  let ?a = "3602879701896397 / 36028797018963968 :: rat" and ?b = "8106479329266893 / 9007199254740992 :: rat"
  have "f64_in (?a * 0) (?a * 1) (f64_mul (Fin False ?a) x)"
    using assms(1) rep64_alpha by (intro f64_in_mul[of ?a ?a]) (auto simp: share_def)
  moreover have "f64_in (?b * 0) (?b * 1) (f64_mul (Fin False ?b) y)"
    using assms(2) rep64_alpha by (intro f64_in_mul[of ?b ?b]) (auto simp: share_def)
  ultimately have "f64_in (rnd (0 + 0)) (rnd (?a + ?b)) (f64_add (f64_mul (Fin False ?a) x) (f64_mul (Fin False ?b) y))"
    by (intro f64_in_add_rnd) (simp_all add: rnd_ema)
  then have "f64_in 0 1 (moving_average (f64_lit (1/10)) x y)"
    by (simp add: moving_average_alpha rnd_ema)
  moreover have "f64_ok (moving_average (f64_lit (1/10)) x y)"
    using assms by (simp add: moving_average_def share_def)
  ultimately show ?thesis by (simp add: share_def)
qed

lemma moving_average_zero:
  "f64_in 0 0 x \<Longrightarrow> f64_in 0 0 y \<Longrightarrow> f64_in 0 0 (moving_average (f64_lit (1/10)) x y)
    \<and> f64_ok (moving_average (f64_lit (1/10)) x y)"
  unfolding moving_average_alpha
  by (cases x; cases y) (auto simp: f64_round_def)

text \<open>The invariant of the model.\<close>

definition metrics_inv :: "PerformanceMetrics \<Rightarrow> bool" where
  "metrics_inv pm \<longleftrightarrow> share (pm_SuccessRate pm) \<and> share (pm_Reliability pm)
     \<and> f64_in 0 0 (pm_AverageResponseTime pm) \<and> f64_ok (pm_AverageResponseTime pm)
     \<and> f64_in 1 1 (pm_CostEfficiency pm) \<and> share (pm_CostEfficiency pm)"

definition learning_inv :: "LearningModel \<Rightarrow> bool" where
  "learning_inv lm \<longleftrightarrow> all_weights share (lm_optimizedWeights lm) \<and> all_weights share (lm_baseWeights lm)
     \<and> f64_in (rnd (1/1000)) (rnd (1/100)) (lm_learningRate lm) \<and> f64_ok (lm_learningRate lm)
     \<and> lm_regularization lm = f64_lit (1/1000) \<and> lm_decayRate lm = f64_lit (995/1000)
     \<and> (\<forall>k pm. lm_carrierPerformance lm k = Some pm \<longrightarrow> metrics_inv pm)
     \<and> (\<forall>k h. lm_selectionHistory lm k = Some h \<longrightarrow> length h \<le> 100)"

lemma learning_inv_New: "learning_inv NewLearningModel"
proof -
  have "rep64 (rnd (1/1000))" "rep64 (rnd (1/100))" "rnd (1/1000 :: rat) \<le> rnd (1/100)" by code_simp+
  moreover have "f64_in (rnd (1/1000)) (rnd (1/100)) (f64_lit (1/100))" by code_simp
  ultimately show ?thesis
    by (simp add: learning_inv_def NewLearningModel_def default_weights_def all_weights.simps share_lit)
qed

text \<open>Normalisation makes shares of any weights that are finite and not too large.\<close>

definition small :: "rat \<Rightarrow> f64 \<Rightarrow> bool" where
  "small b x \<longleftrightarrow> f64_in (- b) b x \<and> f64_ok x"

definition bounded64 :: "rat \<Rightarrow> f64 \<Rightarrow> bool" where
  "bounded64 b x \<longleftrightarrow> f64_in 0 b x \<and> f64_ok x"

lemma part_add:
  assumes "bounded64 b x" "bounded64 d y" "rep64 (b + d)"
  shows "bounded64 (b + d) (f64_add x y)" "f64_le x (f64_add x y)" "f64_le y (f64_add x y)"
proof -
  have x: "f64_in 0 b x" "f64_ok x" and y: "f64_in 0 d y" "f64_ok y" using assms(1,2) by (auto simp: bounded64_def)
  from f64_le_add[OF x(1) y(1) x(2) assms(3) order_refl] y(2) x(2)
  show "bounded64 (b + d) (f64_add x y)" "f64_le x (f64_add x y)" by (auto simp: bounded64_def)
  have "rep64 (d + b)" using assms(3) by (simp add: add.commute)
  from f64_le_add(1)[OF y(1) x(1) y(2) this order_refl] show "f64_le y (f64_add x y)"
    by (simp add: f64_add_commute[of x y])
qed

lemma weight_sum_part:
  assumes "all_weights (bounded64 512) w"
  shows "bounded64 2560 (weight_sum w)" "all_weights (\<lambda>x. f64_le x (weight_sum w)) w"
proof -
  note w = assms[unfolded all_weights.simps]
  let ?s2 = "f64_add (wv_Performance w) (wv_Reliability w)"
  let ?s3 = "f64_add ?s2 (wv_Cost w)" and ?s4 = "f64_add (f64_add ?s2 (wv_Cost w)) (wv_Region w)"
  have s2: "bounded64 1024 ?s2" "f64_le (wv_Performance w) ?s2" "f64_le (wv_Reliability w) ?s2"
    using part_add[of 512 "wv_Performance w" 512 "wv_Reliability w"] w by simp_all
  have s3: "bounded64 1536 ?s3" "f64_le ?s2 ?s3" "f64_le (wv_Cost w) ?s3"
    using part_add[OF s2(1), of 512 "wv_Cost w"] w by simp_all
  have s4: "bounded64 2048 ?s4" "f64_le ?s3 ?s4" "f64_le (wv_Region w) ?s4"
    using part_add[OF s3(1), of 512 "wv_Region w"] w by simp_all
  have s5: "bounded64 2560 (weight_sum w)" "f64_le ?s4 (weight_sum w)" "f64_le (wv_Capability w) (weight_sum w)"
    using part_add[OF s4(1), of 512 "wv_Capability w"] w by (simp_all add: weight_sum_def)
  show "bounded64 2560 (weight_sum w)" by (rule s5)
  show "all_weights (\<lambda>x. f64_le x (weight_sum w)) w"
    unfolding all_weights.simps using s2(2,3) s3(2,3) s4(2,3) s5(2,3) by (metis f64_le_trans)
qed

lemma share_of_sum:
  assumes "all_weights (bounded64 512) w" "f64_gt (weight_sum w) zero64"
  shows "all_weights share (map_weights (\<lambda>x. f64_div x (weight_sum w)) w)"
proof -
  have "all_weights (\<lambda>x. bounded64 512 x \<and> f64_le x (weight_sum w)) w"
    using weight_sum_part(2)[OF assms(1)] assms(1) by (simp add: all_weights.simps)
  moreover have "share (f64_div x (weight_sum w))" if "bounded64 512 x \<and> f64_le x (weight_sum w)" for x
    using that assms(2) weight_sum_part(1)[OF assms(1)]
    by (auto simp: share_def bounded64_def intro: f64_in_share)
  ultimately show ?thesis by (rule all_weights_map)
qed

lemma normalize_shares:
  assumes "all_weights (small 512) (lm_optimizedWeights lm)" "all_weights share (lm_baseWeights lm)"
  shows "all_weights share (lm_optimizedWeights (normalizeWeights lm))"
proof -
  let ?w = "map_weights (\<lambda>x. if f64_lt x zero64 then zero64 else x) (lm_optimizedWeights lm)"
  have "bounded64 512 (if f64_lt x zero64 then zero64 else x)" if "small 512 x" for x
    using that by (cases x) (auto simp: bounded64_def small_def)
  then have "all_weights (bounded64 512) ?w" by (rule all_weights_map[OF assms(1)])
  from share_of_sum[OF this] assms(2) show ?thesis by (simp add: normalizeWeights_def Let_def)
qed

lemma normalize_frame:
  "normalizeWeights lm = lm\<lparr>lm_optimizedWeights := lm_optimizedWeights (normalizeWeights lm)\<rparr>"
  by (simp add: normalizeWeights_def Let_def)

lemma gradient_small:
  assumes "small 128 err" "share x"
  shows "small 256 (f64_mul (f64_mul err (f64_sub x (f64_lit (1/2)))) (f64_lit 2))"
proof -
  have half: "f64_in (1/2) (1/2) (f64_lit (1/2))" "rep64 (1/2)" by code_simp+
  have "f64_in (0 - 1/2) (1 - 1/2) (f64_sub x (f64_lit (1/2)))"
    using assms(2) half by (intro f64_in_sub) (auto simp: share_def)
  then have "f64_in (- 1) 1 (f64_sub x (f64_lit (1/2)))" by (rule f64_in_weaken) auto
  then have "f64_in (- (128 * 1)) (128 * 1) (f64_mul err (f64_sub x (f64_lit (1/2))))"
    using assms(1) by (intro f64_in_mul_sym) (auto simp: small_def)
  moreover have "f64_in (- 2) 2 (f64_lit 2)" by code_simp
  ultimately have "f64_in (- (128 * 2)) (128 * 2) (f64_mul (f64_mul err (f64_sub x (f64_lit (1/2)))) (f64_lit 2))"
    by (intro f64_in_mul_sym) auto
  then show ?thesis using assms by (simp add: small_def share_def)
qed

lemma gradients_small:
  assumes "small 128 err" "\<forall>pm. lm_carrierPerformance lm k = Some pm \<longrightarrow> metrics_inv pm \<and> f64_ok (pm_CostEfficiency pm)"
  shows "all_weights (small 256) (calculateGradients k err lm)"
proof (cases "lm_carrierPerformance lm k")
  case None
  then show ?thesis by (simp add: calculateGradients_def all_weights.simps small_def)
next
  case (Some pm)
  then have pm: "metrics_inv pm" "share (pm_CostEfficiency pm)"
    using assms(2) by (auto simp: metrics_inv_def share_def intro: f64_in_weaken)
  have "f64_in (- 1) 1 (f64_lit (1/10))" by code_simp
  then have "f64_in (- (128 * 1)) (128 * 1) (f64_mul err (f64_lit (1/10)))"
    using assms(1) by (intro f64_in_mul_sym) (auto simp: small_def)
  then have "f64_in (- 256) 256 (f64_mul err (f64_lit (1/10)))" by (rule f64_in_weaken) auto
  with Some pm assms(1) show ?thesis
    by (simp add: calculateGradients_def all_weights.simps gradient_small metrics_inv_def Let_def)
      (simp add: small_def)
qed

lemma small_weaken: "small b x \<Longrightarrow> b \<le> d \<Longrightarrow> small d x"
  unfolding small_def by (auto elim: f64_in_weaken)

lemma share_small: "share x \<Longrightarrow> small 1 x"
  unfolding share_def small_def by (auto elim: f64_in_weaken)

lemma f64_lit_exact: "\<bar>rnd r\<bar> < 2 ^ 1024 \<Longrightarrow> f64_in (rnd r) (rnd r) (f64_lit r)"
  by (simp add: f64_lit_def f64_round_def Let_def)

lemma rates: "rnd (1/1000) = 1152921504606847 / 1152921504606846976"
    "rnd (1/100) = 5764607523034235 / 576460752303423488"
  by code_simp+

text \<open>One gradient step and regularization keep the weights small.\<close>

lemma step_small:
  assumes "share x" "small 256 d" "f64_in (rnd (1/1000)) (rnd (1/100)) rate" "f64_ok rate"
  shows "small 512 (f64_mul (f64_sub x (f64_mul rate d)) (f64_sub (f64_lit 1) (f64_lit (1/1000))))"
proof -
  have "f64_in (- 1) 1 rate" using assms(3) by (rule f64_in_weaken) (simp_all add: rates)
  then have "f64_in (- (1 * 256)) (1 * 256) (f64_mul rate d)"
    using assms(2) by (intro f64_in_mul_sym) (auto simp: small_def)
  then have "f64_in (0 - 256) (1 - - 256) (f64_sub x (f64_mul rate d))"
    using assms(1) by (intro f64_in_sub) (auto simp: share_def)
  then have x: "f64_in (- 257) 257 (f64_sub x (f64_mul rate d))" by (rule f64_in_weaken) auto
  have "f64_in 1 1 (f64_lit 1)" "f64_in 0 1 (f64_lit (1/1000))" by (intro f64_in_lit; simp)+
  then have "f64_in (1 - 1) (1 - 0) (f64_sub (f64_lit 1) (f64_lit (1/1000)))" by (intro f64_in_sub) auto
  then have "f64_in (- 1) 1 (f64_sub (f64_lit 1) (f64_lit (1/1000)))" by (rule f64_in_weaken) auto
  with x have "f64_in (- (257 * 1)) (257 * 1) (f64_mul (f64_sub x (f64_mul rate d)) (f64_sub (f64_lit 1) (f64_lit (1/1000))))"
    by (intro f64_in_mul_sym) auto
  then have "f64_in (- 512) 512 (f64_mul (f64_sub x (f64_mul rate d)) (f64_sub (f64_lit 1) (f64_lit (1/1000))))"
    by (rule f64_in_weaken) auto
  then show ?thesis using assms by (simp add: small_def share_def)
qed

lemma optimize_inv:
  assumes "learning_inv lm" "small 128 err"
  shows "learning_inv (optimizeWeights k err lm)"
proof -
  let ?g = "calculateGradients k err lm" and ?w = "lm_optimizedWeights lm" and ?rate = "lm_learningRate lm"
  let ?lm = "applyRegularization (lm\<lparr>lm_optimizedWeights :=
     \<lparr>wv_Performance = f64_sub (wv_Performance ?w) (f64_mul ?rate (wv_Performance ?g)),
      wv_Reliability = f64_sub (wv_Reliability ?w) (f64_mul ?rate (wv_Reliability ?g)),
      wv_Cost = f64_sub (wv_Cost ?w) (f64_mul ?rate (wv_Cost ?g)),
      wv_Region = f64_sub (wv_Region ?w) (f64_mul ?rate (wv_Region ?g)),
      wv_Capability = f64_sub (wv_Capability ?w) (f64_mul ?rate (wv_Capability ?g))\<rparr>\<rparr>)"
  have eq: "optimizeWeights k err lm = normalizeWeights ?lm"
    by (simp add: optimizeWeights_def Let_def)
  have "all_weights (small 256) ?g"
    using assms by (intro gradients_small) (auto simp: learning_inv_def metrics_inv_def share_def)
  then have "all_weights (small 512) (lm_optimizedWeights ?lm)"
    using assms(1) unfolding all_weights.simps applyRegularization_def map_weights_def learning_inv_def
    by (simp add: step_small)
  then have "all_weights share (lm_optimizedWeights (normalizeWeights ?lm))"
    using assms(1) by (intro normalize_shares) (auto simp: learning_inv_def applyRegularization_def)
  with assms(1) show ?thesis
    unfolding eq by (subst normalize_frame) (simp add: learning_inv_def applyRegularization_def)
qed

lemma metrics_update_inv:
  assumes "learning_inv lm" "f64_in 0 100 (sr_Performance r)" "f64_ok (sr_Performance r)" "sr_ResponseTime r = 0"
  shows "learning_inv (updatePerformanceMetrics k r now1 now2 lm)"
proof -
  have lit: "f64_in 100 100 (f64_lit 100)" "f64_in 1000 1000 (f64_lit 1000)" "f64_in 1 1 (f64_lit 1)"
    by (intro f64_in_lit; simp)+
  have "f64_in (0 / 100) (100 / 100) (f64_div (sr_Performance r) (f64_lit 100))"
    using assms(2) lit(1) by (intro f64_in_div) auto
  then have rel: "share (f64_div (sr_Performance r) (f64_lit 100))" using assms(3) by (simp add: share_def)
  have ms: "f64_of_int (Milliseconds 0) = zero64" by (simp add: Milliseconds_def)
  have "f64_in (0 / 1000) (0 / 1000) (f64_div zero64 (f64_lit 1000))" using lit(2) by (intro f64_in_div) auto
  then have "f64_in (1 - 0) (1 - 0) (f64_sub (f64_lit 1) (f64_div zero64 (f64_lit 1000)))"
    using lit(3) by (intro f64_in_sub) auto
  then have cost: "f64_in 1 1 (f64_sub (f64_lit 1) (f64_div zero64 (f64_lit 1000)))"
    "share (f64_sub (f64_lit 1) (f64_div zero64 (f64_lit 1000)))"
    by (auto simp: share_def elim: f64_in_weaken)
  have lits: "share (f64_lit 0)" "share (f64_lit 1)" by (simp_all add: share_lit)
  have old: "pm_SampleCount pm \<noteq> 0 \<Longrightarrow> lm_carrierPerformance lm k = Some pm \<Longrightarrow> metrics_inv pm" for pm
    using assms(1) by (simp add: learning_inv_def)
  obtain pm where pm: "lm_carrierPerformance (updatePerformanceMetrics k r now1 now2 lm) = (lm_carrierPerformance lm)(k \<mapsto> pm)"
    "metrics_inv pm"
  proof (cases "lm_carrierPerformance lm k")
    case None
    show ?thesis
      by (rule that, simp add: updatePerformanceMetrics_def Let_def)
        (use None cost rel lits in \<open>simp add: metrics_inv_def zero_metrics_def assms(4) ms\<close>)
  next
    case (Some pm0)
    show ?thesis
      by (rule that, simp add: updatePerformanceMetrics_def Let_def)
        (use Some cost rel lits old[of pm0] in \<open>simp add: metrics_inv_def assms(4) ms moving_average_share moving_average_zero\<close>)
  qed
  have "updatePerformanceMetrics k r now1 now2 lm =
      lm\<lparr>lm_carrierPerformance := lm_carrierPerformance (updatePerformanceMetrics k r now1 now2 lm)\<rparr>"
    by (simp add: updatePerformanceMetrics_def Let_def)
  note eq = this[unfolded pm(1)]
  show ?thesis unfolding eq using assms(1) pm(2) by (auto simp: learning_inv_def)
qed

lemma decay_inv:
  assumes "learning_inv lm"
  shows "learning_inv (lm\<lparr>lm_learningRate := (let rate = f64_mul (lm_learningRate lm) (lm_decayRate lm) in
     if f64_lt rate (f64_lit (1/1000)) then f64_lit (1/1000) else rate)\<rparr>)"
proof -
  let ?rate = "f64_mul (lm_learningRate lm) (lm_decayRate lm)"
  have lr: "f64_in 0 (rnd (1/100)) (lm_learningRate lm)"
    using assms unfolding learning_inv_def by (auto elim: f64_in_weaken simp: rates)
  have d: "f64_in 0 1 (lm_decayRate lm)"
    using assms by (simp add: learning_inv_def f64_in_lit)
  have "rep64 (rnd (1/100) * 1)" by (simp only: mult_1_right rep64_def rnd_idem) (simp add: rates)
  with lr d have r: "f64_in (0 * 0) (rnd (1/100) * 1) ?rate" by (intro f64_in_mul) auto
  have lit: "f64_in (rnd (1/1000)) (rnd (1/1000)) (f64_lit (1/1000))" by (rule f64_lit_exact) (simp add: rates)
  have "f64_in (rnd (1/1000)) (rnd (1/100)) (if f64_lt ?rate (f64_lit (1/1000)) then f64_lit (1/1000) else ?rate)"
  proof (cases "f64_lt ?rate (f64_lit (1/1000))")
    case True
    then show ?thesis using lit by (auto elim!: f64_in_weaken simp: rates)
  next
    case False
    then have "rnd (1/1000) \<le> f64_val ?rate"
      using f64_lt_val[OF r lit] lit by (cases "f64_lit (1/1000)") auto
    then show ?thesis using False r by (cases ?rate) auto
  qed
  moreover have "f64_ok (if f64_lt ?rate (f64_lit (1/1000)) then f64_lit (1/1000) else ?rate)"
    using assms by (simp add: learning_inv_def)
  ultimately show ?thesis using assms unfolding learning_inv_def Let_def by simp
qed

lemma UpdateLearning_inv:
  assumes "learning_inv lm" "f64_in 0 100 actual" "f64_ok actual" "f64_in 0 100 expected" "f64_ok expected"
  shows "learning_inv (UpdateLearning k actual expected now1 now2 now3 lm)"
proof -
  let ?r = "\<lparr>sr_CarrierID = k, sr_SelectedAt = now1, sr_ExpectedScore = expected, sr_ActualScore = actual,
    sr_Performance = actual, sr_ResponseTime = 0, sr_Success = f64_ge actual (f64_lit 70), sr_SelectionReason = ''''\<rparr>"
  let ?h = "(case lm_selectionHistory lm k of None \<Rightarrow> [] | Some h \<Rightarrow> h) @ [?r]"
  let ?lm0 = "lm\<lparr>lm_selectionHistory := (lm_selectionHistory lm)(k \<mapsto> (if 100 < length ?h then tl ?h else ?h))\<rparr>"
  let ?lm1 = "updatePerformanceMetrics k ?r now2 now3 ?lm0"
  let ?err = "f64_sub actual expected"
  let ?lm2 = "if f64_gt (f64_abs ?err) (lm_adaptationThreshold ?lm1) then optimizeWeights k ?err ?lm1 else ?lm1"
  have "length ?h \<le> 101" using assms(1) by (auto simp: learning_inv_def split: option.splits)
  then have "learning_inv ?lm0" using assms(1) by (auto simp: learning_inv_def)
  then have lm1: "learning_inv ?lm1" using assms(2,3) by (intro metrics_update_inv) auto
  have "f64_in (0 - 100) (100 - 0) ?err" using assms(2,4) by (intro f64_in_sub) auto
  then have "f64_in (- 128) 128 ?err" by (rule f64_in_weaken) auto
  then have "small 128 ?err" using assms(3,5) by (simp add: small_def)
  then have "learning_inv ?lm2" using lm1 by (simp add: optimize_inv)
  from decay_inv[OF this] show ?thesis unfolding UpdateLearning_def Let_def .
qed

text \<open>The prediction, under the invariant.\<close>

lemma part_mul:
  assumes "bounded64 1 x" "share y"
  shows "bounded64 100 (f64_mul (f64_mul x y) (f64_lit 100))"
proof -
  have "f64_in 100 100 (f64_lit 100)" by (rule f64_in_lit) auto
  moreover have "f64_in (0 * 0) (1 * 1) (f64_mul x y)"
    using assms unfolding bounded64_def share_def by (intro f64_in_mul) simp_all
  ultimately have "f64_in (0 * 0 * 100) (1 * 1 * 100) (f64_mul (f64_mul x y) (f64_lit 100))"
    by (intro f64_in_mul[of "0 * 0" "1 * 1" "f64_mul x y"]) simp_all
  then show ?thesis using assms by (simp add: bounded64_def share_def)
qed

lemma metrics_parts:
  assumes "metrics_inv pm"
  shows "bounded64 1 (pm_SuccessRate pm)" "bounded64 1 (pm_CostEfficiency pm)"
    "bounded64 1 (f64_sub (f64_lit 1) (f64_div (pm_AverageResponseTime pm) (f64_lit 1000)))"
proof -
  have "f64_in 1000 1000 (f64_lit 1000)" "f64_in 1 1 (f64_lit 1)" by (intro f64_in_lit; simp)+
  moreover have "f64_in (0 / 1000) (0 / 1000) (f64_div (pm_AverageResponseTime pm) (f64_lit 1000))"
    using assms calculation(1) by (intro f64_in_div) (auto simp: metrics_inv_def)
  ultimately have "f64_in (1 - 0) (1 - 0) (f64_sub (f64_lit 1) (f64_div (pm_AverageResponseTime pm) (f64_lit 1000)))"
    by (intro f64_in_sub) auto
  then have "f64_in 0 1 (f64_sub (f64_lit 1) (f64_div (pm_AverageResponseTime pm) (f64_lit 1000)))"
    by (rule f64_in_weaken) auto
  then show "bounded64 1 (f64_sub (f64_lit 1) (f64_div (pm_AverageResponseTime pm) (f64_lit 1000)))"
    using assms by (simp add: bounded64_def metrics_inv_def)
qed (use assms in \<open>auto simp: metrics_inv_def share_def bounded64_def\<close>)

lemma prediction_in:
  assumes "learning_inv lm"
  shows "f64_in 0 100 (PredictPerformance k lm)"
proof (cases "lm_carrierPerformance lm k")
  case None
  then show ?thesis by (simp add: PredictPerformance_def f64_in_lit)
next
  case (Some pm)
  then have pm: "metrics_inv pm" using assms by (simp add: learning_inv_def)
  let ?w = "lm_optimizedWeights lm"
  have w: "share (wv_Performance ?w)" "share (wv_Reliability ?w)" "share (wv_Cost ?w)" "share (wv_Region ?w)"
    "share (wv_Capability ?w)" using assms by (auto simp: learning_inv_def all_weights.simps)
  have half: "bounded64 1 (f64_lit (1/2))" by (simp add: bounded64_def f64_in_lit)
  obtain p where p: "p = f64_add (f64_add (f64_add (f64_add
      (f64_mul (f64_mul (pm_SuccessRate pm) (wv_Reliability ?w)) (f64_lit 100))
      (f64_mul (f64_mul (f64_sub (f64_lit 1) (f64_div (pm_AverageResponseTime pm) (f64_lit 1000))) (wv_Performance ?w)) (f64_lit 100)))
      (f64_mul (f64_mul (pm_CostEfficiency pm) (wv_Cost ?w)) (f64_lit 100)))
      (f64_mul (f64_mul (f64_lit (1/2)) (wv_Region ?w)) (f64_lit 100)))
      (f64_mul (f64_mul (f64_lit (1/2)) (wv_Capability ?w)) (f64_lit 100))" by blast
  have "bounded64 (100 + 100 + 100 + 100 + 100) p"
    unfolding p by (intro part_add(1) part_mul metrics_parts[OF pm] w half) auto
  then have "f64_in 0 500 p" by (simp add: bounded64_def)
  then have "f64_in (max 0 0) (max 0 500) (f64_max (f64_lit 0) p)" by (intro f64_in_max f64_in_lit) auto
  then have "f64_in (min 100 0) (min 100 500) (f64_min (f64_lit 100) (f64_max (f64_lit 0) p))"
    by (intro f64_in_min f64_in_lit) auto
  then show ?thesis by (simp add: PredictPerformance_def Some Let_def p)
qed

section \<open>Properties\<close>

text \<open>One round of feedback: the carrier, its actual and expected scores and the clock.\<close>

record feedback =
  fb_carrier :: string
  fb_actual :: f64
  fb_expected :: f64
  fb_now :: time

definition learn :: "feedback list \<Rightarrow> LearningModel" where
  "learn fs = foldl (\<lambda>lm f. UpdateLearning (fb_carrier f) (fb_actual f) (fb_expected f) (fb_now f) (fb_now f) (fb_now f) lm)
     NewLearningModel fs"

definition percentage :: "f64 \<Rightarrow> bool" where
  "percentage x \<longleftrightarrow> f64_in 0 100 x \<and> f64_ok x"

lemma learn_inv:
  assumes "list_all (\<lambda>f. percentage (fb_actual f) \<and> percentage (fb_expected f)) fs"
  shows "learning_inv (learn fs)"
proof -
  have "learning_inv lm \<Longrightarrow> learning_inv (foldl (\<lambda>lm f. UpdateLearning (fb_carrier f) (fb_actual f) (fb_expected f)
      (fb_now f) (fb_now f) (fb_now f) lm) lm fs)" for lm
    using assms by (induction fs arbitrary: lm) (auto simp: percentage_def UpdateLearning_inv)
  then show ?thesis unfolding learn_def using learning_inv_New by blast
qed

text \<open>C30. Learning is stable under feedback in percentages: if every performance reported and every
  performance expected is a number of [0, 100], then, in binary64 arithmetic and over any number of
  rounds, every optimized weight stays between 0 and 1, the learning rate between its minimum
  0.001 and its start 0.01, and at most 100 records per carrier are kept. The model itself checks
  no range: the two handlers refuse reports outside [0, 100], and the expected performance is the
  score of the last selection of the carrier.\<close>

theorem learning_stable:
  assumes "list_all (\<lambda>f. percentage (fb_actual f) \<and> percentage (fb_expected f)) fs"
  shows "all_weights (f64_in 0 1) (GetOptimizedWeights (learn fs))
    \<and> f64_in (rnd (1/1000)) (rnd (1/100)) (lm_learningRate (learn fs))
    \<and> (\<forall>k h. lm_selectionHistory (learn fs) k = Some h \<longrightarrow> length h \<le> 100)"
  using learn_inv[OF assms]
  by (simp add: learning_inv_def GetOptimizedWeights_def all_weights.simps share_def)

theorem learning_stable_witness:
  "all_weights (f64_in 0 1) (GetOptimizedWeights (learn
     [\<lparr>fb_carrier = ''a'', fb_actual = f64_lit 90, fb_expected = f64_lit 40, fb_now = 0\<rparr>,
      \<lparr>fb_carrier = ''a'', fb_actual = f64_lit 0, fb_expected = f64_lit 80, fb_now = 1\<rparr>]))"
  using learning_stable[of "[\<lparr>fb_carrier = ''a'', fb_actual = f64_lit 90, fb_expected = f64_lit 40, fb_now = 0\<rparr>,
      \<lparr>fb_carrier = ''a'', fb_actual = f64_lit 0, fb_expected = f64_lit 80, fb_now = 1\<rparr>]"]
  by (simp add: percentage_def f64_in_lit)

text \<open>A prediction is a percentage after any such feedback, for every carrier.\<close>

theorem prediction_percentage:
  assumes "list_all (\<lambda>f. percentage (fb_actual f) \<and> percentage (fb_expected f)) fs"
  shows "f64_in 0 100 (PredictPerformance k (learn fs))"
  using learn_inv[OF assms] by (rule prediction_in)

theorem prediction_percentage_witness:
  "f64_in 0 100 (PredictPerformance ''a'' (learn
     [\<lparr>fb_carrier = ''a'', fb_actual = f64_lit 100, fb_expected = f64_lit 3, fb_now = 0\<rparr>]))"
  by (rule prediction_percentage) (simp add: percentage_def f64_in_lit)

text \<open>The model never learns response times or cost: no update records a response time, so
  every carrier it tracks has an average response time of zero and the full cost efficiency 1.\<close>

theorem learning_ignores_response_time:
  assumes "list_all (\<lambda>f. percentage (fb_actual f) \<and> percentage (fb_expected f)) fs"
    and "lm_GetCarrierPerformance k (learn fs) = Some pm"
  shows "f64_in 0 0 (pm_AverageResponseTime pm) \<and> f64_in 1 1 (pm_CostEfficiency pm)"
  using learn_inv[OF assms(1)] assms(2)
  by (simp add: learning_inv_def metrics_inv_def lm_GetCarrierPerformance_def)

theorem learning_ignores_response_time_witness:
  "\<exists>pm. lm_GetCarrierPerformance ''a'' (learn [\<lparr>fb_carrier = ''a'', fb_actual = f64_lit 100, fb_expected = f64_lit 100, fb_now = 0\<rparr>]) = Some pm
     \<and> f64_in 0 0 (pm_AverageResponseTime pm)"
proof -
  let ?fs = "[\<lparr>fb_carrier = ''a'', fb_actual = f64_lit 100, fb_expected = f64_lit 100, fb_now = 0\<rparr>]"
  have ok: "list_all (\<lambda>f. percentage (fb_actual f) \<and> percentage (fb_expected f)) ?fs"
    by (simp add: percentage_def f64_in_lit)
  have keep: "lm_carrierPerformance (optimizeWeights k e lm) = lm_carrierPerformance lm" for k e lm
    by (simp add: optimizeWeights_def normalizeWeights_def applyRegularization_def Let_def)
  have "\<exists>pm. lm_carrierPerformance (learn ?fs) ''a'' = Some pm"
    by (simp add: learn_def UpdateLearning_def updatePerformanceMetrics_def Let_def keep)
  with learning_ignores_response_time[OF ok] show ?thesis
    by (auto simp: lm_GetCarrierPerformance_def)
qed

end
