(* ===== verification/Sorting.thy ===== *)
theory Sorting
  imports Prelude "HOL-Library.Multiset"
begin

text \<open>
  The contract of \<open>sort.Slice\<close>, for every component that sorts: the result is a permutation, and
  when the comparison is a strict weak order on the elements no element is less than an earlier
  one. The order of equal elements is left open, as the library does. The interpretation is the
  insertion sort the library runs on short slices.
\<close>

definition weak_order_on :: "'a set \<Rightarrow> ('a \<Rightarrow> 'a \<Rightarrow> bool) \<Rightarrow> bool" where
  "weak_order_on A lt \<longleftrightarrow> (\<forall>x \<in> A. \<forall>y \<in> A. lt x y \<longrightarrow> \<not> lt y x) \<and>
     (\<forall>x \<in> A. \<forall>y \<in> A. \<forall>z \<in> A. \<not> lt y x \<longrightarrow> \<not> lt z y \<longrightarrow> \<not> lt z x)"

lemma weak_orderI:
  "(\<And>x y. lt x y \<Longrightarrow> \<not> lt y x) \<Longrightarrow> (\<And>x y z. \<not> lt y x \<Longrightarrow> \<not> lt z y \<Longrightarrow> \<not> lt z x) \<Longrightarrow> weak_order_on A lt"
  unfolding weak_order_on_def by blast

lemma weak_order_key: "weak_order_on A (\<lambda>x y. (f x :: 'b :: linorder) < f y)"
  by (rule weak_orderI, simp) (metis not_less order_trans)

lemma weak_order_key_desc: "weak_order_on A (\<lambda>x y. (f y :: 'b :: linorder) < f x)"
  by (rule weak_orderI, simp) (metis not_less order_trans)

lemma weak_order_mono: "weak_order_on A lt \<Longrightarrow> B \<subseteq> A \<Longrightarrow> weak_order_on B lt"
  unfolding weak_order_on_def by blast

lemma weak_order_asym: "weak_order_on A lt \<Longrightarrow> x \<in> A \<Longrightarrow> y \<in> A \<Longrightarrow> lt x y \<Longrightarrow> \<not> lt y x"
  unfolding weak_order_on_def by blast

lemma weak_order_trans:
  "weak_order_on A lt \<Longrightarrow> x \<in> A \<Longrightarrow> y \<in> A \<Longrightarrow> z \<in> A \<Longrightarrow> \<not> lt y x \<Longrightarrow> \<not> lt z y \<Longrightarrow> \<not> lt z x"
  unfolding weak_order_on_def by blast

lemma weak_order_cong:
  assumes "weak_order_on A lt" "\<forall>x \<in> A. \<forall>y \<in> A. lt' x y = lt x y"
  shows "weak_order_on A lt'"
  unfolding weak_order_on_def
proof (intro conjI ballI impI)
  fix x y assume "x \<in> A" "y \<in> A" "lt' x y"
  then show "\<not> lt' y x" using assms(2) weak_order_asym[OF assms(1), of x y] by simp
next
  fix x y z assume "x \<in> A" "y \<in> A" "z \<in> A" "\<not> lt' y x" "\<not> lt' z y"
  then show "\<not> lt' z x" using assms(2) weak_order_trans[OF assms(1), of x y z] by simp
qed

locale sort_slice =
  fixes srt :: "('a \<Rightarrow> 'a \<Rightarrow> bool) \<Rightarrow> 'a list \<Rightarrow> 'a list"
  assumes permutes: "mset (srt lt xs) = mset xs"
    and sorts: "weak_order_on (set xs) lt \<Longrightarrow> sorted_wrt (\<lambda>x y. \<not> lt y x) (srt lt xs)"
begin

lemma elements [simp]: "set (srt lt xs) = set xs"
  using arg_cong[OF permutes, of set_mset lt xs] by simp

lemma nonempty [simp]: "srt lt xs = [] \<longleftrightarrow> xs = []"
  using arg_cong[OF permutes, of "\<lambda>m. m = {#}" lt xs] by simp

lemma same_length [simp]: "length (srt lt xs) = length xs"
  using arg_cong[OF permutes, of size lt xs] by simp

text \<open>The first element of a sorted slice comes before no other.\<close>

lemma first_least:
  assumes "xs \<noteq> []" "weak_order_on (set xs) lt"
  shows "hd (srt lt xs) \<in> set xs" "\<forall>x \<in> set xs. \<not> lt x (hd (srt lt xs))"
proof -
  obtain y ys where y: "srt lt xs = y # ys" using assms(1) by (cases "srt lt xs") auto
  have xs: "set xs = insert y (set ys)" using elements[of lt xs] unfolding y by simp
  then show "hd (srt lt xs) \<in> set xs" by (simp add: y)
  have "\<forall>x \<in> set ys. \<not> lt x y" using sorts[OF assms(2)] y by simp
  moreover have "\<not> lt y y" using weak_order_asym[OF assms(2), of y y] xs by blast
  ultimately show "\<forall>x \<in> set xs. \<not> lt x (hd (srt lt xs))" by (simp add: y xs)
qed

end

section \<open>Insertion sort\<close>

text \<open>\<open>sift\<close> is the inner loop: the new element moves left past the elements it is less than; the
  sorted part is kept in reverse.\<close>

fun sift :: "('a \<Rightarrow> 'a \<Rightarrow> bool) \<Rightarrow> 'a \<Rightarrow> 'a list \<Rightarrow> 'a list" where
  "sift lt x [] = [x]"
| "sift lt x (y # ys) = (if lt x y then y # sift lt x ys else x # y # ys)"

definition insertionSort :: "('a \<Rightarrow> 'a \<Rightarrow> bool) \<Rightarrow> 'a list \<Rightarrow> 'a list" where
  "insertionSort lt xs = rev (foldl (\<lambda>acc x. sift lt x acc) [] xs)"

lemma sift_mset: "mset (sift lt x ys) = add_mset x (mset ys)"
  by (induction ys) auto

lemma sift_set: "set (sift lt x ys) = insert x (set ys)"
  by (induction ys) auto

lemma sift_fold_mset: "mset (foldl (\<lambda>acc x. sift lt x acc) acc xs) = mset acc + mset xs"
  by (induction xs arbitrary: acc) (auto simp: sift_mset)

lemma sift_sorted:
  assumes "weak_order_on (insert x (set ys)) lt" "sorted_wrt (\<lambda>y x. \<not> lt y x) ys"
  shows "sorted_wrt (\<lambda>y x. \<not> lt y x) (sift lt x ys)"
  using assms
proof (induction ys)
  case (Cons y ys)
  have w: "weak_order_on (insert x (set ys)) lt"
    by (rule weak_order_mono[OF Cons.prems(1)]) auto
  have sorted: "\<forall>z \<in> set ys. \<not> lt y z" "sorted_wrt (\<lambda>y x. \<not> lt y x) ys" using Cons.prems(2) by auto
  show ?case
  proof (cases "lt x y")
    case True
    then have "\<not> lt y x" using weak_order_asym[OF Cons.prems(1), of x y] by simp
    with True show ?thesis using Cons.IH[OF w sorted(2)] sorted(1) by (simp add: sift_set)
  next
    case False
    have "\<not> lt x z" if "z \<in> set ys" for z
      using that sorted(1) False weak_order_trans[OF Cons.prems(1), of z y x] by simp
    with False show ?thesis using sorted by simp
  qed
qed simp

lemma insertionSort_mset: "mset (insertionSort lt xs) = mset xs"
  by (simp add: insertionSort_def sift_fold_mset)

lemma insertionSort_sorted:
  assumes "weak_order_on (set xs) lt"
  shows "sorted_wrt (\<lambda>x y. \<not> lt y x) (insertionSort lt xs)"
proof -
  have "weak_order_on (set acc \<union> set xs) lt \<Longrightarrow> sorted_wrt (\<lambda>y x. \<not> lt y x) acc
      \<Longrightarrow> sorted_wrt (\<lambda>y x. \<not> lt y x) (foldl (\<lambda>acc x. sift lt x acc) acc xs)" for acc
  proof (induction xs arbitrary: acc)
    case (Cons x xs)
    have "sorted_wrt (\<lambda>y x. \<not> lt y x) (sift lt x acc)"
      by (rule sift_sorted[OF weak_order_mono[OF Cons.prems(1)] Cons.prems(2)]) auto
    moreover have "weak_order_on (set (sift lt x acc) \<union> set xs) lt"
      by (rule weak_order_mono[OF Cons.prems(1)]) (auto simp: sift_set)
    ultimately show ?case using Cons.IH by simp
  qed simp
  from this[of "[]"] assms show ?thesis by (simp add: insertionSort_def sorted_wrt_rev)
qed

interpretation insertion: sort_slice insertionSort
  by unfold_locales (auto simp: insertionSort_mset insertionSort_sorted)

end
