(* ===== verification/Selection.thy ===== *)
theory Selection
  imports Carriers Learning Sorting
begin

text \<open>
  The carrier selection (\<open>apps/carrier-connector/internal/smdp/selection_algorithm.go\<close>,
  \<open>selection_scoring.go\<close> and \<open>selection_main.go\<close>): five scores per carrier, weighted by the
  learned weights and the caller's criteria, and the best eligible carrier. A carrier whose
  metrics or capabilities are nil makes the code panic; \<open>srt\<close> is \<open>sort.Slice\<close>.
\<close>

section \<open>Data\<close>

record SelectionCriteria =
  sc_Region :: string
  sc_ProfileType :: string
  sc_Urgency :: string
  sc_CostSensitivity :: f64
  sc_PerformanceWeight :: f64
  sc_ReliabilityWeight :: f64

text \<open>The score keeps the carrier as it is when it is scored.\<close>

record CarrierScore =
  cs_CarrierID :: string
  cs_Carrier :: Carrier
  cs_TotalScore :: f64
  cs_PerformanceScore :: f64
  cs_ReliabilityScore :: f64
  cs_CostScore :: f64
  cs_RegionScore :: f64
  cs_CapabilityScore :: f64
  cs_SelectedAt :: time
  cs_Reason :: string

record SelectionAlgorithm =
  sa_history :: "string \<rightharpoonup> CarrierScore list"
  sa_maxHistory :: int
  sa_learningRate :: f64
  sa_mlModel :: LearningModel

definition NewSelectionAlgorithm :: SelectionAlgorithm where
  "NewSelectionAlgorithm = \<lparr>sa_history = Map.empty, sa_maxHistory = 100,
     sa_learningRate = f64_lit (1/10), sa_mlModel = NewLearningModel\<rparr>"

section \<open>Scores\<close>

definition calculatePerformanceScore :: "Carrier \<Rightarrow> f64 go" where
  "calculatePerformanceScore carrier = go_bind (deref (car_Metrics carrier)) (\<lambda>metrics.
     if TotalRequests metrics = 0 then Returns (f64_lit 50)
     else
       let successScore = f64_mul (success_rate metrics) (f64_lit 40);
           responseMs = Milliseconds (AverageResponseTime metrics);
           responseScore =
             (if 0 < AverageResponseTime metrics then
                (if responseMs \<le> 100 then f64_lit 30
                 else if 1000 \<le> responseMs then f64_lit 0
                 else f64_mul (f64_lit 30)
                   (f64_sub (f64_lit 1) (f64_div (f64_of_int (responseMs - 100)) (f64_lit 900))))
              else f64_lit 30);
           rate = RequestRate metrics;
           requestScore =
             (if f64_gt rate (f64_lit 0) \<and> f64_le rate (f64_lit 100) then f64_lit 30
              else if f64_gt rate (f64_lit 100) then
                f64_mul (f64_lit 30) (f64_max (f64_lit 0) (f64_sub (f64_lit 1) (f64_div rate (f64_lit 1000))))
              else f64_lit 15)
       in Returns (f64_add (f64_add successScore responseScore) requestScore))"

definition calculateReliabilityScore :: "Carrier \<Rightarrow> f64 go" where
  "calculateReliabilityScore carrier = go_bind (deref (car_Metrics carrier)) (\<lambda>metrics.
     let healthScore =
           (if car_HealthStatus carrier = CarrierStatusHealthy then f64_lit 40
            else if car_HealthStatus carrier = CarrierStatusDegraded then f64_lit 20
            else if car_HealthStatus carrier = CarrierStatusUnhealthy then f64_lit 0
            else f64_lit 10);
         uptimeScore =
           (if 0 < TotalRequests metrics then f64_mul (success_rate metrics) (f64_lit 30) else f64_lit 30);
         p = f64_mul (f64_div (f64_of_int (car_Priority carrier)) (f64_lit 100)) (f64_lit 30);
         priorityScore = (if f64_gt p (f64_lit 30) then f64_lit 30 else p)
     in Returns (f64_add (f64_add healthScore uptimeScore) priorityScore))"

definition calculateCostScore :: "Carrier \<Rightarrow> SelectionCriteria \<Rightarrow> f64" where
  "calculateCostScore carrier criteria =
     (let c0 = f64_sub (f64_lit 100) (f64_of_int (car_Priority carrier));
          costScore = (if f64_lt c0 (f64_lit 0) then f64_lit 0 else c0)
      in if f64_gt (sc_CostSensitivity criteria) (f64_lit (1/2)) then f64_mul costScore (f64_lit (3/2)) else costScore)"

definition mccToRegion :: "string \<Rightarrow> string" where
  "mccToRegion mcc = (case mcc of
       [] \<Rightarrow> ''''
     | c # _ \<Rightarrow>
         if c = CHR ''2'' then ''EU''
         else if c = CHR ''3'' then ''NA''
         else if c = CHR ''4'' then ''AS''
         else if c = CHR ''5'' then ''OC''
         else if c = CHR ''6'' then ''AF''
         else if c = CHR ''7'' then ''SA''
         else '''')"

definition region_groups :: "string \<Rightarrow> string" where
  "region_groups r =
     (if r = ''EU'' \<or> r = ''AF'' then ''EMEA''
      else if r = ''NA'' \<or> r = ''SA'' then ''AMER''
      else if r = ''AS'' \<or> r = ''OC'' then ''APAC''
      else '''')"

definition sameRegionGroup :: "string \<Rightarrow> string \<Rightarrow> bool" where
  "sameRegionGroup r1 r2 \<longleftrightarrow> region_groups r1 \<noteq> '''' \<and> region_groups r1 = region_groups r2"

definition calculateRegionScore :: "Carrier \<Rightarrow> string \<Rightarrow> f64" where
  "calculateRegionScore carrier region =
     (if region = '''' then f64_lit 50
      else if car_CountryCode carrier = region then f64_lit 100
      else if mccToRegion (car_MCC carrier) = region then f64_lit 90
      else if sameRegionGroup (mccToRegion (car_MCC carrier)) region then f64_lit 70
      else f64_lit 30)"

definition calculateCapabilityScore :: "Carrier \<Rightarrow> string \<Rightarrow> f64 go" where
  "calculateCapabilityScore carrier profileType = go_bind (deref (car_Capabilities carrier)) (\<lambda>caps.
     let s0 = f64_lit 50;
         s1 = (if profileType \<in> set (SupportedProfileTypes caps) then f64_add s0 (f64_lit 30) else s0);
         s2 = (if ''bulk_download'' \<in> set (Features caps) then f64_add s1 (f64_lit 10) else s1);
         s3 = (if ''remote_provisioning'' \<in> set (Features caps) then f64_add s2 (f64_lit 10) else s2)
     in Returns (f64_min (f64_lit 100) s3))"

definition generateReason :: "CarrierScore \<Rightarrow> string" where
  "generateReason score =
     (let eighty = f64_lit 80;
          reasons =
            (if f64_gt (cs_PerformanceScore score) eighty then [''excellent performance''] else [])
            @ (if f64_gt (cs_ReliabilityScore score) eighty then [''high reliability''] else [])
            @ (if f64_gt (cs_CostScore score) eighty then [''cost-effective''] else [])
            @ (if f64_gt (cs_RegionScore score) eighty then [''region-compatible''] else [])
            @ (if f64_gt (cs_CapabilityScore score) eighty then [''full capability support''] else [])
      in case reasons of [] \<Rightarrow> ''best available option'' | r # _ \<Rightarrow> ''selected for '' @ r)"

section \<open>Weights\<close>

definition getWeights :: "SelectionCriteria \<Rightarrow> SelectionAlgorithm \<Rightarrow> WeightVector" where
  "getWeights criteria sa =
     (let w0 = GetOptimizedWeights (sa_mlModel sa);
          w1 = (if sc_Urgency criteria = ''high'' then
                  \<lparr>wv_Performance = f64_max (wv_Performance w0) (f64_lit (4/10)),
                   wv_Reliability = f64_max (wv_Reliability w0) (f64_lit (4/10)),
                   wv_Cost = f64_min (wv_Cost w0) (f64_lit (1/10)),
                   wv_Region = f64_min (wv_Region w0) (f64_lit (5/100)),
                   wv_Capability = f64_min (wv_Capability w0) (f64_lit (5/100))\<rparr>
                else if sc_Urgency criteria = ''low'' then
                  w0\<lparr>wv_Cost := f64_max (wv_Cost w0) (f64_lit (4/10)),
                     wv_Performance := f64_min (wv_Performance w0) (f64_lit (2/10)),
                     wv_Reliability := f64_min (wv_Reliability w0) (f64_lit (2/10))\<rparr>
                else w0);
          pos = (\<lambda>x. f64_gt x (f64_lit 0));
          w2 = w1\<lparr>wv_Performance := (if pos (sc_PerformanceWeight criteria) then sc_PerformanceWeight criteria else wv_Performance w1),
                  wv_Reliability := (if pos (sc_ReliabilityWeight criteria) then sc_ReliabilityWeight criteria else wv_Reliability w1),
                  wv_Cost := (if pos (sc_CostSensitivity criteria) then sc_CostSensitivity criteria else wv_Cost w1)\<rparr>;
          total = weight_sum w2
      in if pos total then map_weights (\<lambda>x. f64_div x total) w2 else w2)"

definition calculateWeightedScore :: "CarrierScore \<Rightarrow> SelectionCriteria \<Rightarrow> SelectionAlgorithm \<Rightarrow> f64" where
  "calculateWeightedScore score criteria sa =
     (let weights = getWeights criteria sa;
          total = f64_add (f64_add (f64_add (f64_add
              (f64_mul (cs_PerformanceScore score) (wv_Performance weights))
              (f64_mul (cs_ReliabilityScore score) (wv_Reliability weights)))
              (f64_mul (cs_CostScore score) (wv_Cost weights)))
              (f64_mul (cs_RegionScore score) (wv_Region weights)))
              (f64_mul (cs_CapabilityScore score) (wv_Capability weights))
      in f64_min (f64_lit 100) total)"

definition scoreCarrier :: "time \<Rightarrow> SelectionCriteria \<Rightarrow> SelectionAlgorithm \<Rightarrow> Carrier \<Rightarrow> CarrierScore go" where
  "scoreCarrier now criteria sa carrier =
     go_bind (calculatePerformanceScore carrier) (\<lambda>perf.
     go_bind (calculateReliabilityScore carrier) (\<lambda>rel.
     go_bind (calculateCapabilityScore carrier (sc_ProfileType criteria)) (\<lambda>cap.
       let score = \<lparr>cs_CarrierID = car_ID carrier, cs_Carrier = carrier, cs_TotalScore = f64_of_int 0,
             cs_PerformanceScore = perf, cs_ReliabilityScore = rel,
             cs_CostScore = calculateCostScore carrier criteria,
             cs_RegionScore = calculateRegionScore carrier (sc_Region criteria),
             cs_CapabilityScore = cap, cs_SelectedAt = now, cs_Reason = ''''\<rparr>;
           score1 = score\<lparr>cs_TotalScore := calculateWeightedScore score criteria sa\<rparr>
       in Returns (score1\<lparr>cs_Reason := generateReason score1\<rparr>))))"

section \<open>Selection\<close>

definition history_of :: "string \<Rightarrow> SelectionAlgorithm \<Rightarrow> CarrierScore list" where
  "history_of carrierID sa = (case sa_history sa carrierID of None \<Rightarrow> [] | Some h \<Rightarrow> h)"

definition recordSelection :: "CarrierScore \<Rightarrow> SelectionAlgorithm \<Rightarrow> SelectionAlgorithm" where
  "recordSelection score sa =
     (let history = history_of (cs_CarrierID score) sa @ [score];
          history' = (if sa_maxHistory sa < int (length history) then tl history else history)
      in sa\<lparr>sa_history := (sa_history sa)(cs_CarrierID score \<mapsto> history')\<rparr>)"

datatype selection_error = NoCarriers | NoHealthyCarriers

definition eligible :: "Carrier \<Rightarrow> bool" where
  "eligible carrier \<longleftrightarrow> car_IsActive carrier \<and> car_HealthStatus carrier = CarrierStatusHealthy"

definition better :: "CarrierScore \<Rightarrow> CarrierScore \<Rightarrow> bool" where
  "better a b \<longleftrightarrow> f64_gt (cs_TotalScore a) (cs_TotalScore b)"

definition SelectOptimalCarrier ::
  "((CarrierScore \<Rightarrow> CarrierScore \<Rightarrow> bool) \<Rightarrow> CarrierScore list \<Rightarrow> CarrierScore list) \<Rightarrow> (Carrier \<Rightarrow> time)
   \<Rightarrow> Carrier list \<Rightarrow> SelectionCriteria \<Rightarrow> SelectionAlgorithm
   \<Rightarrow> ((selection_error + CarrierScore) \<times> SelectionAlgorithm) go" where
  "SelectOptimalCarrier srt now carriers criteria sa =
     (if carriers = [] then Returns (Inl NoCarriers, sa)
      else go_bind (go_map (\<lambda>c. scoreCarrier (now c) criteria sa c) (filter eligible carriers)) (\<lambda>scores.
        if scores = [] then Returns (Inl NoHealthyCarriers, sa)
        else let best = hd (srt better scores) in Returns (Inr best, recordSelection best sa)))"

definition GetSelectionHistory :: "string \<Rightarrow> SelectionAlgorithm \<Rightarrow> CarrierScore list" where
  "GetSelectionHistory carrierID sa = history_of carrierID sa"

definition sa_UpdateLearning :: "string \<Rightarrow> f64 \<Rightarrow> time \<Rightarrow> time \<Rightarrow> time \<Rightarrow> SelectionAlgorithm \<Rightarrow> SelectionAlgorithm" where
  "sa_UpdateLearning carrierID actual now1 now2 now3 sa =
     (let history = history_of carrierID sa in
      if history = [] then sa
      else let expected = cs_TotalScore (last history)
           in sa\<lparr>sa_mlModel := UpdateLearning carrierID actual expected now1 now2 now3 (sa_mlModel sa),
                 sa_learningRate := f64_mul (sa_learningRate sa)
                   (if f64_lt actual (f64_lit 50) then f64_lit (95/100) else f64_lit (105/100))\<rparr>)"

section \<open>Bounds of the scores\<close>

text \<open>What a carrier needs for its scores to stay in their documented ranges.\<close>

definition carrier_ok :: "Carrier \<Rightarrow> bool" where
  "carrier_ok c \<longleftrightarrow> 0 \<le> car_Priority c \<and> car_Priority c \<le> 2 ^ 53 \<and> car_Capabilities c \<noteq> None
     \<and> (case car_Metrics c of None \<Rightarrow> False
        | Some m \<Rightarrow> metrics_ok m \<and> f64_in 0 (2 ^ 50) (RequestRate m) \<and> f64_ok (RequestRate m))"

definition criteria_ok :: "SelectionCriteria \<Rightarrow> bool" where
  "criteria_ok criteria \<longleftrightarrow> share (sc_CostSensitivity criteria) \<and> share (sc_PerformanceWeight criteria)
     \<and> share (sc_ReliabilityWeight criteria)"

lemma part_lit: "0 \<le> r \<Longrightarrow> r \<le> b \<Longrightarrow> rep64 b \<Longrightarrow> bounded64 b (f64_lit r)"
  by (simp add: bounded64_def f64_in_lit)

lemma part_times: "bounded64 a x \<Longrightarrow> bounded64 b y \<Longrightarrow> rep64 (a * b) \<Longrightarrow> bounded64 (a * b) (f64_mul x y)"
proof -
  assume x: "bounded64 a x" and y: "bounded64 b y" and r: "rep64 (a * b)"
  then have "f64_in (0 * 0) (a * b) (f64_mul x y)"
    unfolding bounded64_def by (intro f64_in_mul) simp_all
  then show ?thesis using x y by (simp add: bounded64_def)
qed

lemma part_weaken: "bounded64 b x \<Longrightarrow> b \<le> d \<Longrightarrow> bounded64 d x"
  unfolding bounded64_def by (auto elim: f64_in_weaken)

lemma rate_part: "metrics_ok m \<Longrightarrow> 0 < TotalRequests m \<Longrightarrow> bounded64 1 (success_rate m)"
  using success_rate_in[of m] by (simp add: bounded64_def success_rate_def)

lemma one_minus_part: "f64_in 0 1 x \<Longrightarrow> f64_ok x \<Longrightarrow> bounded64 1 (f64_sub (f64_lit 1) x)"
proof -
  assume x: "f64_in 0 1 x" "f64_ok x"
  have "f64_in 1 1 (f64_lit 1)" by (rule f64_in_lit) auto
  with x(1) have "f64_in (1 - 1) (1 - 0) (f64_sub (f64_lit 1) x)" by (intro f64_in_sub) auto
  with x(2) show ?thesis by (simp add: bounded64_def)
qed

lemma response_part:
  assumes "100 < ms" "ms < 1000"
  shows "bounded64 30 (f64_mul (f64_lit 30) (f64_sub (f64_lit 1) (f64_div (f64_of_int (ms - 100)) (f64_lit 900))))"
proof -
  have "(1 :: rat) \<le> of_int (ms - 100)" "of_int (ms - 100) \<le> (900 :: rat)"
    using assms by (simp_all add: of_int_le_iff[of _ 900, simplified])
  then have "f64_in 1 900 (f64_of_int (ms - 100))" by (intro f64_in_of_int) auto
  then have "f64_in 0 900 (f64_of_int (ms - 100))" by (rule f64_in_weaken) auto
  moreover have "f64_in 900 900 (f64_lit 900)" by (rule f64_in_lit) auto
  ultimately have "f64_in (0 / 900) (900 / 900) (f64_div (f64_of_int (ms - 100)) (f64_lit 900))"
    by (intro f64_in_div) auto
  then have "bounded64 1 (f64_sub (f64_lit 1) (f64_div (f64_of_int (ms - 100)) (f64_lit 900)))"
    by (intro one_minus_part) auto
  then show ?thesis using part_times[of 30 "f64_lit 30" 1] part_lit[of 30 30] by simp
qed

lemma request_part:
  assumes "f64_in 0 (2 ^ 50) rate" "f64_ok rate"
  shows "bounded64 30 (f64_mul (f64_lit 30) (f64_max (f64_lit 0) (f64_sub (f64_lit 1) (f64_div rate (f64_lit 1000)))))"
proof -
  have "f64_in 1000 1000 (f64_lit 1000)" "f64_in 1 1 (f64_lit 1)" by (intro f64_in_lit; simp)+
  then have "f64_in 1 1000 (f64_lit 1000)" by (auto elim: f64_in_weaken)
  with assms(1) have "f64_in (0 / 1000) (2 ^ 50 / 1) (f64_div rate (f64_lit 1000))"
    by (intro f64_in_div) (simp_all add: rep64_numeral)
  with \<open>f64_in 1 1 (f64_lit 1)\<close> have "f64_in (1 - 2 ^ 50) (1 - 0) (f64_sub (f64_lit 1) (f64_div rate (f64_lit 1000)))"
    by (intro f64_in_sub) (simp_all add: rep64_numeral)
  then have "f64_in (max 0 (1 - 2 ^ 50)) (max 0 (1 - 0)) (f64_max (f64_lit 0) (f64_sub (f64_lit 1) (f64_div rate (f64_lit 1000))))"
    by (intro f64_in_max f64_in_lit) auto
  moreover have "f64_ok (f64_max x y)" if "f64_ok x" "f64_ok y" for x y
    using that by (cases x; cases y) (auto simp: f64_max_def)
  ultimately have "bounded64 1 (f64_max (f64_lit 0) (f64_sub (f64_lit 1) (f64_div rate (f64_lit 1000))))"
    using assms(2) by (simp add: bounded64_def)
  then show ?thesis using part_times[of 30 "f64_lit 30" 1] part_lit[of 30 30] by simp
qed

lemma performance_part:
  assumes "carrier_ok c"
  shows "\<exists>s. calculatePerformanceScore c = Returns s \<and> bounded64 100 s"
proof -
  obtain m where m: "car_Metrics c = Some m" "metrics_ok m" "f64_in 0 (2 ^ 50) (RequestRate m)" "f64_ok (RequestRate m)"
    using assms by (auto simp: carrier_ok_def split: option.splits)
  show ?thesis
  proof (cases "TotalRequests m = 0")
    case True
    with m(1) show ?thesis by (simp add: calculatePerformanceScore_def part_lit)
  next
    case False
    then have pos: "0 < TotalRequests m" using m(2) by (auto simp: metrics_ok_def)
    let ?ms = "Milliseconds (AverageResponseTime m)" and ?rate = "RequestRate m"
    let ?resp = "if 0 < AverageResponseTime m then
        (if ?ms \<le> 100 then f64_lit 30 else if 1000 \<le> ?ms then f64_lit 0
         else f64_mul (f64_lit 30) (f64_sub (f64_lit 1) (f64_div (f64_of_int (?ms - 100)) (f64_lit 900))))
      else f64_lit 30"
    let ?req = "if f64_gt ?rate (f64_lit 0) \<and> f64_le ?rate (f64_lit 100) then f64_lit 30
      else if f64_gt ?rate (f64_lit 100) then
        f64_mul (f64_lit 30) (f64_max (f64_lit 0) (f64_sub (f64_lit 1) (f64_div ?rate (f64_lit 1000))))
      else f64_lit 15"
    have s: "bounded64 40 (f64_mul (success_rate m) (f64_lit 40))"
      using part_times[OF rate_part[OF m(2) pos], of 40 "f64_lit 40"] by (simp add: part_lit)
    have r: "bounded64 30 ?resp" by (simp add: part_lit response_part)
    have q: "bounded64 30 ?req" using request_part[OF m(3,4)] by (simp add: part_lit)
    have "bounded64 (40 + 30 + 30) (f64_add (f64_add (f64_mul (success_rate m) (f64_lit 40)) ?resp) ?req)"
      by (intro part_add(1) s r q) auto
    moreover have "calculatePerformanceScore c = Returns (f64_add (f64_add (f64_mul (success_rate m) (f64_lit 40)) ?resp) ?req)"
      using False m(1) by (simp only: calculatePerformanceScore_def deref.simps go_bind.simps if_False Let_def)
    ultimately show ?thesis by simp
  qed
qed

lemma reliability_part:
  assumes "carrier_ok c"
  shows "\<exists>s. calculateReliabilityScore c = Returns s \<and> bounded64 100 s"
proof -
  obtain m where m: "car_Metrics c = Some m" "metrics_ok m"
    using assms by (auto simp: carrier_ok_def split: option.splits)
  let ?health = "if car_HealthStatus c = CarrierStatusHealthy then f64_lit 40
      else if car_HealthStatus c = CarrierStatusDegraded then f64_lit 20
      else if car_HealthStatus c = CarrierStatusUnhealthy then f64_lit 0 else f64_lit 10"
  let ?up = "if 0 < TotalRequests m then f64_mul (success_rate m) (f64_lit 30) else f64_lit 30"
  let ?p = "f64_mul (f64_div (f64_of_int (car_Priority c)) (f64_lit 100)) (f64_lit 30)"
  let ?prio = "if f64_gt ?p (f64_lit 30) then f64_lit 30 else ?p"
  have h: "bounded64 40 ?health" by (simp add: part_lit)
  have u: "bounded64 30 ?up"
    using part_times[OF rate_part[OF m(2)], of 30 "f64_lit 30"] by (simp add: part_lit)
  have "0 \<le> (of_int (car_Priority c) :: rat)" "of_int (car_Priority c) \<le> (2 ^ 53 :: rat)"
    using assms unfolding carrier_ok_def by (simp, metis of_int_le_iff of_int_numeral of_int_power)
  then have "f64_in 0 (2 ^ 53) (f64_of_int (car_Priority c))"
    by (intro f64_in_of_int) (simp_all add: rep64_pow2)
  moreover have "f64_in 100 100 (f64_lit 100)" by (rule f64_in_lit) auto
  then have "f64_in 1 100 (f64_lit 100)" by (rule f64_in_weaken) auto
  ultimately have "f64_in (0 / 100) (2 ^ 53 / 1) (f64_div (f64_of_int (car_Priority c)) (f64_lit 100))"
    by (intro f64_in_div) (simp_all add: rep64_pow2[of 53, simplified])
  then have d: "bounded64 (2 ^ 53) (f64_div (f64_of_int (car_Priority c)) (f64_lit 100))" by (simp add: bounded64_def)
  have "bounded64 32 (f64_lit 30)" by (rule part_lit) auto
  have "rep64 (2 ^ 53 * 32)" using rep64_pow2[of 58] by simp
  from part_times[OF d \<open>bounded64 32 (f64_lit 30)\<close> this] have p: "bounded64 (2 ^ 53 * 32) ?p" .
  have "bounded64 30 ?prio"
  proof (cases "f64_gt ?p (f64_lit 30)")
    case False
    have t: "f64_in 30 30 (f64_lit 30)" by (rule f64_in_lit) auto
    from p have p': "f64_in 0 (2 ^ 53 * 32) ?p" by (simp add: bounded64_def)
    obtain s r where sr: "?p = Fin s r" "0 \<le> r" using f64_in_fin[OF p'] by blast
    have "\<not> f64_val (f64_lit 30) < f64_val ?p" using False f64_lt_val[OF t p'] by simp
    moreover have "f64_val (f64_lit 30) = 30" using t by (cases "f64_lit 30") auto
    ultimately have "f64_in 0 30 ?p" using sr by simp
    with False p show ?thesis by (simp add: bounded64_def)
  qed (simp add: part_lit)
  then have "bounded64 (40 + 30 + 30) (f64_add (f64_add ?health ?up) ?prio)"
    by (intro part_add(1) h u) auto
  moreover have "calculateReliabilityScore c = Returns (f64_add (f64_add ?health ?up) ?prio)"
    using m(1) by (simp only: calculateReliabilityScore_def deref.simps go_bind.simps Let_def)
  ultimately show ?thesis by simp
qed

lemma cost_part:
  assumes "0 \<le> car_Priority c" "car_Priority c \<le> 2 ^ 53"
  shows "bounded64 150 (calculateCostScore c criteria)"
    "\<not> f64_gt (sc_CostSensitivity criteria) (f64_lit (1/2)) \<Longrightarrow> bounded64 100 (calculateCostScore c criteria)"
proof -
  let ?c0 = "f64_sub (f64_lit 100) (f64_of_int (car_Priority c))"
  let ?cost = "if f64_lt ?c0 (f64_lit 0) then f64_lit 0 else ?c0"
  have "0 \<le> (of_int (car_Priority c) :: rat)" "of_int (car_Priority c) \<le> (2 ^ 53 :: rat)"
    using assms by (simp, metis of_int_le_iff of_int_numeral of_int_power)
  then have "f64_in 0 (2 ^ 53) (f64_of_int (car_Priority c))"
    by (intro f64_in_of_int) (simp_all add: rep64_pow2)
  moreover have "f64_in 100 100 (f64_lit 100)" by (rule f64_in_lit) auto
  ultimately have "f64_in (100 - 2 ^ 53) (100 - 0) ?c0" by (intro f64_in_sub) (simp_all add: rep64_numeral)
  moreover have "f64_in 0 0 (f64_lit 0)" by (rule f64_in_lit) auto
  ultimately have "f64_in 0 100 ?cost" by (cases ?c0; cases "f64_lit 0") auto
  then have c: "bounded64 100 ?cost" by (simp add: bounded64_def)
  have "bounded64 (3/2) (f64_lit (3/2))"
  proof (rule part_lit)
    show "rep64 (3/2)" by code_simp
  qed auto
  from part_times[OF c this] have "bounded64 150 (f64_mul ?cost (f64_lit (3/2)))" by simp
  with c show "bounded64 150 (calculateCostScore c criteria)"
    by (auto simp: calculateCostScore_def Let_def intro: part_weaken)
  show "\<not> f64_gt (sc_CostSensitivity criteria) (f64_lit (1/2)) \<Longrightarrow> bounded64 100 (calculateCostScore c criteria)"
    using c by (auto simp: calculateCostScore_def Let_def)
qed

lemma region_part: "bounded64 100 (calculateRegionScore c r)"
  by (simp add: calculateRegionScore_def part_lit)

lemma capability_part:
  assumes "car_Capabilities c = Some caps"
  shows "\<exists>s. calculateCapabilityScore c t = Returns s \<and> bounded64 100 s"
proof -
  let ?s1 = "if t \<in> set (SupportedProfileTypes caps) then f64_add (f64_lit 50) (f64_lit 30) else f64_lit 50"
  let ?s2 = "if ''bulk_download'' \<in> set (Features caps) then f64_add ?s1 (f64_lit 10) else ?s1"
  let ?s3 = "if ''remote_provisioning'' \<in> set (Features caps) then f64_add ?s2 (f64_lit 10) else ?s2"
  have "bounded64 80 ?s1" using part_add(1)[of 50 "f64_lit 50" 30 "f64_lit 30"] by (simp add: part_lit)
  then have "bounded64 90 ?s2"
    using part_add(1)[of 80 ?s1 10 "f64_lit 10"] by (auto simp: part_lit intro: part_weaken)
  then have "bounded64 100 ?s3"
    using part_add(1)[of 90 ?s2 10 "f64_lit 10"] by (auto simp: part_lit intro: part_weaken)
  moreover have "f64_in (min 100 0) (min 100 100) (f64_min (f64_lit 100) ?s3)"
    using calculation by (intro f64_in_min f64_in_lit) (auto simp: bounded64_def)
  moreover have "f64_ok (f64_min x y)" if "f64_ok x" "f64_ok y" for x y
    using that by (cases x; cases y) (auto simp: f64_min_def)
  ultimately have "bounded64 100 (f64_min (f64_lit 100) ?s3)" by (simp add: bounded64_def)
  then show ?thesis using assms by (simp add: calculateCapabilityScore_def Let_def)
qed

section \<open>Weights and totals\<close>

lemma f64_minmax_ok [simp]: "f64_ok x \<Longrightarrow> f64_ok y \<Longrightarrow> f64_ok (f64_max x y)"
    "f64_ok x \<Longrightarrow> f64_ok y \<Longrightarrow> f64_ok (f64_min x y)"
  by (cases x; cases y; auto simp: f64_max_def f64_min_def)+

lemma share_max: "share x \<Longrightarrow> share y \<Longrightarrow> share (f64_max x y)"
  using f64_in_max[of 0 1 x 0 1 y] by (simp add: share_def)

lemma share_min: "share x \<Longrightarrow> share y \<Longrightarrow> share (f64_min x y)"
  using f64_in_min[of 0 1 x 0 1 y] by (simp add: share_def)

lemma weights_shares:
  assumes "learning_inv (sa_mlModel sa)" "criteria_ok criteria"
  shows "all_weights share (getWeights criteria sa)"
proof -
  let ?w0 = "GetOptimizedWeights (sa_mlModel sa)"
  have w0: "share (wv_Performance ?w0)" "share (wv_Reliability ?w0)" "share (wv_Cost ?w0)" "share (wv_Region ?w0)"
    "share (wv_Capability ?w0)"
    using assms(1) by (auto simp: learning_inv_def GetOptimizedWeights_def all_weights.simps)
  obtain w1 where w1: "w1 = (if sc_Urgency criteria = ''high'' then
        \<lparr>wv_Performance = f64_max (wv_Performance ?w0) (f64_lit (4/10)), wv_Reliability = f64_max (wv_Reliability ?w0) (f64_lit (4/10)),
         wv_Cost = f64_min (wv_Cost ?w0) (f64_lit (1/10)), wv_Region = f64_min (wv_Region ?w0) (f64_lit (5/100)),
         wv_Capability = f64_min (wv_Capability ?w0) (f64_lit (5/100))\<rparr>
      else if sc_Urgency criteria = ''low'' then
        ?w0\<lparr>wv_Cost := f64_max (wv_Cost ?w0) (f64_lit (4/10)), wv_Performance := f64_min (wv_Performance ?w0) (f64_lit (2/10)),
            wv_Reliability := f64_min (wv_Reliability ?w0) (f64_lit (2/10))\<rparr>
      else ?w0)" by blast
  have s1: "all_weights share w1"
    using w0 by (auto simp: w1 all_weights.simps share_max share_min share_lit)
  let ?pos = "\<lambda>x. f64_gt x (f64_lit 0)"
  obtain w2 where w2: "w2 = w1\<lparr>wv_Performance := (if ?pos (sc_PerformanceWeight criteria) then sc_PerformanceWeight criteria else wv_Performance w1),
      wv_Reliability := (if ?pos (sc_ReliabilityWeight criteria) then sc_ReliabilityWeight criteria else wv_Reliability w1),
      wv_Cost := (if ?pos (sc_CostSensitivity criteria) then sc_CostSensitivity criteria else wv_Cost w1)\<rparr>" by blast
  have s2: "all_weights share w2"
    using s1 assms(2) by (auto simp: w2 all_weights.simps criteria_ok_def)
  then have "all_weights (bounded64 512) w2"
    by (auto simp: all_weights.simps share_def bounded64_def elim: f64_in_weaken)
  moreover have "f64_lit 0 = zero64" by (simp add: f64_lit_def f64_round_def)
  ultimately have "all_weights share (if ?pos (weight_sum w2) then map_weights (\<lambda>x. f64_div x (weight_sum w2)) w2 else w2)"
    using s2 share_of_sum[of w2] by auto
  then show ?thesis unfolding getWeights_def Let_def w1[symmetric] w2[symmetric] .
qed

lemma share_bounded: "share x \<longleftrightarrow> bounded64 1 x"
  by (simp add: share_def bounded64_def)

lemma total_percentage:
  assumes "all_weights share (getWeights criteria sa)"
    and "bounded64 100 (cs_PerformanceScore s)" "bounded64 100 (cs_ReliabilityScore s)" "bounded64 150 (cs_CostScore s)"
    and "bounded64 100 (cs_RegionScore s)" "bounded64 100 (cs_CapabilityScore s)"
  shows "percentage (calculateWeightedScore s criteria sa)"
proof -
  let ?w = "getWeights criteria sa"
  have w: "bounded64 1 (wv_Performance ?w)" "bounded64 1 (wv_Reliability ?w)" "bounded64 1 (wv_Cost ?w)"
    "bounded64 1 (wv_Region ?w)" "bounded64 1 (wv_Capability ?w)"
    using assms(1) by (auto simp: all_weights.simps share_bounded)
  obtain t where t: "t = f64_add (f64_add (f64_add (f64_add
      (f64_mul (cs_PerformanceScore s) (wv_Performance ?w)) (f64_mul (cs_ReliabilityScore s) (wv_Reliability ?w)))
      (f64_mul (cs_CostScore s) (wv_Cost ?w))) (f64_mul (cs_RegionScore s) (wv_Region ?w)))
      (f64_mul (cs_CapabilityScore s) (wv_Capability ?w))" by blast
  have "bounded64 (100 * 1 + 100 * 1 + 150 * 1 + 100 * 1 + 100 * 1) t"
    unfolding t by (intro part_add(1) part_times assms w) auto
  then have "f64_in 0 550 t" "f64_ok t" by (simp_all add: bounded64_def)
  moreover from this have "f64_in (min 100 0) (min 100 550) (f64_min (f64_lit 100) t)"
    by (intro f64_in_min f64_in_lit) auto
  ultimately show ?thesis by (simp add: calculateWeightedScore_def percentage_def t Let_def)
qed

lemma score_total:
  assumes "learning_inv (sa_mlModel sa)" "criteria_ok criteria" "carrier_ok c"
  shows "\<exists>s. scoreCarrier now criteria sa c = Returns s \<and> percentage (cs_TotalScore s) \<and> cs_Carrier s = c \<and> cs_CarrierID s = car_ID c
    \<and> bounded64 100 (cs_PerformanceScore s) \<and> bounded64 100 (cs_ReliabilityScore s)
    \<and> bounded64 100 (cs_RegionScore s) \<and> bounded64 100 (cs_CapabilityScore s)"
proof -
  obtain caps where caps: "car_Capabilities c = Some caps" using assms(3) by (auto simp: carrier_ok_def)
  obtain p where p: "calculatePerformanceScore c = Returns p" "bounded64 100 p"
    using performance_part[OF assms(3)] by blast
  obtain r where r: "calculateReliabilityScore c = Returns r" "bounded64 100 r"
    using reliability_part[OF assms(3)] by blast
  obtain k where k: "calculateCapabilityScore c (sc_ProfileType criteria) = Returns k" "bounded64 100 k"
    using capability_part[OF caps] by blast
  have cost: "bounded64 150 (calculateCostScore c criteria)"
    using assms(3) by (intro cost_part) (auto simp: carrier_ok_def)
  let ?s = "\<lparr>cs_CarrierID = car_ID c, cs_Carrier = c, cs_TotalScore = f64_of_int 0,
             cs_PerformanceScore = p, cs_ReliabilityScore = r, cs_CostScore = calculateCostScore c criteria,
             cs_RegionScore = calculateRegionScore c (sc_Region criteria),
             cs_CapabilityScore = k, cs_SelectedAt = now, cs_Reason = ''''\<rparr>"
  have "percentage (calculateWeightedScore ?s criteria sa)"
    by (rule total_percentage[OF weights_shares[OF assms(1,2)]]) (simp_all add: p r k cost region_part)
  then show ?thesis
    by (simp add: scoreCarrier_def p r k Let_def region_part)
qed

section \<open>Properties\<close>

text \<open>C3. Selection is sound and optimal: with metrics, capabilities, priorities and criteria in
  their documented ranges it never panics; it fails only when no carrier is active and healthy;
  otherwise it returns an eligible carrier with a total score between 0 and 100 that no other
  eligible carrier's score exceeds, whatever order the sort leaves equal scores in, and records
  it as the latest selection of that carrier.\<close>

theorem selection_optimal:
  assumes "sort_slice srt" and "learning_inv (sa_mlModel sa)" and "criteria_ok criteria"
    and "\<forall>c \<in> set carriers. eligible c \<longrightarrow> carrier_ok c"
  shows "(filter eligible carriers = [] \<longrightarrow>
      SelectOptimalCarrier srt now carriers criteria sa
        = Returns (Inl (if carriers = [] then NoCarriers else NoHealthyCarriers), sa))
    \<and> (filter eligible carriers \<noteq> [] \<longrightarrow> (\<exists>s sa'.
      SelectOptimalCarrier srt now carriers criteria sa = Returns (Inr s, sa')
      \<and> cs_Carrier s \<in> set carriers \<and> eligible (cs_Carrier s) \<and> f64_in 0 100 (cs_TotalScore s)
      \<and> (\<forall>c \<in> set carriers. eligible c \<longrightarrow> (\<exists>t. scoreCarrier (now c) criteria sa c = Returns t
           \<and> f64_le (cs_TotalScore t) (cs_TotalScore s)))
      \<and> sa' = recordSelection s sa))"
proof (cases "filter eligible carriers = []")
  case True
  then show ?thesis by (auto simp: SelectOptimalCarrier_def)
next
  case False
  let ?es = "filter eligible carriers"
  let ?f = "\<lambda>c. case scoreCarrier (now c) criteria sa c of Returns s \<Rightarrow> s"
  have f: "scoreCarrier (now c) criteria sa c = Returns (?f c) \<and> percentage (cs_TotalScore (?f c)) \<and> cs_Carrier (?f c) = c"
    if "c \<in> set ?es" for c
    using score_total[OF assms(2,3), of c "now c"] assms(4) that by auto
  let ?scores = "map ?f ?es"
  have go: "go_map (\<lambda>c. scoreCarrier (now c) criteria sa c) ?es = Returns ?scores"
    using f by (intro go_map_total) auto
  have pct: "percentage (cs_TotalScore s)" if "s \<in> set ?scores" for s using that f by auto
  have lt: "better s t \<longleftrightarrow> f64_val (cs_TotalScore t) < f64_val (cs_TotalScore s)" if "s \<in> set ?scores" "t \<in> set ?scores" for s t
    using pct[OF that(1)] pct[OF that(2)] unfolding better_def percentage_def by (intro f64_lt_val) auto
  have order: "weak_order_on (set ?scores) better"
    by (rule weak_order_cong[OF weak_order_key_desc[where f = "\<lambda>s. f64_val (cs_TotalScore s)"]]) (use lt in blast)
  have ne: "?scores \<noteq> []" using False by simp
  obtain best where best: "best = hd (srt better ?scores)" by blast
  have b: "best \<in> set ?scores" "\<forall>t \<in> set ?scores. \<not> better t best"
    using sort_slice.first_least[OF assms(1) ne order] by (simp_all add: best)
  then obtain c0 where c0: "c0 \<in> set carriers" "eligible c0" "best = ?f c0" by auto
  have le: "\<exists>t. scoreCarrier (now c) criteria sa c = Returns t \<and> f64_le (cs_TotalScore t) (cs_TotalScore best)"
    if "c \<in> set carriers" "eligible c" for c
  proof -
    have c: "c \<in> set ?es" using that by simp
    then have "?f c \<in> set ?scores" unfolding set_map by (rule imageI)
    moreover from this have "\<not> better (?f c) best" using b(2) by blast
    ultimately have "f64_val (cs_TotalScore (?f c)) \<le> f64_val (cs_TotalScore best)" using lt b(1) by (simp add: not_less)
    moreover have "percentage (cs_TotalScore (?f c))" "percentage (cs_TotalScore best)" using pct \<open>?f c \<in> set ?scores\<close> b(1) by blast+
    ultimately have "f64_le (cs_TotalScore (?f c)) (cs_TotalScore best)"
      unfolding percentage_def by (cases "cs_TotalScore (?f c)"; cases "cs_TotalScore best") auto
    then show ?thesis using f[OF c] by blast
  qed
  have "SelectOptimalCarrier srt now carriers criteria sa = Returns (Inr best, recordSelection best sa)"
    using False ne by (auto simp: SelectOptimalCarrier_def go best Let_def simp del: set_map list.map)
  moreover have "cs_Carrier best = c0" "f64_in 0 100 (cs_TotalScore best)"
    using f[of c0] c0 pct[OF b(1)] by (auto simp: percentage_def)
  ultimately show ?thesis using False c0(1,2) le by blast
qed

text \<open>A selection is kept as the last of at most \<open>maxHistory\<close> recorded selections of its carrier.\<close>

theorem selection_history_bounded:
  assumes "int (length (history_of k sa)) \<le> sa_maxHistory sa" and "0 < sa_maxHistory sa"
  shows "int (length (history_of k (recordSelection s sa))) \<le> sa_maxHistory sa
    \<and> (cs_CarrierID s = k \<longrightarrow> history_of k (recordSelection s sa) \<noteq> [] \<and> last (history_of k (recordSelection s sa)) = s)"
proof -
  let ?h = "history_of (cs_CarrierID s) sa"
  have "tl (?h @ [s]) = tl ?h @ [s]" if "?h \<noteq> []" using that by simp
  then show ?thesis using assms
    by (cases "?h = []") (auto simp: recordSelection_def history_of_def Let_def split: option.splits)
qed

definition demo_caps :: CarrierCapabilities where
  "demo_caps = \<lparr>SupportedProfileTypes = [''operational''], MaxConcurrentRequests = 1, SupportedMCCs = [], SupportedMNCs = [], Features = []\<rparr>"

definition demo :: "string \<Rightarrow> int \<Rightarrow> Carrier" where
  "demo i p = \<lparr>car_ID = i, car_Name = i, car_CountryCode = ''KE'', car_MCC = ''639'', car_MNC = ''02'', car_ES2Config = None,
     car_Priority = p, car_IsActive = True, car_HealthStatus = CarrierStatusHealthy, car_LastHealthCheck = 0,
     car_Metrics = Some new_metrics, car_Capabilities = Some demo_caps\<rparr>"

definition demo_criteria :: SelectionCriteria where
  "demo_criteria = \<lparr>sc_Region = '''', sc_ProfileType = ''operational'', sc_Urgency = ''medium'',
     sc_CostSensitivity = f64_lit (1/2), sc_PerformanceWeight = f64_lit (4/10), sc_ReliabilityWeight = f64_lit (4/10)\<rparr>"

lemma demo_ok: "eligible (demo i p)" "0 \<le> p \<Longrightarrow> p \<le> 100 \<Longrightarrow> carrier_ok (demo i p)" "criteria_ok demo_criteria"
  by (simp_all add: eligible_def demo_def carrier_ok_def new_metrics_def metrics_ok_def criteria_ok_def demo_criteria_def share_lit)

theorem selection_optimal_witness:
  "\<exists>s sa'. SelectOptimalCarrier insertionSort (\<lambda>_. 0) [demo ''a'' 10, demo ''b'' 90] demo_criteria NewSelectionAlgorithm
      = Returns (Inr s, sa') \<and> f64_in 0 100 (cs_TotalScore s)"
proof -
  have inv: "learning_inv (sa_mlModel NewSelectionAlgorithm)"
    by (simp add: NewSelectionAlgorithm_def learning_inv_New)
  have "\<forall>c \<in> set [demo ''a'' 10, demo ''b'' 90]. eligible c \<longrightarrow> carrier_ok c" by (simp add: demo_ok)
  from selection_optimal[OF insertion.sort_slice_axioms inv demo_ok(3) this, of "\<lambda>_. 0"] show ?thesis
    by (auto simp: demo_ok)
qed

theorem selection_history_bounded_witness:
  "let s = \<lparr>cs_CarrierID = ''a'', cs_Carrier = demo ''a'' 1, cs_TotalScore = f64_lit 5, cs_PerformanceScore = f64_lit 5,
     cs_ReliabilityScore = f64_lit 5, cs_CostScore = f64_lit 5, cs_RegionScore = f64_lit 5, cs_CapabilityScore = f64_lit 5,
     cs_SelectedAt = 0, cs_Reason = ''''\<rparr>
   in int (length (history_of ''a'' (recordSelection s NewSelectionAlgorithm))) \<le> 100
     \<and> last (history_of ''a'' (recordSelection s NewSelectionAlgorithm)) = s"
proof -
  have n: "int (length (history_of ''a'' NewSelectionAlgorithm)) \<le> sa_maxHistory NewSelectionAlgorithm" "0 < sa_maxHistory NewSelectionAlgorithm"
    "sa_maxHistory NewSelectionAlgorithm = 100"
    by (simp_all add: history_of_def NewSelectionAlgorithm_def)
  from selection_history_bounded[OF n(1,2)] n(3) show ?thesis by (simp add: Let_def)
qed

lemma lit_numeral: "(numeral n :: int) \<le> 2 ^ 53 \<Longrightarrow> f64_lit (numeral n) = Fin False (numeral n)"
proof -
  assume "(numeral n :: int) \<le> 2 ^ 53"
  then have "rep64 (numeral n)" by (rule rep64_numeral)
  then have "rnd (numeral n) = numeral n" "\<not> 2 ^ 1024 \<le> \<bar>numeral n :: rat\<bar>" unfolding rep64_def by (auto simp only: not_le)
  then show ?thesis unfolding f64_lit_def f64_round_def Let_def by (simp only: if_False) simp
qed

text \<open>The documented range of the cost score, 0 to 100, is exceeded: a carrier of priority 0 gets 150
  from a cost-sensitive caller; and a negative priority gives a negative reliability share.\<close>

lemma cost_score_exceeds_range:
  "calculateCostScore (demo ''a'' 0) (demo_criteria\<lparr>sc_CostSensitivity := f64_lit 1\<rparr>) = Fin False 150"
proof -
  have "f64_lit (1/2) = Fin False (1/2)" "f64_lit (3/2) = Fin False (3/2)" by code_simp+
  moreover have "rnd 100 = 100" "rnd 150 = 150" using rep64_numeral by (simp_all add: rep64_def)
  ultimately show ?thesis
    by (simp add: calculateCostScore_def demo_def lit_numeral lit_one f64_sub_def f64_round_def Let_def f64_lit_def[of 0])
qed

end
