(* ===== verification/Net_IP.thy ===== *)
theory Net_IP
  imports Prelude
begin

text \<open>
  The part of the standard library's \<open>net\<close> package that the program decides with: textual IP
  addresses (\<open>ParseIP\<close>, \<open>To4\<close>) and the address classes.
\<close>

section \<open>Textual addresses\<close>

text \<open>An address is its 16 bytes; \<open>To4\<close> finds the IPv4 addresses among them.\<close>

type_synonym ip = "int list"

definition is_digit :: "char \<Rightarrow> bool" where
  "is_digit c \<longleftrightarrow> 48 \<le> (of_char c :: int) \<and> (of_char c :: int) \<le> 57"

fun hex_val :: "char \<Rightarrow> int option" where
  "hex_val c = (let n = of_char c in
     if 48 \<le> n \<and> n \<le> 57 then Some (n - 48)
     else if 97 \<le> n \<and> n \<le> 102 then Some (n - 87)
     else if 65 \<le> n \<and> n \<le> 70 then Some (n - 55) else None)"

definition octet :: "string \<Rightarrow> int option" where
  "octet f = (if f \<noteq> [] \<and> list_all is_digit f \<and> (length f = 1 \<or> hd f \<noteq> CHR ''0'') \<and> read_nat f \<le> 255
     then Some (read_nat f) else None)"

definition parse_ipv4 :: "string \<Rightarrow> int list option" where
  "parse_ipv4 s = (case map octet (split_on CHR ''.'' s) of
       [Some a, Some b, Some c, Some d] \<Rightarrow> Some [a, b, c, d]
     | _ \<Rightarrow> None)"

definition hex_field :: "string \<Rightarrow> int" where
  "hex_field f = foldl (\<lambda>acc c. 16 * acc + the (hex_val c)) 0 f"

function ipv6_fields :: "string \<Rightarrow> int list \<Rightarrow> nat option \<Rightarrow> (string \<times> int list \<times> nat option) option" where
  "ipv6_fields s ip ellipsis =
     (if 16 \<le> length ip then Some (s, ip, ellipsis)
      else let f = takeWhile (\<lambda>c. hex_val c \<noteq> None) s; rest = dropWhile (\<lambda>c. hex_val c \<noteq> None) s;
               ip' = ip @ [hex_field f div 256, hex_field f mod 256]
           in if f = [] \<or> 4 < length f then None
              else (case rest of
                  [] \<Rightarrow> Some ([], ip', ellipsis)
                | c # s1 \<Rightarrow>
                    if c = CHR ''.'' then
                      (if ellipsis = None \<and> length ip \<noteq> 12 \<or> 12 < length ip then None
                       else map_option (\<lambda>fs. ([], ip @ fs, ellipsis)) (parse_ipv4 s))
                    else if c \<noteq> CHR '':'' \<or> s1 = [] then None
                    else if hd s1 = CHR '':'' then
                      (if ellipsis \<noteq> None then None
                       else if tl s1 = [] then Some ([], ip', Some (length ip'))
                       else ipv6_fields (tl s1) ip' (Some (length ip')))
                    else ipv6_fields s1 ip' ellipsis))"
  by pat_completeness auto
termination by (relation "measure (\<lambda>(s, ip, e). 16 - length ip)") auto

declare ipv6_fields.simps [simp del]

definition parse_ipv6 :: "string \<Rightarrow> ip option" where
  "parse_ipv6 s =
     (if s = ''::'' then Some (replicate 16 0)
      else let dots = take 2 s = ''::'' in
        case ipv6_fields (if dots then drop 2 s else s) [] (if dots then Some 0 else None) of
          None \<Rightarrow> None
        | Some (rest, ip, ellipsis) \<Rightarrow>
            if rest \<noteq> [] then None
            else if length ip < 16 then
              map_option (\<lambda>e. take e ip @ replicate (16 - length ip) 0 @ drop e ip) ellipsis
            else if ellipsis \<noteq> None then None else Some ip)"

definition v4 :: "int list \<Rightarrow> ip" where
  "v4 fs = replicate 10 0 @ [255, 255] @ fs"

text \<open>The first of \<open>.\<close>, \<open>:\<close> and \<open>%\<close> decides; a zone (after \<open>%\<close>) is never accepted.\<close>

definition ParseIP :: "string \<Rightarrow> ip option" where
  "ParseIP s =
     (if CHR ''%'' \<in> set s then None
      else case dropWhile (\<lambda>c. c \<noteq> CHR ''.'' \<and> c \<noteq> CHR '':'') s of
          [] \<Rightarrow> None
        | c # _ \<Rightarrow> if c = CHR ''.'' then map_option v4 (parse_ipv4 s) else parse_ipv6 s)"

definition To4 :: "ip \<Rightarrow> int list option" where
  "To4 ip = (if take 12 ip = v4 [] then Some (drop 12 ip) else None)"

definition dotted :: "int \<Rightarrow> int \<Rightarrow> int \<Rightarrow> int \<Rightarrow> string" where
  "dotted a b c d = show_nat a @ CHR ''.'' # show_nat b @ CHR ''.'' # show_nat c @ CHR ''.'' # show_nat d"

lemma show_nat_head: "0 \<le> n \<Longrightarrow> show_nat n \<noteq> [] \<and> (length (show_nat n) = 1 \<or> hd (show_nat n) \<noteq> CHR ''0'')"
proof (induction n rule: show_nat.induct)
  case (1 n)
  show ?case
  proof (cases "n < 10")
    case True
    then show ?thesis by (subst (1 2 3) show_nat.simps) simp
  next
    case False
    with 1 have ih: "show_nat (n div 10) \<noteq> []"
      "length (show_nat (n div 10)) = 1 \<or> hd (show_nat (n div 10)) \<noteq> CHR ''0''" by auto
    have eq: "show_nat n = show_nat (n div 10) @ [char_of (48 + n mod 10)]"
      using False by (subst show_nat.simps) simp
    show ?thesis
    proof (cases "n div 10 < 10")
      case True
      have "show_nat (n div 10) = [char_of (48 + n div 10)]" using True by (subst show_nat.simps) simp
      moreover have "char_of (48 + n div 10) \<noteq> CHR ''0''"
      proof
        assume "char_of (48 + n div 10) = CHR ''0''"
        then have "of_char (char_of (48 + n div 10) :: char) = (48 :: int)" by simp
        then show False using True False by (subst (asm) of_char_digit) auto
      qed
      ultimately show ?thesis by (simp add: eq)
    next
      case False
      then have "1 < length (show_nat (n div 10))"
        by (subst show_nat.simps) (use show_nat.simps in \<open>simp add: length_greater_0_conv[symmetric] del: length_greater_0_conv\<close>)
      with ih show ?thesis by (simp add: eq)
    qed
  qed
qed

lemma octet_show: "0 \<le> n \<Longrightarrow> n \<le> 255 \<Longrightarrow> octet (show_nat n) = Some n"
  using show_nat_head[of n] show_nat_digits[of n] by (auto simp: octet_def is_digit_def list_all_iff read_show_nat)

lemma show_nat_free: "0 \<le> n \<Longrightarrow> CHR ''.'' \<notin> set (show_nat n) \<and> CHR '':'' \<notin> set (show_nat n) \<and> CHR ''%'' \<notin> set (show_nat n)"
  using show_nat_digits[of n "CHR ''.''"] show_nat_digits[of n "CHR '':''"] show_nat_digits[of n "CHR ''%''"] by auto

lemma ParseIP_dotted:
  assumes "a \<in> {0..255}" "b \<in> {0..255}" "c \<in> {0..255}" "d \<in> {0..255}"
  shows "ParseIP (dotted a b c d) = Some (v4 [a, b, c, d])"
proof -
  have p: "parse_ipv4 (dotted a b c d) = Some [a, b, c, d]"
    using assms by (simp add: parse_ipv4_def dotted_def show_nat_free octet_show)
  have "\<forall>x \<in> set (show_nat a). x \<noteq> CHR ''.'' \<and> x \<noteq> CHR '':''"
    using assms(1) show_nat_free[of a] by auto
  then have "dropWhile (\<lambda>c. c \<noteq> CHR ''.'' \<and> c \<noteq> CHR '':'') (dotted a b c d)
      = CHR ''.'' # show_nat b @ CHR ''.'' # show_nat c @ CHR ''.'' # show_nat d"
    by (simp add: dotted_def dropWhile_append)
  moreover have "CHR ''%'' \<notin> set (dotted a b c d)"
    using assms by (auto simp: dotted_def show_nat_free)
  ultimately show ?thesis by (simp add: ParseIP_def p)
qed

section \<open>Address classes\<close>

definition IsPrivate :: "ip \<Rightarrow> bool" where
  "IsPrivate ip = (case To4 ip of
       Some fs \<Rightarrow> fs ! 0 = 10 \<or> (fs ! 0 = 172 \<and> 16 \<le> fs ! 1 \<and> fs ! 1 \<le> 31) \<or> (fs ! 0 = 192 \<and> fs ! 1 = 168)
     | None \<Rightarrow> length ip = 16 \<and> 252 \<le> ip ! 0 \<and> ip ! 0 \<le> 253)"

definition IsLoopback :: "ip \<Rightarrow> bool" where
  "IsLoopback ip = (case To4 ip of Some fs \<Rightarrow> fs ! 0 = 127 | None \<Rightarrow> ip = replicate 15 0 @ [1])"

definition IsLinkLocalUnicast :: "ip \<Rightarrow> bool" where
  "IsLinkLocalUnicast ip = (case To4 ip of
       Some fs \<Rightarrow> fs ! 0 = 169 \<and> fs ! 1 = 254
     | None \<Rightarrow> length ip = 16 \<and> ip ! 0 = 254 \<and> 128 \<le> ip ! 1 \<and> ip ! 1 \<le> 191)"

end
