(* ===== verification/Es2_Client.thy ===== *)
theory Es2_Client
  imports Carriers Net_IP
begin

text \<open>
  The ES2+ client of the carrier connector (\<open>apps/carrier-connector/internal/es2/client.go\<close>,
  \<open>types.go\<close>): the host check against request forgery, the retry loop with exponential backoff
  and the five operations. The URL parser, the network and the JSON decoder are arguments:
  \<open>hostname\<close> is what \<open>url.Parse\<close> and \<open>Hostname\<close> make of a URL, \<open>net\<close> answers the
  \<open>n\<close>-th sending of a request, \<open>ctx_done\<close> tells whether the context ended during the \<open>n\<close>-th
  wait. A run returns the trace of what was sent and waited for, and its result.
\<close>

section \<open>Data\<close>

record ES2Client =
  es2_config :: ES2Config
  es2_baseURL :: string
  es2_maxRetries :: int
  es2_retryDelay :: duration

definition NewES2Client :: "ES2Config \<Rightarrow> ES2Client" where
  "NewES2Client cfg = \<lparr>es2_config = cfg, es2_baseURL = es2_BaseURL cfg, es2_maxRetries = 3,
     es2_retryDelay = 1 * second\<rparr>"

type_synonym json_object = "(string \<times> string) list"

record http_request =
  hq_method :: string
  hq_url :: string
  hq_headers :: "(string \<times> string) list"
  hq_payload :: json_object

record 'b http_response =
  hr_status :: int
  hr_body :: 'b

datatype 'b http_result = NetworkError string | Response "'b http_response"

datatype es2_event = Backoff duration | Sent http_request

datatype es2_error =
    InvalidURL string
  | PrivateAddress
  | DomainNotAllowed string
  | CreateFailed string
  | SendFailed string
  | UnexpectedStatus int
  | DecodeFailed string

record ('b, 'r) es2_env =
  hostname :: "string \<Rightarrow> string + string"
  net :: "http_request \<Rightarrow> int \<Rightarrow> 'b http_result"
  ctx_done :: "int \<Rightarrow> string option"
  decode :: "'b \<Rightarrow> string + 'r"
  nanos :: int

record ProfileReply =
  ExecutionStatus :: string
  StatusMessage :: string

section \<open>Operations\<close>

definition allowedDomains :: "string list" where
  "allowedDomains = [''smdp.example.com'', ''es2plus.example.com'', ''smdp.carrier.com'']"

definition validateURL :: "('b, 'r) es2_env \<Rightarrow> string \<Rightarrow> es2_error option" where
  "validateURL env urlStr =
     (case hostname env urlStr of
        Inl err \<Rightarrow> Some (InvalidURL err)
      | Inr host \<Rightarrow>
          if (case ParseIP host of None \<Rightarrow> False | Some ip \<Rightarrow> IsPrivate ip \<or> IsLoopback ip \<or> IsLinkLocalUnicast ip) then Some PrivateAddress
          else if host \<notin> set allowedDomains then Some (DomainNotAllowed host)
          else None)"

definition retryableError :: "string option \<Rightarrow> int \<Rightarrow> bool" where
  "retryableError err statusCode = (if err \<noteq> None then True else 500 \<le> statusCode \<or> statusCode = 429)"

definition backoff :: "int \<Rightarrow> ES2Client \<Rightarrow> duration" where
  "backoff attempt c = i64 (es2_retryDelay c * 2 ^ nat (attempt - 1))"

text \<open>\<open>Sent req\<close> is the event that the request object was handed to the HTTP client, once per
  attempt. The code makes one request object, whose body is one buffer (\<open>bytes.NewBuffer\<close>), before
  the loop and hands over that same object each time, so a send that has read the body leaves the
  buffer empty for the later ones. The HTTP client is not code of this repository: what a later send
  puts on the wire, and how it is answered, is the business of \<open>net\<close>, whose answer may depend
  on the number of the attempt; the lemma \<open>drained_body_never_succeeds\<close> states what follows
  when the client refuses a body shorter than announced.\<close>

function retry_loop ::
  "ES2Client \<Rightarrow> (int \<Rightarrow> 'b http_result) \<Rightarrow> (int \<Rightarrow> string option) \<Rightarrow> http_request \<Rightarrow> int
   \<Rightarrow> 'b http_response option \<Rightarrow> string option \<Rightarrow> es2_event list \<times> 'b http_response option \<times> string option" where
  "retry_loop c answer cancel req attempt lastResp lastErr =
     (if es2_maxRetries c < attempt then ([], lastResp, lastErr)
      else if 0 < attempt \<and> cancel attempt \<noteq> None then ([], None, cancel attempt)
      else
        let wait = (if 0 < attempt then [Backoff (backoff attempt c)] else []);
            cont = (\<lambda>resp err. let (tr, res) = retry_loop c answer cancel req (attempt + 1) resp err
                      in (wait @ Sent req # tr, res))
        in case answer attempt of
             NetworkError err \<Rightarrow>
               if \<not> retryableError (Some err) 0 then (wait @ [Sent req], None, Some err)
               else cont lastResp (Some err)
           | Response resp \<Rightarrow>
               if hr_status resp = 200 then (wait @ [Sent req], Some resp, None)
               else if \<not> retryableError None (hr_status resp) then (wait @ [Sent req], Some resp, None)
               else cont (Some resp) (Some (''HTTP '' @ show_int (hr_status resp))))"
  by pat_completeness auto
termination
  by (relation "measure (\<lambda>(c, answer, cancel, req, attempt, r, e). nat (es2_maxRetries c + 1 - attempt))") auto

declare retry_loop.simps [simp del]

definition executeWithRetry ::
  "('b, 'r) es2_env \<Rightarrow> ES2Client \<Rightarrow> http_request \<Rightarrow> es2_event list \<times> 'b http_response option \<times> string option" where
  "executeWithRetry env c req = retry_loop c (net env req) (ctx_done env) req 0 None None"

definition setHeaders :: "int \<Rightarrow> ES2Client \<Rightarrow> (string \<times> string) list" where
  "setHeaders now c =
     [(''Content-Type'', ''application/json''), (''Accept'', ''application/json''),
      (''User-Agent'', ''Telecom-Platform/1.0'')]
     @ (if es2_APIKey (es2_config c) \<noteq> [] then [(''Authorization'', ''Bearer '' @ es2_APIKey (es2_config c))] else [])
     @ (if es2_FunctionalityRequesterID (es2_config c) \<noteq> []
        then [(''X-Admin-Protocol'', ''gsma-rsp''), (''X-Request-ID'', show_int now)] else [])"

text \<open>The common end of the five operations, from the creation of the request on. A response
  without an error and without a body would be a nil pointer.\<close>

definition post :: "('b, 'r) es2_env \<Rightarrow> ES2Client \<Rightarrow> string \<Rightarrow> json_object \<Rightarrow> es2_event list \<times> (es2_error + 'r) go" where
  "post env c url payload =
     (case hostname env url of
        Inl err \<Rightarrow> ([], Returns (Inl (CreateFailed err)))
      | Inr _ \<Rightarrow>
          let req = \<lparr>hq_method = ''POST'', hq_url = url, hq_headers = setHeaders (nanos env) c, hq_payload = payload\<rparr>
          in case executeWithRetry env c req of (tr, resp, err) \<Rightarrow>
              (tr, case err of
                 Some e \<Rightarrow> Returns (Inl (SendFailed e))
               | None \<Rightarrow> go_bind (deref resp) (\<lambda>r.
                   if hr_status r \<noteq> 200 then Returns (Inl (UnexpectedStatus (hr_status r)))
                   else case decode env (hr_body r) of
                       Inl e \<Rightarrow> Returns (Inl (DecodeFailed e))
                     | Inr v \<Rightarrow> Returns (Inr v))))"

record DownloadProfileRequest =
  dp_EID :: string
  dp_ICCID :: string
  dp_ProfileType :: string
  dp_ConfirmationCode :: string

record ProfileKey =
  pk_EID :: string
  pk_ICCID :: string

definition DownloadProfile ::
  "('b, 'r) es2_env \<Rightarrow> ES2Client \<Rightarrow> DownloadProfileRequest \<Rightarrow> es2_event list \<times> (es2_error + 'r) go" where
  "DownloadProfile env c req =
     (let url = es2_baseURL c @ ''/es2plus/downloadProfile'' in
      case validateURL env url of
        Some err \<Rightarrow> ([], Returns (Inl err))
      | None \<Rightarrow> post env c url
          ([(''eid'', dp_EID req), (''iccid'', dp_ICCID req), (''profileType'', dp_ProfileType req)]
           @ (if dp_ConfirmationCode req \<noteq> [] then [(''confirmationCode'', dp_ConfirmationCode req)] else [])))"

definition key_object :: "ProfileKey \<Rightarrow> json_object" where
  "key_object req = [(''eid'', pk_EID req), (''iccid'', pk_ICCID req)]"

definition GetProfileStatus ::
  "('b, 'r) es2_env \<Rightarrow> ES2Client \<Rightarrow> ProfileKey \<Rightarrow> es2_event list \<times> (es2_error + 'r) go" where
  "GetProfileStatus env c req =
     (let url = es2_baseURL c @ ''/es2plus/getProfileStatus'' in
      case validateURL env url of
        Some err \<Rightarrow> ([], Returns (Inl err))
      | None \<Rightarrow> post env c url (key_object req))"

definition DeleteProfile ::
  "('b, 'r) es2_env \<Rightarrow> ES2Client \<Rightarrow> ProfileKey \<Rightarrow> es2_event list \<times> (es2_error + 'r) go" where
  "DeleteProfile env c req = post env c (es2_baseURL c @ ''/es2plus/deleteProfile'') (key_object req)"

definition EnableProfile ::
  "('b, 'r) es2_env \<Rightarrow> ES2Client \<Rightarrow> ProfileKey \<Rightarrow> es2_event list \<times> (es2_error + 'r) go" where
  "EnableProfile env c req = post env c (es2_baseURL c @ ''/es2plus/enableProfile'') (key_object req)"

definition DisableProfile ::
  "('b, 'r) es2_env \<Rightarrow> ES2Client \<Rightarrow> ProfileKey \<Rightarrow> es2_event list \<times> (es2_error + 'r) go" where
  "DisableProfile env c req = post env c (es2_baseURL c @ ''/es2plus/disableProfile'') (key_object req)"

text \<open>The allowed domains are names, never addresses.\<close>

lemma allowed_not_ip: "host \<in> set allowedDomains \<Longrightarrow> ParseIP host = None"
proof -
  have "list_all (\<lambda>h. ParseIP h = None) allowedDomains" by code_simp
  then show "host \<in> set allowedDomains \<Longrightarrow> ParseIP host = None" by (simp add: list_all_iff)
qed

section \<open>The retry loop\<close>

definition retried :: "'b http_result \<Rightarrow> bool" where
  "retried a = (case a of NetworkError e \<Rightarrow> True
     | Response r \<Rightarrow> hr_status r \<noteq> 200 \<and> retryableError None (hr_status r))"

text \<open>The first attempt, from \<open>i\<close> on, that ends the loop.\<close>

definition decisive :: "ES2Client \<Rightarrow> (int \<Rightarrow> 'b http_result) \<Rightarrow> (int \<Rightarrow> string option) \<Rightarrow> int \<Rightarrow> int \<Rightarrow> bool" where
  "decisive c answer cancel i k \<longleftrightarrow> i \<le> k \<and> k \<le> es2_maxRetries c \<and> \<not> retried (answer k)
     \<and> (\<forall>j. i \<le> j \<and> j < k \<longrightarrow> retried (answer j)) \<and> (\<forall>j. i \<le> j \<and> j \<le> k \<and> 0 < j \<longrightarrow> cancel j = None)"

lemma decisive_first: "decisive c answer cancel i i \<longleftrightarrow>
    i \<le> es2_maxRetries c \<and> \<not> retried (answer i) \<and> (0 < i \<longrightarrow> cancel i = None)"
  by (auto simp: decisive_def)

lemma decisive_later:
  "i < k \<Longrightarrow> decisive c answer cancel i k \<longleftrightarrow>
    retried (answer i) \<and> (0 < i \<longrightarrow> cancel i = None) \<and> decisive c answer cancel (i + 1) k"
proof -
  assume k: "i < k"
  have split: "(i \<le> j) = (j = i \<or> i + 1 \<le> j)" for j :: int by auto
  show ?thesis unfolding decisive_def split[of k] using k by (auto simp: split)
qed

lemma retry_step:
  assumes "\<not> es2_maxRetries c < i" "\<not> (0 < i \<and> cancel i \<noteq> None)"
  defines "wait \<equiv> (if 0 < i then [Backoff (backoff i c)] else [])"
  shows "retried (answer i) \<Longrightarrow> \<exists>resp err. err \<noteq> None \<and>
      retry_loop c answer cancel req i lastResp lastErr =
        (wait @ Sent req # fst (retry_loop c answer cancel req (i + 1) resp err),
         snd (retry_loop c answer cancel req (i + 1) resp err))"
    and "\<not> retried (answer i) \<Longrightarrow> \<exists>r. answer i = Response r \<and>
      retry_loop c answer cancel req i lastResp lastErr = (wait @ [Sent req], Some r, None)"
proof -
  assume r: "retried (answer i)"
  show "\<exists>resp err. err \<noteq> None \<and> retry_loop c answer cancel req i lastResp lastErr =
        (wait @ Sent req # fst (retry_loop c answer cancel req (i + 1) resp err),
         snd (retry_loop c answer cancel req (i + 1) resp err))"
  proof (cases "answer i")
    case (NetworkError e)
    show ?thesis
      by (rule exI[of _ lastResp], rule exI[of _ "Some e"], subst retry_loop.simps)
        (use assms NetworkError in \<open>auto simp: retryableError_def split_beta Let_def\<close>)
  next
    case (Response r')
    show ?thesis
      by (rule exI[of _ "Some r'"], rule exI[of _ "Some (''HTTP '' @ show_int (hr_status r'))"],
          subst retry_loop.simps)
        (use assms Response r in \<open>auto simp: retried_def split_beta Let_def\<close>)
  qed
next
  assume r: "\<not> retried (answer i)"
  then obtain r' where a: "answer i = Response r'"
    by (cases "answer i") (auto simp: retried_def)
  have "retry_loop c answer cancel req i lastResp lastErr = (wait @ [Sent req], Some r', None)"
    by (subst retry_loop.simps) (use assms a r in \<open>auto simp: retried_def split_beta Let_def\<close>)
  with a show "\<exists>r. answer i = Response r \<and>
      retry_loop c answer cancel req i lastResp lastErr = (wait @ [Sent req], Some r, None)" by blast
qed

lemma retry_stop:
  "es2_maxRetries c < i \<or> (0 < i \<and> cancel i \<noteq> None) \<Longrightarrow>
   retry_loop c answer cancel req i lastResp lastErr =
     (if es2_maxRetries c < i then ([], lastResp, lastErr) else ([], None, cancel i))"
  by (subst retry_loop.simps) auto

lemma retry_loop_ok:
  assumes "snd (retry_loop c answer cancel req i lastResp lastErr) = (Some r, None)"
    and "lastResp = None \<or> lastErr \<noteq> None"
  shows "\<exists>k. decisive c answer cancel i k \<and> answer k = Response r"
  using assms
proof (induction c answer cancel req i lastResp lastErr rule: retry_loop.induct)
  case (1 c answer cancel req i lastResp lastErr)
  note step = retry_step[where c = c and i = i and cancel = cancel and answer = answer
      and req = req and lastResp = lastResp and lastErr = lastErr]
    and stop = retry_stop[where c = c and i = i and cancel = cancel and answer = answer
      and req = req and lastResp = lastResp and lastErr = lastErr]
  have run: "\<not> es2_maxRetries c < i" "\<not> (0 < i \<and> cancel i \<noteq> None)"
    using "1.prems" stop by (fastforce split: if_splits)+
  show ?case
  proof (cases "retried (answer i)")
    case False
    from step(2)[OF run False] "1.prems"(1)
    have "answer i = Response r" by auto
    with False run show ?thesis by (auto simp: decisive_first intro!: exI[of _ i])
  next
    case True
    from step(1)[OF run True] obtain resp err where e: "err \<noteq> None"
      "snd (retry_loop c answer cancel req i lastResp lastErr) = snd (retry_loop c answer cancel req (i + 1) resp err)"
      by (metis snd_conv)
    have "snd (retry_loop c answer cancel req (i + 1) resp err) = (Some r, None)" using "1.prems"(1) e(2) by simp
    with "1.IH"[OF run refl, of resp err] e(1) obtain k where
      k: "decisive c answer cancel (i + 1) k" "answer k = Response r" by blast
    then have "i < k" by (simp add: decisive_def)
    with k True run show ?thesis by (auto simp: decisive_later intro!: exI[of _ k])
  qed
qed

lemma retry_loop_reaches:
  assumes "decisive c answer cancel i k" "answer k = Response r"
  shows "snd (retry_loop c answer cancel req i lastResp lastErr) = (Some r, None)"
  using assms
proof (induction c answer cancel req i lastResp lastErr rule: retry_loop.induct)
  case (1 c answer cancel req i lastResp lastErr)
  note step = retry_step[where c = c and i = i and cancel = cancel and answer = answer
      and req = req and lastResp = lastResp and lastErr = lastErr]
    and stop = retry_stop[where c = c and i = i and cancel = cancel and answer = answer
      and req = req and lastResp = lastResp and lastErr = lastErr]
  have run: "\<not> es2_maxRetries c < i" "\<not> (0 < i \<and> cancel i \<noteq> None)"
    using "1.prems"(1) by (auto simp: decisive_def)
  show ?case
  proof (cases "i = k")
    case True
    then have "\<not> retried (answer i)" using "1.prems"(1) by (simp add: decisive_def)
    from step(2)[OF run this] True "1.prems"(2) show ?thesis by auto
  next
    case False
    then have "i < k" using "1.prems"(1) by (simp add: decisive_def)
    with "1.prems"(1) have d: "retried (answer i)" "decisive c answer cancel (i + 1) k"
      by (simp_all add: decisive_later)
    from step(1)[OF run d(1)] obtain resp err where
      "snd (retry_loop c answer cancel req i lastResp lastErr) = snd (retry_loop c answer cancel req (i + 1) resp err)"
      by auto
    with "1.IH"[OF run refl d(2) "1.prems"(2), of resp err] show ?thesis by simp
  qed
qed

text \<open>What a run sends and waits for when nothing stops it: every attempt, with its backoff.\<close>

function full_trace :: "ES2Client \<Rightarrow> http_request \<Rightarrow> int \<Rightarrow> es2_event list" where
  "full_trace c req i =
     (if es2_maxRetries c < i then []
      else (if 0 < i then [Backoff (backoff i c)] else []) @ Sent req # full_trace c req (i + 1))"
  by pat_completeness auto
termination by (relation "measure (\<lambda>(c, req, i). nat (es2_maxRetries c + 1 - i))") auto

declare full_trace.simps [simp del]

lemma retry_trace:
  "\<exists>rest. full_trace c req i = fst (retry_loop c answer cancel req i lastResp lastErr) @ rest"
proof (induction c answer cancel req i lastResp lastErr rule: retry_loop.induct)
  case (1 c answer cancel req i lastResp lastErr)
  note step = retry_step[where c = c and i = i and cancel = cancel and answer = answer
      and req = req and lastResp = lastResp and lastErr = lastErr]
    and stop = retry_stop[where c = c and i = i and cancel = cancel and answer = answer
      and req = req and lastResp = lastResp and lastErr = lastErr]
  show ?case
  proof (cases "es2_maxRetries c < i \<or> (0 < i \<and> cancel i \<noteq> None)")
    case True
    from stop[OF this] show ?thesis by auto
  next
    case False
    then have run: "\<not> es2_maxRetries c < i" "\<not> (0 < i \<and> cancel i \<noteq> None)" by auto
    have full: "full_trace c req i = (if 0 < i then [Backoff (backoff i c)] else []) @ Sent req # full_trace c req (i + 1)"
      using run by (subst full_trace.simps) simp
    show ?thesis
    proof (cases "retried (answer i)")
      case True
      from step(1)[OF run True] obtain resp err where
        "retry_loop c answer cancel req i lastResp lastErr =
          ((if 0 < i then [Backoff (backoff i c)] else []) @ Sent req # fst (retry_loop c answer cancel req (i + 1) resp err),
           snd (retry_loop c answer cancel req (i + 1) resp err))" by blast
      with "1.IH"[OF run refl, of resp err] full show ?thesis by simp
    next
      case False
      from step(2)[OF run False] full show ?thesis by auto
    qed
  qed
qed

lemma post_ok:
  "snd (post env c url payload) = Returns (Inr v) \<longleftrightarrow> (\<exists>host req k b.
     hostname env url = Inr host
     \<and> req = \<lparr>hq_method = ''POST'', hq_url = url, hq_headers = setHeaders (nanos env) c, hq_payload = payload\<rparr>
     \<and> decisive c (net env req) (ctx_done env) 0 k
     \<and> net env req k = Response \<lparr>hr_status = 200, hr_body = b\<rparr> \<and> decode env b = Inr v)"
  (is "?l \<longleftrightarrow> ?r")
proof
  assume ?l
  let ?req = "\<lparr>hq_method = ''POST'', hq_url = url, hq_headers = setHeaders (nanos env) c, hq_payload = payload\<rparr>"
  from \<open>?l\<close> obtain host r where h: "hostname env url = Inr host" "hr_status r = 200" "decode env (hr_body r) = Inr v"
    "snd (executeWithRetry env c ?req) = (Some r, None)"
    by (cases "hostname env url"; cases "snd (snd (executeWithRetry env c ?req))";
        cases "fst (snd (executeWithRetry env c ?req))")
      (auto simp: post_def Let_def split_beta prod_eq_iff split: sum.splits if_splits)
  from retry_loop_ok[OF h(4)[unfolded executeWithRetry_def]] obtain k where
    "decisive c (net env ?req) (ctx_done env) 0 k" "net env ?req k = Response r" by blast
  moreover have "r = \<lparr>hr_status = 200, hr_body = hr_body r\<rparr>" using h(2) by simp
  ultimately show ?r using h(1,3) by metis
next
  assume ?r
  then obtain host k b where h: "hostname env url = Inr host" "decode env b = Inr v"
    "decisive c (net env \<lparr>hq_method = ''POST'', hq_url = url, hq_headers = setHeaders (nanos env) c, hq_payload = payload\<rparr>) (ctx_done env) 0 k"
    "net env \<lparr>hq_method = ''POST'', hq_url = url, hq_headers = setHeaders (nanos env) c, hq_payload = payload\<rparr> k
      = Response \<lparr>hr_status = 200, hr_body = b\<rparr>" by blast
  from retry_loop_reaches[OF h(3,4)] h(1,2) show ?l
    by (auto simp: post_def executeWithRetry_def Let_def split_beta)
qed

text \<open>A retry after an answer such as 503 sends the drained body with the old length. If the HTTP
  client reports that as an error, no later attempt can succeed, however healthy the server is.\<close>

theorem drained_body_never_succeeds:
  assumes "retried (net env hq 0)"
    and "\<And>j. 1 \<le> j \<Longrightarrow> net env hq j = NetworkError (drained j)"
  shows "snd (executeWithRetry env c hq) \<noteq> (Some r, None)"
proof
  assume "snd (executeWithRetry env c hq) = (Some r, None)"
  from retry_loop_ok[OF this[unfolded executeWithRetry_def]] obtain k where
    k: "decisive c (net env hq) (ctx_done env) 0 k" "net env hq k = Response r" by blast
  then have "0 \<le> k" "k \<noteq> 0" using assms(1) by (auto simp: decisive_def)
  then show False using assms(2)[of k] k(2) by simp
qed

section \<open>Properties\<close>

text \<open>C10. A download succeeds exactly when its host is on the list of allowed domains and one of
  the first four sendings is answered with status 200 and a body that decodes, every earlier one
  having failed in a retryable way and no wait having been cut short.\<close>

theorem es2_download_succeeds_iff:
  "snd (DownloadProfile env (NewES2Client cfg) req) = Returns (Inr v) \<longleftrightarrow> (\<exists>host k b hq.
     hostname env (es2_BaseURL cfg @ ''/es2plus/downloadProfile'') = Inr host \<and> host \<in> set allowedDomains
     \<and> hq_url hq = es2_BaseURL cfg @ ''/es2plus/downloadProfile''
     \<and> hq_payload hq = [(''eid'', dp_EID req), (''iccid'', dp_ICCID req), (''profileType'', dp_ProfileType req)]
          @ (if dp_ConfirmationCode req \<noteq> [] then [(''confirmationCode'', dp_ConfirmationCode req)] else [])
     \<and> hq_method hq = ''POST'' \<and> hq_headers hq = setHeaders (nanos env) (NewES2Client cfg)
     \<and> 0 \<le> k \<and> k \<le> 3 \<and> net env hq k = Response \<lparr>hr_status = 200, hr_body = b\<rparr> \<and> decode env b = Inr v
     \<and> (\<forall>j. 0 \<le> j \<and> j < k \<longrightarrow> retried (net env hq j)) \<and> (\<forall>j. 1 \<le> j \<and> j \<le> k \<longrightarrow> ctx_done env j = None))"
  (is "_ \<longleftrightarrow> ?r")
proof -
  let ?c = "NewES2Client cfg" and ?url = "es2_BaseURL cfg @ ''/es2plus/downloadProfile''"
  let ?p = "[(''eid'', dp_EID req), (''iccid'', dp_ICCID req), (''profileType'', dp_ProfileType req)]
          @ (if dp_ConfirmationCode req \<noteq> [] then [(''confirmationCode'', dp_ConfirmationCode req)] else [])"
  have url: "es2_baseURL ?c = es2_BaseURL cfg" "es2_maxRetries ?c = 3" by (simp_all add: NewES2Client_def)
  have "snd (DownloadProfile env ?c req) = Returns (Inr v) \<longleftrightarrow>
      (\<exists>host. hostname env ?url = Inr host \<and> host \<in> set allowedDomains) \<and> snd (post env ?c ?url ?p) = Returns (Inr v)"
    using allowed_not_ip by (auto simp: DownloadProfile_def validateURL_def url Let_def split: sum.splits option.splits)
  also have "\<dots> \<longleftrightarrow> ?r"
  proof
    assume l: "(\<exists>host. hostname env ?url = Inr host \<and> host \<in> set allowedDomains) \<and> snd (post env ?c ?url ?p) = Returns (Inr v)"
    then obtain k b hq where "hq = \<lparr>hq_method = ''POST'', hq_url = ?url, hq_headers = setHeaders (nanos env) ?c, hq_payload = ?p\<rparr>"
      "decisive ?c (net env hq) (ctx_done env) 0 k" "net env hq k = Response \<lparr>hr_status = 200, hr_body = b\<rparr>" "decode env b = Inr v"
      unfolding post_ok by blast
    with l show ?r
      by (intro exI[of _ "projr (hostname env ?url)"] exI[of _ k] exI[of _ b] exI[of _ hq])
        (auto simp: decisive_def url)
  next
    assume ?r
    then obtain host k b hq where h: "hostname env ?url = Inr host" "host \<in> set allowedDomains"
      "hq_url hq = ?url" "hq_payload hq = ?p" "hq_method hq = ''POST''" "hq_headers hq = setHeaders (nanos env) ?c"
      "0 \<le> k" "k \<le> 3" "net env hq k = Response \<lparr>hr_status = 200, hr_body = b\<rparr>" "decode env b = Inr v"
      "\<forall>j. 0 \<le> j \<and> j < k \<longrightarrow> retried (net env hq j)" "\<forall>j. 1 \<le> j \<and> j \<le> k \<longrightarrow> ctx_done env j = None" by blast
    have hq: "hq = \<lparr>hq_method = ''POST'', hq_url = ?url, hq_headers = setHeaders (nanos env) ?c, hq_payload = ?p\<rparr>"
      using h(3-6) by simp
    have "decisive ?c (net env hq) (ctx_done env) 0 k"
      using h by (auto simp: decisive_def url retried_def retryableError_def)
    with h hq show "(\<exists>host. hostname env ?url = Inr host \<and> host \<in> set allowedDomains) \<and> snd (post env ?c ?url ?p) = Returns (Inr v)"
      unfolding post_ok by blast
  qed
  finally show ?thesis .
qed

definition demo_env :: "(int \<Rightarrow> string http_result) \<Rightarrow> (string, string) es2_env" where
  "demo_env answers = \<lparr>hostname = (\<lambda>u. Inr ''smdp.example.com''),
     net = (\<lambda>req. answers), ctx_done = (\<lambda>k. None), decode = (\<lambda>b. Inr b), nanos = 7\<rparr>"

definition demo_config :: ES2Config where
  "demo_config = \<lparr>es2_BaseURL = ''https://smdp.example.com'', es2_APIKey = '''', es2_InsecureSkipVerify = False,
     es2_FunctionalityRequesterID = ''telecom-platform''\<rparr>"

theorem es2_download_succeeds_iff_witness:
  "snd (DownloadProfile (demo_env (\<lambda>k. if k = 2 then Response \<lparr>hr_status = 200, hr_body = ''ok''\<rparr> else NetworkError ''reset''))
     (NewES2Client demo_config) \<lparr>dp_EID = ''1'', dp_ICCID = ''2'', dp_ProfileType = ''p'', dp_ConfirmationCode = ''''\<rparr>)
   = Returns (Inr ''ok'')"
  by (subst es2_download_succeeds_iff)
    (auto simp: demo_env_def demo_config_def allowedDomains_def retried_def
      intro!: exI[of _ "2 :: int"] exI[of _ "''ok''"]
        exI[of _ "\<lparr>hq_method = ''POST'', hq_url = ''https://smdp.example.com/es2plus/downloadProfile'',
          hq_headers = setHeaders 7 (NewES2Client demo_config),
          hq_payload = [(''eid'', ''1''), (''iccid'', ''2''), (''profileType'', ''p'')]\<rparr>"])

text \<open>Whatever the network answers, an operation sends its request at most four times and
  waits one, two and four seconds in between: its trace is a prefix of that schedule.\<close>

theorem es2_retry_schedule:
  "\<exists>rest. [Sent req, Backoff (1 * second), Sent req, Backoff (2 * second), Sent req, Backoff (4 * second), Sent req]
     = fst (executeWithRetry env (NewES2Client cfg) req) @ rest"
proof -
  let ?c = "NewES2Client cfg"
  have b: "backoff 1 ?c = 1 * second" "backoff 2 ?c = 2 * second" "backoff 3 ?c = 4 * second"
    by (simp_all add: backoff_def NewES2Client_def go_simps)
  have m: "es2_maxRetries ?c = 3" by (simp add: NewES2Client_def)
  have "full_trace ?c req 4 = []" by (subst full_trace.simps) (simp add: m)
  moreover have "full_trace ?c req 3 = [Backoff (4 * second), Sent req] @ full_trace ?c req 4"
    by (subst full_trace.simps) (simp add: m b)
  moreover have "full_trace ?c req 2 = [Backoff (2 * second), Sent req] @ full_trace ?c req 3"
    by (subst full_trace.simps) (simp add: m b)
  moreover have "full_trace ?c req 1 = [Backoff (1 * second), Sent req] @ full_trace ?c req 2"
    by (subst full_trace.simps) (simp add: m b)
  moreover have "full_trace ?c req 0 = Sent req # full_trace ?c req 1"
    by (subst full_trace.simps) (simp add: m)
  ultimately have "full_trace ?c req 0 = [Sent req, Backoff (1 * second), Sent req, Backoff (2 * second), Sent req,
      Backoff (4 * second), Sent req]" by simp
  then show ?thesis
    using retry_trace[of ?c req 0 "net env req" "ctx_done env" None None] by (simp add: executeWithRetry_def)
qed

text \<open>The check against request forgery guards only two of the five operations: a download
  and a status query send nothing to a host outside the list, while deleting, enabling and
  disabling a profile send their request, with the API key, to any host.\<close>

theorem es2_forgery_check_partial:
  assumes "hostname env (es2_baseURL c @ ''/es2plus/downloadProfile'') = Inr host"
    and "hostname env (es2_baseURL c @ ''/es2plus/getProfileStatus'') = Inr host"
    and "hostname env (es2_baseURL c @ ''/es2plus/deleteProfile'') = Inr host"
    and "host \<notin> set allowedDomains" and "0 \<le> es2_maxRetries c"
  shows "fst (DownloadProfile env c req) = [] \<and> fst (GetProfileStatus env c key) = []
    \<and> (\<exists>hq tr. fst (DeleteProfile env c key) = Sent hq # tr \<and> hq_url hq = es2_baseURL c @ ''/es2plus/deleteProfile''
         \<and> hq_headers hq = setHeaders (nanos env) c)"
proof -
  have "\<exists>tr. fst (executeWithRetry env c hq) = Sent hq # tr" for hq
    using assms(5) unfolding executeWithRetry_def
    by (subst retry_loop.simps) (auto simp: Let_def split_beta split: http_result.splits)
  moreover have "validateURL env (es2_baseURL c @ ''/es2plus/downloadProfile'') \<noteq> None"
    "validateURL env (es2_baseURL c @ ''/es2plus/getProfileStatus'') \<noteq> None"
    using assms by (auto simp: validateURL_def)
  moreover have "\<exists>hq. fst (DeleteProfile env c key) = fst (executeWithRetry env c hq)
      \<and> hq_url hq = es2_baseURL c @ ''/es2plus/deleteProfile'' \<and> hq_headers hq = setHeaders (nanos env) c"
    using assms(3) unfolding DeleteProfile_def post_def
    by (auto simp: Let_def split_beta intro!: exI[of _ "\<lparr>hq_method = ''POST'', hq_url = es2_baseURL c @ ''/es2plus/deleteProfile'',
        hq_headers = setHeaders (nanos env) c, hq_payload = key_object key\<rparr>"])
  ultimately show ?thesis by (fastforce simp: DownloadProfile_def GetProfileStatus_def Let_def)
qed

theorem es2_forgery_check_partial_witness:
  "let env = (demo_env (\<lambda>k. NetworkError ''x''))\<lparr>hostname := (\<lambda>u. Inr ''10.0.0.5'')\<rparr>;
       c = NewES2Client (demo_config\<lparr>es2_BaseURL := ''http://10.0.0.5''\<rparr>)
   in \<exists>hq tr. fst (DeleteProfile env c \<lparr>pk_EID = ''1'', pk_ICCID = ''2''\<rparr>) = Sent hq # tr
        \<and> hq_url hq = ''http://10.0.0.5/es2plus/deleteProfile''"
proof -
  let ?env = "(demo_env (\<lambda>k. NetworkError ''x''))\<lparr>hostname := (\<lambda>u. Inr ''10.0.0.5'')\<rparr>"
  let ?c = "NewES2Client (demo_config\<lparr>es2_BaseURL := ''http://10.0.0.5''\<rparr>)"
  have c: "es2_baseURL ?c = ''http://10.0.0.5''" "es2_maxRetries ?c = 3" by (simp_all add: NewES2Client_def)
  have "''10.0.0.5'' \<notin> set allowedDomains" by (simp add: allowedDomains_def)
  from es2_forgery_check_partial[of ?env ?c, OF _ _ _ this] c show ?thesis by fastforce
qed

end
