(* ===== verification/Smdp_Manager.thy ===== *)
theory Smdp_Manager
  imports Selection Es2_Client
begin

text \<open>
  The SM-DP+ manager (\<open>apps/carrier-connector/internal/smdp/manager.go\<close>, \<open>operations.go\<close>): the
  carriers and their clients, selection, and profile downloads with retries and failover. The
  answers of the network, the clock and the map iteration orders are arguments. A call may
  panic, or block for ever on a lock its own goroutine holds: \<open>held\<close> says that the goroutine
  already holds \<open>carriersMutex\<close> for reading, which a later \<open>Lock\<close> waits for.
\<close>

section \<open>State\<close>

record SMDPManager =
  mgr_carriers :: "string \<rightharpoonup> Carrier"
  mgr_es2Clients :: "string \<rightharpoonup> ES2Client"
  mgr_selector :: SelectionAlgorithm
  mgr_config :: ManagerConfig

definition NewSMDPManager :: "ManagerConfig \<Rightarrow> SMDPManager" where
  "NewSMDPManager config = \<lparr>mgr_carriers = Map.empty, mgr_es2Clients = Map.empty,
     mgr_selector = NewSelectionAlgorithm, mgr_config = config\<rparr>"

datatype 'a run = Done 'a | Panicked | Blocked

fun run_bind :: "'a run \<Rightarrow> ('a \<Rightarrow> 'b run) \<Rightarrow> 'b run" where
  "run_bind (Done x) f = f x"
| "run_bind Panicked f = Panicked"
| "run_bind Blocked f = Blocked"

lemma run_bind_cong [fundef_cong]:
  "m = m' \<Longrightarrow> (\<And>x. m' = Done x \<Longrightarrow> f x = f' x) \<Longrightarrow> run_bind m f = run_bind m' f'"
  by (cases m') auto

lemma run_bind_Done: "run_bind m f = Done y \<longleftrightarrow> (\<exists>x. m = Done x \<and> f x = Done y)"
  by (cases m) auto

fun of_go :: "'a go \<Rightarrow> 'a run" where
  "of_go (Returns x) = Done x"
| "of_go Panics = Panicked"

datatype manager_error =
    MissingIdentity
  | MissingES2Config
  | CarrierNotFound string
  | SelectionFailed selection_error
  | ClientNotFound string
  | DownloadError string
  | FailoverExhausted

section \<open>Carriers\<close>

definition validateCarrier :: "Carrier \<Rightarrow> manager_error option" where
  "validateCarrier carrier =
     (if car_ID carrier = '''' \<or> car_Name carrier = '''' \<or> car_MCC carrier = '''' \<or> car_MNC carrier = ''''
      then Some MissingIdentity
      else case car_ES2Config carrier of
          None \<Rightarrow> Some MissingES2Config
        | Some cfg \<Rightarrow> if es2_BaseURL cfg = '''' then Some MissingES2Config else None)"

definition AddCarrier :: "Carrier \<Rightarrow> SMDPManager \<Rightarrow> manager_error option \<times> SMDPManager" where
  "AddCarrier carrier m =
     (case validateCarrier carrier of
        Some err \<Rightarrow> (Some err, m)
      | None \<Rightarrow>
          let client = NewES2Client (the (car_ES2Config carrier)) in
          (None, m\<lparr>mgr_carriers := (mgr_carriers m)(car_ID carrier \<mapsto> carrier),
                   mgr_es2Clients := (mgr_es2Clients m)(car_ID carrier \<mapsto> client)\<rparr>))"

definition RemoveCarrier :: "string \<Rightarrow> SMDPManager \<Rightarrow> manager_error option \<times> SMDPManager" where
  "RemoveCarrier carrierID m =
     (case mgr_carriers m carrierID of
        None \<Rightarrow> (Some (CarrierNotFound carrierID), m)
      | Some _ \<Rightarrow> (None, m\<lparr>mgr_carriers := (mgr_carriers m)(carrierID := None),
                            mgr_es2Clients := (mgr_es2Clients m)(carrierID := None)\<rparr>))"

definition GetCarrierStatus :: "SMDPManager \<Rightarrow> (string \<rightharpoonup> Carrier)" where
  "GetCarrierStatus m = mgr_carriers m"

definition updateCarrierHealth :: "time \<Rightarrow> string \<Rightarrow> CarrierHealthStatus \<Rightarrow> SMDPManager \<Rightarrow> SMDPManager" where
  "updateCarrierHealth now carrierID status m =
     (case mgr_carriers m carrierID of
        None \<Rightarrow> m
      | Some carrier \<Rightarrow> m\<lparr>mgr_carriers := (mgr_carriers m)(carrierID \<mapsto>
          carrier\<lparr>car_HealthStatus := status, car_LastHealthCheck := now\<rparr>)\<rparr>)"

section \<open>Selection\<close>

definition healthyCarriers :: "string list \<Rightarrow> SMDPManager \<Rightarrow> Carrier list" where
  "healthyCarriers ks m = filter eligible (map (\<lambda>k. the (mgr_carriers m k)) (filter (\<lambda>k. mgr_carriers m k \<noteq> None) ks))"

definition mgr_SelectOptimalCarrier ::
  "((CarrierScore \<Rightarrow> CarrierScore \<Rightarrow> bool) \<Rightarrow> CarrierScore list \<Rightarrow> CarrierScore list) \<Rightarrow> (Carrier \<Rightarrow> time) \<Rightarrow> string list
   \<Rightarrow> SelectionCriteria \<Rightarrow> SMDPManager \<Rightarrow> ((selection_error + CarrierScore) \<times> SMDPManager) go" where
  "mgr_SelectOptimalCarrier srt now ks criteria m =
     go_bind (SelectOptimalCarrier srt now (healthyCarriers ks m) criteria (mgr_selector m))
       (\<lambda>(res, sel). Returns (res, m\<lparr>mgr_selector := sel\<rparr>))"

definition default_criteria :: SelectionCriteria where
  "default_criteria = \<lparr>sc_Region = '''', sc_ProfileType = ''operational'', sc_Urgency = ''medium'',
     sc_CostSensitivity = f64_lit (5/10), sc_PerformanceWeight = f64_lit (4/10), sc_ReliabilityWeight = f64_lit (4/10)\<rparr>"

definition mgr_SelectCarrier ::
  "((CarrierScore \<Rightarrow> CarrierScore \<Rightarrow> bool) \<Rightarrow> CarrierScore list \<Rightarrow> CarrierScore list) \<Rightarrow> (Carrier \<Rightarrow> time) \<Rightarrow> string list
   \<Rightarrow> SMDPManager \<Rightarrow> ((selection_error + Carrier) \<times> SMDPManager) go" where
  "mgr_SelectCarrier srt now ks m =
     go_bind (mgr_SelectOptimalCarrier srt now ks default_criteria m) (\<lambda>(res, m').
       Returns (case res of Inl e \<Rightarrow> (Inl e, m') | Inr score \<Rightarrow> (Inr (cs_Carrier score), m')))"

definition mgr_GetSelectionHistory :: "string \<Rightarrow> SMDPManager \<Rightarrow> CarrierScore list" where
  "mgr_GetSelectionHistory carrierID m = GetSelectionHistory carrierID (mgr_selector m)"

definition mgr_UpdateLearning :: "string \<Rightarrow> f64 \<Rightarrow> time \<Rightarrow> time \<Rightarrow> time \<Rightarrow> SMDPManager \<Rightarrow> SMDPManager" where
  "mgr_UpdateLearning carrierID actual now1 now2 now3 m =
     m\<lparr>mgr_selector := sa_UpdateLearning carrierID actual now1 now2 now3 (mgr_selector m)\<rparr>"

section \<open>Downloads\<close>

fun selection_text :: "selection_error \<Rightarrow> string" where
  "selection_text NoCarriers = ''no carriers available for selection''"
| "selection_text NoHealthyCarriers = ''no healthy carriers available''"

record ProfileRequest =
  prq_EID :: string
  prq_ICCID :: string
  prq_ProfileType :: string
  prq_ConfirmationCode :: string
  prq_PreferredCarrier :: string

record ProfileResponse =
  prs_Success :: bool
  prs_CarrierID :: string
  prs_ExecutionStatus :: string
  prs_StatusMessage :: string
  prs_ResponseTime :: duration
  prs_RetriedOn :: "string list"

text \<open>What one attempt on a carrier meets: the client's answer, the time it took, and the readings of
  the clock when the metrics are updated.\<close>

record attempt =
  at_result :: "string + ProfileReply"
  at_time :: duration
  at_now :: time
  at_rate1 :: time
  at_rate2 :: time

definition Seconds :: "duration \<Rightarrow> f64" where
  "Seconds d = f64_add (f64_of_int (go_quot d second)) (f64_div (f64_of_int (go_rem d second)) (f64_lit 1000000000))"

definition update_metrics :: "attempt \<Rightarrow> CarrierMetrics \<Rightarrow> CarrierMetrics run" where
  "update_metrics a ms =
     (let total = u64 (TotalRequests ms + 1);
          ms1 = ms\<lparr>TotalRequests := total\<rparr>;
          ms2 = (case at_result a of
              Inr _ \<Rightarrow> ms1\<lparr>SuccessfulRequests := u64 (SuccessfulRequests ms + 1)\<rparr>
            | Inl e \<Rightarrow> ms1\<lparr>FailedRequests := u64 (FailedRequests ms + 1), LastError := e, LastErrorTime := at_now a\<rparr>);
          avg = (if total = 1 then Done (at_time a)
            else if i64 total = 0 then Panicked
            else Done (i64 (go_quot (i64 (i64 (AverageResponseTime ms * i64 (u64 (total - 1))) + at_time a)) (i64 total))))
      in run_bind avg (\<lambda>v. Done (ms2\<lparr>AverageResponseTime := v,
           RequestRate := f64_div (f64_of_int total) (Seconds (time_sub (at_rate2 a) (at_rate1 a + (- minute))))\<rparr>)))"

definition updateCarrierMetrics :: "bool \<Rightarrow> string \<Rightarrow> attempt \<Rightarrow> SMDPManager \<Rightarrow> SMDPManager run" where
  "updateCarrierMetrics held carrierID a m =
     (if held then Blocked
      else case mgr_carriers m carrierID of
          None \<Rightarrow> Done m
        | Some carrier \<Rightarrow>
            run_bind (of_go (deref (car_Metrics carrier))) (\<lambda>ms.
            run_bind (update_metrics a ms) (\<lambda>ms'.
              Done (m\<lparr>mgr_carriers := (mgr_carriers m)(carrierID \<mapsto> carrier\<lparr>car_Metrics := Some ms'\<rparr>)\<rparr>))))"

lemma update_frame:
  "updateCarrierMetrics held k a m = Done m' \<Longrightarrow> mgr_config m' = mgr_config m
    \<and> mgr_es2Clients m' = mgr_es2Clients m \<and> mgr_selector m' = mgr_selector m"
  by (auto simp: updateCarrierMetrics_def run_bind_Done split: if_splits option.splits)

function downloadWithRetry ::
  "bool \<Rightarrow> (int \<Rightarrow> attempt) \<Rightarrow> string \<Rightarrow> int \<Rightarrow> SMDPManager
   \<Rightarrow> ((ProfileResponse option \<times> manager_error option) \<times> SMDPManager) run" where
  "downloadWithRetry held obs carrierID attempt m =
     (case mgr_es2Clients m carrierID of
        None \<Rightarrow> Done ((None, Some (ClientNotFound carrierID)), m)
      | Some client \<Rightarrow>
          let a = obs attempt in
          run_bind (updateCarrierMetrics held carrierID a m) (\<lambda>m1.
            case at_result a of
              Inl err \<Rightarrow>
                if attempt < MaxRetries (mgr_config m) then downloadWithRetry held obs carrierID (attempt + 1) m1
                else Done ((Some \<lparr>prs_Success = False, prs_CarrierID = carrierID, prs_ExecutionStatus = '''',
                        prs_StatusMessage = ''Download failed after '' @ show_int (attempt + 1) @ '' attempts: '' @ err,
                        prs_ResponseTime = at_time a, prs_RetriedOn = []\<rparr>, Some (DownloadError err)), m1)
            | Inr reply \<Rightarrow>
                Done ((Some \<lparr>prs_Success = True, prs_CarrierID = carrierID, prs_ExecutionStatus = ExecutionStatus reply,
                   prs_StatusMessage = StatusMessage reply, prs_ResponseTime = at_time a, prs_RetriedOn = []\<rparr>, None), m1)))"
  by pat_completeness auto
termination
  by (relation "measure (\<lambda>(held, obs, k, attempt, m). nat (MaxRetries (mgr_config m) - attempt))") (auto dest!: update_frame)

declare downloadWithRetry.simps [simp del]

fun failover_loop ::
  "(string \<Rightarrow> int \<Rightarrow> attempt) \<Rightarrow> string \<Rightarrow> string list \<Rightarrow> string list \<Rightarrow> SMDPManager
   \<Rightarrow> ((ProfileResponse option \<times> string list) \<times> SMDPManager) run" where
  "failover_loop obs failedID [] retriedOn m = Done ((None, retriedOn), m)"
| "failover_loop obs failedID (k # ks) retriedOn m =
     (case mgr_carriers m k of
        None \<Rightarrow> failover_loop obs failedID ks retriedOn m
      | Some carrier \<Rightarrow>
          if k = failedID \<or> \<not> car_IsActive carrier \<or> car_HealthStatus carrier \<noteq> CarrierStatusHealthy
          then failover_loop obs failedID ks retriedOn m
          else run_bind (downloadWithRetry True (obs (car_ID carrier)) (car_ID carrier) 0 m) (\<lambda>((response, err), m1).
            if err = None \<and> (\<exists>r. response = Some r \<and> prs_Success r)
            then Done ((map_option (\<lambda>r. r\<lparr>prs_RetriedOn := retriedOn\<rparr>) response, retriedOn), m1)
            else failover_loop obs failedID ks (retriedOn @ [k]) m1))"

definition handleFailover ::
  "(string \<Rightarrow> int \<Rightarrow> attempt) \<Rightarrow> duration \<Rightarrow> string list \<Rightarrow> string \<Rightarrow> SMDPManager
   \<Rightarrow> ((ProfileResponse \<times> manager_error option) \<times> SMDPManager) run" where
  "handleFailover obs elapsed ks failedID m =
     run_bind (failover_loop obs failedID ks [] m) (\<lambda>((response, retriedOn), m1).
       case response of
         Some r \<Rightarrow> Done ((r\<lparr>prs_ResponseTime := elapsed\<rparr>, None), m1)
       | None \<Rightarrow> Done ((\<lparr>prs_Success = False, prs_CarrierID = '''', prs_ExecutionStatus = '''',
             prs_StatusMessage = ''All carriers failed during failover'', prs_ResponseTime = elapsed,
             prs_RetriedOn = retriedOn\<rparr>, Some FailoverExhausted), m1))"

text \<open>\<open>ks1\<close> and \<open>ks2\<close> are the orders in which the selection and the failover range over the carriers,
  \<open>elapsed\<close> the time since the start of the call.\<close>

definition mgr_DownloadProfile ::
  "((CarrierScore \<Rightarrow> CarrierScore \<Rightarrow> bool) \<Rightarrow> CarrierScore list \<Rightarrow> CarrierScore list) \<Rightarrow> (Carrier \<Rightarrow> time)
   \<Rightarrow> string list \<Rightarrow> string list \<Rightarrow> (string \<Rightarrow> int \<Rightarrow> attempt) \<Rightarrow> duration \<Rightarrow> SMDPManager
   \<Rightarrow> ((ProfileResponse \<times> manager_error option) \<times> SMDPManager) run" where
  "mgr_DownloadProfile srt now ks1 ks2 obs elapsed m =
     run_bind (of_go (mgr_SelectCarrier srt now ks1 m)) (\<lambda>(res, m1).
       case res of
         Inl e \<Rightarrow> Done ((\<lparr>prs_Success = False, prs_CarrierID = '''', prs_ExecutionStatus = '''',
             prs_StatusMessage = ''Carrier selection failed: '' @ selection_text e, prs_ResponseTime = elapsed, prs_RetriedOn = []\<rparr>,
             Some (SelectionFailed e)), m1)
       | Inr carrier \<Rightarrow>
           run_bind (downloadWithRetry False (obs (car_ID carrier)) (car_ID carrier) 0 m1) (\<lambda>((response, err), m2).
             if err \<noteq> None \<and> EnableFailover (mgr_config m2) then handleFailover obs elapsed ks2 (car_ID carrier) m2
             else run_bind (of_go (deref response)) (\<lambda>r. Done ((r\<lparr>prs_ResponseTime := elapsed\<rparr>, err), m2))))"

section \<open>Metrics\<close>

lemma update_metrics_ok:
  assumes "metrics_ok ms" "TotalRequests ms + 1 < 2 ^ 63"
  shows "\<exists>ms'. update_metrics a ms = Done ms' \<and> TotalRequests ms' = TotalRequests ms + 1
     \<and> SuccessfulRequests ms' = SuccessfulRequests ms + (if isl (at_result a) then 0 else 1)
     \<and> FailedRequests ms' = FailedRequests ms + (if isl (at_result a) then 1 else 0)"
proof -
  have m: "0 \<le> SuccessfulRequests ms" "0 \<le> FailedRequests ms"
    "SuccessfulRequests ms + FailedRequests ms = TotalRequests ms"
    using assms(1) by (auto simp: metrics_ok_def)
  then have "u64 (TotalRequests ms + 1) = TotalRequests ms + 1"
    "u64 (SuccessfulRequests ms + 1) = SuccessfulRequests ms + 1" "u64 (FailedRequests ms + 1) = FailedRequests ms + 1"
    "i64 (TotalRequests ms + 1) = TotalRequests ms + 1"
    using assms(2) by (auto intro!: u64_id i64_id)
  moreover have "TotalRequests ms + 1 \<noteq> 0" using m by simp
  moreover note [simp] = calculation
  show ?thesis
  proof (cases "at_result a")
    case (Inl e)
    then show ?thesis by (cases "TotalRequests ms = 0") (simp_all add: update_metrics_def Let_def)
  next
    case (Inr r)
    then show ?thesis by (cases "TotalRequests ms = 0") (simp_all add: update_metrics_def Let_def)
  qed
qed

text \<open>The running average of response times, as the code computes it.\<close>

fun averages :: "duration list \<Rightarrow> int \<Rightarrow> duration \<Rightarrow> duration" where
  "averages [] n avg = avg"
| "averages (t # ts) n avg =
     averages ts (n + 1) (if n = 0 then t else go_quot (avg * n + t) (n + 1))"

lemma average_step:
  assumes "0 \<le> lo" "lo \<le> t" "t \<le> hi" "0 < n" "lo \<le> avg" "avg \<le> hi"
  shows "lo \<le> go_quot (avg * n + t) (n + 1)" "go_quot (avg * n + t) (n + 1) \<le> hi"
proof -
  have "lo * n \<le> avg * n" "avg * n \<le> hi * n" using assms by (simp_all add: mult_right_mono)
  moreover have "lo * (n + 1) = lo * n + lo" "hi * (n + 1) = hi * n + hi" by (simp_all add: distrib_left)
  ultimately have s: "lo * (n + 1) \<le> avg * n + t" "avg * n + t \<le> hi * (n + 1)" using assms(2,3) by linarith+
  have nn: "0 \<le> avg * n + t" using assms by auto
  have q: "go_quot (avg * n + t) (n + 1) = (avg * n + t) div (n + 1)" using nn assms(4) by simp
  have "lo * (n + 1) div (n + 1) \<le> (avg * n + t) div (n + 1)"
    using s(1) assms(4) by (intro zdiv_mono1) auto
  moreover have "(avg * n + t) div (n + 1) \<le> hi * (n + 1) div (n + 1)"
    using s(2) assms(4) by (intro zdiv_mono1) auto
  ultimately show "lo \<le> go_quot (avg * n + t) (n + 1)" "go_quot (avg * n + t) (n + 1) \<le> hi"
    using assms(4) by (simp_all add: q)
qed

lemma update_average:
  assumes "metrics_ok ms" "update_metrics a ms = Done ms'"
    and "AverageResponseTime ms * TotalRequests ms + at_time a \<le> max_i64" "0 \<le> AverageResponseTime ms" "0 \<le> at_time a"
    and "TotalRequests ms + 1 < 2 ^ 63"
  shows "AverageResponseTime ms' = (if TotalRequests ms = 0 then at_time a
      else go_quot (AverageResponseTime ms * TotalRequests ms + at_time a) (TotalRequests ms + 1))"
proof -
  have m: "0 \<le> TotalRequests ms" using assms(1) by (auto simp: metrics_ok_def)
  have u: "u64 (TotalRequests ms + 1) = TotalRequests ms + 1" "u64 (TotalRequests ms) = TotalRequests ms"
    "i64 (TotalRequests ms + 1) = TotalRequests ms + 1" "i64 (TotalRequests ms) = TotalRequests ms"
    using m assms(6) by (auto intro!: u64_id i64_id)
  have p: "0 \<le> AverageResponseTime ms * TotalRequests ms" using m assms(4) by simp
  then have i: "i64 (AverageResponseTime ms * TotalRequests ms) = AverageResponseTime ms * TotalRequests ms"
    "i64 (AverageResponseTime ms * TotalRequests ms + at_time a) = AverageResponseTime ms * TotalRequests ms + at_time a"
    using assms(3,5) by (auto intro!: i64_id)
  let ?s = "AverageResponseTime ms * TotalRequests ms + at_time a"
  have "?s div (TotalRequests ms + 1) \<le> ?s" using m p assms(5) zdiv_mono2[of ?s 1 "TotalRequests ms + 1"] by simp
  moreover have "0 \<le> ?s div (TotalRequests ms + 1)" using m p assms(5) by (subst pos_imp_zdiv_nonneg_iff) auto
  ultimately have "min_i64 \<le> ?s div (TotalRequests ms + 1)" "?s div (TotalRequests ms + 1) \<le> max_i64"
    using assms(3) by linarith+
  then have "i64 (go_quot ?s (TotalRequests ms + 1)) = go_quot ?s (TotalRequests ms + 1)"
    using m p assms(5) by (simp add: i64_id)
  with assms(2) m show ?thesis
    by (auto simp: update_metrics_def Let_def u i run_bind_Done split: sum.splits if_splits)
qed

section \<open>Retries\<close>

lemma downloadWithRetry_ok:
  assumes "mgr_es2Clients m k = Some cl" "mgr_carriers m k = Some c" "car_Metrics c = Some ms" "metrics_ok ms"
    and "TotalRequests ms + int n + 1 < 2 ^ 63" "i + int n \<le> MaxRetries (mgr_config m)"
    and "\<forall>j < n. isl (at_result (obs (i + int j)))" "at_result (obs (i + int n)) = Inr reply"
  shows "\<exists>m' c' ms'. downloadWithRetry False obs k i m =
      Done ((Some \<lparr>prs_Success = True, prs_CarrierID = k, prs_ExecutionStatus = ExecutionStatus reply,
        prs_StatusMessage = StatusMessage reply, prs_ResponseTime = at_time (obs (i + int n)), prs_RetriedOn = []\<rparr>, None), m')
    \<and> mgr_carriers m' = (mgr_carriers m)(k \<mapsto> c') \<and> car_Metrics c' = Some ms'
    \<and> SuccessfulRequests ms' = SuccessfulRequests ms + 1 \<and> FailedRequests ms' = FailedRequests ms + int n
    \<and> TotalRequests ms' = TotalRequests ms + int n + 1"
  using assms
proof (induction n arbitrary: i m c ms)
  case 0
  have "TotalRequests ms + 1 < 2 ^ 63" using "0.prems"(5) by simp
  from update_metrics_ok[OF "0.prems"(4) this, of "obs i"] "0.prems" obtain ms' where
    "update_metrics (obs i) ms = Done ms'" "SuccessfulRequests ms' = SuccessfulRequests ms + 1"
    "FailedRequests ms' = FailedRequests ms" "TotalRequests ms' = TotalRequests ms + 1" by auto
  with "0.prems" show ?case
    by (subst downloadWithRetry.simps) (auto simp: updateCarrierMetrics_def)
next
  case (Suc n)
  have t: "TotalRequests ms + 1 < 2 ^ 63" using Suc.prems(5) by simp
  obtain e where e: "at_result (obs i) = Inl e" using Suc.prems(7)[rule_format, of 0] by (cases "at_result (obs i)") auto
  from update_metrics_ok[OF Suc.prems(4) t, of "obs i"] e obtain ms1 where
    ms1: "update_metrics (obs i) ms = Done ms1" "SuccessfulRequests ms1 = SuccessfulRequests ms"
    "FailedRequests ms1 = FailedRequests ms + 1" "TotalRequests ms1 = TotalRequests ms + 1" by auto
  let ?c1 = "c\<lparr>car_Metrics := Some ms1\<rparr>"
  let ?m1 = "m\<lparr>mgr_carriers := (mgr_carriers m)(k \<mapsto> ?c1)\<rparr>"
  have u: "updateCarrierMetrics False k (obs i) m = Done ?m1"
    using Suc.prems ms1 by (simp add: updateCarrierMetrics_def)
  have i: "i < MaxRetries (mgr_config m)" using Suc.prems(6) by simp
  have step: "downloadWithRetry False obs k i m = downloadWithRetry False obs k (i + 1) ?m1"
    using Suc.prems(1) u e i by (subst downloadWithRetry.simps) simp
  have "metrics_ok ms1" using Suc.prems(4,5) ms1 by (auto simp: metrics_ok_def)
  moreover have "\<forall>j < n. isl (at_result (obs (i + 1 + int j)))"
  proof (intro allI impI)
    fix j assume "j < n"
    then show "isl (at_result (obs (i + 1 + int j)))" using Suc.prems(7)[rule_format, of "Suc j"] by (simp add: add.assoc)
  qed
  moreover have "at_result (obs (i + 1 + int n)) = Inr reply" using Suc.prems(8) by (simp add: add.assoc)
  ultimately have "\<exists>m' c' ms'. downloadWithRetry False obs k (i + 1) ?m1 =
      Done ((Some \<lparr>prs_Success = True, prs_CarrierID = k, prs_ExecutionStatus = ExecutionStatus reply,
        prs_StatusMessage = StatusMessage reply, prs_ResponseTime = at_time (obs (i + 1 + int n)), prs_RetriedOn = []\<rparr>, None), m')
    \<and> mgr_carriers m' = (mgr_carriers ?m1)(k \<mapsto> c') \<and> car_Metrics c' = Some ms'
    \<and> SuccessfulRequests ms' = SuccessfulRequests ms1 + 1 \<and> FailedRequests ms' = FailedRequests ms1 + int n
    \<and> TotalRequests ms' = TotalRequests ms1 + int n + 1"
    using Suc.prems ms1 by (intro Suc.IH[of ?m1 ?c1]) auto
  then show ?case unfolding step using ms1 by (fastforce simp: add.assoc)
qed

section \<open>Failover\<close>

lemma download_held:
  "downloadWithRetry True obs k i m =
    (if mgr_es2Clients m k = None then Done ((None, Some (ClientNotFound k)), m) else Blocked)"
  by (subst downloadWithRetry.simps) (auto simp: updateCarrierMetrics_def split: option.splits)

definition failover_target :: "string \<Rightarrow> SMDPManager \<Rightarrow> string \<Rightarrow> bool" where
  "failover_target failedID m k \<longleftrightarrow> (\<exists>c. mgr_carriers m k = Some c \<and> k \<noteq> failedID \<and> eligible c
     \<and> mgr_es2Clients m (car_ID c) \<noteq> None)"

lemma failover_loop_blocks:
  "failover_loop obs failedID ks tried m = (if \<exists>k \<in> set ks. failover_target failedID m k then Blocked
     else Done ((None, tried @ filter (\<lambda>k. \<exists>c. mgr_carriers m k = Some c \<and> k \<noteq> failedID \<and> eligible c) ks), m))"
  by (induction ks arbitrary: tried)
    (auto simp: download_held failover_target_def eligible_def split: option.splits)

lemma update_others:
  "updateCarrierMetrics held k a m = Done m' \<Longrightarrow> k' \<noteq> k \<Longrightarrow> mgr_carriers m' k' = mgr_carriers m k'"
  by (auto simp: updateCarrierMetrics_def run_bind_Done split: if_splits option.splits)

lemma update_not_blocked: "updateCarrierMetrics False k a m \<noteq> Blocked"
proof -
  have "update_metrics a ms \<noteq> Blocked" for ms by (simp add: update_metrics_def Let_def)
  then have "run_bind (update_metrics a ms) (\<lambda>x. Done (f x)) \<noteq> Blocked" for ms and f :: "CarrierMetrics \<Rightarrow> SMDPManager"
    by (cases "update_metrics a ms") auto
  then show ?thesis
    by (cases "mgr_carriers m k"; cases "car_Metrics (the (mgr_carriers m k))") (simp_all add: updateCarrierMetrics_def)
qed

text \<open>A download that keeps failing returns an error, with the same carriers and clients.\<close>

lemma downloadWithRetry_fails:
  assumes "\<forall>j. isl (at_result (obs j))" "mgr_es2Clients m k \<noteq> None"
  shows "(\<exists>r e m'. downloadWithRetry False obs k i m = Done ((Some r, Some e), m') \<and> mgr_es2Clients m' = mgr_es2Clients m
      \<and> mgr_config m' = mgr_config m \<and> (\<forall>k'. k' \<noteq> k \<longrightarrow> mgr_carriers m' k' = mgr_carriers m k'))
    \<or> downloadWithRetry False obs k i m = Panicked"
  using assms
proof (induction False obs k i m rule: downloadWithRetry.induct)
  case (1 obs k i m)
  obtain cl where cl: "mgr_es2Clients m k = Some cl" using "1.prems"(2) by auto
  obtain e where e: "at_result (obs i) = Inl e" using "1.prems"(1) by (meson isl_def)
  show ?case
  proof (cases "updateCarrierMetrics False k (obs i) m")
    case (Done m1)
    have f: "mgr_es2Clients m1 = mgr_es2Clients m" "mgr_config m1 = mgr_config m"
      "\<forall>k'. k' \<noteq> k \<longrightarrow> mgr_carriers m1 k' = mgr_carriers m k'"
      using update_frame[OF Done] update_others[OF Done] by auto
    show ?thesis
    proof (cases "i < MaxRetries (mgr_config m)")
      case True
      have "downloadWithRetry False obs k i m = downloadWithRetry False obs k (i + 1) m1"
        using cl e Done True by (subst downloadWithRetry.simps) simp
      with "1.hyps"[OF cl refl Done e True "1.prems"(1)] f "1.prems"(2) show ?thesis by auto
    next
      case False
      then show ?thesis using cl e Done f by (subst (1 2) downloadWithRetry.simps) simp
    qed
  next
    case Panicked
    then show ?thesis using cl by (subst (2) downloadWithRetry.simps) simp
  next
    case Blocked
    then show ?thesis using update_not_blocked by simp
  qed
qed

section \<open>Runs\<close>

fun record_all :: "attempt list \<Rightarrow> CarrierMetrics \<Rightarrow> CarrierMetrics run" where
  "record_all [] ms = Done ms"
| "record_all (a # as) ms = run_bind (update_metrics a ms) (record_all as)"

lemma record_all_bounds:
  assumes "metrics_ok ms" "0 \<le> lo" "\<forall>a \<in> set as. lo \<le> at_time a \<and> at_time a \<le> hi"
    and "0 < TotalRequests ms \<longrightarrow> lo \<le> AverageResponseTime ms \<and> AverageResponseTime ms \<le> hi" "0 \<le> AverageResponseTime ms"
    and "hi * (TotalRequests ms + int (length as)) \<le> max_i64" "TotalRequests ms + int (length as) < 2 ^ 63"
    and "TotalRequests ms = 0 \<longrightarrow> AverageResponseTime ms = 0"
  shows "\<exists>ms'. record_all as ms = Done ms' \<and> metrics_ok ms' \<and> TotalRequests ms' = TotalRequests ms + int (length as)
    \<and> FailedRequests ms' = FailedRequests ms + int (length (filter (\<lambda>a. isl (at_result a)) as))
    \<and> (0 < TotalRequests ms' \<longrightarrow> lo \<le> AverageResponseTime ms' \<and> AverageResponseTime ms' \<le> hi)"
  using assms
proof (induction as arbitrary: ms)
  case Nil
  then show ?case by simp
next
  case (Cons a as)
  have m: "0 \<le> TotalRequests ms" using Cons.prems(1) by (auto simp: metrics_ok_def)
  have ta: "lo \<le> at_time a" "at_time a \<le> hi" using Cons.prems(3) by auto
  have t: "TotalRequests ms + 1 < 2 ^ 63" using Cons.prems(7) by simp
  obtain ms1 where ms1: "update_metrics a ms = Done ms1" "TotalRequests ms1 = TotalRequests ms + 1"
    "SuccessfulRequests ms1 = SuccessfulRequests ms + (if isl (at_result a) then 0 else 1)"
    "FailedRequests ms1 = FailedRequests ms + (if isl (at_result a) then 1 else 0)"
    using update_metrics_ok[OF Cons.prems(1) t, of a] by auto
  have hi: "0 \<le> hi" using ta Cons.prems(2) by simp
  have "AverageResponseTime ms * TotalRequests ms \<le> hi * TotalRequests ms"
    using Cons.prems(4,8) m hi by (cases "TotalRequests ms = 0") (auto intro: mult_right_mono)
  then have "AverageResponseTime ms * TotalRequests ms + at_time a \<le> hi * (TotalRequests ms + 1)"
    using ta by (simp add: distrib_left)
  also have "\<dots> \<le> hi * (TotalRequests ms + int (length (a # as)))" using hi by (intro mult_left_mono) auto
  finally have sum: "AverageResponseTime ms * TotalRequests ms + at_time a \<le> max_i64" using Cons.prems(6) by simp
  have at: "0 \<le> at_time a" using ta Cons.prems(2) by simp
  note avg = update_average[OF Cons.prems(1) ms1(1) sum Cons.prems(5) at t]
  have range: "lo \<le> AverageResponseTime ms1" "AverageResponseTime ms1 \<le> hi"
    using avg ta m Cons.prems(4) average_step[OF Cons.prems(2) ta, of "TotalRequests ms" "AverageResponseTime ms"]
    by (cases "TotalRequests ms = 0"; force)+
  have ok: "metrics_ok ms1" using Cons.prems(1) ms1 t by (auto simp: metrics_ok_def)
  have "\<exists>ms'. record_all as ms1 = Done ms' \<and> metrics_ok ms' \<and> TotalRequests ms' = TotalRequests ms1 + int (length as)
    \<and> FailedRequests ms' = FailedRequests ms1 + int (length (filter (\<lambda>a. isl (at_result a)) as))
    \<and> (0 < TotalRequests ms' \<longrightarrow> lo \<le> AverageResponseTime ms' \<and> AverageResponseTime ms' \<le> hi)"
    using Cons.prems ms1(2) range ok m by (intro Cons.IH) (auto simp: algebra_simps)
  then show ?case using ms1 by auto
qed

text \<open>The manager as a state machine: what its public operations can do to it.\<close>

inductive mgr_step :: "SMDPManager \<Rightarrow> SMDPManager \<Rightarrow> bool" where
  Add: "mgr_step m (snd (AddCarrier c m))"
| Remove: "mgr_step m (snd (RemoveCarrier k m))"
| Health: "mgr_step m (updateCarrierHealth now k status m)"
| Select: "mgr_SelectOptimalCarrier srt now ks criteria m = Returns (res, m') \<Longrightarrow> mgr_step m m'"
| Learn: "mgr_step m (mgr_UpdateLearning k actual now1 now2 now3 m)"
| Download: "mgr_DownloadProfile srt now ks1 ks2 obs elapsed m = Done (res, m') \<Longrightarrow> mgr_step m m'"

inductive mgr_reachable :: "ManagerConfig \<Rightarrow> SMDPManager \<Rightarrow> bool" for config where
  New: "mgr_reachable config (NewSMDPManager config)"
| Step: "mgr_reachable config m \<Longrightarrow> mgr_step m m' \<Longrightarrow> mgr_reachable config m'"

text \<open>Every stored carrier is valid, filed under its identifier and has a client.\<close>

definition registry_ok :: "SMDPManager \<Rightarrow> bool" where
  "registry_ok m \<longleftrightarrow> dom (mgr_carriers m) = dom (mgr_es2Clients m)
     \<and> (\<forall>k c. mgr_carriers m k = Some c \<longrightarrow> car_ID c = k \<and> validateCarrier c = None)"

lemma validate_update [simp]:
  "validateCarrier (c\<lparr>car_Metrics := x\<rparr>) = validateCarrier c"
  "validateCarrier (c\<lparr>car_HealthStatus := y, car_LastHealthCheck := z\<rparr>) = validateCarrier c"
  by (simp_all add: validateCarrier_def)

lemma registry_replace:
  "registry_ok m \<Longrightarrow> mgr_carriers m k = Some c \<Longrightarrow> car_ID c' = car_ID c \<Longrightarrow> validateCarrier c' = validateCarrier c
   \<Longrightarrow> registry_ok (m\<lparr>mgr_carriers := (mgr_carriers m)(k \<mapsto> c')\<rparr>)"
  unfolding registry_ok_def
  by (intro conjI allI impI) (auto split: if_splits)

lemma registry_metrics:
  assumes "registry_ok m" "updateCarrierMetrics held k a m = Done m'"
  shows "registry_ok m'"
proof (cases "mgr_carriers m k")
  case None
  with assms show ?thesis by (simp add: updateCarrierMetrics_def split: if_splits)
next
  case (Some c)
  with assms(2) obtain ms where "m' = m\<lparr>mgr_carriers := (mgr_carriers m)(k \<mapsto> c\<lparr>car_Metrics := Some ms\<rparr>)\<rparr>"
    by (auto simp: updateCarrierMetrics_def run_bind_Done split: if_splits)
  with registry_replace[OF assms(1) Some, of "c\<lparr>car_Metrics := Some ms\<rparr>"] show ?thesis by simp
qed

lemma registry_selector: "registry_ok (m\<lparr>mgr_selector := s\<rparr>) = registry_ok m"
  by (simp add: registry_ok_def)

lemma registry_download:
  "registry_ok m \<Longrightarrow> downloadWithRetry held obs k i m = Done (res, m') \<Longrightarrow> registry_ok m'"
proof (induction held obs k i m arbitrary: res m' rule: downloadWithRetry.induct)
  case (1 held obs k i m)
  show ?case
  proof (cases "mgr_es2Clients m k")
    case None
    with "1.prems" show ?thesis by (simp add: downloadWithRetry.simps[of held obs k i m])
  next
    case (Some cl)
    then obtain m1 where m1: "updateCarrierMetrics held k (obs i) m = Done m1"
      using "1.prems"(2) by (auto simp: downloadWithRetry.simps[of held obs k i m] run_bind_Done Let_def)
    have ok: "registry_ok m1" using registry_metrics[OF "1.prems"(1) m1] .
    show ?thesis
    proof (cases "\<exists>e. at_result (obs i) = Inl e \<and> i < MaxRetries (mgr_config m)")
      case True
      then obtain e where e: "at_result (obs i) = Inl e" "i < MaxRetries (mgr_config m)" by blast
      have "downloadWithRetry held obs k (i + 1) m1 = Done (res, m')"
        using "1.prems"(2) Some m1 e by (simp add: downloadWithRetry.simps[of held obs k i m] Let_def)
      from "1.IH"[OF Some refl m1 e ok this] show ?thesis .
    next
      case False
      then have "m' = m1" using "1.prems"(2) Some m1
        by (auto simp: downloadWithRetry.simps[of held obs k i m] Let_def split: sum.splits if_splits)
      with ok show ?thesis by simp
    qed
  qed
qed

lemma registry_select:
  "mgr_SelectOptimalCarrier srt now ks criteria m = Returns (res, m') \<Longrightarrow> m' = m\<lparr>mgr_selector := mgr_selector m'\<rparr>"
  by (auto simp: mgr_SelectOptimalCarrier_def)

lemma registry_failover:
  "registry_ok m \<Longrightarrow> handleFailover obs elapsed ks failedID m = Done (res, m') \<Longrightarrow> registry_ok m'"
  by (auto simp: handleFailover_def failover_loop_blocks split: if_splits)

lemma of_go_Done [simp]: "of_go g = Done x \<longleftrightarrow> g = Returns x"
  by (cases g) auto

lemma registry_profile:
  assumes "registry_ok m" "mgr_DownloadProfile srt now ks1 ks2 obs elapsed m = Done (res, m')"
  shows "registry_ok m'"
proof -
  obtain r m1 where s: "mgr_SelectCarrier srt now ks1 m = Returns (r, m1)"
    using assms(2) by (auto simp: mgr_DownloadProfile_def run_bind_Done)
  have "\<exists>r'. mgr_SelectOptimalCarrier srt now ks1 default_criteria m = Returns (r', m1)"
    using s by (auto simp: mgr_SelectCarrier_def split: sum.splits) (metis sum.exhaust)+
  then have "m1 = m\<lparr>mgr_selector := mgr_selector m1\<rparr>" using registry_select by blast
  then have m1: "registry_ok m1" using assms(1) registry_selector by metis
  show ?thesis
  proof (cases r)
    case (Inl e)
    with assms(2) s m1 show ?thesis by (auto simp: mgr_DownloadProfile_def)
  next
    case (Inr c)
    obtain resp err m2 where d: "downloadWithRetry False (obs (car_ID c)) (car_ID c) 0 m1 = Done ((resp, err), m2)"
      using assms(2) s Inr by (auto simp: mgr_DownloadProfile_def run_bind_Done)
    have m2: "registry_ok m2" using registry_download[OF m1 d] .
    show ?thesis
    proof (cases "err \<noteq> None \<and> EnableFailover (mgr_config m2)")
      case True
      then have "handleFailover obs elapsed ks2 (car_ID c) m2 = Done (res, m')"
        using assms(2) s Inr d by (simp add: mgr_DownloadProfile_def)
      with m2 show ?thesis by (rule registry_failover)
    next
      case False
      with assms(2) s Inr d have "m' = m2" by (auto simp: mgr_DownloadProfile_def run_bind_Done)
      with m2 show ?thesis by simp
    qed
  qed
qed

lemma registry_step: "mgr_step m m' \<Longrightarrow> registry_ok m \<Longrightarrow> registry_ok m'"
proof (induction rule: mgr_step.induct)
  case (Add m c)
  then show ?case by (auto simp: registry_ok_def AddCarrier_def Let_def split: option.splits)
next
  case (Remove m k)
  then show ?case by (auto simp: registry_ok_def RemoveCarrier_def split: option.splits if_splits)
next
  case (Health m now k status)
  then show ?case by (auto simp: updateCarrierHealth_def intro!: registry_replace split: option.splits)
next
  case (Select srt now ks criteria m res m')
  from registry_select[OF Select.hyps] Select.prems show ?case using registry_selector by metis
next
  case (Learn m k actual now1 now2 now3)
  then show ?case by (simp add: mgr_UpdateLearning_def registry_selector)
next
  case (Download srt now ks1 ks2 obs elapsed m res m')
  from registry_profile[OF Download.prems Download.hyps] show ?case .
qed

section \<open>Properties\<close>

definition demo_smdp :: "string \<Rightarrow> Carrier" where
  "demo_smdp i = (demo i 10)\<lparr>car_ES2Config := Some demo_config\<rparr>"

lemma demo_manager:
  defines "m \<equiv> snd (AddCarrier (demo_smdp ''a'') (NewSMDPManager DefaultManagerConfig))"
  shows "mgr_es2Clients m = [''a'' \<mapsto> NewES2Client demo_config]" "mgr_carriers m = [''a'' \<mapsto> demo_smdp ''a'']"
    "mgr_config m = DefaultManagerConfig"
proof -
  have d: "car_ID (demo_smdp ''a'') = ''a''" "car_Name (demo_smdp ''a'') = ''a''" "car_MCC (demo_smdp ''a'') = ''639''"
    "car_MNC (demo_smdp ''a'') = ''02''" "car_ES2Config (demo_smdp ''a'') = Some demo_config"
    by (simp_all add: demo_smdp_def demo_def)
  have "validateCarrier (demo_smdp ''a'') = None" by (simp add: validateCarrier_def d) (simp add: demo_config_def)
  then show "mgr_es2Clients m = [''a'' \<mapsto> NewES2Client demo_config]" "mgr_carriers m = [''a'' \<mapsto> demo_smdp ''a'']"
    "mgr_config m = DefaultManagerConfig"
    unfolding m_def by (simp_all add: AddCarrier_def d NewSMDPManager_def Let_def)
qed

text \<open>In every reachable state of the manager the carriers are filed under their own
  identifiers, are valid (identity and ES2+ endpoint present), and exactly they have clients, so
  that no download can miss its client.\<close>

theorem manager_registry_consistent:
  assumes "mgr_reachable config m"
  shows "dom (mgr_carriers m) = dom (mgr_es2Clients m)
    \<and> (\<forall>k c. mgr_carriers m k = Some c \<longrightarrow> car_ID c = k \<and> validateCarrier c = None)"
proof -
  have "registry_ok m" using assms
  proof induction
    case New
    show ?case by (simp add: registry_ok_def NewSMDPManager_def)
  next
    case (Step m m')
    then show ?case using registry_step by blast
  qed
  then show ?thesis by (simp add: registry_ok_def)
qed

theorem manager_registry_consistent_witness:
  "dom (mgr_es2Clients (snd (AddCarrier (demo_smdp ''a'') (NewSMDPManager DefaultManagerConfig)))) = {''a''}"
proof -
  let ?m = "snd (AddCarrier (demo_smdp ''a'') (NewSMDPManager DefaultManagerConfig))"
  have "mgr_reachable DefaultManagerConfig ?m" by (rule mgr_reachable.Step[OF mgr_reachable.New mgr_step.Add])
  note manager_registry_consistent[OF this, THEN conjunct1, symmetric]
  also have "dom (mgr_carriers ?m) = {''a''}" unfolding demo_manager by simp
  finally show ?thesis .
qed

text \<open>C9. Retries: a download whose first \<open>n\<close> attempts fail and whose next one succeeds within the
  configured number of retries returns that success, and the carrier's metrics have counted
  exactly \<open>n\<close> failures and one success.\<close>

theorem download_retries_until_success:
  assumes "mgr_es2Clients m k = Some cl" and "mgr_carriers m k = Some c" and "car_Metrics c = Some ms" and "metrics_ok ms"
    and "TotalRequests ms + int n + 1 < 2 ^ 63" and "int n \<le> MaxRetries (mgr_config m)"
    and "\<forall>j < n. isl (at_result (obs (int j)))" and "at_result (obs (int n)) = Inr reply"
  shows "\<exists>m' c' ms'. downloadWithRetry False obs k 0 m =
      Done ((Some \<lparr>prs_Success = True, prs_CarrierID = k, prs_ExecutionStatus = ExecutionStatus reply,
        prs_StatusMessage = StatusMessage reply, prs_ResponseTime = at_time (obs (int n)), prs_RetriedOn = []\<rparr>, None), m')
    \<and> mgr_carriers m' = (mgr_carriers m)(k \<mapsto> c') \<and> car_Metrics c' = Some ms'
    \<and> SuccessfulRequests ms' = SuccessfulRequests ms + 1 \<and> FailedRequests ms' = FailedRequests ms + int n
    \<and> TotalRequests ms' = TotalRequests ms + int n + 1"
  using downloadWithRetry_ok[OF assms(1-5), of 0 obs reply] assms(6-8) by simp

definition demo_attempt :: "string + ProfileReply \<Rightarrow> attempt" where
  "demo_attempt r = \<lparr>at_result = r, at_time = 5, at_now = 9, at_rate1 = 10, at_rate2 = 11\<rparr>"

definition demo_reply :: ProfileReply where
  "demo_reply = \<lparr>ExecutionStatus = ''Executed-Success'', StatusMessage = ''''\<rparr>"

definition third_time :: "int \<Rightarrow> attempt" where
  "third_time j = demo_attempt (if j = 2 then Inr demo_reply else Inl ''timeout'')"

theorem download_retries_until_success_witness:
  "\<exists>r m'. downloadWithRetry False third_time ''a'' 0
      (snd (AddCarrier (demo_smdp ''a'') (NewSMDPManager DefaultManagerConfig))) = Done ((Some r, None), m') \<and> prs_Success r"
proof -
  let ?m = "snd (AddCarrier (demo_smdp ''a'') (NewSMDPManager DefaultManagerConfig))"
  have m: "mgr_es2Clients ?m ''a'' = Some (NewES2Client demo_config)" "mgr_carriers ?m ''a'' = Some (demo_smdp ''a'')"
    "MaxRetries (mgr_config ?m) = 3"
    by (simp_all add: demo_manager) (simp add: DefaultManagerConfig_def)
  have c: "car_Metrics (demo_smdp ''a'') = Some new_metrics" "metrics_ok new_metrics" "TotalRequests new_metrics + int 2 + 1 < 2 ^ 63"
    by (simp_all add: demo_smdp_def demo_def new_metrics_def metrics_ok_def)
  have o: "\<forall>j < 2. isl (at_result (third_time (int j)))" "at_result (third_time (int 2)) = Inr demo_reply"
    by (auto simp: third_time_def demo_attempt_def)
  have n: "int 2 \<le> MaxRetries (mgr_config ?m)" using m(3) by simp
  show ?thesis using download_retries_until_success[OF m(1,2) c n o]
    by (elim exE conjE) (intro exI conjI, assumption, simp)
qed

definition two_carriers :: SMDPManager where
  "two_carriers = \<lparr>mgr_carriers = [''a'' \<mapsto> demo_smdp ''a'', ''b'' \<mapsto> demo_smdp ''b''],
     mgr_es2Clients = [''a'' \<mapsto> NewES2Client demo_config, ''b'' \<mapsto> NewES2Client demo_config],
     mgr_selector = NewSelectionAlgorithm, mgr_config = DefaultManagerConfig\<rparr>"

lemma demo_smdp_facts: "eligible (demo_smdp i)" "carrier_ok (demo_smdp i)" "car_ID (demo_smdp i) = i"
  using demo_ok(1)[of i 10] demo_ok(2)[of 10 i]
  by (simp_all add: demo_smdp_def demo_def eligible_def carrier_ok_def)

lemma two_carriers_select:
  "\<exists>k sel. k \<in> {''a'', ''b''} \<and> mgr_SelectCarrier insertionSort (\<lambda>_. 0) [''a'', ''b''] two_carriers
     = Returns (Inr (demo_smdp k), two_carriers\<lparr>mgr_selector := sel\<rparr>)"
proof -
  have inv: "learning_inv (sa_mlModel NewSelectionAlgorithm)" by (simp add: NewSelectionAlgorithm_def learning_inv_New)
  have crit: "criteria_ok default_criteria" by (simp add: criteria_ok_def default_criteria_def share_lit)
  obtain s1 where s1: "scoreCarrier 0 default_criteria NewSelectionAlgorithm (demo_smdp ''a'') = Returns s1" "cs_Carrier s1 = demo_smdp ''a''"
    using score_total[OF inv crit demo_smdp_facts(2)] by blast
  obtain s2 where s2: "scoreCarrier 0 default_criteria NewSelectionAlgorithm (demo_smdp ''b'') = Returns s2" "cs_Carrier s2 = demo_smdp ''b''"
    using score_total[OF inv crit demo_smdp_facts(2)] by blast
  let ?best = "hd (insertionSort better [s1, s2])"
  have "insertionSort better [s1, s2] \<noteq> []" by (simp only: insertion.nonempty) simp
  then have "?best \<in> set (insertionSort better [s1, s2])" by (rule hd_in_set)
  then have best: "?best \<in> {s1, s2}" unfolding insertion.elements by simp
  have h: "healthyCarriers [''a'', ''b''] two_carriers = [demo_smdp ''a'', demo_smdp ''b'']"
    by (simp add: healthyCarriers_def two_carriers_def demo_smdp_facts)
  have sel: "mgr_selector two_carriers = NewSelectionAlgorithm" by (simp add: two_carriers_def)
  have "SelectOptimalCarrier insertionSort (\<lambda>_. 0) [demo_smdp ''a'', demo_smdp ''b''] default_criteria NewSelectionAlgorithm
      = Returns (Inr ?best, recordSelection ?best NewSelectionAlgorithm)"
    by (simp add: SelectOptimalCarrier_def demo_smdp_facts s1 s2 Let_def)
  then have "mgr_SelectCarrier insertionSort (\<lambda>_. 0) [''a'', ''b''] two_carriers
      = Returns (Inr (cs_Carrier ?best), two_carriers\<lparr>mgr_selector := recordSelection ?best NewSelectionAlgorithm\<rparr>)"
    by (simp add: mgr_SelectCarrier_def mgr_SelectOptimalCarrier_def h sel)
  with best s1(2) s2(2) show ?thesis by auto
qed

text \<open>C11. Failover never works: it calls the retry loop while it holds \<open>carriersMutex\<close> for reading,
  and that loop waits for the same mutex to record its metrics. Whenever the selected carrier
  keeps failing and another active, healthy carrier with a client is there to fail over to, the
  download blocks for ever.\<close>

theorem failover_deadlocks:
  assumes "mgr_SelectCarrier srt now ks1 m = Returns (Inr c, m1)" and "EnableFailover (mgr_config m1)"
    and "mgr_es2Clients m1 (car_ID c) \<noteq> None" and "\<forall>j. isl (at_result (obs (car_ID c) j))"
    and "k \<in> set ks2" and "k \<noteq> car_ID c" and "mgr_carriers m1 k = Some c2" and "eligible c2"
    and "mgr_es2Clients m1 (car_ID c2) \<noteq> None"
  shows "mgr_DownloadProfile srt now ks1 ks2 obs elapsed m \<in> {Blocked, Panicked}
    \<and> (downloadWithRetry False (obs (car_ID c)) (car_ID c) 0 m1 \<noteq> Panicked
        \<longrightarrow> mgr_DownloadProfile srt now ks1 ks2 obs elapsed m = Blocked)"
proof -
  from downloadWithRetry_fails[OF assms(4,3), of 0] consider
    (ret) r e m2 where "downloadWithRetry False (obs (car_ID c)) (car_ID c) 0 m1 = Done ((Some r, Some e), m2)"
      "mgr_es2Clients m2 = mgr_es2Clients m1" "mgr_config m2 = mgr_config m1" "mgr_carriers m2 k = mgr_carriers m1 k"
    | (panic) "downloadWithRetry False (obs (car_ID c)) (car_ID c) 0 m1 = Panicked" using assms(6) by blast
  then show ?thesis
  proof cases
    case ret
    then have "failover_target (car_ID c) m2 k" using assms(6-9) by (auto simp: failover_target_def)
    then have "handleFailover obs elapsed ks2 (car_ID c) m2 = Blocked"
      using assms(5) by (auto simp: handleFailover_def failover_loop_blocks)
    with ret assms(1,2) show ?thesis by (simp add: mgr_DownloadProfile_def)
  next
    case panic
    with assms(1) show ?thesis by (simp add: mgr_DownloadProfile_def)
  qed
qed

theorem failover_deadlocks_witness:
  "mgr_DownloadProfile insertionSort (\<lambda>_. 0) [''a'', ''b''] [''a'', ''b''] (\<lambda>k j. demo_attempt (Inl ''timeout'')) 30 two_carriers
   \<in> {Blocked, Panicked}"
proof -
  obtain k sel where k: "k \<in> {''a'', ''b''}" and s: "mgr_SelectCarrier insertionSort (\<lambda>_. 0) [''a'', ''b''] two_carriers
     = Returns (Inr (demo_smdp k), two_carriers\<lparr>mgr_selector := sel\<rparr>)" using two_carriers_select by blast
  let ?m1 = "two_carriers\<lparr>mgr_selector := sel\<rparr>"
  obtain k2 where k2: "k2 \<in> {''a'', ''b''}" "k2 \<noteq> k"
    by (cases "k = ''a''") (use k in auto)
  have m: "EnableFailover (mgr_config ?m1)" "mgr_es2Clients ?m1 (car_ID (demo_smdp k)) \<noteq> None"
    "mgr_carriers ?m1 k2 = Some (demo_smdp k2)" "mgr_es2Clients ?m1 (car_ID (demo_smdp k2)) \<noteq> None"
    using k k2 by (auto simp: two_carriers_def DefaultManagerConfig_def demo_smdp_facts)
  have o: "\<forall>j :: int. isl (at_result ((\<lambda>k j. demo_attempt (Inl ''timeout'')) (car_ID (demo_smdp k)) j))"
    by (simp add: demo_attempt_def)
  have n: "k2 \<noteq> car_ID (demo_smdp k)" using k2 by (simp add: demo_smdp_facts)
  show ?thesis
    using failover_deadlocks[OF s m(1,2), where obs = "\<lambda>k j. demo_attempt (Inl ''timeout'')" and k = k2 and ?ks2.0 = "[''a'', ''b'']"
        and ?c2.0 = "demo_smdp k2" and elapsed = 30] o n k2 m(3,4) demo_smdp_facts(1)
    by simp
qed

text \<open>The metrics are exact over any sequence of attempts: totals and failures are counted, and
  the running average of response times, truncating at every step, stays between the smallest
  and the largest time observed.\<close>

theorem metrics_exact:
  assumes "0 \<le> lo" and "\<forall>a \<in> set as. lo \<le> at_time a \<and> at_time a \<le> hi"
    and "hi * int (length as) \<le> max_i64" and "int (length as) < 2 ^ 63" and "as \<noteq> []"
  shows "\<exists>ms. record_all as new_metrics = Done ms \<and> TotalRequests ms = int (length as)
    \<and> FailedRequests ms = int (length (filter (\<lambda>a. isl (at_result a)) as))
    \<and> SuccessfulRequests ms + FailedRequests ms = TotalRequests ms
    \<and> lo \<le> AverageResponseTime ms \<and> AverageResponseTime ms \<le> hi"
proof -
  have "metrics_ok new_metrics" by (simp add: new_metrics_def metrics_ok_def)
  from record_all_bounds[OF this assms(1,2)] assms(3-5) show ?thesis
    by (fastforce simp: new_metrics_def metrics_ok_def)
qed

theorem metrics_exact_witness:
  "\<exists>ms. record_all [demo_attempt (Inl ''x''), demo_attempt (Inr demo_reply)] new_metrics = Done ms
     \<and> FailedRequests ms = 1 \<and> AverageResponseTime ms = 5"
  using metrics_exact[of 5 "[demo_attempt (Inl ''x''), demo_attempt (Inr demo_reply)]" 5]
  by (auto simp: demo_attempt_def)

end
