(* ===== verification/Carrier_Plans.thy ===== *)
theory Carrier_Plans
  imports Rate_Plan Smdp_Manager Calendar
begin

text \<open>
  The choice of a carrier together with a rate plan
  (\<open>apps/carrier-connector/internal/rateplan\<close>: \<open>carrier_integration.go\<close>, \<open>carrier_methods.go\<close>). The repository
  is an interface, its three operations are arguments; the carriers are those of \<open>Smdp_Manager\<close>. \<open>ks\<close> is
  the iteration order of a map. The log is not modelled, except that the adjustments of the
  weights, which are only logged, are a result.
\<close>

section \<open>Types\<close>

record CarrierRatePlanCriteria =
  cc_Region :: string
  cc_PlanType :: PlanType
  cc_MaxBudget :: f64
  cc_Urgency :: string
  cc_Preferences :: metadata

record RecommendationCriteria =
  rc_Region :: string
  rc_PlanType :: PlanType
  rc_MaxBudget :: f64
  rc_PreferredData :: int
  rc_PreferredVoice :: int
  rc_PreferredSMS :: int
  rc_MaxResults :: int

record CarrierRatePlanResult =
  cr_Carrier :: Carrier
  cr_RatePlan :: RatePlan
  cr_TotalScore :: f64
  cr_SelectedAt :: time

record RatePlanRecommendation =
  rr_RatePlanID :: string
  rr_RatePlanName :: string
  rr_CarrierID :: string
  rr_CarrierName :: string
  rr_Price :: f64
  rr_Currency :: string
  rr_Relevance :: f64
  rr_Features :: "PlanFeature list"
  rr_DataAllowance :: "DataAllowance option"
  rr_VoiceAllowance :: "VoiceAllowance option"
  rr_SMSAllowance :: "SMSAllowance option"
  rr_RecommendedAt :: time

record RatePlanAnalytics =
  ra_RatePlanID :: string
  ra_RatePlanName :: string
  ra_BasePrice :: f64
  ra_Currency :: string
  ra_ActiveSubscriptions :: int
  ra_PlanType :: PlanType
  ra_BillingCycle :: BillingCycle
  ra_DataAllowance :: "DataAllowance option"
  ra_VoiceAllowance :: "VoiceAllowance option"
  ra_SMSAllowance :: "SMSAllowance option"
  ra_Features :: "PlanFeature list"

record CarrierRatePlanAnalytics =
  ca_CarrierID :: string
  ca_CarrierName :: string
  ca_Region :: string
  ca_HealthStatus :: string
  ca_Priority :: int
  ca_TotalPlans :: int
  ca_ActivePlans :: int
  ca_GeneratedAt :: time
  ca_PlanAnalytics :: "RatePlanAnalytics list"

text \<open>Of the filters and analytics of usage, the fields the component sets or reads.\<close>

record SubscriptionFilter =
  sf_Status :: string
  sf_RatePlanID :: string
  sf_Limit :: int

record UsageAnalyticsFilter =
  uf_StartDate :: time
  uf_EndDate :: time

record UsageAnalytics =
  ua_UsageByPlan :: "string \<rightharpoonup> int"
  ua_UsageByRegion :: "string \<rightharpoonup> int"

datatype selection_error = PlansFailed string | NoPlans string PlanType f64 | NoSuitableCarrier | CarrierNotFound string | AnalyticsFailed string

section \<open>Scores\<close>

definition scoreRatePlan :: "RatePlan \<Rightarrow> CarrierRatePlanCriteria \<Rightarrow> f64" where
  "scoreRatePlan plan criteria =
     (let s0 = f64_lit 0;
          priceScore = f64_sub (f64_lit 1) (f64_div (rp_BasePrice plan) (cc_MaxBudget criteria));
          s1 = (if f64_gt (cc_MaxBudget criteria) (f64_lit 0) \<and> f64_gt priceScore (f64_lit 0)
                then f64_add s0 (f64_mul priceScore (f64_lit (4 / 10))) else s0);
          s2 = f64_add s1 (f64_mul (f64_div (f64_of_int (rp_Priority plan)) (f64_lit 100)) (f64_lit (3 / 10)));
          s3 = (if rp_Features plan \<noteq> []
                then f64_add s2 (f64_mul (f64_div (f64_of_int (int (length (rp_Features plan)))) (f64_lit 10)) (f64_lit (2 / 10))) else s2)
      in case rp_DataAllowance plan of
           None \<Rightarrow> s3
         | Some d \<Rightarrow>
             let dataScore = f64_div (f64_of_int (da_Amount d)) (f64_lit 10000);
                 dataScore = (if f64_gt dataScore (f64_lit 1) then f64_lit 1 else dataScore)
             in f64_add s3 (f64_mul dataScore (f64_lit (1 / 10))))"

definition calculateCombinedScore :: "Carrier \<Rightarrow> RatePlan \<Rightarrow> CarrierRatePlanCriteria \<Rightarrow> f64" where
  "calculateCombinedScore carrier plan criteria =
     f64_add (f64_mul (f64_div (f64_of_int (car_Priority carrier)) (f64_lit 100)) (f64_lit (7 / 10)))
             (f64_mul (scoreRatePlan plan criteria) (f64_lit (3 / 10)))"

definition better_plan :: "CarrierRatePlanCriteria \<Rightarrow> RatePlan \<Rightarrow> f64 \<times> RatePlan option \<Rightarrow> f64 \<times> RatePlan option" where
  "better_plan criteria plan best =
     (let score = scoreRatePlan plan criteria in if f64_gt score (fst best) then (score, Some plan) else best)"

definition findBestPlanForCarrier :: "RatePlan list \<Rightarrow> CarrierRatePlanCriteria \<Rightarrow> RatePlan option" where
  "findBestPlanForCarrier plans criteria = snd (fold (better_plan criteria) plans (f64_lit 0, None))"

definition better_carrier ::
  "(string \<rightharpoonup> RatePlan list) \<Rightarrow> (string \<rightharpoonup> Carrier) \<Rightarrow> CarrierRatePlanCriteria \<Rightarrow> string \<Rightarrow>
    f64 \<times> (Carrier \<times> RatePlan) option \<Rightarrow> f64 \<times> (Carrier \<times> RatePlan) option" where
  "better_carrier carrierPlans carrierStatus criteria carrierID best =
     (case (carrierPlans carrierID, carrierStatus carrierID) of
        (Some plans, Some carrier) \<Rightarrow>
          (if car_HealthStatus carrier \<noteq> CarrierStatusHealthy then best
           else case findBestPlanForCarrier plans criteria of
               None \<Rightarrow> best
             | Some plan \<Rightarrow>
                 let combinedScore = calculateCombinedScore carrier plan criteria
                 in if f64_gt combinedScore (fst best) then (combinedScore, Some (carrier, plan)) else best)
      | _ \<Rightarrow> best)"

definition scoreCarriersWithPlans ::
  "string list \<Rightarrow> (string \<rightharpoonup> RatePlan list) \<Rightarrow> (string \<rightharpoonup> Carrier) \<Rightarrow> CarrierRatePlanCriteria \<Rightarrow> (Carrier \<times> RatePlan) option" where
  "scoreCarriersWithPlans ks carrierPlans carrierStatus criteria =
     snd (fold (better_carrier carrierPlans carrierStatus criteria) ks (f64_lit 0, None))"

section \<open>Selection\<close>

definition plan_filter :: "string \<Rightarrow> string \<Rightarrow> PlanType \<Rightarrow> f64 \<Rightarrow> int \<Rightarrow> RatePlanFilter" where
  "plan_filter carrierID region planType maxPrice n = \<lparr>rf_CarrierID = carrierID, rf_Region = region, rf_PlanType = planType,
     rf_Status = PlanStatusActive, rf_MinPrice = f64_lit 0, rf_MaxPrice = maxPrice, rf_IsActive = Some True,
     rf_ValidFrom = None, rf_ValidTo = None, rf_Limit = n, rf_Offset = 0, rf_SortBy = '''', rf_SortOrder = ''''\<rparr>"

definition getAvailableRatePlans ::
  "(RatePlanFilter \<Rightarrow> string + RatePlan list) \<Rightarrow> string \<Rightarrow> PlanType \<Rightarrow> f64 \<Rightarrow> string + RatePlan list" where
  "getAvailableRatePlans listRatePlans region planType maxBudget = listRatePlans (plan_filter '''' region planType maxBudget 0)"

definition group_plan :: "RatePlan \<Rightarrow> (string \<rightharpoonup> RatePlan list) \<Rightarrow> (string \<rightharpoonup> RatePlan list)" where
  "group_plan plan m = m(rp_CarrierID plan \<mapsto> (case m (rp_CarrierID plan) of None \<Rightarrow> [] | Some ps \<Rightarrow> ps) @ [plan])"

definition groupRatePlansByCarrier :: "RatePlan list \<Rightarrow> (string \<rightharpoonup> RatePlan list)" where
  "groupRatePlansByCarrier plans = fold group_plan plans Map.empty"

definition GetOptimalCarrierWithRatePlan ::
  "(RatePlanFilter \<Rightarrow> string + RatePlan list) \<Rightarrow> SMDPManager \<Rightarrow> string list \<Rightarrow> time \<Rightarrow> CarrierRatePlanCriteria \<Rightarrow>
    selection_error + CarrierRatePlanResult" where
  "GetOptimalCarrierWithRatePlan listRatePlans mgr ks now criteria =
     (case getAvailableRatePlans listRatePlans (cc_Region criteria) (cc_PlanType criteria) (cc_MaxBudget criteria) of
        Inl e \<Rightarrow> Inl (PlansFailed e)
      | Inr plans \<Rightarrow>
          if plans = [] then Inl (NoPlans (cc_Region criteria) (cc_PlanType criteria) (cc_MaxBudget criteria))
          else (case scoreCarriersWithPlans ks (groupRatePlansByCarrier plans) (GetCarrierStatus mgr) criteria of
              None \<Rightarrow> Inl NoSuitableCarrier
            | Some (carrier, plan) \<Rightarrow> Inr \<lparr>cr_Carrier = carrier, cr_RatePlan = plan,
                cr_TotalScore = calculateCombinedScore carrier plan criteria, cr_SelectedAt = now\<rparr>))"

section \<open>Recommendations\<close>

definition calculateRelevance :: "RatePlan \<Rightarrow> RecommendationCriteria \<Rightarrow> f64" where
  "calculateRelevance plan criteria =
     (let r0 = f64_lit (5 / 10);
          r1 = (if 0 < rc_PreferredData criteria \<and> pred_option (\<lambda>a. rc_PreferredData criteria \<le> da_Amount a) (rp_DataAllowance plan)
                  \<and> rp_DataAllowance plan \<noteq> None then f64_add r0 (f64_lit (2 / 10)) else r0);
          r2 = (if 0 < rc_PreferredVoice criteria \<and> pred_option (\<lambda>a. rc_PreferredVoice criteria \<le> va_Minutes a) (rp_VoiceAllowance plan)
                  \<and> rp_VoiceAllowance plan \<noteq> None then f64_add r1 (f64_lit (2 / 10)) else r1);
          r3 = (if 0 < rc_PreferredSMS criteria \<and> pred_option (\<lambda>a. rc_PreferredSMS criteria \<le> sa_Messages a) (rp_SMSAllowance plan)
                  \<and> rp_SMSAllowance plan \<noteq> None then f64_add r2 (f64_lit (1 / 10)) else r2)
      in if f64_gt r3 (f64_lit 1) then f64_lit 1 else r3)"

definition createRecommendation :: "time \<Rightarrow> RatePlan \<Rightarrow> Carrier \<Rightarrow> RecommendationCriteria \<Rightarrow> RatePlanRecommendation" where
  "createRecommendation now plan carrier criteria = \<lparr>rr_RatePlanID = rp_ID plan, rr_RatePlanName = rp_Name plan,
     rr_CarrierID = car_ID carrier, rr_CarrierName = car_Name carrier, rr_Price = rp_BasePrice plan, rr_Currency = rp_Currency plan,
     rr_Relevance = calculateRelevance plan criteria, rr_Features = rp_Features plan, rr_DataAllowance = rp_DataAllowance plan,
     rr_VoiceAllowance = rp_VoiceAllowance plan, rr_SMSAllowance = rp_SMSAllowance plan, rr_RecommendedAt = now\<rparr>"

text \<open>\<open>now i\<close> is the time read for the i-th plan.\<close>

definition RecommendRatePlansForCarrier ::
  "(RatePlanFilter \<Rightarrow> string + RatePlan list) \<Rightarrow> SMDPManager \<Rightarrow> (nat \<Rightarrow> time) \<Rightarrow> string \<Rightarrow> RecommendationCriteria \<Rightarrow>
    selection_error + RatePlanRecommendation list" where
  "RecommendRatePlansForCarrier listRatePlans mgr now carrierID criteria =
     (case GetCarrierStatus mgr carrierID of
        None \<Rightarrow> Inl (CarrierNotFound carrierID)
      | Some carrier \<Rightarrow>
          (case listRatePlans (plan_filter carrierID (rc_Region criteria) (rc_PlanType criteria) (f64_lit 0) (rc_MaxResults criteria)) of
             Inl e \<Rightarrow> Inl (PlansFailed e)
           | Inr plans \<Rightarrow> Inr (map (\<lambda>(i, plan). createRecommendation (now i) plan carrier criteria) (enumerate 0 plans))))"

section \<open>Weights\<close>

definition total_usage :: "(string \<rightharpoonup> int) \<Rightarrow> string list \<Rightarrow> int" where
  "total_usage m ks = foldl (\<lambda>n u. i64 (n + u)) 0 (List.map_filter m ks)"

definition calculateRegionalWeightAdjustment :: "int \<Rightarrow> string list \<Rightarrow> UsageAnalytics \<Rightarrow> f64" where
  "calculateRegionalWeightAdjustment usage ks analytics =
     (let totalUsage = total_usage (ua_UsageByRegion analytics) ks in
      if totalUsage = 0 then f64_lit 0
      else let w = f64_mul (f64_div (f64_of_int usage) (f64_of_int totalUsage)) (f64_lit (5 / 10)) in
        if f64_gt w (f64_lit (3 / 10)) then f64_lit (3 / 10)
        else if f64_lt w (f64_neg (f64_lit (2 / 10))) then f64_neg (f64_lit (2 / 10)) else w)"

definition calculatePlanWeightAdjustment :: "int \<Rightarrow> string list \<Rightarrow> UsageAnalytics \<Rightarrow> f64" where
  "calculatePlanWeightAdjustment usage ks analytics =
     (let totalUsage = total_usage (ua_UsageByPlan analytics) ks in
      if totalUsage = 0 then f64_lit 0
      else let w = f64_mul (f64_div (f64_of_int usage) (f64_of_int totalUsage)) (f64_lit (4 / 10)) in
        if f64_gt w (f64_lit (4 / 10)) then f64_lit (4 / 10)
        else if f64_lt w (f64_neg (f64_lit (3 / 10))) then f64_neg (f64_lit (3 / 10)) else w)"

text \<open>The adjustments logged for the regions and for the plans; nothing else is done with them.\<close>

definition updateCarrierWeights :: "string list \<Rightarrow> string list \<Rightarrow> UsageAnalytics option \<Rightarrow> (string \<times> f64) list \<times> (string \<times> f64) list" where
  "updateCarrierWeights regions plans analytics = (case analytics of None \<Rightarrow> ([], [])
     | Some a \<Rightarrow> (List.map_filter (\<lambda>r. map_option (\<lambda>u. (r, calculateRegionalWeightAdjustment u regions a)) (ua_UsageByRegion a r)) regions,
                  List.map_filter (\<lambda>p. map_option (\<lambda>u. (p, calculatePlanWeightAdjustment u plans a)) (ua_UsageByPlan a p)) plans))"

definition UpdateCarrierSelectionCriteria ::
  "(UsageAnalyticsFilter \<Rightarrow> string + UsageAnalytics option) \<Rightarrow> time \<Rightarrow> time \<Rightarrow> string list \<Rightarrow> string list \<Rightarrow>
    selection_error + (string \<times> f64) list \<times> (string \<times> f64) list" where
  "UpdateCarrierSelectionCriteria getUsageAnalytics now0 now1 regions plans =
     (case getUsageAnalytics \<lparr>uf_StartDate = AddDate 0 0 0 (- 30) now0, uf_EndDate = now1\<rparr> of
        Inl e \<Rightarrow> Inl (AnalyticsFailed e)
      | Inr analytics \<Rightarrow> Inr (updateCarrierWeights regions plans analytics))"

section \<open>Analytics\<close>

definition countActivePlans :: "RatePlan list \<Rightarrow> int" where
  "countActivePlans plans = int (length (filter (\<lambda>p. rp_IsActive p \<and> rp_Status p = PlanStatusActive) plans))"

definition getPlanAnalytics :: "(string \<Rightarrow> SubscriptionFilter \<Rightarrow> string + 'sub list) \<Rightarrow> RatePlan \<Rightarrow> RatePlanAnalytics" where
  "getPlanAnalytics listSubscriptions plan =
     \<lparr>ra_RatePlanID = rp_ID plan, ra_RatePlanName = rp_Name plan, ra_BasePrice = rp_BasePrice plan, ra_Currency = rp_Currency plan,
      ra_ActiveSubscriptions = (case listSubscriptions '''' \<lparr>sf_Status = ''active'', sf_RatePlanID = rp_ID plan, sf_Limit = 1\<rparr> of
         Inl _ \<Rightarrow> 0 | Inr subs \<Rightarrow> int (length subs)),
      ra_PlanType = rp_PlanType plan, ra_BillingCycle = rp_BillingCycle plan, ra_DataAllowance = rp_DataAllowance plan,
      ra_VoiceAllowance = rp_VoiceAllowance plan, ra_SMSAllowance = rp_SMSAllowance plan, ra_Features = rp_Features plan\<rparr>"

definition GetCarrierRatePlanAnalytics ::
  "(RatePlanFilter \<Rightarrow> string + RatePlan list) \<Rightarrow> (string \<Rightarrow> SubscriptionFilter \<Rightarrow> string + 'sub list) \<Rightarrow> SMDPManager \<Rightarrow> time \<Rightarrow> string \<Rightarrow>
    selection_error + CarrierRatePlanAnalytics" where
  "GetCarrierRatePlanAnalytics listRatePlans listSubscriptions mgr now carrierID =
     (case GetCarrierStatus mgr carrierID of
        None \<Rightarrow> Inl (CarrierNotFound carrierID)
      | Some carrier \<Rightarrow>
          (case listRatePlans (plan_filter carrierID '''' (PlanTypeOther '''') (f64_lit 0) 0) of
             Inl e \<Rightarrow> Inl (PlansFailed e)
           | Inr plans \<Rightarrow> Inr \<lparr>ca_CarrierID = carrierID, ca_CarrierName = car_Name carrier, ca_Region = car_CountryCode carrier,
               ca_HealthStatus = car_HealthStatus carrier, ca_Priority = car_Priority carrier, ca_TotalPlans = int (length plans),
               ca_ActivePlans = countActivePlans plans, ca_GeneratedAt = now,
               ca_PlanAnalytics = map (getPlanAnalytics listSubscriptions) plans\<rparr>))"

section \<open>The best of a list\<close>

text \<open>The shape of both scans: the first candidate with the greatest score above the initial one.\<close>

definition keep_best :: "('x \<Rightarrow> (f64 \<times> 'y) option) \<Rightarrow> 'x \<Rightarrow> f64 \<times> 'y option \<Rightarrow> f64 \<times> 'y option" where
  "keep_best cand x best = (case cand x of None \<Rightarrow> best | Some (sc, y) \<Rightarrow> if f64_gt sc (fst best) then (sc, Some y) else best)"

lemma f64_lt_trans: "f64_lt x y \<Longrightarrow> f64_lt y z \<Longrightarrow> f64_lt x z"
  by (cases x; cases y; cases z) auto

lemma f64_lt_irrefl: "\<not> f64_lt x x"
  by (cases x) auto

lemma keep_best_scan:
  "fold (keep_best cand) xs acc = (b, r) \<Longrightarrow>
     ((b, r) = acc \<or> f64_gt b (fst acc) \<and> (\<exists>x \<in> set xs. \<exists>y. cand x = Some (b, y) \<and> r = Some y))
     \<and> (\<forall>x \<in> set xs. \<forall>sc y. cand x = Some (sc, y) \<longrightarrow> \<not> f64_gt sc b)"
proof (induction xs arbitrary: acc)
  case (Cons x xs)
  let ?acc = "keep_best cand x acc"
  have IH: "(b, r) = ?acc \<or> f64_gt b (fst ?acc) \<and> (\<exists>x \<in> set xs. \<exists>y. cand x = Some (b, y) \<and> r = Some y)"
    "\<forall>x \<in> set xs. \<forall>sc y. cand x = Some (sc, y) \<longrightarrow> \<not> f64_gt sc b"
    using Cons.IH[of ?acc] Cons.prems by auto
  have acc: "?acc = acc \<or> f64_gt (fst ?acc) (fst acc) \<and> (\<exists>y. cand x = Some (fst ?acc, y) \<and> snd ?acc = Some y)"
    by (auto simp: keep_best_def split: option.splits)
  have head: "\<not> f64_gt sc (fst ?acc)" if "cand x = Some (sc, y)" for sc y
    using that by (auto simp: keep_best_def f64_lt_irrefl)
  have "\<not> f64_gt sc b" if "cand x = Some (sc, y)" for sc y
    using IH(1)
  proof
    assume "(b, r) = ?acc"
    then show ?thesis using head[OF that] by (metis fst_conv)
  next
    assume "f64_gt b (fst ?acc) \<and> (\<exists>x \<in> set xs. \<exists>y. cand x = Some (b, y) \<and> r = Some y)"
    then show ?thesis using head[OF that] f64_lt_trans by blast
  qed
  moreover have "(b, r) = acc \<or> f64_gt b (fst acc) \<and> (\<exists>x \<in> set (x # xs). \<exists>y. cand x = Some (b, y) \<and> r = Some y)"
    using IH(1)
  proof
    assume "(b, r) = ?acc"
    then show ?thesis using acc by (cases ?acc) auto
  next
    assume b: "f64_gt b (fst ?acc) \<and> (\<exists>x \<in> set xs. \<exists>y. cand x = Some (b, y) \<and> r = Some y)"
    then have "f64_gt b (fst acc)" using acc f64_lt_trans by auto
    then show ?thesis using b by auto
  qed
  ultimately show ?case using IH(2) by auto
qed simp

lemma best_plan:
  assumes "findBestPlanForCarrier plans criteria = res"
  shows "case res of
      None \<Rightarrow> \<forall>p \<in> set plans. \<not> f64_gt (scoreRatePlan p criteria) (f64_lit 0)
    | Some plan \<Rightarrow> plan \<in> set plans \<and> f64_gt (scoreRatePlan plan criteria) (f64_lit 0)
        \<and> (\<forall>p \<in> set plans. \<not> f64_gt (scoreRatePlan p criteria) (scoreRatePlan plan criteria))"
proof -
  let ?cand = "\<lambda>p. Some (scoreRatePlan p criteria, p)"
  have "better_plan criteria = keep_best ?cand" by (auto simp: better_plan_def keep_best_def Let_def fun_eq_iff)
  moreover obtain b r where br: "fold (keep_best ?cand) plans (f64_lit 0, None) = (b, r)" by (metis prod.collapse)
  ultimately have "r = res" using assms by (simp add: findBestPlanForCarrier_def)
  then show ?thesis using keep_best_scan[OF br] by (auto split: option.splits)
qed

definition carrier_candidate ::
  "(string \<rightharpoonup> RatePlan list) \<Rightarrow> (string \<rightharpoonup> Carrier) \<Rightarrow> CarrierRatePlanCriteria \<Rightarrow> string \<Rightarrow> (f64 \<times> Carrier \<times> RatePlan) option" where
  "carrier_candidate carrierPlans carrierStatus criteria i =
     Option.bind (carrierPlans i) (\<lambda>plans. Option.bind (carrierStatus i) (\<lambda>carrier.
       if car_HealthStatus carrier \<noteq> CarrierStatusHealthy then None
       else map_option (\<lambda>plan. (calculateCombinedScore carrier plan criteria, carrier, plan)) (findBestPlanForCarrier plans criteria)))"

lemma better_carrier_scan: "better_carrier cps st criteria = keep_best (carrier_candidate cps st criteria)"
  by (auto simp: better_carrier_def keep_best_def carrier_candidate_def fun_eq_iff Let_def split: option.splits)

lemma group_plans: "fold group_plan plans m c =
  (if filter (\<lambda>p. rp_CarrierID p = c) plans = [] then m c
   else Some ((case m c of None \<Rightarrow> [] | Some ps \<Rightarrow> ps) @ filter (\<lambda>p. rp_CarrierID p = c) plans))"
  by (induction plans arbitrary: m) (auto simp: group_plan_def)

lemma grouped: "groupRatePlansByCarrier plans c = Some ps \<longleftrightarrow> ps \<noteq> [] \<and> ps = filter (\<lambda>p. rp_CarrierID p = c) plans"
  by (auto simp: groupRatePlansByCarrier_def group_plans)

section \<open>Scores are monotone\<close>

lemma f64_round_mono: "r \<le> r' \<Longrightarrow> f64_le (f64_round s r) (f64_round s' r')"
proof (cases "0 \<le> r")
  case True
  then show "r \<le> r' \<Longrightarrow> ?thesis" using rnd_mono[of r r'] rnd_nonneg[of r] by (auto simp: f64_round_def Let_def simp del: power_numeral)
next
  case False
  then have "rnd r \<le> 0" using rnd_mono[of r 0] by simp
  moreover have "0 \<le> r' \<Longrightarrow> 0 \<le> rnd r'" by (rule rnd_nonneg)
  moreover have "\<not> 0 \<le> r' \<Longrightarrow> rnd r' \<le> 0" using rnd_mono[of r' 0] by simp
  ultimately show "r \<le> r' \<Longrightarrow> ?thesis" using False rnd_mono[of r r'] by (auto simp: f64_round_def Let_def simp del: power_numeral)
qed

lemma f64_round_between [simp]: "f64_le (Inf True) (f64_round s r)" "f64_le (f64_round s r) (Inf False)"
  by (simp_all add: f64_round_def Let_def)

lemma f64_le_not_lt: "f64_le x y \<Longrightarrow> \<not> f64_lt y x"
  by (cases x; cases y) auto

lemma f64_lt_cases: "\<not> f64_lt y x \<Longrightarrow> x = NaN \<or> y = NaN \<or> f64_le x y"
  by (cases x; cases y) auto

lemma mul_monotone: "f64_le x y \<Longrightarrow> 0 < c \<Longrightarrow> f64_mul x (Fin False c) = NaN \<or> f64_le (f64_mul x (Fin False c)) (f64_mul y (Fin False c))"
  by (cases x; cases y) (auto intro!: f64_round_mono mult_right_mono split: if_splits)

lemma add_monotone:
  assumes "f64_le x y" "f64_ge y (Fin False 0)" "f64_gt b (Fin False 0)" "\<not> f64_gt (f64_add z y) b"
  shows "\<not> f64_gt (f64_add z x) b"
proof (cases x; cases y; cases z)
  fix s r s' r' t u
  assume c: "x = Fin s r" "y = Fin s' r'" "z = Fin t u"
  have "f64_le (f64_add z x) (f64_add z y)" using c assms(1) by (simp add: f64_round_mono)
  moreover have "b \<noteq> NaN" using assms(3) by auto
  ultimately show ?thesis using assms(4) c by (cases "f64_add z x"; cases "f64_add z y"; cases b) auto
qed (insert assms, (cases b; auto simp: f64_le_not_lt split: if_splits)+)

lemma tenths: "f64_lit (3 / 10) = Fin False (rnd (3 / 10))" "0 < rnd (3 / 10)" "rnd (3 / 10) < 1"
  by code_simp+

lemma combined_monotone:
  assumes "\<not> f64_gt (scoreRatePlan p criteria) (scoreRatePlan q criteria)" "f64_gt (scoreRatePlan q criteria) (f64_lit 0)"
    and "f64_gt b (f64_lit 0)" "\<not> f64_gt (calculateCombinedScore c q criteria) b"
  shows "\<not> f64_gt (calculateCombinedScore c p criteria) b"
proof -
  let ?s = "\<lambda>p. scoreRatePlan p criteria" and ?m = "\<lambda>x. f64_mul x (Fin False (rnd (3 / 10)))"
  have n: "\<not> f64_gt (f64_add z NaN) b" for z by (cases z) simp_all
  have "?s q \<noteq> NaN" using assms(2) by (cases "?s q") auto
  then consider "?s p = NaN" | "f64_le (?s p) (?s q)" using f64_lt_cases[OF assms(1)] by blast
  then have "?m (?s p) = NaN \<or> f64_le (?m (?s p)) (?m (?s q))" using mul_monotone[OF _ tenths(2)] by cases auto
  moreover have "f64_ge (?m (?s q)) (Fin False 0)"
    using assms(2) tenths(2) f64_round_mono[of 0 _ False] by (cases "?s q") (auto simp: f64_round_0 f64_lit_0)
  ultimately show ?thesis using n add_monotone[of "?m (?s p)" "?m (?s q)" b] assms(3,4)
    unfolding calculateCombinedScore_def tenths(1) f64_lit_0 by metis
qed

section \<open>The selection is optimal\<close>

text \<open>C31. A selected carrier is known and healthy and the plan is one of the listed plans of that carrier,
  with a positive score; no listed plan of a healthy carrier that has a positive score of its own would
  give a greater combined score.\<close>

theorem carrier_plan_optimal:
  assumes "GetOptimalCarrierWithRatePlan listRatePlans mgr ks now criteria = Inr r"
    and "getAvailableRatePlans listRatePlans (cc_Region criteria) (cc_PlanType criteria) (cc_MaxBudget criteria) = Inr plans"
    and "iterates (groupRatePlansByCarrier plans) ks"
  shows "GetCarrierStatus mgr (rp_CarrierID (cr_RatePlan r)) = Some (cr_Carrier r)
    \<and> car_HealthStatus (cr_Carrier r) = CarrierStatusHealthy \<and> cr_RatePlan r \<in> set plans \<and> f64_gt (cr_TotalScore r) (f64_lit 0)
    \<and> (\<forall>p \<in> set plans. \<forall>c. GetCarrierStatus mgr (rp_CarrierID p) = Some c \<and> car_HealthStatus c = CarrierStatusHealthy
         \<and> f64_gt (scoreRatePlan p criteria) (f64_lit 0) \<longrightarrow> \<not> f64_gt (calculateCombinedScore c p criteria) (cr_TotalScore r))"
proof -
  let ?cand = "carrier_candidate (groupRatePlansByCarrier plans) (GetCarrierStatus mgr) criteria"
  obtain b w where scan: "fold (keep_best ?cand) ks (f64_lit 0, None) = (b, w)" by (metis prod.collapse)
  have sel: "w = Some (cr_Carrier r, cr_RatePlan r)" "cr_TotalScore r = calculateCombinedScore (cr_Carrier r) (cr_RatePlan r) criteria"
    using assms(1,2) scan by (auto simp: GetOptimalCarrierWithRatePlan_def scoreCarriersWithPlans_def better_carrier_scan split: if_splits option.splits)
  note best = keep_best_scan[OF scan]
  obtain i where i: "i \<in> set ks" "?cand i = Some (b, cr_Carrier r, cr_RatePlan r)" "f64_gt b (f64_lit 0)" using best sel(1) by auto
  then obtain ps where ps: "groupRatePlansByCarrier plans i = Some ps" "GetCarrierStatus mgr i = Some (cr_Carrier r)"
    "car_HealthStatus (cr_Carrier r) = CarrierStatusHealthy" "findBestPlanForCarrier ps criteria = Some (cr_RatePlan r)"
    "b = cr_TotalScore r" using sel(2) by (auto simp: carrier_candidate_def bind_eq_Some_conv split: if_splits)
  have "cr_RatePlan r \<in> set ps" using best_plan[OF ps(4)] by simp
  then have "cr_RatePlan r \<in> set plans" "rp_CarrierID (cr_RatePlan r) = i" using ps(1) by (auto simp: grouped)
  moreover have "\<not> f64_gt (calculateCombinedScore c p criteria) (cr_TotalScore r)"
    if p: "p \<in> set plans" "GetCarrierStatus mgr (rp_CarrierID p) = Some c" "car_HealthStatus c = CarrierStatusHealthy"
      "f64_gt (scoreRatePlan p criteria) (f64_lit 0)" for p c
  proof -
    obtain qs where qs: "groupRatePlansByCarrier plans (rp_CarrierID p) = Some qs" "p \<in> set qs"
      using p(1) grouped[of plans "rp_CarrierID p"] by (auto simp: filter_empty_conv)
    then have "rp_CarrierID p \<in> set ks" using assms(3) by (auto simp: iterates_def)
    obtain q where q: "findBestPlanForCarrier qs criteria = Some q"
      using best_plan[of qs criteria None] qs(2) p(4) by (cases "findBestPlanForCarrier qs criteria") auto
    then have "\<not> f64_gt (calculateCombinedScore c q criteria) b"
      using best qs(1) p(2,3) \<open>rp_CarrierID p \<in> set ks\<close> by (auto simp: carrier_candidate_def)
    then show ?thesis using combined_monotone[where p = p and q = q and criteria = criteria] best_plan[OF q] qs(2) i(3) ps(5) by simp
  qed
  ultimately show ?thesis using ps i(3) by blast
qed
text \<open>A plan without features, data allowance and priority has the score 0 when no budget is given,
  and a score of 0 is never the best: if all listed plans are such, no carrier is found, however
  healthy the carriers are.\<close>

theorem plain_plans_not_found:
  assumes "getAvailableRatePlans listRatePlans (cc_Region criteria) (cc_PlanType criteria) (cc_MaxBudget criteria) = Inr plans"
    and "plans \<noteq> []" "\<not> f64_gt (cc_MaxBudget criteria) (f64_lit 0)"
    and "\<forall>p \<in> set plans. rp_Priority p = 0 \<and> rp_Features p = [] \<and> rp_DataAllowance p = None"
  shows "GetOptimalCarrierWithRatePlan listRatePlans mgr ks now criteria = Inl NoSuitableCarrier"
proof -
  have zero: "scoreRatePlan p criteria = f64_lit 0" if "p \<in> set plans" for p
    using that assms(3,4) tenths by (simp add: scoreRatePlan_def Let_def f64_lit_numeral f64_round_0 f64_lit_0)
  have "carrier_candidate (groupRatePlansByCarrier plans) (GetCarrierStatus mgr) criteria i = None" for i
  proof -
    have "findBestPlanForCarrier ps criteria = None" if ps: "groupRatePlansByCarrier plans i = Some ps" for ps
    proof (rule ccontr)
      assume "findBestPlanForCarrier ps criteria \<noteq> None"
      then obtain q where "findBestPlanForCarrier ps criteria = Some q" by blast
      from best_plan[OF this] ps show False using zero[of q] by (auto simp: grouped f64_lt_irrefl)
    qed
    then show ?thesis by (cases "groupRatePlansByCarrier plans i"; cases "GetCarrierStatus mgr i") (auto simp: carrier_candidate_def)
  qed
  then have "fold (keep_best (carrier_candidate (groupRatePlansByCarrier plans) (GetCarrierStatus mgr) criteria)) ks acc = acc"
    for acc :: "f64 \<times> (Carrier \<times> RatePlan) option"
    by (induction ks) (simp_all add: keep_best_def)
  then show ?thesis using assms(1,2) by (simp add: GetOptimalCarrierWithRatePlan_def scoreCarriersWithPlans_def better_carrier_scan)
qed

text \<open>The analytics of a carrier report at most one active subscription of every plan, however many
  there are: they list the subscriptions with the limit 1.\<close>

theorem at_most_one_subscription:
  assumes "GetCarrierRatePlanAnalytics listRatePlans listSubscriptions mgr now carrierID = Inr a"
    and "\<forall>profile f subs. listSubscriptions profile f = Inr subs \<longrightarrow> 0 < sf_Limit f \<longrightarrow> int (length subs) \<le> sf_Limit f"
  shows "\<forall>p \<in> set (ca_PlanAnalytics a). 0 \<le> ra_ActiveSubscriptions p \<and> ra_ActiveSubscriptions p \<le> 1"
proof -
  have "0 \<le> ra_ActiveSubscriptions (getPlanAnalytics listSubscriptions p) \<and> ra_ActiveSubscriptions (getPlanAnalytics listSubscriptions p) \<le> 1" for p
    using assms(2)[rule_format, of "''''" "\<lparr>sf_Status = ''active'', sf_RatePlanID = rp_ID p, sf_Limit = 1\<rparr>"]
    by (auto simp: getPlanAnalytics_def split: sum.splits)
  then show ?thesis using assms(1) by (auto simp: GetCarrierRatePlanAnalytics_def split: option.splits sum.splits)
qed

section \<open>An example\<close>

definition demo_offer :: "string \<Rightarrow> int \<Rightarrow> RatePlan" where
  "demo_offer c n = demo_plan\<lparr>rp_CarrierID := c, rp_Priority := n\<rparr>"

definition demo_criteria :: CarrierRatePlanCriteria where
  "demo_criteria = \<lparr>cc_Region = ''KE'', cc_PlanType = PlanTypePostpaid, cc_MaxBudget = f64_lit 0, cc_Urgency = '''', cc_Preferences = None\<rparr>"

definition demo_network :: SMDPManager where
  "demo_network = \<lparr>mgr_carriers = [''a'' \<mapsto> demo ''a'' 100], mgr_es2Clients = Map.empty,
     mgr_selector = NewSelectionAlgorithm, mgr_config = DefaultManagerConfig\<rparr>"

lemma rep64_halves: "rep64 (1 / 4)" "rep64 (1 / 2)"
  by code_simp+

lemma demo_scores: "f64_gt (scoreRatePlan (demo_offer ''a'' 100) demo_criteria) (f64_lit 0)"
  "f64_gt (calculateCombinedScore (demo ''a'' 100) (demo_offer ''a'' 100) demo_criteria) (f64_lit 0)"
proof -
  let ?p = "f64_div (f64_of_int 100) (f64_lit 100)"
  have one: "f64_in 1 1 ?p" by (simp add: f64_of_int_def f64_lit_numeral rep64_round)
  have l: "f64_in (1 / 4) 1 (f64_lit (3 / 10))" "f64_in (1 / 2) 1 (f64_lit (7 / 10))" "f64_in 0 0 (f64_lit 0)"
    by (intro f64_in_lit; simp add: rep64_halves)+
  have m: "f64_in (1 * (1 / 4)) (1 * 1) (f64_mul ?p (f64_lit (3 / 10)))" "f64_in (1 * (1 / 2)) (1 * 1) (f64_mul ?p (f64_lit (7 / 10)))"
    using one l by (intro f64_in_mul; simp add: rep64_halves)+
  have "f64_in (0 + 1 / 4) (0 + 1) (f64_add (f64_lit 0) (f64_mul ?p (f64_lit (3 / 10))))"
    using l(3) m(1) by (intro f64_in_add) (simp_all add: rep64_halves)
  then have sc: "f64_in (1 / 4) 1 (scoreRatePlan (demo_offer ''a'' 100) demo_criteria)"
    by (simp add: scoreRatePlan_def demo_offer_def demo_plan_def demo_criteria_def Let_def f64_lit_0)
  then have "f64_in 0 1 (scoreRatePlan (demo_offer ''a'' 100) demo_criteria)" "f64_in 0 1 (f64_lit (3 / 10))" using l(1) f64_in_weaken by fastforce+
  then have "f64_in (0 * 0) (1 * 1) (f64_mul (scoreRatePlan (demo_offer ''a'' 100) demo_criteria) (f64_lit (3 / 10)))"
    by (intro f64_in_mul) simp_all
  then have "f64_in (1 * (1 / 2) + 0 * 0) (1 * 1 + 1 * 1) (calculateCombinedScore (demo ''a'' 100) (demo_offer ''a'' 100) demo_criteria)"
    unfolding calculateCombinedScore_def using m(2) by (intro f64_in_add) (simp_all add: rep64_halves demo_def)
  then show "f64_gt (calculateCombinedScore (demo ''a'' 100) (demo_offer ''a'' 100) demo_criteria) (f64_lit 0)"
    by (cases "calculateCombinedScore (demo ''a'' 100) (demo_offer ''a'' 100) demo_criteria") (simp_all add: f64_lit_0)
  show "f64_gt (scoreRatePlan (demo_offer ''a'' 100) demo_criteria) (f64_lit 0)"
    using sc by (cases "scoreRatePlan (demo_offer ''a'' 100) demo_criteria") (simp_all add: f64_lit_0)
qed

theorem carrier_plan_optimal_witness:
  "\<exists>r. GetOptimalCarrierWithRatePlan (\<lambda>_. Inr [demo_offer ''a'' 100]) demo_network [''a''] 7 demo_criteria = Inr r
     \<and> car_HealthStatus (cr_Carrier r) = CarrierStatusHealthy \<and> f64_gt (cr_TotalScore r) (f64_lit 0)"
proof -
  let ?ps = "[demo_offer ''a'' 100]"
  have g: "groupRatePlansByCarrier ?ps = [''a'' \<mapsto> ?ps]" by (simp add: groupRatePlansByCarrier_def group_plan_def demo_offer_def)
  have "findBestPlanForCarrier ?ps demo_criteria = Some (demo_offer ''a'' 100)"
    using demo_scores(1) by (simp add: findBestPlanForCarrier_def better_plan_def)
  moreover have "car_HealthStatus (demo ''a'' 100) = CarrierStatusHealthy" by (simp add: demo_def)
  ultimately have "scoreCarriersWithPlans [''a''] (groupRatePlansByCarrier ?ps) (GetCarrierStatus demo_network) demo_criteria
      = Some (demo ''a'' 100, demo_offer ''a'' 100)"
    using demo_scores(2) by (simp add: scoreCarriersWithPlans_def g GetCarrierStatus_def demo_network_def better_carrier_def)
  then obtain r where r: "GetOptimalCarrierWithRatePlan (\<lambda>_. Inr ?ps) demo_network [''a''] 7 demo_criteria = Inr r"
    by (simp add: GetOptimalCarrierWithRatePlan_def getAvailableRatePlans_def)
  have "iterates (groupRatePlansByCarrier ?ps) [''a'']" by (simp add: g iterates_def)
  from carrier_plan_optimal[OF r _ this] show ?thesis using r by (simp add: getAvailableRatePlans_def)
qed

theorem plain_plans_not_found_witness:
  "GetOptimalCarrierWithRatePlan (\<lambda>_. Inr [demo_offer ''a'' 0]) demo_network [''a''] 7 demo_criteria = Inl NoSuitableCarrier"
  by (rule plain_plans_not_found[where plans = "[demo_offer ''a'' 0]"])
    (simp_all add: getAvailableRatePlans_def demo_criteria_def demo_offer_def demo_plan_def f64_lit_0)

theorem at_most_one_subscription_witness:
  "\<exists>a. GetCarrierRatePlanAnalytics (\<lambda>_. Inr [demo_offer ''a'' 100]) (\<lambda>_ _. Inr [()]) demo_network 7 ''a'' = Inr a
     \<and> map ra_ActiveSubscriptions (ca_PlanAnalytics a) = [1] \<and> (\<forall>p \<in> set (ca_PlanAnalytics a). ra_ActiveSubscriptions p \<le> 1)"
proof -
  obtain a where a: "GetCarrierRatePlanAnalytics (\<lambda>_. Inr [demo_offer ''a'' 100]) (\<lambda>_ _. Inr [()]) demo_network 7 ''a'' = Inr a"
    "map ra_ActiveSubscriptions (ca_PlanAnalytics a) = [1]"
    by (simp add: GetCarrierRatePlanAnalytics_def GetCarrierStatus_def demo_network_def getPlanAnalytics_def)
  from at_most_one_subscription[OF a(1)] show ?thesis using a by auto
qed

end
