(* ===== verification/Etag.thy ===== *)
theory Etag
  imports Go_Any Milenage
begin

text \<open>
  Entity tags of the API server (\<open>apps/api-server/internal/middleware/etag.go\<close>). SHA-256 is a parameter \<open>sha\<close> from the
  bytes that are written to its hexadecimal text; the map of cached tags is the state.
\<close>

section \<open>Strings\<close>

text \<open>\<open>strings.Contains\<close>, \<open>strings.Trim\<close> and \<open>strings.TrimSpace\<close>.\<close>

fun has_prefix :: "string \<Rightarrow> string \<Rightarrow> bool" where
  "has_prefix [] s = True"
| "has_prefix (c # cs) [] = False"
| "has_prefix (c # cs) (d # ds) \<longleftrightarrow> c = d \<and> has_prefix cs ds"

fun str_contains :: "string \<Rightarrow> string \<Rightarrow> bool" where
  "str_contains [] sub \<longleftrightarrow> has_prefix sub []"
| "str_contains (c # cs) sub \<longleftrightarrow> has_prefix sub (c # cs) \<or> str_contains cs sub"

definition trim :: "string \<Rightarrow> string \<Rightarrow> string" where
  "trim s cutset = rev (dropWhile (\<lambda>c. c \<in> set cutset) (rev (dropWhile (\<lambda>c. c \<in> set cutset) s)))"

definition white_space :: string where
  "white_space = map char_of [9, 10, 11, 12, 13, 32 :: nat]"

definition trim_space :: "string \<Rightarrow> string" where
  "trim_space s = trim s white_space"

abbreviation quote :: string where "quote \<equiv> [char_of (34 :: nat)]"

section \<open>Generating tags\<close>

record ETagData =
  et_Path :: string
  et_Method :: string
  et_Content :: string
  et_Timestamp :: time
  et_UserID :: string
  et_Params :: string

record ETagGenerator =
  eg_secretKey :: string
  eg_cacheStorage :: "string \<rightharpoonup> string"

definition NewETagGenerator :: "string \<Rightarrow> ETagGenerator" where
  "NewETagGenerator key = \<lparr>eg_secretKey = key, eg_cacheStorage = Map.empty\<rparr>"

text \<open>The bytes written to the hash.\<close>

definition hashed :: "string \<Rightarrow> ETagData \<Rightarrow> string" where
  "hashed key data = et_Path data @ et_Method data @ et_Content data @ show_int (et_Timestamp data div second) @ et_UserID data @ et_Params data @ key"

definition GenerateETag :: "(string \<Rightarrow> string) \<Rightarrow> ETagGenerator \<Rightarrow> ETagData \<Rightarrow> string" where
  "GenerateETag sha g data = quote @ sha (hashed (eg_secretKey g) data) @ quote"

definition GenerateWeakETag :: "(string \<Rightarrow> string) \<Rightarrow> ETagGenerator \<Rightarrow> ETagData \<Rightarrow> string" where
  "GenerateWeakETag sha g data = ''W/'' @ GenerateETag sha g data"

definition GetCachedETag :: "ETagGenerator \<Rightarrow> string \<Rightarrow> string option" where
  "GetCachedETag g key = eg_cacheStorage g key"

definition CacheETag :: "string \<Rightarrow> string \<Rightarrow> ETagGenerator \<Rightarrow> ETagGenerator" where
  "CacheETag key etag g = g\<lparr>eg_cacheStorage := (eg_cacheStorage g)(key \<mapsto> etag)\<rparr>"

definition InvalidateCache :: "string \<Rightarrow> ETagGenerator \<Rightarrow> ETagGenerator" where
  "InvalidateCache pat g = g\<lparr>eg_cacheStorage := (\<lambda>k. if str_contains k pat then None else eg_cacheStorage g k)\<rparr>"

definition etagGenerator :: ETagGenerator where
  "etagGenerator = NewETagGenerator ''telecom-platform-etag-secret''"

section \<open>Tags of a request\<close>

text \<open>A header that is not there is empty.\<close>

record etag_request =
  er_method :: string
  er_path :: string
  er_query :: string
  er_user :: "go_any option"
  er_if_none_match :: string
  er_if_match :: string

definition user_of :: "etag_request \<Rightarrow> string" where
  "user_of c = (case er_user c of Some (AnyString i) \<Rightarrow> i | _ \<Rightarrow> '''')"

definition request_data :: "etag_request \<Rightarrow> string \<Rightarrow> time \<Rightarrow> ETagData" where
  "request_data c content now = \<lparr>et_Path = er_path c, et_Method = er_method c, et_Content = content, et_Timestamp = now, et_UserID = user_of c, et_Params = er_query c\<rparr>"

definition cache_key :: "etag_request \<Rightarrow> string" where
  "cache_key c = er_method c @ '':'' @ er_path c @ '':'' @ er_query c"

definition generateETag :: "(string \<Rightarrow> string) \<Rightarrow> time \<Rightarrow> etag_request \<Rightarrow> ETagGenerator \<Rightarrow> string \<times> ETagGenerator" where
  "generateETag sha now c g = (case GetCachedETag g (cache_key c) of
     Some cached \<Rightarrow> (cached, g)
   | None \<Rightarrow> let etag = GenerateETag sha g (request_data c '''' now) in (etag, CacheETag (cache_key c) etag g))"

definition generateContentETag :: "(string \<Rightarrow> string) \<Rightarrow> time \<Rightarrow> etag_request \<Rightarrow> string \<Rightarrow> ETagGenerator \<Rightarrow> string" where
  "generateContentETag sha now c content g = GenerateETag sha g (request_data c content now)"

definition generateWeakETag :: "(string \<Rightarrow> string) \<Rightarrow> time \<Rightarrow> etag_request \<Rightarrow> ETagGenerator \<Rightarrow> string" where
  "generateWeakETag sha now c g = GenerateWeakETag sha g (request_data c '''' now)"

definition etagMatches :: "string \<Rightarrow> string \<Rightarrow> bool" where
  "etagMatches headerValue currentETag \<longleftrightarrow> headerValue = ''*''
     \<or> list_ex (\<lambda>etag. let e = trim (trim_space etag) quote; current = trim currentETag (quote @ ''W/'') in e = current \<or> e = ''W/'' @ current)
         (split_on (CHR '','') headerValue)"

section \<open>The middleware\<close>

datatype etag_outcome = PassedOn | NotModified string | PreconditionFailed

definition ETagValidationMiddleware :: "(string \<Rightarrow> string) \<Rightarrow> time \<Rightarrow> time \<Rightarrow> etag_request \<Rightarrow> ETagGenerator \<Rightarrow> etag_outcome \<times> ETagGenerator" where
  "ETagValidationMiddleware sha now1 now2 c g =
     (if er_method c \<noteq> ''GET'' \<and> er_method c \<noteq> ''HEAD'' then (PassedOn, g)
      else
        let (tag1, g1) = (if er_if_none_match c \<noteq> '''' then generateETag sha now1 c g else ('''', g)) in
        if er_if_none_match c \<noteq> '''' \<and> etagMatches (er_if_none_match c) tag1 then (NotModified tag1, g1)
        else if er_if_match c \<noteq> '''' then
          (let (tag2, g2) = generateETag sha now2 c g1 in
           if \<not> etagMatches (er_if_match c) tag2 then (PreconditionFailed, g2) else (PassedOn, g2))
        else (PassedOn, g1))"

text \<open>The header \<open>ETag\<close> that is set after the request was answered with a status and a body.\<close>

definition ContentBasedETagMiddleware :: "(string \<Rightarrow> string) \<Rightarrow> time \<Rightarrow> etag_request \<Rightarrow> int \<times> string \<Rightarrow> ETagGenerator \<Rightarrow> string option" where
  "ContentBasedETagMiddleware sha now c answer g =
     (if er_method c \<noteq> ''GET'' \<or> fst answer \<noteq> 200 then None
      else if 0 < length (snd answer) then Some (generateContentETag sha now c (snd answer) g)
      else Some (generateWeakETag sha now c g))"

definition CacheInvalidationMiddleware :: "etag_request \<Rightarrow> ETagGenerator \<Rightarrow> ETagGenerator" where
  "CacheInvalidationMiddleware c g =
     (if er_method c \<in> {''POST'', ''PUT'', ''PATCH'', ''DELETE''} then
        let pat = er_path c; g1 = InvalidateCache pat g in
        if str_contains pat ''/'' then
          (case split_on (CHR ''/'') (trim pat ''/'') of [] \<Rightarrow> g1 | p # _ \<Rightarrow> InvalidateCache (''/'' @ p) g1)
        else g1
      else g)"

section \<open>Conditional requests\<close>

text \<open>What is used of the hash: its text is made of hexadecimal digits, and no two of the given inputs collide.\<close>

definition hex_digits :: "char set" where
  "hex_digits = set ''0123456789abcdef''"

definition hash_ok :: "(string \<Rightarrow> string) \<Rightarrow> string set \<Rightarrow> bool" where
  "hash_ok sha S \<longleftrightarrow> inj_on sha S \<and> (\<forall>x. sha x \<noteq> [] \<and> set (sha x) \<subseteq> hex_digits)"

lemma trim_free: "s \<noteq> [] \<Longrightarrow> hd s \<notin> set cs \<Longrightarrow> last s \<notin> set cs \<Longrightarrow> trim s cs = s"
proof -
  assume h: "s \<noteq> []" "hd s \<notin> set cs" "last s \<notin> set cs"
  have "dropWhile (\<lambda>c. c \<in> set cs) s = s" "dropWhile (\<lambda>c. c \<in> set cs) (rev s) = rev s"
    using h by (simp_all add: dropWhile_eq_self_iff hd_rev)
  then show ?thesis by (simp add: trim_def)
qed

lemma list_ex_one: "list_ex P [a] \<longleftrightarrow> P a"
  by simp

lemma trim_quoted:
  assumes "s \<noteq> []" "set s \<inter> set cs = {}" "set quote \<subseteq> set cs"
  shows "trim (quote @ s @ quote) cs = s"
proof -
  have h: "hd s \<notin> set cs" "last s \<notin> set cs" using assms(1,2) by (meson disjoint_iff hd_in_set last_in_set)+
  then have "dropWhile (\<lambda>c. c \<in> set cs) (s @ quote) = s @ quote" using assms(1) by (simp add: dropWhile_eq_self_iff)
  moreover have "dropWhile (\<lambda>c. c \<in> set cs) (rev s) = rev s" using h assms(1) by (simp add: dropWhile_eq_self_iff hd_rev)
  ultimately show ?thesis using assms(3) by (simp add: trim_def)
qed

lemma hash_chars:
  assumes "hash_ok sha S"
  shows "sha x \<noteq> []" "set (sha x) \<inter> set (quote @ ''W/'') = {}" "CHR '','' \<notin> set (sha x)" "sha x = ''W/'' @ y \<Longrightarrow> False" "set (sha x) \<inter> set quote = {}"
proof -
  have s: "sha x \<noteq> []" "set (sha x) \<subseteq> hex_digits" using assms by (auto simp: hash_ok_def)
  have q: "hex_digits \<inter> set (quote @ ''W/'') = {}" "CHR '','' \<notin> hex_digits" "CHR ''W'' \<notin> hex_digits" by code_simp+
  show "sha x \<noteq> []" by (rule s(1))
  show i: "set (sha x) \<inter> set (quote @ ''W/'') = {}" using s(2) q(1) by blast
  then show "set (sha x) \<inter> set quote = {}" by auto
  show "CHR '','' \<notin> set (sha x)" using s(2) q(2) by blast
  show False if "sha x = ''W/'' @ y"
  proof -
    have "CHR ''W'' \<in> set (sha x)" unfolding that by simp
    then show False using s(2) q(3) by blast
  qed
qed

text \<open>Two tags match exactly when their hashes are equal.\<close>

lemma etagMatches_hash:
  assumes "hash_ok sha S" "x \<in> S" "y \<in> S"
  shows "etagMatches (quote @ sha x @ quote) (quote @ sha y @ quote) \<longleftrightarrow> x = y"
proof -
  have "CHR '','' \<notin> set (quote @ sha x @ quote)" using hash_chars(3)[OF assms(1)] by (auto simp: char_of_def)
  then have sp: "split_on (CHR '','') (quote @ sha x @ quote) = [quote @ sha x @ quote]" by (rule split_on_free)
  have w: "char_of (34 :: nat) \<notin> set white_space" by code_simp
  have t0: "trim_space (quote @ sha x @ quote) = quote @ sha x @ quote"
    unfolding trim_space_def by (rule trim_free) (use w in simp_all)
  have t1: "trim (quote @ sha x @ quote) quote = sha x"
    by (rule trim_quoted) (use hash_chars[OF assms(1)] in auto)
  have t2: "trim (quote @ sha y @ quote) (quote @ ''W/'') = sha y"
    by (rule trim_quoted) (use hash_chars(1,2)[OF assms(1)] in auto)
  have star: "quote @ sha x @ quote \<noteq> ''*''" using hash_chars(1)[OF assms(1), of x] by (cases "sha x") auto
  have "sha x = sha y \<longleftrightarrow> x = y" using assms by (auto simp: hash_ok_def inj_on_def)
  then show ?thesis
    unfolding etagMatches_def sp list_ex_one t0 Let_def t1 t2 using star hash_chars(4)[OF assms(1), of x "sha y"] by auto
qed

text \<open>Times whose number of seconds has ten digits: 2001 to 2286.\<close>

definition ten_digits :: "time \<Rightarrow> bool" where
  "ten_digits t \<longleftrightarrow> length (show_int (t div second)) = 10"

text \<open>The cached tag of a request, if there is one, was made for the same user.\<close>

definition cached_for :: "(string \<Rightarrow> string) \<Rightarrow> etag_request \<Rightarrow> ETagGenerator \<Rightarrow> bool" where
  "cached_for sha c g \<longleftrightarrow> (\<forall>tag. eg_cacheStorage g (cache_key c) = Some tag \<longrightarrow>
     (\<exists>t. ten_digits t \<and> tag = GenerateETag sha g (request_data c '''' t)))"

lemma generateETag_result:
  assumes "cached_for sha c g" "ten_digits now"
  shows "\<exists>t g'. ten_digits t \<and> generateETag sha now c g = (GenerateETag sha g (request_data c '''' t), g') \<and> cached_for sha c g'
    \<and> eg_secretKey g' = eg_secretKey g"
proof (cases "eg_cacheStorage g (cache_key c)")
  case None
  then have "generateETag sha now c g = (GenerateETag sha g (request_data c '''' now), CacheETag (cache_key c) (GenerateETag sha g (request_data c '''' now)) g)"
    by (simp add: generateETag_def GetCachedETag_def Let_def)
  moreover have "cached_for sha c (CacheETag (cache_key c) (GenerateETag sha g (request_data c '''' now)) g)"
    using assms(2) by (auto simp: cached_for_def CacheETag_def GenerateETag_def)
  ultimately show ?thesis using assms(2) by (auto simp: CacheETag_def)
next
  case (Some tag)
  then obtain t where "ten_digits t" "tag = GenerateETag sha g (request_data c '''' t)" using assms(1) by (auto simp: cached_for_def)
  then show ?thesis using Some assms(1) by (auto simp: generateETag_def GetCachedETag_def)
qed

text \<open>The inputs of the hash for one request, with and without its body.\<close>

definition hash_inputs :: "string \<Rightarrow> etag_request \<Rightarrow> string \<Rightarrow> string set" where
  "hash_inputs key c body = {hashed key (request_data c x t) |x t. x \<in> {'''', body} \<and> ten_digits t}"

lemma content_tag_differs:
  assumes "content \<noteq> ''''" "ten_digits s" "ten_digits t"
  shows "hashed key (request_data c content s) \<noteq> hashed key (request_data c '''' t)"
proof
  assume "hashed key (request_data c content s) = hashed key (request_data c '''' t)"
  then have "length (hashed key (request_data c content s)) = length (hashed key (request_data c '''' t))" by simp
  then show False using assms by (simp add: hashed_def request_data_def ten_digits_def)
qed

text \<open>C40. A client that sends back the tag it got for a body is never told that nothing has changed, however soon it
  asks: the tag of the answer covers the body, the tag it is compared with does not.\<close>

theorem conditional_requests_never_match:
  assumes "hash_ok sha (hash_inputs (eg_secretKey g) c body)" "ContentBasedETagMiddleware sha s c (200, body) g0 = Some tag" "body \<noteq> ''''" "eg_secretKey g = eg_secretKey g0"
    "er_method d = er_method c" "er_path d = er_path c" "er_query d = er_query c" "er_user d = er_user c"
    "er_if_none_match d = tag" "er_if_match d = ''''" "cached_for sha d g" "ten_digits s" "ten_digits now1"
  shows "fst (ETagValidationMiddleware sha now1 now2 d g) = PassedOn"
proof -
  have get: "er_method c = ''GET''" and tag: "tag = GenerateETag sha g0 (request_data c body s)"
    using assms(2,3) by (auto simp: ContentBasedETagMiddleware_def generateContentETag_def split: if_splits)
  have same: "request_data d x t = request_data c x t" for x t using assms(5-8) by (simp add: request_data_def user_of_def)
  obtain t g' where t: "ten_digits t" "generateETag sha now1 d g = (GenerateETag sha g (request_data d '''' t), g')"
    using generateETag_result[OF assms(11,13)] by blast
  have "hashed (eg_secretKey g) (request_data c body s) \<in> hash_inputs (eg_secretKey g) c body"
    "hashed (eg_secretKey g) (request_data c '''' t) \<in> hash_inputs (eg_secretKey g) c body"
    using assms(12) t(1) by (auto simp: hash_inputs_def)
  note m = etagMatches_hash[OF assms(1) this]
  have "\<not> etagMatches tag (GenerateETag sha g (request_data d '''' t))"
    unfolding tag GenerateETag_def assms(4)[symmetric] same m by (rule content_tag_differs[OF assms(3,12) t(1)])
  moreover have "tag \<noteq> ''''" by (simp add: tag GenerateETag_def)
  ultimately show ?thesis using assms(5,9,10) get t(2) by (simp add: ETagValidationMiddleware_def)
qed

text \<open>The header \<open>If-Match\<close> protects no change: a request that changes a resource is passed on whatever tag it
  names.\<close>

theorem if_match_protects_nothing:
  assumes "er_method c \<in> {''PUT'', ''PATCH'', ''DELETE'', ''POST''}"
  shows "ETagValidationMiddleware sha now1 now2 c g = (PassedOn, g)"
  using assms by (auto simp: ETagValidationMiddleware_def)

section \<open>Instances\<close>

definition demo_hash :: "string \<Rightarrow> string" where
  "demo_hash s = ''0'' @ EncodeToString (map (\<lambda>c. of_nat (of_char c)) s)"

lemma hex_digit_in: "n < 16 \<Longrightarrow> hex_digit n \<in> hex_digits"
proof -
  assume "n < 16"
  then have "n \<in> set [0..<16]" by simp
  moreover have "list_all (\<lambda>n. hex_digit n \<in> hex_digits) [0..<16]" unfolding hex_digits_def by code_simp
  ultimately show ?thesis by (simp only: list_all_iff)
qed

lemma set_EncodeToString: "set (EncodeToString bs) \<subseteq> hex_digits"
proof (induction bs)
  case (Cons b bs)
  have "unat b < 256" using unsigned_less[of b] by simp
  then have "unat b div 16 < 16" "unat b mod 16 < 16" by simp_all
  then have "{hex_digit (unat b div 16), hex_digit (unat b mod 16)} \<subseteq> hex_digits"
    using hex_digit_in by blast
  with Cons show ?case unfolding EncodeToString_def list.map concat.simps set_append list.set by blast
qed (simp add: EncodeToString_def)

lemma demo_hash_eq: "demo_hash x = demo_hash y \<Longrightarrow> x = y"
proof -
  assume h: "demo_hash x = demo_hash y"
  have b: "(of_nat (of_char a) :: byte) = of_nat (of_char b) \<Longrightarrow> a = b" for a b :: char
  proof -
    assume h: "(of_nat (of_char a) :: byte) = of_nat (of_char b)"
    have "of_char a < (256 :: nat)" "of_char b < (256 :: nat)" by simp_all
    with arg_cong[OF h, of unat] have "(of_char a :: nat) = of_char b" by (simp add: unat_of_nat)
    then show "a = b" by simp
  qed
  have "DecodeString (EncodeToString (map (\<lambda>c. of_nat (of_char c)) x)) = DecodeString (EncodeToString (map (\<lambda>c. of_nat (of_char c)) y))"
    using h by (simp add: demo_hash_def)
  then have "map (\<lambda>c. of_nat (of_char c) :: byte) x = map (\<lambda>c. of_nat (of_char c)) y" by simp
  then show "x = y" using b by (metis (no_types, lifting) inj_map_eq_map injI)
qed

lemma demo_hash_form: "demo_hash x \<noteq> [] \<and> set (demo_hash x) \<subseteq> hex_digits"
proof
  show "demo_hash x \<noteq> []" unfolding demo_hash_def by simp
  have "CHR ''0'' \<in> hex_digits" by code_simp
  moreover have "set (demo_hash x) = insert (CHR ''0'') (set (EncodeToString (map (\<lambda>c. of_nat (of_char c)) x)))"
    unfolding demo_hash_def append_Cons append_Nil by (rule list.set(2))
  ultimately show "set (demo_hash x) \<subseteq> hex_digits" using set_EncodeToString by (simp only: insert_subset)
qed

lemma demo_hash_ok: "hash_ok demo_hash S"
  unfolding hash_ok_def by (intro conjI allI inj_onI demo_hash_form[THEN conjunct1] demo_hash_form[THEN conjunct2]) (rule demo_hash_eq)

theorem conditional_requests_never_match_witness:
  "let c = \<lparr>er_method = ''GET'', er_path = ''/plans'', er_query = '''', er_user = None, er_if_none_match = '''', er_if_match = ''''\<rparr>;
       t = 1700000000 * second
   in \<exists>tag. ContentBasedETagMiddleware demo_hash t c (200, ''[]'') etagGenerator = Some tag
     \<and> fst (ETagValidationMiddleware demo_hash t t (c\<lparr>er_if_none_match := tag\<rparr>) etagGenerator) = PassedOn"
proof -
  let ?c = "\<lparr>er_method = ''GET'', er_path = ''/plans'', er_query = '''', er_user = None, er_if_none_match = '''', er_if_match = ''''\<rparr>"
  let ?t = "1700000000 * second"
  let ?tag = "generateContentETag demo_hash ?t ?c ''[]'' etagGenerator"
  have tag: "ContentBasedETagMiddleware demo_hash ?t ?c (200, ''[]'') etagGenerator = Some ?tag"
    by (simp add: ContentBasedETagMiddleware_def)
  have "ten_digits ?t" unfolding ten_digits_def by code_simp
  moreover have "cached_for demo_hash (?c\<lparr>er_if_none_match := ?tag\<rparr>) etagGenerator"
    by (simp add: cached_for_def etagGenerator_def NewETagGenerator_def)
  ultimately have "fst (ETagValidationMiddleware demo_hash ?t ?t (?c\<lparr>er_if_none_match := ?tag\<rparr>) etagGenerator) = PassedOn"
    by (intro conditional_requests_never_match[OF demo_hash_ok tag]) simp_all
  with tag show ?thesis unfolding Let_def by blast
qed

theorem if_match_protects_nothing_witness:
  "ETagValidationMiddleware demo_hash 0 0 \<lparr>er_method = ''PUT'', er_path = ''/p'', er_query = '''', er_user = None, er_if_none_match = '''', er_if_match = ''old''\<rparr> etagGenerator
     = (PassedOn, etagGenerator)"
  by (rule if_match_protects_nothing) simp

end
