(* ===== verification/Exchange.thy ===== *)
theory Exchange
  imports Prelude Float64
begin

text \<open>
  The exchange rates in memory (\<open>apps/carrier-connector/internal/currency/exchange_rates.go\<close>):
  default rates, their refresh from a provider once they are older than the time to live, and
  conversions through the base currency. The web is a parameter, with the two decoders of JSON
  bodies. A method is one step: what the code does under its lock.
\<close>

type_synonym RateProviderType = string

abbreviation ProviderOpenExchange :: RateProviderType where "ProviderOpenExchange \<equiv> ''openexchangerates''"
abbreviation ProviderFixer :: RateProviderType where "ProviderFixer \<equiv> ''fixer''"
abbreviation ProviderXE :: RateProviderType where "ProviderXE \<equiv> ''xe''"
abbreviation ProviderInternal :: RateProviderType where "ProviderInternal \<equiv> ''internal''"

record ExchangeRateConfig =
  xc_Provider :: RateProviderType
  xc_APIKey :: string
  xc_BaseCurrency :: string
  xc_CacheTTL :: duration

record RealTimeExchangeService =
  xs_provider :: RateProviderType
  xs_apiKey :: string
  xs_baseCurrency :: string
  xs_rates :: "string \<rightharpoonup> f64"
  xs_lastUpdate :: time
  xs_cacheTTL :: duration

datatype rate_error = UnknownCurrency string | UnsupportedProvider string | WebError string | BadStatus int | ProviderRefused

text \<open>The web: the answer to a request, and the bodies the two providers send.\<close>

record web =
  web_get :: "string \<Rightarrow> string + int \<times> string"
  web_rates :: "string \<Rightarrow> string + (string \<rightharpoonup> f64)"
  web_fixer :: "string \<Rightarrow> string + bool \<times> (string \<rightharpoonup> f64)"

definition default_rates :: "string \<rightharpoonup> f64" where
  "default_rates = map_of (map (\<lambda>(c, r). (c, f64_lit r))
     [(''USD'', 1), (''EUR'', 92/100), (''GBP'', 79/100), (''JPY'', 14950/100), (''CNY'', 724/100), (''INR'', 8312/100),
      (''BRL'', 497/100), (''CAD'', 136/100), (''AUD'', 153/100), (''CHF'', 88/100), (''SGD'', 134/100), (''HKD'', 782/100),
      (''KRW'', 1320), (''MXN'', 1715/100), (''ZAR'', 1850/100)])"

definition initDefaultRates :: "time \<Rightarrow> RealTimeExchangeService \<Rightarrow> RealTimeExchangeService" where
  "initDefaultRates now s = s\<lparr>xs_rates := default_rates, xs_lastUpdate := now\<rparr>"

definition NewRealTimeExchangeService :: "time \<Rightarrow> ExchangeRateConfig \<Rightarrow> RealTimeExchangeService" where
  "NewRealTimeExchangeService now config =
     initDefaultRates now \<lparr>xs_provider = xc_Provider config, xs_apiKey = xc_APIKey config,
       xs_baseCurrency = (if xc_BaseCurrency config = '''' then ''USD'' else xc_BaseCurrency config),
       xs_rates = Map.empty, xs_lastUpdate = zero_time,
       xs_cacheTTL = (if xc_CacheTTL config = 0 then 15 * minute else xc_CacheTTL config)\<rparr>"

definition fetchOpenExchangeRates :: "web \<Rightarrow> RealTimeExchangeService \<Rightarrow> rate_error option \<times> RealTimeExchangeService" where
  "fetchOpenExchangeRates w s =
     (case web_get w (''https://openexchangerates.org/api/latest.json?app_id='' @ xs_apiKey s @ ''&base='' @ xs_baseCurrency s) of
        Inl e \<Rightarrow> (Some (WebError e), s)
      | Inr (status, body) \<Rightarrow>
          if status \<noteq> 200 then (Some (BadStatus status), s)
          else (case web_rates w body of
              Inl e \<Rightarrow> (Some (WebError e), s)
            | Inr rates \<Rightarrow> (None, s\<lparr>xs_rates := xs_rates s ++ rates\<rparr>)))"

definition fetchFixerRates :: "web \<Rightarrow> RealTimeExchangeService \<Rightarrow> rate_error option \<times> RealTimeExchangeService" where
  "fetchFixerRates w s =
     (case web_get w (''http://data.fixer.io/api/latest?access_key='' @ xs_apiKey s @ ''&base='' @ xs_baseCurrency s) of
        Inl e \<Rightarrow> (Some (WebError e), s)
      | Inr (status, body) \<Rightarrow>
          (case web_fixer w body of
              Inl e \<Rightarrow> (Some (WebError e), s)
            | Inr (success, rates) \<Rightarrow>
                if \<not> success then (Some ProviderRefused, s) else (None, s\<lparr>xs_rates := xs_rates s ++ rates\<rparr>)))"

definition RefreshRates :: "web \<Rightarrow> time \<Rightarrow> RealTimeExchangeService \<Rightarrow> rate_error option \<times> RealTimeExchangeService" where
  "RefreshRates w now s =
     (if xs_provider s = ProviderInternal then (None, s)
      else
        let (err, s') =
              (if xs_provider s = ProviderOpenExchange then fetchOpenExchangeRates w s
               else if xs_provider s = ProviderFixer then fetchFixerRates w s
               else (Some (UnsupportedProvider (xs_provider s)), s))
        in case err of Some e \<Rightarrow> (Some e, s') | None \<Rightarrow> (None, s'\<lparr>xs_lastUpdate := now\<rparr>))"

text \<open>A failed refresh is only logged; the rates in memory are used.\<close>

definition GetRate :: "web \<Rightarrow> (nat \<Rightarrow> time) \<Rightarrow> string \<Rightarrow> string \<Rightarrow> RealTimeExchangeService \<Rightarrow> (rate_error + f64) \<times> RealTimeExchangeService" where
  "GetRate w now fromC toC s =
     (let s1 = (if xs_cacheTTL s < time_sub (now 0) (xs_lastUpdate s) then snd (RefreshRates w (now 1) s) else s)
      in (case xs_rates s1 fromC of
            None \<Rightarrow> Inl (UnknownCurrency fromC)
          | Some fromRate \<Rightarrow>
              (case xs_rates s1 toC of
                 None \<Rightarrow> Inl (UnknownCurrency toC)
               | Some toRate \<Rightarrow> Inr (f64_div toRate fromRate)), s1))"

definition Convert :: "web \<Rightarrow> (nat \<Rightarrow> time) \<Rightarrow> f64 \<Rightarrow> string \<Rightarrow> string \<Rightarrow> RealTimeExchangeService \<Rightarrow> (rate_error + f64) \<times> RealTimeExchangeService" where
  "Convert w now amt fromC toC s =
     (case GetRate w now fromC toC s of
        (Inl e, s') \<Rightarrow> (Inl e, s')
      | (Inr rate, s') \<Rightarrow> (Inr (f64_mul amt rate), s'))"

definition GetAllRates :: "RealTimeExchangeService \<Rightarrow> (string \<rightharpoonup> f64)" where
  "GetAllRates s = xs_rates s"

definition GetSupportedCurrencies :: "string list \<Rightarrow> RealTimeExchangeService \<Rightarrow> string list" where
  "GetSupportedCurrencies ks s = filter (\<lambda>c. xs_rates s c \<noteq> None) ks"

definition LastUpdateTime :: "RealTimeExchangeService \<Rightarrow> time" where
  "LastUpdateTime s = xs_lastUpdate s"

section \<open>Properties\<close>

inductive exchange_step :: "RealTimeExchangeService \<Rightarrow> RealTimeExchangeService \<Rightarrow> bool" where
  Refresh: "exchange_step s (snd (RefreshRates w t s))"
| Convert: "exchange_step s (snd (Convert w now amt a b s))"

inductive exchange_reachable :: "RealTimeExchangeService \<Rightarrow> RealTimeExchangeService \<Rightarrow> bool" for s0 where
  Start: "exchange_reachable s0 s0"
| Step: "exchange_reachable s0 s \<Longrightarrow> exchange_step s s' \<Longrightarrow> exchange_reachable s0 s'"

lemma refresh_keeps: "dom (xs_rates s) \<subseteq> dom (xs_rates (snd (RefreshRates w t s)))"
  by (auto simp: RefreshRates_def fetchOpenExchangeRates_def fetchFixerRates_def Let_def
      split: option.splits prod.splits sum.splits if_splits)

lemma get_rate_state: "snd (GetRate w now a b s) = s \<or> snd (GetRate w now a b s) = snd (RefreshRates w (now 1) s)"
  by (simp add: GetRate_def Let_def)

lemma convert_state: "snd (Convert w now amt a b s) = snd (GetRate w now a b s)"
  by (simp add: Convert_def split: prod.split sum.split)

lemma reachable_keeps: "exchange_reachable s0 s \<Longrightarrow> dom (xs_rates s0) \<subseteq> dom (xs_rates s)"
proof (induction rule: exchange_reachable.induct)
  case (Step s s')
  from Step.hyps(2) have "dom (xs_rates s) \<subseteq> dom (xs_rates s')"
  proof cases
    case (Convert w now amt a b)
    have "dom (xs_rates s) \<subseteq> dom (xs_rates (snd (GetRate w now a b s)))"
      using get_rate_state[of w now a b s] refresh_keeps[of s w] by (metis order_refl)
    then show ?thesis by (simp add: Convert convert_state)
  qed (use refresh_keeps in auto)
  then show ?case using Step.IH by blast
qed simp

definition default_currencies :: "string list" where
  "default_currencies = [''USD'', ''EUR'', ''GBP'', ''JPY'', ''CNY'', ''INR'', ''BRL'', ''CAD'', ''AUD'', ''CHF'', ''SGD'', ''HKD'',
     ''KRW'', ''MXN'', ''ZAR'']"

lemma default_rates_dom: "set default_currencies \<subseteq> dom default_rates"
  by (simp add: default_rates_def default_currencies_def)

text \<open>Conversions between the default currencies never fail, whatever the provider answers, at
  any time and after any refreshes: a failed refresh falls back on the rates in memory, and a refresh
  never forgets a currency.\<close>

theorem default_currencies_convert:
  assumes "exchange_reachable (NewRealTimeExchangeService t config) s" and "a \<in> set default_currencies" and "b \<in> set default_currencies"
  shows "\<exists>rate. fst (Convert w now amt a b s) = Inr (f64_mul amt rate) \<and> fst (GetRate w now a b s) = Inr rate"
proof -
  have "xs_rates (NewRealTimeExchangeService t config) = default_rates"
    by (simp add: NewRealTimeExchangeService_def initDefaultRates_def)
  then have "set default_currencies \<subseteq> dom (xs_rates s)" using reachable_keeps[OF assms(1)] default_rates_dom by auto
  moreover have "dom (xs_rates s) \<subseteq> dom (xs_rates (if xs_cacheTTL s < time_sub (now 0) (xs_lastUpdate s) then snd (RefreshRates w (now 1) s) else s))"
    using refresh_keeps by simp
  ultimately obtain x y where
    "xs_rates (if xs_cacheTTL s < time_sub (now 0) (xs_lastUpdate s) then snd (RefreshRates w (now 1) s) else s) a = Some x"
    "xs_rates (if xs_cacheTTL s < time_sub (now 0) (xs_lastUpdate s) then snd (RefreshRates w (now 1) s) else s) b = Some y"
    using assms(2,3) by blast
  then show ?thesis by (simp add: Convert_def GetRate_def Let_def)
qed

definition dead_web :: web where
  "dead_web = \<lparr>web_get = (\<lambda>_. Inl ''no route''), web_rates = (\<lambda>_. Inl ''''), web_fixer = (\<lambda>_. Inl '''')\<rparr>"

theorem default_currencies_convert_witness:
  "\<exists>rate. fst (Convert dead_web (\<lambda>_. 99 * hour) (f64_lit 10) ''EUR'' ''ZAR''
      (NewRealTimeExchangeService 0 \<lparr>xc_Provider = ''fixer'', xc_APIKey = '''', xc_BaseCurrency = '''', xc_CacheTTL = 0\<rparr>)) = Inr (f64_mul (f64_lit 10) rate)"
  using default_currencies_convert[OF exchange_reachable.Start, of "''EUR''" "''ZAR''" dead_web] by (fastforce simp: default_currencies_def)

text \<open>With the internal provider the time of the last update never changes, so once the rates have
  expired every call asks for a refresh again; the provider XE is accepted and never fetched.\<close>

lemma internal_never_updates: "xs_provider s = ProviderInternal \<Longrightarrow> RefreshRates w now s = (None, s)"
  by (simp add: RefreshRates_def)

lemma xe_never_fetched: "xs_provider s = ProviderXE \<Longrightarrow> RefreshRates w now s = (Some (UnsupportedProvider ProviderXE), s)"
  by (simp add: RefreshRates_def)

text \<open>The rates of a provider are not checked for plausibility: a rate of zero makes conversions from
  that currency infinite.\<close>

lemma zero_rate_infinite:
  assumes "xs_rates s a = Some (f64_lit 0)" "xs_rates s b = Some (f64_lit 1)" "\<not> xs_cacheTTL s < time_sub (now 0) (xs_lastUpdate s)"
  shows "fst (GetRate w now a b s) = Inr (Inf False)"
  using assms by (simp add: GetRate_def f64_lit_def rep64_round f64_round_0)

end
