(* ===== verification/Fraud.thy ===== *)
theory Fraud
  imports Go_Any Calendar "HOL-Library.Sublist"
begin

text \<open>
  The detection of fraud (\<open>apps/carrier-connector/internal/security\<close>: \<open>fraud_service.go\<close>,
  \<open>fraud_types.go\<close>): the patterns, the analysis of a transaction, its alert, the status and the metrics of
  alerts. The four counting queries of the database and the update that blocks a profile are parameters; a
  query that fails counts 0. Times are in UTC, the log is not modelled.
\<close>

section \<open>Types\<close>

type_synonym FraudType = string
type_synonym FraudSeverity = string

abbreviation FraudTypeAccountTakeover :: FraudType where "FraudTypeAccountTakeover \<equiv> ''account_takeover''"
abbreviation FraudTypeSubscriptionFraud :: FraudType where "FraudTypeSubscriptionFraud \<equiv> ''subscription_fraud''"
abbreviation FraudTypePaymentFraud :: FraudType where "FraudTypePaymentFraud \<equiv> ''payment_fraud''"
abbreviation FraudTypeUsageAnomaly :: FraudType where "FraudTypeUsageAnomaly \<equiv> ''usage_anomaly''"
abbreviation FraudTypeSIMSwap :: FraudType where "FraudTypeSIMSwap \<equiv> ''sim_swap''"
abbreviation FraudSeverityLow :: FraudSeverity where "FraudSeverityLow \<equiv> ''low''"
abbreviation FraudSeverityMedium :: FraudSeverity where "FraudSeverityMedium \<equiv> ''medium''"
abbreviation FraudSeverityHigh :: FraudSeverity where "FraudSeverityHigh \<equiv> ''high''"
abbreviation FraudSeverityCritical :: FraudSeverity where "FraudSeverityCritical \<equiv> ''critical''"

record FraudAlert =
  fa_ID :: string
  fa_Type :: FraudType
  fa_Severity :: FraudSeverity
  fa_ProfileID :: string
  fa_Description :: string
  fa_RiskScore :: f64
  fa_Evidence :: "string list"
  fa_IPAddress :: string
  fa_Timestamp :: time
  fa_Status :: string
  fa_Actions :: "string list"

record FraudPattern =
  fp_ID :: string
  fp_Name :: string
  fp_Type :: FraudType
  fp_Threshold :: f64
  fp_Weight :: f64
  fp_Enabled :: bool

record FraudMetrics =
  fm_Period :: string
  fm_TotalAlerts :: int
  fm_ResolvedAlerts :: int
  fm_FalsePositives :: int
  fm_ResolutionRate :: f64
  fm_FalsePositiveRate :: f64
  fm_ByType :: "FraudType \<rightharpoonup> int"
  fm_BySeverity :: "FraudSeverity \<rightharpoonup> int"
  fm_GeneratedAt :: time

record FraudAlertFilter =
  ff_Type :: FraudType
  ff_Severity :: FraudSeverity
  ff_Status :: string
  ff_FromDate :: "time option"
  ff_ToDate :: "time option"

definition DefaultFraudPatterns :: "FraudPattern list" where
  "DefaultFraudPatterns =
     [\<lparr>fp_ID = ''multiple_subs'', fp_Name = ''Multiple Subscriptions'', fp_Type = FraudTypeSubscriptionFraud, fp_Threshold = f64_lit 3, fp_Weight = f64_lit (3 / 10), fp_Enabled = True\<rparr>,
      \<lparr>fp_ID = ''rapid_sub'', fp_Name = ''Rapid Subscription'', fp_Type = FraudTypeSubscriptionFraud, fp_Threshold = f64_lit 5, fp_Weight = f64_lit (4 / 10), fp_Enabled = True\<rparr>,
      \<lparr>fp_ID = ''unusual_loc'', fp_Name = ''Unusual Location'', fp_Type = FraudTypeAccountTakeover, fp_Threshold = f64_lit (8 / 10), fp_Weight = f64_lit (5 / 10), fp_Enabled = True\<rparr>,
      \<lparr>fp_ID = ''usage_spike'', fp_Name = ''Usage Spike'', fp_Type = FraudTypeUsageAnomaly, fp_Threshold = f64_lit 1000, fp_Weight = f64_lit (3 / 10), fp_Enabled = True\<rparr>,
      \<lparr>fp_ID = ''payment_fail'', fp_Name = ''Payment Failures'', fp_Type = FraudTypePaymentFraud, fp_Threshold = f64_lit 3, fp_Weight = f64_lit (6 / 10), fp_Enabled = True\<rparr>,
      \<lparr>fp_ID = ''sim_swap'', fp_Name = ''SIM Swap'', fp_Type = FraudTypeSIMSwap, fp_Threshold = f64_lit (7 / 10), fp_Weight = f64_lit (8 / 10), fp_Enabled = True\<rparr>]"

definition SeverityFromScore :: "f64 \<Rightarrow> FraudSeverity" where
  "SeverityFromScore score = (if f64_ge score (f64_lit 80) then FraudSeverityCritical
     else if f64_ge score (f64_lit 60) then FraudSeverityHigh
     else if f64_ge score (f64_lit 40) then FraudSeverityMedium else FraudSeverityLow)"

section \<open>Analysis\<close>

record 's fraud_db =
  fd_active :: "string \<Rightarrow> 's \<Rightarrow> int"
  fd_created_after :: "string \<Rightarrow> time \<Rightarrow> 's \<Rightarrow> int"
  fd_failed_after :: "string \<Rightarrow> time \<Rightarrow> 's \<Rightarrow> int"
  fd_profiles_updated :: "string \<Rightarrow> time \<Rightarrow> 's \<Rightarrow> int"
  fd_block :: "string \<Rightarrow> time \<Rightarrow> 's \<Rightarrow> 's"

definition containsAt :: "string \<Rightarrow> string \<Rightarrow> bool" where
  "containsAt s substr \<longleftrightarrow> list_ex (\<lambda>i. take (length substr) (drop i s) = substr) [0..<Suc (length s) - length substr]"

definition contains :: "string \<Rightarrow> string \<Rightarrow> bool" where
  "contains s substr \<longleftrightarrow> length substr \<le> length s \<and> (s = substr \<or> 0 < length s \<and> containsAt s substr)"

definition checkPattern :: "'s fraud_db \<Rightarrow> time \<Rightarrow> string \<Rightarrow> FraudPattern \<Rightarrow> 's \<Rightarrow> f64 \<times> string list" where
  "checkPattern db now profile p s =
     (if fp_ID p = ''multiple_subs'' then
        (let count = fd_active db profile s in
         if f64_to_int (fp_Threshold p) < count
         then (f64_mul (f64_of_int count) (f64_lit 20), [show_int count @ '' active subscriptions'']) else (f64_lit 0, []))
      else if fp_ID p = ''rapid_sub'' then
        (let count = fd_created_after db profile (now - hour) s in
         if f64_to_int (fp_Threshold p) < count
         then (f64_mul (f64_of_int count) (f64_lit 15), [show_int count @ '' subscriptions in last hour'']) else (f64_lit 0, []))
      else if fp_ID p = ''payment_fail'' then
        (let count = fd_failed_after db profile (now - 24 * hour) s in
         if f64_to_int (fp_Threshold p) < count
         then (f64_mul (f64_of_int count) (f64_lit 25), [show_int count @ '' payment failures'']) else (f64_lit 0, []))
      else if fp_ID p = ''sim_swap'' then
        (let count = fd_profiles_updated db profile (now - hour) s in
         if 2 < count then (f64_lit 80, [''possible SIM swap detected'']) else (f64_lit 0, []))
      else (f64_lit 0, []))"

definition add_pattern :: "'s fraud_db \<Rightarrow> time \<Rightarrow> string \<Rightarrow> 's \<Rightarrow> FraudPattern \<Rightarrow> f64 \<times> string list \<Rightarrow> f64 \<times> string list" where
  "add_pattern db now profile s p acc =
     (if \<not> fp_Enabled p then acc
      else case checkPattern db now profile p s of (ps, ev) \<Rightarrow>
        if f64_gt ps (f64_lit 0) then (f64_add (fst acc) (f64_mul ps (fp_Weight p)), snd acc @ ev) else acc)"

definition evaluatePatterns :: "'s fraud_db \<Rightarrow> time \<Rightarrow> FraudPattern list \<Rightarrow> string \<Rightarrow> 's \<Rightarrow> f64 \<times> string list" where
  "evaluatePatterns db now patterns profile s =
     (if profile = '''' then (f64_lit 0, []) else fold (add_pattern db now profile s) patterns (f64_lit 0, []))"

fun detectType :: "string list \<Rightarrow> FraudType" where
  "detectType [] = FraudTypeSubscriptionFraud"
| "detectType (e # es) =
     (if contains e ''subscription'' then FraudTypeSubscriptionFraud
      else if contains e ''payment'' then FraudTypePaymentFraud
      else if contains e ''SIM'' then FraudTypeSIMSwap
      else detectType es)"

definition text_of :: "(string \<rightharpoonup> go_any) \<Rightarrow> string \<Rightarrow> string" where
  "text_of tx k = (case Option.bind (tx k) any_string of None \<Rightarrow> '''' | Some v \<Rightarrow> v)"

definition blockProfile :: "'s fraud_db \<Rightarrow> time \<Rightarrow> string \<Rightarrow> 's \<Rightarrow> 's" where
  "blockProfile db now profile s = fd_block db profile now s"

text \<open>The alert of a transaction; its metadata is the empty map and left out.\<close>

definition new_alert :: "'s fraud_db \<Rightarrow> (nat \<Rightarrow> time) \<Rightarrow> FraudPattern list \<Rightarrow> (string \<rightharpoonup> go_any) \<Rightarrow> 's \<Rightarrow> FraudAlert" where
  "new_alert db now patterns tx s =
     (case evaluatePatterns db (now 2) patterns (text_of tx ''profile_id'') s of (score, evidence) \<Rightarrow>
        let risk = f64_min (f64_lit 100) score; severity = SeverityFromScore risk; ty = detectType evidence
        in \<lparr>fa_ID = ''fraud-'' @ show_int (now 0), fa_Type = ty, fa_Severity = severity, fa_ProfileID = text_of tx ''profile_id'',
            fa_Description = severity @ '' '' @ ty @ '' fraud detected'', fa_RiskScore = risk, fa_Evidence = evidence,
            fa_IPAddress = text_of tx ''ip_address'', fa_Timestamp = now 1, fa_Status = ''new'',
            fa_Actions = (if f64_ge risk (f64_lit 80) then [''auto_blocked'']
                          else if f64_ge risk (f64_lit 60) then [''flagged_for_review''] else [])\<rparr>)"

definition AnalyzeTransaction ::
  "'s fraud_db \<Rightarrow> (nat \<Rightarrow> time) \<Rightarrow> FraudPattern list \<Rightarrow> (string \<rightharpoonup> go_any) \<Rightarrow> FraudAlert list \<Rightarrow> 's \<Rightarrow> FraudAlert \<times> FraudAlert list \<times> 's" where
  "AnalyzeTransaction db now patterns tx alerts s =
     (let a = new_alert db now patterns tx s;
          s' = (if f64_ge (fa_RiskScore a) (f64_lit 80) then blockProfile db (now 3) (fa_ProfileID a) s else s)
      in (a, alerts @ [a], s'))"

section \<open>Alerts\<close>

definition matchesFilter :: "FraudAlert \<Rightarrow> FraudAlertFilter \<Rightarrow> bool" where
  "matchesFilter a f \<longleftrightarrow> (ff_Type f \<noteq> '''' \<longrightarrow> fa_Type a = ff_Type f) \<and> (ff_Severity f \<noteq> '''' \<longrightarrow> fa_Severity a = ff_Severity f)
     \<and> (ff_Status f \<noteq> '''' \<longrightarrow> fa_Status a = ff_Status f)
     \<and> pred_option (\<lambda>t. t \<le> fa_Timestamp a) (ff_FromDate f) \<and> pred_option (\<lambda>t. fa_Timestamp a \<le> t) (ff_ToDate f)"

definition GetFraudAlerts :: "FraudAlertFilter \<Rightarrow> FraudAlert list \<Rightarrow> FraudAlert list" where
  "GetFraudAlerts f alerts = filter (\<lambda>a. matchesFilter a f) alerts"

fun UpdateAlertStatus :: "string \<Rightarrow> string \<Rightarrow> string list \<Rightarrow> FraudAlert list \<Rightarrow> FraudAlert list option" where
  "UpdateAlertStatus i status actions [] = None"
| "UpdateAlertStatus i status actions (a # as) =
     (if fa_ID a = i then Some (a\<lparr>fa_Status := status, fa_Actions := fa_Actions a @ actions\<rparr> # as)
      else map_option ((#) a) (UpdateAlertStatus i status actions as))"

definition fraudPeriodDates :: "time \<Rightarrow> string \<Rightarrow> time \<times> time" where
  "fraudPeriodDates now period =
     (if period = ''daily'' then (now - now mod day, now)
      else if period = ''weekly'' then (AddDate 0 0 0 (- 7) now, now)
      else if period = ''monthly'' then (AddDate 0 0 (- 1) 0 now, now)
      else (AddDate 0 0 (- 1) 0 now, now))"

definition bump :: "'k \<Rightarrow> ('k \<rightharpoonup> int) \<Rightarrow> ('k \<rightharpoonup> int)" where
  "bump k m = m(k \<mapsto> (case m k of None \<Rightarrow> 0 | Some n \<Rightarrow> n) + 1)"

definition count_alert :: "FraudAlert \<Rightarrow> FraudMetrics \<Rightarrow> FraudMetrics" where
  "count_alert a m = m\<lparr>fm_TotalAlerts := fm_TotalAlerts m + 1, fm_ByType := bump (fa_Type a) (fm_ByType m),
     fm_BySeverity := bump (fa_Severity a) (fm_BySeverity m),
     fm_ResolvedAlerts := (if fa_Status a = ''resolved'' then fm_ResolvedAlerts m + 1 else fm_ResolvedAlerts m),
     fm_FalsePositives := (if fa_Status a = ''false_positive'' then fm_FalsePositives m + 1 else fm_FalsePositives m)\<rparr>"

definition in_period :: "time \<times> time \<Rightarrow> FraudAlert \<Rightarrow> bool" where
  "in_period p a \<longleftrightarrow> fst p < fa_Timestamp a \<and> fa_Timestamp a < snd p"

definition rate_of :: "int \<Rightarrow> int \<Rightarrow> f64" where
  "rate_of a n = f64_mul (f64_div (f64_of_int a) (f64_of_int n)) (f64_lit 100)"

definition GetFraudMetrics :: "(nat \<Rightarrow> time) \<Rightarrow> string \<Rightarrow> FraudAlert list \<Rightarrow> FraudMetrics" where
  "GetFraudMetrics now period alerts =
     (let m = fold count_alert (filter (in_period (fraudPeriodDates (now 0) period)) alerts)
        \<lparr>fm_Period = period, fm_TotalAlerts = 0, fm_ResolvedAlerts = 0, fm_FalsePositives = 0, fm_ResolutionRate = f64_lit 0,
         fm_FalsePositiveRate = f64_lit 0, fm_ByType = Map.empty, fm_BySeverity = Map.empty, fm_GeneratedAt = now 1\<rparr>
      in if 0 < fm_TotalAlerts m
         then m\<lparr>fm_ResolutionRate := rate_of (fm_ResolvedAlerts m) (fm_TotalAlerts m),
                fm_FalsePositiveRate := rate_of (fm_FalsePositives m) (fm_TotalAlerts m)\<rparr>
         else m)"

text \<open>One tick of the cleanup, every 24 hours.\<close>

definition cleanupAlerts :: "time \<Rightarrow> int \<Rightarrow> FraudAlert list \<Rightarrow> FraudAlert list" where
  "cleanupAlerts now days alerts = filter (\<lambda>a. AddDate 0 0 0 (- days) now < fa_Timestamp a) alerts"

section \<open>Scores\<close>

lemma contains_chars: "contains s sub \<Longrightarrow> set sub \<subseteq> set s"
  by (auto simp: contains_def containsAt_def list_ex_iff) (metis in_set_dropD in_set_takeD)+

lemma finite_share: "0 \<le> r \<Longrightarrow> r \<le> 1 \<Longrightarrow> f64_finite (f64_lit r) \<and> amount (f64_lit r)"
  using f64_in_lit[of 0 1 r] amount_lit[of r] by (cases "f64_lit r") simp_all

lemma count_amount:
  assumes "0 \<le> n" "n \<le> max_i64" "0 \<le> k" "k \<le> 100" "rep64 k"
  shows "amount (f64_mul (f64_of_int n) (f64_lit k)) \<and> f64_finite (f64_mul (f64_of_int n) (f64_lit k))"
proof -
  have le: "(of_int n :: rat) \<le> of_int max_i64" using assms(2) by (simp only: of_int_le_iff)
  have p: "rep64 (2 ^ 63)" by (rule rep64_pow2) simp
  have "f64_in 0 (2 ^ 63) (f64_of_int n)" by (rule f64_in_of_int[OF rep64_0 p]) (use assms(1) le in auto)
  moreover have p7: "rep64 (2 ^ 63 * 2 ^ 7)" using rep64_pow2[of 70] by simp
  moreover have "f64_in 0 (2 ^ 7) (f64_lit k)" using assms by (intro f64_in_lit rep64_pow2) auto
  ultimately have "f64_in (0 * 0) (2 ^ 63 * 2 ^ 7) (f64_mul (f64_of_int n) (f64_lit k))"
    using p7 by (intro f64_in_mul) simp_all
  then have fin: "f64_finite (f64_mul (f64_of_int n) (f64_lit k))" by (auto dest: f64_in_fin)
  have "amount (f64_of_int n)" "amount (f64_lit k)" using assms by simp_all
  moreover have "f64_finite (f64_of_int n)" "f64_finite (f64_lit k)"
    using \<open>f64_in 0 (2 ^ 63) (f64_of_int n)\<close> \<open>f64_in 0 (2 ^ 7) (f64_lit k)\<close> by (auto dest: f64_in_fin)
  ultimately show ?thesis using fin by simp
qed

text \<open>Counts are counts.\<close>

definition counts :: "'s fraud_db \<Rightarrow> bool" where
  "counts db \<longleftrightarrow> (\<forall>p t s. {fd_active db p s, fd_created_after db p t s, fd_failed_after db p t s, fd_profiles_updated db p t s} \<subseteq> {0..max_i64})"

lemma pattern_amount:
  assumes "counts db"
  shows "amount (fst (checkPattern db now profile p s)) \<and> f64_finite (fst (checkPattern db now profile p s))"
proof -
  have c: "0 \<le> fd_active db profile s" "fd_active db profile s \<le> max_i64" "0 \<le> fd_created_after db profile t s" "fd_created_after db profile t s \<le> max_i64"
    "0 \<le> fd_failed_after db profile t s" "fd_failed_after db profile t s \<le> max_i64" for t
    using assms by (auto simp: counts_def)
  have "amount (f64_lit 80) \<and> f64_finite (f64_lit 80)" by (simp add: f64_lit_numeral)
  then show ?thesis using c count_amount[of _ 20] count_amount[of _ 15] count_amount[of _ 25]
    by (simp add: checkPattern_def Let_def f64_lit_0)
qed

lemma score_amount:
  assumes "counts db" "\<forall>p \<in> set ps. amount (fp_Weight p) \<and> f64_finite (fp_Weight p)" "amount (fst acc)"
  shows "amount (fst (fold (add_pattern db now profile s) ps acc))"
  using assms(2,3)
proof (induction ps arbitrary: acc)
  case (Cons p ps)
  have "amount (fst (add_pattern db now profile s p acc))"
    using Cons.prems pattern_amount[OF assms(1), of now profile p s] by (auto simp: add_pattern_def split: prod.splits)
  then show ?case using Cons by simp
qed simp

lemma default_weights: "\<forall>p \<in> set DefaultFraudPatterns. amount (fp_Weight p) \<and> f64_finite (fp_Weight p)"
  by (simp add: DefaultFraudPatterns_def finite_share)

lemma risk_percentage: "amount x \<Longrightarrow> f64_in 0 100 (f64_min (f64_lit 100) x)"
  by (cases x) (auto simp: f64_min_def f64_lit_numeral)

text \<open>Every analysed transaction becomes an alert, also one without any evidence, with a risk score
  between 0 and 100; its profile is blocked exactly when the score is at least 80.\<close>

theorem every_transaction_alerts:
  assumes "counts db" and "AnalyzeTransaction db now DefaultFraudPatterns tx alerts s = (a, alerts', s')"
  shows "alerts' = alerts @ [a] \<and> f64_in 0 100 (fa_RiskScore a) \<and> fa_ProfileID a = text_of tx ''profile_id''
    \<and> s' = (if f64_ge (fa_RiskScore a) (f64_lit 80) then fd_block db (text_of tx ''profile_id'') (now 3) s else s)
    \<and> (''auto_blocked'' \<in> set (fa_Actions a) \<longleftrightarrow> f64_ge (fa_RiskScore a) (f64_lit 80))"
proof -
  have a: "a = new_alert db now DefaultFraudPatterns tx s" "alerts' = alerts @ [a]"
    "s' = (if f64_ge (fa_RiskScore a) (f64_lit 80) then fd_block db (fa_ProfileID a) (now 3) s else s)"
    using assms(2) by (auto simp: AnalyzeTransaction_def blockProfile_def Let_def)
  have "amount (fst (evaluatePatterns db (now 2) DefaultFraudPatterns (text_of tx ''profile_id'') s))"
    using score_amount[OF assms(1) default_weights, of "(f64_lit 0, [])" "now 2" "text_of tx ''profile_id''" s] by (simp add: evaluatePatterns_def)
  then have "f64_in 0 100 (fa_RiskScore a)"
    by (cases "evaluatePatterns db (now 2) DefaultFraudPatterns (text_of tx ''profile_id'') s")
      (simp add: a(1) new_alert_def Let_def risk_percentage)
  moreover have "fa_ProfileID a = text_of tx ''profile_id''" "''auto_blocked'' \<in> set (fa_Actions a) \<longleftrightarrow> f64_ge (fa_RiskScore a) (f64_lit 80)"
    by (simp_all add: a(1) new_alert_def Let_def split: prod.splits)
  ultimately show ?thesis using a by simp
qed

section \<open>Types of alerts\<close>

lemma digits_no_letter:
  assumes "0 \<le> n"
  shows "CHR ''S'' \<notin> set (show_int n)"
  using assms show_nat_digits[of n "CHR ''S''"] by (auto simp: show_int_def)

lemma no_sim: "CHR ''S'' \<notin> set e \<Longrightarrow> \<not> contains e ''SIM''"
  using contains_chars[of e "''SIM''"] by auto

lemma detect_no_sim: "\<forall>e \<in> set es. CHR ''S'' \<notin> set e \<Longrightarrow> detectType es \<noteq> FraudTypeSIMSwap"
  by (induction es) (auto simp: no_sim)

lemma evidence_no_sim:
  assumes "counts db" "\<forall>p t s. fd_profiles_updated db p t s \<le> 1"
  shows "\<forall>e \<in> set (snd (checkPattern db now profile p s)). CHR ''S'' \<notin> set e"
proof -
  have "\<not> 2 < fd_profiles_updated db profile (now - hour) s" using assms(2) by (metis not_numeral_less_one order.strict_trans2)
  moreover have "0 \<le> fd_active db profile s" "0 \<le> fd_created_after db profile (now - hour) s" "0 \<le> fd_failed_after db profile (now - 24 * hour) s"
    using assms(1) by (auto simp: counts_def)
  ultimately show ?thesis by (auto simp: checkPattern_def Let_def digits_no_letter)
qed

lemma fold_evidence:
  assumes "\<And>p. \<forall>e \<in> set (snd (checkPattern db now profile p s)). Q e" "\<forall>e \<in> set (snd acc). Q e"
  shows "\<forall>e \<in> set (snd (fold (add_pattern db now profile s) ps acc)). Q e"
  using assms(2)
proof (induction ps arbitrary: acc)
  case (Cons p ps)
  have "\<forall>e \<in> set (snd (add_pattern db now profile s p acc)). Q e"
    using Cons.prems assms(1)[of p] by (auto simp: add_pattern_def split: prod.splits)
  then show ?case using Cons.IH by simp
qed simp

text \<open>As the identifier is the primary key of the profiles, at most one profile has been updated:
  an exchange of SIM cards, which asks for more than two, is never detected.\<close>

theorem sim_swap_undetected:
  assumes "counts db" and "\<forall>p t s. fd_profiles_updated db p t s \<le> 1"
    and "AnalyzeTransaction db now patterns tx alerts s = (a, alerts', s')"
  shows "fa_Type a \<noteq> FraudTypeSIMSwap \<and> fa_Type a \<in> {FraudTypeSubscriptionFraud, FraudTypePaymentFraud}"
proof -
  let ?ev = "snd (evaluatePatterns db (now 2) patterns (text_of tx ''profile_id'') s)"
  have "\<forall>e \<in> set ?ev. CHR ''S'' \<notin> set e"
    using fold_evidence[OF evidence_no_sim[OF assms(1,2), of "now 2" "text_of tx ''profile_id''" _ s], of "(f64_lit 0, [])" patterns]
    by (simp add: evaluatePatterns_def)
  moreover have "fa_Type a = detectType ?ev"
    using assms(3) by (auto simp: AnalyzeTransaction_def new_alert_def Let_def split: prod.splits)
  moreover have "detectType es \<in> {FraudTypeSubscriptionFraud, FraudTypePaymentFraud, FraudTypeSIMSwap}" for es by (induction es) auto
  ultimately show ?thesis using detect_no_sim by fastforce
qed

section \<open>Metrics\<close>

definition tally :: "('k \<rightharpoonup> int) \<Rightarrow> 'k \<Rightarrow> int" where
  "tally m k = (case m k of None \<Rightarrow> 0 | Some n \<Rightarrow> n)"

lemma tally_bump: "tally (bump k m) j = tally m j + (if j = k then 1 else 0)"
  by (simp add: tally_def bump_def)

lemma fold_counts:
  "fm_TotalAlerts (fold count_alert as m) = fm_TotalAlerts m + int (length as)"
  "tally (fm_ByType (fold count_alert as m)) ty = tally (fm_ByType m) ty + int (length (filter (\<lambda>a. fa_Type a = ty) as))"
  "tally (fm_BySeverity (fold count_alert as m)) sv = tally (fm_BySeverity m) sv + int (length (filter (\<lambda>a. fa_Severity a = sv) as))"
  "fm_ResolvedAlerts (fold count_alert as m) = fm_ResolvedAlerts m + int (length (filter (\<lambda>a. fa_Status a = ''resolved'') as))"
  "fm_FalsePositives (fold count_alert as m) = fm_FalsePositives m + int (length (filter (\<lambda>a. fa_Status a = ''false_positive'') as))"
  "fm_ResolutionRate (fold count_alert as m) = fm_ResolutionRate m" "fm_FalsePositiveRate (fold count_alert as m) = fm_FalsePositiveRate m"
  by (induction as arbitrary: m) (simp_all add: count_alert_def tally_bump)

lemma rate_percentage: "0 \<le> a \<Longrightarrow> a \<le> n \<Longrightarrow> 0 < n \<Longrightarrow> n \<le> 2 ^ 64 \<Longrightarrow> f64_in 0 100 (rate_of a n)"
proof -
  assume *: "0 \<le> a" "a \<le> n" "0 < n" "n \<le> 2 ^ 64"
  have "f64_in 100 100 (f64_lit 100)" by (intro f64_in_lit) auto
  from f64_in_mul[OF f64_ratio_in[OF *] this] show ?thesis by (simp add: rate_of_def)
qed

text \<open>The metrics of a period count every alert of the period once, once by its type and once by its
  severity, and the two rates are percentages.\<close>

theorem fraud_metrics_exact:
  fixes now period alerts
  defines "m \<equiv> GetFraudMetrics now period alerts" and "sel \<equiv> filter (in_period (fraudPeriodDates (now 0) period)) alerts"
  assumes "length alerts \<le> 2 ^ 63"
  shows "fm_TotalAlerts m = int (length sel)
    \<and> (\<forall>ty. tally (fm_ByType m) ty = int (length (filter (\<lambda>a. fa_Type a = ty) sel)))
    \<and> (\<forall>sv. tally (fm_BySeverity m) sv = int (length (filter (\<lambda>a. fa_Severity a = sv) sel)))
    \<and> f64_in 0 100 (fm_ResolutionRate m) \<and> f64_in 0 100 (fm_FalsePositiveRate m)"
proof -
  have "length sel \<le> length alerts" unfolding sel_def by (rule length_filter_le)
  then have n: "int (length sel) \<le> 2 ^ 64" using assms(3) by simp
  have r: "f64_in 0 100 (rate_of (int (length (filter P sel))) (int (length sel)))" if "sel \<noteq> []" for P
    using that n by (intro rate_percentage) auto
  have "f64_in 0 100 (f64_lit 0)" by (intro f64_in_lit) auto
  then show ?thesis using r
    unfolding m_def GetFraudMetrics_def Let_def sel_def[symmetric]
    by (simp add: fold_counts) (simp add: tally_def)
qed

section \<open>An example\<close>

definition demo_fraud_db :: "string list fraud_db" where
  "demo_fraud_db = \<lparr>fd_active = (\<lambda>_ _. 14), fd_created_after = (\<lambda>_ _ _. 0), fd_failed_after = (\<lambda>_ _ _. 0), fd_profiles_updated = (\<lambda>_ _ _. 1),
     fd_block = (\<lambda>p t s. p # s)\<rparr>"

lemma demo_counts: "counts demo_fraud_db" "\<forall>p t s. fd_profiles_updated demo_fraud_db p t s \<le> 1"
  by (simp_all add: counts_def demo_fraud_db_def)

theorem every_transaction_alerts_witness:
  "\<exists>a. AnalyzeTransaction demo_fraud_db (\<lambda>_. 0) DefaultFraudPatterns Map.empty [] [] = (a, [a], []) \<and> f64_in 0 100 (fa_RiskScore a)"
proof -
  obtain a alerts' s' where a: "AnalyzeTransaction demo_fraud_db (\<lambda>_. 0) DefaultFraudPatterns Map.empty [] [] = (a, alerts', s')"
    by (metis prod_cases3)
  have "fa_RiskScore a = f64_min (f64_lit 100) (f64_lit 0)"
    using a by (auto simp: AnalyzeTransaction_def new_alert_def evaluatePatterns_def text_of_def Let_def)
  then have "\<not> f64_ge (fa_RiskScore a) (f64_lit 80)" by (simp add: f64_min_def f64_lit_numeral f64_lit_0)
  then show ?thesis using every_transaction_alerts[OF demo_counts(1) a] a by simp
qed

theorem sim_swap_undetected_witness:
  "fa_Type (fst (AnalyzeTransaction demo_fraud_db (\<lambda>_. 0) DefaultFraudPatterns [''profile_id'' \<mapsto> AnyString ''p''] [] [])) \<noteq> FraudTypeSIMSwap"
  using sim_swap_undetected[OF demo_counts] by (metis prod.collapse)

theorem fraud_metrics_exact_witness:
  "fm_TotalAlerts (GetFraudMetrics (\<lambda>_. 0) ''weekly'' []) = 0"
  using fraud_metrics_exact[of "[]" "\<lambda>_. 0" "''weekly''"] by simp

end
