(* ===== verification/Geo_Router.thy ===== *)
theory Geo_Router
  imports Float64 Net_IP
begin

text \<open>
  Geographic routing in the carrier connector
  (\<open>apps/carrier-connector/internal/infra/georouting.go\<close>), deciding on the textual IP
  address of a client.
\<close>

section \<open>The router\<close>

record Region =
  reg_ID :: string
  reg_Name :: string
  reg_Endpoints :: "string list"
  reg_Priority :: int
  reg_IsActive :: bool
  reg_Latency :: f64

record GeoRouter =
  gr_regions :: "string \<rightharpoonup> Region"
  gr_defaultReg :: string

definition NewGeoRouter :: "string \<Rightarrow> Region list \<Rightarrow> GeoRouter" where
  "NewGeoRouter defaultRegion rs =
     \<lparr>gr_regions = foldl (\<lambda>m r. m(reg_ID r \<mapsto> r)) Map.empty rs, gr_defaultReg = defaultRegion\<rparr>"

definition lookupRegion :: "ip \<Rightarrow> GeoRouter \<Rightarrow> string" where
  "lookupRegion ip gr =
     (case To4 ip of
        Some (first # _) \<Rightarrow>
          if 1 \<le> first \<and> first \<le> 126 then ''us-east''
          else if 128 \<le> first \<and> first \<le> 191 then ''eu-west''
          else ''ap-southeast''
      | _ \<Rightarrow> gr_defaultReg gr)"

text \<open>The region is a pointer, nil (\<open>None\<close>) when the map has no such key; the error is always nil.\<close>

definition GetRegionForIP :: "string \<Rightarrow> GeoRouter \<Rightarrow> Region option" where
  "GetRegionForIP ipStr gr =
     (case ParseIP ipStr of
        None \<Rightarrow> gr_regions gr (gr_defaultReg gr)
      | Some ip \<Rightarrow>
          (case gr_regions gr (lookupRegion ip gr) of
             Some region \<Rightarrow> if reg_IsActive region then Some region else gr_regions gr (gr_defaultReg gr)
           | None \<Rightarrow> gr_regions gr (gr_defaultReg gr)))"

definition GetBestEndpoint :: "string \<Rightarrow> GeoRouter \<Rightarrow> string go" where
  "GetBestEndpoint regionID gr =
     (let region = (case gr_regions gr regionID of
            None \<Rightarrow> gr_regions gr (gr_defaultReg gr)
          | Some r \<Rightarrow> if reg_Endpoints r = [] then gr_regions gr (gr_defaultReg gr) else Some r)
      in case region of
           None \<Rightarrow> Panics
         | Some r \<Rightarrow> (case reg_Endpoints r of [] \<Rightarrow> Returns '''' | e # _ \<Rightarrow> Returns e))"

definition UpdateRegion :: "Region \<Rightarrow> GeoRouter \<Rightarrow> GeoRouter" where
  "UpdateRegion region gr = gr\<lparr>gr_regions := (gr_regions gr)(reg_ID region \<mapsto> region)\<rparr>"

definition GetRegions :: "string list \<Rightarrow> GeoRouter \<Rightarrow> Region list" where
  "GetRegions ks gr = map (\<lambda>k. the (gr_regions gr k)) ks"

section \<open>Properties\<close>

text \<open>The class of an address, by its first octet.\<close>

definition octet_region :: "int \<Rightarrow> string" where
  "octet_region a = (if 1 \<le> a \<and> a \<le> 126 then ''us-east'' else if 128 \<le> a \<and> a \<le> 191 then ''eu-west'' else ''ap-southeast'')"

text \<open>A dotted IPv4 address is routed to the region of its first octet when that region is
  configured and active, and to the default region otherwise.\<close>

theorem geo_ipv4_routing:
  assumes "a \<in> {0..255}" "b \<in> {0..255}" "c \<in> {0..255}" "d \<in> {0..255}"
  shows "GetRegionForIP (dotted a b c d) gr =
    (case gr_regions gr (octet_region a) of
       Some r \<Rightarrow> if reg_IsActive r then Some r else gr_regions gr (gr_defaultReg gr)
     | None \<Rightarrow> gr_regions gr (gr_defaultReg gr))"
  using assms by (simp add: GetRegionForIP_def ParseIP_dotted lookupRegion_def To4_def v4_def octet_region_def)

theorem geo_ipv4_routing_witness:
  "GetRegionForIP ''172.16.0.9'' (NewGeoRouter ''us-east''
     [\<lparr>reg_ID = ''eu-west'', reg_Name = ''EU'', reg_Endpoints = [''e1''], reg_Priority = 1, reg_IsActive = True, reg_Latency = f64_lit 20\<rparr>])
   = Some \<lparr>reg_ID = ''eu-west'', reg_Name = ''EU'', reg_Endpoints = [''e1''], reg_Priority = 1, reg_IsActive = True, reg_Latency = f64_lit 20\<rparr>"
proof -
  have "dotted 172 16 0 9 = ''172.16.0.9''" by code_simp
  with geo_ipv4_routing[of 172 16 0 9] show ?thesis by (simp add: octet_region_def NewGeoRouter_def)
qed

text \<open>\<open>GetBestEndpoint\<close> returns the first endpoint of the region asked for, even when it is
  inactive, falls back on the default region when that one has none, and panics exactly when it
  falls back and no default region is configured.\<close>

theorem geo_best_endpoint:
  "(GetBestEndpoint regionID gr = Returns e \<longleftrightarrow>
    (\<exists>r es. gr_regions gr regionID = Some r \<and> reg_Endpoints r = e # es) \<or>
    ((\<forall>r. gr_regions gr regionID = Some r \<longrightarrow> reg_Endpoints r = []) \<and>
     (\<exists>r. gr_regions gr (gr_defaultReg gr) = Some r \<and>
        (e = (case reg_Endpoints r of [] \<Rightarrow> [] | e' # _ \<Rightarrow> e')))))
   \<and> (GetBestEndpoint regionID gr = Panics \<longleftrightarrow>
    gr_regions gr (gr_defaultReg gr) = None \<and> (\<forall>r. gr_regions gr regionID = Some r \<longrightarrow> reg_Endpoints r = []))"
  by (auto simp: GetBestEndpoint_def Let_def split: option.splits list.splits if_splits)

theorem geo_best_endpoint_witness:
  "GetBestEndpoint ''us-east'' (NewGeoRouter ''us-east'' []) = Panics"
  using geo_best_endpoint[of "''us-east''" "NewGeoRouter ''us-east'' []"] by (simp add: NewGeoRouter_def)

end
