(* ===== verification/Ids.thy ===== *)
theory Ids
  imports Prelude
begin

unbundle bit_operations_syntax

text \<open>
  The Snowflake identifiers of \<open>apps/carrier-connector/internal/id\<close> (snowflake.go and
  generate.go).
\<close>

section \<open>Constants\<close>

definition Epoch :: "64 word" where "Epoch = 1577836800000"
definition NodeIDBits :: nat where "NodeIDBits = 5"
definition SequenceBits :: nat where "SequenceBits = 12"
definition MaxNodeID :: "64 word" where "MaxNodeID = (-1) XOR push_bit NodeIDBits (-1)"
definition MaxSequence :: "64 word" where "MaxSequence = (-1) XOR push_bit SequenceBits (-1)"
definition NodeShift :: nat where "NodeShift = SequenceBits"
definition TimeShift :: nat where "TimeShift = SequenceBits + NodeIDBits"

lemma id_consts [simp]:
  "MaxNodeID = 31" "MaxSequence = 4095" "NodeShift = 12" "TimeShift = 17"
  by (simp_all add: MaxNodeID_def MaxSequence_def NodeShift_def TimeShift_def
      NodeIDBits_def SequenceBits_def mask_eq_exp_minus_1)

section \<open>The generator\<close>

record snowflake =
  sf_timestamp :: "64 word"
  sf_nodeID :: "64 word"
  sf_sequence :: "64 word"

datatype id_error = NodeIDRange

definition NewSnowflake :: "64 word \<Rightarrow> id_error + snowflake" where
  "NewSnowflake nodeID =
     (if nodeID <s 0 \<or> MaxNodeID <s nodeID then Inl NodeIDRange
      else Inr \<lparr>sf_timestamp = 0, sf_nodeID = nodeID, sf_sequence = 0\<rparr>)"

text \<open>\<open>time.Now().UnixNano() / 1e6\<close> for a reading of the clock in nanoseconds.\<close>

definition now_ms :: "time \<Rightarrow> 64 word" where
  "now_ms ns = word_of_int (go_quot (i64 ns) 1000000)"

text \<open>The busy wait of \<open>Generate\<close>: None when the given readings end before it does.\<close>

fun wait_next :: "64 word \<Rightarrow> 64 word \<Rightarrow> time list \<Rightarrow> (64 word \<times> time list) option" where
  "wait_next prev now [] = (if now <=s prev then None else Some (now, []))"
| "wait_next prev now (r # rs) =
     (if now <=s prev then wait_next prev (now_ms r) rs else Some (now, r # rs))"

definition compose :: "64 word \<Rightarrow> 64 word \<Rightarrow> 64 word \<Rightarrow> 64 word" where
  "compose now node sq =
     (push_bit TimeShift (now - Epoch) OR push_bit NodeShift node) OR sq"

definition generate :: "snowflake \<Rightarrow> time list \<Rightarrow> (64 word \<times> snowflake \<times> time list) option" where
  "generate s readings =
     (case readings of
        [] \<Rightarrow> None
      | r # rs \<Rightarrow>
          let now = now_ms r in
          if sf_timestamp s = now then
            let sq = (sf_sequence s + 1) AND MaxSequence in
            if sq = 0 then
              (case wait_next (sf_timestamp s) now rs of
                 None \<Rightarrow> None
               | Some (now', rs') \<Rightarrow>
                   Some (compose now' (sf_nodeID s) sq,
                         s\<lparr>sf_timestamp := now', sf_sequence := sq\<rparr>, rs'))
            else Some (compose now (sf_nodeID s) sq,
                       s\<lparr>sf_timestamp := now, sf_sequence := sq\<rparr>, rs)
          else Some (compose now (sf_nodeID s) 0,
                     s\<lparr>sf_timestamp := now, sf_sequence := 0\<rparr>, rs))"

definition parse_id :: "64 word \<Rightarrow> 64 word \<times> 64 word \<times> 64 word" where
  "parse_id i = (signed_drop_bit TimeShift i + Epoch,
                 signed_drop_bit NodeShift i AND MaxNodeID,
                 i AND MaxSequence)"

lemma compose_seq: "take_bit 12 sq = sq \<Longrightarrow> compose now node sq AND MaxSequence = sq"
proof -
  assume sq: "take_bit 12 sq = sq"
  have "take_bit 12 (compose now node sq) = sq"
    by (subst (2) sq[symmetric], rule bit_eqI)
      (auto simp: compose_def bit_simps)
  then show ?thesis by (simp add: take_bit_eq_mask mask_eq_exp_minus_1)
qed

lemma compose_node:
  "take_bit 12 sq = sq \<Longrightarrow> take_bit 5 node = node \<Longrightarrow>
   signed_drop_bit NodeShift (compose now node sq) AND MaxNodeID = node"
proof -
  assume sq: "take_bit 12 sq = sq" and node: "take_bit 5 node = node"
  have sqb: "bit sq n \<Longrightarrow> n < 12" for n using sq by (metis bit_take_bit_iff)
  have "take_bit 5 (signed_drop_bit 12 (compose now node sq)) = node"
    by (subst (2) node[symmetric], rule bit_eqI)
      (auto simp: compose_def bit_simps dest: sqb)
  then show ?thesis by (simp add: take_bit_eq_mask mask_eq_exp_minus_1)
qed


lemma bit_of_small:
  fixes w :: "64 word"
  assumes "- (2 ^ 46) \<le> sint w" "sint w < 2 ^ 46" "46 \<le> n" "n < 64"
  shows "bit w n = bit w 63"
proof -
  have b: "bit w k = bit (sint w) k" if "k < 64" for k
    using that by (simp add: bit_sint_iff)
  have "signed_take_bit 46 (sint w) = sint w"
    using assms by (intro signed_take_bit_int_eq_self) auto
  then have "bit (sint w) k = bit (signed_take_bit 46 (sint w)) k" for k by simp
  then have s: "bit (sint w) k = bit (sint w) (min 46 k)" for k
    by (simp add: bit_signed_take_bit_iff)
  have "bit (sint w) n = bit (sint w) 46" "bit (sint w) 63 = bit (sint w) 46"
    using s[of n] s[of 63] assms by (simp_all add: min_def)
  then show ?thesis using assms b[of n] b[of 63] by simp
qed

lemma compose_time:
  assumes sq: "take_bit 12 sq = sq" and node: "take_bit 5 node = node"
    and t: "- (2 ^ 46) \<le> sint (now - Epoch)" "sint (now - Epoch) < 2 ^ 46"
  shows "signed_drop_bit TimeShift (compose now node sq) + Epoch = now"
proof -
  have sqb: "bit sq n \<Longrightarrow> n < 12" for n using sq by (metis bit_take_bit_iff)
  have nb: "bit node n \<Longrightarrow> n < 5" for n using node by (metis bit_take_bit_iff)
  define d where "d = now - Epoch"
  have d: "bit d n = bit d 63" if "46 \<le> n" "n < 64" for n
    using bit_of_small[of d n] t that by (simp add: d_def)
  have "signed_drop_bit 17 (compose now node sq) = d"
  proof (rule bit_eqI)
    fix n assume n: "possible_bit TYPE(64 word) n"
    then have "n < 64" by (simp add: possible_bit_word)
    then show "bit (signed_drop_bit 17 (compose now node sq)) n = bit d n"
      using d[of n] d[of 46]
      by (auto simp: compose_def bit_simps d_def[symmetric] dest: sqb nb)
  qed
  then show ?thesis by (simp add: d_def)
qed



lemma sint_of_int: "- (2 ^ 63) \<le> k \<Longrightarrow> k < 2 ^ 63 \<Longrightarrow> sint (word_of_int k :: 64 word) = k"
  by (simp add: sint_sbintrunc' signed_take_bit_int_eq_self)

lemma sint_inj: "sint (v :: 64 word) = sint w \<Longrightarrow> v = w"
proof -
  assume "sint v = sint w"
  then have "word_of_int (sint v) = (word_of_int (sint w) :: 64 word)" by simp
  then show "v = w" by simp
qed

lemma sint_small:
  assumes "take_bit n (w :: 64 word) = w" and "n < 63"
  shows "0 \<le> sint w" "sint w < 2 ^ n"
proof -
  have u: "0 \<le> uint w" "uint w < 2 ^ n"
    using assms by (metis uint_ge_0, metis take_bit_int_less_exp unsigned_take_bit_eq)
  have "(2::int) ^ n \<le> 2 ^ 63" using assms(2) by (intro power_increasing) auto
  then have "sint (word_of_int (uint w) :: 64 word) = uint w"
    using u by (intro sint_of_int) linarith+
  then show "0 \<le> sint w" "sint w < 2 ^ n" using u by simp_all
qed

lemma sint_compose:
  assumes sq: "take_bit 12 sq = sq" and node: "take_bit 5 node = node"
    and t: "0 \<le> sint (now - Epoch)" "sint (now - Epoch) < 2 ^ 46"
  shows "sint (compose now node sq) = sint (now - Epoch) * 2 ^ 17 + sint node * 2 ^ 12 + sint sq"
proof -
  have sqb: "bit sq n \<Longrightarrow> n < 12" for n using sq by (metis bit_take_bit_iff)
  have nb: "bit node n \<Longrightarrow> n < 5" for n using node by (metis bit_take_bit_iff)
  define d where "d = now - Epoch"
  have 1: "push_bit 17 d OR push_bit 12 node = push_bit 17 d + push_bit 12 node"
    by (rule disjunctive_add [symmetric]) (auto simp: bit_simps dest: nb)
  have 2: "(push_bit 17 d OR push_bit 12 node) OR sq = (push_bit 17 d OR push_bit 12 node) + sq"
    by (rule disjunctive_add [symmetric]) (auto simp: bit_simps dest: sqb)
  let ?k = "sint d * 2 ^ 17 + sint node * 2 ^ 12 + sint sq"
  have "compose now node sq = push_bit 17 d + push_bit 12 node + sq"
    by (simp only: compose_def id_consts d_def[symmetric] 2[unfolded 1] 1)
  also have "\<dots> = d * 2 ^ 17 + node * 2 ^ 12 + sq" by (simp add: push_bit_eq_mult)
  also have "\<dots> = word_of_int ?k" by simp
  finally have c: "compose now node sq = word_of_int ?k" .
  have "0 \<le> ?k" "?k < 2 ^ 63"
    using t sint_small[OF node] sint_small[OF sq] by (auto simp: d_def)
  then have "sint (word_of_int ?k :: 64 word) = ?k" by (intro sint_of_int) auto
  then show ?thesis by (simp add: c d_def)
qed

section \<open>Runs of the generator\<close>

definition sf_ok :: "snowflake \<Rightarrow> bool" where
  "sf_ok s \<longleftrightarrow> take_bit NodeIDBits (sf_nodeID s) = sf_nodeID s
     \<and> take_bit SequenceBits (sf_sequence s) = sf_sequence s"

text \<open>The value the fields of a state stand for: what \<open>compose\<close> would return.\<close>

definition sf_value :: "snowflake \<Rightarrow> int" where
  "sf_value s = (sint (sf_timestamp s) - sint Epoch) * 2 ^ 17
     + sint (sf_nodeID s) * 2 ^ 12 + sint (sf_sequence s)"

text \<open>Readings of a clock that does not run backwards, from the epoch on.\<close>

definition clock_ok :: "snowflake \<Rightarrow> time list \<Rightarrow> bool" where
  "clock_ok s rs \<longleftrightarrow> sorted rs \<and>
     (\<forall>r \<in> set rs. sint Epoch * 1000000 \<le> r \<and> r \<le> max_i64 \<and> sint (sf_timestamp s) \<le> r div 1000000)"

fun generate_n :: "nat \<Rightarrow> snowflake \<Rightarrow> time list \<Rightarrow> (64 word list \<times> snowflake \<times> time list) option" where
  "generate_n 0 s rs = Some ([], s, rs)"
| "generate_n (Suc n) s rs =
     (case generate s rs of
        None \<Rightarrow> None
      | Some (i, s', rs') \<Rightarrow>
          (case generate_n n s' rs' of
             None \<Rightarrow> None
           | Some (ids, s'', rs'') \<Rightarrow> Some (i # ids, s'', rs'')))"

lemma sint_Epoch [simp]: "sint Epoch = 1577836800000"
  by (simp add: Epoch_def)

lemma sint_now_ms:
  "0 \<le> r \<Longrightarrow> r \<le> max_i64 \<Longrightarrow> sint (now_ms r) = r div 1000000"
  by (simp add: now_ms_def sint_of_int div_le_dividend)

lemma sint_minus_Epoch:
  assumes "sint Epoch \<le> sint w"
  shows "sint (w - Epoch) = sint w - sint Epoch"
proof -
  have "w - Epoch = word_of_int (sint w - sint Epoch)" by (simp del: sint_Epoch)
  moreover have "sint w < 2 ^ 63" using sint_lt[of w] by simp
  then have "sint (word_of_int (sint w - sint Epoch) :: 64 word) = sint w - sint Epoch"
    using assms by (intro sint_of_int) simp_all
  ultimately show ?thesis by simp
qed


lemma wait_next_Some:
  "wait_next prev now rs = Some (n, rs') \<Longrightarrow> prev <s n \<and>
   (\<exists>us. rs = us @ rs' \<and> n = last (now # map now_ms us))"
proof (induction rs arbitrary: now)
  case Nil
  then show ?case by (auto simp: word_sle_eq word_sless_alt split: if_splits)
next
  case (Cons r rs)
  show ?case
  proof (cases "now <=s prev")
    case False
    with Cons.prems show ?thesis by (auto simp: word_sle_eq word_sless_alt)
  next
    case True
    with Cons.prems have "wait_next prev (now_ms r) rs = Some (n, rs')" by simp
    from Cons.IH[OF this] obtain us
      where "prev <s n" "rs = us @ rs'" "n = last (now_ms r # map now_ms us)" by blast
    then show ?thesis by (intro conjI exI[of _ "r # us"]) auto
  qed
qed

lemma sf_ok_next: "sf_ok s \<Longrightarrow> take_bit SequenceBits sq = sq \<Longrightarrow> sf_ok (s\<lparr>sf_timestamp := t, sf_sequence := sq\<rparr>)"
  by (simp add: sf_ok_def)

lemma clock_ok_step:
  assumes "clock_ok s (us @ r # rs)"
  shows "clock_ok (s\<lparr>sf_timestamp := now_ms r, sf_sequence := sq\<rparr>) rs"
    and "sint (now_ms r) = r div 1000000"
    and "sint (sf_timestamp s) \<le> r div 1000000" and "sint Epoch \<le> r div 1000000"
    and "r div 1000000 \<le> max_i64 div 1000000"
  using assms
  by (auto simp: clock_ok_def sint_now_ms sorted_append intro: zdiv_mono1)


lemma and_4095: "(x :: 64 word) AND 4095 = take_bit 12 x"
  by (simp add: take_bit_eq_mask mask_eq_exp_minus_1)

lemma take_bit_masked [simp]: "take_bit SequenceBits ((x :: 64 word) AND MaxSequence) = x AND MaxSequence"
  by (simp add: and_4095 SequenceBits_def)

lemma sint_eq_uint_small:
  assumes "take_bit n (w :: 64 word) = w" and "n < 63"
  shows "sint w = uint w"
proof -
  have u: "0 \<le> uint w" "uint w < 2 ^ n"
    using assms by (metis uint_ge_0, metis take_bit_int_less_exp unsigned_take_bit_eq)
  have "(2::int) ^ n \<le> 2 ^ 63" using assms(2) by (intro power_increasing) auto
  then have "sint (word_of_int (uint w) :: 64 word) = uint w"
    using u by (intro sint_of_int) linarith+
  then show ?thesis by simp
qed

lemma next_seq:
  assumes "take_bit SequenceBits (sq :: 64 word) = sq" "(sq + 1) AND MaxSequence \<noteq> 0"
  shows "sint ((sq + 1) AND MaxSequence) = sint sq + 1"
proof -
  let ?n = "take_bit 12 (sq + 1)"
  have t: "take_bit 12 sq = sq" using assms(1) by (simp add: SequenceBits_def)
  have u: "0 \<le> uint sq" "uint sq < 4096"
    using sint_small[OF t] sint_eq_uint_small[OF t] by auto
  have "uint (sq + 1) = uint sq + 1"
    using u by (simp add: uint_word_ariths)
  moreover have "uint ?n = take_bit 12 (uint (sq + 1))" by (rule unsigned_take_bit_eq)
  ultimately have n: "uint ?n = (uint sq + 1) mod 4096" by (simp add: take_bit_eq_mod)
  moreover have "uint ?n \<noteq> 0"
    using assms(2) unsigned_eq_0_iff[of ?n] by (simp only: and_4095 id_consts) blast
  ultimately have "uint ?n = uint sq + 1" using u by (cases "uint sq = 4095") auto
  moreover have "sint ?n = uint ?n" by (intro sint_eq_uint_small[of 12]) auto
  ultimately show ?thesis by (simp add: and_4095 sint_eq_uint_small[OF t])
qed

text \<open>One call of \<open>Generate\<close> under a clock that does not run backwards.\<close>

lemma generate_step:
  assumes ok: "sf_ok s" and clk: "clock_ok s rs" and gen: "generate s rs = Some (i, s', rs')"
  shows "sf_ok s' \<and> clock_ok s' rs' \<and> sf_nodeID s' = sf_nodeID s
    \<and> i = compose (sf_timestamp s') (sf_nodeID s') (sf_sequence s')
    \<and> sint Epoch \<le> sint (sf_timestamp s') \<and> sint (sf_timestamp s') \<le> max_i64 div 1000000
    \<and> (sint (sf_timestamp s) < sint (sf_timestamp s')
       \<or> sf_timestamp s = sf_timestamp s' \<and> sint (sf_sequence s) < sint (sf_sequence s'))"
proof -
  from gen obtain r rs1 where rs: "rs = r # rs1"
    by (auto simp: generate_def split: list.splits)
  let ?now = "now_ms r" and ?sq = "(sf_sequence s + 1) AND MaxSequence"
  note step = clock_ok_step[of s "[]" r rs1, simplified, OF clk[unfolded rs]]
  consider (eq_wait) n us where "sf_timestamp s = ?now" "?sq = 0" "sf_timestamp s <s n"
      "rs1 = us @ rs'" "n = last (?now # map now_ms us)"
      "s' = s\<lparr>sf_timestamp := n, sf_sequence := ?sq\<rparr>" "i = compose n (sf_nodeID s) ?sq"
    | (eq) "sf_timestamp s = ?now" "?sq \<noteq> 0" "rs' = rs1"
      "s' = s\<lparr>sf_timestamp := ?now, sf_sequence := ?sq\<rparr>" "i = compose ?now (sf_nodeID s) ?sq"
    | (new) "sf_timestamp s \<noteq> ?now" "rs' = rs1"
      "s' = s\<lparr>sf_timestamp := ?now, sf_sequence := 0\<rparr>" "i = compose ?now (sf_nodeID s) 0"
    using gen unfolding rs generate_def Let_def
    by (auto split: if_splits option.splits dest!: wait_next_Some)
  then show ?thesis
  proof cases
    case eq_wait
    from eq_wait(1,3,5) have "us \<noteq> []" by auto
    then obtain us0 r0 where us: "us = us0 @ [r0]" by (cases us rule: rev_cases) auto
    have clk': "clock_ok s ((r # us0) @ r0 # rs')" using clk by (simp add: rs eq_wait(4) us)
    note st = clock_ok_step[OF clk']
    have "n = now_ms r0" using eq_wait(5) by (simp add: us)
    moreover have "sint (sf_timestamp s) < sint n" using eq_wait(3) by (simp add: word_sless_alt)
    ultimately show ?thesis using ok st eq_wait by (simp add: sf_ok_next sf_ok_def)
  next
    case eq
    then show ?thesis
      using ok step next_seq[of "sf_sequence s"] take_bit_masked[of "sf_sequence s + 1"]
      by (simp add: sf_ok_def)
  next
    case new
    have "sint (sf_timestamp s) \<noteq> sint ?now" using new(1) sint_inj by blast
    with step have "sint (sf_timestamp s) < sint ?now" by linarith
    then show ?thesis using ok step new by (simp add: sf_ok_def)
  qed
qed

lemma sint_less_2_46:
  assumes "sint Epoch \<le> sint w" "sint w \<le> max_i64 div 1000000"
  shows "0 \<le> sint (w - Epoch)" "sint (w - Epoch) < 2 ^ 46"
  using assms sint_minus_Epoch[OF assms(1)] by simp_all

lemma sf_value_less:
  assumes ok: "sf_ok s" "sf_ok s'" "sf_nodeID s' = sf_nodeID s"
    and lex: "sint (sf_timestamp s) < sint (sf_timestamp s')
       \<or> sf_timestamp s = sf_timestamp s' \<and> sint (sf_sequence s) < sint (sf_sequence s')"
  shows "sf_value s < sf_value s'"
proof -
  have sq: "0 \<le> sint (sf_sequence x)" "sint (sf_sequence x) < 4096" if "sf_ok x" for x
    using that sint_small[of 12 "sf_sequence x"] by (simp_all add: sf_ok_def SequenceBits_def)
  show ?thesis using lex ok(3) sq[OF ok(1)] sq[OF ok(2)] by (auto simp: sf_value_def)
qed


lemma sf_value_compose:
  assumes "sf_ok s" "sint Epoch \<le> sint (sf_timestamp s)" "sint (sf_timestamp s) \<le> max_i64 div 1000000"
  shows "sint (compose (sf_timestamp s) (sf_nodeID s) (sf_sequence s)) = sf_value s"
    and "parse_id (compose (sf_timestamp s) (sf_nodeID s) (sf_sequence s))
      = (sf_timestamp s, sf_nodeID s, sf_sequence s)"
proof -
  note bits = assms(1)[unfolded sf_ok_def NodeIDBits_def SequenceBits_def]
  note t = sint_less_2_46[OF assms(2,3)]
  show "sint (compose (sf_timestamp s) (sf_nodeID s) (sf_sequence s)) = sf_value s"
    using sint_compose[of "sf_sequence s" "sf_nodeID s", OF _ _ t] bits sint_minus_Epoch[OF assms(2)]
    by (simp add: sf_value_def)
  show "parse_id (compose (sf_timestamp s) (sf_nodeID s) (sf_sequence s))
      = (sf_timestamp s, sf_nodeID s, sf_sequence s)"
    using compose_time[of "sf_sequence s" "sf_nodeID s" "sf_timestamp s"] compose_node compose_seq t bits
    unfolding parse_id_def by simp
qed

lemma generate_value:
  assumes "sf_ok s" "clock_ok s rs" "generate s rs = Some (i, s', rs')"
  shows "sint i = sf_value s'" "sf_value s < sf_value s'"
    "parse_id i = (sf_timestamp s', sf_nodeID s', sf_sequence s')"
  using generate_step[OF assms] sf_value_compose[of s'] sf_value_less[OF assms(1), of s'] by auto

lemma generate_n_increasing:
  assumes "sf_ok s" "clock_ok s rs" "generate_n n s rs = Some (ids, s', rs')"
  shows "length ids = n \<and> sorted_wrt (<) (map sint ids) \<and> (\<forall>i \<in> set ids. sf_value s < sint i)
    \<and> (\<forall>i \<in> set ids. fst (snd (parse_id i)) = sf_nodeID s)"
  using assms
proof (induction n arbitrary: s rs ids s' rs')
  case (Suc n)
  from Suc.prems(3) obtain i s1 rs1 ids1 where g: "generate s rs = Some (i, s1, rs1)"
      "generate_n n s1 rs1 = Some (ids1, s', rs')" "ids = i # ids1"
    by (auto split: option.splits)
  note st = generate_step[OF Suc.prems(1,2) g(1)] and v = generate_value[OF Suc.prems(1,2) g(1)]
  have "length ids1 = n \<and> sorted_wrt (<) (map sint ids1) \<and> (\<forall>i \<in> set ids1. sf_value s1 < sint i)
    \<and> (\<forall>i \<in> set ids1. fst (snd (parse_id i)) = sf_nodeID s1)"
    using st g(2) by (intro Suc.IH) auto
  then show ?case using v st by (auto simp: g(3))
qed simp

lemma NewSnowflake_ok:
  assumes "NewSnowflake nodeID = Inr s"
  shows "sf_ok s" "sf_timestamp s = 0" "sf_nodeID s = nodeID"
proof -
  from assms have n: "0 \<le> sint nodeID" "sint nodeID \<le> 31"
    by (auto simp: NewSnowflake_def word_sless_alt split: if_splits)
  define k where "k = sint nodeID"
  have "take_bit 5 (word_of_int k :: 64 word) = word_of_int (take_bit 5 k)"
    by (rule take_bit_of_int)
  also have "take_bit 5 k = k" using n by (intro take_bit_int_eq_self) (auto simp: k_def)
  finally have "take_bit 5 nodeID = nodeID" by (simp add: k_def)
  with assms show "sf_ok s" "sf_timestamp s = 0" "sf_nodeID s = nodeID"
    by (auto simp: NewSnowflake_def sf_ok_def NodeIDBits_def split: if_splits)
qed


section \<open>Derived identifiers (generate.go and the accessors of snowflake.go)\<close>

definition id_Time :: "64 word \<Rightarrow> time" where
  "id_Time i = (let ts = sint (fst (parse_id i)) in
     go_quot ts 1000 * second + i64 (go_rem ts 1000 * 1000000))"

definition id_NodeID :: "64 word \<Rightarrow> 64 word" where
  "id_NodeID i = fst (snd (parse_id i))"

definition id_Sequence :: "64 word \<Rightarrow> 64 word" where
  "id_Sequence i = snd (snd (parse_id i))"

text \<open>The package's \<open>defaultGenerator\<close> as \<open>init\<close> leaves it.\<close>

definition defaultGenerator :: "id_error + snowflake" where
  "defaultGenerator = NewSnowflake 1"

definition generate_string :: "snowflake \<Rightarrow> time list \<Rightarrow> (string \<times> snowflake \<times> time list) option" where
  "generate_string s rs = map_option (\<lambda>(i, r). (show_int (sint i), r)) (generate s rs)"

definition generate_prefixed ::
  "string \<Rightarrow> snowflake \<Rightarrow> time list \<Rightarrow> (string \<times> snowflake \<times> time list) option" where
  "generate_prefixed prefix s rs =
     map_option (\<lambda>(i, r). (prefix @ ''_'' @ i, r)) (generate_string s rs)"

datatype id_kind = RuleID | EventID | APIID | TenantID | ProfileID | SubscriptionID | CarrierID | PricingID

fun kind_prefix :: "id_kind \<Rightarrow> string" where
  "kind_prefix RuleID = ''rule''"
| "kind_prefix EventID = ''evt''"
| "kind_prefix APIID = ''api''"
| "kind_prefix TenantID = ''tnt''"
| "kind_prefix ProfileID = ''prf''"
| "kind_prefix SubscriptionID = ''sub''"
| "kind_prefix CarrierID = ''car''"
| "kind_prefix PricingID = ''prc''"

definition generate_kind_id ::
  "id_kind \<Rightarrow> snowflake \<Rightarrow> time list \<Rightarrow> (string \<times> snowflake \<times> time list) option" where
  "generate_kind_id k = generate_prefixed (kind_prefix k)"

definition generate_usage_id ::
  "string \<Rightarrow> string \<Rightarrow> snowflake \<Rightarrow> time list \<Rightarrow> (string \<times> snowflake \<times> time list) option" where
  "generate_usage_id resourceType tenantID s rs =
     (let tenantShort = (if 8 < length tenantID then take 8 tenantID else tenantID) in
      map_option (\<lambda>(i, r). (''usage_'' @ resourceType @ ''_'' @ tenantShort @ ''_'' @ i, r))
        (generate_string s rs))"

definition id_charset :: string where
  "id_charset = ''abcdefghijklmnopqrstuvwxyzABCDEFGHIJKLMNOPQRSTUVWXYZ0123456789''"

text \<open>\<open>GenerateRandomString\<close>: None is the panic of \<open>make\<close> on a negative length.\<close>

definition generate_random_string :: "int \<Rightarrow> string option" where
  "generate_random_string n =
     (if n < 0 then None
      else Some (map (\<lambda>i. id_charset ! (i mod length id_charset)) [0..<nat n]))"

fun generate_usage_ids ::
  "(string \<times> string) list \<Rightarrow> snowflake \<Rightarrow> time list \<Rightarrow> (string list \<times> snowflake \<times> time list) option" where
  "generate_usage_ids [] s rs = Some ([], s, rs)"
| "generate_usage_ids ((res, ten) # ks) s rs =
     (case generate_usage_id res ten s rs of
        None \<Rightarrow> None
      | Some (i, s', rs') \<Rightarrow> map_option (\<lambda>(ids, r). (i # ids, r)) (generate_usage_ids ks s' rs'))"

lemma id_Time_eq:
  "0 \<le> sint (fst (parse_id i)) \<Longrightarrow> id_Time i = sint (fst (parse_id i)) * 1000000"
proof -
  assume "0 \<le> sint (fst (parse_id i))"
  moreover have "a div 1000 * 1000000000 + a mod 1000 * 1000000 = a * 1000000" for a :: int
    using div_mult_mod_eq[of a 1000] by linarith
  ultimately show ?thesis by (simp add: id_Time_def Let_def second_def)
qed

lemma underscore_not_in_show: "CHR ''_'' \<notin> set (show_int i)"
  using show_nat_digits[of i "CHR ''_''"] show_nat_digits[of "- i" "CHR ''_''"]
  by (auto simp: show_int_def)

lemma suffix_unique:
  assumes "xs @ c # us = ys @ c # vs" "c \<notin> set us" "c \<notin> set vs"
  shows "us = vs"
proof -
  have "takeWhile (\<lambda>d. d \<noteq> c) (rev (zs @ c # ws)) = rev ws" if "c \<notin> set ws" for zs ws
    using that by (simp add: takeWhile_append1 takeWhile_append2 takeWhile_tail) metis
  from this[OF assms(2), of xs] this[OF assms(3), of ys] assms(1) show ?thesis by simp
qed

lemma generate_usage_id_Some:
  assumes "generate_usage_id res ten s rs = Some (str, s1, rs1)"
  obtains i pre where "generate s rs = Some (i, s1, rs1)" "str = pre @ CHR ''_'' # show_int (sint i)"
proof -
  define short where "short = (if 8 < length ten then take 8 ten else ten)"
  from assms obtain i where "generate s rs = Some (i, s1, rs1)"
    "str = (''usage_'' @ res @ ''_'' @ short) @ CHR ''_'' # show_int (sint i)"
    by (auto simp: generate_usage_id_def generate_string_def Let_def short_def)
  then show thesis by (rule that)
qed

lemma generate_usage_ids_suffixes:
  assumes "sf_ok s" "clock_ok s rs" "generate_usage_ids ks s rs = Some (strs, s', rs')"
  shows "\<exists>vs. length vs = length strs \<and> length strs = length ks \<and> sorted_wrt (<) vs
    \<and> (\<forall>v \<in> set vs. sf_value s < v)
    \<and> (\<forall>j < length strs. \<exists>pre. strs ! j = pre @ CHR ''_'' # show_int (vs ! j))"
  using assms
proof (induction ks arbitrary: s rs strs)
  case Nil
  then show ?case by simp
next
  case (Cons k ks)
  obtain res ten where k: "k = (res, ten)" by (cases k)
  from Cons.prems(3) obtain str s1 rs1 strs1 where u: "generate_usage_id res ten s rs = Some (str, s1, rs1)"
      "generate_usage_ids ks s1 rs1 = Some (strs1, s', rs')" "strs = str # strs1"
    by (auto simp: k split: option.splits)
  obtain i pre where g: "generate s rs = Some (i, s1, rs1)" "str = pre @ CHR ''_'' # show_int (sint i)"
    using u(1) by (rule generate_usage_id_Some)
  note st = generate_step[OF Cons.prems(1,2) g(1)] and v = generate_value[OF Cons.prems(1,2) g(1)]
  from Cons.IH[OF _ _ u(2)] st obtain vs where vs: "length vs = length strs1"
      "length strs1 = length ks" "sorted_wrt (<) vs" "\<forall>v \<in> set vs. sf_value s1 < v"
      "\<forall>j < length strs1. \<exists>pre. strs1 ! j = pre @ CHR ''_'' # show_int (vs ! j)"
    by blast
  have "\<exists>pre. strs ! j = pre @ CHR ''_'' # show_int ((sint i # vs) ! j)" if "j < length strs" for j
    using that vs(5) g(2) by (cases j) (auto simp: u(3))
  then show ?case
    using vs v by (intro exI[of _ "sint i # vs"]) (auto simp: u(3))
qed

section \<open>Properties\<close>

text \<open>C2. A generator made by \<open>NewSnowflake\<close> and driven by a clock that never runs backwards
  returns strictly increasing (so pairwise distinct) identifiers, whatever the number of
  calls in one millisecond, and each of them carries the generator's node.\<close>

theorem snowflake_strictly_increasing:
  assumes "NewSnowflake nodeID = Inr s" and "sorted rs"
    and "\<forall>r \<in> set rs. 1577836800000 * 1000000 \<le> r \<and> r \<le> max_i64"
    and "generate_n n s rs = Some (ids, s', rs')"
  shows "length ids = n \<and> sorted_wrt (<) (map sint ids) \<and> distinct ids \<and> (\<forall>i \<in> set ids. id_NodeID i = nodeID)"
proof -
  have "clock_ok s rs"
    using assms(2,3) NewSnowflake_ok[OF assms(1)] by (fastforce simp: clock_ok_def)
  from generate_n_increasing[OF NewSnowflake_ok(1)[OF assms(1)] this assms(4)]
    NewSnowflake_ok(3)[OF assms(1)]
  have *: "length ids = n" "sorted_wrt (<) (map sint ids)" "\<forall>i \<in> set ids. id_NodeID i = nodeID"
    by (auto simp: id_NodeID_def)
  then have "distinct (map sint ids)" using strict_sorted_iff by blast
  with * show ?thesis by (simp add: distinct_map)
qed


abbreviation gen7 :: snowflake where
  "gen7 \<equiv> \<lparr>sf_timestamp = 0, sf_nodeID = 7, sf_sequence = 0\<rparr>"

theorem snowflake_strictly_increasing_witness:
  "NewSnowflake 7 = Inr gen7
   \<and> generate_n 2 gen7 [1700000000000000000, 1700000000000000001]
     = Some ([16012174950428672, 16012174950428673],
         \<lparr>sf_timestamp = 1700000000000, sf_nodeID = 7, sf_sequence = 1\<rparr>, [])
   \<and> sorted_wrt (<) (map sint [16012174950428672, 16012174950428673 :: 64 word])
   \<and> id_NodeID 16012174950428673 = 7"
proof -
  have s: "NewSnowflake 7 = Inr gen7" by code_simp
  have g: "generate_n 2 gen7 [1700000000000000000, 1700000000000000001]
     = Some ([16012174950428672, 16012174950428673],
         \<lparr>sf_timestamp = 1700000000000, sf_nodeID = 7, sf_sequence = 1\<rparr>, [])" by code_simp
  show ?thesis using s g snowflake_strictly_increasing[OF s _ _ g] by simp
qed

text \<open>Decoding undoes encoding: for the identifier one call of \<open>Generate\<close> returns,
  \<open>Parse\<close> gives back the millisecond, node and sequence the call stored, and
  \<open>Time\<close> is the reading of the clock cut down to its millisecond.\<close>

theorem snowflake_parse_roundtrip:
  assumes "sf_ok s" and "sint (sf_timestamp s) * 1000000 < r"
    and "1577836800000 * 1000000 \<le> r" and "r \<le> max_i64"
    and "sf_timestamp s \<noteq> now_ms r" and "generate s (r # rs) = Some (i, s', rs')"
  shows "parse_id i = (sf_timestamp s', sf_nodeID s', sf_sequence s')
    \<and> id_NodeID i = sf_nodeID s \<and> id_Sequence i = 0 \<and> id_Time i = (r div 1000000) * 1000000 \<and> rs' = rs"
proof -
  have "sint (sf_timestamp s) \<le> r div 1000000" using assms(2) by linarith
  then have clk: "clock_ok s [r]" using assms(3,4) by (simp add: clock_ok_def)
  have g: "generate s [r] = Some (i, s', [])" and rs: "rs' = rs"
    and s': "s' = s\<lparr>sf_timestamp := now_ms r, sf_sequence := 0\<rparr>"
    using assms(5,6) by (auto simp: generate_def Let_def)
  note v = generate_value(3)[OF assms(1) clk g]
  have "sint (now_ms r) = r div 1000000" using assms(3,4) by (intro sint_now_ms) auto
  moreover from this have "0 \<le> sint (now_ms r)" using assms(3) by simp
  ultimately show ?thesis
    using v rs by (simp add: s' id_NodeID_def id_Sequence_def id_Time_eq)
qed

theorem snowflake_parse_roundtrip_witness:
  "sf_ok gen7 \<and> generate gen7 [1700000000123456789] = Some (16012174966550528,
      \<lparr>sf_timestamp = 1700000000123, sf_nodeID = 7, sf_sequence = 0\<rparr>, [])
   \<and> id_Time 16012174966550528 = 1700000000123000000"
proof -
  have ok: "sf_ok gen7" by code_simp
  have ne: "sf_timestamp gen7 \<noteq> now_ms 1700000000123456789" by code_simp
  have g: "generate gen7 [1700000000123456789] = Some (16012174966550528,
      \<lparr>sf_timestamp = 1700000000123, sf_nodeID = 7, sf_sequence = 0\<rparr>, [])" by code_simp
  show ?thesis using snowflake_parse_roundtrip[OF ok _ _ _ ne g] ok g by simp
qed

lemma wait_next_dropWhile:
  "wait_next prev now rs =
     (if prev <s now then Some (now, rs)
      else case dropWhile (\<lambda>r. now_ms r <=s prev) rs of [] \<Rightarrow> None | r # rs' \<Rightarrow> Some (now_ms r, rs'))"
  by (induction rs arbitrary: now) (auto simp: word_sle_eq word_sless_alt)

lemma next_sequence_0:
  assumes "sf_ok s"
  shows "(sf_sequence s + 1) AND MaxSequence = (if sf_sequence s = MaxSequence then 0 else sf_sequence s + 1)"
    "(sf_sequence s + 1) AND MaxSequence = 0 \<longleftrightarrow> sf_sequence s = MaxSequence"
proof -
  have "take_bit 12 (sf_sequence s) = sf_sequence s"
    using assms by (simp add: sf_ok_def SequenceBits_def)
  then have u: "uint (sf_sequence s) < 4096" "0 \<le> uint (sf_sequence s)"
    using sint_small[of 12] sint_eq_uint_small[of 12] by auto
  then have p: "uint (sf_sequence s + 1) = uint (sf_sequence s) + 1" by (simp add: uint_word_ariths)
  have "uint (take_bit 12 (sf_sequence s + 1)) = take_bit 12 (uint (sf_sequence s + 1))" by (rule unsigned_take_bit_eq)
  then have t: "uint ((sf_sequence s + 1) AND MaxSequence) = (uint (sf_sequence s) + 1) mod 4096"
    by (simp add: and_4095 p take_bit_eq_mod)
  show eq: "(sf_sequence s + 1) AND MaxSequence = (if sf_sequence s = MaxSequence then 0 else sf_sequence s + 1)"
  proof (cases "sf_sequence s = MaxSequence")
    case False
    then have "uint (sf_sequence s) \<noteq> 4095" by (auto simp: word_uint_eq_iff)
    then have "(uint (sf_sequence s) + 1) mod 4096 = uint (sf_sequence s) + 1" using u by (intro mod_pos_pos_trivial) linarith+
    then show ?thesis using False t p by (simp add: word_uint_eq_iff)
  qed simp
  have "sf_sequence s + 1 \<noteq> 0"
  proof
    assume "sf_sequence s + 1 = 0"
    then have "uint (sf_sequence s + 1) = 0" by simp
    with p u(2) show False by linarith
  qed
  then show "(sf_sequence s + 1) AND MaxSequence = 0 \<longleftrightarrow> sf_sequence s = MaxSequence" unfolding eq by simp
qed

text \<open>C23. \<open>Generate\<close> returns: at once unless the sequence of the current millisecond is used
  up, and then exactly when the clock shows a later millisecond. The identifier is composed of the
  millisecond read and the next sequence number, or of the first later millisecond and 0 after a
  wait, and these become the state.\<close>

theorem snowflake_generate_returns:
  assumes "sf_ok s"
  shows "(sf_timestamp s \<noteq> now_ms r \<longrightarrow> generate s (r # rs)
        = Some (compose (now_ms r) (sf_nodeID s) 0, s\<lparr>sf_timestamp := now_ms r, sf_sequence := 0\<rparr>, rs))
    \<and> (sf_timestamp s = now_ms r \<and> sf_sequence s \<noteq> MaxSequence \<longrightarrow> generate s (r # rs)
        = Some (compose (now_ms r) (sf_nodeID s) (sf_sequence s + 1), s\<lparr>sf_timestamp := now_ms r, sf_sequence := sf_sequence s + 1\<rparr>, rs))
    \<and> (sf_timestamp s = now_ms r \<and> sf_sequence s = MaxSequence \<longrightarrow>
        (\<forall>us r' rs'. rs = us @ r' # rs' \<and> sf_timestamp s <s now_ms r' \<and> list_all (\<lambda>u. \<not> sf_timestamp s <s now_ms u) us \<longrightarrow>
           generate s (r # rs) = Some (compose (now_ms r') (sf_nodeID s) 0, s\<lparr>sf_timestamp := now_ms r', sf_sequence := 0\<rparr>, rs'))
        \<and> (generate s (r # rs) = None \<longleftrightarrow> list_all (\<lambda>u. \<not> sf_timestamp s <s now_ms u) rs))"
proof (intro conjI impI allI)
  show "generate s (r # rs) = Some (compose (now_ms r) (sf_nodeID s) 0, s\<lparr>sf_timestamp := now_ms r, sf_sequence := 0\<rparr>, rs)"
    if "sf_timestamp s \<noteq> now_ms r" using that by (simp add: generate_def Let_def)
  show "generate s (r # rs) = Some (compose (now_ms r) (sf_nodeID s) (sf_sequence s + 1), s\<lparr>sf_timestamp := now_ms r, sf_sequence := sf_sequence s + 1\<rparr>, rs)"
    if "sf_timestamp s = now_ms r \<and> sf_sequence s \<noteq> MaxSequence"
    using that next_sequence_0[OF assms] by (simp add: generate_def Let_def)
  assume used: "sf_timestamp s = now_ms r \<and> sf_sequence s = MaxSequence"
  have le: "now_ms u <=s t \<longleftrightarrow> \<not> t <s now_ms u" for u t by (auto simp: word_sle_eq word_sless_alt)
  have w: "wait_next (sf_timestamp s) (now_ms r) rs
      = (case dropWhile (\<lambda>u. \<not> sf_timestamp s <s now_ms u) rs of [] \<Rightarrow> None | r # rs' \<Rightarrow> Some (now_ms r, rs'))"
    using used by (simp add: wait_next_dropWhile le word_sless_alt)
  have g: "generate s (r # rs) = (case dropWhile (\<lambda>u. \<not> sf_timestamp s <s now_ms u) rs of [] \<Rightarrow> None
      | r' # rs' \<Rightarrow> Some (compose (now_ms r') (sf_nodeID s) 0, s\<lparr>sf_timestamp := now_ms r', sf_sequence := 0\<rparr>, rs'))"
  proof -
    have "generate s (r # rs) = (case wait_next (sf_timestamp s) (now_ms r) rs of None \<Rightarrow> None
        | Some (now', rs') \<Rightarrow> Some (compose now' (sf_nodeID s) 0, s\<lparr>sf_timestamp := now', sf_sequence := 0\<rparr>, rs'))"
      using used next_sequence_0[OF assms] by (simp add: generate_def Let_def)
    then show ?thesis unfolding w by (cases "dropWhile (\<lambda>u. \<not> sf_timestamp s <s now_ms u) rs") (simp_all del: dropWhile_eq_Nil_conv)
  qed
  show "generate s (r # rs) = None \<longleftrightarrow> list_all (\<lambda>u. \<not> sf_timestamp s <s now_ms u) rs"
  proof -
    have "generate s (r # rs) = None \<longleftrightarrow> dropWhile (\<lambda>u. \<not> sf_timestamp s <s now_ms u) rs = []"
      unfolding g by (cases "dropWhile (\<lambda>u. \<not> sf_timestamp s <s now_ms u) rs") (simp_all del: dropWhile_eq_Nil_conv)
    then show ?thesis by (simp add: list_all_iff)
  qed
  fix us r' rs'
  assume rs: "rs = us @ r' # rs' \<and> sf_timestamp s <s now_ms r' \<and> list_all (\<lambda>u. \<not> sf_timestamp s <s now_ms u) us"
  then have "dropWhile (\<lambda>u. \<not> sf_timestamp s <s now_ms u) rs = r' # rs'"
    by (simp add: list_all_iff dropWhile_append2)
  then show "generate s (r # rs) = Some (compose (now_ms r') (sf_nodeID s) 0, s\<lparr>sf_timestamp := now_ms r', sf_sequence := 0\<rparr>, rs')"
    unfolding g by simp
qed

theorem snowflake_generate_returns_witness:
  "generate \<lparr>sf_timestamp = 1700000000000, sf_nodeID = 7, sf_sequence = 4095\<rparr>
     [1700000000000000000, 1700000000000900000, 1700000000001000000]
   = Some (compose 1700000000001 7 0, \<lparr>sf_timestamp = 1700000000001, sf_nodeID = 7, sf_sequence = 0\<rparr>, [])"
proof -
  let ?s = "\<lparr>sf_timestamp = 1700000000000, sf_nodeID = 7, sf_sequence = 4095\<rparr> :: snowflake"
  have ok: "sf_ok ?s" by code_simp
  have m: "sf_timestamp ?s = now_ms 1700000000000000000 \<and> sf_sequence ?s = MaxSequence" by code_simp
  have l: "[1700000000000900000, 1700000000001000000 :: time] = [1700000000000900000] @ 1700000000001000000 # []
      \<and> sf_timestamp ?s <s now_ms 1700000000001000000 \<and> list_all (\<lambda>u. \<not> sf_timestamp ?s <s now_ms u) [1700000000000900000]" by code_simp
  have n: "now_ms 1700000000001000000 = 1700000000001" by code_simp
  from snowflake_generate_returns[OF ok, THEN conjunct2, THEN conjunct2, THEN mp[OF _ m], THEN conjunct1, THEN spec, THEN spec, THEN spec, THEN mp[OF _ l]]
  show ?thesis by (simp add: n)
qed

text \<open>Usage identifiers never collide, whatever resource types and tenants they are made
  for: a batch from one generator under a clock that does not run backwards is distinct.\<close>

theorem usage_ids_distinct:
  assumes "sf_ok s" and "clock_ok s rs" and "generate_usage_ids ks s rs = Some (strs, s', rs')"
  shows "length strs = length ks \<and> distinct strs"
proof -
  from generate_usage_ids_suffixes[OF assms] obtain vs where vs: "length vs = length strs"
    "length strs = length ks" "sorted_wrt (<) vs"
    "\<forall>j < length strs. \<exists>pre. strs ! j = pre @ CHR ''_'' # show_int (vs ! j)" by blast
  have "distinct vs" using vs(3) strict_sorted_iff by blast
  have "strs ! j \<noteq> strs ! k" if jk: "j < length strs" "k < length strs" "j \<noteq> k" for j k
  proof
    assume eq: "strs ! j = strs ! k"
    from vs(4) jk obtain p q where "strs ! j = p @ CHR ''_'' # show_int (vs ! j)"
      "strs ! k = q @ CHR ''_'' # show_int (vs ! k)" by blast
    with eq have "p @ CHR ''_'' # show_int (vs ! j) = q @ CHR ''_'' # show_int (vs ! k)" by simp
    then have "show_int (vs ! j) = show_int (vs ! k)"
      by (rule suffix_unique) (rule underscore_not_in_show)+
    then have "vs ! j = vs ! k" by (rule show_int_inj)
    with \<open>distinct vs\<close> jk vs(1) show False by (simp add: nth_eq_iff_index_eq)
  qed
  then show ?thesis using vs(2) by (simp add: distinct_conv_nth)
qed

theorem usage_ids_distinct_witness:
  "sf_ok gen7 \<and> clock_ok gen7 [1700000000000000000, 1700000000000000001]
   \<and> map_option fst (generate_usage_ids [(''sms'', ''tenant_000001''), (''sms'', ''tenant_000002'')] gen7
        [1700000000000000000, 1700000000000000001])
     = Some [''usage_sms_tenant_0_16012174950428672'', ''usage_sms_tenant_0_16012174950428673'']
   \<and> distinct [''usage_sms_tenant_0_16012174950428672'', ''usage_sms_tenant_0_16012174950428673'']"
proof -
  have 1: "sf_ok gen7" by code_simp
  have 2: "clock_ok gen7 [1700000000000000000, 1700000000000000001]" by code_simp
  have 3: "generate_usage_ids [(''sms'', ''tenant_000001''), (''sms'', ''tenant_000002'')] gen7
        [1700000000000000000, 1700000000000000001]
     = Some ([''usage_sms_tenant_0_16012174950428672'', ''usage_sms_tenant_0_16012174950428673''],
         \<lparr>sf_timestamp = 1700000000000, sf_nodeID = 7, sf_sequence = 1\<rparr>, [])" by code_simp
  from usage_ids_distinct[OF 1 2 3]
  have "distinct [''usage_sms_tenant_0_16012174950428672'', ''usage_sms_tenant_0_16012174950428673'']"
    by (rule conjunct2)
  with 1 2 3 show ?thesis by (simp only: option.map fst_conv simp_thms)
qed

text \<open>When the clock steps back the generator does not notice: it resets its sequence, and
  the same identifier comes out twice (readings 5 ms, 4 ms, 5 ms after a start).\<close>

theorem snowflake_clock_backwards_duplicates:
  "\<exists>s ids s'. NewSnowflake 7 = Inr s \<and>
     generate_n 3 s [1700000000005000000, 1700000000004000000, 1700000000005000000] = Some (ids, s', [])
     \<and> \<not> distinct ids"
proof -
  have "NewSnowflake 7 = Inr gen7" by code_simp
  moreover have "generate_n 3 gen7 [1700000000005000000, 1700000000004000000, 1700000000005000000]
    = Some ([16012174951084032, 16012174950952960, 16012174951084032],
        \<lparr>sf_timestamp = 1700000000005, sf_nodeID = 7, sf_sequence = 0\<rparr>, [])" by code_simp
  ultimately show ?thesis by auto
qed

end
