(* ===== verification/Infra_Breaker.thy ===== *)
theory Infra_Breaker
  imports Breaker
begin

text \<open>
  The circuit breaker of \<open>apps/carrier-connector/internal/infra/circuitbreaker.go\<close>: its
  operations, its use by one caller at a time (an instance of \<open>circuit_breaker\<close>), and its
  use by any number of goroutines, where \<open>allowRequest\<close> gives up its read lock before it
  takes the write lock for the transition to half-open.
\<close>

section \<open>State and operations\<close>

datatype CircuitState = StateClosed | StateOpen | StateHalfOpen

fun CircuitState_String :: "CircuitState \<Rightarrow> string" where
  "CircuitState_String StateClosed = ''closed''"
| "CircuitState_String StateOpen = ''open''"
| "CircuitState_String StateHalfOpen = ''half-open''"

record CircuitBreakerConfig =
  FailureThreshold :: int
  SuccessThreshold :: int
  Timeout :: duration
  HalfOpenMaxCalls :: int

text \<open>The callback \<open>onStateChange\<close> is a flag (set or nil) and the list of its calls.\<close>

record CircuitBreaker =
  cb_name :: string
  cb_state :: CircuitState
  cb_failureCount :: int
  cb_successCount :: int
  cb_lastFailure :: time
  cb_config :: CircuitBreakerConfig
  cb_onStateChange :: bool
  cb_notified :: "(string \<times> CircuitState \<times> CircuitState) list"

definition DefaultCircuitBreakerConfig :: CircuitBreakerConfig where
  "DefaultCircuitBreakerConfig =
     \<lparr>FailureThreshold = 5, SuccessThreshold = 3, Timeout = 30 * second, HalfOpenMaxCalls = 3\<rparr>"

definition NewCircuitBreaker :: "string \<Rightarrow> CircuitBreakerConfig \<Rightarrow> CircuitBreaker" where
  "NewCircuitBreaker name config =
     \<lparr>cb_name = name, cb_state = StateClosed, cb_failureCount = 0, cb_successCount = 0,
      cb_lastFailure = zero_time, cb_config = config, cb_onStateChange = False, cb_notified = []\<rparr>"

definition transitionTo :: "CircuitState \<Rightarrow> CircuitBreaker \<Rightarrow> CircuitBreaker" where
  "transitionTo st cb =
     (if cb_state cb = st then cb
      else let oldState = cb_state cb;
               cb' = cb\<lparr>cb_state := st, cb_failureCount := 0, cb_successCount := 0\<rparr>
           in if cb_onStateChange cb
              then cb'\<lparr>cb_notified := cb_notified cb @ [(cb_name cb, oldState, st)]\<rparr>
              else cb')"

text \<open>\<open>allowRequest\<close> up to the point where it holds no lock: the answer, or \<open>Upgrade\<close>
  when it is about to take the write lock and call \<open>transitionTo(StateHalfOpen)\<close>.\<close>

datatype admission = Admit | Deny | Upgrade

definition allow_check :: "time \<Rightarrow> CircuitBreaker \<Rightarrow> admission" where
  "allow_check now cb =
     (case cb_state cb of
        StateClosed \<Rightarrow> Admit
      | StateOpen \<Rightarrow> (if Timeout (cb_config cb) < time_sub now (cb_lastFailure cb) then Upgrade else Deny)
      | StateHalfOpen \<Rightarrow> Admit)"

definition allowRequest :: "time \<Rightarrow> CircuitBreaker \<Rightarrow> bool \<times> CircuitBreaker" where
  "allowRequest now cb =
     (case allow_check now cb of
        Admit \<Rightarrow> (True, cb)
      | Deny \<Rightarrow> (False, cb)
      | Upgrade \<Rightarrow> (True, transitionTo StateHalfOpen cb))"

definition recordFailure :: "time \<Rightarrow> CircuitBreaker \<Rightarrow> CircuitBreaker" where
  "recordFailure now cb =
     (let cb1 = cb\<lparr>cb_failureCount := i64 (cb_failureCount cb + 1), cb_lastFailure := now\<rparr> in
      case cb_state cb1 of
        StateClosed \<Rightarrow>
          (if FailureThreshold (cb_config cb1) \<le> cb_failureCount cb1 then transitionTo StateOpen cb1 else cb1)
      | StateHalfOpen \<Rightarrow> transitionTo StateOpen cb1
      | StateOpen \<Rightarrow> cb1)"

definition recordSuccess :: "CircuitBreaker \<Rightarrow> CircuitBreaker" where
  "recordSuccess cb =
     (let cb1 = cb\<lparr>cb_successCount := i64 (cb_successCount cb + 1)\<rparr> in
      case cb_state cb1 of
        StateHalfOpen \<Rightarrow>
          (if SuccessThreshold (cb_config cb1) \<le> cb_successCount cb1 then transitionTo StateClosed cb1 else cb1)
      | StateClosed \<Rightarrow> cb1\<lparr>cb_failureCount := 0\<rparr>
      | StateOpen \<Rightarrow> cb1)"

definition recordResult :: "time \<Rightarrow> 'e option \<Rightarrow> CircuitBreaker \<Rightarrow> CircuitBreaker" where
  "recordResult now err cb = (if err \<noteq> None then recordFailure now cb else recordSuccess cb)"

datatype 'e outcome = ErrCircuitOpen | Returned "'e option"

text \<open>\<open>Execute\<close>: \<open>err\<close> is what the protected function returns (None is nil), at time \<open>t'\<close>.\<close>

definition Execute :: "time \<Rightarrow> time \<Rightarrow> 'e option \<Rightarrow> CircuitBreaker \<Rightarrow> 'e outcome \<times> CircuitBreaker" where
  "Execute t t' err cb =
     (let (ok, cb1) = allowRequest t cb in
      if \<not> ok then (ErrCircuitOpen, cb1)
      else (Returned err, recordResult t' err cb1))"

text \<open>\<open>ExecuteWithFallback\<close>: \<open>fallback\<close> is None for a nil fallback, otherwise what it returns.\<close>

definition ExecuteWithFallback ::
  "time \<Rightarrow> time \<Rightarrow> 'e option \<Rightarrow> 'e option option \<Rightarrow> CircuitBreaker \<Rightarrow> 'e outcome \<times> CircuitBreaker" where
  "ExecuteWithFallback t t' err fallback cb =
     (let (ok, cb1) = allowRequest t cb in
      if \<not> ok then
        (case fallback of Some r \<Rightarrow> (Returned r, cb1) | None \<Rightarrow> (ErrCircuitOpen, cb1))
      else
        let cb2 = recordResult t' err cb1 in
        if err \<noteq> None \<and> fallback \<noteq> None then (Returned (the fallback), cb2)
        else (Returned err, cb2))"

record CircuitBreakerStats =
  st_Name :: string
  st_State :: string
  st_FailureCount :: int
  st_SuccessCount :: int
  st_LastFailure :: time

definition breaker_Stats :: "CircuitBreaker \<Rightarrow> CircuitBreakerStats" where
  "breaker_Stats cb =
     \<lparr>st_Name = cb_name cb, st_State = CircuitState_String (cb_state cb),
      st_FailureCount = cb_failureCount cb, st_SuccessCount = cb_successCount cb,
      st_LastFailure = cb_lastFailure cb\<rparr>"

definition OnStateChange :: "bool \<Rightarrow> CircuitBreaker \<Rightarrow> CircuitBreaker" where
  "OnStateChange fn_set cb = cb\<lparr>cb_onStateChange := fn_set\<rparr>"

section \<open>The invariant\<close>

definition thresholds_ok :: "CircuitBreakerConfig \<Rightarrow> bool" where
  "thresholds_ok c \<longleftrightarrow> 1 \<le> FailureThreshold c \<and> FailureThreshold c \<le> max_i64
     \<and> 1 \<le> SuccessThreshold c \<and> SuccessThreshold c \<le> max_i64"

definition cb_inv :: "CircuitBreaker \<Rightarrow> bool" where
  "cb_inv cb \<longleftrightarrow> thresholds_ok (cb_config cb)
     \<and> (cb_state cb = StateClosed \<longrightarrow> 0 \<le> cb_failureCount cb \<and> cb_failureCount cb < FailureThreshold (cb_config cb))
     \<and> (cb_state cb = StateHalfOpen \<longrightarrow> cb_failureCount cb = 0 \<and>
          0 \<le> cb_successCount cb \<and> cb_successCount cb < SuccessThreshold (cb_config cb))"

lemma transitionTo_simps [simp]:
  "cb_state (transitionTo st cb) = st"
  "cb_config (transitionTo st cb) = cb_config cb"
  "cb_lastFailure (transitionTo st cb) = cb_lastFailure cb"
  "cb_name (transitionTo st cb) = cb_name cb"
  "cb_state cb \<noteq> st \<Longrightarrow> cb_failureCount (transitionTo st cb) = 0"
  "cb_state cb \<noteq> st \<Longrightarrow> cb_successCount (transitionTo st cb) = 0"
  by (auto simp: transitionTo_def Let_def)

lemma transitionTo_same: "cb_state cb = st \<Longrightarrow> transitionTo st cb = cb"
  by (simp add: transitionTo_def)

lemma transitionTo_inv: "cb_inv cb \<Longrightarrow> cb_inv (transitionTo st cb)"
  by (cases "cb_state cb = st")
    (auto simp: transitionTo_same cb_inv_def thresholds_ok_def)

lemma recordFailure_inv: "cb_inv cb \<Longrightarrow> cb_inv (recordFailure now cb)"
  by (cases "cb_state cb") (auto simp: recordFailure_def cb_inv_def thresholds_ok_def Let_def)

lemma recordSuccess_inv: "cb_inv cb \<Longrightarrow> cb_inv (recordSuccess cb)"
  by (cases "cb_state cb") (auto simp: recordSuccess_def cb_inv_def thresholds_ok_def Let_def)

lemma recordResult_inv: "cb_inv cb \<Longrightarrow> cb_inv (recordResult now err cb)"
  by (simp add: recordResult_def recordFailure_inv recordSuccess_inv)

lemma allowRequest_inv: "cb_inv cb \<Longrightarrow> cb_inv (snd (allowRequest now cb))"
  by (auto simp: allowRequest_def transitionTo_inv split: admission.splits)

lemma NewCircuitBreaker_inv: "thresholds_ok c \<Longrightarrow> cb_inv (NewCircuitBreaker name c)"
  by (simp add: NewCircuitBreaker_def cb_inv_def thresholds_ok_def)

section \<open>One caller at a time\<close>

fun phase_of :: "CircuitState \<Rightarrow> phase" where
  "phase_of StateClosed = Closed"
| "phase_of StateOpen = Open"
| "phase_of StateHalfOpen = HalfOpen"

lemma phase_of_iff [simp]:
  "phase_of st = Closed \<longleftrightarrow> st = StateClosed"
  "phase_of st = Open \<longleftrightarrow> st = StateOpen"
  "phase_of st = HalfOpen \<longleftrightarrow> st = StateHalfOpen"
  by (cases st; simp)+

interpretation infra: circuit_breaker "\<lambda>cb. phase_of (cb_state cb)" allowRequest recordFailure
    recordSuccess cb_failureCount cb_successCount cb_lastFailure
    "\<lambda>cb. FailureThreshold (cb_config cb)" "\<lambda>cb. SuccessThreshold (cb_config cb)"
    "\<lambda>cb. Timeout (cb_config cb)" cb_inv "\<lambda>_. True"
proof (unfold_locales, goal_cases)
  case (1 s)
  then show ?case by (simp add: cb_inv_def)
next
  case (2 s t)
  then show ?case by (cases "cb_state s") (auto simp: allowRequest_def allow_check_def)
next
  case (3 s t)
  then show ?case by (simp add: allowRequest_def allow_check_def)
next
  case (4 s t)
  then show ?case by (simp add: allowRequest_def allow_check_def transitionTo_inv)
next
  case (5 s t)
  then show ?case using recordFailure_inv[of s t]
    by (auto simp: recordFailure_def Let_def cb_inv_def thresholds_ok_def)
next
  case (6 s t)
  then show ?case using recordFailure_inv[of s t] by (simp add: recordFailure_def Let_def)
next
  case (7 s)
  then show ?case using recordSuccess_inv[of s] by (simp add: recordSuccess_def Let_def)
next
  case (8 s)
  then show ?case using recordSuccess_inv[of s]
    by (auto simp: recordSuccess_def Let_def cb_inv_def thresholds_ok_def)
qed

lemma Execute_protect:
  "Execute t t' err cb =
     (let (ok, cb') = protect allowRequest recordFailure recordSuccess t t' (err \<noteq> None) cb
      in (if ok then Returned err else ErrCircuitOpen, cb'))"
  by (auto simp: Execute_def protect_def recordResult_def Let_def split: prod.splits)

lemma Execute_outcomes:
  "map2 (\<lambda>ok (t, t', err). if ok then Returned err else ErrCircuitOpen) (replicate (length ys) True) ys
     = map (\<lambda>(t, t', err). Returned err) ys"
  "map2 (\<lambda>ok (t, t', err). if ok then Returned err else ErrCircuitOpen) (replicate (length ys) False) ys
     = replicate (length ys) ErrCircuitOpen"
  by (induction ys) auto

text \<open>A caller that makes one call after another.\<close>

fun Execute_all :: "(time \<times> time \<times> 'e option) list \<Rightarrow> CircuitBreaker \<Rightarrow> 'e outcome list \<times> CircuitBreaker" where
  "Execute_all [] cb = ([], cb)"
| "Execute_all ((t, t', err) # cs) cb =
     (let (r, cb1) = Execute t t' err cb; (rs, cb2) = Execute_all cs cb1 in (r # rs, cb2))"

lemma Execute_all_protect:
  "Execute_all cs cb =
    (let (oks, cb') = protect_all allowRequest recordFailure recordSuccess
            (map (\<lambda>(t, t', err). (t, t', err \<noteq> None)) cs) cb
     in (map2 (\<lambda>ok (t, t', err). if ok then Returned err else ErrCircuitOpen) oks cs, cb'))"
  by (induction cs arbitrary: cb) (auto simp: Execute_protect Let_def split: prod.splits)


section \<open>Any number of goroutines\<close>

text \<open>
  A goroutine is idle, between the read lock and the write lock of \<open>allowRequest\<close>
  (\<open>Upgrading\<close>), or inside the protected function. Each event is one critical section
  of the source; the clock is what \<open>time.Now()\<close> reads.
\<close>

datatype goroutine = Idle | Upgrading | Running

datatype cb_event = Tick duration | Enter nat | Promote nat | Finish nat bool

record cb_system =
  sys_cb :: CircuitBreaker
  sys_clock :: time
  sys_pc :: "nat \<Rightarrow> goroutine"

definition init_system :: "CircuitBreakerConfig \<Rightarrow> time \<Rightarrow> cb_system" where
  "init_system c t0 = \<lparr>sys_cb = NewCircuitBreaker ''cb'' c, sys_clock = t0, sys_pc = (\<lambda>_. Idle)\<rparr>"

fun cb_fire :: "cb_event \<Rightarrow> cb_system \<Rightarrow> cb_system option" where
  "cb_fire (Tick d) s = (if 0 \<le> d then Some (s\<lparr>sys_clock := sys_clock s + d\<rparr>) else None)"
| "cb_fire (Enter p) s =
     (if sys_pc s p = Idle then
        (case allow_check (sys_clock s) (sys_cb s) of
           Admit \<Rightarrow> Some (s\<lparr>sys_pc := (sys_pc s)(p := Running)\<rparr>)
         | Deny \<Rightarrow> Some s
         | Upgrade \<Rightarrow> Some (s\<lparr>sys_pc := (sys_pc s)(p := Upgrading)\<rparr>))
      else None)"
| "cb_fire (Promote p) s =
     (if sys_pc s p = Upgrading then
        Some (s\<lparr>sys_cb := transitionTo StateHalfOpen (sys_cb s), sys_pc := (sys_pc s)(p := Running)\<rparr>)
      else None)"
| "cb_fire (Finish p err) s =
     (if sys_pc s p = Running then
        Some (s\<lparr>sys_cb := recordResult (sys_clock s) (if err then Some () else None) (sys_cb s),
                sys_pc := (sys_pc s)(p := Idle)\<rparr>)
      else None)"

fun cb_fires :: "cb_event list \<Rightarrow> cb_system \<Rightarrow> cb_system option" where
  "cb_fires [] s = Some s"
| "cb_fires (e # es) s = (case cb_fire e s of None \<Rightarrow> None | Some s' \<Rightarrow> cb_fires es s')"

inductive cb_reachable :: "CircuitBreakerConfig \<Rightarrow> cb_system \<Rightarrow> bool" for c where
  cb_start: "cb_reachable c (init_system c t0)"
| cb_step: "cb_reachable c s \<Longrightarrow> cb_fire e s = Some s' \<Longrightarrow> cb_reachable c s'"

inductive_cases cb_reachable_elim: "cb_reachable c s"

lemma cb_fires_reachable: "cb_reachable c s \<Longrightarrow> cb_fires es s = Some s' \<Longrightarrow> cb_reachable c s'"
  by (induction es arbitrary: s) (auto split: option.splits intro: cb_step)

lemma recordResult_config [simp]: "cb_config (recordResult t err cb) = cb_config cb"
  by (auto simp: recordResult_def recordFailure_def recordSuccess_def Let_def split: CircuitState.splits)

lemma cb_fire_inv:
  assumes "cb_fire e s = Some s'" "cb_inv (sys_cb s)"
  shows "cb_inv (sys_cb s') \<and> cb_config (sys_cb s') = cb_config (sys_cb s)"
  using assms
  by (cases "(e, s)" rule: cb_fire.cases)
    (auto simp: transitionTo_inv recordResult_inv split: if_splits admission.splits)

section \<open>Properties\<close>

text \<open>C6. However many goroutines share a breaker and however their critical sections
  interleave, its counters stay below the thresholds: a closed breaker has fewer failures than
  the failure threshold, a half-open one no failures and fewer successes than the success
  threshold.\<close>

theorem infra_breaker_invariant:
  assumes "cb_reachable c s" and "thresholds_ok c"
  shows "cb_config (sys_cb s) = c
    \<and> (cb_state (sys_cb s) = StateClosed \<longrightarrow> cb_failureCount (sys_cb s) \<in> {0..<FailureThreshold c})
    \<and> (cb_state (sys_cb s) = StateHalfOpen \<longrightarrow> cb_failureCount (sys_cb s) = 0
          \<and> cb_successCount (sys_cb s) \<in> {0..<SuccessThreshold c})"
proof -
  from assms have "cb_inv (sys_cb s) \<and> cb_config (sys_cb s) = c"
  proof (induction rule: cb_reachable.induct)
    case (cb_start t0)
    then show ?case by (simp add: init_system_def NewCircuitBreaker_inv) (simp add: NewCircuitBreaker_def)
  next
    case (cb_step s e s')
    then show ?case using cb_fire_inv by blast
  qed
  then show ?thesis by (auto simp: cb_inv_def)
qed

abbreviation probe_config :: CircuitBreakerConfig where
  "probe_config \<equiv> \<lparr>FailureThreshold = 1, SuccessThreshold = 1, Timeout = 10, HalfOpenMaxCalls = 1\<rparr>"

definition cb_view :: "cb_system \<Rightarrow> CircuitState \<times> goroutine \<times> goroutine" where
  "cb_view s = (cb_state (sys_cb s), sys_pc s 0, sys_pc s 1)"

theorem infra_breaker_invariant_witness:
  "\<exists>s. cb_reachable probe_config s \<and> cb_state (sys_cb s) = StateHalfOpen
     \<and> cb_failureCount (sys_cb s) = 0 \<and> cb_successCount (sys_cb s) \<in> {0..<1}"
proof -
  let ?es = "[Enter 0, Finish 0 True, Tick 11, Enter 0, Promote 0]"
  have "map_option cb_view (cb_fires ?es (init_system probe_config 0)) = Some (StateHalfOpen, Running, Idle)"
    by code_simp
  then obtain s where s: "cb_fires ?es (init_system probe_config 0) = Some s" "cb_view s = (StateHalfOpen, Running, Idle)"
    by (auto simp del: cb_fires.simps)
  have r: "cb_reachable probe_config s" by (rule cb_fires_reachable[OF cb_start s(1)])
  moreover have "thresholds_ok probe_config" by (simp add: thresholds_ok_def)
  ultimately show ?thesis
    using infra_breaker_invariant[OF r] s(2) by (auto simp: cb_view_def)
qed

text \<open>Tripping: from a fresh breaker, calls that all fail are all executed, and the breaker
  opens exactly when their number reaches the failure threshold; the wait runs from the last
  failure.\<close>

theorem infra_breaker_trips:
  assumes "thresholds_ok c" and "cs \<noteq> []" and "int (length cs) \<le> FailureThreshold c"
    and "\<forall>(t, t', err) \<in> set cs. err \<noteq> None"
    and "Execute_all cs (NewCircuitBreaker name c) = (rs, cb)"
  shows "rs = map (\<lambda>(t, t', err). Returned err) cs
    \<and> (cb_state cb = StateOpen \<longleftrightarrow> int (length cs) = FailureThreshold c)
    \<and> cb_lastFailure cb = fst (snd (last cs))"
proof -
  let ?cb = "NewCircuitBreaker name c" and ?cs = "map (\<lambda>(t, t', err). (t, t', err \<noteq> None)) cs"
  have "\<forall>(t, t', err) \<in> set ?cs. err" using assms(4) by fastforce
  moreover have "int (length ?cs) \<le> FailureThreshold (cb_config ?cb) - cb_failureCount ?cb"
    "phase_of (cb_state ?cb) = Closed" "?cs \<noteq> []"
    using assms(2,3) by (simp_all add: NewCircuitBreaker_def)
  ultimately have r: "fst (infra.run ?cs ?cb) = replicate (length cs) True"
    "phase_of (cb_state (snd (infra.run ?cs ?cb))) = Open \<longleftrightarrow> int (length cs) = FailureThreshold c"
    "cb_lastFailure (snd (infra.run ?cs ?cb)) = fst (snd (last ?cs))"
    using infra.failures_trip[OF NewCircuitBreaker_inv[OF assms(1), of name], of ?cs]
    by (auto simp: NewCircuitBreaker_def)
  have "fst (snd (last ?cs)) = fst (snd (last cs))" using assms(2) by (simp add: last_map split_beta)
  then show ?thesis
    using r assms(5) Execute_outcomes(1)[of cs] by (auto simp: Execute_all_protect split_beta Let_def)
qed

theorem infra_breaker_trips_witness:
  "map cb_state [snd (Execute_all [(1, 2, Some ''e''), (3, 4, Some ''e'')]
      (NewCircuitBreaker ''a'' \<lparr>FailureThreshold = 2, SuccessThreshold = 1, Timeout = 10, HalfOpenMaxCalls = 1\<rparr>))]
   = [StateOpen]"
proof -
  let ?c = "\<lparr>FailureThreshold = 2, SuccessThreshold = 1, Timeout = 10, HalfOpenMaxCalls = 1\<rparr>"
  let ?cs = "[(1, 2, Some ''e''), (3, 4, Some ''e'')]"
  have "thresholds_ok ?c" by (simp add: thresholds_ok_def)
  from infra_breaker_trips[OF this, of ?cs "''a''" "fst (Execute_all ?cs (NewCircuitBreaker ''a'' ?c))"
      "snd (Execute_all ?cs (NewCircuitBreaker ''a'' ?c))"]
  show ?thesis by (simp del: Execute_all.simps)
qed

text \<open>C29. An open breaker answers \<open>ErrCircuitOpen\<close> to every call within the timeout, without
  running it and without changing; a first call after the timeout is a probe, and while the
  calls from it on succeed every one of them is run, the breaker is half-open as long as there are
  fewer than \<open>SuccessThreshold\<close> of them, and closed after exactly that many.\<close>

theorem infra_breaker_recovers:
  assumes "cb_inv cb" and "cb_state cb = StateOpen"
    and "\<forall>(t, t', err) \<in> set waits. time_sub t (cb_lastFailure cb) \<le> Timeout (cb_config cb)"
    and "Timeout (cb_config cb) < time_sub t0 (cb_lastFailure cb)"
    and "\<forall>(t, t', err) \<in> set cs. err = None"
    and "int (Suc (length cs)) \<le> SuccessThreshold (cb_config cb)"
  shows "Execute_all waits cb = (replicate (length waits) ErrCircuitOpen, cb)
    \<and> fst (Execute_all ((t0, t1, None) # cs) cb) = replicate (Suc (length cs)) (Returned None)
    \<and> cb_state (snd (Execute_all ((t0, t1, None) # cs) cb))
        = (if int (Suc (length cs)) = SuccessThreshold (cb_config cb) then StateClosed else StateHalfOpen)
    \<and> cb_failureCount (snd (Execute_all ((t0, t1, None) # cs) cb)) = 0"
proof -
  let ?f = "map (\<lambda>(t, t', err). (t, t', err \<noteq> None))"
  define ys where "ys = ?f cs"
  let ?r = "infra.run ((t0, t1, False) # ys) cb"
  have "\<forall>(t, t', err) \<in> set (?f waits). time_sub t (cb_lastFailure cb) \<le> Timeout (cb_config cb)"
    using assms(3) by fastforce
  with assms(1,2) have w: "infra.run (?f waits) cb = (replicate (length (?f waits)) False, cb)"
    by (intro infra.open_rejects) simp_all
  have wait: "Execute_all waits cb = (replicate (length waits) ErrCircuitOpen, cb)"
    using w Execute_outcomes(2)[of waits]
    by (simp add: Execute_all_protect)
  have "\<forall>(t, t', err) \<in> set ((t0, t1, False) # ys). \<not> err" using assms(5) unfolding ys_def by fastforce
  moreover have l: "length ys = length cs" by (simp add: ys_def)
  ultimately have p: "fst ?r = replicate (Suc (length cs)) True" "cb_inv (snd ?r)"
    "if int (Suc (length cs)) = SuccessThreshold (cb_config cb) then phase_of (cb_state (snd ?r)) = Closed \<and> cb_failureCount (snd ?r) = 0
     else phase_of (cb_state (snd ?r)) = HalfOpen"
    using infra.successes_probe[OF assms(1) _ _ assms(4), of t1 False ys] assms(2,6) by (simp_all del: protect_all.simps)
  have run: "snd (Execute_all ((t0, t1, None) # cs) cb) = snd ?r"
    "fst (Execute_all ((t0, t1, None) # cs) cb) = map (\<lambda>(t, t', err). Returned err) ((t0, t1, None) # cs)"
    using p(1) Execute_outcomes(1)[of "(t0, t1, None) # cs"]
    by (simp_all add: Execute_all_protect[of "(t0, t1, None) # cs"] split_beta Let_def ys_def del: protect_all.simps Execute_all.simps)
  have "map (\<lambda>(t, t', err). Returned err) cs = replicate (length cs) (Returned None)"
    using assms(5) by (induction cs) auto
  then have calls: "fst (Execute_all ((t0, t1, None) # cs) cb) = replicate (Suc (length cs)) (Returned None)" unfolding run(2) by simp
  show ?thesis
  proof (cases "int (Suc (length cs)) = SuccessThreshold (cb_config cb)")
    case True
    then have "cb_state (snd ?r) = StateClosed \<and> cb_failureCount (snd ?r) = 0" using p(3) by (cases "cb_state (snd ?r)") (simp_all del: protect_all.simps)
    then show ?thesis using wait calls True unfolding run(1) by (simp del: protect_all.simps Execute_all.simps)
  next
    case False
    then have h: "cb_state (snd ?r) = StateHalfOpen" using p(3) by (cases "cb_state (snd ?r)") (simp_all del: protect_all.simps)
    then have "cb_failureCount (snd ?r) = 0" using p(2) by (simp add: cb_inv_def del: protect_all.simps)
    then show ?thesis using wait calls False h unfolding run(1) by (simp del: protect_all.simps Execute_all.simps)
  qed
qed

theorem infra_breaker_recovers_witness:
  "let cb = \<lparr>cb_name = ''a'', cb_state = StateOpen, cb_failureCount = 0, cb_successCount = 0,
       cb_lastFailure = 100, cb_config = \<lparr>FailureThreshold = 2, SuccessThreshold = 2, Timeout = 10, HalfOpenMaxCalls = 1\<rparr>,
       cb_onStateChange = True, cb_notified = []\<rparr>
   in cb_inv cb \<and> fst (Execute_all [(105, 106, Some ''e'')] cb) = [ErrCircuitOpen]
      \<and> cb_state (snd (Execute_all [(111, 112, None :: string option)] cb)) = StateHalfOpen
      \<and> cb_state (snd (Execute_all [(111, 112, None :: string option), (113, 114, None)] cb)) = StateClosed"
proof -
  let ?cb = "\<lparr>cb_name = ''a'', cb_state = StateOpen, cb_failureCount = 0, cb_successCount = 0,
       cb_lastFailure = 100, cb_config = \<lparr>FailureThreshold = 2, SuccessThreshold = 2, Timeout = 10, HalfOpenMaxCalls = 1\<rparr>,
       cb_onStateChange = True, cb_notified = []\<rparr>"
  have i: "cb_inv ?cb" by (simp add: cb_inv_def thresholds_ok_def)
  have w: "\<forall>(t, t', err) \<in> set [(105, 106, Some ''e'')]. time_sub t (cb_lastFailure ?cb) \<le> Timeout (cb_config ?cb)"
    "Timeout (cb_config ?cb) < time_sub 111 (cb_lastFailure ?cb)" by (simp_all add: time_sub_def)
  have "fst (Execute_all [(105, 106, Some ''e'')] ?cb) = [ErrCircuitOpen]
      \<and> cb_state (snd (Execute_all [(111, 112, None :: string option), (113, 114, None)] ?cb)) = StateClosed"
    using infra_breaker_recovers[OF i _ w, of "[(113, 114, None :: string option)]" 112] by (simp del: Execute_all.simps)
  moreover have "cb_state (snd (Execute_all [(111, 112, None :: string option)] ?cb)) = StateHalfOpen"
    using infra_breaker_recovers[OF i _ w, of "[] :: (time \<times> time \<times> string option) list" 112] by (simp del: Execute_all.simps)
  ultimately show ?thesis using i by (simp only: Let_def simp_thms)
qed

text \<open>The lock upgrade of \<open>allowRequest\<close> is not atomic: a goroutine that saw the breaker
  open may take the write lock after another one has already probed and closed it, and then
  throws the healthy, closed breaker back to half-open.\<close>

theorem infra_breaker_stale_upgrade:
  "\<exists>s s'. cb_reachable probe_config s \<and> cb_state (sys_cb s) = StateClosed \<and> cb_failureCount (sys_cb s) = 0
     \<and> cb_fire (Promote 1) s = Some s' \<and> cb_state (sys_cb s') = StateHalfOpen"
proof -
  let ?es = "[Enter 0, Finish 0 True, Tick 11, Enter 0, Enter 1, Promote 0, Finish 0 False]"
  have "map_option (\<lambda>s. (cb_view s, cb_failureCount (sys_cb s))) (cb_fires ?es (init_system probe_config 0))
      = Some ((StateClosed, Idle, Upgrading), 0)" by code_simp
  then obtain s where s: "cb_fires ?es (init_system probe_config 0) = Some s"
      "cb_view s = (StateClosed, Idle, Upgrading)" "cb_failureCount (sys_cb s) = 0"
    by (auto simp del: cb_fires.simps)
  have r: "cb_reachable probe_config s" by (rule cb_fires_reachable[OF cb_start s(1)])
  let ?s' = "s\<lparr>sys_cb := transitionTo StateHalfOpen (sys_cb s), sys_pc := (sys_pc s)(1 := Running)\<rparr>"
  have f: "cb_fire (Promote 1) s = Some ?s'" using s(2) by (simp add: cb_view_def)
  have "cb_state (sys_cb s) = StateClosed" "cb_state (sys_cb ?s') = StateHalfOpen"
    using s(2) by (simp_all add: cb_view_def)
  with r s(3) f show ?thesis by blast
qed

text \<open>\<open>HalfOpenMaxCalls\<close> bounds nothing: with \<open>HalfOpenMaxCalls = 1\<close> there are reachable
  half-open states with any number of calls in flight.\<close>

theorem infra_breaker_half_open_unbounded:
  "\<exists>s. cb_reachable probe_config s \<and> cb_state (sys_cb s) = StateHalfOpen
     \<and> card {p. sys_pc s p = Running} = Suc n"
proof -
  have "\<exists>s. cb_reachable probe_config s \<and> cb_state (sys_cb s) = StateHalfOpen
     \<and> (\<forall>p. sys_pc s p = (if p \<le> n then Running else Idle))"
  proof (induction n)
    case 0
    let ?es = "[Enter 0, Finish 0 True, Tick 11, Enter 0, Promote 0]"
    obtain s where s: "cb_fires ?es (init_system probe_config 0) = Some s"
      "cb_state (sys_cb s) = StateHalfOpen" "sys_pc s = (\<lambda>_. Idle)(0 := Running)"
      by (auto simp: init_system_def NewCircuitBreaker_def allow_check_def recordResult_def
          recordFailure_def Let_def time_sub_def)
    then show ?case using cb_fires_reachable[OF cb_start s(1)] by (intro exI[of _ s]) auto
  next
    case (Suc n)
    then obtain s where s: "cb_reachable probe_config s" "cb_state (sys_cb s) = StateHalfOpen"
      "\<forall>p. sys_pc s p = (if p \<le> n then Running else Idle)" by blast
    let ?s = "s\<lparr>sys_pc := (sys_pc s)(Suc n := Running)\<rparr>"
    have "cb_fire (Enter (Suc n)) s = Some ?s" using s(2,3) by (simp add: allow_check_def)
    from cb_step[OF s(1) this] s(2,3) show ?case by (intro exI[of _ ?s]) auto
  qed
  then obtain s where s: "cb_reachable probe_config s" "cb_state (sys_cb s) = StateHalfOpen"
    "\<forall>p. sys_pc s p = (if p \<le> n then Running else Idle)" by blast
  have "{p. sys_pc s p = Running} = {..n}" using s(3) by auto
  then show ?thesis using s by (intro exI[of _ s]) simp
qed

end
