(* ===== verification/Load_Balancer.thy ===== *)
theory Load_Balancer
  imports Carriers "HOL-Library.Multiset"
begin

text \<open>
  The load balancer of the SM-DP+ manager (\<open>apps/carrier-connector/internal/smdp/load_balancer.go\<close>):
  its five strategies. The random source is an argument.
\<close>

section \<open>The load balancer\<close>

datatype LoadBalancingStrategy =
    StrategyRoundRobin
  | StrategyWeightedRoundRobin
  | StrategyLeastConnections
  | StrategyRandom
  | StrategyPriority

record LoadBalancer =
  lb_strategy :: LoadBalancingStrategy
  lb_rrCounter :: int

definition NewLoadBalancer :: LoadBalancer where
  "NewLoadBalancer = \<lparr>lb_strategy = StrategyWeightedRoundRobin, lb_rrCounter = 0\<rparr>"

text \<open>\<open>rand.Intn(n)\<close> panics unless \<open>n\<close> is positive; \<open>r\<close> is the random source.\<close>

definition Intn :: "int \<Rightarrow> int \<Rightarrow> int go" where
  "Intn r n = (if n \<le> 0 then Panics else Returns (r mod n))"

definition roundRobinSelect :: "Carrier list \<Rightarrow> LoadBalancer \<Rightarrow> Carrier \<times> LoadBalancer" where
  "roundRobinSelect carriers lb =
     (carriers ! nat (lb_rrCounter lb mod int (length carriers)),
      lb\<lparr>lb_rrCounter := u64 (lb_rrCounter lb + 1)\<rparr>)"

definition carrier_weight :: "Carrier \<Rightarrow> int go" where
  "carrier_weight carrier = go_bind (deref (car_Metrics carrier)) (\<lambda>m.
     if 0 < TotalRequests m
     then Returns (f64_to_int (f64_mul (f64_of_int (car_Priority carrier)) (success_rate m)))
     else Returns (car_Priority carrier))"

fun pick_weighted :: "int \<Rightarrow> int \<Rightarrow> int list \<Rightarrow> Carrier list \<Rightarrow> Carrier option" where
  "pick_weighted random currentWeight (w # ws) (c # cs) =
     (let cw = i64 (currentWeight + w) in
      if random < cw then Some c else pick_weighted random cw ws cs)"
| "pick_weighted random currentWeight _ _ = None"

definition weightedRoundRobinSelect :: "int \<Rightarrow> Carrier list \<Rightarrow> Carrier go" where
  "weightedRoundRobinSelect r carriers =
     go_bind (go_map carrier_weight carriers) (\<lambda>weights.
       let totalWeight = foldl (\<lambda>t w. i64 (t + w)) 0 weights in
       if totalWeight = 0 then Returns (hd carriers)
       else go_bind (Intn r totalWeight) (\<lambda>random.
         case pick_weighted random 0 weights carriers of
           Some c \<Rightarrow> Returns c
         | None \<Rightarrow> Returns (hd carriers)))"

fun least_loop :: "Carrier list \<Rightarrow> Carrier \<Rightarrow> f64 \<Rightarrow> Carrier go" where
  "least_loop [] bestCarrier minLoad = Returns bestCarrier"
| "least_loop (c # cs) bestCarrier minLoad =
     go_bind (deref (car_Metrics c)) (\<lambda>m.
       if f64_lt (RequestRate m) minLoad then least_loop cs c (RequestRate m)
       else least_loop cs bestCarrier minLoad)"

definition leastConnectionsSelect :: "Carrier list \<Rightarrow> Carrier go" where
  "leastConnectionsSelect carriers =
     go_bind (deref (car_Metrics (hd carriers))) (\<lambda>m. least_loop (tl carriers) (hd carriers) (RequestRate m))"

definition randomSelect :: "int \<Rightarrow> Carrier list \<Rightarrow> Carrier go" where
  "randomSelect r carriers = go_bind (Intn r (int (length carriers))) (\<lambda>i. Returns (carriers ! nat i))"

fun priority_loop :: "Carrier list \<Rightarrow> Carrier \<Rightarrow> int \<Rightarrow> Carrier" where
  "priority_loop [] bestCarrier highestPriority = bestCarrier"
| "priority_loop (c # cs) bestCarrier highestPriority =
     (if highestPriority < car_Priority c then priority_loop cs c (car_Priority c)
      else priority_loop cs bestCarrier highestPriority)"

definition prioritySelect :: "Carrier list \<Rightarrow> Carrier" where
  "prioritySelect carriers = priority_loop (tl carriers) (hd carriers) (car_Priority (hd carriers))"

datatype lb_error = NoCarriersAvailable

definition lb_SelectCarrier :: "int \<Rightarrow> Carrier list \<Rightarrow> LoadBalancer \<Rightarrow> (lb_error + Carrier) go \<times> LoadBalancer" where
  "lb_SelectCarrier r carriers lb =
     (let ok = (\<lambda>res. go_bind res (\<lambda>c. Returns (Inr c))) in
      if carriers = [] then (Returns (Inl NoCarriersAvailable), lb)
      else case lb_strategy lb of
          StrategyRoundRobin \<Rightarrow> (let (c, lb') = roundRobinSelect carriers lb in (Returns (Inr c), lb'))
        | StrategyWeightedRoundRobin \<Rightarrow> (ok (weightedRoundRobinSelect r carriers), lb)
        | StrategyLeastConnections \<Rightarrow> (ok (leastConnectionsSelect carriers), lb)
        | StrategyRandom \<Rightarrow> (ok (randomSelect r carriers), lb)
        | StrategyPriority \<Rightarrow> (Returns (Inr (prioritySelect carriers)), lb))"

section \<open>Shares of the weighted strategy\<close>

lemma foldl_i64_sum:
  "list_all (\<lambda>w. 0 \<le> w) ws \<Longrightarrow> 0 \<le> t \<Longrightarrow> t + sum_list ws \<le> max_i64
   \<Longrightarrow> foldl (\<lambda>t w. i64 (t + w)) t ws = t + sum_list ws"
proof (induction ws arbitrary: t)
  case (Cons w ws)
  have "0 \<le> sum_list ws" using Cons.prems(1) by (auto intro!: sum_list_nonneg simp: list_all_iff)
  then have "i64 (t + w) = t + w" using Cons.prems by (intro i64_id) auto
  then show ?case using Cons.IH[of "t + w"] Cons.prems by (simp add: add.assoc)
qed simp

lemma pick_share:
  assumes "list_all (\<lambda>w. 0 \<le> w) ws" "length cs = length ws" "0 \<le> t" "t + sum_list ws \<le> max_i64"
    and "i < length ws" "t + sum_list (take i ws) \<le> r" "r < t + sum_list (take i ws) + ws ! i"
  shows "pick_weighted r t ws cs = Some (cs ! i)"
  using assms
proof (induction ws arbitrary: t cs i)
  case (Cons w ws)
  then obtain c cs' where cs: "cs = c # cs'" by (cases cs) auto
  have s: "0 \<le> sum_list ws" "0 \<le> sum_list (take j ws)" for j
    using Cons.prems(1) by (auto intro!: sum_list_nonneg simp: list_all_iff dest: in_set_takeD)
  have w: "i64 (t + w) = t + w" using Cons.prems s by (intro i64_id) auto
  show ?case
  proof (cases i)
    case 0
    then show ?thesis using Cons.prems cs w by simp
  next
    case (Suc j)
    have "t + w \<le> r" using Cons.prems(6) s(2)[of j] Suc by simp
    moreover have "pick_weighted r (t + w) ws cs' = Some (cs' ! j)"
      using Cons.prems cs Suc by (intro Cons.IH) (simp_all add: add.assoc)
    ultimately show ?thesis using cs w Suc by simp
  qed
qed simp

lemma take_sum_le:
  "list_all (\<lambda>w. 0 \<le> (w :: int)) ws \<Longrightarrow> i < length ws \<Longrightarrow> sum_list (take i ws) + ws ! i \<le> sum_list ws"
proof (induction ws arbitrary: i)
  case (Cons w ws)
  have "0 \<le> sum_list ws" using Cons.prems(1) by (auto intro!: sum_list_nonneg simp: list_all_iff)
  then show ?case using Cons by (cases i) auto
qed simp

section \<open>Round robin\<close>

fun rr_run :: "nat \<Rightarrow> int list \<Rightarrow> Carrier list \<Rightarrow> LoadBalancer \<Rightarrow> (lb_error + Carrier) go list" where
  "rr_run 0 rs carriers lb = []"
| "rr_run (Suc n) rs carriers lb =
     (let (c, lb') = lb_SelectCarrier (hd rs) carriers lb in c # rr_run n (tl rs) carriers lb')"

lemma rr_run_nth:
  assumes "carriers \<noteq> []" "lb_strategy lb = StrategyRoundRobin" "0 \<le> lb_rrCounter lb"
    "lb_rrCounter lb + int n \<le> 2 ^ 64"
  shows "rr_run n rs carriers lb =
    map (\<lambda>k. Returns (Inr (carriers ! (nat (lb_rrCounter lb + int k) mod length carriers)))) [0..<n]"
  using assms
proof (induction n arbitrary: lb rs)
  case (Suc n)
  let ?lb = "lb\<lparr>lb_rrCounter := u64 (lb_rrCounter lb + 1)\<rparr>"
  have step: "lb_SelectCarrier (hd rs) carriers lb =
      (Returns (Inr (carriers ! (nat (lb_rrCounter lb) mod length carriers))), ?lb)"
    using Suc.prems by (simp add: lb_SelectCarrier_def roundRobinSelect_def nat_mod_distrib)
  show ?case
  proof (cases n)
    case 0
    then show ?thesis using step by simp
  next
    case (Suc m)
    have "lb_rrCounter lb + 1 < 2 ^ 64" using Suc.prems(4) Suc by simp
    then have u: "u64 (lb_rrCounter lb + 1) = lb_rrCounter lb + 1" using Suc.prems(3) by simp
    have "rr_run n (tl rs) carriers ?lb =
        map (\<lambda>k. Returns (Inr (carriers ! (nat (lb_rrCounter ?lb + int k) mod length carriers)))) [0..<n]"
      using Suc.prems u by (intro Suc.IH) simp_all
    then show ?thesis using step u
      by (simp add: map_upt_Suc add.assoc del: upt_Suc)
  qed
qed simp

lemma mset_rotation: "mset (rotate n xs) = mset xs"
  by (metis rotate_drop_take mset_append append_take_drop_id union_commute)

section \<open>Properties\<close>

text \<open>Weighted selection is exactly proportional: when the random source is in the slice of
  length \<open>weight\<close> that belongs to a carrier, that carrier is returned, and nothing panics or
  wraps.\<close>

theorem weighted_selection_shares:
  assumes "go_map carrier_weight carriers = Returns ws" and "list_all (\<lambda>w. 0 \<le> w) ws"
    and "sum_list ws \<le> max_i64" and "i < length carriers"
    and "sum_list (take i ws) \<le> r" and "r < sum_list (take i ws) + ws ! i"
  shows "weightedRoundRobinSelect r carriers = Returns (carriers ! i)"
proof -
  have len: "length ws = length carriers"
    using assms(1) by (simp add: go_map_Returns list_all2_lengthD)
  have t: "sum_list (take i ws) + ws ! i \<le> sum_list ws" using assms(2,4) len by (simp add: take_sum_le)
  have nn: "0 \<le> sum_list (take i ws)"
    using assms(2) by (auto intro!: sum_list_nonneg simp: list_all_iff dest: in_set_takeD)
  then have r: "0 \<le> r" "r < sum_list ws" using assms(5,6) t by auto
  have "pick_weighted r 0 ws carriers = Some (carriers ! i)"
    using assms len by (intro pick_share) simp_all
  moreover have "foldl (\<lambda>t w. i64 (t + w)) 0 ws = sum_list ws"
    using foldl_i64_sum[OF assms(2), of 0] assms(3) by simp
  ultimately show ?thesis using assms(1) r
    by (simp add: weightedRoundRobinSelect_def Let_def Intn_def)
qed

definition demo_carrier :: "string \<Rightarrow> int \<Rightarrow> Carrier" where
  "demo_carrier i p = (ToCarrier 0 \<lparr>cfg_ID = i, cfg_Name = i, cfg_CountryCode = ''KE'', cfg_MCC = ''639'', cfg_MNC = ''02'',
     cfg_ES2BaseURL = ''https://smdp.example.com'', cfg_ES2APIKey = '''', cfg_ES2InsecureSkip = False,
     cfg_Priority = p, cfg_IsActive = True, cfg_MaxConcurrentReqs = 1, cfg_SupportedProfileTypes = [],
     cfg_SupportedMCCs = [], cfg_SupportedMNCs = [], cfg_Features = []\<rparr>)\<lparr>car_HealthStatus := CarrierStatusHealthy\<rparr>"

theorem weighted_selection_shares_witness:
  "weightedRoundRobinSelect 4 [demo_carrier ''a'' 3, demo_carrier ''b'' 2] = Returns (demo_carrier ''b'' 2)"
proof -
  have "go_map carrier_weight [demo_carrier ''a'' 3, demo_carrier ''b'' 2] = Returns [3, 2]"
    by (simp add: carrier_weight_def demo_carrier_def ToCarrier_def new_metrics_def)
  from weighted_selection_shares[OF this, of 1 4] show ?thesis by simp
qed

text \<open>Round robin is fair: as long as its counter does not wrap, any \<open>n\<close> consecutive
  selections among \<open>n\<close> carriers return each of them exactly once.\<close>

theorem round_robin_fair:
  assumes "carriers \<noteq> []" and "lb_strategy lb = StrategyRoundRobin" and "0 \<le> lb_rrCounter lb"
    and "lb_rrCounter lb + int (length carriers) \<le> 2 ^ 64"
  shows "mset (rr_run (length carriers) rs carriers lb) = mset (map (\<lambda>c. Returns (Inr c)) carriers)"
proof -
  let ?n = "length carriers" and ?k = "nat (lb_rrCounter lb)"
  have "rr_run ?n rs carriers lb = map (\<lambda>k. Returns (Inr (carriers ! ((?k + k) mod ?n)))) [0..<?n]"
    unfolding rr_run_nth[OF assms] using assms(3) by (simp add: nat_add_distrib)
  also have "\<dots> = map (\<lambda>c. Returns (Inr c)) (rotate ?k carriers)"
    by (rule nth_equalityI) (simp_all add: nth_rotate)
  also have "mset \<dots> = mset (map (\<lambda>c. Returns (Inr c)) carriers)" by (simp add: mset_rotation)
  finally show ?thesis .
qed

theorem round_robin_fair_witness:
  "mset (rr_run 2 [] [demo_carrier ''a'' 3, demo_carrier ''b'' 2] \<lparr>lb_strategy = StrategyRoundRobin, lb_rrCounter = 7\<rparr>)
   = {#Returns (Inr (demo_carrier ''a'' 3)), Returns (Inr (demo_carrier ''b'' 2))#}"
  using round_robin_fair[of "[demo_carrier ''a'' 3, demo_carrier ''b'' 2]" "\<lparr>lb_strategy = StrategyRoundRobin, lb_rrCounter = 7\<rparr>" "[]"]
  by (simp add: numeral_2_eq_2)

text \<open>A total weight below zero, which a negative priority gives, makes the weighted
  strategy panic in the random generator.\<close>

theorem weighted_negative_panics:
  assumes "go_map carrier_weight carriers = Returns ws" and "foldl (\<lambda>t w. i64 (t + w)) 0 ws < 0"
  shows "weightedRoundRobinSelect r carriers = Panics"
  using assms by (simp add: weightedRoundRobinSelect_def Intn_def Let_def)

theorem weighted_negative_panics_witness:
  "weightedRoundRobinSelect 5 [demo_carrier ''a'' (- 1)] = Panics"
proof -
  have "go_map carrier_weight [demo_carrier ''a'' (- 1)] = Returns [- 1]"
    by (simp add: carrier_weight_def demo_carrier_def ToCarrier_def new_metrics_def)
  from weighted_negative_panics[OF this] show ?thesis by simp
qed

end
