(* ===== verification/Maintenance.thy ===== *)
theory Maintenance
  imports Go_Any Calendar
begin

text \<open>
  Predictive maintenance (\<open>apps/carrier-connector/internal/infra/predictive_maintenance.go\<close>): the assets
  and models the service starts with, the simulated health, the prediction of failures, scheduling
  and the metrics. \<open>now i\<close> is the i-th reading of the clock in a call, \<open>rnd_of\<close> gives the random number
  drawn for an asset, \<open>ks\<close> is the iteration order of the map of assets, and the two formats of a
  percentage and of a time are parameters (\<open>fmts\<close>). The log and the unused database are left out.
\<close>

section \<open>Types\<close>

type_synonym MaintenanceType = string
type_synonym AssetType = string

abbreviation MaintenanceTypePreventive :: MaintenanceType where "MaintenanceTypePreventive \<equiv> ''preventive''"
abbreviation MaintenanceTypeCorrective :: MaintenanceType where "MaintenanceTypeCorrective \<equiv> ''corrective''"
abbreviation MaintenanceTypePredictive :: MaintenanceType where "MaintenanceTypePredictive \<equiv> ''predictive''"
abbreviation MaintenanceTypeEmergency :: MaintenanceType where "MaintenanceTypeEmergency \<equiv> ''emergency''"
abbreviation AssetTypeServer :: AssetType where "AssetTypeServer \<equiv> ''server''"
abbreviation AssetTypeDatabase :: AssetType where "AssetTypeDatabase \<equiv> ''database''"
abbreviation AssetTypeStorage :: AssetType where "AssetTypeStorage \<equiv> ''storage''"
abbreviation AssetTypeApplication :: AssetType where "AssetTypeApplication \<equiv> ''application''"
abbreviation AssetTypeLoadBalancer :: AssetType where "AssetTypeLoadBalancer \<equiv> ''load_balancer''"

record Asset =
  as_ID :: string
  as_Name :: string
  as_Type :: AssetType
  as_Status :: string
  as_Location :: string
  as_HealthScore :: f64
  as_LastMaintenance :: "time option"
  as_NextMaintenance :: "time option"
  as_Metadata :: metadata

record MaintenanceAlert =
  ma_ID :: string
  ma_AssetID :: string
  ma_Type :: MaintenanceType
  ma_Severity :: string
  ma_Title :: string
  ma_Description :: string
  ma_RiskScore :: f64
  ma_PredictedFailure :: "time option"
  ma_Recommendations :: "string list"
  ma_Timestamp :: time
  ma_Status :: string

record MaintenanceMetrics =
  mm_Period :: string
  mm_TotalAssets :: int
  mm_HealthyAssets :: int
  mm_AssetsNeedingAttention :: int
  mm_PreventiveMaintenance :: int
  mm_CorrectiveMaintenance :: int
  mm_EmergencyMaintenance :: int
  mm_Uptime :: f64
  mm_MeanTimeToFailure :: f64
  mm_MeanTimeToRepair :: f64
  mm_GeneratedAt :: time

record MaintenanceModel =
  md_AssetType :: AssetType
  md_Version :: string
  md_LastTrained :: time
  md_Accuracy :: f64
  md_FailureRate :: f64
  md_MTTF :: f64
  md_MTTR :: f64

record PredictiveMaintenanceService =
  pm_assets :: "string \<rightharpoonup> Asset"
  pm_alerts :: "MaintenanceAlert list"
  pm_models :: "AssetType \<rightharpoonup> MaintenanceModel"

datatype maintenance_error = AssetNotFound string | NoModel AssetType

record formats =
  percent1 :: "f64 \<Rightarrow> string"
  rfc3339 :: "time \<Rightarrow> string"

section \<open>The assets and models of a new service\<close>

definition new_asset :: "string \<Rightarrow> string \<Rightarrow> AssetType \<Rightarrow> string \<Rightarrow> f64 \<Rightarrow> metadata \<Rightarrow> Asset" where
  "new_asset i name ty status health md = \<lparr>as_ID = i, as_Name = name, as_Type = ty, as_Status = status, as_Location = ''us-east-1'',
     as_HealthScore = health, as_LastMaintenance = None, as_NextMaintenance = None, as_Metadata = md\<rparr>"

definition default_assets :: "Asset list" where
  "default_assets =
     [new_asset ''api-server-1'' ''API Server 1'' AssetTypeServer ''running'' (f64_lit 95)
        (Some [''cpu_cores'' \<mapsto> AnyInt 8, ''memory_gb'' \<mapsto> AnyInt 32]),
      new_asset ''db-primary'' ''Primary Database'' AssetTypeDatabase ''running'' (f64_lit 92)
        (Some [''engine'' \<mapsto> AnyString ''postgresql'', ''version'' \<mapsto> AnyString ''14'']),
      new_asset ''lb-main'' ''Main Load Balancer'' AssetTypeLoadBalancer ''running'' (f64_lit 98)
        (Some [''connections'' \<mapsto> AnyInt 1000, ''throughput_mbps'' \<mapsto> AnyInt 1000]),
      new_asset ''cache-redis'' ''Redis Cache'' AssetTypeApplication ''running'' (f64_lit 88)
        (Some [''memory_gb'' \<mapsto> AnyInt 16, ''hit_rate'' \<mapsto> AnyFloat (f64_lit (95 / 100))]),
      new_asset ''storage-s3'' ''S3 Storage'' AssetTypeStorage ''healthy'' (f64_lit 99)
        (Some [''capacity_tb'' \<mapsto> AnyInt 100, ''used_tb'' \<mapsto> AnyInt 45])]"

definition initializeAssets :: "PredictiveMaintenanceService \<Rightarrow> PredictiveMaintenanceService" where
  "initializeAssets s = fold (\<lambda>a s. s\<lparr>pm_assets := (pm_assets s)(as_ID a \<mapsto> a)\<rparr>) default_assets s"

definition new_model :: "time \<Rightarrow> AssetType \<Rightarrow> rat \<Rightarrow> rat \<Rightarrow> rat \<Rightarrow> rat \<Rightarrow> MaintenanceModel" where
  "new_model now ty accuracy rate mttf mttr = \<lparr>md_AssetType = ty, md_Version = ''1.0'', md_LastTrained = AddDate 0 0 (- 1) 0 now,
     md_Accuracy = f64_lit accuracy, md_FailureRate = f64_lit rate, md_MTTF = f64_lit mttf, md_MTTR = f64_lit mttr\<rparr>"

definition default_models :: "(nat \<Rightarrow> time) \<Rightarrow> MaintenanceModel list" where
  "default_models now =
     [new_model (now 0) AssetTypeServer (85 / 100) (5 / 100) 8760 4,
      new_model (now 1) AssetTypeDatabase (92 / 100) (2 / 100) 17520 8,
      new_model (now 2) AssetTypeLoadBalancer (88 / 100) (3 / 100) 13140 2,
      new_model (now 3) AssetTypeApplication (78 / 100) (8 / 100) 4380 1,
      new_model (now 4) AssetTypeStorage (95 / 100) (1 / 100) 35040 12]"

definition initializeModels :: "(nat \<Rightarrow> time) \<Rightarrow> PredictiveMaintenanceService \<Rightarrow> PredictiveMaintenanceService" where
  "initializeModels now s = fold (\<lambda>m s. s\<lparr>pm_models := (pm_models s)(md_AssetType m \<mapsto> m)\<rparr>) (default_models now) s"

definition NewPredictiveMaintenanceService :: "(nat \<Rightarrow> time) \<Rightarrow> PredictiveMaintenanceService" where
  "NewPredictiveMaintenanceService now =
     initializeModels now (initializeAssets \<lparr>pm_assets = Map.empty, pm_alerts = [], pm_models = Map.empty\<rparr>)"

section \<open>Prediction\<close>

definition Hours :: "duration \<Rightarrow> f64" where
  "Hours d = f64_add (f64_of_int (go_quot d hour)) (f64_div (f64_of_int (go_rem d hour)) (f64_lit 3600000000000))"

definition calculateFailureProbability :: "time \<Rightarrow> Asset \<Rightarrow> MaintenanceModel \<Rightarrow> f64" where
  "calculateFailureProbability now asset model =
     (let baseProb = md_FailureRate model;
          healthFactor = f64_div (f64_sub (f64_lit 100) (as_HealthScore asset)) (f64_lit 100);
          ageFactor = (case as_LastMaintenance asset of None \<Rightarrow> f64_lit 1
            | Some t \<Rightarrow> f64_min (f64_lit 2) (f64_div (f64_div (Hours (time_sub now t)) (f64_lit 24)) (f64_lit 365)))
      in f64_min (f64_lit 1) (f64_mul (f64_mul baseProb healthFactor) ageFactor))"

definition determineSeverity :: "f64 \<Rightarrow> string" where
  "determineSeverity probability =
     (if f64_ge probability (f64_lit (9 / 10)) then ''critical''
      else if f64_ge probability (f64_lit (7 / 10)) then ''high''
      else if f64_ge probability (f64_lit (5 / 10)) then ''medium''
      else ''low'')"

definition predictFailureTime :: "time \<Rightarrow> Asset \<Rightarrow> MaintenanceModel \<Rightarrow> time option" where
  "predictFailureTime now asset model =
     (let hoursToFailure = f64_mul (md_MTTF model) (f64_div (as_HealthScore asset) (f64_lit 100))
      in Some (now + i64 (f64_to_int hoursToFailure * hour)))"

definition generateMaintenanceRecommendations :: "Asset \<Rightarrow> string list" where
  "generateMaintenanceRecommendations asset =
     (let ty = as_Type asset in
      if ty = AssetTypeServer then [''Check CPU and memory utilization'', ''Review system logs for errors'', ''Update system patches'']
      else if ty = AssetTypeDatabase then [''Run database health check'', ''Optimize query performance'', ''Check disk space and I/O'']
      else if ty = AssetTypeLoadBalancer then [''Review connection limits'', ''Check SSL certificate expiry'', ''Monitor response times'']
      else if ty = AssetTypeApplication then [''Restart application services'', ''Clear application cache'', ''Check for memory leaks'']
      else if ty = AssetTypeStorage then [''Check storage capacity'', ''Run storage health diagnostics'', ''Review backup integrity'']
      else [])"

definition predicted_alert :: "(nat \<Rightarrow> time) \<Rightarrow> string \<Rightarrow> Asset \<Rightarrow> MaintenanceModel \<Rightarrow> f64 \<Rightarrow> MaintenanceAlert" where
  "predicted_alert now i asset model p = \<lparr>ma_ID = ''alert-'' @ show_int (now 1), ma_AssetID = i, ma_Type = MaintenanceTypePredictive,
     ma_Severity = determineSeverity p, ma_Title = ''Predicted failure for '' @ as_Name asset,
     ma_Description = ''Asset '' @ as_Name asset @ '' has high probability of failure'', ma_RiskScore = f64_mul p (f64_lit 100),
     ma_PredictedFailure = predictFailureTime (now 2) asset model, ma_Recommendations = generateMaintenanceRecommendations asset,
     ma_Timestamp = now 3, ma_Status = ''new''\<rparr>"

definition PredictFailure :: "(nat \<Rightarrow> time) \<Rightarrow> string \<Rightarrow> PredictiveMaintenanceService \<Rightarrow>
    (maintenance_error + MaintenanceAlert option) \<times> PredictiveMaintenanceService" where
  "PredictFailure now i s =
     (case pm_assets s i of
        None \<Rightarrow> (Inl (AssetNotFound i), s)
      | Some asset \<Rightarrow> (case pm_models s (as_Type asset) of
          None \<Rightarrow> (Inl (NoModel (as_Type asset)), s)
        | Some model \<Rightarrow>
            let p = calculateFailureProbability (now 0) asset model in
            if f64_gt p (f64_lit (7 / 10))
            then (let alert = predicted_alert now i asset model p in (Inr (Some alert), s\<lparr>pm_alerts := pm_alerts s @ [alert]\<rparr>))
            else (Inr None, s)))"

definition critical_alert :: "formats \<Rightarrow> (nat \<Rightarrow> time) \<Rightarrow> Asset \<Rightarrow> MaintenanceModel \<Rightarrow> f64 \<Rightarrow> MaintenanceAlert" where
  "critical_alert fmt now asset model p = \<lparr>ma_ID = ''alert-'' @ show_int (now 1), ma_AssetID = as_ID asset, ma_Type = MaintenanceTypePredictive,
     ma_Severity = ''critical'', ma_Title = ''Critical: '' @ as_Name asset @ '' likely to fail'',
     ma_Description = ''Asset has '' @ percent1 fmt (f64_mul p (f64_lit 100)) @ ''% probability of failure'',
     ma_RiskScore = f64_mul p (f64_lit 100), ma_PredictedFailure = predictFailureTime (now 2) asset model, ma_Recommendations = [],
     ma_Timestamp = now 3, ma_Status = ''new''\<rparr>"

definition predict_asset :: "formats \<Rightarrow> (string \<Rightarrow> nat \<Rightarrow> time) \<Rightarrow> string \<Rightarrow> PredictiveMaintenanceService \<Rightarrow> PredictiveMaintenanceService" where
  "predict_asset fmt now i s =
     (case pm_assets s i of None \<Rightarrow> s | Some asset \<Rightarrow>
       (case pm_models s (as_Type asset) of None \<Rightarrow> s | Some model \<Rightarrow>
          let p = calculateFailureProbability (now i 0) asset model in
          if f64_gt p (f64_lit (8 / 10)) then s\<lparr>pm_alerts := pm_alerts s @ [critical_alert fmt (now i) asset model p]\<rparr> else s))"

definition predictFailures :: "formats \<Rightarrow> (string \<Rightarrow> nat \<Rightarrow> time) \<Rightarrow> string list \<Rightarrow> PredictiveMaintenanceService \<Rightarrow> PredictiveMaintenanceService" where
  "predictFailures fmt now ks s = fold (predict_asset fmt now) ks s"

section \<open>Health, schedule and reports\<close>

definition next_health :: "f64 \<Rightarrow> f64 \<Rightarrow> f64" where
  "next_health r health =
     (let change = f64_sub (f64_mul r (f64_lit 10)) (f64_lit 5)
      in f64_max (f64_lit 0) (f64_min (f64_lit 100) (f64_add health change)))"

definition updateAssetHealth :: "(string \<Rightarrow> f64) \<Rightarrow> PredictiveMaintenanceService \<Rightarrow> PredictiveMaintenanceService" where
  "updateAssetHealth rnd_of s =
     s\<lparr>pm_assets := (\<lambda>i. map_option (\<lambda>a. a\<lparr>as_HealthScore := next_health (rnd_of i) (as_HealthScore a)\<rparr>) (pm_assets s i))\<rparr>"

text \<open>One tick of the monitor.\<close>

definition monitorAssets :: "formats \<Rightarrow> (string \<Rightarrow> nat \<Rightarrow> time) \<Rightarrow> (string \<Rightarrow> f64) \<Rightarrow> string list \<Rightarrow>
    PredictiveMaintenanceService \<Rightarrow> PredictiveMaintenanceService" where
  "monitorAssets fmt now rnd_of ks s = predictFailures fmt now ks (updateAssetHealth rnd_of s)"

definition ScheduleMaintenance :: "formats \<Rightarrow> (nat \<Rightarrow> time) \<Rightarrow> string \<Rightarrow> string \<Rightarrow> time \<Rightarrow> PredictiveMaintenanceService \<Rightarrow>
    maintenance_error option \<times> PredictiveMaintenanceService" where
  "ScheduleMaintenance fmt now i ty t s =
     (case pm_assets s i of
        None \<Rightarrow> (Some (AssetNotFound i), s)
      | Some asset \<Rightarrow>
          (None, s\<lparr>pm_assets := (pm_assets s)(i \<mapsto> asset\<lparr>as_NextMaintenance := Some t\<rparr>),
             pm_alerts := pm_alerts s @ [\<lparr>ma_ID = ''maintenance-'' @ show_int (now 0), ma_AssetID = i, ma_Type = ty, ma_Severity = ''medium'',
               ma_Title = ''Scheduled maintenance for '' @ as_Name asset, ma_Description = ''Maintenance scheduled for '' @ rfc3339 fmt t,
               ma_RiskScore = f64_lit 0, ma_PredictedFailure = None, ma_Recommendations = [], ma_Timestamp = now 1, ma_Status = ''scheduled''\<rparr>]\<rparr>))"

definition GetMaintenanceAlerts :: "string \<Rightarrow> PredictiveMaintenanceService \<Rightarrow> MaintenanceAlert list" where
  "GetMaintenanceAlerts severity s = filter (\<lambda>a. severity = '''' \<or> ma_Severity a = severity) (pm_alerts s)"

definition count_asset :: "Asset \<Rightarrow> MaintenanceMetrics \<Rightarrow> MaintenanceMetrics" where
  "count_asset a m =
     (let m' = m\<lparr>mm_TotalAssets := mm_TotalAssets m + 1\<rparr>
      in if f64_ge (as_HealthScore a) (f64_lit 80) then m'\<lparr>mm_HealthyAssets := mm_HealthyAssets m + 1\<rparr>
         else if f64_lt (as_HealthScore a) (f64_lit 60) then m'\<lparr>mm_AssetsNeedingAttention := mm_AssetsNeedingAttention m + 1\<rparr>
         else m')"

definition count_maintenance :: "MaintenanceAlert \<Rightarrow> MaintenanceMetrics \<Rightarrow> MaintenanceMetrics" where
  "count_maintenance a m =
     (if ma_Type a = MaintenanceTypePreventive then m\<lparr>mm_PreventiveMaintenance := mm_PreventiveMaintenance m + 1\<rparr>
      else if ma_Type a = MaintenanceTypeCorrective then m\<lparr>mm_CorrectiveMaintenance := mm_CorrectiveMaintenance m + 1\<rparr>
      else if ma_Type a = MaintenanceTypeEmergency then m\<lparr>mm_EmergencyMaintenance := mm_EmergencyMaintenance m + 1\<rparr>
      else m)"

definition GetMaintenanceMetrics :: "time \<Rightarrow> string \<Rightarrow> string list \<Rightarrow> PredictiveMaintenanceService \<Rightarrow> MaintenanceMetrics" where
  "GetMaintenanceMetrics now period ks s =
     (fold count_maintenance (pm_alerts s) (fold count_asset (List.map_filter (pm_assets s) ks)
        \<lparr>mm_Period = period, mm_TotalAssets = 0, mm_HealthyAssets = 0, mm_AssetsNeedingAttention = 0, mm_PreventiveMaintenance = 0,
         mm_CorrectiveMaintenance = 0, mm_EmergencyMaintenance = 0, mm_Uptime = f64_lit 0, mm_MeanTimeToFailure = f64_lit 0,
         mm_MeanTimeToRepair = f64_lit 0, mm_GeneratedAt = now\<rparr>))
     \<lparr>mm_Uptime := f64_lit (995 / 10), mm_MeanTimeToFailure := f64_lit 8760, mm_MeanTimeToRepair := f64_lit 4\<rparr>"

section \<open>Runs of the service\<close>

text \<open>The numbers drawn lie between 0 and 1.\<close>

inductive maintenance_reachable :: "PredictiveMaintenanceService \<Rightarrow> bool" where
  New: "maintenance_reachable (NewPredictiveMaintenanceService now)"
| Tick: "maintenance_reachable s \<Longrightarrow> \<forall>i. f64_in 0 1 (rnd_of i) \<Longrightarrow> maintenance_reachable (monitorAssets fmt now' rnd_of ks s)"
| Predict: "maintenance_reachable s \<Longrightarrow> maintenance_reachable (snd (PredictFailure now i s))"
| Schedule: "maintenance_reachable s \<Longrightarrow> maintenance_reachable (snd (ScheduleMaintenance fmt now i ty t s))"

definition asset_ok :: "string \<Rightarrow> Asset \<Rightarrow> bool" where
  "asset_ok i a \<longleftrightarrow> as_ID a = i \<and> as_LastMaintenance a = None \<and> f64_in 0 100 (as_HealthScore a)"

definition maintenance_ok :: "PredictiveMaintenanceService \<Rightarrow> bool" where
  "maintenance_ok s \<longleftrightarrow> dom (pm_assets s) = set (map as_ID default_assets) \<and> (\<forall>i a. pm_assets s i = Some a \<longrightarrow> asset_ok i a)
     \<and> (\<forall>ty md. pm_models s ty = Some md \<longrightarrow> f64_in 0 (1 / 8) (md_FailureRate md))
     \<and> (\<forall>a \<in> set (pm_alerts s). ma_Severity a = ''medium'' \<and> ma_Status a = ''scheduled'' \<and> ma_PredictedFailure a = None)"

lemma rep64_eighth: "rep64 (1 / 8)" "rep64 (1 / 2)"
  by code_simp+

lemma unlikely:
  assumes "f64_in 0 100 (as_HealthScore a)" "as_LastMaintenance a = None" "f64_in 0 (1 / 8) (md_FailureRate md)"
  shows "f64_in 0 (1 / 8) (calculateFailureProbability now a md)"
proof -
  have h: "f64_in 100 100 (f64_lit 100)" "f64_in 1 1 (f64_lit 1)" by (intro f64_in_lit; simp)+
  have "f64_in (100 - 100) (100 - 0) (f64_sub (f64_lit 100) (as_HealthScore a))" using assms(1) h(1) by (intro f64_in_sub) simp_all
  then have "f64_in (0 / 100) (100 / 100) (f64_div (f64_sub (f64_lit 100) (as_HealthScore a)) (f64_lit 100))"
    using h(1) by (intro f64_in_div) simp_all
  then have "f64_in (0 * 0) (1 / 8 * 1) (f64_mul (md_FailureRate md) (f64_div (f64_sub (f64_lit 100) (as_HealthScore a)) (f64_lit 100)))"
    using assms(3) by (intro f64_in_mul) (simp_all add: rep64_eighth)
  then have "f64_in (0 * 1) (1 / 8 * 1) (f64_mul (f64_mul (md_FailureRate md) (f64_div (f64_sub (f64_lit 100) (as_HealthScore a)) (f64_lit 100))) (f64_lit 1))"
    using h(2) by (intro f64_in_mul) (simp_all add: rep64_eighth)
  from f64_in_min[OF h(2) this] show ?thesis using assms(2) by (simp add: calculateFailureProbability_def)
qed

lemma not_above:
  assumes "f64_in 0 (1 / 8) p" "1 / 2 \<le> r" "r \<le> 1"
  shows "\<not> f64_gt p (f64_lit r)"
proof -
  have "f64_in (1 / 2) 1 (f64_lit r)" using assms(2,3) by (intro f64_in_lit) (simp_all add: rep64_eighth)
  then show ?thesis using assms(1) by (cases p; cases "f64_lit r") auto
qed

lemma model_rates: "pm_models (NewPredictiveMaintenanceService now) ty = Some md \<Longrightarrow> f64_in 0 (1 / 8) (md_FailureRate md)"
proof -
  have r: "f64_in 0 (1 / 8) (f64_lit r)" if "0 \<le> r" "r \<le> 1 / 8" for r
    using that by (intro f64_in_lit) (simp_all add: rep64_eighth)
  assume "pm_models (NewPredictiveMaintenanceService now) ty = Some md"
  then show ?thesis
    by (auto simp: NewPredictiveMaintenanceService_def initializeModels_def initializeAssets_def default_models_def new_model_def
        default_assets_def intro!: r split: if_splits)
qed

lemma new_assets: "pm_assets (NewPredictiveMaintenanceService now) = map_of (map (\<lambda>a. (as_ID a, a)) default_assets)"
  "pm_alerts (NewPredictiveMaintenanceService now) = []"
  by (auto simp: NewPredictiveMaintenanceService_def initializeModels_def initializeAssets_def default_models_def default_assets_def new_asset_def
      intro!: ext)

lemma next_health_range: "f64_in 0 1 r \<Longrightarrow> f64_in 0 100 h \<Longrightarrow> f64_in 0 100 (next_health r h)"
proof -
  assume *: "f64_in 0 1 r" "f64_in 0 100 h"
  have l: "f64_in 10 10 (f64_lit 10)" "f64_in 5 5 (f64_lit 5)" "f64_in 0 0 (f64_lit 0)" "f64_in 100 100 (f64_lit 100)" by (intro f64_in_lit; simp)+
  have "f64_in (0 * 10) (1 * 10) (f64_mul r (f64_lit 10))" using *(1) l(1) by (intro f64_in_mul) simp_all
  then have "f64_in (0 - 5) (10 - 5) (f64_sub (f64_mul r (f64_lit 10)) (f64_lit 5))" using l(2) by (intro f64_in_sub) simp_all
  then have "f64_in (0 + - 5) (100 + 5) (f64_add h (f64_sub (f64_mul r (f64_lit 10)) (f64_lit 5)))" using *(2) by (intro f64_in_add) simp_all
  from f64_in_max[OF l(3) f64_in_min[OF l(4) this]] show ?thesis by (simp add: next_health_def Let_def)
qed

lemma predict_nothing:
  assumes "maintenance_ok s"
  shows "predict_asset fmt now i s = s" "snd (PredictFailure t i s) = s" "pm_assets s i = Some a \<Longrightarrow> pm_models s (as_Type a) = Some md \<Longrightarrow> fst (PredictFailure t i s) = Inr None"
proof -
  have "f64_in 0 (1 / 8) (calculateFailureProbability t a md)" if "pm_assets s i = Some a" "pm_models s (as_Type a) = Some md" for t a md
    using unlikely that assms unfolding maintenance_ok_def asset_ok_def by blast
  from not_above[OF this]
  have n: "\<not> f64_gt (calculateFailureProbability t a md) (f64_lit (7 / 10))" "\<not> f64_gt (calculateFailureProbability t a md) (f64_lit (8 / 10))"
    if "pm_assets s i = Some a" "pm_models s (as_Type a) = Some md" for t a md using that by simp_all
  show "predict_asset fmt now i s = s" "snd (PredictFailure t i s) = s"
    using n by (auto simp: predict_asset_def PredictFailure_def Let_def split: option.splits)
  show "fst (PredictFailure t i s) = Inr None" if "pm_assets s i = Some a" "pm_models s (as_Type a) = Some md"
    using n[OF that] that by (simp add: PredictFailure_def Let_def)
qed

lemma tick_only_health: "maintenance_ok s \<Longrightarrow> predictFailures fmt now ks s = s"
  by (induction ks) (simp_all add: predictFailures_def predict_nothing)

lemma update_ok: "maintenance_ok s \<Longrightarrow> \<forall>i. f64_in 0 1 (rnd_of i) \<Longrightarrow> maintenance_ok (updateAssetHealth rnd_of s)"
  by (auto simp: maintenance_ok_def asset_ok_def updateAssetHealth_def dom_def intro!: next_health_range)

lemma reachable_maintenance_ok: "maintenance_reachable s \<Longrightarrow> maintenance_ok s"
proof (induction rule: maintenance_reachable.induct)
  case (New now)
  have "f64_in 0 100 (f64_lit 95) \<and> f64_in 0 100 (f64_lit 92) \<and> f64_in 0 100 (f64_lit 98) \<and> f64_in 0 100 (f64_lit 88) \<and> f64_in 0 100 (f64_lit 99)"
    by (intro conjI f64_in_lit) simp_all
  then show ?case
    by (auto simp: maintenance_ok_def asset_ok_def new_assets dom_map_of_conv_image_fst model_rates default_assets_def new_asset_def split: if_splits)
next
  case (Tick s rnd_of fmt now' ks)
  then show ?case using update_ok tick_only_health by (simp add: monitorAssets_def)
next
  case (Predict s now i)
  then show ?case by (simp add: predict_nothing)
next
  case (Schedule s fmt now i ty t)
  then show ?case by (auto simp: ScheduleMaintenance_def maintenance_ok_def asset_ok_def split: option.splits if_splits)
qed

text \<open>Whatever the service does, every asset keeps a health score between 0 and 100, and no failure is
  ever predicted: the probability never exceeds an eighth. Asking for a prediction of an asset with a
  model answers with nothing, and every alert is one of a scheduled maintenance of medium severity.\<close>

theorem no_failure_predicted:
  assumes "maintenance_reachable s"
  shows "(\<forall>a \<in> ran (pm_assets s). f64_in 0 100 (as_HealthScore a))
    \<and> snd (PredictFailure now i s) = s \<and> (\<forall>a. fst (PredictFailure now i s) \<noteq> Inr (Some a))
    \<and> predictFailures fmt now' ks s = s
    \<and> GetMaintenanceAlerts ''critical'' s = [] \<and> GetMaintenanceAlerts ''medium'' s = pm_alerts s"
proof -
  note ok = reachable_maintenance_ok[OF assms]
  have "fst (PredictFailure now i s) \<noteq> Inr (Some a)" for a
  proof (cases "pm_assets s i")
    case (Some as)
    then show ?thesis using predict_nothing(3)[OF ok Some] by (cases "pm_models s (as_Type as)") (auto simp: PredictFailure_def)
  qed (simp add: PredictFailure_def)
  moreover have "GetMaintenanceAlerts ''critical'' s = []" "GetMaintenanceAlerts ''medium'' s = pm_alerts s"
    using ok by (auto simp: GetMaintenanceAlerts_def filter_empty_conv filter_id_conv maintenance_ok_def)
  moreover have "\<forall>a \<in> ran (pm_assets s). f64_in 0 100 (as_HealthScore a)"
    using ok by (auto simp: maintenance_ok_def asset_ok_def ran_def)
  ultimately show ?thesis using predict_nothing(2)[OF ok] tick_only_health[OF ok] by blast
qed

text \<open>The metrics partition the assets.\<close>

lemma count_assets: "let m' = fold count_asset as m in
    mm_TotalAssets m' = mm_TotalAssets m + int (length as)
    \<and> mm_HealthyAssets m' = mm_HealthyAssets m + int (length (filter (\<lambda>a. f64_ge (as_HealthScore a) (f64_lit 80)) as))
    \<and> mm_AssetsNeedingAttention m' = mm_AssetsNeedingAttention m
        + int (length (filter (\<lambda>a. \<not> f64_ge (as_HealthScore a) (f64_lit 80) \<and> f64_lt (as_HealthScore a) (f64_lit 60)) as))
    \<and> mm_PreventiveMaintenance m' = mm_PreventiveMaintenance m"
  by (induction as arbitrary: m) (simp_all add: Let_def count_asset_def)

lemma count_maintenances: "let m' = fold count_maintenance as m in
    mm_TotalAssets m' = mm_TotalAssets m \<and> mm_HealthyAssets m' = mm_HealthyAssets m
    \<and> mm_AssetsNeedingAttention m' = mm_AssetsNeedingAttention m
    \<and> mm_PreventiveMaintenance m' = mm_PreventiveMaintenance m + int (length (filter (\<lambda>a. ma_Type a = MaintenanceTypePreventive) as))"
  by (induction as arbitrary: m) (simp_all add: Let_def count_maintenance_def)

lemma map_filter_length: "iterates m ks \<Longrightarrow> length (List.map_filter m ks) = length ks"
proof -
  have "set ks \<subseteq> dom m \<Longrightarrow> length (List.map_filter m ks) = length ks" by (induction ks) (auto simp: List.map_filter_simps)
  then show "iterates m ks \<Longrightarrow> ?thesis" by (simp add: iterates_def)
qed

text \<open>The metrics always count five assets, of which the healthy ones and those needing attention are
  disjoint parts, and the preventive maintenances that were scheduled; the uptime is 99.5 whatever
  happened.\<close>

theorem maintenance_metrics:
  assumes "maintenance_reachable s" "iterates (pm_assets s) ks"
  shows "let m = GetMaintenanceMetrics now period ks s in
    mm_TotalAssets m = 5 \<and> mm_HealthyAssets m + mm_AssetsNeedingAttention m \<le> 5 \<and> 0 \<le> mm_HealthyAssets m \<and> 0 \<le> mm_AssetsNeedingAttention m
    \<and> mm_PreventiveMaintenance m = int (length (filter (\<lambda>a. ma_Type a = MaintenanceTypePreventive) (pm_alerts s)))
    \<and> mm_Uptime m = f64_lit (995 / 10)"
proof -
  have "card (dom (pm_assets s)) = 5"
    using reachable_maintenance_ok[OF assms(1)] by (simp add: maintenance_ok_def default_assets_def new_asset_def)
  then have n: "length (List.map_filter (pm_assets s) ks) = 5" using map_filter_length[OF assms(2)] iterates_length[OF assms(2)] by simp
  have "length (filter P as) + length (filter (\<lambda>a. \<not> P a \<and> Q a) as) \<le> length as" for P Q and as :: "Asset list" by (induction as) auto
  from this[of "\<lambda>a. f64_ge (as_HealthScore a) (f64_lit 80)" "List.map_filter (pm_assets s) ks" "\<lambda>a. f64_lt (as_HealthScore a) (f64_lit 60)"]
  show ?thesis using n
    count_assets[of "List.map_filter (pm_assets s) ks" "\<lparr>mm_Period = period, mm_TotalAssets = 0, mm_HealthyAssets = 0, mm_AssetsNeedingAttention = 0, mm_PreventiveMaintenance = 0,
         mm_CorrectiveMaintenance = 0, mm_EmergencyMaintenance = 0, mm_Uptime = f64_lit 0, mm_MeanTimeToFailure = f64_lit 0,
         mm_MeanTimeToRepair = f64_lit 0, mm_GeneratedAt = now\<rparr>"]
    by (simp add: GetMaintenanceMetrics_def Let_def count_maintenances[unfolded Let_def])
qed

definition demo_maintenance :: PredictiveMaintenanceService where
  "demo_maintenance = snd (ScheduleMaintenance \<lparr>percent1 = (\<lambda>_. ''''), rfc3339 = (\<lambda>_. '''')\<rparr> (\<lambda>_. 0) ''lb-main'' MaintenanceTypePreventive 5
     (NewPredictiveMaintenanceService (\<lambda>_. 0)))"

lemma demo_maintenance_reachable: "maintenance_reachable demo_maintenance"
  unfolding demo_maintenance_def by (intro maintenance_reachable.intros)

theorem no_failure_predicted_witness: "GetMaintenanceAlerts ''critical'' demo_maintenance = []"
  using no_failure_predicted[OF demo_maintenance_reachable] by blast

theorem maintenance_metrics_witness:
  "mm_TotalAssets (GetMaintenanceMetrics 7 ''daily'' [''api-server-1'', ''db-primary'', ''lb-main'', ''cache-redis'', ''storage-s3''] demo_maintenance) = 5"
proof -
  have "iterates (pm_assets demo_maintenance) [''api-server-1'', ''db-primary'', ''lb-main'', ''cache-redis'', ''storage-s3'']"
    using reachable_maintenance_ok[OF demo_maintenance_reachable]
    by (simp add: maintenance_ok_def iterates_def default_assets_def new_asset_def)
  from maintenance_metrics[OF demo_maintenance_reachable this] show ?thesis by (simp add: Let_def)
qed

end
