(* ===== verification/Monitoring.thy ===== *)
theory Monitoring
  imports Go_Any
begin

text \<open>
  Health checks and alerts of the API server (\<open>apps/api-server/internal/monitoring\<close>: \<open>health.go\<close>, \<open>alerting.go\<close>).
  What a checker answers within ten seconds, the statistics of the database and of the runtime, and the formatting
  of numbers are parameters. The notifications are recorded in the state.
\<close>

section \<open>Health checks\<close>

type_synonym HealthStatus = string

abbreviation StatusHealthy :: HealthStatus where "StatusHealthy \<equiv> ''healthy''"
abbreviation StatusDegraded :: HealthStatus where "StatusDegraded \<equiv> ''degraded''"
abbreviation StatusUnhealthy :: HealthStatus where "StatusUnhealthy \<equiv> ''unhealthy''"

record HealthCheck =
  hc_Name :: string
  hc_Status :: HealthStatus
  hc_Message :: string
  hc_LastChecked :: time
  hc_ResponseTime :: duration
  hc_Metadata :: metadata

record HealthSummary =
  hs_Total :: int
  hs_Healthy :: int
  hs_Degraded :: int
  hs_Unhealthy :: int

record SystemHealth =
  sh_Status :: HealthStatus
  sh_Timestamp :: time
  sh_Uptime :: duration
  sh_Version :: string
  sh_Environment :: string
  sh_Checks :: "string \<rightharpoonup> HealthCheck"
  sh_Summary :: HealthSummary

text \<open>\<open>'c\<close> are the checkers; \<open>ask c\<close> is what one answers, \<open>None\<close> that it does not answer in time.\<close>

record 'c HealthMonitor =
  hm_checks :: "string \<rightharpoonup> 'c"
  hm_startTime :: time
  hm_version :: string
  hm_env :: string

definition NewHealthMonitor :: "string \<Rightarrow> string \<Rightarrow> time \<Rightarrow> 'c HealthMonitor" where
  "NewHealthMonitor version environment now = \<lparr>hm_checks = Map.empty, hm_startTime = now, hm_version = version, hm_env = environment\<rparr>"

definition RegisterCheck :: "string \<Rightarrow> 'c \<Rightarrow> 'c HealthMonitor \<Rightarrow> 'c HealthMonitor" where
  "RegisterCheck name checker hm = hm\<lparr>hm_checks := (hm_checks hm)(name \<mapsto> checker)\<rparr>"

definition timed_out :: "string \<Rightarrow> HealthCheck" where
  "timed_out name = \<lparr>hc_Name = name, hc_Status = StatusUnhealthy, hc_Message = ''Health check timed out'', hc_LastChecked = zero_time,
     hc_ResponseTime = 10 * second, hc_Metadata = None\<rparr>"

definition count_status :: "HealthStatus \<Rightarrow> HealthSummary \<Rightarrow> HealthSummary" where
  "count_status st s = (let s1 = s\<lparr>hs_Total := i64 (hs_Total s + 1)\<rparr> in
     if st = StatusHealthy then s1\<lparr>hs_Healthy := i64 (hs_Healthy s1 + 1)\<rparr>
     else if st = StatusDegraded then s1\<lparr>hs_Degraded := i64 (hs_Degraded s1 + 1)\<rparr>
     else if st = StatusUnhealthy then s1\<lparr>hs_Unhealthy := i64 (hs_Unhealthy s1 + 1)\<rparr>
     else s1)"

text \<open>\<open>order\<close> is the order in which the map of the checks is visited, \<open>now\<close> the readings of the clock.\<close>

fun run_checks ::
  "('c \<Rightarrow> HealthCheck option) \<Rightarrow> (string \<rightharpoonup> 'c) \<Rightarrow> (string \<Rightarrow> time) \<Rightarrow> string list \<Rightarrow> (string \<rightharpoonup> HealthCheck) \<times> HealthSummary \<Rightarrow>
    (string \<rightharpoonup> HealthCheck) \<times> HealthSummary" where
  "run_checks ask checks now [] acc = acc"
| "run_checks ask checks now (name # names) (results, summary) =
     (case checks name of
        None \<Rightarrow> run_checks ask checks now names (results, summary)
      | Some checker \<Rightarrow>
          let result = (case ask checker of Some r \<Rightarrow> r | None \<Rightarrow> timed_out name)\<lparr>hc_LastChecked := now name\<rparr> in
          run_checks ask checks now names (results(name \<mapsto> result), count_status (hc_Status result) summary))"

definition overall_status :: "HealthSummary \<Rightarrow> HealthStatus" where
  "overall_status s = (if 0 < hs_Unhealthy s then StatusUnhealthy else if 0 < hs_Degraded s then StatusDegraded else StatusHealthy)"

definition no_checks :: HealthSummary where
  "no_checks = \<lparr>hs_Total = 0, hs_Healthy = 0, hs_Degraded = 0, hs_Unhealthy = 0\<rparr>"

definition CheckHealth :: "('c \<Rightarrow> HealthCheck option) \<Rightarrow> string list \<Rightarrow> (string \<Rightarrow> time) \<Rightarrow> time \<Rightarrow> time \<Rightarrow> 'c HealthMonitor \<Rightarrow> SystemHealth" where
  "CheckHealth ask order now end1 end2 hm =
     (case run_checks ask (hm_checks hm) now order (Map.empty, no_checks) of (results, summary) \<Rightarrow>
        \<lparr>sh_Status = overall_status summary, sh_Timestamp = end1, sh_Uptime = time_sub end2 (hm_startTime hm), sh_Version = hm_version hm,
         sh_Environment = hm_env hm, sh_Checks = results, sh_Summary = summary\<rparr>)"

section \<open>The checkers\<close>

record DBStats =
  ds_MaxOpenConnections :: int
  ds_OpenConnections :: int
  ds_InUse :: int
  ds_Idle :: int
  ds_WaitDuration :: string

text \<open>A check that was made in \<open>elapsed\<close>. Counters of other integer types are values no assertion of the code
  matches.\<close>

definition check_of :: "string \<Rightarrow> HealthStatus \<Rightarrow> string \<Rightarrow> duration \<Rightarrow> metadata \<Rightarrow> HealthCheck" where
  "check_of name st msg elapsed md = \<lparr>hc_Name = name, hc_Status = st, hc_Message = msg, hc_LastChecked = zero_time, hc_ResponseTime = elapsed, hc_Metadata = md\<rparr>"

definition pool_metadata :: "DBStats \<Rightarrow> string \<rightharpoonup> go_any" where
  "pool_metadata stats = [''open_connections'' \<mapsto> AnyInt (ds_OpenConnections stats), ''in_use'' \<mapsto> AnyInt (ds_InUse stats),
     ''idle'' \<mapsto> AnyInt (ds_Idle stats), ''wait_count'' \<mapsto> AnyOther ''int64'', ''wait_duration'' \<mapsto> AnyString (ds_WaitDuration stats),
     ''max_idle_closed'' \<mapsto> AnyOther ''int64'', ''max_idle_time_closed'' \<mapsto> AnyOther ''int64'', ''max_lifetime_closed'' \<mapsto> AnyOther ''int64'']"

definition DatabaseHealthChecker_CheckHealth :: "string + (string option \<times> DBStats) \<Rightarrow> duration \<Rightarrow> HealthCheck" where
  "DatabaseHealthChecker_CheckHealth db elapsed =
     (case db of
        Inl e \<Rightarrow> check_of ''database'' StatusUnhealthy (''Failed to get database instance: '' @ e) elapsed None
      | Inr (Some e, _) \<Rightarrow> check_of ''database'' StatusUnhealthy (''Database ping failed: '' @ e) elapsed None
      | Inr (None, stats) \<Rightarrow>
          if i64 (ds_MaxOpenConnections stats - 5) \<le> ds_OpenConnections stats
          then check_of ''database'' StatusDegraded ''Database connection pool nearly full'' elapsed (Some (pool_metadata stats))
          else check_of ''database'' StatusHealthy ''Database connection successful'' elapsed (Some (pool_metadata stats)))"

definition PrometheusHealthChecker_CheckHealth :: "bool \<Rightarrow> duration \<Rightarrow> HealthCheck" where
  "PrometheusHealthChecker_CheckHealth available elapsed =
     (if \<not> available then check_of ''prometheus'' StatusUnhealthy ''Prometheus service unavailable'' elapsed None
      else check_of ''prometheus'' StatusHealthy ''Prometheus service available'' elapsed None)"

definition KubernetesHealthChecker_CheckHealth :: "bool \<Rightarrow> duration \<Rightarrow> HealthCheck" where
  "KubernetesHealthChecker_CheckHealth available elapsed =
     (if \<not> available then check_of ''kubernetes'' StatusDegraded ''Kubernetes service unavailable'' elapsed None
      else check_of ''kubernetes'' StatusHealthy ''Kubernetes service available'' elapsed None)"

record MemStats =
  me_Alloc :: int
  me_Sys :: int

definition in_mb :: "int \<Rightarrow> f64" where
  "in_mb n = f64_div (f64_div (f64_of_int n) (f64_lit 1024)) (f64_lit 1024)"

definition memory_percent :: "MemStats \<Rightarrow> f64" where
  "memory_percent m = f64_mul (f64_div (in_mb (me_Alloc m)) (in_mb (me_Sys m))) (f64_lit 100)"

text \<open>The number of goroutines is read twice.\<close>

definition SystemHealthChecker_CheckHealth :: "MemStats \<Rightarrow> int \<Rightarrow> int \<Rightarrow> duration \<Rightarrow> HealthCheck" where
  "SystemHealthChecker_CheckHealth m g1 g2 elapsed =
     (let p = memory_percent m;
          md = [''memory_usage_mb'' \<mapsto> AnyFloat (in_mb (me_Alloc m)), ''memory_limit_mb'' \<mapsto> AnyFloat (in_mb (me_Sys m)),
                ''memory_usage_percent'' \<mapsto> AnyFloat p, ''goroutines'' \<mapsto> AnyInt g1, ''gc_cycles'' \<mapsto> AnyOther ''uint32'',
                ''heap_alloc'' \<mapsto> AnyOther ''uint64'', ''heap_sys'' \<mapsto> AnyOther ''uint64'', ''heap_objects'' \<mapsto> AnyOther ''uint64''];
          (st, msg) = (if f64_gt p (f64_lit 90) then (StatusUnhealthy, ''High memory usage (>90%)'')
            else if f64_gt p (f64_lit 75) then (StatusDegraded, ''Moderate memory usage (>75%)'')
            else (StatusHealthy, ''System resources healthy''));
          (st', msg') = (if 1000 < g2 \<and> st = StatusHealthy then (StatusDegraded, ''High goroutine count'') else (st, msg))
      in check_of ''system'' st' msg' elapsed (Some md))"

section \<open>HTTP endpoints\<close>

text \<open>The status of the answer; \<open>None\<close> is a monitor that has not been initialised.\<close>

definition HealthHandler :: "SystemHealth option \<Rightarrow> int" where
  "HealthHandler h = (case h of None \<Rightarrow> 503 | Some health \<Rightarrow> if sh_Status health = StatusUnhealthy then 503 else 200)"

definition ReadyHandler :: "SystemHealth option \<Rightarrow> int \<times> bool" where
  "ReadyHandler h = (case h of None \<Rightarrow> (503, False)
     | Some health \<Rightarrow> let ready = (sh_Status health \<noteq> StatusUnhealthy) in (if \<not> ready then 503 else 200, ready))"

section \<open>Alerts\<close>

type_synonym AlertSeverity = string
type_synonym AlertStatus = string

abbreviation SeverityWarning :: AlertSeverity where "SeverityWarning \<equiv> ''warning''"
abbreviation StatusFiring :: AlertStatus where "StatusFiring \<equiv> ''firing''"
abbreviation StatusResolved :: AlertStatus where "StatusResolved \<equiv> ''resolved''"

record Alert =
  al_ID :: string
  al_Name :: string
  al_Description :: string
  al_Severity :: AlertSeverity
  al_Status :: AlertStatus
  al_Timestamp :: time
  al_Labels :: "string \<rightharpoonup> string"
  al_Annotations :: "string \<rightharpoonup> string"
  al_LastEvaluated :: time

record AlertRule =
  ar_ID :: string
  ar_Name :: string
  ar_Description :: string
  ar_Severity :: AlertSeverity
  ar_Query :: string
  ar_Threshold :: f64
  ar_Duration :: duration
  ar_Labels :: "string \<rightharpoonup> string"
  ar_Enabled :: bool

datatype notification = SendAlert Alert | ResolveAlert string

record AlertManager =
  am_rules :: "string \<rightharpoonup> AlertRule"
  am_alerts :: "string \<rightharpoonup> Alert"
  am_notified :: "notification list"

definition NewAlertManager :: AlertManager where
  "NewAlertManager = \<lparr>am_rules = Map.empty, am_alerts = Map.empty, am_notified = []\<rparr>"

definition AddRule :: "AlertRule \<Rightarrow> AlertManager \<Rightarrow> AlertManager" where
  "AddRule rule am = am\<lparr>am_rules := (am_rules am)(ar_ID rule \<mapsto> rule)\<rparr>"

definition RemoveRule :: "string \<Rightarrow> AlertManager \<Rightarrow> AlertManager" where
  "RemoveRule i am = am\<lparr>am_rules := (am_rules am)(i := None), am_alerts := (am_alerts am)(i := None)\<rparr>"

definition GetRules :: "AlertManager \<Rightarrow> string \<rightharpoonup> AlertRule" where "GetRules am = am_rules am"

definition GetAlerts :: "AlertManager \<Rightarrow> string \<rightharpoonup> Alert" where "GetAlerts am = am_alerts am"

text \<open>What an evaluation sees: the health of the monitor, if there is one, and the check of the system.\<close>

record eval_env =
  ev_health :: "SystemHealth option"
  ev_system :: HealthCheck

definition health_value :: "HealthStatus \<Rightarrow> f64" where
  "health_value st = (if st = StatusDegraded then f64_lit 1 else if st = StatusUnhealthy then f64_lit 2 else f64_lit 0)"

definition evaluateHealthCheck :: "eval_env \<Rightarrow> AlertRule \<Rightarrow> string + bool \<times> f64" where
  "evaluateHealthCheck ev rule = (case ev_health ev of None \<Rightarrow> Inl ''health monitor not available''
     | Some health \<Rightarrow> let v = health_value (sh_Status health) in Inr (f64_ge v (ar_Threshold rule), v))"

definition evaluateSystemMemory :: "eval_env \<Rightarrow> AlertRule \<Rightarrow> string + bool \<times> f64" where
  "evaluateSystemMemory ev rule =
     (let v = (case meta_get (hc_Metadata (ev_system ev)) ''memory_usage_percent'' of Some (AnyFloat x) \<Rightarrow> x | _ \<Rightarrow> f64_lit 0)
      in Inr (f64_ge v (ar_Threshold rule), v))"

definition evaluateSystemGoroutines :: "eval_env \<Rightarrow> AlertRule \<Rightarrow> string + bool \<times> f64" where
  "evaluateSystemGoroutines ev rule =
     (let v = (case meta_get (hc_Metadata (ev_system ev)) ''goroutines'' of Some (AnyInt n) \<Rightarrow> f64_of_int n | _ \<Rightarrow> f64_lit 0)
      in Inr (f64_ge v (ar_Threshold rule), v))"

definition evaluateDatabaseConnections :: "eval_env \<Rightarrow> AlertRule \<Rightarrow> string + bool \<times> f64" where
  "evaluateDatabaseConnections ev rule =
     (case ev_health ev of
        None \<Rightarrow> Inl ''health monitor not available''
      | Some health \<Rightarrow> (case sh_Checks health ''database'' of
          None \<Rightarrow> Inl ''database health check not registered''
        | Some dbCheck \<Rightarrow>
            (case (meta_get (hc_Metadata dbCheck) ''open_connections'', meta_get (hc_Metadata dbCheck) ''in_use'') of
               (Some (AnyInt openConns), Some (AnyInt inUse)) \<Rightarrow>
                 if openConns = 0 then Inr (False, f64_lit 0)
                 else let v = f64_mul (f64_div (f64_of_int inUse) (f64_of_int openConns)) (f64_lit 100) in Inr (f64_ge v (ar_Threshold rule), v)
             | _ \<Rightarrow> Inr (False, f64_lit 0))))"

definition EvaluateRule :: "eval_env \<Rightarrow> AlertRule \<Rightarrow> string + bool \<times> f64" where
  "EvaluateRule ev rule =
     (if ar_Query rule = ''health_check'' then evaluateHealthCheck ev rule
      else if ar_Query rule = ''system_memory'' then evaluateSystemMemory ev rule
      else if ar_Query rule = ''system_goroutines'' then evaluateSystemGoroutines ev rule
      else if ar_Query rule = ''database_connections'' then evaluateDatabaseConnections ev rule
      else Inl (''unknown alert query: '' @ ar_Query rule))"

text \<open>\<open>fmt2\<close> is \<open>%.2f\<close>.\<close>

definition new_alert :: "(f64 \<Rightarrow> string) \<Rightarrow> AlertRule \<Rightarrow> f64 \<Rightarrow> time \<Rightarrow> time \<Rightarrow> Alert" where
  "new_alert fmt2 rule v now1 now2 = \<lparr>al_ID = ar_ID rule, al_Name = ar_Name rule,
     al_Description = ar_Description rule @ '' (current: '' @ fmt2 v @ '', threshold: '' @ fmt2 (ar_Threshold rule) @ '')'',
     al_Severity = ar_Severity rule, al_Status = StatusFiring, al_Timestamp = now1, al_Labels = ar_Labels rule,
     al_Annotations = [''threshold'' \<mapsto> fmt2 (ar_Threshold rule), ''value'' \<mapsto> fmt2 v, ''query'' \<mapsto> ar_Query rule], al_LastEvaluated = now2\<rparr>"

definition handleRuleEvaluation :: "(f64 \<Rightarrow> string) \<Rightarrow> AlertRule \<Rightarrow> bool \<Rightarrow> f64 \<Rightarrow> time \<Rightarrow> time \<Rightarrow> AlertManager \<Rightarrow> AlertManager" where
  "handleRuleEvaluation fmt2 rule shouldAlert v now1 now2 am =
     (let alert = am_alerts am (ar_ID rule) in
      if shouldAlert \<and> (case alert of None \<Rightarrow> True | Some a \<Rightarrow> al_Status a = StatusResolved) then
        let a = new_alert fmt2 rule v now1 now2 in
        am\<lparr>am_alerts := (am_alerts am)(ar_ID rule \<mapsto> a), am_notified := am_notified am @ [SendAlert a]\<rparr>
      else if \<not> shouldAlert then
        (case alert of
           Some a \<Rightarrow> if al_Status a = StatusFiring
             then am\<lparr>am_alerts := (am_alerts am)(ar_ID rule \<mapsto> a\<lparr>al_Status := StatusResolved, al_LastEvaluated := now1\<rparr>),
                     am_notified := am_notified am @ [ResolveAlert (al_ID a)]\<rparr>
             else am
         | None \<Rightarrow> am)
      else am)"

text \<open>The loop over the copy of the rules; \<open>ev\<close> and \<open>now\<close> are what each evaluation sees.\<close>

fun evaluate_copied ::
  "(f64 \<Rightarrow> string) \<Rightarrow> (string \<rightharpoonup> AlertRule) \<Rightarrow> (string \<Rightarrow> eval_env) \<Rightarrow> (string \<Rightarrow> time \<times> time) \<Rightarrow> string list \<Rightarrow> AlertManager \<Rightarrow> AlertManager" where
  "evaluate_copied fmt2 rules ev now [] am = am"
| "evaluate_copied fmt2 rules ev now (i # is) am =
     evaluate_copied fmt2 rules ev now is
       (case rules i of
          None \<Rightarrow> am
        | Some rule \<Rightarrow> if \<not> ar_Enabled rule then am
            else (case EvaluateRule (ev i) rule of Inl _ \<Rightarrow> am | Inr (b, v) \<Rightarrow> handleRuleEvaluation fmt2 rule b v (fst (now i)) (snd (now i)) am))"

text \<open>\<open>EvaluateRules\<close> is a whole evaluation with nothing in between. The code locks once to copy the
  rules and once in each \<open>handleRuleEvaluation\<close>; a change of the rules that comes between is a call
  of \<open>evaluate_copied\<close> with the rules copied before it, as in the theorem on removed rules below, while the
  runs of \<open>am_step\<close> take every evaluation as completed before the next operation starts.\<close>

definition EvaluateRules :: "(f64 \<Rightarrow> string) \<Rightarrow> (string \<Rightarrow> eval_env) \<Rightarrow> (string \<Rightarrow> time \<times> time) \<Rightarrow> string list \<Rightarrow> AlertManager \<Rightarrow> AlertManager" where
  "EvaluateRules fmt2 ev now order am = evaluate_copied fmt2 (am_rules am) ev now order am"

definition default_rule :: "string \<Rightarrow> string \<Rightarrow> string \<Rightarrow> string \<Rightarrow> f64 \<Rightarrow> (string \<rightharpoonup> string) \<Rightarrow> AlertRule" where
  "default_rule i name desc query threshold labels = \<lparr>ar_ID = i, ar_Name = name, ar_Description = desc, ar_Severity = SeverityWarning, ar_Query = query,
     ar_Threshold = threshold, ar_Duration = 5 * minute, ar_Labels = labels, ar_Enabled = True\<rparr>"

definition InitializeAlertManager :: AlertManager where
  "InitializeAlertManager =
     AddRule (default_rule ''high_goroutine_count'' ''High Goroutine Count'' ''System has too many goroutines'' ''system_goroutines'' (f64_lit 1000)
        [''component'' \<mapsto> ''system'', ''metric'' \<mapsto> ''goroutines''])
     (AddRule (default_rule ''high_memory_usage'' ''High Memory Usage'' ''System memory usage is high'' ''system_memory'' (f64_lit 80)
        [''component'' \<mapsto> ''system'', ''metric'' \<mapsto> ''memory''])
     (AddRule (default_rule ''system_health'' ''System Health Check'' ''System health is degraded or unhealthy'' ''health_check'' (f64_lit 1)
        [''component'' \<mapsto> ''system'', ''check'' \<mapsto> ''health'']) NewAlertManager))"

section \<open>Health of the system\<close>

definition answer_of :: "('c \<Rightarrow> HealthCheck option) \<Rightarrow> (string \<Rightarrow> time) \<Rightarrow> string \<Rightarrow> 'c \<Rightarrow> HealthCheck" where
  "answer_of ask now name c = (case ask c of Some r \<Rightarrow> r | None \<Rightarrow> timed_out name)\<lparr>hc_LastChecked := now name\<rparr>"

definition with_status :: "('c \<Rightarrow> HealthCheck option) \<Rightarrow> (string \<Rightarrow> time) \<Rightarrow> (string \<rightharpoonup> 'c) \<Rightarrow> string list \<Rightarrow> HealthStatus \<Rightarrow> int" where
  "with_status ask now checks names st = int (length (filter (\<lambda>n. map_option (\<lambda>c. hc_Status (answer_of ask now n c)) (checks n) = Some st) names))"

lemma count_status_fields:
  assumes "0 \<le> hs_Total s" "hs_Total s < max_i64" "0 \<le> hs_Healthy s" "hs_Healthy s < max_i64" "0 \<le> hs_Degraded s" "hs_Degraded s < max_i64"
    "0 \<le> hs_Unhealthy s" "hs_Unhealthy s < max_i64"
  shows "hs_Total (count_status st s) = hs_Total s + 1"
    "hs_Healthy (count_status st s) = hs_Healthy s + (if st = StatusHealthy then 1 else 0)"
    "hs_Degraded (count_status st s) = hs_Degraded s + (if st = StatusDegraded then 1 else 0)"
    "hs_Unhealthy (count_status st s) = hs_Unhealthy s + (if st = StatusUnhealthy then 1 else 0)"
  using assms by (auto simp: count_status_def Let_def)

lemma run_checks_result:
  assumes "set names \<subseteq> dom checks" "distinct names"
    "\<forall>f \<in> {hs_Total, hs_Healthy, hs_Degraded, hs_Unhealthy}. 0 \<le> f s \<and> f s + int (length names) \<le> max_i64"
  shows "fst (run_checks ask checks now names (res, s)) n = (if n \<in> set names then map_option (answer_of ask now n) (checks n) else res n)
    \<and> hs_Total (snd (run_checks ask checks now names (res, s))) = hs_Total s + int (length names)
    \<and> hs_Healthy (snd (run_checks ask checks now names (res, s))) = hs_Healthy s + with_status ask now checks names StatusHealthy
    \<and> hs_Degraded (snd (run_checks ask checks now names (res, s))) = hs_Degraded s + with_status ask now checks names StatusDegraded
    \<and> hs_Unhealthy (snd (run_checks ask checks now names (res, s))) = hs_Unhealthy s + with_status ask now checks names StatusUnhealthy"
  using assms
proof (induction names arbitrary: res s)
  case Nil
  then show ?case by (simp add: with_status_def)
next
  case (Cons m names)
  obtain c where c: "checks m = Some c" using Cons.prems(1) by auto
  let ?r = "answer_of ask now m c"
  let ?s = "count_status (hc_Status ?r) s"
  have f: "hs_Total ?s = hs_Total s + 1" "hs_Healthy ?s = hs_Healthy s + (if hc_Status ?r = StatusHealthy then 1 else 0)"
    "hs_Degraded ?s = hs_Degraded s + (if hc_Status ?r = StatusDegraded then 1 else 0)"
    "hs_Unhealthy ?s = hs_Unhealthy s + (if hc_Status ?r = StatusUnhealthy then 1 else 0)"
    using Cons.prems(3) by (intro count_status_fields; simp)+
  have "\<forall>f \<in> {hs_Total, hs_Healthy, hs_Degraded, hs_Unhealthy}. 0 \<le> f ?s \<and> f ?s + int (length names) \<le> max_i64"
    using Cons.prems(3) f by simp
  moreover have "set names \<subseteq> dom checks" "distinct names" using Cons.prems(1,2) by simp_all
  ultimately have ih: "fst (run_checks ask checks now names (res(m \<mapsto> ?r), ?s)) n = (if n \<in> set names then map_option (answer_of ask now n) (checks n) else (res(m \<mapsto> ?r)) n)"
    "hs_Total (snd (run_checks ask checks now names (res(m \<mapsto> ?r), ?s))) = hs_Total ?s + int (length names)"
    "hs_Healthy (snd (run_checks ask checks now names (res(m \<mapsto> ?r), ?s))) = hs_Healthy ?s + with_status ask now checks names StatusHealthy"
    "hs_Degraded (snd (run_checks ask checks now names (res(m \<mapsto> ?r), ?s))) = hs_Degraded ?s + with_status ask now checks names StatusDegraded"
    "hs_Unhealthy (snd (run_checks ask checks now names (res(m \<mapsto> ?r), ?s))) = hs_Unhealthy ?s + with_status ask now checks names StatusUnhealthy"
    using Cons.IH[of ?s "res(m \<mapsto> ?r)"] by blast+
  have run: "run_checks ask checks now (m # names) (res, s) = run_checks ask checks now names (res(m \<mapsto> ?r), ?s)"
    by (simp add: c answer_of_def Let_def)
  have w: "with_status ask now checks (m # names) st = (if hc_Status ?r = st then 1 else 0) + with_status ask now checks names st" for st
    by (simp add: with_status_def c)
  show ?case unfolding run ih f w by (simp add: c)
qed

lemma no_status: "with_status ask now checks names st = 0 \<longleftrightarrow> (\<forall>n \<in> set names. map_option (\<lambda>c. hc_Status (answer_of ask now n c)) (checks n) \<noteq> Some st)"
  by (simp add: with_status_def filter_empty_conv)

lemma with_status_nonneg: "0 \<le> with_status ask now checks names st"
  by (simp add: with_status_def)

text \<open>C36. Every registered check is made and counted once, a check without an answer counts as unhealthy, and the
  server is ready exactly when no check is unhealthy, healthy exactly when none is degraded either.\<close>

theorem readiness_is_worst_check:
  assumes "iterates (hm_checks hm) order" "int (length order) \<le> max_i64" "health = CheckHealth ask order now end1 end2 hm"
  shows "dom (sh_Checks health) = dom (hm_checks hm) \<and> hs_Total (sh_Summary health) = int (card (dom (hm_checks hm)))
    \<and> (snd (ReadyHandler (Some health)) \<longleftrightarrow> (\<forall>n c. hm_checks hm n = Some c \<longrightarrow> (\<exists>r. ask c = Some r \<and> hc_Status r \<noteq> StatusUnhealthy)))
    \<and> (sh_Status health = StatusHealthy \<longleftrightarrow> (\<forall>n c. hm_checks hm n = Some c \<longrightarrow> (\<exists>r. ask c = Some r \<and> hc_Status r \<notin> {StatusUnhealthy, StatusDegraded})))"
proof -
  have it: "set order = dom (hm_checks hm)" "distinct order" using assms(1) by (simp_all add: iterates_def)
  obtain results summary where rs: "run_checks ask (hm_checks hm) now order (Map.empty, no_checks) = (results, summary)" by fastforce
  have b: "\<forall>f \<in> {hs_Total, hs_Healthy, hs_Degraded, hs_Unhealthy}. 0 \<le> f no_checks \<and> f no_checks + int (length order) \<le> max_i64"
    using assms(2) by (simp add: no_checks_def)
  note r = run_checks_result[OF _ it(2) b, of "hm_checks hm" ask now Map.empty, unfolded rs, simplified, folded it(1), simplified]
  have res: "results n = map_option (answer_of ask now n) (hm_checks hm n)" for n
    using r[of n] it(1) by (auto simp: domIff)
  have cnt: "hs_Total summary = int (length order)" "hs_Degraded summary = with_status ask now (hm_checks hm) order StatusDegraded"
    "hs_Unhealthy summary = with_status ask now (hm_checks hm) order StatusUnhealthy"
    using r by (simp_all add: no_checks_def)
  have st: "0 < with_status ask now (hm_checks hm) order st \<longleftrightarrow> (\<exists>n c. hm_checks hm n = Some c \<and> hc_Status (answer_of ask now n c) = st)" for st
    using no_status[of ask now "hm_checks hm" order st] with_status_nonneg[of ask now "hm_checks hm" order st] it(1) by (auto simp: order.order_iff_strict)
  have au: "hc_Status (answer_of ask now n c) = StatusUnhealthy \<longleftrightarrow> \<not> (\<exists>r. ask c = Some r \<and> hc_Status r \<noteq> StatusUnhealthy)" for n c
    by (cases "ask c") (simp_all add: answer_of_def timed_out_def)
  have ad: "hc_Status (answer_of ask now n c) = StatusDegraded \<longleftrightarrow> (\<exists>r. ask c = Some r \<and> hc_Status r = StatusDegraded)" for n c
    by (cases "ask c") (simp_all add: answer_of_def timed_out_def)
  have h: "sh_Checks health = results" "sh_Summary health = summary" "sh_Status health = overall_status summary"
    using assms(3) rs by (simp_all add: CheckHealth_def)
  have d: "dom (sh_Checks health) = dom (hm_checks hm)" by (auto simp: h res dom_def)
  have t: "hs_Total (sh_Summary health) = int (card (dom (hm_checks hm)))"
    using cnt(1) iterates_length[OF assms(1)] by (simp add: h)
  have u: "sh_Status health \<noteq> StatusUnhealthy \<longleftrightarrow> (\<forall>n c. hm_checks hm n = Some c \<longrightarrow> (\<exists>r. ask c = Some r \<and> hc_Status r \<noteq> StatusUnhealthy))"
    unfolding h overall_status_def cnt st au by auto
  have "sh_Status health = StatusHealthy \<longleftrightarrow> sh_Status health \<noteq> StatusUnhealthy
      \<and> \<not> (\<exists>n c. hm_checks hm n = Some c \<and> (\<exists>r. ask c = Some r \<and> hc_Status r = StatusDegraded))"
    unfolding h overall_status_def cnt st ad by simp
  then have g: "sh_Status health = StatusHealthy \<longleftrightarrow> (\<forall>n c. hm_checks hm n = Some c \<longrightarrow> (\<exists>r. ask c = Some r \<and> hc_Status r \<notin> {StatusUnhealthy, StatusDegraded}))"
    unfolding u by fastforce
  have "snd (ReadyHandler (Some health)) \<longleftrightarrow> sh_Status health \<noteq> StatusUnhealthy" by (simp add: ReadyHandler_def Let_def)
  then show ?thesis using d t u g by blast
qed

section \<open>Notifications\<close>

fun about :: "string \<Rightarrow> notification \<Rightarrow> bool" where
  "about i (SendAlert a) \<longleftrightarrow> al_ID a = i"
| "about i (ResolveAlert j) \<longleftrightarrow> j = i"

fun is_send :: "notification \<Rightarrow> bool" where
  "is_send (SendAlert _) = True"
| "is_send (ResolveAlert _) = False"

definition notes_of :: "string \<Rightarrow> AlertManager \<Rightarrow> bool list" where
  "notes_of i am = map is_send (filter (about i) (am_notified am))"

fun alternates :: "bool \<Rightarrow> bool list \<Rightarrow> bool" where
  "alternates b [] = True"
| "alternates b (x # xs) \<longleftrightarrow> x = b \<and> alternates (\<not> b) xs"

lemma alternates_snoc: "alternates b (xs @ [x]) \<longleftrightarrow> alternates b xs \<and> x = (if xs = [] then b else \<not> last xs)"
  by (induction xs arbitrary: b) auto

definition firing :: "string \<Rightarrow> AlertManager \<Rightarrow> bool" where
  "firing i am \<longleftrightarrow> (\<exists>a. am_alerts am i = Some a \<and> al_Status a = StatusFiring)"

definition manager_ok :: "AlertManager \<Rightarrow> bool" where
  "manager_ok am \<longleftrightarrow> (\<forall>i a. am_alerts am i = Some a \<longrightarrow> al_ID a = i \<and> al_Status a \<in> {StatusFiring, StatusResolved})
     \<and> (\<forall>i r. am_rules am i = Some r \<longrightarrow> ar_ID r = i)"

definition notes_ok :: "string \<Rightarrow> AlertManager \<Rightarrow> bool" where
  "notes_ok i am \<longleftrightarrow> alternates True (notes_of i am) \<and> (firing i am \<longleftrightarrow> notes_of i am \<noteq> [] \<and> last (notes_of i am)) \<and> (am_alerts am i = None \<longrightarrow> notes_of i am = [])"

lemma handle_rules [simp]: "am_rules (handleRuleEvaluation fmt2 rule b v t u am) = am_rules am"
  by (auto simp: handleRuleEvaluation_def Let_def split: option.splits)

lemma handle_ok: "manager_ok am \<Longrightarrow> manager_ok (handleRuleEvaluation fmt2 rule b v t u am)"
  by (auto simp: manager_ok_def handleRuleEvaluation_def Let_def new_alert_def split: option.splits if_splits)

lemma handle_other:
  assumes "manager_ok am" "ar_ID rule \<noteq> i"
  shows "am_alerts (handleRuleEvaluation fmt2 rule b v t u am) i = am_alerts am i" "notes_of i (handleRuleEvaluation fmt2 rule b v t u am) = notes_of i am"
  using assms by (auto simp: manager_ok_def notes_of_def handleRuleEvaluation_def Let_def new_alert_def split: option.splits if_splits)

lemma handle_notes:
  assumes "manager_ok am" "notes_ok i am"
  shows "notes_ok i (handleRuleEvaluation fmt2 rule b v t u am)"
proof (cases "ar_ID rule = i")
  case False
  then show ?thesis using assms handle_other[OF assms(1) False] by (simp add: notes_ok_def firing_def)
next
  case True
  show ?thesis
  proof (cases "am_alerts am i")
    case None
    then show ?thesis using assms(2) True
      by (cases b) (auto simp: notes_ok_def notes_of_def firing_def handleRuleEvaluation_def Let_def new_alert_def)
  next
    case (Some a)
    have a: "al_ID a = i" "al_Status a = StatusFiring \<or> al_Status a = StatusResolved" using assms(1) Some by (auto simp: manager_ok_def)
    show ?thesis using assms(2) True Some a
      by (cases b) (auto simp: notes_ok_def notes_of_def firing_def handleRuleEvaluation_def Let_def new_alert_def alternates_snoc)
  qed
qed

lemma evaluate_copied_all:
  "manager_ok am \<Longrightarrow> manager_ok (evaluate_copied fmt2 rules ev now is am) \<and> (notes_ok i am \<longrightarrow> notes_ok i (evaluate_copied fmt2 rules ev now is am))
    \<and> am_rules (evaluate_copied fmt2 rules ev now is am) = am_rules am"
proof (induction "is" arbitrary: am)
  case (Cons j "is")
  let ?am = "case rules j of None \<Rightarrow> am
        | Some rule \<Rightarrow> if \<not> ar_Enabled rule then am
            else (case EvaluateRule (ev j) rule of Inl _ \<Rightarrow> am | Inr (b, v) \<Rightarrow> handleRuleEvaluation fmt2 rule b v (fst (now j)) (snd (now j)) am)"
  have "manager_ok ?am" "notes_ok i am \<longrightarrow> notes_ok i ?am" "am_rules ?am = am_rules am"
    using handle_ok handle_notes Cons.prems by (auto split: option.splits sum.splits)
  then show ?case using Cons.IH[of ?am] by simp
qed auto

lemma evaluate_copied_ok:
  assumes "manager_ok am"
  shows "manager_ok (evaluate_copied fmt2 rules ev now is am)" "notes_ok i am \<Longrightarrow> notes_ok i (evaluate_copied fmt2 rules ev now is am)"
    "am_rules (evaluate_copied fmt2 rules ev now is am) = am_rules am"
  using evaluate_copied_all[OF assms] by blast+

text \<open>The operations and their runs.\<close>

datatype monitor_op = OpAdd AlertRule | OpRemove string | OpEvaluate "string \<Rightarrow> eval_env" "string \<Rightarrow> time \<times> time" "string list"

fun am_step :: "(f64 \<Rightarrow> string) \<Rightarrow> monitor_op \<Rightarrow> AlertManager \<Rightarrow> AlertManager" where
  "am_step fmt2 (OpAdd r) am = AddRule r am"
| "am_step fmt2 (OpRemove i) am = RemoveRule i am"
| "am_step fmt2 (OpEvaluate ev now order) am = EvaluateRules fmt2 ev now order am"

lemma am_step_ok: "manager_ok am \<Longrightarrow> manager_ok (am_step fmt2 op am)"
  by (cases op) (auto simp: EvaluateRules_def evaluate_copied_ok, auto simp: manager_ok_def AddRule_def RemoveRule_def)

lemma am_step_notes: "manager_ok am \<Longrightarrow> notes_ok i am \<Longrightarrow> op \<noteq> OpRemove i \<Longrightarrow> notes_ok i (am_step fmt2 op am)"
  by (cases op) (auto simp: EvaluateRules_def evaluate_copied_ok, auto simp: notes_ok_def notes_of_def firing_def AddRule_def RemoveRule_def)

lemma new_manager_ok: "manager_ok NewAlertManager" "notes_ok i NewAlertManager"
  by (simp_all add: manager_ok_def notes_ok_def notes_of_def firing_def NewAlertManager_def)

text \<open>C35. As long as a rule is not removed, its notifications alternate: an alert is sent, then resolved, then sent
  again, and the alert is firing exactly when the last one was a sent alert. An alert is never silenced.\<close>

theorem notifications_alternate:
  assumes "am = fold (am_step fmt2) ops NewAlertManager" "OpRemove i \<notin> set ops"
  shows "alternates True (notes_of i am) \<and> (firing i am \<longleftrightarrow> notes_of i am \<noteq> [] \<and> last (notes_of i am))
    \<and> (\<forall>a. am_alerts am i = Some a \<longrightarrow> al_ID a = i \<and> al_Status a \<in> {StatusFiring, StatusResolved})"
proof -
  have "manager_ok (fold (am_step fmt2) ops m) \<and> notes_ok i (fold (am_step fmt2) ops m)" if "manager_ok m" "notes_ok i m" for m
    using that assms(2) by (induction ops arbitrary: m) (auto simp: am_step_ok am_step_notes)
  from this[OF new_manager_ok] have ok: "manager_ok am" "notes_ok i am" using assms(1) by auto
  then show ?thesis by (auto simp: manager_ok_def notes_ok_def)
qed

section \<open>Removed rules\<close>

lemma handle_fires: "manager_ok am \<Longrightarrow> firing (ar_ID rule) (handleRuleEvaluation fmt2 rule True v t u am)"
  by (auto simp: manager_ok_def firing_def handleRuleEvaluation_def Let_def new_alert_def split: option.splits)

lemma evaluate_copied_other:
  assumes "manager_ok am" "\<forall>j r. rules j = Some r \<longrightarrow> ar_ID r = j" "rules i = None \<or> i \<notin> set is"
  shows "am_alerts (evaluate_copied fmt2 rules ev now is am) i = am_alerts am i \<and> notes_of i (evaluate_copied fmt2 rules ev now is am) = notes_of i am"
  using assms(1,3)
proof (induction "is" arbitrary: am)
  case (Cons j "is")
  let ?am = "case rules j of None \<Rightarrow> am
        | Some rule \<Rightarrow> if \<not> ar_Enabled rule then am
            else (case EvaluateRule (ev j) rule of Inl _ \<Rightarrow> am | Inr (b, v) \<Rightarrow> handleRuleEvaluation fmt2 rule b v (fst (now j)) (snd (now j)) am)"
  have "manager_ok ?am" using handle_ok Cons.prems(1) by (auto split: option.splits sum.splits)
  moreover have "am_alerts ?am i = am_alerts am i \<and> notes_of i ?am = notes_of i am"
  proof -
    have "ar_ID r \<noteq> i" if "rules j = Some r" for r
      using assms(2) that Cons.prems(2) by (metis option.distinct(1) list.set_intros(1))
    then show ?thesis using handle_other[OF Cons.prems(1)] by (auto split: option.splits sum.splits)
  qed
  ultimately show ?case using Cons.IH[of ?am] Cons.prems(2) by auto
qed simp

lemma evaluate_copied_fires:
  assumes "manager_ok am" "\<forall>j r. rules j = Some r \<longrightarrow> ar_ID r = j" "rules i = Some rule" "ar_Enabled rule" "EvaluateRule (ev i) rule = Inr (True, v)"
    "distinct is" "i \<in> set is"
  shows "firing i (evaluate_copied fmt2 rules ev now is am)"
  using assms(1,6,7)
proof (induction "is" arbitrary: am)
  case (Cons j "is")
  let ?am = "case rules j of None \<Rightarrow> am
        | Some rule \<Rightarrow> if \<not> ar_Enabled rule then am
            else (case EvaluateRule (ev j) rule of Inl _ \<Rightarrow> am | Inr (b, v) \<Rightarrow> handleRuleEvaluation fmt2 rule b v (fst (now j)) (snd (now j)) am)"
  have ok: "manager_ok ?am" using handle_ok Cons.prems(1) by (auto split: option.splits sum.splits)
  show ?case
  proof (cases "i = j")
    case True
    have "?am = handleRuleEvaluation fmt2 rule True v (fst (now i)) (snd (now i)) am" using assms(3-5) True by simp
    moreover have "ar_ID rule = i" using assms(2,3) by blast
    ultimately have "firing i ?am" using handle_fires[OF Cons.prems(1), of rule] by simp
    then show ?thesis using evaluate_copied_other[OF ok assms(2), of i "is" fmt2 ev now] Cons.prems(2) True by (simp add: firing_def)
  next
    case False
    then show ?thesis using Cons.IH[OF ok] Cons.prems by simp
  qed
qed simp

lemma reachable_manager_ok: "manager_ok (fold (am_step fmt2) ops NewAlertManager)"
proof -
  have "manager_ok (fold (am_step fmt2) ops m)" if "manager_ok m" for m
    using that by (induction ops arbitrary: m) (auto simp: am_step_ok)
  then show ?thesis using new_manager_ok(1) by blast
qed

lemma am_step_orphan:
  assumes "manager_ok am" "am_rules am i = None" "op \<noteq> OpRemove i" "\<forall>r. op = OpAdd r \<longrightarrow> ar_ID r \<noteq> i"
  shows "am_alerts (am_step fmt2 op am) i = am_alerts am i \<and> notes_of i (am_step fmt2 op am) = notes_of i am \<and> am_rules (am_step fmt2 op am) i = None"
proof (cases op)
  case (OpEvaluate ev now order)
  have "\<forall>j r. am_rules am j = Some r \<longrightarrow> ar_ID r = j" using assms(1) by (simp add: manager_ok_def)
  from evaluate_copied_other[OF assms(1) this] assms(2) show ?thesis
    unfolding OpEvaluate am_step.simps EvaluateRules_def using evaluate_copied_ok(3)[OF assms(1)] by metis
qed (use assms in \<open>auto simp: AddRule_def RemoveRule_def notes_of_def\<close>)

text \<open>C38. A rule that is removed while an evaluation of the rules is under way can leave an alert behind that fires for
  ever: whatever is evaluated later, it is not resolved.\<close>

theorem removed_rule_fires_forever:
  assumes "am = fold (am_step fmt2) ops0 NewAlertManager" "am_rules am i = Some rule" "ar_Enabled rule" "EvaluateRule (ev i) rule = Inr (True, v)"
    "distinct order" "i \<in> set order" "am1 = evaluate_copied fmt2 (am_rules am) ev now order (RemoveRule i am)"
    "am2 = fold (am_step fmt2) ops am1" "OpRemove i \<notin> set ops" "\<forall>r. OpAdd r \<in> set ops \<longrightarrow> ar_ID r \<noteq> i"
  shows "firing i am2 \<and> am_rules am2 i = None \<and> notes_of i am2 = notes_of i am1"
proof -
  have ok: "manager_ok am" unfolding assms(1) by (rule reachable_manager_ok)
  then have r: "\<forall>j r. am_rules am j = Some r \<longrightarrow> ar_ID r = j" by (simp add: manager_ok_def)
  have ok': "manager_ok (RemoveRule i am)" using ok by (auto simp: manager_ok_def RemoveRule_def)
  have f: "firing i am1" unfolding assms(7) by (rule evaluate_copied_fires[where ev = ev and v = v, OF ok' r assms(2-6)])
  have m1: "manager_ok am1" "am_rules am1 i = None"
    unfolding assms(7) using evaluate_copied_ok(1,3)[OF ok'] by (simp_all add: RemoveRule_def)
  have "am_alerts (fold (am_step fmt2) ops m) i = am_alerts m i \<and> notes_of i (fold (am_step fmt2) ops m) = notes_of i m \<and> am_rules (fold (am_step fmt2) ops m) i = None"
    if "manager_ok m" "am_rules m i = None" for m
    using that assms(9,10)
  proof (induction ops arbitrary: m)
    case (Cons op ops)
    have o: "op \<noteq> OpRemove i" "\<forall>r. op = OpAdd r \<longrightarrow> ar_ID r \<noteq> i" using Cons.prems(3,4) by auto
    note s = am_step_orphan[OF Cons.prems(1,2) o, of fmt2]
    have "OpRemove i \<notin> set ops" "\<forall>r. OpAdd r \<in> set ops \<longrightarrow> ar_ID r \<noteq> i" using Cons.prems(3,4) by auto
    from Cons.IH[OF am_step_ok[OF Cons.prems(1)] _ this] s show ?case by simp
  qed simp
  from this[OF m1] f show ?thesis unfolding assms(8) firing_def by simp
qed

section \<open>Instances\<close>

definition demo_rule :: AlertRule where
  "demo_rule = default_rule ''r'' ''R'' '''' ''health_check'' (f64_lit 1) Map.empty"

definition demo_health :: "HealthStatus \<Rightarrow> eval_env" where
  "demo_health st = \<lparr>ev_health = Some \<lparr>sh_Status = st, sh_Timestamp = 0, sh_Uptime = 0, sh_Version = '''', sh_Environment = '''', sh_Checks = Map.empty, sh_Summary = no_checks\<rparr>,
     ev_system = timed_out ''system''\<rparr>"

lemma demo_evaluation: "EvaluateRule (demo_health ''degraded'') demo_rule = Inr (True, f64_lit 1)"
  "EvaluateRule (demo_health ''healthy'') demo_rule = Inr (False, f64_lit 0)"
proof -
  have "f64_lit 1 = Fin False 1" by code_simp
  then show "EvaluateRule (demo_health ''degraded'') demo_rule = Inr (True, f64_lit 1)"
    "EvaluateRule (demo_health ''healthy'') demo_rule = Inr (False, f64_lit 0)"
    by (simp_all add: EvaluateRule_def evaluateHealthCheck_def demo_health_def demo_rule_def default_rule_def health_value_def f64_lit_0 Let_def)
qed

theorem readiness_is_worst_check_witness:
  "let health = CheckHealth (\<lambda>up. if up then Some (check_of ''a'' ''healthy'' '''' 1 None) else None) [''a'', ''b''] (\<lambda>_. 5) 6 7
       (RegisterCheck ''b'' False (RegisterCheck ''a'' True (NewHealthMonitor ''1'' ''dev'' 0)))
   in \<not> snd (ReadyHandler (Some health)) \<and> hs_Total (sh_Summary health) = 2"
proof -
  let ?hm = "RegisterCheck ''b'' False (RegisterCheck ''a'' True (NewHealthMonitor ''1'' ''dev'' 0))"
  have "iterates (hm_checks ?hm) [''a'', ''b'']" by (auto simp: iterates_def RegisterCheck_def NewHealthMonitor_def)
  moreover have "hm_checks ?hm ''b'' = Some False" "card (dom (hm_checks ?hm)) = 2" by (simp_all add: RegisterCheck_def NewHealthMonitor_def)
  ultimately show ?thesis
    using readiness_is_worst_check[of ?hm "[''a'', ''b'']" _ "\<lambda>up. if up then Some (check_of ''a'' ''healthy'' '''' 1 None) else None" "\<lambda>_. 5" 6 7, OF _ _ refl]
    unfolding Let_def by fastforce
qed

definition demo_ops :: "monitor_op list" where
  "demo_ops = [OpAdd demo_rule, OpEvaluate (\<lambda>_. demo_health ''degraded'') (\<lambda>_. (1, 2)) [''r'']]"

lemma demo_alert_manager: "notes_of ''r'' (fold (am_step (\<lambda>_. '''')) demo_ops NewAlertManager) = [True]"
  "am_rules (fold (am_step (\<lambda>_. '''')) demo_ops NewAlertManager) ''r'' = Some demo_rule"
proof -
  have r: "ar_ID demo_rule = ''r''" "ar_Enabled demo_rule" by (simp_all add: demo_rule_def default_rule_def)
  show "notes_of ''r'' (fold (am_step (\<lambda>_. '''')) demo_ops NewAlertManager) = [True]"
    "am_rules (fold (am_step (\<lambda>_. '''')) demo_ops NewAlertManager) ''r'' = Some demo_rule"
    by (simp_all add: demo_ops_def AddRule_def NewAlertManager_def EvaluateRules_def r demo_evaluation handleRuleEvaluation_def new_alert_def Let_def notes_of_def)
qed

theorem notifications_alternate_witness:
  "firing ''r'' (fold (am_step (\<lambda>_. '''')) demo_ops NewAlertManager)"
  using notifications_alternate[OF refl, of "''r''" demo_ops "\<lambda>_. ''''"] demo_alert_manager(1) by (simp add: demo_ops_def)

theorem removed_rule_fires_forever_witness:
  "let am = fold (am_step (\<lambda>_. '''')) demo_ops NewAlertManager;
       am1 = evaluate_copied (\<lambda>_. '''') (am_rules am) (\<lambda>_. demo_health ''degraded'') (\<lambda>_. (3, 4)) [''r''] (RemoveRule ''r'' am)
   in firing ''r'' (am_step (\<lambda>_. '''') (OpEvaluate (\<lambda>_. demo_health ''healthy'') (\<lambda>_. (5, 6)) []) am1)"
proof -
  let ?am = "fold (am_step (\<lambda>_. '''')) demo_ops NewAlertManager"
  have e: "ar_Enabled demo_rule" by (simp add: demo_rule_def default_rule_def)
  show ?thesis
    using removed_rule_fires_forever[of ?am "\<lambda>_. ''''" demo_ops "''r''" demo_rule "\<lambda>_. demo_health ''degraded''" "f64_lit 1" "[''r'']" _ "\<lambda>_. (3, 4)" _
        "[OpEvaluate (\<lambda>_. demo_health ''healthy'') (\<lambda>_. (5, 6)) []]", OF refl demo_alert_manager(2) e demo_evaluation(1) _ _ refl refl]
    by (simp add: Let_def)
qed

end
