(* ===== verification/Mvno.thy ===== *)
theory Mvno
  imports Go_Any "HOL-Library.Multiset"
begin

text \<open>
  Virtual operators: the validation of their requests and the provisioning of their resources
  (\<open>apps/carrier-connector/internal/mvno\<close>: \<open>types.go\<close>, \<open>validator.go\<close>, \<open>provisioner.go\<close>,
  \<open>provisioner_production.go\<close>, \<open>provisioner_methods.go\<close>). The four services a production provisioner
  calls are only interfaces in the repository and parameters here; generated identifiers, clock
  readings and the iteration order of a map are arguments. The log is not modelled.
\<close>

section \<open>Operators\<close>

type_synonym MVNOStatus = string
type_synonym MVNOPlan = string

abbreviation StatusPending :: MVNOStatus where "StatusPending \<equiv> ''pending''"
abbreviation StatusActive :: MVNOStatus where "StatusActive \<equiv> ''active''"
abbreviation PlanStarter :: MVNOPlan where "PlanStarter \<equiv> ''starter''"
abbreviation PlanGrowth :: MVNOPlan where "PlanGrowth \<equiv> ''growth''"
abbreviation PlanScale :: MVNOPlan where "PlanScale \<equiv> ''scale''"
abbreviation PlanEnterprise :: MVNOPlan where "PlanEnterprise \<equiv> ''enterprise''"

record MVNOConfig =
  mc_MaxSubscribers :: int
  mc_AllowedCountries :: "string list"
  mc_CarrierPool :: "string list"
  mc_CustomBranding :: bool
  mc_APIAccess :: bool
  mc_AdvancedAnalytics :: bool

record MVNO =
  mv_ID :: string
  mv_Name :: string
  mv_BusinessID :: string
  mv_Status :: MVNOStatus
  mv_Plan :: MVNOPlan
  mv_Config :: MVNOConfig
  mv_CreatedAt :: time
  mv_UpdatedAt :: time

record OnboardingRequest =
  or_BusinessName :: string
  or_BusinessID :: string
  or_ContactEmail :: string
  or_ContactPhone :: string
  or_Plan :: MVNOPlan
  or_EstimatedSubs :: int
  or_TargetCountries :: "string list"
  or_UseCase :: string
  or_TechnicalContact :: string

section \<open>Validation\<close>

datatype mvno_error =
    ShortBusinessName | InvalidBusinessID | InvalidEmail | ShortPhone
  | InvalidPlan | NoSubscribers | PlanLimit MVNOPlan int
  | NoCountries | ShortUseCase | InvalidCountryCode string
  | ShortBusinessID | CountryNotSupported string | NoCoverage string
  | ServiceFailed string string | NoActiveCarriers "string list" | NoCarriersConfigured | UnknownStep string

text \<open>The pattern \<open>^[A-Za-z0-9\-]{8,}$\<close>.\<close>

definition id_char :: "char \<Rightarrow> bool" where
  "id_char c \<longleftrightarrow> (let n = of_char c :: nat in 65 \<le> n \<and> n \<le> 90 \<or> 97 \<le> n \<and> n \<le> 122 \<or> 48 \<le> n \<and> n \<le> 57 \<or> n = 45)"

definition isValidBusinessID :: "string \<Rightarrow> bool" where
  "isValidBusinessID i \<longleftrightarrow> 8 \<le> length i \<and> list_all id_char i"

text \<open>The pattern \<open>^[^\s@]+@[^\s@]+\.[^\s@]+$\<close>: no white space, one \<open>@\<close> with something before it, and
  after it a dot that is neither the first nor the last character.\<close>

definition white :: "char \<Rightarrow> bool" where
  "white c \<longleftrightarrow> (of_char c :: nat) \<in> {9, 10, 12, 13, 32}"

definition isValidEmail :: "string \<Rightarrow> bool" where
  "isValidEmail email \<longleftrightarrow> list_all (\<lambda>c. \<not> white c) email \<and>
     (case split_on CHR ''@'' email of
        [localpart, host] \<Rightarrow> localpart \<noteq> '''' \<and> host \<noteq> '''' \<and> CHR ''.'' \<in> set (butlast (tl host))
      | _ \<Rightarrow> False)"

definition validateBusinessInfo :: "OnboardingRequest \<Rightarrow> mvno_error option" where
  "validateBusinessInfo req =
     (if length (or_BusinessName req) < 3 then Some ShortBusinessName
      else if \<not> isValidBusinessID (or_BusinessID req) then Some InvalidBusinessID
      else if \<not> isValidEmail (or_ContactEmail req) then Some InvalidEmail
      else if length (or_ContactPhone req) < 10 then Some ShortPhone
      else None)"

definition validatePlan :: "OnboardingRequest \<Rightarrow> mvno_error option" where
  "validatePlan req =
     (if or_Plan req \<notin> {PlanStarter, PlanGrowth, PlanScale, PlanEnterprise} then Some InvalidPlan
      else if or_EstimatedSubs req < 1 then Some NoSubscribers
      else if or_Plan req = PlanStarter \<and> 1000 < or_EstimatedSubs req then Some (PlanLimit PlanStarter 1000)
      else if or_Plan req = PlanGrowth \<and> 10000 < or_EstimatedSubs req then Some (PlanLimit PlanGrowth 10000)
      else None)"

fun check_codes :: "string list \<Rightarrow> mvno_error option" where
  "check_codes [] = None"
| "check_codes (c # cs) = (if length c \<noteq> 2 then Some (InvalidCountryCode c) else check_codes cs)"

definition validateTechnicalRequirements :: "OnboardingRequest \<Rightarrow> mvno_error option" where
  "validateTechnicalRequirements req =
     (if or_TargetCountries req = [] then Some NoCountries
      else if length (or_UseCase req) < 10 then Some ShortUseCase
      else check_codes (or_TargetCountries req))"

definition ValidateRequest :: "OnboardingRequest \<Rightarrow> mvno_error option" where
  "ValidateRequest req = (case validateBusinessInfo req of Some e \<Rightarrow> Some e
     | None \<Rightarrow> (case validatePlan req of Some e \<Rightarrow> Some e | None \<Rightarrow> validateTechnicalRequirements req))"

definition validateBusinessRegistration :: "string \<Rightarrow> mvno_error option" where
  "validateBusinessRegistration i = (if length i < 8 then Some ShortBusinessID else None)"

definition checkCountryCompliance :: "string \<Rightarrow> mvno_error option" where
  "checkCountryCompliance c = (if to_upper c \<in> {''XX'', ''YY''} then Some (CountryNotSupported c) else None)"

definition hasCarrierCoverage :: "string \<Rightarrow> bool" where
  "hasCarrierCoverage c \<longleftrightarrow> to_upper c \<in> set [''US'', ''GB'', ''DE'', ''FR'', ''JP'', ''AU'', ''CA'']"

fun validateCompliance :: "string list \<Rightarrow> mvno_error option" where
  "validateCompliance [] = None"
| "validateCompliance (c # cs) = (case checkCountryCompliance c of Some e \<Rightarrow> Some e | None \<Rightarrow> validateCompliance cs)"

fun validateTechnicalFeasibility :: "string list \<Rightarrow> mvno_error option" where
  "validateTechnicalFeasibility [] = None"
| "validateTechnicalFeasibility (c # cs) = (if \<not> hasCarrierCoverage c then Some (NoCoverage c) else validateTechnicalFeasibility cs)"

definition ValidateMVNO :: "MVNO \<Rightarrow> mvno_error option" where
  "ValidateMVNO m = (case validateBusinessRegistration (mv_BusinessID m) of Some e \<Rightarrow> Some e
     | None \<Rightarrow> (case validateCompliance (mc_AllowedCountries (mv_Config m)) of Some e \<Rightarrow> Some e
        | None \<Rightarrow> validateTechnicalFeasibility (mc_AllowedCountries (mv_Config m))))"

lemma check_codes_None: "check_codes cs = None \<longleftrightarrow> (\<forall>c \<in> set cs. length c = 2)"
  by (induction cs) auto

lemma covered_countries:
  "validateTechnicalFeasibility cs = None \<longleftrightarrow> (\<forall>c \<in> set cs. hasCarrierCoverage c)"
  "(\<forall>c \<in> set cs. hasCarrierCoverage c) \<Longrightarrow> validateCompliance cs = None"
  by (induction cs) (auto simp: checkCountryCompliance_def hasCarrierCoverage_def)

text \<open>A validated request passes the validation of its operator exactly when all its countries are
  covered: the check of the restricted countries never decides.\<close>

lemma request_then_operator:
  "ValidateRequest req = None \<Longrightarrow> mv_BusinessID m = or_BusinessID req \<Longrightarrow> mc_AllowedCountries (mv_Config m) = or_TargetCountries req \<Longrightarrow>
     ValidateMVNO m = None \<longleftrightarrow> (\<forall>c \<in> set (or_TargetCountries req). hasCarrierCoverage c)"
  using covered_countries[of "or_TargetCountries req"]
  by (auto simp: ValidateMVNO_def ValidateRequest_def validateBusinessInfo_def validateBusinessRegistration_def isValidBusinessID_def
      split: option.splits if_splits)

section \<open>Provisioning\<close>

record TenantConfig =
  tnc_ID :: string
  tnc_Name :: string
  tnc_Plan :: MVNOPlan
  tnc_Settings :: metadata

record CarrierInfo =
  ci_ID :: string
  ci_Name :: string
  ci_Countries :: "string list"
  ci_SMDEndpoint :: string
  ci_IsActive :: bool

record 's services =
  ts_CreateTenant :: "TenantConfig \<Rightarrow> 's \<Rightarrow> string option \<times> 's"
  ts_GetTenant :: "string \<Rightarrow> 's \<Rightarrow> string + TenantConfig"
  cs_GetCarriersByCountry :: "string \<Rightarrow> 's \<Rightarrow> string + CarrierInfo list"
  cs_ConfigureCarrier :: "string \<Rightarrow> string \<Rightarrow> 's \<Rightarrow> string option \<times> 's"
  bs_CreateBillingAccount :: "string \<Rightarrow> MVNOPlan \<Rightarrow> 's \<Rightarrow> (string + string) \<times> 's"
  bs_CreateRatePlans :: "string \<Rightarrow> string \<Rightarrow> MVNOPlan \<Rightarrow> 's \<Rightarrow> string option \<times> 's"
  bs_SetupPaymentGateway :: "string \<Rightarrow> string \<Rightarrow> 's \<Rightarrow> string option \<times> 's"
  ss_CreateStorageBucket :: "string \<Rightarrow> int \<Rightarrow> 's \<Rightarrow> string option \<times> 's"
  ss_CreateDatabaseSchema :: "string \<Rightarrow> 's \<Rightarrow> string option \<times> 's"

fun failed :: "string \<Rightarrow> string option \<times> 's \<Rightarrow> mvno_error option \<times> 's" where
  "failed what (e, s) = (map_option (ServiceFailed what) e, s)"

fun and_then :: "mvno_error option \<times> 's \<Rightarrow> ('s \<Rightarrow> mvno_error option \<times> 's) \<Rightarrow> mvno_error option \<times> 's" where
  "and_then (Some e, s) f = (Some e, s)"
| "and_then (None, s) f = f s"

definition getStorageAllocation :: "MVNOPlan \<Rightarrow> int" where
  "getStorageAllocation plan = (if plan = PlanStarter then 10 else if plan = PlanGrowth then 100
     else if plan = PlanScale then 1000 else if plan = PlanEnterprise then 10000 else 10)"

definition getAPIPermissions :: "MVNOPlan \<Rightarrow> string list" where
  "getAPIPermissions plan =
     (if plan = PlanStarter then [''read:subscribers'', ''read:usage'']
      else if plan = PlanGrowth then [''read:subscribers'', ''write:subscribers'', ''read:usage'', ''read:billing'']
      else if plan = PlanScale then [''read:subscribers'', ''write:subscribers'', ''read:usage'', ''write:usage'', ''read:billing'', ''write:billing'',
        ''read:analytics'', ''write:analytics'']
      else if plan = PlanEnterprise then [''*'']
      else [''read:subscribers''])"

definition tenant_config :: "time \<Rightarrow> MVNO \<Rightarrow> TenantConfig" where
  "tenant_config now m = \<lparr>tnc_ID = mv_ID m, tnc_Name = mv_Name m, tnc_Plan = mv_Plan m, tnc_Settings = Some [
     ''business_id'' \<mapsto> AnyString (mv_BusinessID m), ''max_subscribers'' \<mapsto> AnyInt (mc_MaxSubscribers (mv_Config m)),
     ''allowed_countries'' \<mapsto> AnyList (map AnyString (mc_AllowedCountries (mv_Config m))),
     ''custom_branding'' \<mapsto> AnyBool (mc_CustomBranding (mv_Config m)),
     ''advanced_analytics'' \<mapsto> AnyBool (mc_AdvancedAnalytics (mv_Config m)), ''created_at'' \<mapsto> AnyTime now]\<rparr>"

definition provisionTenantContext :: "'s services \<Rightarrow> time \<Rightarrow> MVNO \<Rightarrow> 's \<Rightarrow> mvno_error option \<times> 's" where
  "provisionTenantContext p now m s = failed ''tenant'' (ts_CreateTenant p (tenant_config now m) s)"

definition provisionDatabaseSchema :: "'s services \<Rightarrow> MVNO \<Rightarrow> 's \<Rightarrow> mvno_error option \<times> 's" where
  "provisionDatabaseSchema p m s = failed ''schema'' (ss_CreateDatabaseSchema p (mv_ID m) s)"

definition provisionStorageResources :: "'s services \<Rightarrow> MVNO \<Rightarrow> 's \<Rightarrow> mvno_error option \<times> 's" where
  "provisionStorageResources p m s = failed ''bucket'' (ss_CreateStorageBucket p (mv_ID m) (getStorageAllocation (mv_Plan m)) s)"

definition ProvisionResources :: "'s services \<Rightarrow> time \<Rightarrow> MVNO \<Rightarrow> 's \<Rightarrow> mvno_error option \<times> 's" where
  "ProvisionResources p now m s =
     and_then (and_then (provisionTenantContext p now m s) (provisionDatabaseSchema p m)) (provisionStorageResources p m)"

text \<open>The active carriers of all countries, without duplicates; a country whose lookup fails is left
  out. The result is in the iteration order of a map, \<open>order\<close>.\<close>

fun active_carriers :: "'s services \<Rightarrow> string list \<Rightarrow> 's \<Rightarrow> string list" where
  "active_carriers p [] s = []"
| "active_carriers p (c # cs) s =
     (case cs_GetCarriersByCountry p c s of Inl _ \<Rightarrow> [] | Inr infos \<Rightarrow> map ci_ID (filter ci_IsActive infos)) @ active_carriers p cs s"

definition selectCarriers :: "'s services \<Rightarrow> (string list \<Rightarrow> string list) \<Rightarrow> string list \<Rightarrow> 's \<Rightarrow> mvno_error + string list" where
  "selectCarriers p order countries s =
     (let selected = order (remdups (active_carriers p countries s))
      in if selected = [] then Inl (NoActiveCarriers countries) else Inr selected)"

fun configure_all :: "'s services \<Rightarrow> MVNO \<Rightarrow> string list \<Rightarrow> 's \<Rightarrow> mvno_error option \<times> 's" where
  "configure_all p m [] s = (None, s)"
| "configure_all p m (c # cs) s = and_then (failed ''carrier'' (cs_ConfigureCarrier p (mv_ID m) c s)) (configure_all p m cs)"

definition with_carriers :: "string list \<Rightarrow> MVNO \<Rightarrow> MVNO" where
  "with_carriers cs m = m\<lparr>mv_Config := (mv_Config m)\<lparr>mc_CarrierPool := cs\<rparr>\<rparr>"

definition SetupCarriers :: "'s services \<Rightarrow> (string list \<Rightarrow> string list) \<Rightarrow> MVNO \<Rightarrow> 's \<Rightarrow> mvno_error option \<times> MVNO \<times> 's" where
  "SetupCarriers p order m s =
     (case selectCarriers p order (mc_AllowedCountries (mv_Config m)) s of
        Inl e \<Rightarrow> (Some e, m, s)
      | Inr cs \<Rightarrow> (case configure_all p m cs s of
            (Some e, s') \<Rightarrow> (Some e, m, s')
          | (None, s') \<Rightarrow> (None, with_carriers cs m, s')))"

definition configureRatePlans :: "'s services \<Rightarrow> MVNO \<Rightarrow> string \<Rightarrow> 's \<Rightarrow> mvno_error option \<times> 's" where
  "configureRatePlans p m billingID s = failed ''rate plans'' (bs_CreateRatePlans p (mv_ID m) billingID (mv_Plan m) s)"

definition setupPaymentProcessing :: "'s services \<Rightarrow> MVNO \<Rightarrow> string \<Rightarrow> 's \<Rightarrow> mvno_error option \<times> 's" where
  "setupPaymentProcessing p m billingID s = failed ''payment gateway'' (bs_SetupPaymentGateway p (mv_ID m) billingID s)"

definition SetupBilling :: "'s services \<Rightarrow> MVNO \<Rightarrow> 's \<Rightarrow> mvno_error option \<times> 's" where
  "SetupBilling p m s =
     (case bs_CreateBillingAccount p (mv_ID m) (mv_Plan m) s of
        (Inl e, s') \<Rightarrow> (Some (ServiceFailed ''billing account'' e), s')
      | (Inr billingID, s') \<Rightarrow> and_then (configureRatePlans p m billingID s') (setupPaymentProcessing p m billingID))"

text \<open>Writing the key into nil settings panics, and so does cutting the first eight bytes of a shorter
  key for the log. The settings are stored by a second \<open>CreateTenant\<close> of the same tenant.\<close>

definition api_settings :: "string \<Rightarrow> string \<Rightarrow> MVNOPlan \<Rightarrow> time \<Rightarrow> time \<Rightarrow> go_any" where
  "api_settings apiKey secretKey plan now1 expires = AnyMap [(''api_key'', AnyString apiKey), (''secret_key'', AnyString secretKey),
     (''permissions'', AnyList (map AnyString (getAPIPermissions plan))), (''created_at'', AnyTime now1), (''expires_at'', AnyTime expires)]"

definition SetupAPIAccess :: "'s services \<Rightarrow> string \<Rightarrow> string \<Rightarrow> time \<Rightarrow> time \<Rightarrow> MVNO \<Rightarrow> 's \<Rightarrow> (mvno_error option \<times> 's) go" where
  "SetupAPIAccess p apiKey secretKey now1 expires m s =
     (if \<not> mc_APIAccess (mv_Config m) then Returns (None, s)
      else (case ts_GetTenant p (mv_ID m) s of
          Inl e \<Rightarrow> Returns (Some (ServiceFailed ''tenant'' e), s)
        | Inr tenant \<Rightarrow>
            go_bind (meta_set (tnc_Settings tenant) ''api_access'' (api_settings apiKey secretKey (mv_Plan m) now1 expires)) (\<lambda>settings.
              (case failed ''API configuration'' (ts_CreateTenant p (tenant\<lparr>tnc_Settings := settings\<rparr>) s) of
                 (Some e, s') \<Rightarrow> Returns (Some e, s')
               | (None, s') \<Rightarrow> if length apiKey < 8 then Panics else Returns (None, s')))))"

definition ValidateProvisioning :: "'s services \<Rightarrow> MVNO \<Rightarrow> 's \<Rightarrow> mvno_error option" where
  "ValidateProvisioning p m s =
     (case ts_GetTenant p (mv_ID m) s of
        Inl e \<Rightarrow> Some (ServiceFailed ''tenant'' e)
      | Inr _ \<Rightarrow> if mc_CarrierPool (mv_Config m) = [] then Some NoCarriersConfigured else None)"

text \<open>The other provisioner only logs; its carriers are fixed whatever the countries, and its
  permissions of the scale plan lack the last one.\<close>

definition dev_selectCarriers :: "string list \<Rightarrow> string list" where
  "dev_selectCarriers countries = [''carrier_us_01'', ''carrier_gb_01'', ''carrier_de_01'']"

definition dev_SetupCarriers :: "MVNO \<Rightarrow> mvno_error option \<times> MVNO" where
  "dev_SetupCarriers m = (None, with_carriers (dev_selectCarriers (mc_AllowedCountries (mv_Config m))) m)"

definition dev_getAPIPermissions :: "MVNOPlan \<Rightarrow> string list" where
  "dev_getAPIPermissions plan =
     (if plan = PlanStarter then [''read:subscribers'', ''read:usage'']
      else if plan = PlanGrowth then [''read:subscribers'', ''write:subscribers'', ''read:usage'', ''read:billing'']
      else if plan = PlanScale then [''read:subscribers'', ''write:subscribers'', ''read:usage'', ''write:usage'', ''read:billing'', ''write:billing'',
        ''read:analytics'']
      else if plan = PlanEnterprise then [''*'']
      else [''read:subscribers''])"

lemma provisioners_differ: "getAPIPermissions plan = dev_getAPIPermissions plan \<longleftrightarrow> plan \<noteq> PlanScale"
  by (simp add: getAPIPermissions_def dev_getAPIPermissions_def)

text \<open>Every selected carrier is an active one of an allowed country, and none is selected twice.\<close>

lemma active_carriers_set:
  "set (active_carriers p cs s) =
     (\<Union>c \<in> set cs. case cs_GetCarriersByCountry p c s of Inl _ \<Rightarrow> {} | Inr infos \<Rightarrow> {ci_ID i | i. i \<in> set infos \<and> ci_IsActive i})"
  by (induction cs) (auto split: sum.splits)

lemma selected_carriers:
  assumes "\<forall>xs. mset (order xs) = mset xs" and "selectCarriers p order cs s = Inr selected"
  shows "distinct selected" "set selected = set (active_carriers p cs s)"
proof -
  have "mset selected = mset (remdups (active_carriers p cs s))"
    using assms by (auto simp: selectCarriers_def Let_def split: if_splits)
  then show "distinct selected" "set selected = set (active_carriers p cs s)"
    by (metis distinct_remdups mset_eq_imp_distinct_iff, metis mset_eq_setD set_remdups)
qed

end
