(* ===== verification/Onboarding.thy ===== *)
theory Onboarding
  imports Mvno
begin

text \<open>
  The onboarding of virtual operators (\<open>apps/carrier-connector/internal\<close>:
  \<open>services/onboarding_service.go\<close>, \<open>mvno/monitor.go\<close>): the steps of an onboarding, its progress, and
  the monitor that reports on it. The onboarding runs in its own goroutine; here it is one function,
  with the cancellation of the context before each step as an argument.
\<close>

section \<open>Progress\<close>

record OnboardingStep =
  st_Name :: string
  st_Status :: string
  st_CompletedAt :: time
  st_Error :: string

record OnboardingProgress =
  op_MVNOID :: string
  op_Steps :: "OnboardingStep list"
  op_Progress :: f64
  op_StartedAt :: time
  op_CompletedAt :: time

type_synonym OnboardingMonitor = "string \<rightharpoonup> OnboardingProgress"

section \<open>Monitor\<close>

text \<open>\<open>ks\<close> is the iteration order of the map.\<close>

definition getCurrentStatus :: "OnboardingProgress \<Rightarrow> string" where
  "getCurrentStatus p =
     (if f64_eq (op_Progress p) (f64_lit 100) then ''completed''
      else if f64_eq (op_Progress p) (f64_lit 0) then ''pending''
      else if \<exists>st \<in> set (op_Steps p). st_Status st = ''failed'' then ''failed''
      else ''in_progress'')"

definition UpdateProgress :: "string \<Rightarrow> OnboardingProgress \<Rightarrow> OnboardingMonitor \<Rightarrow> OnboardingMonitor" where
  "UpdateProgress i p m = m(i \<mapsto> p)"

definition GetProgress :: "string \<Rightarrow> OnboardingMonitor \<Rightarrow> OnboardingProgress option" where
  "GetProgress i m = m i"

definition GetAllProgress :: "OnboardingMonitor \<Rightarrow> OnboardingMonitor" where
  "GetAllProgress m = m"

definition entries :: "OnboardingMonitor \<Rightarrow> string list \<Rightarrow> OnboardingProgress list" where
  "entries m ks = List.map_filter m ks"

definition GetActiveOnboardingCount :: "OnboardingMonitor \<Rightarrow> string list \<Rightarrow> int" where
  "GetActiveOnboardingCount m ks =
     int (length (filter (\<lambda>p. f64_lt (op_Progress p) (f64_lit 100) \<and> op_CompletedAt p \<noteq> zero_time) (entries m ks)))"

definition finished :: "OnboardingProgress \<Rightarrow> bool" where
  "finished p \<longleftrightarrow> f64_eq (op_Progress p) (f64_lit 100) \<and> op_CompletedAt p \<noteq> zero_time"

definition GetCompletedOnboardingCount :: "OnboardingMonitor \<Rightarrow> string list \<Rightarrow> int" where
  "GetCompletedOnboardingCount m ks = int (length (filter finished (entries m ks)))"

definition GetAverageOnboardingTime :: "OnboardingMonitor \<Rightarrow> string list \<Rightarrow> duration" where
  "GetAverageOnboardingTime m ks =
     (let ps = filter (\<lambda>p. finished p \<and> op_StartedAt p \<noteq> zero_time) (entries m ks);
          totalDuration = foldl (\<lambda>d p. i64 (d + time_sub (op_CompletedAt p) (op_StartedAt p))) 0 ps
      in if ps = [] then 0 else go_quot totalDuration (int (length ps)))"

text \<open>The counters of a step: completed, failed and all.\<close>

definition count_step :: "(string \<rightharpoonup> int \<times> int \<times> int) \<Rightarrow> OnboardingStep \<Rightarrow> (string \<rightharpoonup> int \<times> int \<times> int)" where
  "count_step stats st =
     (case (case stats (st_Name st) of None \<Rightarrow> (0, 0, 0) | Some c \<Rightarrow> c) of (completed, failures, n) \<Rightarrow>
        stats(st_Name st \<mapsto> (if st_Status st = ''completed'' then completed + 1 else completed,
                            if st_Status st = ''failed'' then failures + 1 else failures, n + 1)))"

definition step_stats :: "OnboardingMonitor \<Rightarrow> string list \<Rightarrow> (string \<rightharpoonup> int \<times> int \<times> int)" where
  "step_stats m ks = foldl (\<lambda>stats p. foldl count_step stats (op_Steps p)) Map.empty (entries m ks)"

definition GetStepSuccessRate :: "OnboardingMonitor \<Rightarrow> string list \<Rightarrow> (string \<rightharpoonup> f64)" where
  "GetStepSuccessRate m ks = (\<lambda>name. case step_stats m ks name of None \<Rightarrow> None
     | Some (completed, _, n) \<Rightarrow> if 0 < n then Some (f64_mul (f64_div (f64_of_int completed) (f64_of_int n)) (f64_lit 100)) else None)"

definition CleanupOldProgress :: "time \<Rightarrow> duration \<Rightarrow> OnboardingMonitor \<Rightarrow> OnboardingMonitor" where
  "CleanupOldProgress now maxAge m = (\<lambda>i. case m i of None \<Rightarrow> None
     | Some p \<Rightarrow> if finished p \<and> op_CompletedAt p < now + i64 (- maxAge) then None else Some p)"

definition GetFailedOnboardings :: "OnboardingMonitor \<Rightarrow> string list \<Rightarrow> string list" where
  "GetFailedOnboardings m ks =
     filter (\<lambda>i. case m i of None \<Rightarrow> False | Some p \<Rightarrow> \<exists>st \<in> set (op_Steps p). st_Status st = ''failed'') ks"

record OnboardingMetrics =
  om_active_count :: int
  om_completed_count :: int
  om_average_duration :: duration
  om_step_success_rates :: "string \<rightharpoonup> f64"
  om_failed_count :: int
  om_total_onboardings :: int

definition GetOnboardingMetrics :: "OnboardingMonitor \<Rightarrow> string list \<Rightarrow> OnboardingMetrics" where
  "GetOnboardingMetrics m ks = \<lparr>om_active_count = GetActiveOnboardingCount m ks, om_completed_count = GetCompletedOnboardingCount m ks,
     om_average_duration = GetAverageOnboardingTime m ks, om_step_success_rates = GetStepSuccessRate m ks,
     om_failed_count = int (length (GetFailedOnboardings m ks)), om_total_onboardings = int (length ks)\<rparr>"

section \<open>Onboarding\<close>

definition getMaxSubscribersForPlan :: "MVNOPlan \<Rightarrow> int" where
  "getMaxSubscribersForPlan plan = (if plan = PlanStarter then 1000 else if plan = PlanGrowth then 10000
     else if plan = PlanScale then 100000 else if plan = PlanEnterprise then - 1 else 1000)"

definition pending_step :: "string \<Rightarrow> OnboardingStep" where
  "pending_step name = \<lparr>st_Name = name, st_Status = ''pending'', st_CompletedAt = zero_time, st_Error = ''''\<rparr>"

definition getOnboardingSteps :: "OnboardingStep list" where
  "getOnboardingSteps = map pending_step [''validation'', ''provisioning'', ''carrier_setup'', ''billing_setup'', ''api_access'']"

definition new_mvno :: "string \<Rightarrow> time \<Rightarrow> OnboardingRequest \<Rightarrow> MVNO" where
  "new_mvno i now req = \<lparr>mv_ID = i, mv_Name = or_BusinessName req, mv_BusinessID = or_BusinessID req, mv_Status = StatusPending,
     mv_Plan = or_Plan req, mv_Config = \<lparr>mc_MaxSubscribers = getMaxSubscribersForPlan (or_Plan req),
       mc_AllowedCountries = or_TargetCountries req, mc_CarrierPool = [], mc_CustomBranding = or_Plan req \<noteq> PlanStarter,
       mc_APIAccess = or_Plan req \<noteq> PlanStarter,
       mc_AdvancedAnalytics = (or_Plan req = PlanScale \<or> or_Plan req = PlanEnterprise)\<rparr>,
     mv_CreatedAt = now, mv_UpdatedAt = zero_time\<rparr>"

definition new_progress :: "string \<Rightarrow> time \<Rightarrow> OnboardingProgress" where
  "new_progress i now = \<lparr>op_MVNOID = i, op_Steps = getOnboardingSteps, op_Progress = f64_lit 0, op_StartedAt = now, op_CompletedAt = zero_time\<rparr>"

text \<open>What a run of the steps reads: the provisioner of the service, which is nil until somebody sets
  it, the order of the map of carriers, the generated keys, and the clock.\<close>

record 's run_env =
  re_provisioner :: "'s services option"
  re_order :: "string list \<Rightarrow> string list"
  re_apiKey :: string
  re_secretKey :: string
  re_now :: "nat \<Rightarrow> time"
  re_expires :: time

text \<open>A method of the nil provisioner panics where it logs.\<close>

definition executeStep :: "'s run_env \<Rightarrow> string \<Rightarrow> MVNO \<Rightarrow> 's \<Rightarrow> (mvno_error option \<times> MVNO \<times> 's) go" where
  "executeStep env name m s =
     (if name = ''validation'' then Returns (ValidateMVNO m, m, s)
      else if name = ''provisioning'' then go_bind (deref (re_provisioner env)) (\<lambda>p.
        (case ProvisionResources p (re_now env 0) m s of (e, s') \<Rightarrow> Returns (e, m, s')))
      else if name = ''carrier_setup'' then go_bind (deref (re_provisioner env)) (\<lambda>p. Returns (SetupCarriers p (re_order env) m s))
      else if name = ''billing_setup'' then go_bind (deref (re_provisioner env)) (\<lambda>p.
        (case SetupBilling p m s of (e, s') \<Rightarrow> Returns (e, m, s')))
      else if name = ''api_access'' then go_bind (deref (re_provisioner env)) (\<lambda>p.
        go_bind (SetupAPIAccess p (re_apiKey env) (re_secretKey env) (re_now env 1) (re_expires env) m s) (\<lambda>(e, s'). Returns (e, m, s')))
      else Returns (Some (UnknownStep name), m, s))"

record 's onboarding =
  ob_mvno :: MVNO
  ob_progress :: OnboardingProgress
  ob_monitor :: OnboardingMonitor
  ob_services :: 's

text \<open>The monitor keeps a pointer to the progress: once it is there, every change of the progress is
  seen in the monitor.\<close>

definition publish :: "'s onboarding \<Rightarrow> 's onboarding" where
  "publish ob = ob\<lparr>ob_monitor := UpdateProgress (mv_ID (ob_mvno ob)) (ob_progress ob) (ob_monitor ob)\<rparr>"

definition write_progress :: "(OnboardingProgress \<Rightarrow> OnboardingProgress) \<Rightarrow> 's onboarding \<Rightarrow> 's onboarding" where
  "write_progress f ob =
     (let i = mv_ID (ob_mvno ob); p = f (ob_progress ob); o' = ob\<lparr>ob_progress := p\<rparr>
      in if GetProgress i (ob_monitor ob) = None then o' else publish o')"

definition share_done :: "nat \<Rightarrow> nat \<Rightarrow> f64" where
  "share_done i n = f64_mul (f64_div (f64_of_int (int i + 1)) (f64_of_int (int n))) (f64_lit 100)"

definition finish :: "time \<Rightarrow> 's onboarding \<Rightarrow> 's onboarding" where
  "finish now ob =
     (if f64_eq (op_Progress (ob_progress ob)) (f64_lit 100)
      then write_progress (\<lambda>p. p\<lparr>op_CompletedAt := now\<rparr>) (ob\<lparr>ob_mvno := (ob_mvno ob)\<lparr>mv_Status := StatusActive\<rparr>\<rparr>)
      else ob)"

text \<open>The loop ranges over copies of the steps: what it writes into \<open>step\<close>, the status, the error and
  the time, is not written into the progress and is left out here.\<close>

fun run_steps :: "'s run_env \<Rightarrow> (nat \<Rightarrow> bool) \<Rightarrow> nat \<Rightarrow> nat \<Rightarrow> OnboardingStep list \<Rightarrow> 's onboarding \<Rightarrow> 's onboarding go" where
  "run_steps env cancelled n i [] ob = Returns (finish (re_now env 2) ob)"
| "run_steps env cancelled n i (st # sts) ob =
     (if cancelled i then Returns ob
      else let o1 = publish ob in
        go_bind (executeStep env (st_Name st) (ob_mvno o1) (ob_services o1)) (\<lambda>(e, m, s).
          let o2 = o1\<lparr>ob_mvno := m, ob_services := s\<rparr> in
          (case e of
             Some _ \<Rightarrow> Returns (finish (re_now env 2) o2)
           | None \<Rightarrow> run_steps env cancelled n (Suc i) sts (publish (write_progress (\<lambda>p. p\<lparr>op_Progress := share_done i n\<rparr>) o2)))))"

definition executeOnboarding :: "'s run_env \<Rightarrow> (nat \<Rightarrow> bool) \<Rightarrow> 's onboarding \<Rightarrow> 's onboarding go" where
  "executeOnboarding env cancelled ob =
     run_steps env cancelled (length (op_Steps (ob_progress ob))) 0 (op_Steps (ob_progress ob)) ob"

text \<open>The call answers at once and leaves the goroutine behind: the state in which it starts is
  the second result.\<close>

definition StartOnboarding ::
  "string \<Rightarrow> time \<Rightarrow> time \<Rightarrow> OnboardingRequest \<Rightarrow> OnboardingMonitor \<Rightarrow> 's \<Rightarrow> mvno_error + MVNO \<times> 's onboarding" where
  "StartOnboarding i now started req m s =
     (case ValidateRequest req of
        Some e \<Rightarrow> Inl e
      | None \<Rightarrow> Inr (new_mvno i now req,
          \<lparr>ob_mvno = new_mvno i now req, ob_progress = new_progress i started, ob_monitor = m, ob_services = s\<rparr>))"

section \<open>Progress in percent\<close>

lemma rep64_eighths: "rep64 (7 / 8)"
proof -
  have "rnd (of_int 7 * 2 powi (-3)) = of_int 7 * 2 powi (-3)" by (rule rnd_grid) auto
  then show ?thesis by (simp add: rep64_def power_int_minus)
qed

lemma share_done_last: "share_done 4 5 = f64_lit 100"
  by (simp add: share_done_def f64_of_int_def f64_lit_numeral rep64_round)

lemma share_done_before:
  assumes "i < 4"
  shows "f64_in 0 90 (share_done i 5)"
proof -
  have "f64_of_int (int i + 1) = Fin False (of_int (int i + 1))" "f64_of_int 5 = Fin False 5"
    using assms rep64_of_int[of "int i + 1"] by (simp_all add: f64_of_int_def rep64_round)
  then have d: "f64_div (f64_of_int (int i + 1)) (f64_of_int 5) = f64_round False (of_int (int i + 1) / 5)" by simp
  have "of_int (int i + 1) / 5 \<le> (7 / 8 :: rat)" using assms by simp
  then have "f64_in 0 (7 / 8) (f64_div (f64_of_int (int i + 1)) (f64_of_int 5))"
    unfolding d by (intro f64_round_in rep64_eighths rep64_0) simp_all
  then obtain s r where r: "f64_div (f64_of_int (int i + 1)) (f64_of_int 5) = Fin s r" "0 \<le> r" "r \<le> 7 / 8"
    using f64_in_fin by blast
  then have "share_done i 5 = f64_round s (r * 100)" by (simp add: share_done_def f64_lit_numeral)
  moreover have "f64_in 0 90 (f64_round s (r * 100))" using r(2,3) by (intro f64_round_in rep64_0) simp_all
  ultimately show ?thesis by simp
qed

lemma in_percent: "f64_in 0 90 x \<Longrightarrow> \<not> f64_eq x (f64_lit 100) \<and> f64_in 0 100 x"
  by (cases x) (auto simp: f64_lit_numeral)

section \<open>Runs\<close>

definition step_names :: "string list" where
  "step_names = [''validation'', ''provisioning'', ''carrier_setup'', ''billing_setup'', ''api_access'']"

lemma steps_of_names: "getOnboardingSteps = map pending_step step_names" "length (map pending_step step_names) = 5"
  by (simp_all add: getOnboardingSteps_def step_names_def)

lemma started: "StartOnboarding i now t0 req m s = Inr (mv, ob) \<longleftrightarrow> ValidateRequest req = None \<and> mv = new_mvno i now req
    \<and> ob = \<lparr>ob_mvno = new_mvno i now req, ob_progress = new_progress i t0, ob_monitor = m, ob_services = s\<rparr>"
  by (auto simp: StartOnboarding_def split: option.splits)

text \<open>A step changes nothing of the operator but its carriers.\<close>

lemma carriers_operator: "SetupCarriers p order m s = (e, m', s') \<Longrightarrow> m' = m \<or> (\<exists>cs. m' = with_carriers cs m)"
  by (auto simp: SetupCarriers_def split: prod.splits sum.splits option.splits)

lemma step_operator:
  assumes "executeStep env name m s = Returns (e, m', s')"
  shows "mv_ID m' = mv_ID m \<and> mv_Status m' = mv_Status m"
proof -
  have "m' = m \<or> (\<exists>cs. m' = with_carriers cs m)"
  proof (cases "re_provisioner env")
    case None
    then show ?thesis using assms by (simp add: executeStep_def split: if_splits)
  next
    case (Some p)
    then show ?thesis
      using assms carriers_operator[of p "re_order env" m s e m' s']
      by (cases "ProvisionResources p (re_now env 0) m s"; cases "SetupBilling p m s") (auto simp: executeStep_def split: if_splits)
  qed
  then show ?thesis by (auto simp: with_carriers_def)
qed

text \<open>What holds of an onboarding between its steps, \<open>i\<close> of which have been executed.\<close>

definition onboarding_at :: "string \<Rightarrow> OnboardingMonitor \<Rightarrow> nat \<Rightarrow> 's onboarding \<Rightarrow> bool" where
  "onboarding_at i m k ob \<longleftrightarrow> mv_ID (ob_mvno ob) = i \<and> mv_Status (ob_mvno ob) = StatusPending \<and> op_Steps (ob_progress ob) = getOnboardingSteps
     \<and> op_CompletedAt (ob_progress ob) = zero_time \<and> op_Progress (ob_progress ob) = (if k = 0 then f64_lit 0 else share_done (k - 1) 5)
     \<and> (if k = 0 then ob_monitor ob = m \<or> ob_monitor ob = m(i \<mapsto> ob_progress ob) else ob_monitor ob = m(i \<mapsto> ob_progress ob))"

text \<open>And at its end: the operator is active exactly when the progress is complete, and the monitor has
  the progress.\<close>

definition onboarding_end :: "string \<Rightarrow> OnboardingMonitor \<Rightarrow> 's onboarding \<Rightarrow> bool" where
  "onboarding_end i m ob \<longleftrightarrow> op_Steps (ob_progress ob) = getOnboardingSteps
     \<and> f64_in 0 100 (op_Progress (ob_progress ob))
     \<and> (if finished (ob_progress ob) then mv_Status (ob_mvno ob) = StatusActive
        else mv_Status (ob_mvno ob) = StatusPending \<and> op_CompletedAt (ob_progress ob) = zero_time)
     \<and> (ob_monitor ob = m \<or> ob_monitor ob = m(i \<mapsto> ob_progress ob))"

lemma write_progress_at: "ob_monitor ob = m(mv_ID (ob_mvno ob) \<mapsto> p) \<Longrightarrow>
  write_progress f ob = ob\<lparr>ob_progress := f (ob_progress ob), ob_monitor := m(mv_ID (ob_mvno ob) \<mapsto> f (ob_progress ob))\<rparr>"
  by (simp add: write_progress_def Let_def GetProgress_def publish_def UpdateProgress_def)

lemma at_publish: "onboarding_at i m k ob \<Longrightarrow> onboarding_at i m k (publish ob) \<and> ob_monitor (publish ob) = m(i \<mapsto> ob_progress ob)"
  by (auto simp: onboarding_at_def publish_def UpdateProgress_def)

lemma at_progress: "k \<le> 4 \<Longrightarrow> onboarding_at i m k ob \<Longrightarrow> f64_in 0 90 (op_Progress (ob_progress ob))"
  by (cases k) (auto simp: onboarding_at_def share_done_before f64_lit_0)

lemma end_unfinished:
  assumes "k \<le> 4" "onboarding_at i m k ob"
  shows "finish t ob = ob" "onboarding_end i m ob"
  using in_percent[OF at_progress[OF assms]] assms(2)
  by (auto simp: finish_def onboarding_end_def onboarding_at_def finished_def split: if_splits)

lemma end_finished:
  assumes "onboarding_at i m 5 ob" "t \<noteq> zero_time"
  shows "onboarding_end i m (finish t ob) \<and> finished (ob_progress (finish t ob)) \<and> mv_Config (ob_mvno (finish t ob)) = mv_Config (ob_mvno ob)
    \<and> ob_monitor (finish t ob) = m(i \<mapsto> ob_progress (finish t ob))"
proof -
  have ob: "mv_ID (ob_mvno ob) = i" "op_Steps (ob_progress ob) = getOnboardingSteps" "op_Progress (ob_progress ob) = Fin False 100"
    "ob_monitor ob = m(i \<mapsto> ob_progress ob)"
    using assms(1) by (simp_all add: onboarding_at_def share_done_last f64_lit_numeral)
  then have "finish t ob = ob\<lparr>ob_mvno := (ob_mvno ob)\<lparr>mv_Status := StatusActive\<rparr>, ob_progress := (ob_progress ob)\<lparr>op_CompletedAt := t\<rparr>,
      ob_monitor := m(i \<mapsto> (ob_progress ob)\<lparr>op_CompletedAt := t\<rparr>)\<rparr>"
    by (simp add: finish_def f64_lit_numeral write_progress_at[of _ m "ob_progress ob"])
  then show ?thesis using ob assms(2) by (simp add: onboarding_end_def finished_def f64_lit_numeral)
qed

text \<open>One iteration of the loop.\<close>

lemma iteration:
  assumes "onboarding_at i m k ob" "executeStep env name (ob_mvno (publish ob)) (ob_services (publish ob)) = Returns (e, mv, s)"
  shows "onboarding_at i m k ((publish ob)\<lparr>ob_mvno := mv, ob_services := s\<rparr>)"
    "onboarding_at i m (Suc k) (publish (write_progress (\<lambda>p. p\<lparr>op_Progress := share_done k 5\<rparr>) ((publish ob)\<lparr>ob_mvno := mv, ob_services := s\<rparr>)))"
proof -
  have "mv_ID mv = i" "mv_Status mv = StatusPending"
    using step_operator[OF assms(2)] assms(1) by (simp_all add: onboarding_at_def publish_def)
  then show "onboarding_at i m k ((publish ob)\<lparr>ob_mvno := mv, ob_services := s\<rparr>)"
    using at_publish[OF assms(1)] assms(1) by (auto simp: onboarding_at_def publish_def)
  let ?ob = "(publish ob)\<lparr>ob_mvno := mv, ob_services := s\<rparr>"
  have w: "write_progress (\<lambda>p. p\<lparr>op_Progress := share_done k 5\<rparr>) ?ob = ?ob\<lparr>ob_progress := (ob_progress ob)\<lparr>op_Progress := share_done k 5\<rparr>,
      ob_monitor := m(i \<mapsto> (ob_progress ob)\<lparr>op_Progress := share_done k 5\<rparr>)\<rparr>"
    using write_progress_at[of ?ob m "ob_progress ob" "\<lambda>p. p\<lparr>op_Progress := share_done k 5\<rparr>"] at_publish[OF assms(1)] \<open>mv_ID mv = i\<close>
    by (simp add: publish_def)
  show "onboarding_at i m (Suc k) (publish (write_progress (\<lambda>p. p\<lparr>op_Progress := share_done k 5\<rparr>) ?ob))"
    using assms(1) \<open>mv_ID mv = i\<close> \<open>mv_Status mv = _\<close>
    unfolding w by (simp add: onboarding_at_def publish_def UpdateProgress_def)
qed

lemma run_ends:
  assumes "re_now env 2 \<noteq> zero_time"
  shows "onboarding_at i m k ob \<Longrightarrow> k + length sts = 5 \<Longrightarrow> run_steps env cancelled 5 k sts ob = Returns o' \<Longrightarrow> onboarding_end i m o'"
proof (induction sts arbitrary: k ob)
  case Nil
  then show ?case using end_finished[of i m ob, OF _ assms] by simp
next
  case (Cons st sts)
  show ?case
  proof (cases "cancelled k")
    case True
    then show ?thesis using Cons end_unfinished(2)[of k i m ob] by simp
  next
    case False
    then obtain e mv s where x: "executeStep env (st_Name st) (ob_mvno (publish ob)) (ob_services (publish ob)) = Returns (e, mv, s)"
      using Cons.prems(3) by (cases "executeStep env (st_Name st) (ob_mvno (publish ob)) (ob_services (publish ob))") (auto simp: Let_def)
    show ?thesis
    proof (cases e)
      case (Some e')
      then have "o' = finish (re_now env 2) ((publish ob)\<lparr>ob_mvno := mv, ob_services := s\<rparr>)"
        using Cons.prems(3) False x by (simp add: Let_def)
      then show ?thesis using end_unfinished[OF _ iteration(1)[OF Cons.prems(1) x]] Cons.prems(2) by simp
    next
      case None
      then show ?thesis using Cons.prems False x Cons.IH[OF iteration(2)[OF Cons.prems(1) x]] by (simp add: Let_def)
    qed
  qed
qed

lemma start_at: "StartOnboarding i now t0 req m s = Inr (mv, ob) \<Longrightarrow> onboarding_at i m 0 ob \<and> op_Steps (ob_progress ob) = getOnboardingSteps"
  by (auto simp: started onboarding_at_def new_mvno_def new_progress_def)

lemma execute_steps: "StartOnboarding i now t0 req m s = Inr (mv, ob) \<Longrightarrow>
  executeOnboarding env cancelled ob = run_steps env cancelled 5 0 (map pending_step step_names) ob"
  using start_at[of i now t0 req m s mv ob] by (simp only: executeOnboarding_def steps_of_names simp_thms)

text \<open>An onboarding ends in one of two ways: the operator is active, its progress is complete and
  has an end, or the operator is pending as before and its progress has no end. The percentage stays
  between 0 and 100, and the monitor has the progress unless the onboarding was cancelled first.\<close>

theorem onboarding_outcome:
  assumes "StartOnboarding i now t0 req m s = Inr (mv, ob)" and "re_now env 2 \<noteq> zero_time"
    and "executeOnboarding env cancelled ob = Returns o'"
  shows "(if finished (ob_progress o') then mv_Status (ob_mvno o') = StatusActive
      else mv_Status (ob_mvno o') = StatusPending \<and> op_CompletedAt (ob_progress o') = zero_time)
    \<and> f64_le (f64_lit 0) (op_Progress (ob_progress o')) \<and> f64_le (op_Progress (ob_progress o')) (f64_lit 100)
    \<and> (ob_monitor o' = m \<or> ob_monitor o' = m(i \<mapsto> ob_progress o'))"
proof -
  have "onboarding_end i m o'"
    using run_ends[OF assms(2), of i m 0 ob "map pending_step step_names" cancelled o'] start_at[OF assms(1)] assms(3)
    by (simp add: execute_steps[OF assms(1)] step_names_def)
  then show ?thesis unfolding onboarding_end_def
    by (cases "op_Progress (ob_progress o')") (auto simp: f64_lit_numeral f64_lit_0)
qed

lemma operator_valid:
  assumes "StartOnboarding i now t0 req m s = Inr (mv, ob)" "\<forall>c \<in> set (or_TargetCountries req). hasCarrierCoverage c"
  shows "ValidateMVNO (ob_mvno ob) = None"
  using assms request_then_operator[of req "ob_mvno ob"] by (auto simp: started new_mvno_def)

text \<open>The service as it is constructed has no provisioner: unless the context is cancelled, every
  onboarding of an operator in covered countries panics at its second step, in a goroutine nobody
  recovers, which ends the process.\<close>

theorem onboarding_crashes:
  assumes "StartOnboarding i now t0 req m s = Inr (mv, ob)" and "\<forall>c \<in> set (or_TargetCountries req). hasCarrierCoverage c"
    and "re_provisioner env = None" and "\<not> cancelled 0" and "\<not> cancelled 1"
  shows "executeOnboarding env cancelled ob = Panics"
  using operator_valid[OF assms(1,2)] assms(3-5) unfolding execute_steps[OF assms(1)]
  by (simp add: step_names_def pending_step_def executeStep_def publish_def write_progress_def Let_def)

section \<open>Complete onboardings\<close>

text \<open>Services that always answer, and always with an active carrier.\<close>

definition services_up :: "'s services \<Rightarrow> bool" where
  "services_up p \<longleftrightarrow> (\<forall>c s. fst (ts_CreateTenant p c s) = None)
     \<and> (\<forall>i s. \<exists>t. ts_GetTenant p i s = Inr t \<and> tnc_Settings t \<noteq> None)
     \<and> (\<forall>c s. \<exists>infos. cs_GetCarriersByCountry p c s = Inr infos \<and> (\<exists>x \<in> set infos. ci_IsActive x))
     \<and> (\<forall>i c s. fst (cs_ConfigureCarrier p i c s) = None)
     \<and> (\<forall>i pl s. \<not> isl (fst (bs_CreateBillingAccount p i pl s)))
     \<and> (\<forall>i b pl s. fst (bs_CreateRatePlans p i b pl s) = None) \<and> (\<forall>i b s. fst (bs_SetupPaymentGateway p i b s) = None)
     \<and> (\<forall>i n s. fst (ss_CreateStorageBucket p i n s) = None) \<and> (\<forall>i s. fst (ss_CreateDatabaseSchema p i s) = None)"

lemma fst_failed [simp]: "fst (failed w r) = None \<longleftrightarrow> fst r = None"
  by (cases r) simp

lemma fst_and_then: "fst (and_then r f) = None \<longleftrightarrow> fst r = None \<and> fst (f (snd r)) = None"
  by (cases "(r, f)" rule: and_then.cases) auto

lemma configure_all_up: "services_up p \<Longrightarrow> fst (configure_all p m cs s) = None"
  by (induction cs arbitrary: s) (simp_all add: fst_and_then services_up_def)

lemma provision_up: "services_up p \<Longrightarrow> fst (ProvisionResources p t m s) = None"
  by (simp add: ProvisionResources_def fst_and_then services_up_def provisionTenantContext_def provisionDatabaseSchema_def provisionStorageResources_def)

lemma billing_up: "services_up p \<Longrightarrow> fst (SetupBilling p m s) = None"
proof -
  assume p: "services_up p"
  then have "\<not> isl (fst (bs_CreateBillingAccount p (mv_ID m) (mv_Plan m) s))" by (simp add: services_up_def)
  then obtain b s' where "bs_CreateBillingAccount p (mv_ID m) (mv_Plan m) s = (Inr b, s')"
    by (cases "bs_CreateBillingAccount p (mv_ID m) (mv_Plan m) s"; cases "fst (bs_CreateBillingAccount p (mv_ID m) (mv_Plan m) s)") auto
  then show ?thesis using p by (simp add: SetupBilling_def fst_and_then configureRatePlans_def setupPaymentProcessing_def services_up_def)
qed

lemma carriers_up:
  assumes "services_up p" "\<forall>xs. mset (order xs) = mset xs" "mc_AllowedCountries (mv_Config m) \<noteq> []"
  shows "\<exists>cs s'. SetupCarriers p order m s = (None, with_carriers cs m, s')"
proof -
  obtain c cs' where c: "mc_AllowedCountries (mv_Config m) = c # cs'" using assms(3) by (cases "mc_AllowedCountries (mv_Config m)") auto
  obtain infos x where "cs_GetCarriersByCountry p c s = Inr infos" "x \<in> set infos" "ci_IsActive x" using assms(1) unfolding services_up_def by meson
  then have "ci_ID x \<in> set (active_carriers p (mc_AllowedCountries (mv_Config m)) s)" by (auto simp: c)
  then have "mset (remdups (active_carriers p (mc_AllowedCountries (mv_Config m)) s)) \<noteq> {#}" by (metis length_pos_if_in_set mset_zero_iff set_remdups list.set_cases list.distinct(1))
  then have "order (remdups (active_carriers p (mc_AllowedCountries (mv_Config m)) s)) \<noteq> []" using assms(2) by (metis mset_zero_iff)
  then obtain cs where "selectCarriers p order (mc_AllowedCountries (mv_Config m)) s = Inr cs" by (simp add: selectCarriers_def)
  then show ?thesis using configure_all_up[OF assms(1), of m cs s]
    by (cases "configure_all p m cs s") (auto simp: SetupCarriers_def)
qed

lemma api_up:
  assumes "services_up p" "8 \<le> length k"
  shows "\<exists>s'. SetupAPIAccess p k k' t t' m s = Returns (None, s')"
proof (cases "mc_APIAccess (mv_Config m)")
  case True
  obtain tn st where t: "ts_GetTenant p (mv_ID m) s = Inr tn" "tnc_Settings tn = Some st" using assms(1) unfolding services_up_def by (metis option.exhaust)
  let ?tn = "tn\<lparr>tnc_Settings := Some (st(''api_access'' \<mapsto> api_settings k k' (mv_Plan m) t t'))\<rparr>"
  obtain s' where "ts_CreateTenant p ?tn s = (None, s')" using assms(1) by (metis prod.collapse services_up_def)
  then show ?thesis using True t assms(2) by (simp add: SetupAPIAccess_def meta_set_def)
qed (simp add: SetupAPIAccess_def)

lemma with_carriers_valid: "ValidateMVNO (with_carriers cs m) = ValidateMVNO m"
  "mc_AllowedCountries (mv_Config (with_carriers cs m)) = mc_AllowedCountries (mv_Config m)"
  by (auto simp: ValidateMVNO_def with_carriers_def split: option.splits)

lemma step_up:
  assumes "services_up p" "re_provisioner env = Some p" "\<forall>xs. mset (re_order env xs) = mset xs" "8 \<le> length (re_apiKey env)"
    and "name \<in> set step_names" "ValidateMVNO m = None" "mc_AllowedCountries (mv_Config m) \<noteq> []"
  shows "\<exists>m' s'. executeStep env name m s = Returns (None, m', s') \<and> ValidateMVNO m' = None \<and> mc_AllowedCountries (mv_Config m') \<noteq> []"
proof -
  obtain s1 where 1: "ProvisionResources p (re_now env 0) m s = (None, s1)" using provision_up[OF assms(1)] by (metis prod.collapse)
  obtain cs s2 where 2: "SetupCarriers p (re_order env) m s = (None, with_carriers cs m, s2)" using carriers_up[OF assms(1,3,7)] by blast
  obtain s3 where 3: "SetupBilling p m s = (None, s3)" using billing_up[OF assms(1)] by (metis prod.collapse)
  obtain s4 where 4: "SetupAPIAccess p (re_apiKey env) (re_secretKey env) (re_now env 1) (re_expires env) m s = Returns (None, s4)"
    using api_up[OF assms(1,4)] by blast
  show ?thesis using assms(2,5-7) by (auto simp: step_names_def executeStep_def 1 2 3 4 with_carriers_valid simp del: One_nat_def)
qed

lemma run_up:
  assumes "services_up p" "re_provisioner env = Some p" "\<forall>xs. mset (re_order env xs) = mset xs" "8 \<le> length (re_apiKey env)"
  shows "onboarding_at i m k ob \<Longrightarrow> k + length names = 5 \<Longrightarrow> set names \<subseteq> set step_names \<Longrightarrow> ValidateMVNO (ob_mvno ob) = None \<Longrightarrow>
      mc_AllowedCountries (mv_Config (ob_mvno ob)) \<noteq> [] \<Longrightarrow>
    \<exists>o'. run_steps env (\<lambda>_. False) 5 k (map pending_step names) ob = Returns (finish (re_now env 2) o') \<and> onboarding_at i m 5 o'"
proof (induction names arbitrary: k ob)
  case (Cons name names)
  obtain mv s where x: "executeStep env name (ob_mvno (publish ob)) (ob_services (publish ob)) = Returns (None, mv, s)"
    and v: "ValidateMVNO mv = None" "mc_AllowedCountries (mv_Config mv) \<noteq> []"
    using step_up[OF assms, of name "ob_mvno (publish ob)" "ob_services (publish ob)"] Cons.prems by (auto simp: publish_def)
  note it = iteration(2)[OF Cons.prems(1) x]
  have "ob_mvno (publish (write_progress f o')) = ob_mvno o'" for f and o' :: "'a onboarding" by (simp add: publish_def write_progress_def Let_def)
  then show ?case using Cons.IH[OF it] Cons.prems v x by (simp add: Let_def pending_step_def)
qed (auto simp: onboarding_at_def)

text \<open>With a provisioner whose services answer, an accepted request of covered countries ends with an
  active operator and a complete progress, which the monitor shows.\<close>

theorem onboarding_succeeds:
  assumes "StartOnboarding i now t0 req m s = Inr (mv, ob)" and "\<forall>c \<in> set (or_TargetCountries req). hasCarrierCoverage c"
    and up: "services_up p" "re_provisioner env = Some p" "\<forall>xs. mset (re_order env xs) = mset xs" "8 \<le> length (re_apiKey env)"
    and "re_now env 2 \<noteq> zero_time"
  shows "\<exists>o'. executeOnboarding env (\<lambda>_. False) ob = Returns o' \<and> mv_Status (ob_mvno o') = StatusActive
    \<and> finished (ob_progress o') \<and> GetProgress i (ob_monitor o') = Some (ob_progress o')"
proof -
  have "or_TargetCountries req \<noteq> []"
    using assms(1) by (auto simp: started ValidateRequest_def validateTechnicalRequirements_def split: option.splits if_splits)
  then have "mc_AllowedCountries (mv_Config (ob_mvno ob)) \<noteq> []" using assms(1) by (auto simp: started new_mvno_def)
  then obtain o' where o': "executeOnboarding env (\<lambda>_. False) ob = Returns (finish (re_now env 2) o')" "onboarding_at i m 5 o'"
    using run_up[OF up, of i m 0 ob step_names] start_at[OF assms(1)] operator_valid[OF assms(1,2)]
    unfolding execute_steps[OF assms(1)] by (auto simp: step_names_def)
  from end_finished[OF o'(2) assms(7)] show ?thesis using o'(1) by (auto simp: onboarding_end_def GetProgress_def)
qed

section \<open>What the monitor reports\<close>

inductive monitor_reachable :: "'s services option \<Rightarrow> OnboardingMonitor \<Rightarrow> bool" for p where
  Empty: "monitor_reachable p Map.empty"
| Run: "monitor_reachable p m \<Longrightarrow> StartOnboarding i now t0 req m s = Inr (mv, ob) \<Longrightarrow> re_provisioner env = p \<Longrightarrow> re_now env 2 \<noteq> zero_time
    \<Longrightarrow> executeOnboarding env cancelled ob = Returns o' \<Longrightarrow> monitor_reachable p (ob_monitor o')"
| Cleanup: "monitor_reachable p m \<Longrightarrow> monitor_reachable p (CleanupOldProgress now age m)"

definition monitor_ok :: "OnboardingMonitor \<Rightarrow> bool" where
  "monitor_ok m \<longleftrightarrow> (\<forall>pr \<in> ran m. op_Steps pr = getOnboardingSteps \<and> (op_CompletedAt pr \<noteq> zero_time \<longrightarrow> f64_eq (op_Progress pr) (f64_lit 100)))"

lemma monitor_reachable_ok: "monitor_reachable p m \<Longrightarrow> monitor_ok m"
proof (induction rule: monitor_reachable.induct)
  case (Run m i now t0 req s mv ob env cancelled o')
  have "onboarding_end i m o'"
    using run_ends[OF Run(4), of i m 0 ob "map pending_step step_names" cancelled o'] start_at[OF Run(2)] Run(5)
    by (simp add: execute_steps[OF Run(2)] step_names_def)
  then have "ran (ob_monitor o') \<subseteq> insert (ob_progress o') (ran m)"
    "op_Steps (ob_progress o') = getOnboardingSteps \<and> (op_CompletedAt (ob_progress o') \<noteq> zero_time \<longrightarrow> f64_eq (op_Progress (ob_progress o')) (f64_lit 100))"
    by (auto simp: onboarding_end_def finished_def ran_def split: if_splits)
  then show ?case using Run.IH unfolding monitor_ok_def by blast
next
  case (Cleanup m now age)
  then show ?case by (fastforce simp: monitor_ok_def CleanupOldProgress_def ran_def split: option.splits if_splits)
qed (simp add: monitor_ok_def)

lemma entries_ran: "pr \<in> set (entries m ks) \<Longrightarrow> pr \<in> ran m"
  by (induction ks) (auto simp: entries_def List.map_filter_simps ran_def split: option.splits)

definition none_completed :: "(string \<rightharpoonup> int \<times> int \<times> int) \<Rightarrow> bool" where
  "none_completed stats \<longleftrightarrow> (\<forall>name c f n. stats name = Some (c, f, n) \<longrightarrow> c = 0)"

lemma count_pending: "none_completed stats \<Longrightarrow> none_completed (foldl count_step stats (map pending_step names))"
proof (induction names arbitrary: stats)
  case (Cons name names)
  have "none_completed (count_step stats (pending_step name))"
    using Cons.prems by (auto simp: none_completed_def count_step_def pending_step_def split: option.splits prod.splits)
  then show ?case using Cons.IH by simp
qed simp

lemma stats_pending: "\<forall>pr \<in> set prs. op_Steps pr = getOnboardingSteps \<Longrightarrow> none_completed stats \<Longrightarrow>
  none_completed (foldl (\<lambda>stats p. foldl count_step stats (op_Steps p)) stats prs)"
  by (induction prs arbitrary: stats) (simp_all add: steps_of_names count_pending)

lemma f64_of_int_positive: "0 < n \<Longrightarrow> f64_of_int n = Inf False \<or> (\<exists>q \<ge> 1. f64_of_int n = Fin False q)"
proof -
  assume "0 < n"
  then have "rnd 1 \<le> rnd (of_int n)" by (intro rnd_mono) simp
  moreover have "rnd 1 = 1" using rep64_1 by (simp add: rep64_def)
  ultimately show ?thesis using \<open>0 < n\<close> by (auto simp: f64_of_int_def f64_round_def Let_def)
qed

lemma rate_zero: "c = 0 \<Longrightarrow> 0 < n \<Longrightarrow> f64_mul (f64_div (f64_of_int c) (f64_of_int n)) (f64_lit 100) = f64_lit 0"
  using f64_of_int_positive[of n] by (auto simp: f64_of_int_def[of 0] f64_round_0 f64_lit_numeral f64_lit_0)

text \<open>The monitor never reports an active or a failed onboarding, and the success rate it computes
  for every step is 0, whatever onboardings have been run: the statuses of the steps are written into
  copies, and an onboarding counts as active only once it has ended.\<close>

theorem monitor_never_reports:
  assumes "monitor_reachable p m"
  shows "GetActiveOnboardingCount m ks = 0 \<and> GetFailedOnboardings m ks = []
    \<and> (\<forall>name rate. GetStepSuccessRate m ks name = Some rate \<longrightarrow> rate = f64_lit 0)"
proof -
  have ok: "\<forall>pr \<in> ran m. op_Steps pr = getOnboardingSteps" "\<forall>pr \<in> ran m. op_CompletedAt pr \<noteq> zero_time \<longrightarrow> f64_eq (op_Progress pr) (f64_lit 100)"
    using monitor_reachable_ok[OF assms] by (auto simp: monitor_ok_def)
  have "\<not> (f64_lt (op_Progress pr) (f64_lit 100) \<and> op_CompletedAt pr \<noteq> zero_time)" if "pr \<in> set (entries m ks)" for pr
    using ok(2) entries_ran[OF that] by (cases "op_Progress pr") (auto simp: f64_lit_numeral)
  then have "GetActiveOnboardingCount m ks = 0" by (simp add: GetActiveOnboardingCount_def filter_empty_conv)
  moreover have "st_Status st \<noteq> ''failed''" if "m i = Some pr" "st \<in> set (op_Steps pr)" for i pr st
  proof -
    have "op_Steps pr = getOnboardingSteps" using ok(1) that(1) by (auto simp: ran_def)
    with that(2) show ?thesis by (auto simp: steps_of_names pending_step_def)
  qed
  then have "GetFailedOnboardings m ks = []" by (auto simp: GetFailedOnboardings_def filter_empty_conv split: option.splits)
  moreover have "none_completed (step_stats m ks)"
    unfolding step_stats_def using ok(1) entries_ran by (intro stats_pending) (auto simp: none_completed_def)
  then have "\<forall>name rate. GetStepSuccessRate m ks name = Some rate \<longrightarrow> rate = f64_lit 0"
    by (auto simp: GetStepSuccessRate_def none_completed_def intro!: rate_zero split: option.splits if_splits)
  ultimately show ?thesis by blast
qed

section \<open>An example\<close>

definition demo_operator_request :: OnboardingRequest where
  "demo_operator_request = \<lparr>or_BusinessName = ''Acme'', or_BusinessID = ''AB-12345'', or_ContactEmail = ''a@b.co'', or_ContactPhone = ''0123456789'',
     or_Plan = PlanGrowth, or_EstimatedSubs = 500, or_TargetCountries = [''gb''], or_UseCase = ''connected cars'', or_TechnicalContact = ''''\<rparr>"

definition demo_services :: "unit services" where
  "demo_services = \<lparr>ts_CreateTenant = (\<lambda>_ s. (None, s)),
     ts_GetTenant = (\<lambda>i s. Inr \<lparr>tnc_ID = i, tnc_Name = '''', tnc_Plan = PlanGrowth, tnc_Settings = Some Map.empty\<rparr>),
     cs_GetCarriersByCountry = (\<lambda>c s. Inr [\<lparr>ci_ID = ''c1'', ci_Name = '''', ci_Countries = [c], ci_SMDEndpoint = '''', ci_IsActive = True\<rparr>]),
     cs_ConfigureCarrier = (\<lambda>_ _ s. (None, s)), bs_CreateBillingAccount = (\<lambda>_ _ s. (Inr ''b'', s)), bs_CreateRatePlans = (\<lambda>_ _ _ s. (None, s)),
     bs_SetupPaymentGateway = (\<lambda>_ _ s. (None, s)), ss_CreateStorageBucket = (\<lambda>_ _ s. (None, s)), ss_CreateDatabaseSchema = (\<lambda>_ s. (None, s))\<rparr>"

definition demo_env :: "unit services option \<Rightarrow> unit run_env" where
  "demo_env p = \<lparr>re_provisioner = p, re_order = (\<lambda>xs. xs), re_apiKey = ''api_12345'', re_secretKey = ''sec_1'', re_now = (\<lambda>_. 7), re_expires = 9\<rparr>"

definition demo_onboarding :: "unit onboarding" where
  "demo_onboarding = \<lparr>ob_mvno = new_mvno ''m'' 1 demo_operator_request, ob_progress = new_progress ''m'' 2, ob_monitor = Map.empty, ob_services = ()\<rparr>"

lemma demo_started: "StartOnboarding ''m'' 1 2 demo_operator_request Map.empty () = Inr (new_mvno ''m'' 1 demo_operator_request, demo_onboarding)"
proof -
  have "ValidateRequest demo_operator_request = None" by code_simp
  then show ?thesis by (simp add: started demo_onboarding_def)
qed

lemma demo_covered: "\<forall>c \<in> set (or_TargetCountries demo_operator_request). hasCarrierCoverage c"
  by code_simp

lemma demo_services_up: "services_up demo_services"
  by (simp add: services_up_def demo_services_def)

lemma demo_env_now: "re_now (demo_env p) 2 \<noteq> zero_time"
  by (simp add: demo_env_def zero_time_def)

theorem onboarding_crashes_witness: "executeOnboarding (demo_env None) (\<lambda>_. False) demo_onboarding = Panics"
  by (rule onboarding_crashes[OF demo_started demo_covered]) (simp_all add: demo_env_def)

theorem onboarding_succeeds_witness:
  "\<exists>ob'. executeOnboarding (demo_env (Some demo_services)) (\<lambda>_. False) demo_onboarding = Returns ob' \<and> mv_Status (ob_mvno ob') = StatusActive
    \<and> finished (ob_progress ob') \<and> GetProgress ''m'' (ob_monitor ob') = Some (ob_progress ob')"
  by (rule onboarding_succeeds[OF demo_started demo_covered demo_services_up]) (simp_all add: demo_env_def zero_time_def)

lemma demo_cancelled: "executeOnboarding (demo_env p) (\<lambda>_. True) demo_onboarding = Returns demo_onboarding"
  unfolding execute_steps[OF demo_started] by (simp add: step_names_def)

theorem onboarding_outcome_witness:
  "mv_Status (ob_mvno demo_onboarding) = StatusPending \<and> op_CompletedAt (ob_progress demo_onboarding) = zero_time"
  using onboarding_outcome[OF demo_started demo_env_now demo_cancelled]
  by (simp add: finished_def demo_onboarding_def new_progress_def)

lemma demo_failing_step:
  "\<exists>ob'. executeOnboarding (demo_env None) (\<lambda>i. i = 1) demo_onboarding = Returns ob' \<and> ob_monitor ob' ''m'' \<noteq> None"
  using operator_valid[OF demo_started demo_covered] new_mvno_def[of "''m''" 1 demo_operator_request] unfolding execute_steps[OF demo_started]
  by (simp add: step_names_def pending_step_def executeStep_def publish_def write_progress_def Let_def UpdateProgress_def GetProgress_def demo_onboarding_def)

theorem monitor_never_reports_witness:
  "\<exists>m. m ''m'' \<noteq> None \<and> GetActiveOnboardingCount m [''m''] = 0 \<and> GetFailedOnboardings m [''m''] = []"
proof -
  obtain ob' where ob': "executeOnboarding (demo_env None) (\<lambda>i. i = 1) demo_onboarding = Returns ob'" "ob_monitor ob' ''m'' \<noteq> None"
    using demo_failing_step by blast
  have "monitor_reachable (None :: unit services option) (ob_monitor ob')"
    by (rule monitor_reachable.Run[OF monitor_reachable.Empty demo_started _ demo_env_now ob'(1)]) (simp add: demo_env_def)
  from monitor_never_reports[OF this, of "[''m'']"] show ?thesis using ob'(2) by blast
qed

end
