(* ===== verification/Plan_Store.thy ===== *)
theory Plan_Store
  imports Rate_Plan Gorm
begin

text \<open>
  The rate plan repository of the carrier connector
  (\<open>apps/carrier-connector/internal/repository\<close>: \<open>types.go\<close>, \<open>repository_rateplan_crud.go\<close>,
  \<open>repository_rateplan_subscription.go\<close>, \<open>repository_rateplan.go\<close>): plans, subscriptions and
  usage records in a database. The database (GORM and PostgreSQL) is a parameter, a record of
  tables of \<open>Gorm\<close>.
  String types that both packages declare are those of \<open>Rate_Plan\<close>.
\<close>

section \<open>Rows\<close>

datatype SubscriptionStatus = SubscriptionStatusActive | SubscriptionStatusCancelled | SubscriptionStatusExpired
  | SubscriptionStatusSuspended | SubscriptionStatusOther string

record RatePlanSubscription =
  sub_ID :: string
  sub_ProfileID :: string
  sub_RatePlanID :: string
  sub_Status :: SubscriptionStatus
  sub_StartedAt :: time
  sub_EndedAt :: "time option"
  sub_BillingCycle :: BillingCycle
  sub_NextBillingDate :: time
  sub_AutoRenew :: bool
  sub_CurrentCycle :: time
  sub_AppliedDiscounts :: "string list"
  sub_Metadata :: metadata
  sub_CreatedAt :: time
  sub_UpdatedAt :: time

record RatePlanUsage =
  use_ID :: string
  use_RatePlanID :: string
  use_ProfileID :: string
  use_CycleStart :: time
  use_CycleEnd :: time
  use_DataUsed :: int
  use_VoiceUsed :: int
  use_SMSUsed :: int
  use_LastUpdated :: time

record row_allowance =
  ral_Amount :: int
  ral_Unit :: string
  ral_Unlimited :: bool

record row_rates =
  rr_DataRate :: f64
  rr_VoiceRate :: f64
  rr_SMSRate :: f64

record row_discount =
  rd_ID :: string
  rd_Type :: DiscountType
  rd_Value :: f64
  rd_IsActive :: bool

text \<open>\<open>repository.RatePlan\<close>; its voice and SMS allowances, which no operation reads, are left out. An
  element of the discounts may be a nil pointer.\<close>

record plan_row =
  pw_ID :: string
  pw_Name :: string
  pw_Description :: string
  pw_CarrierID :: string
  pw_Region :: string
  pw_PlanType :: PlanType
  pw_BasePrice :: f64
  pw_Currency :: string
  pw_BillingCycle :: BillingCycle
  pw_DataAllowance :: "row_allowance option"
  pw_OverageRates :: "row_rates option"
  pw_Discounts :: "row_discount option list option"
  pw_ValidFrom :: time
  pw_ValidTo :: "time option"
  pw_IsActive :: bool
  pw_Status :: PlanStatus
  pw_Metadata :: metadata
  pw_CreatedAt :: time
  pw_UpdatedAt :: time

record SubscriptionFilter =
  sf_Status :: SubscriptionStatus
  sf_RatePlanID :: string
  sf_StartedAfter :: "time option"
  sf_StartedBefore :: "time option"
  sf_Limit :: int
  sf_Offset :: int

section \<open>The database\<close>

record 's plan_db =
  db_subs :: "(RatePlanSubscription, 's) table"
  db_plans :: "(plan_row, 's) table"
  db_usage :: "(RatePlanUsage, 's) table"

datatype store_error = NotFound string | DbError string

fun db_result :: "string option \<times> 's \<Rightarrow> store_error option \<times> 's" where
  "db_result (None, s) = (None, s)"
| "db_result (Some e, s) = (Some (DbError e), s)"

text \<open>An update or a deletion that affects no row reports that the row was not found.\<close>

fun affected :: "string \<Rightarrow> (string + int) \<times> 's \<Rightarrow> store_error option \<times> 's" where
  "affected i (Inl e, s) = (Some (DbError e), s)"
| "affected i (Inr n, s) = ((if n = 0 then Some (NotFound i) else None), s)"

definition first_row :: "string \<Rightarrow> string + 'row option \<Rightarrow> store_error + 'row" where
  "first_row i res = (case res of Inl e \<Rightarrow> Inl (DbError e) | Inr None \<Rightarrow> Inl (NotFound i) | Inr (Some r) \<Rightarrow> Inr r)"

definition optional_row :: "string + 'row option \<Rightarrow> store_error + 'row option" where
  "optional_row res = (case res of Inl e \<Rightarrow> Inl (DbError e) | Inr r \<Rightarrow> Inr r)"

definition positive_opt :: "int \<Rightarrow> int option" where
  "positive_opt n = (if 0 < n then Some n else None)"

section \<open>Subscriptions\<close>

definition CreateSubscription :: "'s plan_db \<Rightarrow> time \<Rightarrow> RatePlanSubscription \<Rightarrow> 's \<Rightarrow> (store_error option \<times> RatePlanSubscription) \<times> 's" where
  "CreateSubscription db now sub s =
     (let sub' = sub\<lparr>sub_CreatedAt := now, sub_UpdatedAt := now\<rparr>;
          (err, s') = db_result (tb_create (db_subs db) sub' s)
      in ((err, sub'), s'))"

definition GetSubscription :: "'s plan_db \<Rightarrow> string \<Rightarrow> 's \<Rightarrow> store_error + RatePlanSubscription" where
  "GetSubscription db i s = first_row i (tb_first (db_subs db) (\<lambda>r. sub_ID r = i) (\<lambda>_. 0) s)"

definition GetActiveSubscription :: "'s plan_db \<Rightarrow> string \<Rightarrow> 's \<Rightarrow> store_error + RatePlanSubscription option" where
  "GetActiveSubscription db profileID s = optional_row
     (tb_first (db_subs db) (\<lambda>r. sub_ProfileID r = profileID \<and> sub_Status r = SubscriptionStatusActive) sub_StartedAt s)"

definition UpdateSubscription :: "'s plan_db \<Rightarrow> time \<Rightarrow> RatePlanSubscription \<Rightarrow> 's \<Rightarrow> store_error option \<times> 's" where
  "UpdateSubscription db now sub s =
     affected (sub_ID sub) (tb_updates (db_subs db) (\<lambda>r. sub_ID r = sub_ID sub) (sub\<lparr>sub_UpdatedAt := now\<rparr>) s)"

definition DeleteSubscription :: "'s plan_db \<Rightarrow> string \<Rightarrow> 's \<Rightarrow> store_error option \<times> 's" where
  "DeleteSubscription db i s = affected i (tb_delete (db_subs db) (\<lambda>r. sub_ID r = i) s)"

definition subscription_matches :: "string \<Rightarrow> SubscriptionFilter \<Rightarrow> RatePlanSubscription \<Rightarrow> bool" where
  "subscription_matches profileID f r \<longleftrightarrow> sub_ProfileID r = profileID
     \<and> (sf_Status f = SubscriptionStatusOther '''' \<or> sub_Status r = sf_Status f)
     \<and> (sf_RatePlanID f = '''' \<or> sub_RatePlanID r = sf_RatePlanID f)
     \<and> pred_option (\<lambda>t. t \<le> sub_StartedAt r) (sf_StartedAfter f)
     \<and> pred_option (\<lambda>t. sub_StartedAt r \<le> t) (sf_StartedBefore f)"

definition ListSubscriptions :: "'s plan_db \<Rightarrow> string \<Rightarrow> SubscriptionFilter \<Rightarrow> 's \<Rightarrow> store_error + RatePlanSubscription list" where
  "ListSubscriptions db profileID f s =
     map_sum DbError id (tb_find (db_subs db) (subscription_matches profileID f) sub_StartedAt
       (positive_opt (sf_Limit f)) (if 0 < sf_Limit f then positive_opt (sf_Offset f) else None) s)"

section \<open>Plans\<close>

definition store_CreateRatePlan :: "'s plan_db \<Rightarrow> time \<Rightarrow> plan_row \<Rightarrow> 's \<Rightarrow> (store_error option \<times> plan_row) \<times> 's" where
  "store_CreateRatePlan db now plan s =
     (let plan' = plan\<lparr>pw_CreatedAt := now, pw_UpdatedAt := now\<rparr>;
          (err, s') = db_result (tb_create (db_plans db) plan' s)
      in ((err, plan'), s'))"

definition store_GetRatePlan :: "'s plan_db \<Rightarrow> string \<Rightarrow> 's \<Rightarrow> store_error + plan_row" where
  "store_GetRatePlan db i s = first_row i (tb_first (db_plans db) (\<lambda>r. pw_ID r = i) (\<lambda>_. 0) s)"

definition store_UpdateRatePlan :: "'s plan_db \<Rightarrow> time \<Rightarrow> plan_row \<Rightarrow> 's \<Rightarrow> store_error option \<times> 's" where
  "store_UpdateRatePlan db now plan s =
     affected (pw_ID plan) (tb_updates (db_plans db) (\<lambda>r. pw_ID r = pw_ID plan) (plan\<lparr>pw_UpdatedAt := now\<rparr>) s)"

definition store_DeleteRatePlan :: "'s plan_db \<Rightarrow> string \<Rightarrow> 's \<Rightarrow> store_error option \<times> 's" where
  "store_DeleteRatePlan db i s = affected i (tb_delete (db_plans db) (\<lambda>r. pw_ID r = i) s)"

section \<open>Usage\<close>

definition CreateUsage :: "'s plan_db \<Rightarrow> time \<Rightarrow> RatePlanUsage \<Rightarrow> 's \<Rightarrow> (store_error option \<times> RatePlanUsage) \<times> 's" where
  "CreateUsage db now usage s =
     (let usage' = usage\<lparr>use_LastUpdated := now\<rparr>;
          (err, s') = db_result (tb_create (db_usage db) usage' s)
      in ((err, usage'), s'))"

definition GetUsage :: "'s plan_db \<Rightarrow> string \<Rightarrow> 's \<Rightarrow> store_error + RatePlanUsage" where
  "GetUsage db i s = first_row i (tb_first (db_usage db) (\<lambda>r. use_ID r = i) (\<lambda>_. 0) s)"

definition UpdateUsage :: "'s plan_db \<Rightarrow> time \<Rightarrow> RatePlanUsage \<Rightarrow> 's \<Rightarrow> (store_error option \<times> RatePlanUsage) \<times> 's" where
  "UpdateUsage db now usage s =
     (let usage' = usage\<lparr>use_LastUpdated := now\<rparr>;
          (err, s') = affected (use_ID usage) (tb_updates (db_usage db) (\<lambda>r. use_ID r = use_ID usage) usage' s)
      in ((err, usage'), s'))"

definition GetCurrentUsage :: "'s plan_db \<Rightarrow> string \<Rightarrow> 's \<Rightarrow> store_error + RatePlanUsage option" where
  "GetCurrentUsage db profileID s = optional_row (tb_first (db_usage db) (\<lambda>r. use_ProfileID r = profileID) use_CycleStart s)"

definition ListUsageHistory :: "'s plan_db \<Rightarrow> string \<Rightarrow> int \<Rightarrow> 's \<Rightarrow> store_error + RatePlanUsage list" where
  "ListUsageHistory db profileID n s =
     map_sum DbError id (tb_find (db_usage db) (\<lambda>r. use_ProfileID r = profileID) use_CycleStart (positive_opt n) None s)"

section \<open>Documented behaviour of the database\<close>

text \<open>GORM updates the fields of the given struct that are not zero values.\<close>

definition set_if :: "bool \<Rightarrow> 'a \<Rightarrow> 'a \<Rightarrow> 'a" where
  "set_if nz new old = (if nz then new else old)"

definition merge_subscription :: "RatePlanSubscription \<Rightarrow> RatePlanSubscription \<Rightarrow> RatePlanSubscription" where
  "merge_subscription n r = r\<lparr>
     sub_ProfileID := set_if (sub_ProfileID n \<noteq> '''') (sub_ProfileID n) (sub_ProfileID r),
     sub_RatePlanID := set_if (sub_RatePlanID n \<noteq> '''') (sub_RatePlanID n) (sub_RatePlanID r),
     sub_Status := set_if (sub_Status n \<noteq> SubscriptionStatusOther '''') (sub_Status n) (sub_Status r),
     sub_StartedAt := set_if (sub_StartedAt n \<noteq> zero_time) (sub_StartedAt n) (sub_StartedAt r),
     sub_EndedAt := set_if (sub_EndedAt n \<noteq> None) (sub_EndedAt n) (sub_EndedAt r),
     sub_BillingCycle := set_if (sub_BillingCycle n \<noteq> BillingCycleOther '''') (sub_BillingCycle n) (sub_BillingCycle r),
     sub_NextBillingDate := set_if (sub_NextBillingDate n \<noteq> zero_time) (sub_NextBillingDate n) (sub_NextBillingDate r),
     sub_AutoRenew := set_if (sub_AutoRenew n) (sub_AutoRenew n) (sub_AutoRenew r),
     sub_CurrentCycle := set_if (sub_CurrentCycle n \<noteq> zero_time) (sub_CurrentCycle n) (sub_CurrentCycle r),
     sub_AppliedDiscounts := set_if (sub_AppliedDiscounts n \<noteq> []) (sub_AppliedDiscounts n) (sub_AppliedDiscounts r),
     sub_Metadata := set_if (sub_Metadata n \<noteq> None) (sub_Metadata n) (sub_Metadata r),
     sub_CreatedAt := set_if (sub_CreatedAt n \<noteq> zero_time) (sub_CreatedAt n) (sub_CreatedAt r),
     sub_UpdatedAt := set_if (sub_UpdatedAt n \<noteq> zero_time) (sub_UpdatedAt n) (sub_UpdatedAt r)\<rparr>"

definition merge_usage :: "RatePlanUsage \<Rightarrow> RatePlanUsage \<Rightarrow> RatePlanUsage" where
  "merge_usage n r = r\<lparr>
     use_RatePlanID := set_if (use_RatePlanID n \<noteq> '''') (use_RatePlanID n) (use_RatePlanID r),
     use_ProfileID := set_if (use_ProfileID n \<noteq> '''') (use_ProfileID n) (use_ProfileID r),
     use_CycleStart := set_if (use_CycleStart n \<noteq> zero_time) (use_CycleStart n) (use_CycleStart r),
     use_CycleEnd := set_if (use_CycleEnd n \<noteq> zero_time) (use_CycleEnd n) (use_CycleEnd r),
     use_DataUsed := set_if (use_DataUsed n \<noteq> 0) (use_DataUsed n) (use_DataUsed r),
     use_VoiceUsed := set_if (use_VoiceUsed n \<noteq> 0) (use_VoiceUsed n) (use_VoiceUsed r),
     use_SMSUsed := set_if (use_SMSUsed n \<noteq> 0) (use_SMSUsed n) (use_SMSUsed r),
     use_LastUpdated := set_if (use_LastUpdated n \<noteq> zero_time) (use_LastUpdated n) (use_LastUpdated r)\<rparr>"

lemma affected_cases: "affected i p = (err, s') \<Longrightarrow> s' = snd p"
  by (cases "(i, p)" rule: affected.cases) auto

lemma db_result_cases: "db_result p = (err, s') \<Longrightarrow> s' = snd p \<and> (err = None \<longleftrightarrow> fst p = None)"
  by (cases p rule: db_result.cases) auto

text \<open>The three tables of the repository, with their rows.\<close>

definition db_ok ::
  "'s plan_db \<Rightarrow> ('s \<Rightarrow> RatePlanSubscription multiset) \<Rightarrow> ('s \<Rightarrow> plan_row multiset) \<Rightarrow> ('s \<Rightarrow> RatePlanUsage multiset) \<Rightarrow> bool" where
  "db_ok db subs plans usage \<longleftrightarrow>
     table_ok (db_subs db) subs merge_subscription \<and> (\<exists>merge_plan. table_ok (db_plans db) plans merge_plan)
   \<and> table_ok (db_usage db) usage merge_usage
   \<and> table_frame (db_subs db) plans \<and> table_frame (db_subs db) usage
   \<and> table_frame (db_plans db) subs \<and> table_frame (db_plans db) usage
   \<and> table_frame (db_usage db) subs \<and> table_frame (db_usage db) plans"

section \<open>A database in memory\<close>

text \<open>An instance that shows that the documented behaviour can be had.\<close>

record memory =
  mem_subs :: "RatePlanSubscription list"
  mem_plans :: "plan_row list"
  mem_usage :: "RatePlanUsage list"

definition memory_db :: "memory plan_db" where
  "memory_db = \<lparr>db_subs = list_table mem_subs (\<lambda>xs s. s\<lparr>mem_subs := xs\<rparr>) sub_ID merge_subscription,
     db_plans = list_table mem_plans (\<lambda>xs s. s\<lparr>mem_plans := xs\<rparr>) pw_ID (\<lambda>n r. n),
     db_usage = list_table mem_usage (\<lambda>xs s. s\<lparr>mem_usage := xs\<rparr>) use_ID merge_usage\<rparr>"

lemma memory_db_ok: "db_ok memory_db (\<lambda>s. mset (mem_subs s)) (\<lambda>s. mset (mem_plans s)) (\<lambda>s. mset (mem_usage s))"
  unfolding db_ok_def
  by (intro conjI exI[of _ "\<lambda>n r. n"]) (auto simp: memory_db_def table_frame_def list_table_def intro!: list_table_ok[unfolded list_table_def])

end
