(* ===== verification/Plan_Service.thy ===== *)
theory Plan_Service
  imports Plan_Store Calendar
begin

text \<open>
  The rate plan service (\<open>apps/carrier-connector/internal/services\<close>: \<open>service.go\<close>,
  \<open>service_methods.go\<close>, \<open>service_subscription.go\<close>) and the adapter the handlers use
  (\<open>rateplan_adapter.go\<close>, \<open>rateplan_adapter_subs.go\<close>): plans, subscriptions, billing dates,
  usage records and costs over the repository of \<open>Plan_Store\<close>. \<open>now i\<close> is the i-th reading
  of the clock in a call, \<open>off\<close> the offset of the server's location, \<open>uuid\<close> the generated
  identifier.
\<close>

datatype service_error =
    InvalidPlan plan_error
  | ProfileIDRequired
  | RatePlanIDRequired
  | StoreFailed store_error
  | PlanUnavailable
  | AlreadySubscribed
  | SubscriptionNotActive
  | NoActiveSubscription
  | HasActiveSubscriptions

section \<open>Plans\<close>

definition validateRatePlan :: "plan_row \<Rightarrow> plan_error option" where
  "validateRatePlan plan =
     (if pw_Name plan = '''' then Some NameRequired
      else if pw_CarrierID plan = '''' then Some CarrierRequired
      else if pw_Region plan = '''' then Some RegionRequired
      else if f64_lt (pw_BasePrice plan) (f64_lit 0) then Some NegativeBasePrice
      else if pw_Currency plan = '''' then Some CurrencyRequired
      else if pw_BillingCycle plan = BillingCycleOther '''' then Some CycleRequired
      else if pw_ValidFrom plan = zero_time then Some ValidFromRequired
      else None)"

definition svc_CreateRatePlan :: "'s plan_db \<Rightarrow> string \<Rightarrow> time \<Rightarrow> plan_row \<Rightarrow> 's \<Rightarrow> (service_error + plan_row) \<times> 's" where
  "svc_CreateRatePlan db uuid now plan s =
     (let plan1 = (if pw_ID plan = '''' then plan\<lparr>pw_ID := uuid\<rparr> else plan) in
      case validateRatePlan plan1 of
        Some e \<Rightarrow> (Inl (InvalidPlan e), s)
      | None \<Rightarrow>
          (case store_CreateRatePlan db now plan1 s of
             ((Some e, _), s') \<Rightarrow> (Inl (StoreFailed e), s')
           | ((None, plan2), s') \<Rightarrow> (Inr plan2, s')))"

definition svc_GetRatePlan :: "'s plan_db \<Rightarrow> string \<Rightarrow> 's \<Rightarrow> service_error + plan_row" where
  "svc_GetRatePlan db i s = map_sum StoreFailed id (store_GetRatePlan db i s)"

definition svc_UpdateRatePlan :: "'s plan_db \<Rightarrow> time \<Rightarrow> plan_row \<Rightarrow> 's \<Rightarrow> (service_error + plan_row) \<times> 's" where
  "svc_UpdateRatePlan db now plan s =
     (case validateRatePlan plan of
        Some e \<Rightarrow> (Inl (InvalidPlan e), s)
      | None \<Rightarrow>
          (case store_GetRatePlan db (pw_ID plan) s of
             Inl e \<Rightarrow> (Inl (StoreFailed e), s)
           | Inr _ \<Rightarrow>
               (case store_UpdateRatePlan db now plan s of
                  (Some e, s') \<Rightarrow> (Inl (StoreFailed e), s')
                | (None, s') \<Rightarrow> (Inr (plan\<lparr>pw_UpdatedAt := now\<rparr>), s'))))"

definition active_of_plan :: "string \<Rightarrow> SubscriptionFilter" where
  "active_of_plan i = \<lparr>sf_Status = SubscriptionStatusActive, sf_RatePlanID = i, sf_StartedAfter = None, sf_StartedBefore = None,
     sf_Limit = 1, sf_Offset = 0\<rparr>"

definition svc_DeleteRatePlan :: "'s plan_db \<Rightarrow> string \<Rightarrow> 's \<Rightarrow> service_error option \<times> 's" where
  "svc_DeleteRatePlan db i s =
     (case ListSubscriptions db '''' (active_of_plan i) s of
        Inl e \<Rightarrow> (Some (StoreFailed e), s)
      | Inr subscriptions \<Rightarrow>
          if subscriptions \<noteq> [] then (Some HasActiveSubscriptions, s)
          else (case store_DeleteRatePlan db i s of (err, s') \<Rightarrow> (map_option StoreFailed err, s')))"

section \<open>Billing dates\<close>

definition calculateNextBillingDate :: "duration \<Rightarrow> BillingCycle \<Rightarrow> time \<Rightarrow> time" where
  "calculateNextBillingDate off cycle t =
     (case cycle of
        BillingCycleDaily \<Rightarrow> AddDate off 0 0 1 t
      | BillingCycleWeekly \<Rightarrow> AddDate off 0 0 7 t
      | BillingCycleMonthly \<Rightarrow> AddDate off 0 1 0 t
      | BillingCycleQuarterly \<Rightarrow> AddDate off 0 3 0 t
      | BillingCycleYearly \<Rightarrow> AddDate off 1 0 0 t
      | BillingCycleOther s \<Rightarrow> AddDate off 0 1 0 t)"

definition calculateCycleEnd :: "duration \<Rightarrow> BillingCycle \<Rightarrow> time \<Rightarrow> time" where
  "calculateCycleEnd off cycle cycleStart =
     (case cycle of
        BillingCycleDaily \<Rightarrow> AddDate off 0 0 1 cycleStart - 1
      | BillingCycleWeekly \<Rightarrow> AddDate off 0 0 7 cycleStart - 1
      | BillingCycleMonthly \<Rightarrow> AddDate off 0 1 0 cycleStart - 1
      | BillingCycleQuarterly \<Rightarrow> AddDate off 0 3 0 cycleStart - 1
      | BillingCycleYearly \<Rightarrow> AddDate off 1 0 0 cycleStart - 1
      | BillingCycleOther s \<Rightarrow> AddDate off 0 1 0 cycleStart - 1)"

section \<open>Subscriptions\<close>

definition validateSubscribeRequest :: "SubscribeRequest \<Rightarrow> service_error option" where
  "validateSubscribeRequest req =
     (if sr_ProfileID req = '''' then Some ProfileIDRequired
      else if sr_RatePlanID req = '''' then Some RatePlanIDRequired else None)"

text \<open>The two database accesses of a subscription: what it checks, and the row it creates.\<close>

definition subscribe_check :: "'s plan_db \<Rightarrow> SubscribeRequest \<Rightarrow> 's \<Rightarrow> service_error + plan_row" where
  "subscribe_check db req s =
     (case validateSubscribeRequest req of
        Some e \<Rightarrow> Inl e
      | None \<Rightarrow>
          (case store_GetRatePlan db (sr_RatePlanID req) s of
             Inl e \<Rightarrow> Inl (StoreFailed e)
           | Inr plan \<Rightarrow>
               if \<not> pw_IsActive plan \<or> pw_Status plan \<noteq> PlanStatusActive then Inl PlanUnavailable
               else (case GetActiveSubscription db (sr_ProfileID req) s of
                       Inl e \<Rightarrow> Inl (StoreFailed e)
                     | Inr (Some _) \<Rightarrow> Inl AlreadySubscribed
                     | Inr None \<Rightarrow> Inr plan)))"

definition new_subscription :: "duration \<Rightarrow> string \<Rightarrow> (nat \<Rightarrow> time) \<Rightarrow> plan_row \<Rightarrow> SubscribeRequest \<Rightarrow> RatePlanSubscription" where
  "new_subscription off uuid now plan req =
     \<lparr>sub_ID = uuid, sub_ProfileID = sr_ProfileID req, sub_RatePlanID = sr_RatePlanID req, sub_Status = SubscriptionStatusActive,
      sub_StartedAt = now 0, sub_EndedAt = None, sub_BillingCycle = pw_BillingCycle plan,
      sub_NextBillingDate = calculateNextBillingDate off (pw_BillingCycle plan) (now 1), sub_AutoRenew = sr_AutoRenew req,
      sub_CurrentCycle = now 2, sub_AppliedDiscounts = sr_AppliedDiscounts req, sub_Metadata = sr_Metadata req,
      sub_CreatedAt = zero_time, sub_UpdatedAt = zero_time\<rparr>"

definition subscribe_create ::
  "'s plan_db \<Rightarrow> duration \<Rightarrow> string \<Rightarrow> (nat \<Rightarrow> time) \<Rightarrow> SubscribeRequest \<Rightarrow> plan_row \<Rightarrow> 's \<Rightarrow> (service_error + RatePlanSubscription) \<times> 's" where
  "subscribe_create db off uuid now req plan s =
     (case CreateSubscription db (now 3) (new_subscription off uuid now plan req) s of
        ((Some e, _), s') \<Rightarrow> (Inl (StoreFailed e), s')
      | ((None, sub), s') \<Rightarrow> (Inr sub, s'))"

definition SubscribeToPlan ::
  "'s plan_db \<Rightarrow> duration \<Rightarrow> string \<Rightarrow> (nat \<Rightarrow> time) \<Rightarrow> SubscribeRequest \<Rightarrow> 's \<Rightarrow> (service_error + RatePlanSubscription) \<times> 's" where
  "SubscribeToPlan db off uuid now req s =
     (case subscribe_check db req s of
        Inl e \<Rightarrow> (Inl e, s)
      | Inr plan \<Rightarrow> subscribe_create db off uuid now req plan s)"

definition CancelSubscription :: "'s plan_db \<Rightarrow> (nat \<Rightarrow> time) \<Rightarrow> string \<Rightarrow> string \<Rightarrow> 's \<Rightarrow> service_error option \<times> 's" where
  "CancelSubscription db now i reason s =
     (case GetSubscription db i s of
        Inl e \<Rightarrow> (Some (StoreFailed e), s)
      | Inr sub \<Rightarrow>
          if sub_Status sub \<noteq> SubscriptionStatusActive then (Some SubscriptionNotActive, s)
          else
            let m = (case meta_make (sub_Metadata sub) of Some m \<Rightarrow> m(''cancellation_reason'' \<mapsto> AnyString reason) | None \<Rightarrow> Map.empty);
                sub' = sub\<lparr>sub_Status := SubscriptionStatusCancelled, sub_EndedAt := Some (now 0), sub_UpdatedAt := now 0,
                  sub_Metadata := Some m\<rparr>
            in (case UpdateSubscription db (now 1) sub' s of (err, s') \<Rightarrow> (map_option StoreFailed err, s')))"

definition svc_UpdateSubscription :: "'s plan_db \<Rightarrow> time \<Rightarrow> RatePlanSubscription \<Rightarrow> 's \<Rightarrow> (service_error + RatePlanSubscription) \<times> 's" where
  "svc_UpdateSubscription db now sub s =
     (case UpdateSubscription db now sub s of
        (Some e, s') \<Rightarrow> (Inl (StoreFailed e), s')
      | (None, s') \<Rightarrow> (Inr (sub\<lparr>sub_UpdatedAt := now\<rparr>), s'))"

section \<open>Usage and costs\<close>

record RecordUsageRequest =
  ru_ProfileID :: string
  ru_DataUsed :: int
  ru_VoiceUsed :: int
  ru_SMSUsed :: int

definition new_usage :: "duration \<Rightarrow> string \<Rightarrow> RatePlanSubscription \<Rightarrow> RecordUsageRequest \<Rightarrow> RatePlanUsage" where
  "new_usage off uuid sub req =
     \<lparr>use_ID = uuid, use_RatePlanID = sub_RatePlanID sub, use_ProfileID = ru_ProfileID req, use_CycleStart = sub_CurrentCycle sub,
      use_CycleEnd = calculateCycleEnd off (sub_BillingCycle sub) (sub_CurrentCycle sub), use_DataUsed = ru_DataUsed req,
      use_VoiceUsed = ru_VoiceUsed req, use_SMSUsed = ru_SMSUsed req, use_LastUpdated = zero_time\<rparr>"

definition add_usage :: "RatePlanUsage \<Rightarrow> RecordUsageRequest \<Rightarrow> RatePlanUsage" where
  "add_usage u req = u\<lparr>use_DataUsed := i64 (use_DataUsed u + ru_DataUsed req), use_VoiceUsed := i64 (use_VoiceUsed u + ru_VoiceUsed req),
     use_SMSUsed := i64 (use_SMSUsed u + ru_SMSUsed req)\<rparr>"

definition RecordUsage ::
  "'s plan_db \<Rightarrow> duration \<Rightarrow> string \<Rightarrow> time \<Rightarrow> RecordUsageRequest \<Rightarrow> 's \<Rightarrow> (service_error + RatePlanUsage) \<times> 's" where
  "RecordUsage db off uuid now req s =
     (case GetActiveSubscription db (ru_ProfileID req) s of
        Inl e \<Rightarrow> (Inl (StoreFailed e), s)
      | Inr None \<Rightarrow> (Inl NoActiveSubscription, s)
      | Inr (Some sub) \<Rightarrow>
          (case GetCurrentUsage db (ru_ProfileID req) s of
             Inl e \<Rightarrow> (Inl (StoreFailed e), s)
           | Inr None \<Rightarrow>
               (case CreateUsage db now (new_usage off uuid sub req) s of
                  ((Some e, _), s') \<Rightarrow> (Inl (StoreFailed e), s')
                | ((None, u), s') \<Rightarrow> (Inr u, s'))
           | Inr (Some u) \<Rightarrow>
               (case UpdateUsage db now (add_usage u req) s of
                  ((Some e, _), s') \<Rightarrow> (Inl (StoreFailed e), s')
                | ((None, u'), s') \<Rightarrow> (Inr u', s'))))"

record RatePlanCostCalculation =
  rcc_RatePlanID :: string
  rcc_BaseCost :: f64
  rcc_OverageCost :: f64
  rcc_DiscountCost :: f64
  rcc_TotalCost :: f64
  rcc_Currency :: string
  rcc_CalculatedAt :: time

definition data_overage_cost :: "plan_row \<Rightarrow> int \<Rightarrow> f64" where
  "data_overage_cost plan used =
     (case pw_DataAllowance plan of
        Some a \<Rightarrow>
          if 0 < used \<and> \<not> ral_Unlimited a then
            let allowanceMB = (if ral_Unit a = ''GB'' then i64 (ral_Amount a * 1024) else ral_Amount a) in
            if allowanceMB < used then
              (case pw_OverageRates plan of
                 Some r \<Rightarrow> f64_add (f64_lit 0) (f64_mul (f64_of_int (i64 (used - allowanceMB))) (rr_DataRate r))
               | None \<Rightarrow> f64_lit 0)
            else f64_lit 0
          else f64_lit 0
      | None \<Rightarrow> f64_lit 0)"

text \<open>The loops over the discounts; a nil discount panics.\<close>

fun row_discounts :: "f64 \<Rightarrow> string \<Rightarrow> row_discount option list \<Rightarrow> f64 \<Rightarrow> f64 go" where
  "row_discounts baseCost i [] acc = Returns acc"
| "row_discounts baseCost i (p # ds) acc =
     go_bind (deref p) (\<lambda>d. row_discounts baseCost i ds
       (if rd_ID d = i \<and> rd_IsActive d then
          (case rd_Type d of
             DiscountTypePercentage \<Rightarrow> f64_add acc (f64_div (f64_mul baseCost (rd_Value d)) (f64_lit 100))
           | DiscountTypeFixed \<Rightarrow> f64_add acc (rd_Value d)
           | _ \<Rightarrow> acc)
        else acc))"

fun requested_discounts :: "f64 \<Rightarrow> string list \<Rightarrow> row_discount option list \<Rightarrow> f64 \<Rightarrow> f64 go" where
  "requested_discounts baseCost [] ds acc = Returns acc"
| "requested_discounts baseCost (i # ids) ds acc = go_bind (row_discounts baseCost i ds acc) (requested_discounts baseCost ids ds)"

definition CalculateCost :: "'s plan_db \<Rightarrow> time \<Rightarrow> CalculateCostRequest \<Rightarrow> 's \<Rightarrow> (service_error + RatePlanCostCalculation) go" where
  "CalculateCost db now req s =
     (case store_GetRatePlan db (cc_RatePlanID req) s of
        Inl e \<Rightarrow> Returns (Inl (StoreFailed e))
      | Inr plan \<Rightarrow>
          let baseCost = pw_BasePrice plan;
              overageCost = data_overage_cost plan (cc_DataUsed req)
          in go_bind (case pw_Discounts plan of
                None \<Rightarrow> Returns (f64_lit 0)
              | Some ds \<Rightarrow> requested_discounts baseCost (cc_AppliedDiscounts req) ds (f64_lit 0)) (\<lambda>discountCost.
            Returns (Inr \<lparr>rcc_RatePlanID = cc_RatePlanID req, rcc_BaseCost = baseCost, rcc_OverageCost = overageCost,
              rcc_DiscountCost = discountCost, rcc_TotalCost = f64_sub (f64_add baseCost overageCost) discountCost,
              rcc_Currency = pw_Currency plan, rcc_CalculatedAt = now\<rparr>)))"

section \<open>Adapter\<close>

definition toRepoPlan :: "RatePlan \<Rightarrow> plan_row" where
  "toRepoPlan p = \<lparr>pw_ID = rp_ID p, pw_Name = rp_Name p, pw_Description = rp_Description p, pw_CarrierID = rp_CarrierID p,
     pw_Region = rp_Region p, pw_PlanType = rp_PlanType p, pw_BasePrice = rp_BasePrice p, pw_Currency = '''',
     pw_BillingCycle = rp_BillingCycle p, pw_DataAllowance = None, pw_OverageRates = None, pw_Discounts = None,
     pw_ValidFrom = rp_ValidFrom p, pw_ValidTo = rp_ValidTo p, pw_IsActive = rp_IsActive p, pw_Status = PlanStatusOther '''',
     pw_Metadata = None, pw_CreatedAt = rp_CreatedAt p, pw_UpdatedAt = rp_UpdatedAt p\<rparr>"

definition toRatePlan :: "plan_row \<Rightarrow> RatePlan" where
  "toRatePlan p = \<lparr>rp_ID = pw_ID p, rp_Name = pw_Name p, rp_Description = pw_Description p, rp_CarrierID = pw_CarrierID p,
     rp_Region = pw_Region p, rp_PlanType = pw_PlanType p, rp_Status = PlanStatusOther '''', rp_BasePrice = pw_BasePrice p,
     rp_Currency = '''', rp_BillingCycle = pw_BillingCycle p, rp_DataAllowance = None, rp_VoiceAllowance = None,
     rp_SMSAllowance = None, rp_OverageRates = None, rp_Features = [], rp_ActivationFee = f64_lit 0, rp_EarlyTermination = None,
     rp_Discounts = None, rp_ValidFrom = pw_ValidFrom p, rp_ValidTo = pw_ValidTo p, rp_Priority = 0, rp_IsActive = pw_IsActive p,
     rp_Metadata = None, rp_CreatedAt = pw_CreatedAt p, rp_UpdatedAt = pw_UpdatedAt p\<rparr>"

definition adapter_CreateRatePlan :: "'s plan_db \<Rightarrow> string \<Rightarrow> time \<Rightarrow> RatePlan \<Rightarrow> 's \<Rightarrow> (service_error + RatePlan) \<times> 's" where
  "adapter_CreateRatePlan db uuid now plan s = apfst (map_sum id toRatePlan) (svc_CreateRatePlan db uuid now (toRepoPlan plan) s)"

definition adapter_GetRatePlan :: "'s plan_db \<Rightarrow> string \<Rightarrow> 's \<Rightarrow> service_error + RatePlan" where
  "adapter_GetRatePlan db i s = map_sum id toRatePlan (svc_GetRatePlan db i s)"

definition adapter_UpdateRatePlan :: "'s plan_db \<Rightarrow> time \<Rightarrow> RatePlan \<Rightarrow> 's \<Rightarrow> (service_error + RatePlan) \<times> 's" where
  "adapter_UpdateRatePlan db now plan s = apfst (map_sum id toRatePlan) (svc_UpdateRatePlan db now (toRepoPlan plan) s)"

definition toRatePlanSub :: "RatePlanSubscription \<Rightarrow> RatePlanSubscription" where
  "toRatePlanSub sub = \<lparr>sub_ID = sub_ID sub, sub_ProfileID = sub_ProfileID sub, sub_RatePlanID = sub_RatePlanID sub,
     sub_Status = sub_Status sub, sub_StartedAt = zero_time, sub_EndedAt = None, sub_BillingCycle = BillingCycleOther '''',
     sub_NextBillingDate = zero_time, sub_AutoRenew = False, sub_CurrentCycle = zero_time, sub_AppliedDiscounts = [],
     sub_Metadata = None, sub_CreatedAt = sub_CreatedAt sub, sub_UpdatedAt = sub_UpdatedAt sub\<rparr>"

text \<open>The adapter follows the pointer it gets: nil when there is no active subscription.\<close>

definition adapter_GetActiveSubscription :: "'s plan_db \<Rightarrow> string \<Rightarrow> 's \<Rightarrow> (service_error + RatePlanSubscription) go" where
  "adapter_GetActiveSubscription db profileID s =
     (case GetActiveSubscription db profileID s of
        Inl e \<Rightarrow> Returns (Inl (StoreFailed e))
      | Inr p \<Rightarrow> go_bind (deref p) (\<lambda>sub. Returns (Inr (toRatePlanSub sub))))"

definition adapter_SubscribeToPlan ::
  "'s plan_db \<Rightarrow> duration \<Rightarrow> string \<Rightarrow> (nat \<Rightarrow> time) \<Rightarrow> SubscribeRequest \<Rightarrow> 's \<Rightarrow> (service_error + RatePlanSubscription) \<times> 's" where
  "adapter_SubscribeToPlan db off uuid now req s = apfst (map_sum id toRatePlanSub)
     (SubscribeToPlan db off uuid now \<lparr>sr_ProfileID = sr_ProfileID req, sr_RatePlanID = sr_RatePlanID req, sr_AutoRenew = False,
        sr_AppliedDiscounts = [], sr_Metadata = None\<rparr> s)"

section \<open>Billing dates move forward\<close>

lemma next_billing_bounds:
  "day \<le> calculateNextBillingDate off cycle t - t" "calculateNextBillingDate off cycle t - t \<le> 372 * day"
proof -
  have d: "0 < day" by simp
  have m: "28 * 12 * years * day + 28 * months * day \<le> AddDate off years months 0 t - t"
    "AddDate off years months 0 t - t \<le> 31 * 12 * years * day + 31 * months * day"
    if "0 \<le> years" "0 \<le> months" for years months
    using AddDate_months[OF that, where off = off and t = t] by (simp_all add: algebra_simps)
  show "day \<le> calculateNextBillingDate off cycle t - t" "calculateNextBillingDate off cycle t - t \<le> 372 * day"
    using d m[of 0 1] m[of 0 3] m[of 1 0] by (cases cycle; simp add: calculateNextBillingDate_def AddDate_days)+
qed

text \<open>Billing dates move forward: the next billing date is at least a day and at most 372 days after
  the date it is computed from, and the cycle that starts there ends in the nanosecond before it,
  in every location. Months are added in the calendar, so a monthly subscription of January 31
  is next billed on March 3.\<close>

theorem billing_dates_progress:
  "t + day \<le> calculateNextBillingDate off cycle t
   \<and> calculateNextBillingDate off cycle t \<le> t + 372 * day
   \<and> calculateCycleEnd off cycle t = calculateNextBillingDate off cycle t - 1
   \<and> calculateNextBillingDate 0 BillingCycleMonthly (day_number 2025 1 31 * day) = day_number 2025 3 3 * day"
proof (intro conjI)
  show "calculateCycleEnd off cycle t = calculateNextBillingDate off cycle t - 1"
    by (cases cycle) (simp_all add: calculateCycleEnd_def calculateNextBillingDate_def)
  show "calculateNextBillingDate 0 BillingCycleMonthly (day_number 2025 1 31 * day) = day_number 2025 3 3 * day"
    by code_simp
qed (use next_billing_bounds[of off cycle t] in simp_all)

section \<open>Subscriptions of a profile\<close>

abbreviation active_of :: "string \<Rightarrow> RatePlanSubscription \<Rightarrow> bool" where
  "active_of p x \<equiv> sub_ProfileID x = p \<and> sub_Status x = SubscriptionStatusActive"

definition one_active :: "RatePlanSubscription multiset \<Rightarrow> bool" where
  "one_active M \<longleftrightarrow> (\<forall>p. size (filter_mset (active_of p) M) \<le> 1)"

definition named :: "RatePlanSubscription multiset \<Rightarrow> bool" where
  "named M \<longleftrightarrow> (\<forall>x \<in># M. sub_ProfileID x \<noteq> '''')"

lemma GetActiveSubscription_Inr:
  assumes "db_ok db subs plans usage" "GetActiveSubscription db p s = Inr r"
  shows "r = None \<Longrightarrow> filter_mset (active_of p) (subs s) = {#}" "r = Some x \<Longrightarrow> x \<in># subs s \<and> active_of p x"
proof -
  have t: "table_ok (db_subs db) subs merge_subscription" using assms(1) by (simp add: db_ok_def)
  have f: "tb_first (db_subs db) (active_of p) sub_StartedAt s = Inr r"
    using assms(2) by (auto simp: GetActiveSubscription_def optional_row_def split: sum.splits)
  show "filter_mset (active_of p) (subs s) = {#}" if "r = None"
    using table_first_none[OF t f[unfolded that]] by auto
  show "x \<in># subs s \<and> active_of p x" if "r = Some x"
    using table_first[OF t f[unfolded that]] by simp
qed

lemma subscribe_check_free:
  "db_ok db subs plans usage \<Longrightarrow> subscribe_check db req s = Inr plan
   \<Longrightarrow> filter_mset (active_of (sr_ProfileID req)) (subs s) = {#} \<and> sr_ProfileID req \<noteq> ''''"
  by (auto simp: subscribe_check_def validateSubscribeRequest_def dest: GetActiveSubscription_Inr(1) split: option.splits sum.splits if_splits)

lemma subscribe_create_rows:
  assumes "db_ok db subs plans usage" "subscribe_create db off uuid now req plan s = (res, s')"
  shows "(\<exists>x. res = Inr x \<and> active_of (sr_ProfileID req) x \<and> subs s' = add_mset x (subs s)) \<or> (\<exists>e. res = Inl e \<and> subs s' = subs s)"
proof -
  let ?x = "(new_subscription off uuid now plan req)\<lparr>sub_CreatedAt := now 3, sub_UpdatedAt := now 3\<rparr>"
  obtain err s1 where c: "tb_create (db_subs db) ?x s = (err, s1)" by (cases "tb_create (db_subs db) ?x s") blast
  have "subs s1 = (if err = None then add_mset ?x (subs s) else subs s)"
    using assms(1) c by (intro table_create) (auto simp: db_ok_def)
  then show ?thesis using assms(2) c
    by (cases err) (auto simp: subscribe_create_def CreateSubscription_def new_subscription_def Let_def)
qed

lemma subscribe_rows:
  assumes "db_ok db subs plans usage" "SubscribeToPlan db off uuid now req s = (res, s')"
  shows "(\<exists>x. res = Inr x \<and> active_of (sr_ProfileID req) x \<and> subs s' = add_mset x (subs s)
        \<and> filter_mset (active_of (sr_ProfileID req)) (subs s) = {#} \<and> sr_ProfileID req \<noteq> '''')
    \<or> (\<exists>e. res = Inl e \<and> subs s' = subs s)"
  using assms subscribe_check_free[OF assms(1), of req s] subscribe_create_rows[OF assms(1), of off uuid now req _ s]
  by (auto simp: SubscribeToPlan_def split: sum.splits)

lemma image_deactivate:
  assumes "\<And>x. P x \<Longrightarrow> sub_Status (f x) \<noteq> SubscriptionStatusActive"
  shows "size (filter_mset (active_of p) (image_mset (\<lambda>x. if P x then f x else x) M)) \<le> size (filter_mset (active_of p) M)"
  by (induction M) (auto simp: assms)

lemma cancel_rows:
  assumes "db_ok db subs plans usage" "CancelSubscription db now i reason s = (err, s')"
  shows "subs s' = subs s \<or> (\<exists>x0 n. x0 \<in># subs s \<and> sub_ProfileID n = sub_ProfileID x0 \<and> sub_Status n = SubscriptionStatusCancelled
      \<and> subs s' = image_mset (\<lambda>x. if sub_ID x = i then merge_subscription n x else x) (subs s))"
proof -
  have t: "table_ok (db_subs db) subs merge_subscription" using assms(1) by (simp add: db_ok_def)
  show ?thesis
  proof (cases "GetSubscription db i s")
    case (Inr sub)
    then have g: "sub \<in># subs s \<and> sub_ID sub = i"
      using table_first[OF t, of "\<lambda>r. sub_ID r = i" "\<lambda>_. 0" s sub]
      by (auto simp: GetSubscription_def first_row_def split: sum.splits option.splits)
    define m where "m = (case meta_make (sub_Metadata sub) of Some m \<Rightarrow> m(''cancellation_reason'' \<mapsto> AnyString reason) | None \<Rightarrow> Map.empty)"
    define n where "n = sub\<lparr>sub_Status := SubscriptionStatusCancelled, sub_EndedAt := Some (now 0), sub_UpdatedAt := now 0, sub_Metadata := Some m\<rparr>"
    define n' where "n' = n\<lparr>sub_UpdatedAt := now 1\<rparr>"
    have n': "sub_ID n' = i" "sub_ProfileID n' = sub_ProfileID sub" "sub_Status n' = SubscriptionStatusCancelled"
      using g by (simp_all add: n'_def n_def)
    show ?thesis
    proof (cases "sub_Status sub = SubscriptionStatusActive")
      case True
      obtain res s1 where u: "tb_updates (db_subs db) (\<lambda>r. sub_ID r = i) n' s = (res, s1)"
        by (cases "tb_updates (db_subs db) (\<lambda>r. sub_ID r = i) n' s") blast
      have "s' = s1"
        using assms(2) True Inr u g affected_cases[of i "(res, s1)"]
        by (auto simp: CancelSubscription_def Let_def UpdateSubscription_def n'_def n_def m_def split: prod.splits)
      then show ?thesis using table_updates[OF t u] g n' by (cases res) auto
    next
      case False
      then show ?thesis using assms(2) Inr by (simp add: CancelSubscription_def)
    qed
  qed (use assms(2) in \<open>auto simp: CancelSubscription_def\<close>)
qed

lemma merge_status: "sub_Status n = SubscriptionStatusCancelled \<Longrightarrow> sub_Status (merge_subscription n x) = SubscriptionStatusCancelled"
  "sub_ProfileID n \<noteq> '''' \<Longrightarrow> sub_ProfileID (merge_subscription n x) = sub_ProfileID n"
  by (simp_all add: merge_subscription_def set_if_def)

lemma rewrite_rows:
  assumes "db_ok db subs plans usage"
  shows "subs (snd (svc_UpdateSubscription db now n s)) = subs s
    \<or> subs (snd (svc_UpdateSubscription db now n s))
        = image_mset (\<lambda>x. if sub_ID x = sub_ID n then merge_subscription (n\<lparr>sub_UpdatedAt := now\<rparr>) x else x) (subs s)"
proof -
  let ?t = "tb_updates (db_subs db) (\<lambda>r. sub_ID r = sub_ID n) (n\<lparr>sub_UpdatedAt := now\<rparr>) s"
  have t: "table_ok (db_subs db) subs merge_subscription" using assms by (simp add: db_ok_def)
  obtain res s1 where u: "?t = (res, s1)" by (cases ?t) blast
  have "snd (UpdateSubscription db now n s) = s1"
    using affected_cases[of "sub_ID n" ?t] u unfolding UpdateSubscription_def by (metis prod.collapse snd_conv)
  then have "snd (svc_UpdateSubscription db now n s) = s1"
    by (auto simp: svc_UpdateSubscription_def split: prod.split option.split)
  then show ?thesis using table_updates[OF t u] by (cases res) auto
qed

text \<open>\<open>svc_UpdateSubscription\<close> writes whatever it is given. An update is harmless when it neither makes
  a stored subscription active that was not nor gives an active one to another profile.\<close>

definition harmless_update :: "RatePlanSubscription multiset \<Rightarrow> RatePlanSubscription \<Rightarrow> bool" where
  "harmless_update M n \<longleftrightarrow> (\<forall>x \<in># M. sub_ID x = sub_ID n \<and> sub_Status (merge_subscription n x) = SubscriptionStatusActive
     \<longrightarrow> sub_Status x = SubscriptionStatusActive \<and> sub_ProfileID (merge_subscription n x) = sub_ProfileID x)"

lemma harmless_keeps:
  assumes "\<And>x. x \<in># M \<Longrightarrow> active_of p (f x) \<Longrightarrow> active_of p x"
  shows "size (filter_mset (active_of p) (image_mset f M)) \<le> size (filter_mset (active_of p) M)"
  using assms
proof (induction M)
  case (add x M)
  then have "size (filter_mset (active_of p) (image_mset f M)) \<le> size (filter_mset (active_of p) M)" by simp
  then show ?case using add.prems[of x] by auto
qed simp

text \<open>The operations of the service one after another, in any order, from a state without
  subscriptions. Of the rewriting of subscriptions as a whole (\<open>UpdateSubscription\<close>), which checks
  nothing, the harmless calls are among them; what another call does is
  \<open>update_activates_second\<close> below.\<close>

inductive service_step :: "'s plan_db \<Rightarrow> duration \<Rightarrow> ('s \<Rightarrow> RatePlanSubscription multiset) \<Rightarrow> 's \<Rightarrow> 's \<Rightarrow> bool" for db off subs where
  Subscribe: "service_step db off subs s (snd (SubscribeToPlan db off uuid now req s))"
| Cancel: "service_step db off subs s (snd (CancelSubscription db now i reason s))"
| Rewrite: "harmless_update (subs s) n \<Longrightarrow> service_step db off subs s (snd (svc_UpdateSubscription db t n s))"
| Record: "service_step db off subs s (snd (RecordUsage db off uuid t ureq s))"
| Create: "service_step db off subs s (snd (svc_CreateRatePlan db uuid t plan s))"
| Update: "service_step db off subs s (snd (svc_UpdateRatePlan db t plan s))"
| Delete: "service_step db off subs s (snd (svc_DeleteRatePlan db i s))"

inductive service_reachable :: "'s plan_db \<Rightarrow> duration \<Rightarrow> ('s \<Rightarrow> RatePlanSubscription multiset) \<Rightarrow> 's \<Rightarrow> 's \<Rightarrow> bool" for db off subs s0 where
  Start: "service_reachable db off subs s0 s0"
| Step: "service_reachable db off subs s0 s \<Longrightarrow> service_step db off subs s s' \<Longrightarrow> service_reachable db off subs s0 s'"

lemma frame_affected: "table_frame t rows \<Longrightarrow> rows (snd (affected i (tb_updates t P r s))) = rows s"
  "table_frame t rows \<Longrightarrow> rows (snd (affected i (tb_delete t P s))) = rows s"
  "table_frame t rows \<Longrightarrow> rows (snd (db_result (tb_create t r s))) = rows s"
  by (metis affected_cases db_result_cases frame_updates frame_delete frame_create prod.collapse)+

lemma usage_op_frame:
  assumes "table_frame (db_usage db) rows"
  shows "rows (snd (CreateUsage db t u s)) = rows s" "rows (snd (UpdateUsage db t u s)) = rows s"
  using frame_affected[OF assms] by (simp_all add: CreateUsage_def UpdateUsage_def Let_def split_beta)

lemma plan_op_frame:
  assumes "table_frame (db_plans db) rows"
  shows "rows (snd (store_CreateRatePlan db t p s)) = rows s" "rows (snd (store_UpdateRatePlan db t p s)) = rows s"
    "rows (snd (store_DeleteRatePlan db i s)) = rows s"
  using frame_affected[OF assms]
  by (simp_all add: store_CreateRatePlan_def store_UpdateRatePlan_def store_DeleteRatePlan_def Let_def split_beta)

lemma RecordUsage_frame:
  assumes "table_frame (db_usage db) rows"
  shows "rows (snd (RecordUsage db off uuid t ureq s)) = rows s"
proof -
  have c: "CreateUsage db t u s = ((e, u'), s') \<Longrightarrow> rows s' = rows s" for u e u' s'
    using usage_op_frame(1)[OF assms, of t u s] by simp
  have d: "UpdateUsage db t u s = ((e, u'), s') \<Longrightarrow> rows s' = rows s" for u e u' s'
    using usage_op_frame(2)[OF assms, of t u s] by simp
  show ?thesis by (auto simp: RecordUsage_def c d split: sum.split option.split prod.split)
qed

lemma plan_service_frame:
  assumes "table_frame (db_plans db) rows"
  shows "rows (snd (svc_CreateRatePlan db uuid t plan s)) = rows s" "rows (snd (svc_UpdateRatePlan db t plan s)) = rows s"
    "rows (snd (svc_DeleteRatePlan db i s)) = rows s"
proof -
  note f = plan_op_frame[OF assms]
  have c: "store_CreateRatePlan db t p s = ((e, p'), s') \<Longrightarrow> rows s' = rows s" for p e p' s' using f(1)[of t p s] by simp
  have u: "store_UpdateRatePlan db t p s = (e, s') \<Longrightarrow> rows s' = rows s" for p e s' using f(2)[of t p s] by simp
  have d: "store_DeleteRatePlan db i s = (e, s') \<Longrightarrow> rows s' = rows s" for e s' using f(3)[of i s] by simp
  show "rows (snd (svc_CreateRatePlan db uuid t plan s)) = rows s"
    by (auto simp: svc_CreateRatePlan_def Let_def c split: option.split prod.split)
  show "rows (snd (svc_UpdateRatePlan db t plan s)) = rows s"
    by (auto simp: svc_UpdateRatePlan_def u split: option.split prod.split sum.split)
  show "rows (snd (svc_DeleteRatePlan db i s)) = rows s"
    by (auto simp: svc_DeleteRatePlan_def d split: option.split prod.split sum.split)
qed

lemma ball_image_mset: "(\<And>x. x \<in># M \<Longrightarrow> P (f x)) \<Longrightarrow> \<forall>y \<in># image_mset f M. P y"
  by auto

lemma update_invariant:
  assumes "db_ok db subs plans usage" "harmless_update (subs s) n" "one_active (subs s)" "named (subs s)"
  shows "one_active (subs (snd (svc_UpdateSubscription db t n s))) \<and> named (subs (snd (svc_UpdateSubscription db t n s)))"
proof -
  let ?s = "snd (svc_UpdateSubscription db t n s)"
  let ?f = "\<lambda>x. if sub_ID x = sub_ID n then merge_subscription (n\<lparr>sub_UpdatedAt := t\<rparr>) x else x"
  have f: "sub_Status (?f x) = (if sub_ID x = sub_ID n then sub_Status (merge_subscription n x) else sub_Status x)"
    "sub_ProfileID (?f x) = (if sub_ID x = sub_ID n then sub_ProfileID (merge_subscription n x) else sub_ProfileID x)" for x
    by (simp_all add: merge_subscription_def)
  from rewrite_rows[OF assms(1), of t n s] consider (same) "subs ?s = subs s" | (merged) "subs ?s = image_mset ?f (subs s)" by blast
  then show ?thesis
  proof cases
    case merged
    have "active_of p x" if "x \<in># subs s" "active_of p (?f x)" for p x
    proof (cases "sub_ID x = sub_ID n")
      case True
      then show ?thesis using assms(2) that unfolding f harmless_update_def by auto
    qed (use that in simp)
    then have "size (filter_mset (active_of p) (subs ?s)) \<le> size (filter_mset (active_of p) (subs s))" for p
      unfolding merged by (intro harmless_keeps) blast
    then have "one_active (subs ?s)" using assms(3) unfolding one_active_def by (meson order_trans)
    moreover have "sub_ProfileID (?f x) \<noteq> ''''" if "x \<in># subs s" for x
      using assms(4) that unfolding f named_def by (simp add: merge_subscription_def set_if_def)
    then have "\<forall>y \<in># image_mset ?f (subs s). sub_ProfileID y \<noteq> []" by (rule ball_image_mset)
    then have "named (subs ?s)" unfolding named_def merged .
    ultimately show ?thesis by blast
  qed (use assms in simp)
qed

lemma service_step_invariant:
  assumes "db_ok db subs plans usage" "service_step db off subs s s'" "one_active (subs s)" "named (subs s)"
  shows "one_active (subs s') \<and> named (subs s')"
  using assms(2)
proof cases
  case (Subscribe uuid now req)
  then obtain res where r: "SubscribeToPlan db off uuid now req s = (res, s')" by (cases "SubscribeToPlan db off uuid now req s") auto
  from subscribe_rows[OF assms(1) r] consider
    (new) x where "active_of (sr_ProfileID req) x" "subs s' = add_mset x (subs s)"
      "filter_mset (active_of (sr_ProfileID req)) (subs s) = {#}" "sr_ProfileID req \<noteq> ''''"
    | (same) "subs s' = subs s" by blast
  then show ?thesis
  proof cases
    case new
    have "size (filter_mset (active_of p) (subs s')) \<le> 1" for p
    proof (cases "p = sr_ProfileID req")
      case True
      then have "filter_mset (active_of p) (subs s) = {#}" using new(3) by simp
      then have "size (filter_mset (active_of p) (subs s)) = 0" by (simp only: size_empty)
      then show ?thesis using new(1,2) True by simp
    next
      case False
      then show ?thesis using new(1,2) assms(3) by (auto simp: one_active_def)
    qed
    moreover have "named (subs s')" using new assms(4) by (auto simp: named_def)
    ultimately show ?thesis by (simp add: one_active_def)
  qed (use assms in simp)
next
  case (Cancel now i reason)
  then obtain err where r: "CancelSubscription db now i reason s = (err, s')" by (cases "CancelSubscription db now i reason s") auto
  from cancel_rows[OF assms(1) r] consider (same) "subs s' = subs s"
    | (cancelled) x0 n where "x0 \<in># subs s" "sub_ProfileID n = sub_ProfileID x0" "sub_Status n = SubscriptionStatusCancelled"
      "subs s' = image_mset (\<lambda>x. if sub_ID x = i then merge_subscription n x else x) (subs s)" by blast
  then show ?thesis
  proof cases
    case cancelled
    have "size (filter_mset (active_of p) (subs s')) \<le> size (filter_mset (active_of p) (subs s))" for p
      unfolding cancelled(4) by (rule image_deactivate) (simp add: merge_status(1)[OF cancelled(3)])
    then have "one_active (subs s')" using assms(3) unfolding one_active_def by (meson order_trans)
    moreover have "sub_ProfileID n \<noteq> ''''" using cancelled(1,2) assms(4) by (auto simp: named_def)
    then have "named (subs s')" using assms(4) by (auto simp: named_def cancelled(4) merge_status(2))
    ultimately show ?thesis by blast
  qed (use assms in simp)
next
  case (Rewrite n t)
  show ?thesis unfolding Rewrite(1) by (rule update_invariant[OF assms(1) Rewrite(2) assms(3,4)])
qed (use assms in \<open>auto simp: db_ok_def RecordUsage_frame plan_service_frame\<close>)

lemma service_invariant:
  assumes "db_ok db subs plans usage" "subs s0 = {#}" "service_reachable db off subs s0 s"
  shows "one_active (subs s) \<and> named (subs s)"
  using assms(3)
proof induction
  case Start
  then show ?case by (simp add: assms(2) one_active_def named_def)
next
  case (Step s s')
  then show ?case using service_step_invariant[OF assms(1)] by blast
qed

text \<open>C1. A profile has at most one active subscription: after any sequence of completed operations, from no
  subscriptions, whatever the database refuses, as long as no call of \<open>UpdateSubscription\<close>, which
  checks nothing, makes an inactive subscription active or gives an active one to another
  profile. A subscription succeeds only for a profile without one, and is then its only active
  subscription.\<close>

theorem one_active_subscription:
  assumes "db_ok db subs plans usage" and "subs s0 = {#}" and "service_reachable db off subs s0 s"
  shows "size (filter_mset (active_of p) (subs s)) \<le> 1
    \<and> (\<forall>uuid now req x s'. SubscribeToPlan db off uuid now req s = (Inr x, s') \<longrightarrow>
         size (filter_mset (active_of (sr_ProfileID req)) (subs s)) = 0
         \<and> filter_mset (active_of (sr_ProfileID req)) (subs s') = {#x#})"
proof (intro conjI allI impI)
  show "size (filter_mset (active_of p) (subs s)) \<le> 1"
    using service_invariant[OF assms] by (simp add: one_active_def)
  fix uuid now req x s'
  assume "SubscribeToPlan db off uuid now req s = (Inr x, s')"
  from subscribe_rows[OF assms(1) this] have
    x: "active_of (sr_ProfileID req) x" "subs s' = add_mset x (subs s)" "filter_mset (active_of (sr_ProfileID req)) (subs s) = {#}"
    by auto
  from x(3) show "size (filter_mset (active_of (sr_ProfileID req)) (subs s)) = 0" by (simp only: size_empty)
  show "filter_mset (active_of (sr_ProfileID req)) (subs s') = {#x#}" using x by simp
qed

definition demo_row :: plan_row where
  "demo_row = \<lparr>pw_ID = ''p'', pw_Name = ''Basic'', pw_Description = '''', pw_CarrierID = ''c'', pw_Region = ''KE'',
     pw_PlanType = PlanTypePostpaid, pw_BasePrice = f64_lit 10, pw_Currency = ''KES'', pw_BillingCycle = BillingCycleMonthly,
     pw_DataAllowance = None, pw_OverageRates = None, pw_Discounts = None, pw_ValidFrom = 0, pw_ValidTo = None, pw_IsActive = True,
     pw_Status = PlanStatusActive, pw_Metadata = None, pw_CreatedAt = 0, pw_UpdatedAt = 0\<rparr>"

definition demo_memory :: memory where
  "demo_memory = \<lparr>mem_subs = [], mem_plans = [demo_row], mem_usage = []\<rparr>"

definition demo_request :: SubscribeRequest where
  "demo_request = \<lparr>sr_ProfileID = ''u'', sr_RatePlanID = ''p'', sr_AutoRenew = True, sr_AppliedDiscounts = [], sr_Metadata = None\<rparr>"

lemmas demo_service = SubscribeToPlan_def subscribe_check_def validateSubscribeRequest_def store_GetRatePlan_def first_row_def
  memory_db_def list_table_def demo_memory_def demo_row_def demo_request_def GetActiveSubscription_def optional_row_def

lemma demo_check: "subscribe_check memory_db demo_request demo_memory = Inr demo_row"
  by (simp add: demo_service)

lemma memory_subscribe:
  "subscribe_create memory_db off uuid now req plan s =
    (Inr ((new_subscription off uuid now plan req)\<lparr>sub_CreatedAt := now 3, sub_UpdatedAt := now 3\<rparr>),
     s\<lparr>mem_subs := (new_subscription off uuid now plan req)\<lparr>sub_CreatedAt := now 3, sub_UpdatedAt := now 3\<rparr> # mem_subs s\<rparr>)"
  by (simp add: subscribe_create_def CreateSubscription_def memory_db_def list_table_def Let_def)

theorem one_active_subscription_witness:
  "size (filter_mset (active_of ''u'') (mset (mem_subs (snd (SubscribeToPlan memory_db 0 ''s'' (\<lambda>_. 5) demo_request demo_memory))))) \<le> 1
   \<and> mem_subs (snd (SubscribeToPlan memory_db 0 ''s'' (\<lambda>_. 5) demo_request demo_memory)) \<noteq> []"
proof
  have "service_reachable memory_db 0 (\<lambda>s. mset (mem_subs s)) demo_memory (snd (SubscribeToPlan memory_db 0 ''s'' (\<lambda>_. 5) demo_request demo_memory))"
    by (rule service_reachable.Step[OF service_reachable.Start service_step.Subscribe])
  from one_active_subscription[OF memory_db_ok _ this, THEN conjunct1, of "''u''"]
  show "size (filter_mset (active_of ''u'') (mset (mem_subs (snd (SubscribeToPlan memory_db 0 ''s'' (\<lambda>_. 5) demo_request demo_memory))))) \<le> 1"
    by (simp add: demo_memory_def)
  show "mem_subs (snd (SubscribeToPlan memory_db 0 ''s'' (\<lambda>_. 5) demo_request demo_memory)) \<noteq> []"
    by (simp add: SubscribeToPlan_def demo_check memory_subscribe)
qed

text \<open>Updating a subscription of a profile that has an active one gives it a second: the update asks
  neither for the stored status nor for another active subscription.\<close>

theorem update_activates_second:
  assumes "db_ok db subs plans usage" and "subs s = {#x, y#}" and "active_of p y"
    and "sub_ProfileID x = p" and "sub_ID y \<noteq> sub_ID x" and "sub_Status x \<noteq> SubscriptionStatusActive"
    and "svc_UpdateSubscription db now (x\<lparr>sub_Status := SubscriptionStatusActive\<rparr>) s = (Inr r, s')"
  shows "size (filter_mset (active_of p) (subs s)) = 1 \<and> size (filter_mset (active_of p) (subs s')) = 2"
proof -
  have t: "table_ok (db_subs db) subs merge_subscription" using assms(1) by (simp add: db_ok_def)
  let ?n = "x\<lparr>sub_Status := SubscriptionStatusActive, sub_UpdatedAt := now\<rparr>"
  have n: "x\<lparr>sub_Status := SubscriptionStatusActive\<rparr>\<lparr>sub_UpdatedAt := now\<rparr> = ?n" by simp
  obtain res s1 where u: "tb_updates (db_subs db) (\<lambda>r. sub_ID r = sub_ID x) ?n s = (res, s1)"
    by (cases "tb_updates (db_subs db) (\<lambda>r. sub_ID r = sub_ID x) ?n s") blast
  have "s' = s1 \<and> (\<exists>k. res = Inr k)"
    using assms(7) u by (cases res) (auto simp: svc_UpdateSubscription_def UpdateSubscription_def split: prod.splits option.splits if_splits)
  then show ?thesis using table_updates[OF t u] assms(2-6) by (auto simp: merge_subscription_def set_if_def)
qed

text \<open>Two requests of one profile that both check before either creates its row leave the profile
  with two active subscriptions.\<close>

theorem subscribe_race:
  assumes "db_ok db subs plans usage" and "subscribe_check db req s = Inr plan"
    and "subscribe_create db off u1 now1 req plan s = (Inr x1, s1)" and "subscribe_create db off u2 now2 req plan s1 = (Inr x2, s2)"
  shows "size (filter_mset (active_of (sr_ProfileID req)) (subs s2)) = 2"
proof -
  have "subs s1 = add_mset x1 (subs s)" "active_of (sr_ProfileID req) x1"
    using subscribe_create_rows[OF assms(1,3)] by auto
  moreover have "subs s2 = add_mset x2 (subs s1)" "active_of (sr_ProfileID req) x2"
    using subscribe_create_rows[OF assms(1,4)] by auto
  moreover have "filter_mset (active_of (sr_ProfileID req)) (subs s) = {#}"
    using subscribe_check_free[OF assms(1,2)] by blast
  then have "size (filter_mset (active_of (sr_ProfileID req)) (subs s)) = 0" by (simp only: size_empty)
  ultimately show ?thesis by simp
qed

theorem subscribe_race_witness:
  "size (filter_mset (active_of ''u'') (mset (mem_subs (snd (subscribe_create memory_db 0 ''b'' (\<lambda>_. 6) demo_request demo_row
     (snd (subscribe_create memory_db 0 ''a'' (\<lambda>_. 5) demo_request demo_row demo_memory))))))) = 2"
  using subscribe_race[OF memory_db_ok demo_check memory_subscribe[of 0 "''a''" "\<lambda>_. 5"] memory_subscribe[of 0 "''b''" "\<lambda>_. 6"]]
  by (simp add: memory_subscribe demo_request_def)

text \<open>The check for active subscriptions before a plan is deleted never finds any: it lists the
  subscriptions of the empty profile, and every subscription has a profile.\<close>

theorem delete_ignores_subscriptions:
  assumes "db_ok db subs plans usage" and "subs s0 = {#}" and "service_reachable db off subs s0 s"
  shows "fst (svc_DeleteRatePlan db i s) \<noteq> Some HasActiveSubscriptions"
proof -
  have n: "named (subs s)" using service_invariant[OF assms] by blast
  have t: "table_ok (db_subs db) subs merge_subscription" using assms(1) by (simp add: db_ok_def)
  have "rs = []" if "ListSubscriptions db '''' (active_of_plan i) s = Inr rs" for rs
  proof -
    have "tb_find (db_subs db) (subscription_matches '''' (active_of_plan i)) sub_StartedAt (positive_opt (sf_Limit (active_of_plan i)))
        (if 0 < sf_Limit (active_of_plan i) then positive_opt (sf_Offset (active_of_plan i)) else None) s = Inr rs" (is "?f = _")
      using that unfolding ListSubscriptions_def by (cases ?f) simp_all
    from table_find[OF t this] have "r \<in> set rs \<Longrightarrow> r \<in># subs s \<and> sub_ProfileID r = ''''" for r
      by (auto simp: subscription_matches_def)
    then show ?thesis using n by (cases rs) (auto simp: named_def)
  qed
  then show ?thesis by (auto simp: svc_DeleteRatePlan_def split: sum.splits prod.splits option.splits)
qed

theorem delete_ignores_subscriptions_witness:
  "let s = snd (SubscribeToPlan memory_db 0 ''s'' (\<lambda>_. 5) demo_request demo_memory)
   in length (filter (\<lambda>x. sub_RatePlanID x = ''p'' \<and> sub_Status x = SubscriptionStatusActive) (mem_subs s)) = 1
     \<and> fst (svc_DeleteRatePlan memory_db ''p'' s) \<noteq> Some HasActiveSubscriptions"
proof -
  have r: "service_reachable memory_db 0 (\<lambda>s. mset (mem_subs s)) demo_memory (snd (SubscribeToPlan memory_db 0 ''s'' (\<lambda>_. 5) demo_request demo_memory))"
    by (rule service_reachable.Step[OF service_reachable.Start service_step.Subscribe])
  have "fst (svc_DeleteRatePlan memory_db ''p'' (snd (SubscribeToPlan memory_db 0 ''s'' (\<lambda>_. 5) demo_request demo_memory)))
      \<noteq> Some HasActiveSubscriptions"
    by (rule delete_ignores_subscriptions[OF memory_db_ok _ r]) (simp add: demo_memory_def)
  then show ?thesis
    unfolding SubscribeToPlan_def demo_check sum.case memory_subscribe
    by (simp add: new_subscription_def demo_memory_def demo_request_def demo_row_def)
qed

text \<open>No plan can be created or changed through the adapter the handlers use: it does not pass the
  currency on, which the service requires, so every request fails in validation and nothing
  reaches the database.\<close>

theorem adapter_rejects_every_plan:
  "\<exists>e. adapter_CreateRatePlan db uuid now plan s = (Inl (InvalidPlan e), s)
     \<and> adapter_UpdateRatePlan db now plan s = (Inl (InvalidPlan e), s)
     \<and> (plan_wf plan \<longrightarrow> e = CurrencyRequired)"
proof -
  have v: "validateRatePlan (if pw_ID (toRepoPlan plan) = '''' then (toRepoPlan plan)\<lparr>pw_ID := uuid\<rparr> else toRepoPlan plan)
      = validateRatePlan (toRepoPlan plan)" by (simp add: validateRatePlan_def)
  obtain e where e: "validateRatePlan (toRepoPlan plan) = Some e"
    by (cases "validateRatePlan (toRepoPlan plan)") (auto simp: validateRatePlan_def toRepoPlan_def split: if_splits)
  have "plan_wf plan \<Longrightarrow> e = CurrencyRequired"
    using e by (auto simp: validateRatePlan_def toRepoPlan_def plan_wf_def split: if_splits)
  then show ?thesis using e v
    by (simp add: adapter_CreateRatePlan_def adapter_UpdateRatePlan_def svc_CreateRatePlan_def svc_UpdateRatePlan_def Let_def)
qed

theorem adapter_rejects_every_plan_witness:
  "fst (adapter_CreateRatePlan memory_db ''new'' 3 demo_plan demo_memory) = Inl (InvalidPlan CurrencyRequired)"
  using adapter_rejects_every_plan[of memory_db "''new''" 3 demo_plan demo_memory] demo_plan_amounts(3) by auto

text \<open>The adapter dereferences the missing subscription of a profile without one.\<close>

lemma adapter_panics_without_subscription:
  "GetActiveSubscription db p s = Inr None \<Longrightarrow> adapter_GetActiveSubscription db p s = Panics"
  by (simp add: adapter_GetActiveSubscription_def)

section \<open>Usage records and costs\<close>

text \<open>Usage is added to the latest record of the profile whatever the time and whatever the current
  subscription: the record of a finished cycle or of an earlier plan goes on counting.\<close>

lemma usage_never_rolls_over:
  assumes "GetActiveSubscription db (ru_ProfileID req) s = Inr (Some sub)"
    and "GetCurrentUsage db (ru_ProfileID req) s = Inr (Some u)" and "RecordUsage db off uuid now req s = (Inr u', s')"
  shows "use_ID u' = use_ID u" "use_CycleEnd u' = use_CycleEnd u" "use_RatePlanID u' = use_RatePlanID u"
    "use_DataUsed u' = i64 (use_DataUsed u + ru_DataUsed req)"
  using assms by (auto simp: RecordUsage_def UpdateUsage_def add_usage_def Let_def split: prod.splits option.splits)

text \<open>A plan and its row in the repository with the same price, data allowance, rates and discounts.\<close>

definition to_row_discount :: "Discount \<Rightarrow> row_discount" where
  "to_row_discount d = \<lparr>rd_ID = d_ID d, rd_Type = d_Type d, rd_Value = d_Value d, rd_IsActive = d_IsActive d\<rparr>"

lemma to_row_discount_simps:
  "rd_ID (to_row_discount d) = d_ID d" "rd_Type (to_row_discount d) = d_Type d"
  "rd_Value (to_row_discount d) = d_Value d" "rd_IsActive (to_row_discount d) = d_IsActive d"
  by (simp_all add: to_row_discount_def)

definition same_tariff :: "RatePlan \<Rightarrow> plan_row \<Rightarrow> bool" where
  "same_tariff plan row \<longleftrightarrow> pw_BasePrice row = rp_BasePrice plan
     \<and> pw_DataAllowance row = map_option (\<lambda>a. \<lparr>ral_Amount = da_Amount a, ral_Unit = da_Unit a, ral_Unlimited = da_Unlimited a\<rparr>) (rp_DataAllowance plan)
     \<and> pw_OverageRates row = map_option (\<lambda>r. \<lparr>rr_DataRate = or_DataRate r, rr_VoiceRate = or_VoiceRate r, rr_SMSRate = or_SMSRate r\<rparr>) (rp_OverageRates plan)
     \<and> pw_Discounts row = map_option (map (\<lambda>d. Some (to_row_discount d))) (rp_Discounts plan)"

lemma row_discounts_fold:
  "row_discounts b i (map (\<lambda>d. Some (to_row_discount d)) ds) acc = Returns (foldl (add_discount b i) acc ds)"
  by (induction ds arbitrary: acc) (simp_all add: to_row_discount_simps add_discount_def cong: DiscountType.case_cong)

lemma requested_discounts_fold:
  "requested_discounts b ids (map (\<lambda>d. Some (to_row_discount d)) ds) acc
     = Returns (foldl (\<lambda>acc i. foldl (add_discount b i) acc ds) acc ids)"
  by (induction ids arbitrary: acc) (simp_all add: row_discounts_fold)

lemma data_overage_agrees:
  assumes "same_tariff plan row" "plan_amounts plan" "allowances_nonneg plan" "used \<le> max_i64"
  shows "data_overage_cost row used = calculateDataOverage plan used"
proof (cases "rp_DataAllowance plan")
  case (Some a)
  then have mb: "0 \<le> allowance_mb a" using assms(3) by (auto simp: allowances_nonneg_def allowance_mb_def)
  have am: "amount (f64_mul (f64_of_int (i64 (used - allowance_mb a))) (or_DataRate r))"
    if "rp_OverageRates plan = Some r" "allowance_mb a < used" for r
    using overage_amount[of "or_DataRate r" "allowance_mb a" used] that mb assms(2,4) by (simp add: overage_def plan_amounts_def)
  have row: "pw_DataAllowance row = Some \<lparr>ral_Amount = da_Amount a, ral_Unit = da_Unit a, ral_Unlimited = da_Unlimited a\<rparr>"
    "pw_OverageRates row = map_option (\<lambda>r. \<lparr>rr_DataRate = or_DataRate r, rr_VoiceRate = or_VoiceRate r, rr_SMSRate = or_SMSRate r\<rparr>) (rp_OverageRates plan)"
    using Some assms(1) by (simp_all add: same_tariff_def)
  have "data_overage_cost row used = (if 0 < used \<and> \<not> da_Unlimited a \<and> allowance_mb a < used then (case rp_OverageRates plan of
      Some r \<Rightarrow> f64_add (f64_lit 0) (f64_mul (f64_of_int (i64 (used - allowance_mb a))) (or_DataRate r)) | None \<Rightarrow> f64_lit 0) else f64_lit 0)"
    by (cases "rp_OverageRates plan") (simp_all add: data_overage_cost_def row allowance_mb_def Let_def)
  then show ?thesis using mb am Some
    by (cases "rp_OverageRates plan") (simp_all add: calculateDataOverage_def overage_def)
qed (use assms(1) in \<open>simp add: data_overage_cost_def calculateDataOverage_def same_tariff_def\<close>)

text \<open>C12. The rate plan service and the pricing engine, two implementations of the cost of a plan, agree
  to the last bit on the total and the discounts whenever there is no voice or SMS overage.\<close>

theorem cost_services_agree:
  assumes "store_GetRatePlan db (cc_RatePlanID req) s = Inr row" and "getRatePlan (cc_RatePlanID req) = Inr plan"
    and "same_tariff plan row" and "plan_amounts plan" and "allowances_nonneg plan" and "cc_DataUsed req \<le> max_i64"
    and "calculateVoiceOverage plan (cc_VoiceUsed req) = f64_lit 0" and "calculateSMSOverage plan (cc_SMSUsed req) = f64_lit 0"
  shows "\<exists>cb rcc. CalculateSubscriptionCost getRatePlan t req = Inr cb \<and> CalculateCost db t' req s = Returns (Inr rcc)
    \<and> rcc_TotalCost rcc = cb_TotalCost cb \<and> rcc_DiscountCost rcc = cb_DiscountTotal cb"
proof -
  let ?b = "rp_BasePrice plan"
  let ?o = "calculateDiscounts plan (cc_AppliedDiscounts req) ?b"
  let ?d = "calculateDataOverage plan (cc_DataUsed req)"
  have disc: "(case pw_Discounts row of None \<Rightarrow> Returns (f64_lit 0)
      | Some ds \<Rightarrow> requested_discounts ?b (cc_AppliedDiscounts req) ds (f64_lit 0)) = Returns ?o"
    using assms(3) by (auto simp: same_tariff_def calculateDiscounts_def requested_discounts_fold split: option.split)
  have "amount ?b" "amount ?d" using assms(4) overages_amount(1)[OF assms(4,5,6)] by (auto simp: plan_amounts_def amount64_def)
  then have "f64_add (f64_add (f64_add ?b ?d) (Fin False 0)) (Fin False 0) = f64_add ?b ?d" by simp
  moreover have "pw_BasePrice row = ?b" using assms(3) by (simp add: same_tariff_def)
  ultimately show ?thesis
    using assms(1,2,7,8) disc data_overage_agrees[OF assms(3-6)]
    by (simp add: CalculateSubscriptionCost_def cost_breakdown_def CalculateCost_def Let_def)
qed

theorem cost_services_agree_witness:
  "\<exists>cb rcc. CalculateSubscriptionCost (\<lambda>_. Inr (demo_plan\<lparr>rp_Discounts := None\<rparr>)) 1 (demo_usage 50 []) = Inr cb
    \<and> CalculateCost memory_db 2 (demo_usage 50 []) (demo_memory\<lparr>mem_plans := [demo_row\<lparr>pw_OverageRates := Some
         \<lparr>rr_DataRate = f64_lit 0, rr_VoiceRate = f64_lit 2, rr_SMSRate = f64_lit 0\<rparr>\<rparr>]\<rparr>) = Returns (Inr rcc)
    \<and> rcc_TotalCost rcc = cb_TotalCost cb \<and> rcc_DiscountCost rcc = cb_DiscountTotal cb"
  by (rule cost_services_agree[where plan = "demo_plan\<lparr>rp_Discounts := None\<rparr>" and row = "demo_row\<lparr>pw_OverageRates := Some
         \<lparr>rr_DataRate = f64_lit 0, rr_VoiceRate = f64_lit 2, rr_SMSRate = f64_lit 0\<rparr>\<rparr>"])
    (use demo_plan_amounts(1,2) in \<open>simp_all add: demo_service demo_usage_def same_tariff_def demo_plan_def plan_amounts_def
      allowances_nonneg_def calculateVoiceOverage_def calculateSMSOverage_def overage_def\<close>)

text \<open>The service does not charge for calls and messages at all.\<close>

lemma service_ignores_voice_and_sms:
  "CalculateCost db t (req\<lparr>cc_VoiceUsed := v, cc_SMSUsed := m\<rparr>) s = CalculateCost db t req s"
proof (cases "store_GetRatePlan db (cc_RatePlanID req) s")
  case (Inr row)
  then show ?thesis by (cases "pw_Discounts row") (simp_all add: CalculateCost_def Let_def)
qed (simp add: CalculateCost_def)

end
