(* ===== verification/Pricing_Rules.thy ===== *)
theory Pricing_Rules
  imports Rate_Plan "HOL-Library.Multiset"
begin

text \<open>
  Dynamic pricing (\<open>apps/carrier-connector/internal/pricing/types.go\<close> and
  \<open>internal/services\<close>: \<open>pricing_validator.go\<close>, \<open>pricing_rule_engine.go\<close>,
  \<open>pricing_service_crud.go\<close>, \<open>pricing_service.go\<close>, \<open>pricing_integration.go\<close>): the
  validation of rules, the conditions under which a rule applies, its effect on a price, and
  the price of a product under the active rules of a tenant. The repository is an argument.
  A \<open>time.Time\<close> whose hour and weekday are read carries the offset of its location.
\<close>

section \<open>Data\<close>

record zoned =
  z_instant :: time
  z_offset :: int

datatype RuleType = RuleTypePercentageDiscount | RuleTypeFixedDiscount | RuleTypeMultiplier | RuleTypeTieredPricing
  | RuleTypeDynamicPricing | RuleTypeConditionalPricing | RuleTypeOther string

record TimeRange =
  tr_Start :: time
  tr_End :: time
  tr_Days :: "string list"

record VolumeRange =
  vr_Min :: int
  vr_Max :: int

record UsagePattern =
  up_PeakHours :: "string list"
  up_OffPeakHours :: "string list"

record RuleConditions =
  rc_TimeRange :: "TimeRange option"
  rc_Geography :: "string list"
  rc_CustomerType :: "string list"
  rc_Volume :: "VolumeRange option"
  rc_UsagePattern :: "UsagePattern option"

datatype AdjustmentType = AdjustmentTypePercentage | AdjustmentTypeFixed | AdjustmentTypeMultiply | AdjustmentTypeOverride
  | AdjustmentTypeOther string

record RuleActions =
  ra_AdjustmentType :: AdjustmentType
  ra_Value :: f64
  ra_NewPrice :: "f64 option"
  ra_Limit :: "f64 option"

record PricingRule =
  pr_ID :: string
  pr_Name :: string
  pr_Description :: string
  pr_TenantID :: string
  pr_Type :: RuleType
  pr_Priority :: int
  pr_IsActive :: bool
  pr_Conditions :: RuleConditions
  pr_Actions :: RuleActions
  pr_Metadata :: metadata
  pr_CreatedAt :: time
  pr_UpdatedAt :: time

record PricingContext =
  pc_TenantID :: string
  pc_CustomerID :: string
  pc_ProductID :: string
  pc_BasePrice :: f64
  pc_Currency :: string
  pc_Quantity :: int
  pc_Location :: string
  pc_Time :: zoned
  pc_Metadata :: metadata

record AppliedRule =
  ar_RuleID :: string
  ar_RuleName :: string
  ar_Type :: RuleType
  ar_Adjustment :: f64

record PricingResult =
  pres_OriginalPrice :: f64
  pres_AdjustedPrice :: f64
  pres_FinalPrice :: f64
  pres_Currency :: string
  pres_Discount :: f64
  pres_AppliedRules :: "AppliedRule list"

record PricingFilter =
  pfl_TenantID :: string
  pfl_Type :: string
  pfl_IsActive :: "bool option"
  pfl_Priority :: "int option"
  pfl_Limit :: int
  pfl_Offset :: int

record DiscountStatistics =
  ds_TotalDiscounts :: int
  ds_AverageDiscount :: f64
  ds_LargestDiscount :: f64
  ds_SmallestDiscount :: f64
  ds_TotalDiscountValue :: f64

record PricingAnalytics =
  pa_TotalRules :: int
  pa_ActiveRules :: int
  pa_RulesByType :: "RuleType \<Rightarrow> int"
  pa_DiscountStats :: DiscountStatistics
  pa_GeneratedAt :: time

datatype pricing_error =
    RuleIDRequired | RuleNameRequired | TenantIDRequired | RuleTypeRequired | InvalidRuleType RuleType
  | ProductIDRequired | NegativePrice | PriceCurrencyRequired | QuantityNotPositive | TimeRequired
  | TimeRangeIncomplete | TimeRangeReversed | InvalidDay string | EmptyGeography | EmptyCustomerType
  | NegativeVolume | VolumeReversed | NoUsageHours | InvalidHourRange string
  | AdjustmentTypeRequired | InvalidAdjustmentType AdjustmentType | PercentageOutOfRange | NegativeFixedDiscount
  | MultiplierNotPositive | NoValidNewPrice | NegativeLimit
  | OverrideRequiresPrice | UnknownAdjustmentType AdjustmentType
  | InvalidConditions pricing_error | InvalidActions pricing_error | InvalidContext pricing_error | ValidationFailed pricing_error
  | RepositoryError string

section \<open>Validator\<close>

definition isDigit :: "char \<Rightarrow> bool" where
  "isDigit c \<longleftrightarrow> 48 \<le> (of_char c :: nat) \<and> (of_char c :: nat) \<le> 57"

definition isValidHourRange :: "string \<Rightarrow> bool" where
  "isValidHourRange hourRange =
     (if length hourRange < 3 then False
      else list_all (\<lambda>(i, c).
          \<not> (i = 0 \<and> \<not> isDigit c)
        \<and> \<not> (i = length hourRange - 1 \<and> \<not> isDigit c)
        \<and> \<not> (i = 1 \<and> c \<noteq> CHR ''-'')
        \<and> \<not> (1 < i \<and> i < length hourRange - 1 \<and> \<not> isDigit c)) (enumerate 0 hourRange))"

definition valid_days :: "string list" where
  "valid_days = [''monday'', ''tuesday'', ''wednesday'', ''thursday'', ''friday'', ''saturday'', ''sunday'']"

definition check_time_range :: "TimeRange \<Rightarrow> pricing_error option" where
  "check_time_range tr =
     (if tr_Start tr = zero_time \<or> tr_End tr = zero_time then Some TimeRangeIncomplete
      else if tr_End tr < tr_Start tr then Some TimeRangeReversed
      else first_error (map (\<lambda>day. if day \<in> set valid_days then None else Some (InvalidDay day)) (tr_Days tr)))"

definition check_volume :: "VolumeRange \<Rightarrow> pricing_error option" where
  "check_volume v =
     (if vr_Min v < 0 \<or> vr_Max v < 0 then Some NegativeVolume
      else if vr_Max v < vr_Min v then Some VolumeReversed else None)"

definition check_usage :: "UsagePattern \<Rightarrow> pricing_error option" where
  "check_usage u =
     (if up_PeakHours u = [] \<and> up_OffPeakHours u = [] then Some NoUsageHours
      else first_error (map (\<lambda>h. if isValidHourRange h then None else Some (InvalidHourRange h)) (up_PeakHours u @ up_OffPeakHours u)))"

definition validator_ValidateConditions :: "RuleConditions \<Rightarrow> pricing_error option" where
  "validator_ValidateConditions conditions = first_error [
     check_opt check_time_range (rc_TimeRange conditions),
     (if '''' \<in> set (rc_Geography conditions) then Some EmptyGeography else None),
     (if '''' \<in> set (rc_CustomerType conditions) then Some EmptyCustomerType else None),
     check_opt check_volume (rc_Volume conditions),
     check_opt check_usage (rc_UsagePattern conditions)]"

definition check_value :: "RuleActions \<Rightarrow> pricing_error option" where
  "check_value actions =
     (case ra_AdjustmentType actions of
        AdjustmentTypePercentage \<Rightarrow>
          if f64_lt (ra_Value actions) (f64_lit 0) \<or> f64_gt (ra_Value actions) (f64_lit 100) then Some PercentageOutOfRange else None
      | AdjustmentTypeFixed \<Rightarrow> if f64_lt (ra_Value actions) (f64_lit 0) then Some NegativeFixedDiscount else None
      | AdjustmentTypeMultiply \<Rightarrow> if f64_le (ra_Value actions) (f64_lit 0) then Some MultiplierNotPositive else None
      | AdjustmentTypeOverride \<Rightarrow>
          (case ra_NewPrice actions of
             None \<Rightarrow> Some NoValidNewPrice
           | Some p \<Rightarrow> if f64_lt p (f64_lit 0) then Some NoValidNewPrice else None)
      | AdjustmentTypeOther s \<Rightarrow> None)"

definition ValidateActions :: "RuleActions \<Rightarrow> pricing_error option" where
  "ValidateActions actions =
     (if ra_AdjustmentType actions = AdjustmentTypeOther '''' then Some AdjustmentTypeRequired
      else if ra_AdjustmentType actions \<notin> {AdjustmentTypePercentage, AdjustmentTypeFixed, AdjustmentTypeMultiply, AdjustmentTypeOverride}
      then Some (InvalidAdjustmentType (ra_AdjustmentType actions))
      else first_error [check_value actions,
             check_opt (\<lambda>l. if f64_lt l (f64_lit 0) then Some NegativeLimit else None) (ra_Limit actions)])"

definition ValidateRule :: "PricingRule \<Rightarrow> pricing_error option" where
  "ValidateRule rule =
     (if pr_ID rule = '''' then Some RuleIDRequired
      else if pr_Name rule = '''' then Some RuleNameRequired
      else if pr_TenantID rule = '''' then Some TenantIDRequired
      else if pr_Type rule = RuleTypeOther '''' then Some RuleTypeRequired
      else if pr_Type rule \<notin> {RuleTypePercentageDiscount, RuleTypeFixedDiscount, RuleTypeMultiplier, RuleTypeTieredPricing,
              RuleTypeDynamicPricing, RuleTypeConditionalPricing}
      then Some (InvalidRuleType (pr_Type rule))
      else case validator_ValidateConditions (pr_Conditions rule) of
          Some e \<Rightarrow> Some (InvalidConditions e)
        | None \<Rightarrow> (case ValidateActions (pr_Actions rule) of Some e \<Rightarrow> Some (InvalidActions e) | None \<Rightarrow> None))"

definition ValidateContext :: "PricingContext \<Rightarrow> pricing_error option" where
  "ValidateContext ctx =
     (if pc_TenantID ctx = '''' then Some TenantIDRequired
      else if pc_ProductID ctx = '''' then Some ProductIDRequired
      else if f64_lt (pc_BasePrice ctx) (f64_lit 0) then Some NegativePrice
      else if pc_Currency ctx = '''' then Some PriceCurrencyRequired
      else if pc_Quantity ctx \<le> 0 then Some QuantityNotPositive
      else if z_instant (pc_Time ctx) = zero_time then Some TimeRequired
      else None)"

section \<open>Rule engine\<close>

text \<open>\<open>Time.Weekday().String()\<close> and \<open>Time.Hour()\<close> in the location of the time.\<close>

definition local_seconds :: "zoned \<Rightarrow> int" where
  "local_seconds t = z_instant t div second + z_offset t"

definition Hour :: "zoned \<Rightarrow> int" where
  "Hour t = local_seconds t mod 86400 div 3600"

definition Weekday :: "zoned \<Rightarrow> string" where
  "Weekday t = [''Sunday'', ''Monday'', ''Tuesday'', ''Wednesday'', ''Thursday'', ''Friday'', ''Saturday'']
     ! nat ((local_seconds t div 86400 + 4) mod 7)"

definition isWithinTimeRange :: "TimeRange \<Rightarrow> zoned \<Rightarrow> bool" where
  "isWithinTimeRange tr t =
     (if z_instant t < tr_Start tr \<or> tr_End tr < z_instant t then False
      else if tr_Days tr \<noteq> [] then list_ex (\<lambda>d. to_lower d = to_lower (Weekday t)) (tr_Days tr)
      else True)"

definition isInGeography :: "string list \<Rightarrow> string \<Rightarrow> bool" where
  "isInGeography geography location = (if location = '''' then False else list_ex (\<lambda>g. equal_fold g location) geography)"

definition isInCustomerType :: "string list \<Rightarrow> string \<Rightarrow> bool" where
  "isInCustomerType customerTypes customerType = list_ex (\<lambda>ct. equal_fold ct customerType) customerTypes"

definition isWithinVolumeRange :: "VolumeRange \<Rightarrow> int \<Rightarrow> bool" where
  "isWithinVolumeRange v quantity \<longleftrightarrow> vr_Min v \<le> quantity \<and> quantity \<le> vr_Max v"

text \<open>\<open>fmt.Sscanf(s, "%d", &hour)\<close> into a zero \<open>hour\<close>, on ASCII: blanks are skipped, a newline or
  a missing or too large number leaves the zero.\<close>

definition scan_digits :: "string \<Rightarrow> int \<Rightarrow> int" where
  "scan_digits s sg = (let ds = takeWhile isDigit s; n = sg * read_nat ds in
     if ds = [] \<or> n < min_i64 \<or> max_i64 < n then 0 else n)"

definition parseHour :: "string \<Rightarrow> int" where
  "parseHour hourStr =
     (let s = dropWhile (\<lambda>c. of_char c \<in> {9, 11, 12, 13, 32 :: nat}) hourStr in
      case s of
        [] \<Rightarrow> 0
      | c # cs \<Rightarrow> if c = CHR ''+'' then scan_digits cs 1 else if c = CHR ''-'' then scan_digits cs (- 1) else scan_digits s 1)"

definition isHourInRange :: "int \<Rightarrow> string \<Rightarrow> bool" where
  "isHourInRange hr hourRange =
     (case split_on (CHR ''-'') hourRange of
        [a, b] \<Rightarrow> parseHour a \<le> hr \<and> hr \<le> parseHour b
      | _ \<Rightarrow> False)"

definition matchesUsagePattern :: "UsagePattern \<Rightarrow> zoned \<Rightarrow> bool" where
  "matchesUsagePattern u t \<longleftrightarrow> list_ex (isHourInRange (Hour t)) (up_PeakHours u) \<or> list_ex (isHourInRange (Hour t)) (up_OffPeakHours u)"

definition ValidateConditions :: "RuleConditions \<Rightarrow> PricingContext \<Rightarrow> bool" where
  "ValidateConditions conditions ctx =
     (if \<not> pred_option (\<lambda>tr. isWithinTimeRange tr (pc_Time ctx)) (rc_TimeRange conditions) then False
      else if rc_Geography conditions \<noteq> [] \<and> \<not> isInGeography (rc_Geography conditions) (pc_Location ctx) then False
      else if rc_CustomerType conditions \<noteq> [] \<and>
          (case meta_string (pc_Metadata ctx) ''customer_type'' of
             None \<Rightarrow> True | Some customerType \<Rightarrow> \<not> isInCustomerType (rc_CustomerType conditions) customerType) then False
      else if \<not> pred_option (\<lambda>v. isWithinVolumeRange v (pc_Quantity ctx)) (rc_Volume conditions) then False
      else if \<not> pred_option (\<lambda>u. matchesUsagePattern u (pc_Time ctx)) (rc_UsagePattern conditions) then False
      else True)"

definition EvaluateRule :: "PricingRule \<Rightarrow> PricingContext \<Rightarrow> bool" where
  "EvaluateRule rule ctx = (if \<not> pr_IsActive rule then False else ValidateConditions (pr_Conditions rule) ctx)"

text \<open>The price is kept above, or for a multiplier below, the limit.\<close>

definition ExecuteActions :: "RuleActions \<Rightarrow> f64 \<Rightarrow> pricing_error + f64" where
  "ExecuteActions actions currentPrice =
     (let at_least = (\<lambda>p. case ra_Limit actions of None \<Rightarrow> p | Some l \<Rightarrow> if f64_lt p l then l else p);
          at_most = (\<lambda>p. case ra_Limit actions of None \<Rightarrow> p | Some l \<Rightarrow> if f64_gt p l then l else p)
      in case ra_AdjustmentType actions of
           AdjustmentTypePercentage \<Rightarrow>
             Inr (at_least (f64_mul currentPrice (f64_sub (f64_lit 1) (f64_div (ra_Value actions) (f64_lit 100)))))
         | AdjustmentTypeFixed \<Rightarrow> Inr (at_least (f64_sub currentPrice (ra_Value actions)))
         | AdjustmentTypeMultiply \<Rightarrow> Inr (at_most (f64_mul currentPrice (ra_Value actions)))
         | AdjustmentTypeOverride \<Rightarrow> (case ra_NewPrice actions of Some p \<Rightarrow> Inr p | None \<Rightarrow> Inl OverrideRequiresPrice)
         | AdjustmentTypeOther s \<Rightarrow> Inl (UnknownAdjustmentType (AdjustmentTypeOther s)))"

definition ApplyRule :: "PricingRule \<Rightarrow> f64 \<Rightarrow> pricing_error + f64" where
  "ApplyRule rule currentPrice = ExecuteActions (pr_Actions rule) currentPrice"

section \<open>Pricing service\<close>

definition applied :: "PricingRule \<Rightarrow> f64 \<Rightarrow> f64 \<Rightarrow> AppliedRule" where
  "applied rule before after = \<lparr>ar_RuleID = pr_ID rule, ar_RuleName = pr_Name rule, ar_Type = pr_Type rule,
     ar_Adjustment = f64_sub before after\<rparr>"

fun apply_rules :: "PricingContext \<Rightarrow> PricingRule list \<Rightarrow> f64 \<times> AppliedRule list \<Rightarrow> f64 \<times> AppliedRule list" where
  "apply_rules ctx [] st = st"
| "apply_rules ctx (rule # rules) (currentPrice, rs) =
     (if EvaluateRule rule ctx then
        (case ApplyRule rule currentPrice of
           Inl err \<Rightarrow> apply_rules ctx rules (currentPrice, rs)
         | Inr adjustedPrice \<Rightarrow> apply_rules ctx rules (adjustedPrice, rs @ [applied rule currentPrice adjustedPrice]))
      else apply_rules ctx rules (currentPrice, rs))"

definition ApplyRules :: "PricingContext \<Rightarrow> PricingRule list \<Rightarrow> PricingResult" where
  "ApplyRules ctx rules =
     (case apply_rules ctx rules (pc_BasePrice ctx, []) of (price, rs) \<Rightarrow>
        \<lparr>pres_OriginalPrice = pc_BasePrice ctx, pres_AdjustedPrice = pc_BasePrice ctx, pres_FinalPrice = price,
         pres_Currency = pc_Currency ctx, pres_Discount = f64_sub (pc_BasePrice ctx) price, pres_AppliedRules = rs\<rparr>)"

definition CalculatePrice :: "(string \<Rightarrow> string + PricingRule list) \<Rightarrow> PricingContext \<Rightarrow> pricing_error + PricingResult" where
  "CalculatePrice getActiveRules ctx =
     (case ValidateContext ctx of
        Some e \<Rightarrow> Inl (InvalidContext e)
      | None \<Rightarrow>
          (case getActiveRules (pc_TenantID ctx) of
             Inl err \<Rightarrow> Inl (RepositoryError err)
           | Inr rules \<Rightarrow> Inr (ApplyRules ctx rules)))"

section \<open>Rule repository\<close>

text \<open>The database is the parameter \<open>query\<close>: it answers a query given by its condition, its order
  and its page.\<close>

record rule_query =
  rq_where :: "PricingRule \<Rightarrow> bool"
  rq_by_priority :: bool
  rq_limit :: "int option"
  rq_offset :: "int option"

fun rule_type_string :: "RuleType \<Rightarrow> string" where
  "rule_type_string RuleTypePercentageDiscount = ''percentage_discount''"
| "rule_type_string RuleTypeFixedDiscount = ''fixed_discount''"
| "rule_type_string RuleTypeMultiplier = ''multiplier''"
| "rule_type_string RuleTypeTieredPricing = ''tiered_pricing''"
| "rule_type_string RuleTypeDynamicPricing = ''dynamic_pricing''"
| "rule_type_string RuleTypeConditionalPricing = ''conditional_pricing''"
| "rule_type_string (RuleTypeOther s) = s"

definition filter_condition :: "PricingFilter \<Rightarrow> PricingRule \<Rightarrow> bool" where
  "filter_condition f r \<longleftrightarrow>
     (pfl_TenantID f = '''' \<or> pr_TenantID r = pfl_TenantID f)
   \<and> (pfl_Type f = '''' \<or> rule_type_string (pr_Type r) = pfl_Type f)
   \<and> pred_option (\<lambda>b. pr_IsActive r = b) (pfl_IsActive f)
   \<and> pred_option (\<lambda>p. pr_Priority r = p) (pfl_Priority f)"

definition ListRules :: "(rule_query \<Rightarrow> string + PricingRule list) \<Rightarrow> PricingFilter \<Rightarrow> string + PricingRule list" where
  "ListRules query f = query \<lparr>rq_where = filter_condition f, rq_by_priority = True,
     rq_limit = (if 0 < pfl_Limit f then Some (pfl_Limit f) else None),
     rq_offset = (if 0 < pfl_Offset f then Some (pfl_Offset f) else None)\<rparr>"

definition GetActiveRules :: "(rule_query \<Rightarrow> string + PricingRule list) \<Rightarrow> string \<Rightarrow> string + PricingRule list" where
  "GetActiveRules query tenantID = query \<lparr>rq_where = (\<lambda>r. pr_TenantID r = tenantID \<and> pr_IsActive r), rq_by_priority = True,
     rq_limit = None, rq_offset = None\<rparr>"

definition GetRulesByType :: "(rule_query \<Rightarrow> string + PricingRule list) \<Rightarrow> string \<Rightarrow> RuleType \<Rightarrow> string + PricingRule list" where
  "GetRulesByType query tenantID ruleType = query \<lparr>rq_where = (\<lambda>r. pr_TenantID r = tenantID
       \<and> rule_type_string (pr_Type r) = rule_type_string ruleType \<and> pr_IsActive r),
     rq_by_priority = True, rq_limit = None, rq_offset = None\<rparr>"

section \<open>Analytics\<close>

definition extractDiscountValue :: "PricingRule \<Rightarrow> f64" where
  "extractDiscountValue rule =
     (let v = ra_Value (pr_Actions rule) in
      if f64_eq v (f64_lit 0) then f64_lit 0
      else case ra_AdjustmentType (pr_Actions rule) of
          AdjustmentTypePercentage \<Rightarrow> v
        | AdjustmentTypeFixed \<Rightarrow> v
        | AdjustmentTypeMultiply \<Rightarrow> if f64_lt v (f64_lit 1) then f64_mul (f64_sub (f64_lit 1) v) (f64_lit 100) else f64_lit 0
        | AdjustmentTypeOverride \<Rightarrow>
            (case ra_NewPrice (pr_Actions rule) of
               Some p \<Rightarrow> if f64_lt p v then f64_sub v p else f64_lit 0
             | None \<Rightarrow> f64_lit 0)
        | AdjustmentTypeOther s \<Rightarrow> v)"

definition statistics_step :: "DiscountStatistics \<Rightarrow> PricingRule \<Rightarrow> DiscountStatistics" where
  "statistics_step st rule =
     (let d = extractDiscountValue rule in
      if f64_gt d (f64_lit 0) then
        st\<lparr>ds_TotalDiscounts := ds_TotalDiscounts st + 1,
           ds_TotalDiscountValue := f64_add (ds_TotalDiscountValue st) d,
           ds_LargestDiscount := (if f64_gt d (ds_LargestDiscount st) then d else ds_LargestDiscount st),
           ds_SmallestDiscount := (if f64_eq (ds_SmallestDiscount st) (f64_lit (- 1)) \<or> f64_lt d (ds_SmallestDiscount st)
             then d else ds_SmallestDiscount st)\<rparr>
      else st)"

definition zero_statistics :: DiscountStatistics where
  "zero_statistics = \<lparr>ds_TotalDiscounts = 0, ds_AverageDiscount = f64_lit 0, ds_LargestDiscount = f64_lit 0,
     ds_SmallestDiscount = f64_lit 0, ds_TotalDiscountValue = f64_lit 0\<rparr>"

definition no_filter :: PricingFilter where
  "no_filter = \<lparr>pfl_TenantID = '''', pfl_Type = '''', pfl_IsActive = None, pfl_Priority = None, pfl_Limit = 0, pfl_Offset = 0\<rparr>"

definition calculateDiscountStatistics :: "(PricingFilter \<Rightarrow> string + PricingRule list) \<Rightarrow> pricing_error + DiscountStatistics" where
  "calculateDiscountStatistics listRules =
     (case listRules no_filter of
        Inl err \<Rightarrow> Inl (RepositoryError err)
      | Inr allRules \<Rightarrow>
          let activeRules = filter pr_IsActive allRules in
          if activeRules = [] then Inr zero_statistics
          else let st = foldl statistics_step (zero_statistics\<lparr>ds_SmallestDiscount := f64_lit (- 1)\<rparr>) activeRules in
            Inr (if 0 < ds_TotalDiscounts st
                 then st\<lparr>ds_AverageDiscount := f64_div (ds_TotalDiscountValue st) (f64_of_int (ds_TotalDiscounts st))\<rparr>
                 else st))"

definition GetAnalytics ::
  "(PricingFilter \<Rightarrow> string + PricingRule list) \<Rightarrow> (string \<Rightarrow> string + PricingRule list) \<Rightarrow> time \<Rightarrow> string
   \<Rightarrow> pricing_error + PricingAnalytics" where
  "GetAnalytics listRules getActiveRules now tenantID =
     (case listRules (no_filter\<lparr>pfl_TenantID := tenantID\<rparr>) of
        Inl err \<Rightarrow> Inl (RepositoryError err)
      | Inr allRules \<Rightarrow>
          (case getActiveRules tenantID of
             Inl err \<Rightarrow> Inl (RepositoryError err)
           | Inr activeRules \<Rightarrow> Inr \<lparr>pa_TotalRules = int (length allRules), pa_ActiveRules = int (length activeRules),
               pa_RulesByType = (\<lambda>t. int (length (filter (\<lambda>r. pr_Type r = t) allRules))),
               pa_DiscountStats = (case calculateDiscountStatistics listRules of Inr st \<Rightarrow> st | Inl _ \<Rightarrow> zero_statistics),
               pa_GeneratedAt = now\<rparr>))"

definition calculateConversionRate :: "PricingAnalytics \<Rightarrow> f64" where
  "calculateConversionRate a =
     (if pa_TotalRules a = 0 then f64_lit 0
      else if 0 < ds_TotalDiscounts (pa_DiscountStats a) then
        (let r = f64_mul (f64_div (f64_of_int (ds_TotalDiscounts (pa_DiscountStats a))) (f64_of_int (pa_TotalRules a))) (f64_lit 100)
         in if f64_gt r (f64_lit 100) then f64_lit 100 else if f64_lt r (f64_lit 0) then f64_lit 0 else r)
      else f64_mul (f64_mul (f64_div (f64_of_int (pa_ActiveRules a)) (f64_of_int (pa_TotalRules a))) (f64_lit 100)) (f64_lit (1/2)))"

section \<open>Integration with rate plans\<close>

definition rate_plan_context :: "zoned \<Rightarrow> string \<Rightarrow> string \<Rightarrow> int \<Rightarrow> string \<Rightarrow> RatePlan \<Rightarrow> PricingContext" where
  "rate_plan_context now tenantID ratePlanID quantity customerID plan =
     \<lparr>pc_TenantID = tenantID, pc_CustomerID = customerID, pc_ProductID = ratePlanID, pc_BasePrice = rp_BasePrice plan,
      pc_Currency = rp_Currency plan, pc_Quantity = quantity, pc_Location = rp_Region plan, pc_Time = now,
      pc_Metadata = Some [''rate_plan_name'' \<mapsto> AnyString (rp_Name plan), ''carrier_id'' \<mapsto> AnyString (rp_CarrierID plan),
        ''plan_type'' \<mapsto> AnyOther ''PlanType'']\<rparr>"

definition CalculateRatePlanPrice ::
  "(string \<Rightarrow> string + RatePlan) \<Rightarrow> (string \<Rightarrow> string + PricingRule list) \<Rightarrow> zoned \<Rightarrow> string \<Rightarrow> string \<Rightarrow> int \<Rightarrow> string
   \<Rightarrow> pricing_error + PricingResult" where
  "CalculateRatePlanPrice getRatePlan getActiveRules now tenantID ratePlanID quantity customerID =
     (case getRatePlan ratePlanID of
        Inl err \<Rightarrow> Inl (RepositoryError err)
      | Inr plan \<Rightarrow> CalculatePrice getActiveRules (rate_plan_context now tenantID ratePlanID quantity customerID plan))"

text \<open>The tenant of the price of a subscription is its profile.\<close>

definition subscription_price ::
  "(string \<Rightarrow> string + RatePlan) \<Rightarrow> (string \<Rightarrow> string + PricingRule list) \<Rightarrow> zoned \<Rightarrow> string \<Rightarrow> string
   \<Rightarrow> pricing_error + PricingResult" where
  "subscription_price getRatePlan getActiveRules now profileID ratePlanID =
     (case getRatePlan ratePlanID of
        Inl err \<Rightarrow> Inl (RepositoryError err)
      | Inr _ \<Rightarrow> CalculateRatePlanPrice getRatePlan getActiveRules now profileID ratePlanID 1 profileID)"

section \<open>Validated hour ranges\<close>

lemma list_all_enumerate:
  "list_all (\<lambda>(i, c). P i c) (enumerate n xs) \<longleftrightarrow> (\<forall>i < length xs. P (n + i) (xs ! i))"
  by (induction xs arbitrary: n) (auto simp: All_less_Suc2)

text \<open>The validator accepts exactly the hour ranges that start with one digit: a digit, a dash and
  one or more digits. The documented range \<open>18-23\<close> is refused, so no rule for the evening can be
  stored, while an end far beyond the day is accepted.\<close>

theorem hour_range_exact:
  "(isValidHourRange s \<longleftrightarrow> (\<exists>a b ds. s = a # CHR ''-'' # b # ds \<and> list_all isDigit (a # b # ds)))
   \<and> \<not> isValidHourRange ''18-23'' \<and> isValidHourRange ''9-17'' \<and> isValidHourRange ''9-99999''"
proof -
  have "isValidHourRange s \<longleftrightarrow> (\<exists>a b ds. s = a # CHR ''-'' # b # ds \<and> list_all isDigit (a # b # ds))"
    (is "?v s \<longleftrightarrow> ?e s")
  proof (cases "length s < 3")
    case False
    then obtain a m b ds where s: "s = a # m # b # ds"
      by (metis One_nat_def Suc_1 length_Cons less_Suc_eq_le list.exhaust list.size(3) not_less numeral_3_eq_3 zero_less_Suc)
    have dash: "\<not> isDigit (CHR ''-'')" by (simp add: isDigit_def)
    have "?v s \<longleftrightarrow> (\<forall>i < length s. (i = 0 \<longrightarrow> isDigit (s ! i)) \<and> (i = length s - 1 \<longrightarrow> isDigit (s ! i))
        \<and> (i = 1 \<longrightarrow> s ! i = CHR ''-'') \<and> (1 < i \<and> i < length s - 1 \<longrightarrow> isDigit (s ! i)))"
      using False by (auto simp: isValidHourRange_def list_all_enumerate)
    also have "\<dots> \<longleftrightarrow> isDigit a \<and> m = CHR ''-'' \<and> (\<forall>i < length (b # ds). isDigit ((b # ds) ! i))" (is "?A \<longleftrightarrow> ?B")
    proof
      assume A: ?A
      have "isDigit ((b # ds) ! i)" if "i < length (b # ds)" for i
        using that A[rule_format, of "i + 2"] by (cases "i = length ds") (auto simp: s)
      with A[rule_format, of 0] A[rule_format, of 1] show ?B by (simp add: s)
    next
      assume B: ?B
      have "isDigit (s ! i)" if "1 < i" "i < length s" for i
        using B that by (auto simp: s nth_Cons' numeral_2_eq_2 dest: spec[of _ "i - 2"])
      with B show ?A by (auto simp: s)
    qed
    also have "\<dots> \<longleftrightarrow> ?e s" unfolding list_all_length[symmetric] by (auto simp: s)
    finally show ?thesis .
  next
    case True
    then show ?thesis by (auto simp: isValidHourRange_def)
  qed
  moreover have "\<not> isValidHourRange ''18-23''" "isValidHourRange ''9-17''" "isValidHourRange ''9-99999''" by code_simp+
  ultimately show ?thesis by simp
qed

section \<open>Prices under validated rules\<close>

abbreviation nonneg :: "f64 \<Rightarrow> bool" where
  "nonneg x \<equiv> \<not> f64_lt x (Fin False 0)"

lemma round_nonneg: "0 \<le> r \<Longrightarrow> nonneg (f64_round s r)"
  using rnd_nonneg[of r] by (auto simp: f64_round_def Let_def)

lemma nonneg_mul: "f64_ok x \<Longrightarrow> f64_ok y \<Longrightarrow> nonneg x \<Longrightarrow> nonneg y \<Longrightarrow> nonneg (f64_mul x y)"
  by (cases x; cases y) (auto simp: round_nonneg split: if_splits)

lemma nonneg_keep:
  assumes "f64_ok v" "nonneg v" "\<not> f64_gt v (f64_lit 100)"
  shows "nonneg (f64_sub (f64_lit 1) (f64_div v (f64_lit 100)))"
proof (cases v)
  case (Fin s r)
  then have "f64_in 0 1 (f64_div v (f64_lit 100))"
    using assms by (auto simp: f64_lit_100 intro!: f64_round_in)
  then have "f64_in (1 - 1) (1 - 0) (f64_sub (f64_lit 1) (f64_div v (f64_lit 100)))"
    by (intro f64_in_sub f64_in_lit) auto
  then show ?thesis by (cases "f64_sub (f64_lit 1) (f64_div v (f64_lit 100))") auto
next
  case NaN
  then show ?thesis by (cases "f64_lit 1") (auto simp: f64_sub_def)
qed (use assms in \<open>auto simp: f64_lit_100\<close>)

text \<open>A rule decoded from JSON has proper numbers; a fixed discount with a floor has a limit.\<close>

definition proper :: "f64 \<Rightarrow> bool" where
  "proper x \<longleftrightarrow> f64_ok x \<and> x \<noteq> NaN"

definition floored :: "PricingRule \<Rightarrow> bool" where
  "floored rule \<longleftrightarrow> proper (ra_Value (pr_Actions rule)) \<and> pred_option proper (ra_NewPrice (pr_Actions rule))
     \<and> pred_option proper (ra_Limit (pr_Actions rule))
     \<and> (ra_AdjustmentType (pr_Actions rule) = AdjustmentTypeFixed \<longrightarrow> ra_Limit (pr_Actions rule) \<noteq> None)"

lemma ValidateRule_actions: "ValidateRule rule = None \<Longrightarrow> ValidateActions (pr_Actions rule) = None"
  by (auto simp: ValidateRule_def split: if_splits option.splits)

lemma limit_nonneg: "proper l \<Longrightarrow> nonneg l \<Longrightarrow> nonneg (if f64_lt p l then l else p)"
  by (cases l; cases p) (auto simp: proper_def)

lemma execute_valid:
  assumes "ValidateRule rule = None" and "floored rule" and "f64_ok price" and "nonneg price"
  shows "\<exists>p. ApplyRule rule price = Inr p \<and> f64_ok p \<and> nonneg p"
proof -
  let ?a = "pr_Actions rule"
  have v: "ValidateActions ?a = None" using assms(1) by (rule ValidateRule_actions)
  then have cv: "check_value ?a = None" and cl: "pred_option nonneg (ra_Limit ?a)"
    by (auto simp: ValidateActions_def split: if_splits)
  have val: "f64_ok (ra_Value ?a)" and lim: "pred_option proper (ra_Limit ?a)"
    using assms(2) by (auto simp: floored_def proper_def)
  show ?thesis
  proof (cases "ra_AdjustmentType ?a")
    case AdjustmentTypePercentage
    then have k: "nonneg (ra_Value ?a)" "\<not> f64_gt (ra_Value ?a) (f64_lit 100)" using cv by (auto simp: check_value_def split: if_splits)
    let ?p = "f64_mul price (f64_sub (f64_lit 1) (f64_div (ra_Value ?a) (f64_lit 100)))"
    have "nonneg ?p" using nonneg_keep[OF val k] val by (intro nonneg_mul assms(3,4)) auto
    moreover have "f64_ok ?p" using assms(3) val by simp
    ultimately have "nonneg ?p" "f64_ok ?p" by auto
    then show ?thesis using AdjustmentTypePercentage lim cl
      by (cases "ra_Limit ?a") (auto simp: ApplyRule_def ExecuteActions_def limit_nonneg proper_def)
  next
    case AdjustmentTypeFixed
    then obtain l where "ra_Limit ?a = Some l" using assms(2) by (auto simp: floored_def)
    then show ?thesis using AdjustmentTypeFixed lim cl val assms(3) limit_nonneg[of l "f64_sub price (ra_Value ?a)"]
      by (auto simp: ApplyRule_def ExecuteActions_def proper_def)
  next
    case AdjustmentTypeMultiply
    then have k: "nonneg (ra_Value ?a)" using cv by (cases "ra_Value ?a") (auto simp: check_value_def split: if_splits)
    have "nonneg (f64_mul price (ra_Value ?a))" by (intro nonneg_mul assms(3,4) val k)
    then show ?thesis using AdjustmentTypeMultiply lim cl val assms(3)
      by (cases "ra_Limit ?a") (auto simp: ApplyRule_def ExecuteActions_def proper_def)
  next
    case AdjustmentTypeOverride
    then show ?thesis using cv assms(2)
      by (auto simp: check_value_def ApplyRule_def ExecuteActions_def floored_def proper_def split: option.splits if_splits)
  next
    case (AdjustmentTypeOther s)
    then show ?thesis using v by (auto simp: ValidateActions_def split: if_splits)
  qed
qed

text \<open>The reference: the rules that match, and the price they lead to one after another.\<close>

definition next_price :: "f64 \<Rightarrow> PricingRule \<Rightarrow> f64" where
  "next_price price rule = (case ApplyRule rule price of Inr p \<Rightarrow> p | Inl _ \<Rightarrow> price)"

lemma apply_rules_reference:
  assumes "\<forall>rule \<in> set rules. ValidateRule rule = None \<and> floored rule" and "f64_ok price" and "nonneg price"
  shows "\<exists>rs'. apply_rules ctx rules (price, rs) = (foldl next_price price (filter (\<lambda>r. EvaluateRule r ctx) rules), rs @ rs')
    \<and> map ar_RuleID rs' = map pr_ID (filter (\<lambda>r. EvaluateRule r ctx) rules)
    \<and> nonneg (foldl next_price price (filter (\<lambda>r. EvaluateRule r ctx) rules))"
  using assms
proof (induction rules arbitrary: price rs)
  case (Cons rule rules)
  show ?case
  proof (cases "EvaluateRule rule ctx")
    case True
    obtain p where p: "ApplyRule rule price = Inr p" "f64_ok p" "nonneg p"
      using execute_valid[of rule price] Cons.prems by auto
    obtain rs' where "apply_rules ctx rules (p, rs @ [applied rule price p])
        = (foldl next_price p (filter (\<lambda>r. EvaluateRule r ctx) rules), (rs @ [applied rule price p]) @ rs')"
      "map ar_RuleID rs' = map pr_ID (filter (\<lambda>r. EvaluateRule r ctx) rules)"
      "nonneg (foldl next_price p (filter (\<lambda>r. EvaluateRule r ctx) rules))"
      using Cons.IH[of p "rs @ [applied rule price p]"] Cons.prems p by auto
    moreover have "next_price price rule = p" "ar_RuleID (applied rule price p) = pr_ID rule"
      using p(1) by (simp_all add: next_price_def applied_def)
    ultimately show ?thesis using True p(1)
      by (intro exI[of _ "applied rule price p # rs'"]) simp
  next
    case False
    then show ?thesis using Cons by simp
  qed
qed simp

text \<open>C4. Under validated rules whose fixed discounts have a limit, a price is calculated by applying
  every active rule whose conditions hold, in the given order and without skipping any, and the
  final price is never below zero.\<close>

theorem price_of_validated_rules:
  assumes "ValidateContext ctx = None" and "getActiveRules (pc_TenantID ctx) = Inr rules" and "f64_ok (pc_BasePrice ctx)"
    and "\<forall>rule \<in> set rules. ValidateRule rule = None \<and> floored rule"
  shows "\<exists>res. CalculatePrice getActiveRules ctx = Inr res
    \<and> map ar_RuleID (pres_AppliedRules res) = map pr_ID (filter (\<lambda>r. EvaluateRule r ctx) rules)
    \<and> pres_FinalPrice res = foldl next_price (pc_BasePrice ctx) (filter (\<lambda>r. EvaluateRule r ctx) rules)
    \<and> \<not> f64_lt (pres_FinalPrice res) (f64_lit 0)"
proof -
  have "nonneg (pc_BasePrice ctx)" using assms(1) by (auto simp: ValidateContext_def split: if_splits)
  from apply_rules_reference[OF assms(4,3) this, of ctx "[]"] show ?thesis
    using assms(1,2) by (auto simp: CalculatePrice_def ApplyRules_def)
qed

definition demo_actions :: "AdjustmentType \<Rightarrow> f64 \<Rightarrow> f64 option \<Rightarrow> RuleActions" where
  "demo_actions t v l = \<lparr>ra_AdjustmentType = t, ra_Value = v, ra_NewPrice = None, ra_Limit = l\<rparr>"

definition demo_rule :: "string \<Rightarrow> RuleActions \<Rightarrow> PricingRule" where
  "demo_rule i a = \<lparr>pr_ID = i, pr_Name = i, pr_Description = '''', pr_TenantID = ''t'', pr_Type = RuleTypeDynamicPricing,
     pr_Priority = 1, pr_IsActive = True,
     pr_Conditions = \<lparr>rc_TimeRange = None, rc_Geography = [], rc_CustomerType = [], rc_Volume = None, rc_UsagePattern = None\<rparr>,
     pr_Actions = a, pr_Metadata = None, pr_CreatedAt = 0, pr_UpdatedAt = 0\<rparr>"

definition demo_context :: PricingContext where
  "demo_context = \<lparr>pc_TenantID = ''t'', pc_CustomerID = ''c'', pc_ProductID = ''p'', pc_BasePrice = f64_lit 10, pc_Currency = ''KES'',
     pc_Quantity = 1, pc_Location = ''KE'', pc_Time = \<lparr>z_instant = 0, z_offset = 0\<rparr>, pc_Metadata = None\<rparr>"

lemma f64_lit_1: "f64_lit 1 = Fin False 1"
  by (simp add: f64_lit_def rep64_round)

lemmas demo_price = demo_actions_def demo_rule_def demo_context_def ValidateRule_def ValidateActions_def check_value_def
  validator_ValidateConditions_def check_opt_def f64_lit_numeral f64_lit_100 ValidateContext_def zero_time_def
  CalculatePrice_def ApplyRules_def EvaluateRule_def ValidateConditions_def ApplyRule_def ExecuteActions_def

theorem price_of_validated_rules_witness:
  "\<exists>res. CalculatePrice (\<lambda>_. Inr [demo_rule ''r'' (demo_actions AdjustmentTypeFixed (f64_lit 15) (Some (f64_lit 0)))]) demo_context = Inr res
    \<and> map ar_RuleID (pres_AppliedRules res) = [''r''] \<and> \<not> f64_lt (pres_FinalPrice res) (f64_lit 0)"
proof -
  let ?r = "demo_rule ''r'' (demo_actions AdjustmentTypeFixed (f64_lit 15) (Some (f64_lit 0)))"
  have "ValidateContext demo_context = None" by (simp add: demo_price)
  moreover have "ValidateRule ?r = None" by (simp add: demo_price)
  moreover have "floored ?r" by (simp add: demo_price floored_def proper_def)
  moreover have "EvaluateRule ?r demo_context" by (simp add: demo_price)
  moreover have "f64_ok (pc_BasePrice demo_context)" by (simp add: demo_context_def)
  moreover have "pr_ID ?r = ''r''" by (simp add: demo_rule_def)
  ultimately show ?thesis
    using price_of_validated_rules[of demo_context "\<lambda>_. Inr [?r]" "[?r]"] by auto
qed

text \<open>A validated fixed discount without a limit takes the price below zero, and a limit above the
  price turns a validated discount of 100 percent into a doubling of the price.\<close>

theorem validated_discount_prices:
  "ValidateRule (demo_rule ''f'' (demo_actions AdjustmentTypeFixed (f64_lit 15) None)) = None
   \<and> map_sum id pres_FinalPrice (CalculatePrice (\<lambda>_. Inr [demo_rule ''f'' (demo_actions AdjustmentTypeFixed (f64_lit 15) None)]) demo_context)
       = Inr (Fin True (- 5))
   \<and> ValidateRule (demo_rule ''g'' (demo_actions AdjustmentTypePercentage (f64_lit 100) (Some (f64_lit 20)))) = None
   \<and> map_sum id pres_FinalPrice (CalculatePrice (\<lambda>_. Inr [demo_rule ''g'' (demo_actions AdjustmentTypePercentage (f64_lit 100) (Some (f64_lit 20)))]) demo_context)
       = Inr (Fin False 20)"
  by (simp_all add: demo_price f64_sub_def rep64_round f64_round_0 f64_lit_1)

section \<open>Isolation of tenants\<close>

text \<open>The documented behaviour of the database: without a page, an answer holds exactly the rows of the
  table that satisfy the condition, and they come in the requested order.\<close>

definition answers_queries :: "PricingRule multiset \<Rightarrow> (rule_query \<Rightarrow> string + PricingRule list) \<Rightarrow> bool" where
  "answers_queries rows query \<longleftrightarrow> (\<forall>q rs. query q = Inr rs \<and> rq_limit q = None \<and> rq_offset q = None \<longrightarrow>
     mset rs = filter_mset (rq_where q) rows
     \<and> (rq_by_priority q \<longrightarrow> sorted_wrt (\<lambda>a b. pr_Priority b \<le> pr_Priority a) rs))"

text \<open>The reference: the rules applied, each to the price the rules before it led to. A rule whose action
  fails is passed over.\<close>

fun applied_in_order :: "f64 \<Rightarrow> PricingRule list \<Rightarrow> AppliedRule list" where
  "applied_in_order price [] = []"
| "applied_in_order price (rule # rules) =
     (case ApplyRule rule price of
        Inl _ \<Rightarrow> applied_in_order price rules
      | Inr p \<Rightarrow> applied rule price p # applied_in_order p rules)"

lemma apply_rules_all:
  "apply_rules ctx rules (price, rs)
     = (foldl next_price price (filter (\<lambda>r. EvaluateRule r ctx) rules),
        rs @ applied_in_order price (filter (\<lambda>r. EvaluateRule r ctx) rules))"
  by (induction rules arbitrary: price rs) (auto simp: next_price_def split: sum.split)

text \<open>C13. A price applies exactly the stored rules of the tenant of the request that are active and whose
  conditions hold, each once and in descending priority, each to the price the rules before it
  led to; a rule whose action fails changes nothing and is not reported. No rule of another tenant
  has any part in it.\<close>

theorem prices_use_own_rules:
  assumes "answers_queries rows query" and "CalculatePrice (GetActiveRules query) ctx = Inr res"
  shows "\<exists>rules. mset rules = {# r \<in># rows. pr_TenantID r = pc_TenantID ctx \<and> pr_IsActive r \<and> ValidateConditions (pr_Conditions r) ctx #}
    \<and> sorted_wrt (\<lambda>a b. pr_Priority b \<le> pr_Priority a) rules
    \<and> pres_AppliedRules res = applied_in_order (pc_BasePrice ctx) rules
    \<and> pres_OriginalPrice res = pc_BasePrice ctx
    \<and> pres_FinalPrice res = foldl next_price (pc_BasePrice ctx) rules
    \<and> pres_Discount res = f64_sub (pc_BasePrice ctx) (foldl next_price (pc_BasePrice ctx) rules)"
proof -
  obtain rules where r: "GetActiveRules query (pc_TenantID ctx) = Inr rules" and res: "res = ApplyRules ctx rules"
    using assms(2) by (auto simp: CalculatePrice_def split: option.splits sum.splits)
  let ?m = "filter (\<lambda>r. EvaluateRule r ctx) rules"
  have own: "mset rules = {# r \<in># rows. pr_TenantID r = pc_TenantID ctx \<and> pr_IsActive r #}"
    and ord: "sorted_wrt (\<lambda>a b. pr_Priority b \<le> pr_Priority a) rules"
    using assms(1) r by (fastforce simp: answers_queries_def GetActiveRules_def)+
  have "mset ?m = {# r \<in># rows. pr_TenantID r = pc_TenantID ctx \<and> pr_IsActive r \<and> ValidateConditions (pr_Conditions r) ctx #}"
    unfolding mset_filter own filter_filter_mset
    by (intro filter_mset_cong) (auto simp: EvaluateRule_def)
  moreover have "sorted_wrt (\<lambda>a b. pr_Priority b \<le> pr_Priority a) ?m" using ord by (rule sorted_wrt_filter)
  moreover have "res = \<lparr>pres_OriginalPrice = pc_BasePrice ctx, pres_AdjustedPrice = pc_BasePrice ctx,
      pres_FinalPrice = foldl next_price (pc_BasePrice ctx) ?m, pres_Currency = pc_Currency ctx,
      pres_Discount = f64_sub (pc_BasePrice ctx) (foldl next_price (pc_BasePrice ctx) ?m),
      pres_AppliedRules = applied_in_order (pc_BasePrice ctx) ?m\<rparr>"
    by (simp add: res ApplyRules_def apply_rules_all)
  ultimately show ?thesis by (intro exI[of _ ?m]) simp
qed

definition table_query :: "PricingRule list \<Rightarrow> rule_query \<Rightarrow> string + PricingRule list" where
  "table_query rows q = Inr (filter (rq_where q) (sort_key (\<lambda>r. - pr_Priority r) rows))"

lemma table_query_answers: "answers_queries (mset rows) (table_query rows)"
proof -
  have "sorted (map (\<lambda>r. - pr_Priority r) (filter P (sort_key (\<lambda>r. - pr_Priority r) rows)))" for P
    by (intro sorted_filter) simp
  then have "sorted_wrt (\<lambda>a b. pr_Priority b \<le> pr_Priority a) (filter P (sort_key (\<lambda>r. - pr_Priority r) rows))" for P
    by (simp add: sorted_map)
  then show ?thesis by (auto simp: answers_queries_def table_query_def)
qed

theorem prices_use_own_rules_witness:
  "map_sum id (\<lambda>res. (pres_FinalPrice res, map ar_RuleID (pres_AppliedRules res))) (CalculatePrice (GetActiveRules (table_query
       [demo_rule ''other'' (demo_actions AdjustmentTypeFixed (f64_lit 1) None)\<lparr>pr_TenantID := ''u''\<rparr>,
        demo_rule ''own'' (demo_actions AdjustmentTypeFixed (f64_lit 2) None)])) demo_context)
     = Inr (Fin False 8, [''own''])"
proof -
  let ?own = "demo_rule ''own'' (demo_actions AdjustmentTypeFixed (f64_lit 2) None)"
  let ?rows = "[demo_rule ''other'' (demo_actions AdjustmentTypeFixed (f64_lit 1) None)\<lparr>pr_TenantID := ''u''\<rparr>, ?own]"
  have "\<exists>res. CalculatePrice (GetActiveRules (table_query ?rows)) demo_context = Inr res"
    by (simp add: CalculatePrice_def GetActiveRules_def table_query_def ValidateContext_def demo_context_def f64_lit_numeral zero_time_def)
  then obtain res where r: "CalculatePrice (GetActiveRules (table_query ?rows)) demo_context = Inr res" by blast
  obtain rules where m: "mset rules = {# r \<in># mset ?rows. pr_TenantID r = pc_TenantID demo_context \<and> pr_IsActive r
        \<and> ValidateConditions (pr_Conditions r) demo_context #}"
    and p: "pres_FinalPrice res = foldl next_price (pc_BasePrice demo_context) rules"
    and ids: "pres_AppliedRules res = applied_in_order (pc_BasePrice demo_context) rules"
    using prices_use_own_rules[OF table_query_answers r] by blast
  have "mset rules = {#?own#}" unfolding m by (simp add: demo_rule_def demo_context_def ValidateConditions_def)
  then have rules: "rules = [?own]" by simp
  have "ApplyRule ?own (pc_BasePrice demo_context) = Inr (Fin False 8)"
    by (simp add: demo_price f64_sub_def rep64_round)
  then show ?thesis using r p ids unfolding rules by (simp add: next_price_def applied_def demo_rule_def)
qed

section \<open>Conversion rate\<close>

lemma clamp_percentage:
  assumes "f64_finite r \<or> r = Inf s"
  shows "f64_in 0 100 (if f64_gt r (f64_lit 100) then f64_lit 100 else if f64_lt r (f64_lit 0) then f64_lit 0 else r)"
  using assms by (cases r) (auto simp: f64_lit_100)

lemma count_pos: "0 < n \<Longrightarrow> n \<le> max_i64 \<Longrightarrow> \<exists>r. f64_of_int n = Fin False r \<and> 0 < r"
  using f64_of_int_pos[of n] by (intro exI[of _ "rnd (of_int n)"]) auto

lemma round_finite_or_inf: "f64_finite (f64_round s r) \<or> f64_round s r = Inf (r < 0)"
  by (auto simp: f64_round_def Let_def)

lemma round_sign: "0 \<le> r \<Longrightarrow> f64_round False r = Inf False \<or> (\<exists>q. f64_round False r = Fin False q \<and> 0 \<le> q)"
  using rnd_nonneg[of r] by (auto simp: f64_round_def Let_def)

text \<open>The conversion rate is a percentage for any analytics with at most as many active as rules in
  total, whatever the number of discounts counted.\<close>

theorem conversion_rate_percentage:
  assumes "0 \<le> pa_ActiveRules a" and "pa_ActiveRules a \<le> pa_TotalRules a" and "pa_TotalRules a \<le> max_i64"
    and "ds_TotalDiscounts (pa_DiscountStats a) \<le> max_i64"
  shows "f64_in 0 100 (calculateConversionRate a)"
proof (cases "pa_TotalRules a = 0")
  case False
  then have t: "0 < pa_TotalRules a" using assms(1,2) by simp
  show ?thesis
  proof (cases "0 < ds_TotalDiscounts (pa_DiscountStats a)")
    case True
    obtain x y where "f64_of_int (ds_TotalDiscounts (pa_DiscountStats a)) = Fin False x" "0 < x"
      "f64_of_int (pa_TotalRules a) = Fin False y" "0 < y"
      using count_pos[OF True assms(4)] count_pos[OF t assms(3)] by blast
    then have d: "f64_div (f64_of_int (ds_TotalDiscounts (pa_DiscountStats a))) (f64_of_int (pa_TotalRules a)) = f64_round False (x / y)"
      "0 \<le> x / y" by auto
    have "\<exists>s. f64_finite (f64_mul (f64_round False (x / y)) (f64_lit 100)) \<or> f64_mul (f64_round False (x / y)) (f64_lit 100) = Inf s"
      using round_sign[OF d(2)] round_finite_or_inf[of False "_ * 100"] by (fastforce simp: f64_lit_100)
    then obtain s where "f64_finite (f64_mul (f64_round False (x / y)) (f64_lit 100)) \<or> f64_mul (f64_round False (x / y)) (f64_lit 100) = Inf s"
      by blast
    note in_range = clamp_percentage[OF this, folded d(1)]
    have "calculateConversionRate a = (let r = f64_mul (f64_div (f64_of_int (ds_TotalDiscounts (pa_DiscountStats a)))
        (f64_of_int (pa_TotalRules a))) (f64_lit 100)
      in if f64_gt r (f64_lit 100) then f64_lit 100 else if f64_lt r (f64_lit 0) then f64_lit 0 else r)"
      using False True by (simp add: calculateConversionRate_def)
    with in_range show ?thesis by (simp only: Let_def)
  next
    case no: False
    have "f64_in 0 1 (f64_div (f64_of_int (pa_ActiveRules a)) (f64_of_int (pa_TotalRules a)))"
      using assms t by (intro f64_ratio_in) auto
    then have "f64_in (0 * 100) (1 * 100) (f64_mul (f64_div (f64_of_int (pa_ActiveRules a)) (f64_of_int (pa_TotalRules a))) (f64_lit 100))"
      by (intro f64_in_mul) (auto simp: f64_lit_100)
    then have "f64_in (0 * 0) (100 * 1) (f64_mul (f64_mul (f64_div (f64_of_int (pa_ActiveRules a)) (f64_of_int (pa_TotalRules a))) (f64_lit 100)) (f64_lit (1/2)))"
      by (intro f64_in_mul) (auto intro: f64_in_lit)
    then show ?thesis using False no by (simp add: calculateConversionRate_def)
  qed
qed (simp add: calculateConversionRate_def)

theorem conversion_rate_percentage_witness:
  "f64_in 0 100 (calculateConversionRate \<lparr>pa_TotalRules = 4, pa_ActiveRules = 2, pa_RulesByType = (\<lambda>_. 0),
     pa_DiscountStats = zero_statistics, pa_GeneratedAt = 0\<rparr>)"
  by (rule conversion_rate_percentage) (auto simp: zero_statistics_def)

text \<open>The statistics of a tenant count the rules of all tenants: they do not depend on the tenant.\<close>

lemma statistics_not_per_tenant:
  "GetAnalytics listRules getActiveRules now t1 = Inr a1 \<Longrightarrow> GetAnalytics listRules getActiveRules now t2 = Inr a2
   \<Longrightarrow> pa_DiscountStats a1 = pa_DiscountStats a2"
  by (auto simp: GetAnalytics_def split: sum.splits)

text \<open>A rule for certain types of customers never applies to the price of a rate plan, whose context
  does not name the type.\<close>

lemma customer_rules_never_apply:
  "rc_CustomerType (pr_Conditions rule) \<noteq> []
   \<Longrightarrow> \<not> EvaluateRule rule (rate_plan_context now tenantID ratePlanID quantity customerID plan)"
  by (auto simp: EvaluateRule_def ValidateConditions_def rate_plan_context_def meta_string_def meta_get_def)

end
