(* ===== verification/Redis_Limiter.thy ===== *)
theory Redis_Limiter
  imports Go_Any
begin

text \<open>
  The distributed rate limiter of the API server (\<open>apps/api-server/internal/middleware/redis_ratelimit.go\<close>): the two
  scripts that Redis runs, the operations of the limiter and the middleware. The keys of Redis are the state; an entry
  expires by the clock of the server. The numbers of a script are binary64.
\<close>

section \<open>Keys and scripts\<close>

text \<open>The members of a sorted set are the seconds of the requests, with themselves as scores, in ascending order.\<close>

datatype redis_value =
    SortedSet "int list"
  | Hash f64 f64 \<comment> \<open>tokens and the time of the last refill\<close>

record redis_entry =
  re_value :: redis_value
  re_expires :: "time option"

type_synonym redis = "string \<rightharpoonup> redis_entry"

definition live :: "time \<Rightarrow> redis \<Rightarrow> redis" where
  "live server r = (\<lambda>k. case r k of None \<Rightarrow> None
     | Some e \<Rightarrow> (case re_expires e of Some t \<Rightarrow> if t \<le> server then None else Some e | None \<Rightarrow> Some e))"

fun f64_floor :: "f64 \<Rightarrow> f64" where
  "f64_floor (Fin s r) = (if \<lfloor>r\<rfloor> = 0 then Fin s 0 else f64_of_int \<lfloor>r\<rfloor>)"
| "f64_floor x = x"

fun f64_ceil :: "f64 \<Rightarrow> f64" where
  "f64_ceil (Fin s r) = (if \<lceil>r\<rceil> = 0 then Fin s 0 else f64_of_int \<lceil>r\<rceil>)"
| "f64_ceil x = x"

definition lua_min :: "f64 \<Rightarrow> f64 \<Rightarrow> f64" where
  "lua_min a b = (if f64_lt b a then b else a)"

text \<open>\<open>ZADD\<close> with the member as its score.\<close>

fun zadd :: "int \<Rightarrow> int list \<Rightarrow> int list" where
  "zadd x [] = [x]"
| "zadd x (y # ys) = (if x < y then x # y # ys else if x = y then y # ys else y # zadd x ys)"

datatype redis_error = WrongType | RedisDown string | InvalidFormat

definition expire :: "time \<Rightarrow> f64 \<Rightarrow> time option" where
  "expire server secs = Some (server + f64_to_int secs * second)"

text \<open>The script of the sliding window: its answer and the entry it leaves.\<close>

definition sliding_script :: "time \<Rightarrow> int \<Rightarrow> f64 \<Rightarrow> int \<Rightarrow> redis_entry option \<Rightarrow> (redis_error + int list) \<times> redis_entry option" where
  "sliding_script server now window limit e =
     (case map_option re_value e of
        Some (Hash _ _) \<Rightarrow> (Inl WrongType, e)
      | _ \<Rightarrow>
          let zs = (case map_option re_value e of Some (SortedSet zs) \<Rightarrow> zs | _ \<Rightarrow> []);
              window_start = f64_sub (f64_of_int now) window;
              zs1 = filter (\<lambda>x. \<not> (0 \<le> x \<and> f64_le (f64_of_int x) window_start)) zs;
              current = int (length zs1);
              reset = f64_to_int (f64_add (f64_of_int now) window)
          in if f64_lt (f64_of_int current) (f64_of_int limit) then
               (Inr [1, f64_to_int (f64_sub (f64_sub (f64_of_int limit) (f64_of_int current)) (f64_lit 1)), reset],
                Some \<lparr>re_value = SortedSet (zadd now zs1), re_expires = expire server (f64_ceil window)\<rparr>)
             else (Inr [0, 0, reset, (case zs1 of [] \<Rightarrow> 0 | oldest # _ \<Rightarrow>
                      f64_to_int (f64_sub (f64_add (f64_of_int oldest) window) (f64_of_int now)))],
                   if zs1 = [] then None else Some \<lparr>re_value = SortedSet zs1, re_expires = (case e of Some x \<Rightarrow> re_expires x | None \<Rightarrow> None)\<rparr>))"

text \<open>The script of the token bucket.\<close>

definition bucket_script :: "time \<Rightarrow> int \<Rightarrow> int \<Rightarrow> f64 \<Rightarrow> f64 \<Rightarrow> redis_entry option \<Rightarrow> (redis_error + int list) \<times> redis_entry option" where
  "bucket_script server now capacity refill_rate refill_interval e =
     (case map_option re_value e of
        Some (SortedSet _) \<Rightarrow> (Inl WrongType, e)
      | _ \<Rightarrow>
          let (tokens, last_refill) = (case map_option re_value e of Some (Hash t l) \<Rightarrow> (t, l) | _ \<Rightarrow> (f64_of_int capacity, f64_of_int now));
              time_passed = f64_sub (f64_of_int now) last_refill;
              tokens_to_add = f64_floor (f64_mul (f64_div time_passed refill_interval) refill_rate);
              tokens1 = lua_min (f64_of_int capacity) (f64_add tokens tokens_to_add);
              reset = f64_to_int (f64_add (f64_of_int now) refill_interval)
          in if f64_ge tokens1 (f64_lit 1) then
               let tokens2 = f64_sub tokens1 (f64_lit 1) in
               (Inr [1, f64_to_int tokens2, reset],
                Some \<lparr>re_value = Hash tokens2 (f64_of_int now),
                  re_expires = expire server (f64_ceil (f64_div (f64_mul refill_interval (f64_of_int capacity)) refill_rate))\<rparr>)
             else (Inr [0, f64_to_int tokens1, reset,
                     f64_to_int (f64_ceil (f64_div (f64_mul (f64_sub (f64_lit 1) tokens1) refill_interval) refill_rate))], e))"

section \<open>The limiter\<close>

record RedisRateLimiter =
  rl_prefix :: string
  rl_limit :: int
  rl_window :: duration

record RateLimitResult =
  rr_Allowed :: bool
  rr_Remaining :: int
  rr_ResetTime :: time
  rr_TotalLimit :: int
  rr_RetryAfter :: duration

definition NewRedisRateLimiter :: "string \<Rightarrow> int \<Rightarrow> duration \<Rightarrow> RedisRateLimiter" where
  "NewRedisRateLimiter prefix limit window = \<lparr>rl_prefix = prefix, rl_limit = limit, rl_window = window\<rparr>"

definition seconds_of :: "duration \<Rightarrow> f64" where
  "seconds_of d = f64_add (f64_of_int (go_quot d second)) (f64_div (f64_of_int (go_rem d second)) (f64_lit 1000000000))"

text \<open>The common end of both operations: the answer of a script.\<close>

definition parse_result :: "int \<Rightarrow> int list \<Rightarrow> redis_error + RateLimitResult" where
  "parse_result limit ns = (if length ns < 3 then Inl InvalidFormat
     else Inr \<lparr>rr_Allowed = (ns ! 0 = 1), rr_Remaining = ns ! 1, rr_ResetTime = ns ! 2 * second, rr_TotalLimit = limit,
       rr_RetryAfter = (if 4 \<le> length ns then i64 (ns ! 3 * second) else 0)\<rparr>)"

text \<open>\<open>down\<close> is an error of the connection. The script sees the key as the clock of the server has it.\<close>

definition run_script ::
  "string option \<Rightarrow> time \<Rightarrow> string \<Rightarrow> int \<Rightarrow> (redis_entry option \<Rightarrow> (redis_error + int list) \<times> redis_entry option) \<Rightarrow> redis \<Rightarrow>
    (redis_error + RateLimitResult) \<times> redis" where
  "run_script down server key limit script r =
     (case down of
        Some e \<Rightarrow> (Inl (RedisDown e), r)
      | None \<Rightarrow> let r1 = live server r in
          (case script (r1 key) of
             (Inl e, _) \<Rightarrow> (Inl e, r1)
           | (Inr ns, entry) \<Rightarrow> (parse_result limit ns, r1(key := entry))))"

definition sliding_key :: "RedisRateLimiter \<Rightarrow> string \<Rightarrow> string" where
  "sliding_key rl key = rl_prefix rl @ '':'' @ key"

definition bucket_key :: "RedisRateLimiter \<Rightarrow> string \<Rightarrow> string" where
  "bucket_key rl key = rl_prefix rl @ '':bucket:'' @ key"

definition unix :: "time \<Rightarrow> int" where
  "unix t = t div second"

definition Allow :: "RedisRateLimiter \<Rightarrow> string option \<Rightarrow> time \<Rightarrow> time \<Rightarrow> string \<Rightarrow> redis \<Rightarrow> (redis_error + RateLimitResult) \<times> redis" where
  "Allow rl down now server key =
     run_script down server (sliding_key rl key) (rl_limit rl) (sliding_script server (unix now) (seconds_of (rl_window rl)) (rl_limit rl))"

definition AllowTokenBucket :: "RedisRateLimiter \<Rightarrow> string option \<Rightarrow> time \<Rightarrow> time \<Rightarrow> string \<Rightarrow> redis \<Rightarrow> (redis_error + RateLimitResult) \<times> redis" where
  "AllowTokenBucket rl down now server key =
     run_script down server (bucket_key rl key) (rl_limit rl)
       (bucket_script server (unix now) (rl_limit rl) (f64_div (f64_of_int (rl_limit rl)) (seconds_of (rl_window rl))) (f64_lit 1))"

definition Reset :: "RedisRateLimiter \<Rightarrow> string option \<Rightarrow> string \<Rightarrow> redis \<Rightarrow> redis_error option \<times> redis" where
  "Reset rl down key r = (case down of Some e \<Rightarrow> (Some (RedisDown e), r) | None \<Rightarrow> (None, r(sliding_key rl key := None)))"

definition GetStats :: "RedisRateLimiter \<Rightarrow> string option \<Rightarrow> time \<Rightarrow> time \<Rightarrow> string \<Rightarrow> redis \<Rightarrow> redis_error + RateLimitResult" where
  "GetStats rl down now server key r =
     (case down of
        Some e \<Rightarrow> Inl (RedisDown e)
      | None \<Rightarrow>
          (let zs = (case live server r (sliding_key rl key) of None \<Rightarrow> Inr [] | Some e \<Rightarrow> (case re_value e of SortedSet zs \<Rightarrow> Inr zs | Hash _ _ \<Rightarrow> Inl WrongType)) in
           case zs of
             Inl e \<Rightarrow> Inl e
           | Inr xs \<Rightarrow>
               let remaining = max (i64 (rl_limit rl - int (length (filter (\<lambda>x. unix (now - rl_window rl) \<le> x \<and> x \<le> unix now) xs)))) 0
               in Inr \<lparr>rr_Allowed = 0 < remaining, rr_Remaining = remaining, rr_ResetTime = now + rl_window rl, rr_TotalLimit = rl_limit rl, rr_RetryAfter = 0\<rparr>))"

section \<open>The middleware\<close>

record redis_request =
  rq_ip :: string
  rq_user :: "go_any option"
  rq_api_key :: string
  rq_method :: string
  rq_path :: string

definition IPKeyExtractor :: "redis_request \<Rightarrow> string" where
  "IPKeyExtractor c = rq_ip c"

definition UserKeyExtractor :: "redis_request \<Rightarrow> string" where
  "UserKeyExtractor c = (case rq_user c of Some (AnyString i) \<Rightarrow> ''user:'' @ i | _ \<Rightarrow> IPKeyExtractor c)"

definition APIKeyExtractor :: "redis_request \<Rightarrow> string" where
  "APIKeyExtractor c = (if rq_api_key c \<noteq> '''' then ''api:'' @ rq_api_key c else UserKeyExtractor c)"

definition EndpointKeyExtractor :: "(redis_request \<Rightarrow> string) \<Rightarrow> redis_request \<Rightarrow> string" where
  "EndpointKeyExtractor baseExtractor c = baseExtractor c @ '':'' @ rq_method c @ '':'' @ rq_path c"

text \<open>A request goes on, with the headers that have been set, or is answered with the status 429.\<close>

datatype redis_outcome = Next "(string \<times> string) list" | TooManyRequests "(string \<times> string) list" RateLimitResult

definition limit_headers :: "RateLimitResult \<Rightarrow> (string \<times> string) list" where
  "limit_headers res = [(''X-RateLimit-Limit'', show_int (rr_TotalLimit res)), (''X-RateLimit-Remaining'', show_int (rr_Remaining res)),
     (''X-RateLimit-Reset'', show_int (unix (rr_ResetTime res)))]"

definition respond :: "(string \<times> string) list \<Rightarrow> RateLimitResult \<Rightarrow> redis_outcome" where
  "respond headers res =
     (if \<not> rr_Allowed res then
        TooManyRequests (headers @ (if 0 < rr_RetryAfter res then [(''Retry-After'', show_int (f64_to_int (seconds_of (rr_RetryAfter res))))] else [])) res
      else Next headers)"

definition RedisRateLimitMiddleware ::
  "RedisRateLimiter \<Rightarrow> (redis_request \<Rightarrow> string) \<Rightarrow> string option \<Rightarrow> time \<Rightarrow> time \<Rightarrow> redis_request \<Rightarrow> redis \<Rightarrow> redis_outcome \<times> redis" where
  "RedisRateLimitMiddleware rl keyExtractor down now server c r =
     (let key = keyExtractor c in
      if key = '''' then (Next [], r)
      else (case Allow rl down now server key r of
          (Inl _, r') \<Rightarrow> (Next [], r')
        | (Inr res, r') \<Rightarrow> (respond (limit_headers res) res, r')))"

definition RedisTokenBucketMiddleware ::
  "RedisRateLimiter \<Rightarrow> (redis_request \<Rightarrow> string) \<Rightarrow> string option \<Rightarrow> time \<Rightarrow> time \<Rightarrow> redis_request \<Rightarrow> redis \<Rightarrow> redis_outcome \<times> redis" where
  "RedisTokenBucketMiddleware rl keyExtractor down now server c r =
     (let key = keyExtractor c in
      if key = '''' then (Next [], r)
      else (case AllowTokenBucket rl down now server key r of
          (Inl _, r') \<Rightarrow> (Next [], r')
        | (Inr res, r') \<Rightarrow> (respond (limit_headers res) res, r')))"

type_synonym MultiTierRateLimiter = "string \<rightharpoonup> RedisRateLimiter"

record tier_config =
  tc_Limit :: int
  tc_Window :: duration
  tc_Prefix :: string

definition NewMultiTierRateLimiter :: "(string \<rightharpoonup> tier_config) \<Rightarrow> MultiTierRateLimiter" where
  "NewMultiTierRateLimiter tiers = (\<lambda>name. map_option (\<lambda>c. NewRedisRateLimiter (tc_Prefix c) (tc_Limit c) (tc_Window c)) (tiers name))"

definition CheckTier :: "MultiTierRateLimiter \<Rightarrow> string option \<Rightarrow> time \<Rightarrow> time \<Rightarrow> string \<Rightarrow> string \<Rightarrow> redis \<Rightarrow> ((redis_error option + RateLimitResult) \<times> redis)" where
  "CheckTier m down now server tier key r =
     (case m tier of
        None \<Rightarrow> (Inl None, r)
      | Some limiter \<Rightarrow> (case Allow limiter down now server key r of (res, r') \<Rightarrow> (map_sum Some id res, r')))"

definition MultiTierMiddleware ::
  "MultiTierRateLimiter \<Rightarrow> (redis_request \<Rightarrow> string) \<Rightarrow> (redis_request \<Rightarrow> string) \<Rightarrow> string option \<Rightarrow> time \<Rightarrow> time \<Rightarrow> redis_request \<Rightarrow> redis \<Rightarrow>
    redis_outcome \<times> redis" where
  "MultiTierMiddleware m tierExtractor keyExtractor down now server c r =
     (let tier = tierExtractor c; key = keyExtractor c in
      if tier = '''' \<or> key = '''' then (Next [], r)
      else (case CheckTier m down now server tier key r of
          (Inl _, r') \<Rightarrow> (Next [], r')
        | (Inr res, r') \<Rightarrow> (respond (limit_headers res @ [(''X-RateLimit-Tier'', tier)]) res, r')))"

section \<open>Whole numbers in binary64\<close>

abbreviation small :: "int \<Rightarrow> bool" where "small n \<equiv> \<bar>n\<bar> \<le> 9007199254740992"

lemma of_int_small: "small n \<Longrightarrow> f64_of_int n = Fin (n < 0) (of_int n)"
proof (cases "n = 0")
  case False
  assume "small n"
  then have "rep64 (of_int n)" by (intro rep64_of_int) simp
  then show ?thesis using False rep64_round[of "of_int n" False] by (simp add: f64_of_int_def)
qed simp

lemma round_small: "small n \<Longrightarrow> (n = 0 \<Longrightarrow> \<not> s) \<Longrightarrow> f64_round s (of_int n) = f64_of_int n"
proof (cases "n = 0")
  case False
  assume "small n"
  then have "rep64 (of_int n)" by (intro rep64_of_int) simp
  then show ?thesis using False rep64_round[of "of_int n"] by (simp add: f64_of_int_def)
qed (simp add: f64_round_0)

lemma add_small: "small a \<Longrightarrow> small b \<Longrightarrow> small (a + b) \<Longrightarrow> f64_add (f64_of_int a) (f64_of_int b) = f64_of_int (a + b)"
  by (simp only: of_int_small f64_add.simps) (subst of_int_add[symmetric], subst round_small, auto simp: of_int_small)

lemma neg_small: "small b \<Longrightarrow> f64_neg (f64_of_int b) = Fin (0 \<le> b) (of_int (- b))"
  by (simp add: of_int_small not_less)

lemma sub_small: "small a \<Longrightarrow> small b \<Longrightarrow> small (a - b) \<Longrightarrow> f64_sub (f64_of_int a) (f64_of_int b) = f64_of_int (a - b)"
proof -
  assume s: "small a" "small b" "small (a - b)"
  have "f64_sub (f64_of_int a) (f64_of_int b) = f64_round (a < 0 \<and> 0 \<le> b) (of_int (a - b))"
    unfolding f64_sub_def neg_small[OF s(2)] of_int_small[OF s(1)] by simp
  also have "\<dots> = f64_of_int (a - b)" using s by (intro round_small) auto
  finally show ?thesis .
qed

lemma mul_small: "0 \<le> a \<Longrightarrow> 0 \<le> b \<Longrightarrow> small a \<Longrightarrow> small b \<Longrightarrow> small (a * b) \<Longrightarrow> f64_mul (f64_of_int a) (f64_of_int b) = f64_of_int (a * b)"
  by (simp only: of_int_small f64_mul.simps) (subst of_int_mult[symmetric], subst round_small, auto simp: of_int_small)

lemma div_small: "0 \<le> c \<Longrightarrow> 0 < b \<Longrightarrow> small b \<Longrightarrow> small c \<Longrightarrow> small (b * c) \<Longrightarrow> f64_div (f64_of_int (b * c)) (f64_of_int b) = f64_of_int c"
proof -
  assume s: "0 \<le> c" "0 < b" "small b" "small c" "small (b * c)"
  have "rat_of_int (b * c) / of_int b = of_int c" using s(2) by simp
  then have "f64_div (f64_of_int (b * c)) (f64_of_int b) = f64_round (b * c < 0) (of_int c)"
    unfolding of_int_small[OF s(5)] of_int_small[OF s(3)] using s(2) by (simp add: mult_less_0_iff)
  also have "\<dots> = f64_of_int c" using s by (intro round_small) auto
  finally show ?thesis .
qed

lemma lt_small [simp]: "small a \<Longrightarrow> small b \<Longrightarrow> f64_lt (f64_of_int a) (f64_of_int b) \<longleftrightarrow> a < b"
  by (simp add: of_int_small)

lemma le_small [simp]: "small a \<Longrightarrow> small b \<Longrightarrow> f64_le (f64_of_int a) (f64_of_int b) \<longleftrightarrow> a \<le> b"
  by (simp add: of_int_small)

lemma floor_small [simp]: "small a \<Longrightarrow> f64_floor (f64_of_int a) = f64_of_int a" "small a \<Longrightarrow> f64_ceil (f64_of_int a) = f64_of_int a"
  by (simp_all add: of_int_small)

lemma to_int_small [simp]: "small a \<Longrightarrow> f64_to_int (f64_of_int a) = a"
proof -
  assume s: "small a"
  have "\<lfloor>rat_of_int a\<rfloor> = a" "- \<lfloor>- rat_of_int a\<rfloor> = a" by (simp_all add: floor_minus)
  then show ?thesis unfolding of_int_small[OF s] using s by (auto simp: Let_def)
qed

lemma lit_one_int: "f64_lit 1 = f64_of_int 1"
  by (simp add: f64_lit_def f64_of_int_def)

lemma seconds_whole: "0 \<le> k \<Longrightarrow> small k \<Longrightarrow> seconds_of (k * second) = f64_of_int k"
proof -
  assume k: "0 \<le> k" "small k"
  have "go_quot (k * second) second = k" "go_rem (k * second) second = 0" using k by (simp_all add: second_def)
  moreover have "f64_div (f64_of_int 0) (f64_lit 1000000000) = Fin False 0"
    by (simp add: f64_lit_numeral f64_round_0)
  ultimately show ?thesis using k by (simp add: seconds_of_def)
qed

section \<open>The sliding window\<close>

lemma zadd_props: "set (zadd x zs) = insert x (set zs)" "distinct zs \<Longrightarrow> sorted zs \<Longrightarrow> distinct (zadd x zs) \<and> sorted (zadd x zs)"
proof -
  show s: "set (zadd x zs) = insert x (set zs)" for x zs by (induction x zs rule: zadd.induct) auto
  show "distinct (zadd x zs) \<and> sorted (zadd x zs)" if "distinct zs" "sorted zs"
    using that
  proof (induction x zs rule: zadd.induct)
    case (2 x y ys)
    then show ?case using s[of x ys] by auto
  qed simp
qed

text \<open>What Redis holds under a key of the limiter at a time: seconds up to this time.\<close>

definition window_ok :: "int \<Rightarrow> redis_entry option \<Rightarrow> bool" where
  "window_ok tm e \<longleftrightarrow> (case e of None \<Rightarrow> True
     | Some x \<Rightarrow> (case re_value x of SortedSet zs \<Rightarrow> distinct zs \<and> sorted zs \<and> set zs \<subseteq> {0..tm} | Hash _ _ \<Rightarrow> False))"

lemma window_ok_live: "window_ok tm (r k) \<Longrightarrow> window_ok tm (live server r k)"
  by (auto simp: live_def window_ok_def split: option.splits)

lemma window_ok_later: "window_ok tm e \<Longrightarrow> tm \<le> now \<Longrightarrow> window_ok now e"
  by (force simp: window_ok_def split: option.splits redis_value.splits)

lemma sliding_script_allows:
  assumes "window_ok now e" "1 \<le> k" "k < limit" "small limit" "0 \<le> now" "now \<le> 2 ^ 52"
  shows "\<exists>ns e'. sliding_script server now (f64_of_int k) limit e = (Inr ns, Some e') \<and> length ns = 3 \<and> ns ! 0 = 1 \<and> window_ok now (Some e')"
proof -
  define zs where "zs = (case map_option re_value e of Some (SortedSet zs) \<Rightarrow> zs | _ \<Rightarrow> [])"
  have zs: "distinct zs" "sorted zs" "set zs \<subseteq> {0..now}" "\<forall>t l. map_option re_value e \<noteq> Some (Hash t l)"
    using assms(1) by (auto simp: zs_def window_ok_def split: option.splits redis_value.splits)
  have ws: "f64_sub (f64_of_int now) (f64_of_int k) = f64_of_int (now - k)" using assms by (intro sub_small) auto
  define zs1 where "zs1 = filter (\<lambda>x. \<not> (0 \<le> x \<and> f64_le (f64_of_int x) (f64_of_int (now - k)))) zs"
  have eq: "zs1 = filter (\<lambda>x. now - k < x) zs"
    unfolding zs1_def by (rule filter_cong[OF refl]) (use zs(3) assms in \<open>auto simp: subset_iff\<close>)
  have "set zs1 \<subseteq> {now - k + 1..now}" using zs(3) by (auto simp: eq)
  then have "card (set zs1) \<le> nat k" using card_mono[of "{now - k + 1..now}" "set zs1"] by simp
  moreover have d: "distinct zs1" "sorted zs1" using zs by (simp_all add: eq filter_sorted_after)
  ultimately have c: "int (length zs1) \<le> k" using assms(2) by (simp add: distinct_card)
  then have lt: "f64_lt (f64_of_int (int (length zs1))) (f64_of_int limit)" using assms by simp
  have "sliding_script server now (f64_of_int k) limit e =
     (Inr [1, f64_to_int (f64_sub (f64_sub (f64_of_int limit) (f64_of_int (int (length zs1)))) (f64_lit 1)), f64_to_int (f64_add (f64_of_int now) (f64_of_int k))],
      Some \<lparr>re_value = SortedSet (zadd now zs1), re_expires = expire server (f64_ceil (f64_of_int k))\<rparr>)"
    using zs(4) lt unfolding sliding_script_def ws zs_def[symmetric] zs1_def[symmetric] Let_def by (auto split: option.splits redis_value.splits)
  moreover have "window_ok now (Some \<lparr>re_value = SortedSet (zadd now zs1), re_expires = expire server (f64_ceil (f64_of_int k))\<rparr>)"
    using zadd_props[where x = now and zs = zs1] d zs(3) assms(5) by (auto simp: window_ok_def eq)
  ultimately show ?thesis by simp
qed

lemma unix_mono: "s \<le> t \<Longrightarrow> unix s \<le> unix t"
  by (simp add: unix_def second_def zdiv_mono1)

lemma Allow_allows:
  assumes "rl_window rl = k * second" "1 \<le> k" "k < rl_limit rl" "small (rl_limit rl)" "window_ok (unix now) (r (sliding_key rl key))"
    "0 \<le> unix now" "unix now \<le> 2 ^ 52"
  shows "\<exists>x r'. Allow rl None now server key r = (Inr x, r') \<and> rr_Allowed x \<and> window_ok (unix now) (r' (sliding_key rl key))"
proof -
  have sec: "seconds_of (rl_window rl) = f64_of_int k" unfolding assms(1) using assms(2-4) by (intro seconds_whole) auto
  obtain ns e' where s: "sliding_script server (unix now) (f64_of_int k) (rl_limit rl) (live server r (sliding_key rl key)) = (Inr ns, Some e')"
    "length ns = 3" "ns ! 0 = 1" "window_ok (unix now) (Some e')"
    using sliding_script_allows[OF window_ok_live[where server = server and r = r and k = "sliding_key rl key", OF assms(5)] assms(2-4,6,7)] by blast
  then show ?thesis by (simp add: Allow_def run_script_def sec parse_result_def Let_def)
qed

text \<open>Requests of one key one after the other.\<close>

fun sliding_run :: "RedisRateLimiter \<Rightarrow> string \<Rightarrow> (time \<times> time) list \<Rightarrow> redis \<Rightarrow> (redis_error + RateLimitResult) list" where
  "sliding_run rl key [] r = []"
| "sliding_run rl key ((now, server) # ts) r = (case Allow rl None now server key r of (res, r') \<Rightarrow> res # sliding_run rl key ts r')"

lemma sliding_run_allowed:
  assumes "rl_window rl = k * second" "1 \<le> k" "k < rl_limit rl" "small (rl_limit rl)"
    "sorted (map fst calls)" "\<forall>t \<in> set (map fst calls). m \<le> unix t \<and> 0 \<le> unix t \<and> unix t \<le> 2 ^ 52" "window_ok m (r (sliding_key rl key))"
  shows "length (sliding_run rl key calls r) = length calls
    \<and> (\<forall>res \<in> set (sliding_run rl key calls r). \<exists>x. res = Inr x \<and> rr_Allowed x)"
  using assms(5-7)
proof (induction calls arbitrary: r m)
  case (Cons c calls)
  obtain now server where c: "c = (now, server)" by fastforce
  have u: "m \<le> unix now" "0 \<le> unix now" "unix now \<le> 2 ^ 52" using Cons.prems(2) by (simp_all add: c)
  obtain x r' where a: "Allow rl None now server key r = (Inr x, r')" "rr_Allowed x" "window_ok (unix now) (r' (sliding_key rl key))"
    using Allow_allows[where r = r and key = key, OF assms(1-4) window_ok_later[OF Cons.prems(3) u(1)] u(2,3)] by blast
  have "\<forall>t \<in> set (map fst calls). unix now \<le> unix t \<and> 0 \<le> unix t \<and> unix t \<le> 2 ^ 52"
    using Cons.prems(1,2) by (auto simp: c intro!: unix_mono)
  moreover have "sorted (map fst calls)" using Cons.prems(1) by simp
  ultimately show ?case using Cons.IH[where r = r', OF _ _ a(3)] a by (simp add: c)
qed simp

text \<open>C28. A limit that is greater than the number of seconds in the window is no limit: the member added for a request
  is the second it came in, so that requests of one second count once, and every request is allowed.\<close>

theorem limit_counts_seconds:
  assumes "rl_window rl = k * second" "1 \<le> k" "k < rl_limit rl" "small (rl_limit rl)"
    "sorted (map fst calls)" "\<forall>t \<in> set (map fst calls). 0 \<le> unix t \<and> unix t \<le> 2 ^ 52" "r (sliding_key rl key) = None"
  shows "length (sliding_run rl key calls r) = length calls
    \<and> (\<forall>res \<in> set (sliding_run rl key calls r). \<exists>x. res = Inr x \<and> rr_Allowed x)"
  by (rule sliding_run_allowed[where m = 0, OF assms(1-5)]) (use assms(6,7) in \<open>auto simp: window_ok_def\<close>)

section \<open>The token bucket\<close>

text \<open>Rounding errs by less than a part in \<open>2 ^ 52\<close>.\<close>

lemma rhe_error: "\<bar>of_int (rhe q) - q\<bar> \<le> 1"
proof -
  have "rat_of_int \<lfloor>q\<rfloor> \<le> of_int (rhe q)" "rat_of_int (rhe q) \<le> of_int (\<lfloor>q\<rfloor> + 1)" using rhe_bounds[of q] by (simp_all only: of_int_le_iff)
  moreover have "rat_of_int \<lfloor>q\<rfloor> \<le> q" "q < rat_of_int \<lfloor>q\<rfloor> + 1" by linarith+
  ultimately show ?thesis unfolding abs_le_iff of_int_add of_int_1 by linarith
qed

lemma rnd_error:
  assumes "2 powi (- 1000) \<le> r"
  shows "rnd r - r \<le> r / 4503599627370496" "r - rnd r \<le> r / 4503599627370496"
proof -
  have r: "0 < r" using assms powi2_pos[of "- 1000"] by linarith
  then have b: "2 powi (ilog2 r) \<le> r" "r < 2 powi (ilog2 r + 1)" using ilog2_bounds[of r] by simp_all
  have "(2 :: rat) powi (- 1000) < 2 powi (ilog2 r + 1)" using assms b(2) by (rule order_le_less_trans)
  then have "- 1000 < ilog2 r + 1" by (simp only: powi2_less_iff)
  then have e: "ulp_exp r = ilog2 r + (- 52)" by (simp add: ulp_exp_def)
  define u where "u = (2 :: rat) powi ulp_exp r"
  have "u = 2 powi (ilog2 r) / 4503599627370496" unfolding u_def e powi2_add by (simp add: power_int_minus)
  then have u: "0 < u" "u \<le> r / 4503599627370496" using b(1) by (simp_all add: u_def divide_right_mono)
  have d: "rnd r - r = (of_int (rhe (r / u)) - r / u) * u" using u(1) by (simp add: rnd_def u_def[symmetric] Let_def algebra_simps)
  have "\<bar>rnd r - r\<bar> \<le> 1 * u" unfolding d abs_mult using u(1) by (intro mult_mono rhe_error) simp_all
  then show "rnd r - r \<le> r / 4503599627370496" "r - rnd r \<le> r / 4503599627370496" using u(2) by linarith+
qed

definition bucket_sizes :: "int \<Rightarrow> int \<Rightarrow> bool" where
  "bucket_sizes limit k \<longleftrightarrow> 1 \<le> limit \<and> 1 \<le> k \<and> limit * k \<le> 2 ^ 40"

lemma bucket_sizes_each:
  assumes "bucket_sizes limit k"
  shows "1 \<le> limit" "1 \<le> k" "limit * k \<le> 2 ^ 40" "limit \<le> 2 ^ 40" "k \<le> 2 ^ 40"
proof -
  show b: "1 \<le> limit" "1 \<le> k" "limit * k \<le> 2 ^ 40" using assms by (simp_all add: bucket_sizes_def)
  have "limit * 1 \<le> limit * k" "1 * k \<le> limit * k" using b by (intro mult_left_mono mult_right_mono; simp)+
  then show "limit \<le> 2 ^ 40" "k \<le> 2 ^ 40" using b(3) by linarith+
qed

text \<open>The rate of refill, rounded.\<close>

definition rate :: "int \<Rightarrow> int \<Rightarrow> rat" where
  "rate limit k = rnd (of_int limit / of_int k)"

lemma round_positive:
  assumes "2 powi (- 1000) \<le> r" "r \<le> 2 ^ 60"
  shows "f64_round s r = Fin False (rnd r)" "0 < rnd r"
proof -
  have r: "0 < r" using assms(1) powi2_pos[of "- 1000"] by linarith
  have "r - rnd r \<le> r / 4503599627370496" "rnd r - r \<le> r / 4503599627370496" using rnd_error[OF assms(1)] by simp_all
  then show p: "0 < rnd r" using r by linarith
  have "rnd r < 2 ^ 61" using \<open>rnd r - r \<le> r / 4503599627370496\<close> assms(2) by simp
  moreover have "(2 :: rat) ^ 61 \<le> 2 ^ 1024" by (intro power_increasing) simp_all
  ultimately show "f64_round s r = Fin False (rnd r)" using p r by (simp add: f64_round_def Let_def)
qed

lemma tiny: "(1 :: rat) / 2 ^ 41 \<le> r \<Longrightarrow> 2 powi (- 1000) \<le> r"
  using powi2_mono[of "- 1000" "- 41"] by (simp add: power_int_minus)

lemma rate_bounds:
  assumes "bucket_sizes limit k"
  shows "f64_div (f64_of_int limit) (f64_of_int k) = Fin False (rate limit k)" "0 < rate limit k"
    "rate limit k * of_int k \<le> of_int limit + of_int limit / 4503599627370496"
    "of_int limit - of_int limit / 4503599627370496 \<le> rate limit k * of_int k"
    "1 / 2 ^ 41 \<le> rate limit k" "rate limit k \<le> 2 ^ 41"
proof -
  note b = bucket_sizes_each[OF assms]
  let ?L = "rat_of_int limit" and ?k = "rat_of_int k"
  let ?y = "?L / ?k"
  have q: "1 \<le> ?L" "1 \<le> ?k" "?L \<le> 2 ^ 40" "?k \<le> 2 ^ 40" using b by (simp_all only: of_int_1_le_iff) (use b in \<open>simp_all\<close>)
  have y: "1 / 2 ^ 40 \<le> ?y" "?y \<le> 2 ^ 40"
  proof -
    have "1 / 2 ^ 40 \<le> 1 / ?k" using q by (intro divide_left_mono) simp_all
    also have "\<dots> \<le> ?y" using q by (intro divide_right_mono) simp_all
    finally show "1 / 2 ^ 40 \<le> ?y" .
    have "?y \<le> ?L / 1" using q by (intro divide_left_mono) simp_all
    then show "?y \<le> 2 ^ 40" using q by simp
  qed
  have "(1 :: rat) / 2 ^ 41 \<le> 1 / 2 ^ 40" by simp
  then have t: "2 powi (- 1000) \<le> ?y" using y(1) by (intro tiny) (rule order_trans)
  note e = rnd_error[OF t]
  have yk: "?y * ?k = ?L" using q by simp
  have s: "f64_of_int limit = Fin False ?L" "f64_of_int k = Fin False ?k" using b by (simp_all add: of_int_small)
  have "?y \<le> 2 ^ 60" using y(2) by simp
  from round_positive[OF t this] show "f64_div (f64_of_int limit) (f64_of_int k) = Fin False (rate limit k)" "0 < rate limit k"
    unfolding s using q by (simp_all add: rate_def)
  have "(rate limit k - ?y) * ?k \<le> ?y / 4503599627370496 * ?k" "(?y - rate limit k) * ?k \<le> ?y / 4503599627370496 * ?k"
    using e q unfolding rate_def by (intro mult_right_mono; simp)+
  moreover have "?y / 4503599627370496 * ?k = ?L / 4503599627370496" using q by simp
  ultimately show "rate limit k * ?k \<le> ?L + ?L / 4503599627370496" "?L - ?L / 4503599627370496 \<le> rate limit k * ?k"
    unfolding left_diff_distrib yk by linarith+
  define z where "z = ?y"
  have "1 / 1099511627776 \<le> z" "z \<le> 1099511627776" "rnd z - z \<le> z / 4503599627370496" "z - rnd z \<le> z / 4503599627370496"
    using e y by (simp_all only: z_def[symmetric]) simp_all
  then have "1 / 2199023255552 \<le> rnd z" "rnd z \<le> 2199023255552" by linarith+
  then show "1 / 2 ^ 41 \<le> rate limit k" "rate limit k \<le> 2 ^ 41" by (simp_all only: rate_def z_def) simp_all
qed

text \<open>The refill of some seconds is a whole number, and never more than the exact one.\<close>

lemma refill_bound:
  assumes "bucket_sizes limit k" "0 \<le> d" "d \<le> k + 1"
  obtains n where "f64_floor (f64_mul (f64_of_int d) (Fin False (rate limit k))) = f64_of_int n" "0 \<le> n" "k * n \<le> limit * d"
proof (cases "d = 0")
  case True
  then show thesis using that[of 0] by (simp add: f64_round_0)
next
  case False
  then have d: "1 \<le> d" using assms(2) by simp
  note b = bucket_sizes_each[OF assms(1)] and r = rate_bounds[OF assms(1)]
  let ?z = "of_int d * rate limit k"
  have q: "1 \<le> rat_of_int d" "rat_of_int d \<le> 2 ^ 41" using d assms(3) b(5) by simp_all
  have "1 * (1 / 2 ^ 41) \<le> ?z" using q r(5) by (intro mult_mono) simp_all
  then have t: "2 powi (- 1000) \<le> ?z" by (intro tiny) simp
  have N: "limit * d \<le> 2 ^ 41"
  proof -
    have "limit * d \<le> limit * (k + 1)" using b(1) assms(3) by (intro mult_left_mono) simp_all
    then show ?thesis using b(3,4) by (simp add: algebra_simps)
  qed
  have zk: "?z * of_int k \<le> of_int (limit * d) + of_int (limit * d) / 4503599627370496"
  proof -
    have "of_int d * (rate limit k * of_int k) \<le> of_int d * (of_int limit + of_int limit / 4503599627370496)"
      using r(3) q by (intro mult_left_mono) simp_all
    then show ?thesis by (simp add: algebra_simps)
  qed
  have "?z * 1 \<le> ?z * of_int k" using b(2) q r(2) by (intro mult_left_mono) simp_all
  moreover have N': "rat_of_int (limit * d) \<le> 2 ^ 41" using N by (metis of_int_le_iff of_int_numeral of_int_power)
  moreover have "rat_of_int (limit * d) \<le> 2199023255552" using N' by simp
  ultimately have "?z \<le> 1152921504606846976" using zk by linarith
  then have "?z \<le> 2 ^ 60" by simp
  note rp = round_positive[OF t this]
  have s: "f64_of_int d = Fin False (of_int d)" using d assms(3) b(5) by (simp add: of_int_small)
  have m: "f64_mul (f64_of_int d) (Fin False (rate limit k)) = Fin False (rnd ?z)" unfolding s by (simp add: rp(1))
  let ?n = "\<lfloor>rnd ?z\<rfloor>"
  have "f64_floor (Fin False (rnd ?z)) = f64_of_int ?n" by simp
  moreover have "0 \<le> ?n" using rp(2) by simp
  moreover have "k * ?n \<le> limit * d"
  proof -
    have "rat_of_int ?n * of_int k \<le> rnd ?z * of_int k" using b(2) by (intro mult_right_mono) simp_all
    moreover have "(rnd ?z - ?z) * of_int k \<le> ?z / 4503599627370496 * of_int k" using rnd_error(1)[OF t] b(2) by (intro mult_right_mono) simp_all
    moreover have "?z / 4503599627370496 * of_int k = ?z * of_int k / 4503599627370496" by simp
    ultimately have "rat_of_int ?n * of_int k \<le> ?z * of_int k + ?z * of_int k / 4503599627370496" by (simp add: left_diff_distrib)
    moreover have "rat_of_int (limit * d) \<le> 2199023255552" using N' by simp
    ultimately have "rat_of_int ?n * of_int k < of_int (limit * d) + 1" using zk by linarith
    then have "rat_of_int (k * ?n) < of_int (limit * d + 1)" by (simp add: mult.commute)
    then have "k * ?n < limit * d + 1" by (simp only: of_int_less_iff)
    then show ?thesis by simp
  qed
  ultimately show thesis using that m by simp
qed

text \<open>An entry lives for the window, or one second longer.\<close>

lemma expiry_bound:
  assumes "bucket_sizes limit k"
  obtains w where "expire tm (f64_ceil (f64_div (f64_mul (f64_lit 1) (f64_of_int limit)) (Fin False (rate limit k)))) = Some (tm + w * second)"
    "k \<le> w" "w \<le> k + 1"
proof -
  note b = bucket_sizes_each[OF assms] and r = rate_bounds[OF assms]
  let ?L = "rat_of_int limit" and ?k = "rat_of_int k" and ?w = "of_int limit / rate limit k"
  have q: "1 \<le> ?L" "1 \<le> ?k" "?k \<le> 2 ^ 40" using b by simp_all
  have wr: "?w * rate limit k = ?L" using r(2) by simp
  have lo: "?k \<le> ?w + ?w / 4503599627370496"
  proof -
    have "?k * rate limit k \<le> (?w + ?w / 4503599627370496) * rate limit k"
      using r(3) wr by (simp add: ring_distribs mult.commute)
    then show ?thesis using r(2) by (rule mult_right_le_imp_le)
  qed
  have hi: "?w - ?w / 4503599627370496 \<le> ?k"
  proof -
    have "(?w - ?w / 4503599627370496) * rate limit k \<le> ?k * rate limit k"
      using r(4) wr by (simp add: ring_distribs mult.commute)
    then show ?thesis using r(2) by (rule mult_right_le_imp_le)
  qed
  have "1 / 2 ^ 41 \<le> ?w" using lo q by simp
  then have t: "2 powi (- 1000) \<le> ?w" by (rule tiny)
  have "?w \<le> 2 ^ 60" using hi q by simp
  note rp = round_positive[OF t this]
  have y: "?k - 1 < rnd ?w" "rnd ?w \<le> ?k + 1" using rnd_error[OF t] lo hi q by simp_all
  let ?c = "\<lceil>rnd ?w\<rceil>"
  have c: "k \<le> ?c" "?c \<le> k + 1" using y by (simp_all add: le_ceiling_iff ceiling_le_iff)
  have one: "f64_mul (f64_lit 1) (f64_of_int limit) = Fin False ?L" using mul_small[of 1 limit] b unfolding lit_one_int by (simp add: of_int_small)
  have "f64_ceil (f64_div (f64_mul (f64_lit 1) (f64_of_int limit)) (Fin False (rate limit k))) = f64_of_int ?c"
    unfolding one using r(2) rp(1) c b(2) by simp
  then show thesis using that[of ?c] c b by (simp add: expire_def)
qed

text \<open>What Redis holds under a key of the limiter. The credit of an entry are the tokens available at a time, counted in parts
  of a token, of which a request costs \<open>k\<close> and a second earns \<open>limit\<close>.\<close>

definition bucket_ok :: "int \<Rightarrow> int \<Rightarrow> time \<Rightarrow> redis_entry option \<Rightarrow> bool" where
  "bucket_ok limit k tm e \<longleftrightarrow> (case e of None \<Rightarrow> True
     | Some x \<Rightarrow> \<exists>tok rf w. re_value x = Hash (f64_of_int tok) (f64_of_int (unix rf)) \<and> 0 \<le> tok \<and> tok \<le> limit \<and> 0 \<le> unix rf \<and> rf \<le> tm
         \<and> k \<le> w \<and> w \<le> k + 1 \<and> re_expires x = Some (rf + w * second))"

definition unexpired :: "time \<Rightarrow> redis_entry option \<Rightarrow> bool" where
  "unexpired tm e \<longleftrightarrow> (case e of None \<Rightarrow> True | Some x \<Rightarrow> pred_option (\<lambda>t. tm < t) (re_expires x))"

definition credit :: "int \<Rightarrow> int \<Rightarrow> time \<Rightarrow> redis_entry option \<Rightarrow> int" where
  "credit limit k tm e = (case e of
       Some x \<Rightarrow> (case re_value x of Hash t l \<Rightarrow> min (limit * k) (k * f64_to_int t + limit * (unix tm - f64_to_int l)) | SortedSet _ \<Rightarrow> limit * k)
     | None \<Rightarrow> limit * k)"

lemma live_unexpired: "unexpired tm (live tm r key)"
  by (auto simp: live_def unexpired_def split: option.splits)

lemma unix_add: "unix (t + w * second) = unix t + w"
  by (simp add: unix_def second_def)

lemma bucket_state:
  assumes "bucket_sizes limit k" "bucket_ok limit k tm e" "unexpired tm e" "0 \<le> unix tm" "unix tm \<le> 2 ^ 33"
  obtains tok l where "0 \<le> tok" "tok \<le> limit" "0 \<le> l" "l \<le> unix tm" "unix tm - l \<le> k + 1"
    "(case map_option re_value e of Some (Hash t l) \<Rightarrow> (t, l) | _ \<Rightarrow> (f64_of_int limit, f64_of_int (unix tm))) = (f64_of_int tok, f64_of_int l)"
    "credit limit k tm e = min (limit * k) (k * tok + limit * (unix tm - l))" "\<forall>zs. map_option re_value e \<noteq> Some (SortedSet zs)"
proof (cases e)
  case None
  then show thesis using that[of limit "unix tm"] assms(4) bucket_sizes_each[OF assms(1)] by (simp add: credit_def mult.commute)
next
  case (Some x)
  then obtain tok rf w where x: "re_value x = Hash (f64_of_int tok) (f64_of_int (unix rf))" "0 \<le> tok" "tok \<le> limit" "0 \<le> unix rf" "rf \<le> tm"
    "w \<le> k + 1" "re_expires x = Some (rf + w * second)"
    using assms(2) by (auto simp: bucket_ok_def)
  have u: "unix rf \<le> unix tm" by (rule unix_mono[OF x(5)])
  have "tm \<le> rf + w * second" using assms(3) Some x(7) by (simp add: unexpired_def)
  then have "unix tm \<le> unix rf + w" unfolding unix_add[symmetric] by (rule unix_mono)
  moreover have "f64_to_int (f64_of_int tok) = tok" "f64_to_int (f64_of_int (unix rf)) = unix rf"
    using x u assms(5) bucket_sizes_each[OF assms(1)] by (intro to_int_small; simp)+
  ultimately show thesis using that[of tok "unix rf"] x u Some by (simp add: credit_def)
qed

lemma bucket_script_result:
  assumes sz: "bucket_sizes limit k" and e: "bucket_ok limit k tm e" "unexpired tm e" and t: "0 \<le> unix tm" "unix tm \<le> 2 ^ 33"
  shows "\<exists>ns e'. bucket_script tm (unix tm) limit (Fin False (rate limit k)) (f64_lit 1) e = (Inr ns, e') \<and> 3 \<le> length ns
    \<and> bucket_ok limit k tm e' \<and> credit limit k tm e' + (if ns ! 0 = 1 then k else 0) \<le> credit limit k tm e \<and> 0 \<le> credit limit k tm e'"
proof -
  note b = bucket_sizes_each[OF sz]
  obtain tok l where st: "0 \<le> tok" "tok \<le> limit" "0 \<le> l" "l \<le> unix tm" "unix tm - l \<le> k + 1"
    and parts: "(case map_option re_value e of Some (Hash t l) \<Rightarrow> (t, l) | _ \<Rightarrow> (f64_of_int limit, f64_of_int (unix tm))) = (f64_of_int tok, f64_of_int l)"
    and cr: "credit limit k tm e = min (limit * k) (k * tok + limit * (unix tm - l))" and hash: "\<forall>zs. map_option re_value e \<noteq> Some (SortedSet zs)"
    using bucket_state[OF sz e t] by blast
  let ?d = "unix tm - l"
  obtain n where n: "f64_floor (f64_mul (f64_of_int ?d) (Fin False (rate limit k))) = f64_of_int n" "0 \<le> n" "k * n \<le> limit * ?d"
    using refill_bound[OF sz, of ?d] st by auto
  obtain w where w: "expire tm (f64_ceil (f64_div (f64_mul (f64_lit 1) (f64_of_int limit)) (Fin False (rate limit k)))) = Some (tm + w * second)"
    "k \<le> w" "w \<le> k + 1" using expiry_bound[OF sz] by blast
  have small_n: "n \<le> 2 ^ 41"
  proof -
    have "1 * n \<le> k * n" using b(2) n(2) by (intro mult_right_mono) simp_all
    moreover have "limit * ?d \<le> limit * (k + 1)" using b(1) st(5) by (intro mult_left_mono) simp_all
    ultimately show ?thesis using n(3) b(3,4) by (simp add: algebra_simps)
  qed
  let ?a = "min limit (tok + n)"
  have a: "0 \<le> ?a" "?a \<le> limit" using st n(2) b(1) by simp_all
  have ka: "k * ?a \<le> credit limit k tm e"
  proof -
    have "k * ?a \<le> k * limit" "k * ?a \<le> k * (tok + n)" using b(2) by (intro mult_left_mono; simp)+
    then show ?thesis unfolding cr using n(3) by (simp add: algebra_simps)
  qed
  have d: "f64_sub (f64_of_int (unix tm)) (f64_of_int l) = f64_of_int ?d" using st t by (intro sub_small) auto
  have d1: "f64_div (f64_of_int ?d) (f64_lit 1) = f64_of_int ?d" using div_small[of ?d 1] st b(5) unfolding lit_one_int by simp
  have s1: "f64_add (f64_of_int tok) (f64_of_int n) = f64_of_int (tok + n)" using st n(2) small_n b(4) by (intro add_small) auto
  have mn: "lua_min (f64_of_int limit) (f64_of_int (tok + n)) = f64_of_int ?a"
    unfolding lua_min_def using st n(2) small_n b(1,4) by (subst lt_small) (auto simp: min_def)
  have ge: "f64_ge (f64_of_int ?a) (f64_lit 1) \<longleftrightarrow> 1 \<le> ?a" unfolding lit_one_int using a b(4) by (intro le_small) auto
  have script: "bucket_script tm (unix tm) limit (Fin False (rate limit k)) (f64_lit 1) e =
      (if 1 \<le> ?a then (Inr [1, f64_to_int (f64_sub (f64_of_int ?a) (f64_lit 1)), f64_to_int (f64_add (f64_of_int (unix tm)) (f64_lit 1))],
          Some \<lparr>re_value = Hash (f64_sub (f64_of_int ?a) (f64_lit 1)) (f64_of_int (unix tm)), re_expires = Some (tm + w * second)\<rparr>)
       else (Inr [0, f64_to_int (f64_of_int ?a), f64_to_int (f64_add (f64_of_int (unix tm)) (f64_lit 1)),
          f64_to_int (f64_ceil (f64_div (f64_mul (f64_sub (f64_lit 1) (f64_of_int ?a)) (f64_lit 1)) (Fin False (rate limit k))))], e))"
    using hash unfolding bucket_script_def parts prod.case Let_def d d1 n(1) s1 mn ge w(1)
    by (auto split: option.splits redis_value.splits)
  show ?thesis
  proof (cases "1 \<le> ?a")
    case True
    have s2: "f64_sub (f64_of_int ?a) (f64_lit 1) = f64_of_int (?a - 1)" unfolding lit_one_int using a b(4) True by (intro sub_small) auto
    have i: "f64_to_int (f64_of_int (?a - 1)) = ?a - 1" "f64_to_int (f64_of_int (unix tm)) = unix tm" using a b(4) True t by (intro to_int_small; simp)+
    let ?e = "Some \<lparr>re_value = Hash (f64_of_int (?a - 1)) (f64_of_int (unix tm)), re_expires = Some (tm + w * second)\<rparr>"
    have "bucket_ok limit k tm ?e" using True a t w(2,3) unfolding bucket_ok_def option.case
      by (intro exI[of _ "?a - 1"] exI[of _ tm] exI[of _ w]) auto
    moreover have c: "credit limit k tm ?e = min (limit * k) (k * (?a - 1))" by (simp only: credit_def option.case redis_entry.select_convs redis_value.case i) simp
    have "k * (?a - 1) = k * ?a - k" by (simp add: right_diff_distrib)
    then have "credit limit k tm ?e + k \<le> credit limit k tm e" unfolding c using ka by linarith
    moreover have "0 \<le> credit limit k tm ?e" unfolding c using b True by simp
    ultimately show ?thesis unfolding script s2 using True by simp
  next
    case False
    have "0 \<le> k * tok" "0 \<le> limit * ?d" "0 \<le> limit * k" using b st by simp_all
    then have "0 \<le> credit limit k tm e" unfolding cr by simp
    then show ?thesis using script[unfolded if_not_P[OF False]] e(1) by simp
  qed
qed

lemma credit_later:
  assumes "bucket_sizes limit k" "bucket_ok limit k s (r key)" "s \<le> t" "0 \<le> unix s" "unix t \<le> 2 ^ 33"
  shows "bucket_ok limit k t (live t r key)" "credit limit k t (live t r key) \<le> credit limit k s (r key) + limit * (unix t - unix s)"
proof -
  note b = bucket_sizes_each[OF assms(1)]
  have u: "unix s \<le> unix t" by (rule unix_mono[OF assms(3)])
  have nn: "0 \<le> limit * (unix t - unix s)" using b u by simp
  have "bucket_ok limit k t (live t r key) \<and> credit limit k t (live t r key) \<le> credit limit k s (r key) + limit * (unix t - unix s)"
  proof (cases "r key")
    case None
    then show ?thesis using nn by (simp add: live_def bucket_ok_def credit_def)
  next
    case (Some x)
    then obtain tok rf w where x: "re_value x = Hash (f64_of_int tok) (f64_of_int (unix rf))" "0 \<le> tok" "tok \<le> limit" "0 \<le> unix rf" "rf \<le> s"
      "k \<le> w" "w \<le> k + 1" "re_expires x = Some (rf + w * second)"
      using assms(2) by (auto simp: bucket_ok_def)
    have ua: "unix rf \<le> unix s" by (rule unix_mono[OF x(5)])
    have i: "f64_to_int (f64_of_int tok) = tok" "f64_to_int (f64_of_int (unix rf)) = unix rf"
      using x ua u assms(5) b by (intro to_int_small; simp)+
    have cs: "credit limit k s (r key) = min (limit * k) (k * tok + limit * (unix s - unix rf))" using Some x i by (simp add: credit_def)
    have sum: "limit * (unix s - unix rf) + limit * (unix t - unix s) = limit * (unix t - unix rf)" by (simp add: algebra_simps)
    show ?thesis
    proof (cases "rf + w * second \<le> t")
      case True
      have "k \<le> unix t - unix rf" using unix_mono[OF True] x(6) unfolding unix_add by simp
      then have "limit * k \<le> limit * (unix t - unix rf)" using b by (intro mult_left_mono) auto
      moreover have "0 \<le> k * tok" using b x by simp
      ultimately show ?thesis using True Some x cs sum nn by (simp add: live_def bucket_ok_def credit_def)
    next
      case False
      have "live t r key = Some x" using False Some x(8) by (simp add: live_def)
      moreover have "bucket_ok limit k t (Some x)" using x assms(3) unfolding bucket_ok_def option.case
        by (intro exI[of _ tok] exI[of _ rf] exI[of _ w]) auto
      moreover have "credit limit k t (Some x) = min (limit * k) (k * tok + limit * (unix t - unix rf))" using x i by (simp add: credit_def)
      ultimately show ?thesis using cs sum nn by simp
    qed
  qed
  then show "bucket_ok limit k t (live t r key)" "credit limit k t (live t r key) \<le> credit limit k s (r key) + limit * (unix t - unix s)" by blast+
qed

text \<open>Requests one after the other, with the clock of the server as the only clock.\<close>

fun bucket_run :: "RedisRateLimiter \<Rightarrow> string \<Rightarrow> time list \<Rightarrow> redis \<Rightarrow> (redis_error + RateLimitResult) list" where
  "bucket_run rl key [] r = []"
| "bucket_run rl key (t # ts) r = (case AllowTokenBucket rl None t t key r of (res, r') \<Rightarrow> res # bucket_run rl key ts r')"

definition allowed :: "redis_error + RateLimitResult \<Rightarrow> bool" where
  "allowed res \<longleftrightarrow> (case res of Inl _ \<Rightarrow> False | Inr x \<Rightarrow> rr_Allowed x)"

lemma AllowTokenBucket_result:
  assumes "bucket_sizes (rl_limit rl) k" "rl_window rl = k * second" "bucket_ok (rl_limit rl) k s (r (bucket_key rl key))" "s \<le> t" "0 \<le> unix s" "unix t \<le> 2 ^ 33"
  shows "\<exists>x r'. AllowTokenBucket rl None t t key r = (Inr x, r') \<and> bucket_ok (rl_limit rl) k t (r' (bucket_key rl key))
    \<and> credit (rl_limit rl) k t (r' (bucket_key rl key)) + (if rr_Allowed x then k else 0)
        \<le> credit (rl_limit rl) k s (r (bucket_key rl key)) + rl_limit rl * (unix t - unix s)
    \<and> 0 \<le> credit (rl_limit rl) k t (r' (bucket_key rl key))"
proof -
  note b = bucket_sizes_each[OF assms(1)]
  let ?e = "live t r (bucket_key rl key)"
  note later = credit_later[where r = r and key = "bucket_key rl key", OF assms(1,3-6)]
  have u: "0 \<le> unix t" using unix_mono[OF assms(4)] assms(5) by simp
  have sec: "seconds_of (rl_window rl) = f64_of_int k" unfolding assms(2) using b by (intro seconds_whole) auto
  have rate: "f64_div (f64_of_int (rl_limit rl)) (seconds_of (rl_window rl)) = Fin False (rate (rl_limit rl) k)"
    unfolding sec by (rule rate_bounds(1)[OF assms(1)])
  obtain ns e' where s: "bucket_script t (unix t) (rl_limit rl) (Fin False (rate (rl_limit rl) k)) (f64_lit 1) ?e = (Inr ns, e')" "3 \<le> length ns"
    "bucket_ok (rl_limit rl) k t e'" "credit (rl_limit rl) k t e' + (if ns ! 0 = 1 then k else 0) \<le> credit (rl_limit rl) k t ?e" "0 \<le> credit (rl_limit rl) k t e'"
    using bucket_script_result[OF assms(1) later(1) live_unexpired u assms(6)] by blast
  let ?x = "\<lparr>rr_Allowed = (ns ! 0 = 1), rr_Remaining = ns ! 1, rr_ResetTime = ns ! 2 * second, rr_TotalLimit = rl_limit rl,
       rr_RetryAfter = (if 4 \<le> length ns then i64 (ns ! 3 * second) else 0)\<rparr>"
  have "AllowTokenBucket rl None t t key r = (Inr ?x, (live t r)(bucket_key rl key := e'))"
    using s(1,2) by (simp add: AllowTokenBucket_def run_script_def rate parse_result_def Let_def)
  then show ?thesis using s(3-5) later(2)
    by (intro exI[of _ ?x] exI[of _ "(live t r)(bucket_key rl key := e')"]) simp
qed

lemma bucket_run_bound:
  assumes "bucket_sizes (rl_limit rl) k" "rl_window rl = k * second" "bucket_ok (rl_limit rl) k s (r (bucket_key rl key))" "0 \<le> unix s"
    "sorted (s # ts)" "\<forall>t \<in> set ts. unix t \<le> 2 ^ 33" "0 \<le> credit (rl_limit rl) k s (r (bucket_key rl key))"
  shows "int (length (filter allowed (bucket_run rl key ts r))) * k
    \<le> credit (rl_limit rl) k s (r (bucket_key rl key)) + rl_limit rl * (unix (last (s # ts)) - unix s)"
  using assms(3-7)
proof (induction ts arbitrary: r s)
  case (Cons t ts)
  let ?c = "credit (rl_limit rl) k"
  obtain x r' where a: "AllowTokenBucket rl None t t key r = (Inr x, r')" "bucket_ok (rl_limit rl) k t (r' (bucket_key rl key))"
    "?c t (r' (bucket_key rl key)) + (if rr_Allowed x then k else 0) \<le> ?c s (r (bucket_key rl key)) + rl_limit rl * (unix t - unix s)"
    "0 \<le> ?c t (r' (bucket_key rl key))"
    using AllowTokenBucket_result[where r = r and key = key and t = t, OF assms(1,2) Cons.prems(1) _ Cons.prems(2)] Cons.prems(3,4) by auto
  have "0 \<le> unix t" using unix_mono[of s t] Cons.prems(2,3) by simp
  from Cons.IH[where r = r', OF a(2) this _ _ a(4)] Cons.prems(3,4)
  have ih: "int (length (filter allowed (bucket_run rl key ts r'))) * k \<le> ?c t (r' (bucket_key rl key)) + rl_limit rl * (unix (last (t # ts)) - unix t)" by simp
  have sum: "rl_limit rl * (unix t - unix s) + rl_limit rl * (unix (last (t # ts)) - unix t) = rl_limit rl * (unix (last (t # ts)) - unix s)"
    by (simp add: algebra_simps)
  have run: "bucket_run rl key (t # ts) r = Inr x # bucket_run rl key ts r'" using a(1) by simp
  define d where "d = (if rr_Allowed x then k else 0)"
  have len: "int (length (filter allowed (bucket_run rl key (t # ts) r))) * k
      = int (length (filter allowed (bucket_run rl key ts r'))) * k + d"
    unfolding run d_def by (simp add: allowed_def algebra_simps)
  have "last (s # t # ts) = last (t # ts)" by simp
  then show ?case unfolding len using ih a(3)[folded d_def] sum by simp
qed simp


text \<open>\<open>Reset\<close> forgets the window of a key, but not its bucket.\<close>

lemma reset_keeps_bucket: "snd (Reset rl None key r) (bucket_key rl key) = r (bucket_key rl key)"
  by (simp add: Reset_def sliding_key_def bucket_key_def)

section \<open>Instances\<close>

theorem limit_counts_seconds_witness:
  "list_all (\<lambda>res. case res of Inr x \<Rightarrow> rr_Allowed x | Inl _ \<Rightarrow> False)
     (sliding_run (NewRedisRateLimiter ''rl'' 100 (60 * second)) ''u'' (replicate 500 (1700000000 * second, 1700000000 * second)) Map.empty)"
proof -
  let ?rl = "NewRedisRateLimiter ''rl'' 100 (60 * second)" and ?c = "replicate 500 (1700000000 * second, 1700000000 * second)"
  have "unix (1700000000 * second) = 1700000000" by (simp add: unix_def second_def)
  then have "\<forall>res \<in> set (sliding_run ?rl ''u'' ?c Map.empty). \<exists>x. res = Inr x \<and> rr_Allowed x"
    using limit_counts_seconds[of ?rl 60 ?c Map.empty "''u''"] by (simp add: NewRedisRateLimiter_def)
  then show ?thesis unfolding list_all_iff by fastforce
qed


end
