(* ===== verification/Subscribers.thy ===== *)
theory Subscribers
  imports Milenage Gorm Float64
begin

text \<open>
  Subscribers of the API server (\<open>apps/api-server/internal\<close>: \<open>models/subscriber.go\<close>, \<open>database/crud.go\<close>,
  \<open>database/database.go\<close> and \<open>services/subscriber_*.go\<close>): IMSI allocation, creation and life cycle, eSIM
  profiles, balances and payment methods. The database is a record of the tables of \<open>Gorm\<close>; the ES2+ server
  and the AMF are parameters that answer with an error or not. Associations that are preloaded are not
  modelled, nor the fields no operation reads; \<open>now\<close> are readings of the clock.
\<close>

section \<open>Rows\<close>

type_synonym SubscriberStatus = string
type_synonym ProfileStatus = string
type_synonym SessionStatus = string

abbreviation SubscriberStatusActive :: SubscriberStatus where "SubscriberStatusActive \<equiv> ''active''"
abbreviation SubscriberStatusInactive :: SubscriberStatus where "SubscriberStatusInactive \<equiv> ''inactive''"
abbreviation SubscriberStatusSuspended :: SubscriberStatus where "SubscriberStatusSuspended \<equiv> ''suspended''"
abbreviation SubscriberStatusTerminated :: SubscriberStatus where "SubscriberStatusTerminated \<equiv> ''terminated''"
abbreviation ProfileStatusInactive :: ProfileStatus where "ProfileStatusInactive \<equiv> ''inactive''"
abbreviation ProfileStatusActive :: ProfileStatus where "ProfileStatusActive \<equiv> ''active''"
abbreviation ProfileStatusDownloading :: ProfileStatus where "ProfileStatusDownloading \<equiv> ''downloading''"
abbreviation SessionStatusInactive :: SessionStatus where "SessionStatusInactive \<equiv> ''inactive''"

record Subscriber =
  sb_ID :: int
  sb_IMSI :: string
  sb_MSISDN :: string
  sb_FirstName :: string
  sb_LastName :: string
  sb_Email :: string
  sb_OrganizationID :: string
  sb_Status :: SubscriberStatus
  sb_PlanID :: int
  sb_Balance :: f64
  sb_AuthKey :: string
  sb_OPc :: string
  sb_SQN :: int
  sb_ServingPLMN :: "string \<times> string"
  sb_EUICCID :: string
  sb_ProfileID :: string
  sb_ProfileStatus :: ProfileStatus

record Session =
  ss_ID :: int
  ss_SubscriberID :: int
  ss_SessionID :: string
  ss_Status :: SessionStatus
  ss_EndTime :: "time option"

record IMSIAllocation =
  ia_ID :: int
  ia_LastIMSI :: int
  ia_MinIMSI :: int
  ia_MaxIMSI :: int

record PaymentMethod =
  pm_ID :: string
  pm_SubscriberID :: int
  pm_GatewayID :: string
  pm_Type :: string
  pm_CustomerID :: string
  pm_Last4 :: string
  pm_Brand :: string
  pm_ExpiryMonth :: int
  pm_ExpiryYear :: int
  pm_IsDefault :: bool
  pm_CreatedAt :: time

record CreateSubscriberRequest =
  cs_MSISDN :: string
  cs_FirstName :: string
  cs_LastName :: string
  cs_Email :: string
  cs_OrganizationID :: string
  cs_PlanID :: int
  cs_EUICCID :: string

record UpdateSubscriberRequest =
  us_FirstName :: "string option"
  us_LastName :: "string option"
  us_Email :: "string option"
  us_Status :: SubscriberStatus
  us_PlanID :: "int option"

record ListSubscribersRequest =
  ls_Cursor :: string
  ls_Limit :: int
  ls_Status :: SubscriberStatus
  ls_OrganizationID :: string
  ls_Search :: string

record ListSubscribersResponse =
  lr_Subscribers :: "Subscriber list"
  lr_NextCursor :: string
  lr_HasMore :: bool

text \<open>The database: its tables, whether a service plan is stored, an assignment to a column that no table
  has, and the statement that increments a sequence number and returns it.\<close>

record 's sub_db =
  sd_subs :: "(Subscriber, 's) table"
  sd_sessions :: "(Session, 's) table"
  sd_alloc :: "(IMSIAllocation, 's) table"
  sd_methods :: "(PaymentMethod, 's) table"
  sd_alerts :: "(int \<times> string, 's) table"
  sd_plan_stored :: "int \<Rightarrow> 's \<Rightarrow> bool"
  sd_unknown_column :: "string \<Rightarrow> 's \<Rightarrow> string option \<times> 's"
  sd_increment :: "int \<Rightarrow> 's \<Rightarrow> (string + int) \<times> 's"

datatype sub_error =
    DbFailed string | NotFound | RangeExhausted int | KeysFailed auth_error | InvalidEID nat | NoEUICC | ES2Failed string
  | NoActiveProfile | TokenFailed string | OnlyPaymentMethod

section \<open>Queries\<close>

definition first_of :: "string + 'row option \<Rightarrow> sub_error + 'row" where
  "first_of res = (case res of Inl e \<Rightarrow> Inl (DbFailed e) | Inr None \<Rightarrow> Inl NotFound | Inr (Some r) \<Rightarrow> Inr r)"

fun done_by :: "string option \<times> 's \<Rightarrow> sub_error option \<times> 's" where
  "done_by (e, s) = (map_option DbFailed e, s)"

definition db_GetSubscriber :: "'s sub_db \<Rightarrow> int \<Rightarrow> 's \<Rightarrow> sub_error + Subscriber" where
  "db_GetSubscriber db i s = first_of (tb_first (sd_subs db) (\<lambda>r. sb_ID r = i) (\<lambda>r. - sb_ID r) s)"

definition db_GetSubscriberByIMSI :: "'s sub_db \<Rightarrow> string \<Rightarrow> 's \<Rightarrow> sub_error + Subscriber" where
  "db_GetSubscriberByIMSI db imsi s = first_of (tb_first (sd_subs db) (\<lambda>r. sb_IMSI r = imsi) (\<lambda>r. - sb_ID r) s)"

definition db_UpdateSubscriber :: "'s sub_db \<Rightarrow> Subscriber \<Rightarrow> 's \<Rightarrow> sub_error option \<times> 's" where
  "db_UpdateSubscriber db sub s = done_by (tb_save (sd_subs db) sub s)"

text \<open>The query compares the numeric key of the subscriber with the IMSI.\<close>

definition GetActiveSessionsByIMSI :: "'s sub_db \<Rightarrow> string \<Rightarrow> 's \<Rightarrow> sub_error + Session list" where
  "GetActiveSessionsByIMSI db imsi s =
     map_sum DbFailed id (tb_find (sd_sessions db) (\<lambda>r. show_int (ss_SubscriberID r) = imsi \<and> ss_Status r = ''active'') (\<lambda>r. - ss_ID r) None None s)"

definition UpdateSession :: "'s sub_db \<Rightarrow> Session \<Rightarrow> 's \<Rightarrow> sub_error option \<times> 's" where
  "UpdateSession db r s = done_by (tb_save (sd_sessions db) r s)"

definition GetIMSIAllocation :: "'s sub_db \<Rightarrow> 's \<Rightarrow> sub_error + IMSIAllocation" where
  "GetIMSIAllocation db s = first_of (tb_first (sd_alloc db) (\<lambda>_. True) (\<lambda>r. - ia_ID r) s)"

definition UpdateIMSIAllocation :: "'s sub_db \<Rightarrow> IMSIAllocation \<Rightarrow> 's \<Rightarrow> sub_error option \<times> 's" where
  "UpdateIMSIAllocation db a s = done_by (tb_save (sd_alloc db) a s)"

definition InitializeIMSIAllocation :: "'s sub_db \<Rightarrow> int \<Rightarrow> 's \<Rightarrow> sub_error option \<times> 's" where
  "InitializeIMSIAllocation db newid s = (case GetIMSIAllocation db s of
       Inr _ \<Rightarrow> (None, s)
     | Inl NotFound \<Rightarrow> done_by (tb_create (sd_alloc db) \<lparr>ia_ID = newid, ia_LastIMSI = 0, ia_MinIMSI = 1, ia_MaxIMSI = 999999999\<rparr> s)
     | Inl e \<Rightarrow> (Some e, s))"

text \<open>A case insensitive search of a text in four columns.\<close>

definition occurs_in :: "string \<Rightarrow> string \<Rightarrow> bool" where
  "occurs_in text s \<longleftrightarrow> (\<exists>pre suf. to_lower s = pre @ to_lower text @ suf)"

definition cursor_matches :: "string \<Rightarrow> string \<Rightarrow> string \<Rightarrow> string \<Rightarrow> Subscriber \<Rightarrow> bool" where
  "cursor_matches cursor status org search r \<longleftrightarrow> (status = '''' \<or> sb_Status r = status) \<and> (org = '''' \<or> sb_OrganizationID r = org)
     \<and> (search = '''' \<or> occurs_in search (sb_FirstName r) \<or> occurs_in search (sb_LastName r) \<or> occurs_in search (sb_Email r) \<or> occurs_in search (sb_MSISDN r))
     \<and> (cursor = '''' \<or> sb_ID r < read_nat cursor)"

definition ListSubscribersCursor ::
  "'s sub_db \<Rightarrow> string \<Rightarrow> int \<Rightarrow> string \<Rightarrow> string \<Rightarrow> string \<Rightarrow> 's \<Rightarrow> sub_error + (Subscriber list \<times> string \<times> bool)" where
  "ListSubscribersCursor db cursor n status org search s =
     (case tb_find (sd_subs db) (cursor_matches cursor status org search) sb_ID (Some (n + 1)) None s of
        Inl e \<Rightarrow> Inl (DbFailed e)
      | Inr subs \<Rightarrow>
          let hasMore = n < int (length subs); subs' = (if hasMore then take (nat n) subs else subs)
          in Inr (subs', if subs' = [] then '''' else show_int (sb_ID (last subs')), hasMore))"

section \<open>IMSI allocation\<close>

text \<open>\<open>%010d\<close>.\<close>

definition pad10 :: "int \<Rightarrow> string" where
  "pad10 n = replicate (10 - length (show_int n)) CHR ''0'' @ show_int n"

definition imsi_text :: "string \<Rightarrow> int \<Rightarrow> string" where
  "imsi_text prefix n = prefix @ pad10 n"

text \<open>What is written after the allocation has been read.\<close>

definition next_allocation :: "IMSIAllocation \<Rightarrow> IMSIAllocation" where
  "next_allocation a = a\<lparr>ia_LastIMSI := u64 (ia_LastIMSI a + 1)\<rparr>"

definition store_allocation :: "'s sub_db \<Rightarrow> string \<Rightarrow> IMSIAllocation \<Rightarrow> 's \<Rightarrow> (sub_error + string) \<times> 's" where
  "store_allocation db prefix a s =
     (if ia_MaxIMSI a \<le> ia_LastIMSI a then (Inl (RangeExhausted (ia_MaxIMSI a)), s)
      else case UpdateIMSIAllocation db (next_allocation a) s of
          (Some e, s') \<Rightarrow> (Inl e, s')
        | (None, s') \<Rightarrow> (Inr (imsi_text prefix (ia_LastIMSI (next_allocation a))), s'))"

definition allocateIMSI :: "'s sub_db \<Rightarrow> string \<Rightarrow> 's \<Rightarrow> (sub_error + string) \<times> 's" where
  "allocateIMSI db prefix s = (case GetIMSIAllocation db s of Inl e \<Rightarrow> (Inl e, s) | Inr a \<Rightarrow> store_allocation db prefix a s)"

section \<open>Sessions and profiles\<close>

text \<open>The AMF is told of every session; its answer is only logged.\<close>

fun end_sessions :: "'s sub_db \<Rightarrow> (nat \<Rightarrow> time) \<Rightarrow> Session list \<Rightarrow> 's \<Rightarrow> sub_error option \<times> 's" where
  "end_sessions db now [] s = (None, s)"
| "end_sessions db now (r # rs) s =
     (case UpdateSession db (r\<lparr>ss_Status := SessionStatusInactive, ss_EndTime := Some (now (length rs))\<rparr>) s of
        (Some e, s') \<Rightarrow> (Some e, s')
      | (None, s') \<Rightarrow> end_sessions db now rs s')"

definition terminateSubscriberSessions :: "'s sub_db \<Rightarrow> (nat \<Rightarrow> time) \<Rightarrow> string \<Rightarrow> 's \<Rightarrow> sub_error option \<times> 's" where
  "terminateSubscriberSessions db now imsi s = (case GetActiveSessionsByIMSI db imsi s of
     Inl e \<Rightarrow> (Some e, s) | Inr rs \<Rightarrow> end_sessions db now rs s)"

text \<open>The server for profiles: a download of a profile for an eUICC, and the other operations.\<close>

record es2 =
  es2_download :: "string \<Rightarrow> string \<Rightarrow> string + string"
  es2_activate :: "string \<Rightarrow> string \<Rightarrow> string option"
  es2_deactivate :: "string \<Rightarrow> string \<Rightarrow> string option"

definition ValidateEID :: "string \<Rightarrow> sub_error option" where
  "ValidateEID eid = (if length eid \<noteq> 32 then Some (InvalidEID (length eid)) else None)"

definition ProvisionProfile :: "es2 \<Rightarrow> Subscriber \<Rightarrow> sub_error + string" where
  "ProvisionProfile es sub = (if sb_EUICCID sub = '''' then Inl NoEUICC
     else map_sum ES2Failed id (es2_download es (sb_EUICCID sub) (sb_IMSI sub)))"

definition provisionESIMProfile :: "'s sub_db \<Rightarrow> es2 \<Rightarrow> int \<Rightarrow> 's \<Rightarrow> sub_error option \<times> 's" where
  "provisionESIMProfile db es i s =
     (case db_GetSubscriber db i s of
        Inl e \<Rightarrow> (Some e, s)
      | Inr sub \<Rightarrow> (case ValidateEID (sb_EUICCID sub) of
          Some e \<Rightarrow> (Some e, s)
        | None \<Rightarrow> (case ProvisionProfile es sub of
            Inl e \<Rightarrow> (Some e, s)
          | Inr profileID \<Rightarrow>
              let sub1 = sub\<lparr>sb_ProfileID := profileID, sb_ProfileStatus := ProfileStatusDownloading\<rparr> in
              (case db_UpdateSubscriber db sub1 s of
                 (Some e, s1) \<Rightarrow> (Some e, s1)
               | (None, s1) \<Rightarrow> (case es2_activate es (sb_EUICCID sub1) profileID of
                     Some e \<Rightarrow> (Some (ES2Failed e), s1)
                   | None \<Rightarrow> db_UpdateSubscriber db (sub1\<lparr>sb_ProfileStatus := ProfileStatusActive\<rparr>) s1)))))"

definition deactivateESIMProfile :: "'s sub_db \<Rightarrow> es2 \<Rightarrow> (nat \<Rightarrow> time) \<Rightarrow> int \<Rightarrow> 's \<Rightarrow> sub_error option \<times> 's" where
  "deactivateESIMProfile db es now i s =
     (case db_GetSubscriber db i s of
        Inl e \<Rightarrow> (Some e, s)
      | Inr sub \<Rightarrow>
          if sb_ProfileID sub = '''' \<or> sb_ProfileStatus sub \<noteq> ProfileStatusActive then (Some NoActiveProfile, s)
          else (case es2_deactivate es (sb_EUICCID sub) (sb_ProfileID sub) of
              Some e \<Rightarrow> (Some (ES2Failed e), s)
            | None \<Rightarrow>
                (case db_UpdateSubscriber db (sub\<lparr>sb_ProfileStatus := ProfileStatusInactive, sb_Status := SubscriberStatusInactive\<rparr>) s of
                   (Some e, s1) \<Rightarrow> (Some e, s1)
                 | (None, s1) \<Rightarrow> (None, snd (terminateSubscriberSessions db now (sb_IMSI sub) s1)))))"

section \<open>Life cycle\<close>

definition new_subscriber :: "int \<Rightarrow> string \<Rightarrow> string \<Rightarrow> string \<Rightarrow> CreateSubscriberRequest \<Rightarrow> Subscriber" where
  "new_subscriber newid imsi key opc req = \<lparr>sb_ID = newid, sb_IMSI = imsi, sb_MSISDN = cs_MSISDN req, sb_FirstName = cs_FirstName req,
     sb_LastName = cs_LastName req, sb_Email = cs_Email req, sb_OrganizationID = cs_OrganizationID req, sb_Status = SubscriberStatusActive,
     sb_PlanID = cs_PlanID req, sb_Balance = f64_lit 0, sb_AuthKey = key, sb_OPc = opc, sb_SQN = 0, sb_ServingPLMN = (''208'', ''93''),
     sb_EUICCID = '''', sb_ProfileID = '''', sb_ProfileStatus = ProfileStatusInactive\<rparr>"

text \<open>The key of the new row is \<open>newid\<close>, chosen by the database. With an eUICC the call leaves a goroutine
  behind that provisions the profile: the identifier it gets is the last result.\<close>

definition CreateSubscriber ::
  "'s sub_db \<Rightarrow> (byte list \<Rightarrow> cipher) \<Rightarrow> string \<Rightarrow> string \<Rightarrow> byte list option \<Rightarrow> int \<Rightarrow> CreateSubscriberRequest \<Rightarrow> 's \<Rightarrow>
    ((sub_error + Subscriber) \<times> 's \<times> int option) go" where
  "CreateSubscriber db aes prefix env random newid req s =
     (case allocateIMSI db prefix s of
        (Inl e, s1) \<Rightarrow> Returns (Inl e, s1, None)
      | (Inr imsi, s1) \<Rightarrow> go_bind (generateAuthKeys aes env random) (\<lambda>keys. case keys of
          Inl e \<Rightarrow> Returns (Inl (KeysFailed e), s1, None)
        | Inr (key, opc) \<Rightarrow>
            let sub = new_subscriber newid imsi key opc req in
            (case done_by (tb_create (sd_subs db) sub s1) of
               (Some e, s2) \<Rightarrow> Returns (Inl e, s2, None)
             | (None, s2) \<Rightarrow>
                 if cs_EUICCID req \<noteq> '''' then Returns (Inr (sub\<lparr>sb_EUICCID := cs_EUICCID req\<rparr>), s2, Some newid)
                 else let sub' = sub\<lparr>sb_Status := SubscriberStatusActive, sb_ProfileStatus := ProfileStatusActive\<rparr> in
                   Returns (Inr sub', snd (db_UpdateSubscriber db sub' s2), None))))"

definition SuspendSubscriber :: "'s sub_db \<Rightarrow> (nat \<Rightarrow> time) \<Rightarrow> int \<Rightarrow> 's \<Rightarrow> sub_error option \<times> 's" where
  "SuspendSubscriber db now i s =
     (case db_GetSubscriber db i s of
        Inl e \<Rightarrow> (Some e, s)
      | Inr sub \<Rightarrow> (case terminateSubscriberSessions db now (sb_IMSI sub) s of
          (Some e, s1) \<Rightarrow> (Some e, s1)
        | (None, s1) \<Rightarrow> db_UpdateSubscriber db (sub\<lparr>sb_Status := SubscriberStatusSuspended\<rparr>) s1))"

definition TerminateSubscriber :: "'s sub_db \<Rightarrow> es2 \<Rightarrow> (nat \<Rightarrow> time) \<Rightarrow> int \<Rightarrow> 's \<Rightarrow> sub_error option \<times> 's" where
  "TerminateSubscriber db es now i s =
     (case db_GetSubscriber db i s of
        Inl e \<Rightarrow> (Some e, s)
      | Inr sub \<Rightarrow>
          let sub' = sub\<lparr>sb_Status := SubscriberStatusTerminated\<rparr> in
          (case terminateSubscriberSessions db now (sb_IMSI sub) s of
             (Some e, s1) \<Rightarrow> (Some e, s1)
           | (None, s1) \<Rightarrow>
               (case (if sb_EUICCID sub \<noteq> '''' \<and> sb_ProfileStatus sub = ProfileStatusActive
                      then deactivateESIMProfile db es now (sb_ID sub) s1 else (None, s1)) of
                  (Some e, s2) \<Rightarrow> (Some e, s2)
                | (None, s2) \<Rightarrow> db_UpdateSubscriber db sub' s2)))"

text \<open>Two assignments in a chain: the second runs after the first has been committed, and its column does
  not exist in the table.\<close>

definition set_both :: "sub_error option \<times> 's \<Rightarrow> ('s \<Rightarrow> sub_error option \<times> 's) \<Rightarrow> sub_error option \<times> 's" where
  "set_both r f = (case r of (e, s) \<Rightarrow> (case f s of (e', s') \<Rightarrow> (case e of Some x \<Rightarrow> (Some x, s) | None \<Rightarrow> (e', s'))))"

definition ActivateSubscriber :: "'s sub_db \<Rightarrow> int \<Rightarrow> 's \<Rightarrow> (sub_error + Subscriber) \<times> 's" where
  "ActivateSubscriber db i s =
     (case set_both (done_by (tb_set (sd_subs db) (\<lambda>r. sb_ID r = i) (\<lambda>r. r\<lparr>sb_Status := SubscriberStatusActive\<rparr>) s))
        (\<lambda>s. done_by (sd_unknown_column db ''activated_at'' s)) of
        (Some e, s') \<Rightarrow> (Inl e, s')
      | (None, s') \<Rightarrow> (db_GetSubscriber db i s', s'))"

text \<open>A transaction: an error rolls back to the state it began in.\<close>

fun in_tx :: "('s \<Rightarrow> sub_error option \<times> 's) list \<Rightarrow> 's \<Rightarrow> 's \<Rightarrow> sub_error option \<times> 's" where
  "in_tx [] s0 s = (None, s)"
| "in_tx (f # fs) s0 s = (case f s of (Some e, _) \<Rightarrow> (Some e, s0) | (None, s') \<Rightarrow> in_tx fs s0 s')"

definition deleted :: "(string + int) \<times> 's \<Rightarrow> sub_error option \<times> 's" where
  "deleted r = (case r of (Inl e, s) \<Rightarrow> (Some (DbFailed e), s) | (Inr _, s) \<Rightarrow> (None, s))"

text \<open>The third statement deletes the rows whose IMSI is that of the subscriber.\<close>

definition DeleteSubscriber :: "'s sub_db \<Rightarrow> int \<Rightarrow> 's \<Rightarrow> sub_error option \<times> 's" where
  "DeleteSubscriber db i s = in_tx
     [\<lambda>s. deleted (tb_delete (sd_methods db) (\<lambda>r. pm_SubscriberID r = i) s),
      \<lambda>s. deleted (tb_delete (sd_alerts db) (\<lambda>r. fst r = i) s),
      \<lambda>s. (case db_GetSubscriber db i s of
            Inr sub \<Rightarrow> deleted (tb_delete (sd_subs db) (\<lambda>r. sb_IMSI r = sb_IMSI sub) s)
          | Inl NotFound \<Rightarrow> (None, s)
          | Inl e \<Rightarrow> (Some e, s)),
      \<lambda>s. deleted (tb_delete (sd_subs db) (\<lambda>r. sb_ID r = i) s)] s s"

definition GetSubscriber :: "'s sub_db \<Rightarrow> int \<Rightarrow> 's \<Rightarrow> sub_error + Subscriber" where
  "GetSubscriber db i s = db_GetSubscriber db i s"

definition GetSubscriberByIMSI :: "'s sub_db \<Rightarrow> string \<Rightarrow> 's \<Rightarrow> sub_error + Subscriber" where
  "GetSubscriberByIMSI db imsi s = db_GetSubscriberByIMSI db imsi s"

definition non_empty :: "string option \<Rightarrow> string \<Rightarrow> string" where
  "non_empty new old = (case new of Some v \<Rightarrow> if v \<noteq> '''' then v else old | None \<Rightarrow> old)"

definition apply_update :: "UpdateSubscriberRequest \<Rightarrow> Subscriber \<Rightarrow> Subscriber" where
  "apply_update req sub = sub\<lparr>sb_FirstName := non_empty (us_FirstName req) (sb_FirstName sub),
     sb_LastName := non_empty (us_LastName req) (sb_LastName sub), sb_Email := non_empty (us_Email req) (sb_Email sub),
     sb_Status := (if us_Status req \<noteq> '''' then us_Status req else sb_Status sub),
     sb_PlanID := (case us_PlanID req of None \<Rightarrow> sb_PlanID sub | Some p \<Rightarrow> p)\<rparr>"

text \<open>The subscriber is read with its plan preloaded. Saving it then writes the key of that plan over the
  foreign key, so that a new plan is stored only if the old one does not exist.\<close>

definition saved_update :: "'s sub_db \<Rightarrow> UpdateSubscriberRequest \<Rightarrow> Subscriber \<Rightarrow> 's \<Rightarrow> Subscriber" where
  "saved_update db req sub s =
     (let sub' = apply_update req sub in
      if sd_plan_stored db (sb_PlanID sub) s then sub'\<lparr>sb_PlanID := sb_PlanID sub\<rparr> else sub')"

definition UpdateSubscriber :: "'s sub_db \<Rightarrow> int \<Rightarrow> UpdateSubscriberRequest \<Rightarrow> 's \<Rightarrow> (sub_error + Subscriber) \<times> 's" where
  "UpdateSubscriber db i req s =
     (case db_GetSubscriber db i s of
        Inl e \<Rightarrow> (Inl e, s)
      | Inr sub \<Rightarrow> (case db_UpdateSubscriber db (saved_update db req sub s) s of
          (Some e, s') \<Rightarrow> (Inl e, s')
        | (None, s') \<Rightarrow> (Inr (saved_update db req sub s), s')))"

definition ListSubscribers :: "'s sub_db \<Rightarrow> ListSubscribersRequest \<Rightarrow> 's \<Rightarrow> sub_error + ListSubscribersResponse" where
  "ListSubscribers db req s =
     (let n = (if ls_Limit req \<le> 0 then 20 else ls_Limit req); n' = (if 100 < n then 100 else n) in
      map_sum id (\<lambda>(subs, next, more). \<lparr>lr_Subscribers = subs, lr_NextCursor = next, lr_HasMore = more\<rparr>)
        (ListSubscribersCursor db (ls_Cursor req) n' (ls_Status req) (ls_OrganizationID req) (ls_Search req) s))"

definition TopUpBalance :: "'s sub_db \<Rightarrow> string \<Rightarrow> f64 \<Rightarrow> 's \<Rightarrow> (sub_error + Subscriber) \<times> 's" where
  "TopUpBalance db imsi topup s =
     (case db_GetSubscriberByIMSI db imsi s of
        Inl e \<Rightarrow> (Inl e, s)
      | Inr account \<Rightarrow>
          (case set_both (done_by (tb_set (sd_subs db) (\<lambda>r. sb_IMSI r = imsi \<and> sb_ID r = sb_ID account)
               (\<lambda>r. r\<lparr>sb_Balance := f64_add (sb_Balance account) topup\<rparr>) s))
             (\<lambda>s. done_by (sd_unknown_column db ''last_updated'' s)) of
             (Some e, s') \<Rightarrow> (Inl e, s')
           | (None, s') \<Rightarrow> (db_GetSubscriberByIMSI db imsi s', s')))"

section \<open>Payment methods\<close>

record card =
  cd_Last4 :: string
  cd_Brand :: string
  cd_ExpiryMonth :: int
  cd_ExpiryYear :: int

text \<open>\<open>gateway\<close> is what the payment gateway knows of a token.\<close>

definition AddPaymentMethod ::
  "'s sub_db \<Rightarrow> (string \<Rightarrow> string + card) \<Rightarrow> (nat \<Rightarrow> time) \<Rightarrow> int \<Rightarrow> string \<Rightarrow> string \<Rightarrow> bool \<Rightarrow> 's \<Rightarrow> (sub_error + PaymentMethod) \<times> 's" where
  "AddPaymentMethod db gateway now i ty token dflt s =
     (case gateway token of
        Inl e \<Rightarrow> (Inl (TokenFailed e), s)
      | Inr c \<Rightarrow>
          let m = \<lparr>pm_ID = ''pm_'' @ show_int i @ ''_'' @ show_int (now 0 div second), pm_SubscriberID = i, pm_GatewayID = ''default_gateway'',
                pm_Type = ty, pm_CustomerID = ''cus_'' @ show_int i, pm_Last4 = cd_Last4 c, pm_Brand = cd_Brand c,
                pm_ExpiryMonth = cd_ExpiryMonth c, pm_ExpiryYear = cd_ExpiryYear c, pm_IsDefault = dflt, pm_CreatedAt = now 1\<rparr>
          in (case done_by (tb_create (sd_methods db) m s) of (Some e, s') \<Rightarrow> (Inl e, s') | (None, s') \<Rightarrow> (Inr m, s')))"

definition RemovePaymentMethod :: "'s sub_db \<Rightarrow> string \<Rightarrow> 's \<Rightarrow> sub_error option \<times> 's" where
  "RemovePaymentMethod db i s =
     (case first_of (tb_first (sd_methods db) (\<lambda>r. pm_ID r = i) (\<lambda>_. 0) s) of
        Inl e \<Rightarrow> (Some e, s)
      | Inr m \<Rightarrow>
          (case tb_count (sd_methods db) (\<lambda>r. pm_SubscriberID r = pm_SubscriberID m) s of
             Inl e \<Rightarrow> (Some (DbFailed e), s)
           | Inr n \<Rightarrow>
               if n = 1 then (Some OnlyPaymentMethod, s)
               else (case (if \<not> pm_IsDefault m then (None, s)
                     else (case first_of (tb_first (sd_methods db) (\<lambda>r. pm_SubscriberID r = pm_SubscriberID m \<and> pm_ID r \<noteq> i) (\<lambda>_. 0) s) of
                         Inl e \<Rightarrow> (Some e, s)
                       | Inr d \<Rightarrow> done_by (tb_set (sd_methods db) (\<lambda>r. pm_ID r = pm_ID d) (\<lambda>r. r\<lparr>pm_IsDefault := True\<rparr>) s))) of
                   (Some e, s1) \<Rightarrow> (Some e, s1)
                 | (None, s1) \<Rightarrow> deleted (tb_delete (sd_methods db) (\<lambda>r. pm_ID r = pm_ID m) s1))))"

definition SetDefaultPaymentMethod :: "'s sub_db \<Rightarrow> string \<Rightarrow> 's \<Rightarrow> sub_error option \<times> 's" where
  "SetDefaultPaymentMethod db i s =
     (case first_of (tb_first (sd_methods db) (\<lambda>r. pm_ID r = i) (\<lambda>_. 0) s) of
        Inl e \<Rightarrow> (Some e, s)
      | Inr m \<Rightarrow> in_tx
          [\<lambda>s. done_by (tb_set (sd_methods db) (\<lambda>r. pm_SubscriberID r = pm_SubscriberID m \<and> pm_ID r \<noteq> i) (\<lambda>r. r\<lparr>pm_IsDefault := False\<rparr>) s),
           \<lambda>s. done_by (tb_set (sd_methods db) (\<lambda>r. pm_ID r = pm_ID m) (\<lambda>r. r\<lparr>pm_IsDefault := True\<rparr>) s)] s s)"

section \<open>Authentication\<close>

text \<open>The queries of the authentication centre on the same database.\<close>

definition auth_row_of :: "Subscriber \<Rightarrow> auth_row" where
  "auth_row_of sub = \<lparr>au_ID = sb_ID sub, au_IMSI = sb_IMSI sub, au_AuthKey = sb_AuthKey sub, au_OPc = sb_OPc sub, au_SQN = sb_SQN sub\<rparr>"

definition auth_queries :: "'s sub_db \<Rightarrow> 's auth_db" where
  "auth_queries db = \<lparr>ad_by_imsi = (\<lambda>imsi s. case db_GetSubscriberByIMSI db imsi s of Inl _ \<Rightarrow> Inl '''' | Inr sub \<Rightarrow> Inr (auth_row_of sub)),
     ad_increment = sd_increment db\<rparr>"

section \<open>Documented behaviour\<close>

text \<open>The rows of the tables in a state, and what the proofs use of the database: its tables behave as
  documented, a change of one table leaves the others alone, an assignment to a column that
  does not exist is an error, and the increment returns the number it has stored.\<close>

record 's sub_rows =
  rw_subs :: "'s \<Rightarrow> Subscriber multiset"
  rw_sessions :: "'s \<Rightarrow> Session multiset"
  rw_alloc :: "'s \<Rightarrow> IMSIAllocation multiset"
  rw_methods :: "'s \<Rightarrow> PaymentMethod multiset"
  rw_alerts :: "'s \<Rightarrow> (int \<times> string) multiset"

definition keeps :: "('s \<Rightarrow> 's) \<Rightarrow> ('s \<Rightarrow> 'x multiset) \<Rightarrow> bool" where
  "keeps f rows \<longleftrightarrow> (\<forall>s. rows (f s) = rows s)"

definition sub_db_ok :: "'s sub_db \<Rightarrow> 's sub_rows \<Rightarrow> bool" where
  "sub_db_ok db rw \<longleftrightarrow>
     (\<exists>m. table_ok (sd_subs db) (rw_subs rw) m) \<and> save_ok (sd_subs db) (rw_subs rw) sb_ID \<and> set_ok (sd_subs db) (rw_subs rw)
   \<and> (\<exists>m. table_ok (sd_sessions db) (rw_sessions rw) m) \<and> save_ok (sd_sessions db) (rw_sessions rw) ss_ID
   \<and> (\<exists>m. table_ok (sd_alloc db) (rw_alloc rw) m) \<and> save_ok (sd_alloc db) (rw_alloc rw) ia_ID
   \<and> (\<exists>m. table_ok (sd_methods db) (rw_methods rw) m) \<and> set_ok (sd_methods db) (rw_methods rw)
   \<and> (\<exists>m. table_ok (sd_alerts db) (rw_alerts rw) m)
   \<and> table_frame (sd_subs db) (rw_sessions rw) \<and> table_frame (sd_subs db) (rw_methods rw) \<and> table_frame (sd_subs db) (rw_alerts rw)
   \<and> table_frame (sd_sessions db) (rw_subs rw) \<and> table_frame (sd_alloc db) (rw_subs rw)
   \<and> table_frame (sd_methods db) (rw_subs rw) \<and> table_frame (sd_methods db) (rw_alerts rw)
   \<and> table_frame (sd_alerts db) (rw_subs rw) \<and> table_frame (sd_alerts db) (rw_methods rw)
   \<and> (\<forall>c s. \<exists>e. sd_unknown_column db c s = (Some e, s))
   \<and> (\<forall>i s n s'. sd_increment db i s = (Inr n, s') \<longrightarrow>
        ((\<exists>r \<in># rw_subs rw s. sb_ID r = i \<and> n = sb_SQN r + 1) \<or> (\<forall>r \<in># rw_subs rw s. sb_ID r \<noteq> i) \<and> n = 0)
      \<and> rw_subs rw s' = image_mset (\<lambda>r. if sb_ID r = i then r\<lparr>sb_SQN := sb_SQN r + 1\<rparr> else r) (rw_subs rw s))"

lemma sub_db_tables:
  assumes "sub_db_ok db rw"
  obtains m1 m2 m3 m4 m5 where "table_ok (sd_subs db) (rw_subs rw) m1" "table_ok (sd_sessions db) (rw_sessions rw) m2"
    "table_ok (sd_alloc db) (rw_alloc rw) m3" "table_ok (sd_methods db) (rw_methods rw) m4" "table_ok (sd_alerts db) (rw_alerts rw) m5"
  using assms unfolding sub_db_ok_def by blast

lemma sub_db_laws:
  assumes "sub_db_ok db rw"
  shows "save_ok (sd_subs db) (rw_subs rw) sb_ID" "set_ok (sd_subs db) (rw_subs rw)"
    "save_ok (sd_sessions db) (rw_sessions rw) ss_ID" "save_ok (sd_alloc db) (rw_alloc rw) ia_ID" "set_ok (sd_methods db) (rw_methods rw)"
    "table_frame (sd_subs db) (rw_sessions rw)" "table_frame (sd_subs db) (rw_methods rw)" "table_frame (sd_subs db) (rw_alerts rw)"
    "table_frame (sd_sessions db) (rw_subs rw)" "table_frame (sd_alloc db) (rw_subs rw)"
    "table_frame (sd_methods db) (rw_subs rw)" "table_frame (sd_methods db) (rw_alerts rw)"
    "table_frame (sd_alerts db) (rw_subs rw)" "table_frame (sd_alerts db) (rw_methods rw)"
    "\<exists>e. sd_unknown_column db c s = (Some e, s)"
  using assms unfolding sub_db_ok_def by (elim conjE, (assumption | blast))+

lemma sub_increment:
  assumes "sub_db_ok db rw" "sd_increment db i s = (Inr n, s')"
  shows "a \<in># rw_subs rw s \<Longrightarrow> sb_ID a = i \<Longrightarrow> \<exists>r \<in># rw_subs rw s. sb_ID r = i \<and> n = sb_SQN r + 1"
    "rw_subs rw s' = image_mset (\<lambda>r. if sb_ID r = i then r\<lparr>sb_SQN := sb_SQN r + 1\<rparr> else r) (rw_subs rw s)"
  using assms unfolding sub_db_ok_def by (elim conjE, blast)+

lemma first_of_Inr: "first_of r = Inr x \<longleftrightarrow> r = Inr (Some x)"
  by (auto simp: first_of_def split: sum.splits option.splits)

lemma done_by_eq: "done_by r = (e, s) \<longleftrightarrow> (\<exists>d. r = (d, s) \<and> e = map_option DbFailed d)"
  by (cases r) auto

lemma db_GetSubscriber_row:
  assumes "sub_db_ok db rw" "db_GetSubscriber db i s = Inr sub"
  shows "sub \<in># rw_subs rw s" "sb_ID sub = i"
proof -
  obtain m where t: "table_ok (sd_subs db) (rw_subs rw) m" by (rule sub_db_tables[OF assms(1)])
  show "sub \<in># rw_subs rw s" "sb_ID sub = i"
    using table_first[OF t] assms(2) unfolding db_GetSubscriber_def first_of_Inr by blast+
qed

lemma db_GetSubscriberByIMSI_row:
  assumes "sub_db_ok db rw" "db_GetSubscriberByIMSI db imsi s = Inr sub"
  shows "sub \<in># rw_subs rw s" "sb_IMSI sub = imsi"
proof -
  obtain m where t: "table_ok (sd_subs db) (rw_subs rw) m" by (rule sub_db_tables[OF assms(1)])
  show "sub \<in># rw_subs rw s" "sb_IMSI sub = imsi"
    using table_first[OF t] assms(2) unfolding db_GetSubscriberByIMSI_def first_of_Inr by blast+
qed

lemma db_UpdateSubscriber_rows:
  assumes "sub_db_ok db rw" "db_UpdateSubscriber db sub s = (None, s')"
  shows "rw_subs rw s' = add_mset sub (filter_mset (\<lambda>x. sb_ID x \<noteq> sb_ID sub) (rw_subs rw s))" "rw_sessions rw s' = rw_sessions rw s"
proof -
  have sv: "tb_save (sd_subs db) sub s = (None, s')"
    using assms(2) by (simp add: db_UpdateSubscriber_def done_by_eq)
  show "rw_subs rw s' = add_mset sub (filter_mset (\<lambda>x. sb_ID x \<noteq> sb_ID sub) (rw_subs rw s))"
    using table_save[OF sub_db_laws(1)[OF assms(1)] sv] by simp
  show "rw_sessions rw s' = rw_sessions rw s" by (rule frame_save[OF sub_db_laws(6)[OF assms(1)] sv])
qed

lemma db_UpdateSubscriber_sessions:
  assumes "sub_db_ok db rw" "db_UpdateSubscriber db sub s = (e, s')"
  shows "rw_sessions rw s' = rw_sessions rw s"
  using assms frame_save[OF sub_db_laws(6)[OF assms(1)]] by (auto simp: db_UpdateSubscriber_def done_by_eq)

section \<open>IMSIs\<close>

lemma length_show_nat: "0 \<le> n \<Longrightarrow> n < 10 ^ Suc k \<Longrightarrow> length (show_nat n) \<le> Suc k"
proof (induction k arbitrary: n)
  case 0
  then show ?case by (simp add: show_nat.simps)
next
  case (Suc k)
  show ?case
  proof (cases "n < 10")
    case False
    have "n div 10 < 10 ^ Suc k" using Suc.prems by (simp add: div_less_iff_less_mult)
    then show ?thesis using Suc.IH[of "n div 10"] Suc.prems False by (subst show_nat.simps) simp
  qed (simp add: show_nat.simps)
qed

lemma length_show_10: "0 \<le> n \<Longrightarrow> n < 10 ^ 10 \<Longrightarrow> length (show_int n) \<le> 10"
  using length_show_nat[of n 9] by (simp add: show_int_def)

lemma length_pad10: "0 \<le> n \<Longrightarrow> n < 10 ^ 10 \<Longrightarrow> length (pad10 n) = 10"
  using length_show_10[of n] by (simp add: pad10_def)

lemma read_zeros: "read_nat (replicate k CHR ''0'' @ xs) = read_nat xs"
  by (induction k) (simp_all add: read_nat_def)

lemma pad10_inj: "0 \<le> a \<Longrightarrow> 0 \<le> b \<Longrightarrow> pad10 a = pad10 b \<Longrightarrow> a = b"
proof -
  assume "0 \<le> a" "0 \<le> b" "pad10 a = pad10 b"
  then have "read_nat (pad10 a) = read_nat (pad10 b)" by simp
  then show "a = b" using \<open>0 \<le> a\<close> \<open>0 \<le> b\<close> by (simp add: pad10_def read_zeros show_int_def read_show_nat)
qed

text \<open>Calls one after the other, and their successful results.\<close>

fun allocate_many :: "'s sub_db \<Rightarrow> string \<Rightarrow> nat \<Rightarrow> 's \<Rightarrow> string list \<times> 's" where
  "allocate_many db prefix 0 s = ([], s)"
| "allocate_many db prefix (Suc n) s = (case allocateIMSI db prefix s of
     (Inl _, s1) \<Rightarrow> allocate_many db prefix n s1
   | (Inr imsi, s1) \<Rightarrow> (case allocate_many db prefix n s1 of (xs, s2) \<Rightarrow> (imsi # xs, s2)))"

definition alloc_ok :: "IMSIAllocation \<Rightarrow> bool" where
  "alloc_ok a \<longleftrightarrow> 0 \<le> ia_LastIMSI a \<and> ia_MaxIMSI a < 10 ^ 10"

lemma next_allocation_ok: "alloc_ok a \<Longrightarrow> ia_LastIMSI a < ia_MaxIMSI a \<Longrightarrow> alloc_ok (next_allocation a) \<and> ia_LastIMSI (next_allocation a) = ia_LastIMSI a + 1
    \<and> ia_MaxIMSI (next_allocation a) = ia_MaxIMSI a \<and> ia_ID (next_allocation a) = ia_ID a"
  by (simp add: alloc_ok_def next_allocation_def)

lemma allocateIMSI_cases:
  assumes ok: "sub_db_ok db rw" and one: "rw_alloc rw s = {#a#}" and a: "alloc_ok a" and call: "allocateIMSI db prefix s = (res, s')"
  obtains (failed) e where "res = Inl e" "rw_alloc rw s' = {#a#}"
    | (allocated) "res = Inr (imsi_text prefix (ia_LastIMSI a + 1))" "rw_alloc rw s' = {#next_allocation a#}" "ia_LastIMSI a < ia_MaxIMSI a"
proof (cases "GetIMSIAllocation db s")
  case (Inl e)
  show thesis by (rule failed[of e]) (use call one Inl in \<open>simp_all add: allocateIMSI_def\<close>)
next
  case (Inr b)
  obtain m where t: "table_ok (sd_alloc db) (rw_alloc rw) m" by (rule sub_db_tables[OF ok])
  have "b \<in># rw_alloc rw s" using table_first[OF t] Inr unfolding GetIMSIAllocation_def first_of_Inr by blast
  then have b: "b = a" by (simp add: one)
  show thesis
  proof (cases "ia_MaxIMSI a \<le> ia_LastIMSI a")
    case True
    show ?thesis by (rule failed[of "RangeExhausted (ia_MaxIMSI a)"]) (use True call one Inr b in \<open>simp_all add: allocateIMSI_def store_allocation_def\<close>)
  next
    case False
    obtain d s1 where sv: "tb_save (sd_alloc db) (next_allocation a) s = (d, s1)" by fastforce
    have n: "alloc_ok (next_allocation a)" "ia_LastIMSI (next_allocation a) = ia_LastIMSI a + 1" "ia_ID (next_allocation a) = ia_ID a"
      using next_allocation_ok[OF a] False by auto
    have rows: "rw_alloc rw s1 = (if d = None then {#next_allocation a#} else {#a#})"
      using table_save[OF sub_db_laws(4)[OF ok] sv] one n(3) by simp
    have c: "(res, s') = (case d of None \<Rightarrow> (Inr (imsi_text prefix (ia_LastIMSI a + 1)), s1) | Some e \<Rightarrow> (Inl (DbFailed e), s1))"
      using call Inr b False sv n(2) by (cases d) (simp_all add: allocateIMSI_def store_allocation_def UpdateIMSIAllocation_def)
    show ?thesis
    proof (cases d)
      case None
      show ?thesis by (rule allocated) (use c rows None False in simp_all)
    next
      case (Some e)
      show ?thesis by (rule failed[of "DbFailed e"]) (use c rows Some in simp_all)
    qed
  qed
qed

lemma allocate_many_list:
  assumes "sub_db_ok db rw" "rw_alloc rw s = {#a#}" "alloc_ok a" "allocate_many db prefix n s = (xs, s')"
  shows "\<exists>k. xs = map (\<lambda>j. imsi_text prefix (ia_LastIMSI a + 1 + int j)) [0..<k] \<and> (0 < k \<longrightarrow> ia_LastIMSI a + int k \<le> ia_MaxIMSI a)"
  using assms(2-4)
proof (induction n arbitrary: s a xs s')
  case (Suc n)
  obtain r s1 where c: "allocateIMSI db prefix s = (r, s1)" by fastforce
  obtain ys s2 where m: "allocate_many db prefix n s1 = (ys, s2)" by fastforce
  from assms(1) Suc.prems(1,2) c show ?case
  proof (cases rule: allocateIMSI_cases)
    case (failed e)
    then show ?thesis using Suc.IH[OF failed(2) Suc.prems(2)] Suc.prems(3) c m by simp
  next
    case allocated
    note nx = next_allocation_ok[OF Suc.prems(2) allocated(3)]
    obtain k where k: "ys = map (\<lambda>j. imsi_text prefix (ia_LastIMSI a + 2 + int j)) [0..<k]" "0 < k \<longrightarrow> ia_LastIMSI a + 1 + int k \<le> ia_MaxIMSI a"
      using Suc.IH[OF allocated(2) _ m] nx by (auto simp: add.assoc)
    have "xs = imsi_text prefix (ia_LastIMSI a + 1) # ys"
      using Suc.prems(3) c m allocated(1) by simp
    then have "xs = map (\<lambda>j. imsi_text prefix (ia_LastIMSI a + 1 + int j)) [0..<Suc k]"
      unfolding k(1) map_upt_Suc by (simp add: add.assoc)
    then show ?thesis using k(2) allocated(3) by (intro exI[of _ "Suc k"]) (cases k; simp)
  qed
qed simp

text \<open>Calls of the allocation one after the other, however many of them fail, give pairwise different
  IMSIs: the prefix followed by ten digits, in increasing order without a gap.\<close>

theorem imsis_sequential:
  assumes "sub_db_ok db rw" "rw_alloc rw s = {#a#}" "alloc_ok a" "allocate_many db prefix n s = (xs, s')"
  shows "distinct xs \<and> (\<forall>x \<in> set xs. take (length prefix) x = prefix \<and> length x = length prefix + 10)
    \<and> xs = map (\<lambda>j. imsi_text prefix (ia_LastIMSI a + 1 + int j)) [0..<length xs]"
proof -
  obtain k where k: "xs = map (\<lambda>j. imsi_text prefix (ia_LastIMSI a + 1 + int j)) [0..<k]" "0 < k \<longrightarrow> ia_LastIMSI a + int k \<le> ia_MaxIMSI a"
    using allocate_many_list[OF assms] by blast
  have a: "0 \<le> ia_LastIMSI a" "ia_MaxIMSI a < 10 ^ 10" using assms(3) by (simp_all add: alloc_ok_def)
  have gapless: "xs = map (\<lambda>j. imsi_text prefix (ia_LastIMSI a + 1 + int j)) [0..<length xs]" using k(1) by simp
  have different: "distinct xs"
    unfolding k(1) distinct_map
    using a(1) by (auto intro!: inj_onI dest!: pad10_inj[rotated 2] simp: imsi_text_def)
  have form: "\<forall>x \<in> set xs. take (length prefix) x = prefix \<and> length x = length prefix + 10"
    unfolding k(1) using k(2) a by (auto simp: imsi_text_def intro!: length_pad10)
  show ?thesis using different form gapless by blast
qed

text \<open>Two calls whose steps interleave: a schedule says whose turn it is, and a turn reads the allocation or, when
  it has been read, stores the next one.\<close>

fun interleave :: "'s sub_db \<Rightarrow> string \<Rightarrow> bool list \<Rightarrow> (bool \<Rightarrow> IMSIAllocation option) \<Rightarrow> (bool \<Rightarrow> string option) \<Rightarrow> 's \<Rightarrow> (bool \<Rightarrow> string option) \<times> 's" where
  "interleave db prefix [] rd out s = (out, s)"
| "interleave db prefix (i # sched) rd out s =
     (case rd i of
        None \<Rightarrow> (case GetIMSIAllocation db s of
            Inl _ \<Rightarrow> interleave db prefix sched rd out s
          | Inr a \<Rightarrow> interleave db prefix sched (rd(i := Some a)) out s)
      | Some a \<Rightarrow> (case store_allocation db prefix a s of
            (Inl _, s') \<Rightarrow> interleave db prefix sched rd out s'
          | (Inr x, s') \<Rightarrow> interleave db prefix sched rd (out(i := Some x)) s'))"

lemma read_allocation:
  assumes "sub_db_ok db rw" "rw_alloc rw s = {#a#}"
  shows "(\<exists>e. GetIMSIAllocation db s = Inl e) \<or> GetIMSIAllocation db s = Inr a"
proof (cases "GetIMSIAllocation db s")
  case (Inr b)
  obtain m where t: "table_ok (sd_alloc db) (rw_alloc rw) m" by (rule sub_db_tables[OF assms(1)])
  have "b \<in># rw_alloc rw s" using table_first[OF t] Inr unfolding GetIMSIAllocation_def first_of_Inr by blast
  then show ?thesis by (simp add: assms(2) Inr)
qed simp

lemma store_allocation_result:
  assumes "sub_db_ok db rw" "rw_alloc rw s = {#c#}" "ia_ID c = ia_ID a" "store_allocation db prefix a s = (Inr x, s')" "0 \<le> ia_LastIMSI a" "ia_MaxIMSI a < 10 ^ 10"
  shows "x = imsi_text prefix (ia_LastIMSI a + 1)" "rw_alloc rw s' = {#next_allocation a#}" "ia_LastIMSI a < ia_MaxIMSI a"
proof -
  obtain d s1 where sv: "tb_save (sd_alloc db) (next_allocation a) s = (d, s1)" by fastforce
  have l: "ia_LastIMSI a < ia_MaxIMSI a" using assms(4) by (auto simp: store_allocation_def split: if_splits)
  have n: "ia_LastIMSI (next_allocation a) = ia_LastIMSI a + 1" "ia_ID (next_allocation a) = ia_ID a"
    using next_allocation_ok[of a] assms(5,6) l by (auto simp: alloc_ok_def)
  have "d = None" "x = imsi_text prefix (ia_LastIMSI (next_allocation a))" "s' = s1"
    using assms(4) l sv by (auto simp: store_allocation_def UpdateIMSIAllocation_def split: option.splits if_splits)
  then show "x = imsi_text prefix (ia_LastIMSI a + 1)" "rw_alloc rw s' = {#next_allocation a#}" "ia_LastIMSI a < ia_MaxIMSI a"
    using table_save[OF sub_db_laws(4)[OF assms(1)] sv] assms(2,3) n l by simp_all
qed

lemma one_then_other:
  assumes ok: "sub_db_ok db rw" and one: "rw_alloc rw s = {#a#}" and a: "alloc_ok a"
    and run: "interleave db prefix [i, i, j, j] (\<lambda>_. None) (\<lambda>_. None) s = (out, s')" and ij: "i \<noteq> j" and x: "out i = Some x" and y: "out j = Some y"
  shows "x \<noteq> y"
proof -
  note ra = read_allocation[OF ok]
  have g: "GetIMSIAllocation db s = Inr a"
    using ra[OF one] run x ij by (auto split: prod.splits sum.splits)
  obtain s1 z where s1: "store_allocation db prefix a s = (Inr z, s1)"
    using g run x ij by (cases "store_allocation db prefix a s"; cases "fst (store_allocation db prefix a s)") (auto split: prod.splits sum.splits)
  have b: "0 \<le> ia_LastIMSI a" "ia_MaxIMSI a < 10 ^ 10" using a by (simp_all add: alloc_ok_def)
  note f = store_allocation_result[OF ok one refl s1 b]
  have nx: "alloc_ok (next_allocation a)" "ia_LastIMSI (next_allocation a) = ia_LastIMSI a + 1" using next_allocation_ok[OF a f(3)] by auto
  have g2: "GetIMSIAllocation db s1 = Inr (next_allocation a)"
    using ra[OF f(2)] run g s1 y ij by (auto split: prod.splits sum.splits)
  obtain s2 w where s2: "store_allocation db prefix (next_allocation a) s1 = (Inr w, s2)"
    using g g2 s1 run y ij by (cases "store_allocation db prefix (next_allocation a) s1"; cases "fst (store_allocation db prefix (next_allocation a) s1)") (auto split: prod.splits sum.splits)
  have b2: "0 \<le> ia_LastIMSI (next_allocation a)" "ia_MaxIMSI (next_allocation a) < 10 ^ 10" using nx(1) by (simp_all add: alloc_ok_def)
  note f2 = store_allocation_result[OF ok f(2) refl s2 b2]
  have "x = z" "y = w" using run g s1 g2 s2 x y ij by auto
  then show ?thesis using f(1) f2(1) nx(2) b(1) by (auto simp: imsi_text_def dest!: pad10_inj[rotated 2])
qed

lemma both_read_first:
  assumes ok: "sub_db_ok db rw" and one: "rw_alloc rw s = {#a#}" and a: "alloc_ok a" and ij: "i \<noteq> j" and kl: "{k, l} = {i, j}"
    and run: "interleave db prefix [i, j, k, l] (\<lambda>_. None) (\<lambda>_. None) s = (out, s')" and x: "out i = Some x" and y: "out j = Some y"
  shows "x = y"
proof -
  have kl': "k = i \<and> l = j \<or> k = j \<and> l = i" using kl ij by blast
  have g: "GetIMSIAllocation db s = Inr a"
    using read_allocation[OF ok one] run x y ij kl' by (auto split: prod.splits sum.splits if_splits)
  have b: "0 \<le> ia_LastIMSI a" "ia_MaxIMSI a < 10 ^ 10" using a by (simp_all add: alloc_ok_def)
  obtain s1 z where s1: "store_allocation db prefix a s = (Inr z, s1)"
    using g run x y ij kl' by (cases "store_allocation db prefix a s"; cases "fst (store_allocation db prefix a s)") (auto split: prod.splits sum.splits)
  note f = store_allocation_result[OF ok one refl s1 b]
  have nx: "ia_ID (next_allocation a) = ia_ID a" by (simp add: next_allocation_def)
  obtain s2 w where s2: "store_allocation db prefix a s1 = (Inr w, s2)"
    using g s1 run x y ij kl' by (cases "store_allocation db prefix a s1"; cases "fst (store_allocation db prefix a s1)") (auto split: prod.splits sum.splits)
  note f2 = store_allocation_result[OF ok f(2) nx s2 b]
  have "{x, y} = {z, w}" using run g s1 s2 x y ij kl' by auto
  then show ?thesis using f(1) f2(1) by auto
qed

text \<open>C20. Of the six interleavings of two calls the two without overlap give different IMSIs; in the other four
  both calls read the same allocation and give the same IMSI to two subscribers.\<close>

theorem overlapping_allocations_collide:
  assumes "sub_db_ok db rw" "rw_alloc rw s = {#a#}" "alloc_ok a" "mset sched = {#True, True, False, False#}"
    "interleave db prefix sched (\<lambda>_. None) (\<lambda>_. None) s = (out, s')" "out True = Some x" "out False = Some y"
  shows "x = y \<longleftrightarrow> sched \<notin> {[True, True, False, False], [False, False, True, True]}"
proof -
  note cs = assms(5-7)
  have "size (mset sched) = 4" unfolding assms(4) by simp
  then obtain p q r t where sch: "sched = [p, q, r, t]" by (auto simp: numeral_eq_Suc length_Suc_conv)
  have two: "count (mset [p, q, r, t]) True = 2" using assms(4) unfolding sch by simp
  have ten: "[p, q, r, t] \<in> {[True, True, False, False], [False, False, True, True], [True, False, True, False], [True, False, False, True],
      [False, True, True, False], [False, True, False, True]}"
    using two by (cases p; cases q; cases r; cases t) simp_all
  note run = cs(1)[unfolded sch]
  have e: "x = y" if "[p, q, r, t] = [True, False, True, False] \<or> [p, q, r, t] = [True, False, False, True]"
    using that
  proof
    assume h: "[p, q, r, t] = [True, False, True, False]"
    show ?thesis by (rule both_read_first[OF assms(1-3) _ _ run[unfolded h] cs(2,3)]) auto
  next
    assume h: "[p, q, r, t] = [True, False, False, True]"
    show ?thesis by (rule both_read_first[OF assms(1-3) _ _ run[unfolded h] cs(2,3)]) auto
  qed
  have e': "y = x" if "[p, q, r, t] = [False, True, True, False] \<or> [p, q, r, t] = [False, True, False, True]"
    using that
  proof
    assume h: "[p, q, r, t] = [False, True, True, False]"
    show ?thesis by (rule both_read_first[OF assms(1-3) _ _ run[unfolded h] cs(3,2)]) auto
  next
    assume h: "[p, q, r, t] = [False, True, False, True]"
    show ?thesis by (rule both_read_first[OF assms(1-3) _ _ run[unfolded h] cs(3,2)]) auto
  qed
  have d: "x \<noteq> y" if h: "[p, q, r, t] = [True, True, False, False]"
    by (rule one_then_other[OF assms(1-3) run[unfolded h] _ cs(2,3)]) simp
  have d': "y \<noteq> x" if h: "[p, q, r, t] = [False, False, True, True]"
    by (rule one_then_other[OF assms(1-3) run[unfolded h] _ cs(3,2)]) simp
  from ten consider (c1) "[p, q, r, t] = [True, True, False, False]" | (c2) "[p, q, r, t] = [False, False, True, True]"
    | (c3) "[p, q, r, t] = [True, False, True, False] \<or> [p, q, r, t] = [True, False, False, True]"
    | (c4) "[p, q, r, t] = [False, True, True, False] \<or> [p, q, r, t] = [False, True, False, True]" by blast
  then show ?thesis
  proof cases
    case c1
    then show ?thesis using d sch by simp
  next
    case c2
    then show ?thesis using d' sch by auto
  next
    case c3
    have "x = y" by (rule e[OF c3])
    then show ?thesis using c3 sch by auto
  next
    case c4
    have "y = x" by (rule e'[OF c4])
    then show ?thesis using c4 sch by auto
  qed
qed

section \<open>eSIM profiles\<close>

text \<open>C21. A subscriber created with an eUICC is stored without it, so the goroutine that provisions the profile fails
  before it asks the server, whatever the server would answer, and changes nothing.\<close>

theorem esim_never_provisioned:
  assumes "sub_db_ok db rw" "CreateSubscriber db aes prefix env random newid req s = Returns (Inr sub, s', Some i)"
    "\<forall>r \<in># rw_subs rw s. sb_ID r \<noteq> newid"
  shows "i = newid \<and> sb_EUICCID sub = cs_EUICCID req \<and> sb_EUICCID sub \<noteq> '''' \<and> (\<exists>r \<in># rw_subs rw s'. sb_ID r = i \<and> sb_EUICCID r = '''')
    \<and> (\<exists>e. provisionESIMProfile db es i s' = (Some e, s') \<and> (e = InvalidEID 0 \<or> db_GetSubscriber db i s' = Inl e))"
proof -
  obtain imsi s1 where a: "allocateIMSI db prefix s = (Inr imsi, s1)"
    using assms(2) by (auto simp: CreateSubscriber_def split: prod.splits sum.splits)
  obtain key opc where g: "generateAuthKeys aes env random = Returns (Inr (key, opc))"
  proof (cases "generateAuthKeys aes env random")
    case (Returns ks)
    then show thesis using that assms(2) a by (cases ks) (auto simp: CreateSubscriber_def)
  qed (use assms(2) a in \<open>simp add: CreateSubscriber_def\<close>)
  define row where "row = new_subscriber newid imsi key opc req"
  obtain d s2 where c: "tb_create (sd_subs db) row s1 = (d, s2)" by fastforce
  have r: "d = None" "s' = s2" "sub = row\<lparr>sb_EUICCID := cs_EUICCID req\<rparr>" "cs_EUICCID req \<noteq> ''''" "i = newid"
    using assms(2) a g c unfolding CreateSubscriber_def by (auto simp: row_def Let_def split: option.splits if_splits)
  obtain m where t: "table_ok (sd_subs db) (rw_subs rw) m" by (rule sub_db_tables[OF assms(1)])
  have "rw_subs rw s1 = rw_subs rw s"
    using a frame_save[OF sub_db_laws(10)[OF assms(1)]]
    by (auto simp: allocateIMSI_def store_allocation_def UpdateIMSIAllocation_def done_by_eq split: sum.splits if_splits prod.splits option.splits)
  then have rows: "rw_subs rw s' = add_mset row (rw_subs rw s)" using table_create[OF t c] r(1,2) by simp
  have id: "sb_ID row = newid" "sb_EUICCID row = ''''" by (simp_all add: row_def new_subscriber_def)
  have "x = row" if "db_GetSubscriber db i s' = Inr x" for x
    using db_GetSubscriber_row[OF assms(1) that] assms(3) rows r(5) by auto
  then have "\<exists>e. provisionESIMProfile db es i s' = (Some e, s') \<and> (e = InvalidEID 0 \<or> db_GetSubscriber db i s' = Inl e)"
    by (cases "db_GetSubscriber db i s'") (auto simp: provisionESIMProfile_def ValidateEID_def id)
  then show ?thesis using r id rows by auto
qed

section \<open>Balances\<close>

text \<open>Calls with several amounts, and what each returned.\<close>

fun top_ups :: "'s sub_db \<Rightarrow> string \<Rightarrow> f64 list \<Rightarrow> 's \<Rightarrow> (sub_error + Subscriber) list \<times> 's" where
  "top_ups db imsi [] s = ([], s)"
| "top_ups db imsi (t # ts) s = (case TopUpBalance db imsi t s of (r, s1) \<Rightarrow> (case top_ups db imsi ts s1 of (rs, s2) \<Rightarrow> (r # rs, s2)))"

definition no_failures :: "('row, 's) table \<Rightarrow> bool" where
  "no_failures t \<longleftrightarrow> (\<forall>P k s. \<exists>r. tb_first t P k s = Inr r) \<and> (\<forall>P f s. fst (tb_set t P f s) = None)"

lemma image_one:
  assumes "unique_by f M" "a \<in># M"
  shows "image_mset (\<lambda>r. if f r = f a \<and> P r then g r else r) M = (if P a then add_mset (g a) (M - {#a#}) else M)"
proof -
  obtain N where M: "M = add_mset a N" using assms(2) by (meson multi_member_split)
  have "image_mset (\<lambda>r. if f r = f a \<and> P r then g r else r) N = image_mset id N"
    using assms(1) unfolding M unique_by_add by (intro image_mset_cong) auto
  then show ?thesis by (simp add: M)
qed

lemma top_up_step:
  assumes ok: "sub_db_ok db rw" and nf: "no_failures (sd_subs db)" and u: "unique_by sb_IMSI (rw_subs rw s)" and a: "a \<in># rw_subs rw s" "sb_IMSI a = imsi"
    and call: "TopUpBalance db imsi topup s = (res, s')"
  shows "(\<exists>e. res = Inl e) \<and> rw_subs rw s' = add_mset (a\<lparr>sb_Balance := f64_add (sb_Balance a) topup\<rparr>) (rw_subs rw s - {#a#})"
proof -
  obtain m where t: "table_ok (sd_subs db) (rw_subs rw) m" by (rule sub_db_tables[OF ok])
  obtain r where r: "tb_first (sd_subs db) (\<lambda>r. sb_IMSI r = imsi) (\<lambda>r. - sb_ID r) s = Inr r"
    using nf unfolding no_failures_def by blast
  obtain b where b: "r = Some b"
  proof (cases r)
    case None
    show thesis using table_first_none[OF t r[unfolded None]] a by blast
  qed
  have "b \<in># rw_subs rw s \<and> sb_IMSI b = imsi" using table_first[OF t r[unfolded b]] by simp
  then have "b = a" using unique_by_same[OF u _ a(1), of b] a(2) by simp
  then have g: "db_GetSubscriberByIMSI db imsi s = Inr a" using r b by (simp add: db_GetSubscriberByIMSI_def first_of_def)
  let ?P = "\<lambda>r. sb_IMSI r = imsi \<and> sb_ID r = sb_ID a"
  let ?f = "\<lambda>r. r\<lparr>sb_Balance := f64_add (sb_Balance a) topup\<rparr>"
  obtain s1 where st: "tb_set (sd_subs db) ?P ?f s = (None, s1)"
    using nf unfolding no_failures_def by (metis prod.collapse)
  obtain e where un: "sd_unknown_column db ''last_updated'' s1 = (Some e, s1)" using sub_db_laws(15)[OF ok] by blast
  have "res = Inl (DbFailed e)" "s' = s1"
    using call g st un by (auto simp: TopUpBalance_def set_both_def)
  moreover have "rw_subs rw s1 = add_mset (?f a) (rw_subs rw s - {#a#})"
    using table_set[OF sub_db_laws(2)[OF ok] st] image_one[OF u a(1), of "\<lambda>r. sb_ID r = sb_ID a" ?f] a(2) by simp
  ultimately show ?thesis by blast
qed

text \<open>C19. Every top-up of an account is reported as failed, and every one has credited the balance: a client that
  tries again pays in again.\<close>

theorem failed_top_ups_credit:
  assumes "sub_db_ok db rw" "no_failures (sd_subs db)" "unique_by sb_IMSI (rw_subs rw s)" "a \<in># rw_subs rw s" "sb_IMSI a = imsi"
    "top_ups db imsi ts s = (results, s')"
  shows "length results = length ts \<and> (\<forall>r \<in> set results. \<exists>e. r = Inl e)
    \<and> rw_subs rw s' = add_mset (a\<lparr>sb_Balance := foldl f64_add (sb_Balance a) ts\<rparr>) (rw_subs rw s - {#a#})"
  using assms(3-6)
proof (induction ts arbitrary: s s' a results)
  case (Cons t ts)
  obtain r s1 where c: "TopUpBalance db imsi t s = (r, s1)" by fastforce
  obtain rs s2 where m: "top_ups db imsi ts s1 = (rs, s2)" by fastforce
  define b where "b = a\<lparr>sb_Balance := f64_add (sb_Balance a) t\<rparr>"
  have s: "\<exists>e. r = Inl e" "rw_subs rw s1 = add_mset b (rw_subs rw s - {#a#})"
    using top_up_step[OF assms(1,2) Cons.prems(1-3) c] by (auto simp: b_def)
  have u: "unique_by sb_IMSI (rw_subs rw s1)"
  proof -
    obtain N where N: "rw_subs rw s = add_mset a N" using Cons.prems(2) by (meson multi_member_split)
    have "sb_IMSI b = sb_IMSI a" by (simp add: b_def)
    then show ?thesis using Cons.prems(1) unfolding s(2) N by (simp add: unique_by_add)
  qed
  have "length rs = length ts \<and> (\<forall>r \<in> set rs. \<exists>e. r = Inl e)
      \<and> rw_subs rw s2 = add_mset (b\<lparr>sb_Balance := foldl f64_add (sb_Balance b) ts\<rparr>) (rw_subs rw s1 - {#b#})"
    by (rule Cons.IH[OF u _ _ m]) (simp_all add: s(2) b_def Cons.prems(3))
  moreover have "results = r # rs" "s' = s2" using Cons.prems(4) c m by simp_all
  ultimately show ?case using s by (simp add: b_def)
qed simp

section \<open>Sessions\<close>

text \<open>Keys of 32 bits have at most ten digits, an IMSI has fifteen.\<close>

definition session_keys_ok :: "Session multiset \<Rightarrow> bool" where
  "session_keys_ok M \<longleftrightarrow> (\<forall>x \<in># M. 0 \<le> ss_SubscriberID x \<and> ss_SubscriberID x < 2 ^ 31)"

lemma no_session_found:
  assumes ok: "sub_db_ok db rw" and k: "session_keys_ok (rw_sessions rw s)" and imsi: "length imsi = 15"
  shows "GetActiveSessionsByIMSI db imsi s = Inr [] \<or> (\<exists>e. GetActiveSessionsByIMSI db imsi s = Inl e)"
proof (cases "tb_find (sd_sessions db) (\<lambda>r. show_int (ss_SubscriberID r) = imsi \<and> ss_Status r = ''active'') (\<lambda>r. - ss_ID r) None None s")
  case (Inr rs)
  obtain m where t: "table_ok (sd_sessions db) (rw_sessions rw) m" by (rule sub_db_tables[OF ok])
  have "rs = []"
  proof (cases rs)
    case (Cons x xs)
    then have x: "x \<in># rw_sessions rw s" "show_int (ss_SubscriberID x) = imsi" using table_find[OF t Inr, of x] by simp_all
    have "length (show_int (ss_SubscriberID x)) \<le> 10"
      using k x(1) by (intro length_show_10) (auto simp: session_keys_ok_def)
    then show ?thesis using x(2) imsi by simp
  qed
  then show ?thesis using Inr by (simp add: GetActiveSessionsByIMSI_def)
qed (simp add: GetActiveSessionsByIMSI_def)

lemma terminate_sessions_unchanged:
  assumes "sub_db_ok db rw" "session_keys_ok (rw_sessions rw s)" "length imsi = 15" "terminateSubscriberSessions db now imsi s = (e, s')"
  shows "s' = s"
  using no_session_found[OF assms(1-3)] assms(4) by (auto simp: terminateSubscriberSessions_def)

lemma deactivate_sessions:
  assumes "sub_db_ok db rw" "session_keys_ok (rw_sessions rw s)" "\<forall>x \<in># rw_subs rw s. length (sb_IMSI x) = 15"
    "deactivateESIMProfile db es now i s = (e, s')"
  shows "rw_sessions rw s' = rw_sessions rw s"
proof (cases "db_GetSubscriber db i s")
  case (Inr sub)
  have len: "length (sb_IMSI sub) = 15" using db_GetSubscriber_row[OF assms(1) Inr] assms(3) by blast
  let ?sub' = "sub\<lparr>sb_ProfileStatus := ProfileStatusInactive, sb_Status := SubscriberStatusInactive\<rparr>"
  obtain d s1 where u: "db_UpdateSubscriber db ?sub' s = (d, s1)" by fastforce
  have s1: "rw_sessions rw s1 = rw_sessions rw s" by (rule db_UpdateSubscriber_sessions[OF assms(1) u])
  then have "session_keys_ok (rw_sessions rw s1)" using assms(2) by simp
  from terminate_sessions_unchanged[OF assms(1) this len] have "snd (terminateSubscriberSessions db now (sb_IMSI sub) s1) = s1"
    by (metis prod.collapse)
  then have "s' = s \<or> s' = s1" using assms(4) Inr u by (cases d) (auto simp: deactivateESIMProfile_def split: if_splits option.splits)
  then show ?thesis using s1 by blast
qed (use assms(4) in \<open>simp add: deactivateESIMProfile_def\<close>)

lemma suspend_result:
  assumes "sub_db_ok db rw" "session_keys_ok (rw_sessions rw s)" "\<forall>x \<in># rw_subs rw s. length (sb_IMSI x) = 15"
    "SuspendSubscriber db now i s = (e, s')"
  shows "rw_sessions rw s' = rw_sessions rw s" "e = None \<Longrightarrow> \<exists>sub \<in># rw_subs rw s. sb_ID sub = i
      \<and> rw_subs rw s' = add_mset (sub\<lparr>sb_Status := SubscriberStatusSuspended\<rparr>) (filter_mset (\<lambda>x. sb_ID x \<noteq> i) (rw_subs rw s))"
proof -
  have "rw_sessions rw s' = rw_sessions rw s \<and> (e = None \<longrightarrow> (\<exists>sub \<in># rw_subs rw s. sb_ID sub = i
      \<and> rw_subs rw s' = add_mset (sub\<lparr>sb_Status := SubscriberStatusSuspended\<rparr>) (filter_mset (\<lambda>x. sb_ID x \<noteq> i) (rw_subs rw s))))"
  proof (cases "db_GetSubscriber db i s")
    case (Inr sub)
    note row = db_GetSubscriber_row[OF assms(1) Inr]
    have len: "length (sb_IMSI sub) = 15" using row assms(3) by blast
    obtain d s1 where t: "terminateSubscriberSessions db now (sb_IMSI sub) s = (d, s1)" by fastforce
    have s1: "s1 = s" by (rule terminate_sessions_unchanged[OF assms(1,2) len t])
    obtain f s2 where u: "db_UpdateSubscriber db (sub\<lparr>sb_Status := SubscriberStatusSuspended\<rparr>) s = (f, s2)" by fastforce
    have "(e, s') = (case d of None \<Rightarrow> (f, s2) | Some x \<Rightarrow> (d, s))"
      using Inr t s1 u assms(4) by (cases d) (auto simp: SuspendSubscriber_def)
    then show ?thesis
      using db_UpdateSubscriber_sessions[OF assms(1) u] db_UpdateSubscriber_rows(1)[OF assms(1), of _ s s2] u row by (cases d; cases f) auto
  qed (use assms(4) in \<open>auto simp: SuspendSubscriber_def\<close>)
  then show "rw_sessions rw s' = rw_sessions rw s" "e = None \<Longrightarrow> \<exists>sub \<in># rw_subs rw s. sb_ID sub = i
      \<and> rw_subs rw s' = add_mset (sub\<lparr>sb_Status := SubscriberStatusSuspended\<rparr>) (filter_mset (\<lambda>x. sb_ID x \<noteq> i) (rw_subs rw s))" by blast+
qed

lemma terminate_result:
  assumes "sub_db_ok db rw" "session_keys_ok (rw_sessions rw s)" "\<forall>x \<in># rw_subs rw s. length (sb_IMSI x) = 15"
    "TerminateSubscriber db es now i s = (e, s')"
  shows "rw_sessions rw s' = rw_sessions rw s"
proof (cases "db_GetSubscriber db i s")
  case (Inr sub)
  note row = db_GetSubscriber_row[OF assms(1) Inr]
  have len: "length (sb_IMSI sub) = 15" using row assms(3) by blast
  obtain d s1 where t: "terminateSubscriberSessions db now (sb_IMSI sub) s = (d, s1)" by fastforce
  have s1: "s1 = s" by (rule terminate_sessions_unchanged[OF assms(1,2) len t])
  obtain f s2 where de: "deactivateESIMProfile db es now i s = (f, s2)" by fastforce
  note s2 = deactivate_sessions[OF assms(1-3) de]
  let ?sub' = "sub\<lparr>sb_Status := SubscriberStatusTerminated\<rparr>"
  obtain g s3 where u3: "db_UpdateSubscriber db ?sub' s2 = (g, s3)" by fastforce
  obtain h s4 where u4: "db_UpdateSubscriber db ?sub' s = (h, s4)" by fastforce
  have "s' \<in> {s, s2, s3, s4}"
    using assms(4) Inr t s1 de u3 u4 row(2) by (cases d; cases f) (auto simp: TerminateSubscriber_def Let_def split: if_splits)
  then show ?thesis
    using s2 db_UpdateSubscriber_sessions[OF assms(1) u3] db_UpdateSubscriber_sessions[OF assms(1) u4] by auto
qed (use assms(4) in \<open>simp add: TerminateSubscriber_def\<close>)

text \<open>Suspending a subscriber changes no session, neither does terminating it: the sessions are looked up by the
  IMSI in a column that holds keys. A suspension that reports success has set the status.\<close>

theorem suspension_ends_no_session:
  assumes "sub_db_ok db rw" "session_keys_ok (rw_sessions rw s)" "\<forall>x \<in># rw_subs rw s. length (sb_IMSI x) = 15"
    "SuspendSubscriber db now i s = (e, s1)" "TerminateSubscriber db es now i s = (f, s2)"
  shows "rw_sessions rw s1 = rw_sessions rw s \<and> rw_sessions rw s2 = rw_sessions rw s
    \<and> (e = None \<longrightarrow> (\<exists>sub \<in># rw_subs rw s. sb_ID sub = i
        \<and> rw_subs rw s1 = add_mset (sub\<lparr>sb_Status := SubscriberStatusSuspended\<rparr>) (filter_mset (\<lambda>x. sb_ID x \<noteq> i) (rw_subs rw s))))"
  using suspend_result[OF assms(1-4)] terminate_result[OF assms(1-3,5)] by blast

section \<open>Termination\<close>

text \<open>A subscriber whose termination succeeded has the status \<open>terminated\<close>, but a profile that was active is
  stored as active again although the server has deactivated it: the row is saved as it was read.\<close>

theorem terminated_profile_stays_active:
  assumes "sub_db_ok db rw" "db_GetSubscriber db i s = Inr sub" "sb_EUICCID sub \<noteq> ''''" "sb_ProfileStatus sub = ProfileStatusActive"
    "session_keys_ok (rw_sessions rw s)" "length (sb_IMSI sub) = 15" "TerminateSubscriber db es now i s = (None, s')"
  shows "sb_ProfileID sub \<noteq> '''' \<and> es2_deactivate es (sb_EUICCID sub) (sb_ProfileID sub) = None
    \<and> filter_mset (\<lambda>x. sb_ID x = i) (rw_subs rw s') = {#sub\<lparr>sb_Status := SubscriberStatusTerminated\<rparr>#}"
proof -
  note row = db_GetSubscriber_row[OF assms(1,2)]
  obtain e s1 where t: "terminateSubscriberSessions db now (sb_IMSI sub) s = (e, s1)" by fastforce
  have s1: "s1 = s" by (rule terminate_sessions_unchanged[OF assms(1,5,6) t])
  have e: "e = None" using assms(7,2) t by (cases e) (auto simp: TerminateSubscriber_def Let_def)
  obtain d s2 where de: "deactivateESIMProfile db es now i s = (d, s2)" by fastforce
  have d: "d = None" using assms(2-4,7) t s1 e de row(2) by (cases d) (auto simp: TerminateSubscriber_def Let_def)
  have u: "db_UpdateSubscriber db (sub\<lparr>sb_Status := SubscriberStatusTerminated\<rparr>) s2 = (None, s')"
    using assms(2-4,7) t s1 e de d row(2) by (simp add: TerminateSubscriber_def Let_def)
  have "sb_ProfileID sub \<noteq> '''' \<and> es2_deactivate es (sb_EUICCID sub) (sb_ProfileID sub) = None"
    using de d assms(2) by (auto simp: deactivateESIMProfile_def split: if_splits option.splits)
  then show ?thesis using db_UpdateSubscriber_rows(1)[OF assms(1) u] row(2) by (simp add: filter_filter_mset)
qed

section \<open>Sequence numbers\<close>

lemma incrementSQN_row:
  assumes "sub_db_ok db rw" "sd_increment db i s = (Inr n, s')" "unique_by sb_ID (rw_subs rw s)" "a \<in># rw_subs rw s" "sb_ID a = i"
  shows "n = sb_SQN a + 1"
  using sub_increment(1)[OF assms(1,2,4,5)] unique_by_same[OF assms(3) _ assms(4)] assms(5) by fastforce

text \<open>C18. An update of a subscriber that has read the row before an authentication vector was generated and saves it
  afterwards restores the old sequence number: the next vector uses the same number again.\<close>

theorem sequence_number_reused:
  assumes "sub_db_ok db rw" "unique_by sb_ID (rw_subs rw s)" "db_GetSubscriber db i s = Inr sub"
    "incrementSQN (auth_queries db) (auth_row_of sub) s = (Inr n1, s1)" "db_UpdateSubscriber db (apply_update req sub) s1 = (None, s2)"
    "incrementSQN (auth_queries db) (auth_row_of sub) s2 = (Inr n2, s3)"
  shows "n2 = n1 \<and> n1 = word_of_int (sb_SQN sub + 1)"
proof -
  note row = db_GetSubscriber_row[OF assms(1,3)]
  have id: "sb_ID sub = i" "sb_ID (apply_update req sub) = i" "sb_SQN (apply_update req sub) = sb_SQN sub"
    using row by (simp_all add: apply_update_def)
  obtain k1 where k1: "sd_increment db i s = (Inr k1, s1)" "n1 = word_of_int k1"
    using assms(4) id by (auto simp: incrementSQN_def auth_queries_def auth_row_of_def split: prod.splits sum.splits)
  obtain k2 where k2: "sd_increment db i s2 = (Inr k2, s3)" "n2 = word_of_int k2"
    using assms(6) id by (auto simp: incrementSQN_def auth_queries_def auth_row_of_def split: prod.splits sum.splits)
  have "k1 = sb_SQN sub + 1" using incrementSQN_row[OF assms(1) k1(1) assms(2)] row by blast
  moreover have "k2 = sb_SQN sub + 1"
  proof -
    note rows = db_UpdateSubscriber_rows(1)[OF assms(1,5), unfolded id]
    have "apply_update req sub \<in># rw_subs rw s2" by (simp add: rows)
    then obtain x where "x \<in># rw_subs rw s2" "sb_ID x = i" "k2 = sb_SQN x + 1" using sub_increment(1)[OF assms(1) k2(1) _ id(2)] by blast
    then show ?thesis unfolding rows using id(3) by auto
  qed
  ultimately show ?thesis using k1(2) k2(2) by simp
qed

text \<open>What an update saves is always such a row, with the old plan as the requested one where it is stored:
  a subscriber cannot change plans.\<close>

lemma saved_update_row:
  "saved_update db req sub s = apply_update (if sd_plan_stored db (sb_PlanID sub) s then req\<lparr>us_PlanID := Some (sb_PlanID sub)\<rparr> else req) sub"
  by (simp add: saved_update_def apply_update_def Let_def)

theorem plan_cannot_be_changed:
  assumes "sub_db_ok db rw" "UpdateSubscriber db i req s = (Inr sub', s')" "db_GetSubscriber db i s = Inr sub" "sd_plan_stored db (sb_PlanID sub) s"
  shows "sb_PlanID sub' = sb_PlanID sub \<and> sub' \<in># rw_subs rw s' \<and> (\<forall>x \<in># rw_subs rw s'. sb_ID x = i \<longrightarrow> x = sub')"
proof -
  have u: "db_UpdateSubscriber db sub' s = (None, s')" "sub' = saved_update db req sub s"
    using assms(2,3) by (auto simp: UpdateSubscriber_def split: prod.splits option.splits)
  then have "sb_PlanID sub' = sb_PlanID sub" "sb_ID sub' = i"
    using assms(4) db_GetSubscriber_row(2)[OF assms(1,3)] by (simp_all add: saved_update_def apply_update_def Let_def)
  with db_UpdateSubscriber_rows(1)[OF assms(1) u(1)] show ?thesis by auto
qed

section \<open>Payment methods\<close>

text \<open>A subscriber with methods has exactly one default.\<close>

definition one_default :: "int \<Rightarrow> PaymentMethod multiset \<Rightarrow> bool" where
  "one_default sid M \<longleftrightarrow> filter_mset (\<lambda>x. pm_SubscriberID x = sid) M = {#} \<or> size (filter_mset (\<lambda>x. pm_SubscriberID x = sid \<and> pm_IsDefault x) M) = 1"

lemma first_method:
  assumes "sub_db_ok db rw" "first_of (tb_first (sd_methods db) P k s) = Inr m"
  shows "m \<in># rw_methods rw s" "P m"
proof -
  obtain q where t: "table_ok (sd_methods db) (rw_methods rw) q" by (rule sub_db_tables[OF assms(1)])
  show "m \<in># rw_methods rw s" "P m" using table_first[OF t] assms(2) unfolding first_of_Inr by blast+
qed

lemma deleted_methods:
  assumes "sub_db_ok db rw" "deleted (tb_delete (sd_methods db) P s) = (None, s')"
  shows "rw_methods rw s' = filter_mset (\<lambda>x. \<not> P x) (rw_methods rw s)"
proof -
  obtain q where t: "table_ok (sd_methods db) (rw_methods rw) q" by (rule sub_db_tables[OF assms(1)])
  obtain r s1 where d: "tb_delete (sd_methods db) P s = (r, s1)" by fastforce
  show ?thesis using table_delete[OF t d] assms(2) d by (cases r) (simp_all add: deleted_def)
qed

lemma set_method:
  assumes "sub_db_ok db rw" "done_by (tb_set (sd_methods db) P f s) = (None, s')"
  shows "rw_methods rw s' = image_mset (\<lambda>x. if P x then f x else x) (rw_methods rw s)"
  using table_set[OF sub_db_laws(5)[OF assms(1)], of P f s] assms(2) by (cases "tb_set (sd_methods db) P f s") (auto split: if_splits)

lemma image_unique:
  assumes "unique_by f M" "M = add_mset a N"
  shows "image_mset (\<lambda>x. if f x = f a then g x else x) M = add_mset (g a) N"
    "filter_mset (\<lambda>x. f x \<noteq> f a) M = N" "image_mset (\<lambda>x. if Q x \<and> f x \<noteq> f a then h x else x) N = image_mset (\<lambda>x. if Q x then h x else x) N"
proof -
  have n: "\<forall>x \<in># N. f x \<noteq> f a" using assms by (simp add: unique_by_add)
  have "image_mset (\<lambda>x. if f x = f a then g x else x) N = image_mset id N" using n by (intro image_mset_cong) auto
  then show "image_mset (\<lambda>x. if f x = f a then g x else x) M = add_mset (g a) N" by (simp add: assms(2))
  show "filter_mset (\<lambda>x. f x \<noteq> f a) M = N" using n by (simp add: assms(2) filter_mset_eq_conv)
  show "image_mset (\<lambda>x. if Q x \<and> f x \<noteq> f a then h x else x) N = image_mset (\<lambda>x. if Q x then h x else x) N"
    using n by (intro image_mset_cong) auto
qed

lemma set_default_rows:
  assumes ok: "sub_db_ok db rw" and u: "unique_by pm_ID (rw_methods rw s)" and call: "SetDefaultPaymentMethod db i s = (None, s')"
  obtains m N where "rw_methods rw s = add_mset m N" "pm_ID m = i"
    "rw_methods rw s' = add_mset (m\<lparr>pm_IsDefault := True\<rparr>) (image_mset (\<lambda>x. if pm_SubscriberID x = pm_SubscriberID m then x\<lparr>pm_IsDefault := False\<rparr> else x) N)"
proof -
  obtain m where m: "first_of (tb_first (sd_methods db) (\<lambda>r. pm_ID r = i) (\<lambda>_. 0) s) = Inr m"
    using call by (cases "first_of (tb_first (sd_methods db) (\<lambda>r. pm_ID r = i) (\<lambda>_. 0) s)") (auto simp: SetDefaultPaymentMethod_def)
  note row = first_method[OF ok m]
  obtain N where N: "rw_methods rw s = add_mset m N" using row(1) by (meson multi_member_split)
  let ?P = "\<lambda>r. pm_SubscriberID r = pm_SubscriberID m \<and> pm_ID r \<noteq> i"
  let ?off = "\<lambda>r. r\<lparr>pm_IsDefault := False\<rparr>"
  let ?on = "\<lambda>r. r\<lparr>pm_IsDefault := True\<rparr>"
  obtain s1 where s1: "done_by (tb_set (sd_methods db) ?P ?off s) = (None, s1)" "done_by (tb_set (sd_methods db) (\<lambda>r. pm_ID r = pm_ID m) ?on s1) = (None, s')"
    using call m by (auto simp: SetDefaultPaymentMethod_def split: prod.splits option.splits)
  have i: "pm_ID m = i" using row(2) .
  let ?N = "image_mset (\<lambda>x. if pm_SubscriberID x = pm_SubscriberID m then ?off x else x) N"
  have r1: "rw_methods rw s1 = add_mset m ?N"
    using set_method[OF ok s1(1)] image_unique(3)[OF u N, of "\<lambda>x. pm_SubscriberID x = pm_SubscriberID m" ?off] by (simp add: N i)
  have "unique_by pm_ID (add_mset m ?N)"
    using u unfolding N unique_by_add
    by (auto simp: unique_by_def filter_mset_image_mset cong: filter_mset_cong if_cong)
  then have "rw_methods rw s' = add_mset (?on m) ?N" using set_method[OF ok s1(2)] image_unique(1)[OF _ r1] r1 by simp
  then show thesis using that N i by blast
qed

lemma remove_rows:
  assumes ok: "sub_db_ok db rw" and u: "unique_by pm_ID (rw_methods rw s)" and call: "RemovePaymentMethod db j s = (None, s')"
  obtains (plain) m N where "rw_methods rw s = add_mset m N" "pm_ID m = j" "\<not> pm_IsDefault m" "rw_methods rw s' = N" "filter_mset (\<lambda>x. pm_SubscriberID x = pm_SubscriberID m) N \<noteq> {#}"
    | (promoted) m d N where "rw_methods rw s = add_mset m (add_mset d N)" "pm_ID m = j" "pm_IsDefault m" "pm_SubscriberID d = pm_SubscriberID m"
        "rw_methods rw s' = add_mset (d\<lparr>pm_IsDefault := True\<rparr>) N"
proof -
  obtain m where m: "first_of (tb_first (sd_methods db) (\<lambda>r. pm_ID r = j) (\<lambda>_. 0) s) = Inr m"
    using call by (cases "first_of (tb_first (sd_methods db) (\<lambda>r. pm_ID r = j) (\<lambda>_. 0) s)") (auto simp: RemovePaymentMethod_def)
  note row = first_method[OF ok m]
  obtain n where n: "tb_count (sd_methods db) (\<lambda>r. pm_SubscriberID r = pm_SubscriberID m) s = Inr n" "n \<noteq> 1"
    using call m by (auto simp: RemovePaymentMethod_def split: sum.splits if_splits)
  note call1 = call[unfolded RemovePaymentMethod_def m n(1) sum.case if_not_P[OF n(2)]]
  obtain N where N: "rw_methods rw s = add_mset m N" using row(1) by (meson multi_member_split)
  have more: "filter_mset (\<lambda>x. pm_SubscriberID x = pm_SubscriberID m) N \<noteq> {#}"
    using table_count[OF sub_db_laws(5)[OF ok] n(1)] n(2) by (auto simp: N)
  show thesis
  proof (cases "pm_IsDefault m")
    case False
    have "deleted (tb_delete (sd_methods db) (\<lambda>r. pm_ID r = pm_ID m) s) = (None, s')" using call1 False by simp
    then have "rw_methods rw s' = N" using deleted_methods[OF ok] image_unique(2)[OF u N] by simp
    then show thesis using plain N row(2) False more by blast
  next
    case True
    let ?on = "\<lambda>r. r\<lparr>pm_IsDefault := True\<rparr>"
    obtain d where d: "first_of (tb_first (sd_methods db) (\<lambda>r. pm_SubscriberID r = pm_SubscriberID m \<and> pm_ID r \<noteq> j) (\<lambda>_. 0) s) = Inr d"
      using call1 True by (cases "first_of (tb_first (sd_methods db) (\<lambda>r. pm_SubscriberID r = pm_SubscriberID m \<and> pm_ID r \<noteq> j) (\<lambda>_. 0) s)") auto
    note rd = first_method[OF ok d]
    obtain s1 where s1: "done_by (tb_set (sd_methods db) (\<lambda>r. pm_ID r = pm_ID d) ?on s) = (None, s1)"
      "deleted (tb_delete (sd_methods db) (\<lambda>r. pm_ID r = pm_ID m) s1) = (None, s')"
      using call1 True d by (auto split: prod.splits option.splits)
    have ne: "pm_ID d \<noteq> pm_ID m" using rd row by blast
    have "d \<in># N" using rd(1) ne unfolding N by auto
    then obtain M where M: "N = add_mset d M" by (meson multi_member_split)
    have eq: "rw_methods rw s = add_mset d (add_mset m M)" by (simp add: N M add_mset_commute)
    have r1: "rw_methods rw s1 = add_mset m (add_mset (?on d) M)"
      using set_method[OF ok s1(1)] image_unique(1)[OF u eq, of ?on] by (simp add: add_mset_commute)
    have "\<forall>x \<in># add_mset (?on d) M. pm_ID x \<noteq> pm_ID m" using u ne unfolding N M unique_by_add by auto
    then have "rw_methods rw s' = add_mset (?on d) M"
      using deleted_methods[OF ok s1(2)] unfolding r1 by (simp add: filter_mset_eq_conv)
    then show thesis using promoted N M row(2) True rd(2) by blast
  qed
qed

lemma filter_untouched:
  "(\<And>x. x \<in># N \<Longrightarrow> c x \<Longrightarrow> \<not> P x \<and> \<not> P (g x)) \<Longrightarrow> filter_mset P (image_mset (\<lambda>x. if c x then g x else x) N) = filter_mset P N"
  by (induction N) auto

lemma set_default_keeps:
  assumes "sub_db_ok db rw" "unique_by pm_ID (rw_methods rw s)" "one_default sid (rw_methods rw s)" "SetDefaultPaymentMethod db i s = (None, s1)"
  shows "one_default sid (rw_methods rw s1)" "\<exists>x \<in># rw_methods rw s1. pm_ID x = i \<and> pm_IsDefault x"
proof -
  obtain m N where m: "rw_methods rw s = add_mset m N" "pm_ID m = i"
    "rw_methods rw s1 = add_mset (m\<lparr>pm_IsDefault := True\<rparr>) (image_mset (\<lambda>x. if pm_SubscriberID x = pm_SubscriberID m then x\<lparr>pm_IsDefault := False\<rparr> else x) N)"
    by (rule set_default_rows[OF assms(1,2,4)])
  show "\<exists>x \<in># rw_methods rw s1. pm_ID x = i \<and> pm_IsDefault x"
    unfolding m(3) using m(2) by (intro bexI[of _ "m\<lparr>pm_IsDefault := True\<rparr>"]) simp_all
  have rest: "filter_mset (\<lambda>x. pm_SubscriberID x = sid \<and> P x) (image_mset (\<lambda>x. if pm_SubscriberID x = k then x\<lparr>pm_IsDefault := False\<rparr> else x) N)
      = filter_mset (\<lambda>x. pm_SubscriberID x = sid \<and> P x) N" if "sid \<noteq> k" for P k
    by (rule filter_untouched) (use that in auto)
  have none: "filter_mset (\<lambda>x. pm_SubscriberID x = k \<and> pm_IsDefault x) (image_mset (\<lambda>x. if pm_SubscriberID x = k then x\<lparr>pm_IsDefault := False\<rparr> else x) N) = {#}" for k
    unfolding filter_mset_eq_mempty_iff by auto
  show "one_default sid (rw_methods rw s1)"
  proof (cases "sid = pm_SubscriberID m")
    case True
    have "filter_mset (\<lambda>x. pm_SubscriberID x = sid \<and> pm_IsDefault x) (rw_methods rw s1) = {#m\<lparr>pm_IsDefault := True\<rparr>#}"
      unfolding m(3) True filter_mset_add_mset none by simp
    then show ?thesis by (simp add: one_default_def)
  next
    case False
    have e: "filter_mset (\<lambda>x. pm_SubscriberID x = sid \<and> P x) (rw_methods rw s1) = filter_mset (\<lambda>x. pm_SubscriberID x = sid \<and> P x) (rw_methods rw s)" for P
      unfolding m(1,3) filter_mset_add_mset rest[OF False] using False by simp
    show ?thesis using e[of "\<lambda>_. True"] e[of pm_IsDefault] assms(3) by (simp add: one_default_def)
  qed
qed

lemma remove_keeps:
  assumes "sub_db_ok db rw" "unique_by pm_ID (rw_methods rw s)" "one_default sid (rw_methods rw s)" "RemovePaymentMethod db j s = (None, s2)"
  shows "one_default sid (rw_methods rw s2) \<and> (\<exists>m \<in># rw_methods rw s. pm_ID m = j \<and> (\<exists>x \<in># rw_methods rw s2. pm_SubscriberID x = pm_SubscriberID m))"
  using assms(1,2,4)
proof (cases rule: remove_rows)
  case (plain m N)
  obtain x where x: "x \<in># N" "pm_SubscriberID x = pm_SubscriberID m" using plain(5) by (metis (mono_tags, lifting) mem_Collect_eq multiset_nonemptyE set_mset_filter)
  have "one_default sid N" using assms(3) plain(1,3,5) by (simp add: one_default_def split: if_splits)
  then show ?thesis using plain(1,2,4) x by auto
next
  case (promoted m d N)
  have "one_default sid (add_mset (d\<lparr>pm_IsDefault := True\<rparr>) N)"
    using assms(3) promoted(1,3,4) by (cases "pm_SubscriberID m = sid"; cases "pm_IsDefault d") (simp_all add: one_default_def)
  then show ?thesis using promoted(1,2,4,5) by simp
qed

text \<open>C22. When every subscriber with payment methods has exactly one default, this stays so under changes of the
  default and removals; a change makes the given method the default, and a removal leaves the subscriber at least one
  other method.\<close>

theorem payment_defaults:
  assumes "sub_db_ok db rw" "unique_by pm_ID (rw_methods rw s)" "one_default sid (rw_methods rw s)"
    "SetDefaultPaymentMethod db i s = (None, s1)" "RemovePaymentMethod db j s = (None, s2)"
  shows "one_default sid (rw_methods rw s1) \<and> (\<exists>x \<in># rw_methods rw s1. pm_ID x = i \<and> pm_IsDefault x)
    \<and> one_default sid (rw_methods rw s2) \<and> (\<exists>m \<in># rw_methods rw s. pm_ID m = j \<and> (\<exists>x \<in># rw_methods rw s2. pm_SubscriberID x = pm_SubscriberID m))"
  using set_default_keeps[OF assms(1-4)] remove_keeps[OF assms(1-3,5)] by blast

section \<open>Deletion\<close>

lemma deleted_sub:
  assumes "sub_db_ok db rw" "deleted (tb_delete (sd_subs db) P s) = (None, s')"
  shows "rw_subs rw s' = filter_mset (\<lambda>x. \<not> P x) (rw_subs rw s)" "rw_methods rw s' = rw_methods rw s" "rw_alerts rw s' = rw_alerts rw s"
proof -
  obtain q where t: "table_ok (sd_subs db) (rw_subs rw) q" by (rule sub_db_tables[OF assms(1)])
  obtain r where d: "tb_delete (sd_subs db) P s = (Inr r, s')"
    using assms(2) by (auto simp: deleted_def split: prod.splits sum.splits)
  show "rw_subs rw s' = filter_mset (\<lambda>x. \<not> P x) (rw_subs rw s)" using table_delete[OF t d] by simp
  show "rw_methods rw s' = rw_methods rw s" "rw_alerts rw s' = rw_alerts rw s"
    using frame_delete[OF _ d] sub_db_laws(7,8)[OF assms(1)] by blast+
qed

text \<open>Deleting a subscriber is all or nothing: a failure leaves the state as it was, and otherwise the subscriber, its
  payment methods and its alerts are gone and nothing else of these tables is.\<close>

theorem deletion_all_or_nothing:
  assumes "sub_db_ok db rw" "unique_by sb_IMSI (rw_subs rw s)" "DeleteSubscriber db i s = (e, s')"
  shows "(e \<noteq> None \<longrightarrow> s' = s)
    \<and> (e = None \<longrightarrow> rw_subs rw s' = filter_mset (\<lambda>x. sb_ID x \<noteq> i) (rw_subs rw s)
        \<and> rw_methods rw s' = filter_mset (\<lambda>x. pm_SubscriberID x \<noteq> i) (rw_methods rw s)
        \<and> rw_alerts rw s' = filter_mset (\<lambda>x. fst x \<noteq> i) (rw_alerts rw s))"
proof (cases e)
  case (Some x)
  have "s' = s0" if "in_tx fs s0 s1 = (Some x, s')" for fs s0 s1
    using that by (induction fs arbitrary: s1) (auto split: prod.splits option.splits)
  then show ?thesis using assms(3) Some by (auto simp: DeleteSubscriber_def simp del: in_tx.simps)
next
  case None
  obtain s1 s2 s3 where
    m: "deleted (tb_delete (sd_methods db) (\<lambda>r. pm_SubscriberID r = i) s) = (None, s1)" and
    a: "deleted (tb_delete (sd_alerts db) (\<lambda>r. fst r = i) s1) = (None, s2)" and
    b: "(case db_GetSubscriber db i s2 of
            Inr sub \<Rightarrow> deleted (tb_delete (sd_subs db) (\<lambda>r. sb_IMSI r = sb_IMSI sub) s2)
          | Inl NotFound \<Rightarrow> (None, s2) | Inl e \<Rightarrow> (Some e, s2)) = (None, s3)" and
    c: "deleted (tb_delete (sd_subs db) (\<lambda>r. sb_ID r = i) s3) = (None, s')"
    using assms(3) None unfolding DeleteSubscriber_def in_tx.simps by (auto split: prod.splits option.splits)
  obtain q where ta: "table_ok (sd_alerts db) (rw_alerts rw) q" by (rule sub_db_tables[OF assms(1)])
  obtain rm where dm: "tb_delete (sd_methods db) (\<lambda>r. pm_SubscriberID r = i) s = (rm, s1)" using m by (auto simp: deleted_def split: prod.splits sum.splits)
  obtain ra where da: "tb_delete (sd_alerts db) (\<lambda>r. fst r = i) s1 = (Inr ra, s2)" using a by (auto simp: deleted_def split: prod.splits sum.splits)
  have r1: "rw_methods rw s1 = filter_mset (\<lambda>x. pm_SubscriberID x \<noteq> i) (rw_methods rw s)" "rw_subs rw s1 = rw_subs rw s" "rw_alerts rw s1 = rw_alerts rw s"
    using deleted_methods[OF assms(1) m] frame_delete[OF _ dm] sub_db_laws(11,12)[OF assms(1)] by auto
  have r2: "rw_alerts rw s2 = filter_mset (\<lambda>x. fst x \<noteq> i) (rw_alerts rw s1)" "rw_subs rw s2 = rw_subs rw s1" "rw_methods rw s2 = rw_methods rw s1"
    using table_delete[OF ta da] frame_delete[OF _ da] sub_db_laws(13,14)[OF assms(1)] by auto
  have r3: "filter_mset (\<lambda>x. sb_ID x \<noteq> i) (rw_subs rw s3) = filter_mset (\<lambda>x. sb_ID x \<noteq> i) (rw_subs rw s)
      \<and> rw_methods rw s3 = rw_methods rw s2 \<and> rw_alerts rw s3 = rw_alerts rw s2"
  proof (cases "db_GetSubscriber db i s2")
    case (Inl x)
    then show ?thesis using b r1 r2 by (cases x) auto
  next
    case (Inr sub)
    note row = db_GetSubscriber_row[OF assms(1) Inr]
    have d: "deleted (tb_delete (sd_subs db) (\<lambda>r. sb_IMSI r = sb_IMSI sub) s2) = (None, s3)" using b Inr by simp
    have "sub \<in># rw_subs rw s" using row(1) r1 r2 by simp
    then have "sb_ID x \<noteq> i \<Longrightarrow> sb_IMSI x \<noteq> sb_IMSI sub" if "x \<in># rw_subs rw s" for x
      using unique_by_same[OF assms(2) that] row(2) by blast
    then have "filter_mset (\<lambda>x. sb_ID x \<noteq> i) (filter_mset (\<lambda>x. sb_IMSI x \<noteq> sb_IMSI sub) (rw_subs rw s)) = filter_mset (\<lambda>x. sb_ID x \<noteq> i) (rw_subs rw s)"
      unfolding filter_filter_mset by (intro filter_mset_cong[OF refl]) blast
    then show ?thesis using deleted_sub[OF assms(1) d] r1 r2 by simp
  qed
  show ?thesis using deleted_sub[OF assms(1) c] r1 r2 r3 None by auto
qed

section \<open>A database in memory\<close>

record sub_mem =
  sm_subs :: "Subscriber list"
  sm_sessions :: "Session list"
  sm_alloc :: "IMSIAllocation list"
  sm_methods :: "PaymentMethod list"
  sm_alerts :: "(int \<times> string) list"

definition next_sqn :: "int \<Rightarrow> Subscriber \<Rightarrow> Subscriber" where
  "next_sqn i r = (if sb_ID r = i then r\<lparr>sb_SQN := sb_SQN r + 1\<rparr> else r)"

definition mem_db :: "sub_mem sub_db" where
  "mem_db = \<lparr>
     sd_subs = list_table sm_subs (\<lambda>xs s. s\<lparr>sm_subs := xs\<rparr>) sb_ID (\<lambda>r x. r),
     sd_sessions = list_table sm_sessions (\<lambda>xs s. s\<lparr>sm_sessions := xs\<rparr>) ss_ID (\<lambda>r x. r),
     sd_alloc = list_table sm_alloc (\<lambda>xs s. s\<lparr>sm_alloc := xs\<rparr>) ia_ID (\<lambda>r x. r),
     sd_methods = list_table sm_methods (\<lambda>xs s. s\<lparr>sm_methods := xs\<rparr>) pm_ID (\<lambda>r x. r),
     sd_alerts = list_table sm_alerts (\<lambda>xs s. s\<lparr>sm_alerts := xs\<rparr>) fst (\<lambda>r x. r),
     sd_plan_stored = (\<lambda>p s. 0 < p),
     sd_unknown_column = (\<lambda>c s. (Some c, s)),
     sd_increment = (\<lambda>i s. case filter (\<lambda>r. sb_ID r = i) (sm_subs s) of
         [] \<Rightarrow> (Inr 0, s)
       | r # _ \<Rightarrow> (Inr (sb_SQN r + 1), s\<lparr>sm_subs := map (next_sqn i) (sm_subs s)\<rparr>))\<rparr>"

definition mem_rows :: "sub_mem sub_rows" where
  "mem_rows = \<lparr>rw_subs = (\<lambda>s. mset (sm_subs s)), rw_sessions = (\<lambda>s. mset (sm_sessions s)), rw_alloc = (\<lambda>s. mset (sm_alloc s)),
     rw_methods = (\<lambda>s. mset (sm_methods s)), rw_alerts = (\<lambda>s. mset (sm_alerts s))\<rparr>"

lemma list_table_frame: "(\<And>xs s. get' (put xs s) = get' s) \<Longrightarrow> table_frame (list_table get put key merge) (\<lambda>s. mset (get' s))"
  by (simp add: table_frame_def list_table_def)

lemma mem_db_ok: "sub_db_ok mem_db mem_rows"
proof -
  have inc: "((\<exists>r \<in># mset (sm_subs s). sb_ID r = i \<and> n = sb_SQN r + 1) \<or> (\<forall>r \<in># mset (sm_subs s). sb_ID r \<noteq> i) \<and> n = 0)
      \<and> mset (sm_subs s') = image_mset (\<lambda>r. if sb_ID r = i then r\<lparr>sb_SQN := sb_SQN r + 1\<rparr> else r) (mset (sm_subs s))"
    if "sd_increment mem_db i s = (Inr n, s')" for i s n s'
  proof (cases "filter (\<lambda>r. sb_ID r = i) (sm_subs s)")
    case Nil
    then have none: "\<forall>r \<in> set (sm_subs s). sb_ID r \<noteq> i" by (simp add: filter_empty_conv)
    then have "image_mset (\<lambda>r. if sb_ID r = i then r\<lparr>sb_SQN := sb_SQN r + 1\<rparr> else r) (mset (sm_subs s)) = mset (sm_subs s)"
      by (induction "sm_subs s") (auto intro: multiset.map_ident_strong)
    moreover have "n = 0" "s' = s" using that Nil by (simp_all add: mem_db_def)
    ultimately show ?thesis using none by simp
  next
    case (Cons r rs)
    then have "r \<in> set (filter (\<lambda>r. sb_ID r = i) (sm_subs s))" by simp
    then have "r \<in> set (sm_subs s)" "sb_ID r = i" by auto
    moreover have "n = sb_SQN r + 1" "s' = s\<lparr>sm_subs := map (next_sqn i) (sm_subs s)\<rparr>" using that Cons by (auto simp: mem_db_def)
    ultimately show ?thesis by (auto simp: next_sqn_def[abs_def])
  qed
  have tables: "\<exists>m. table_ok (sd_subs mem_db) (rw_subs mem_rows) m" "\<exists>m. table_ok (sd_sessions mem_db) (rw_sessions mem_rows) m"
    "\<exists>m. table_ok (sd_alloc mem_db) (rw_alloc mem_rows) m" "\<exists>m. table_ok (sd_methods mem_db) (rw_methods mem_rows) m"
    "\<exists>m. table_ok (sd_alerts mem_db) (rw_alerts mem_rows) m"
    unfolding mem_db_def mem_rows_def sub_db.simps sub_rows.simps by (rule exI, rule list_table_ok, simp)+
  have "\<forall>i s n s'. sd_increment mem_db i s = (Inr n, s') \<longrightarrow>
        ((\<exists>r \<in># rw_subs mem_rows s. sb_ID r = i \<and> n = sb_SQN r + 1) \<or> (\<forall>r \<in># rw_subs mem_rows s. sb_ID r \<noteq> i) \<and> n = 0)
      \<and> rw_subs mem_rows s' = image_mset (\<lambda>r. if sb_ID r = i then r\<lparr>sb_SQN := sb_SQN r + 1\<rparr> else r) (rw_subs mem_rows s)"
    unfolding mem_rows_def sub_rows.simps using inc by blast
  with tables show ?thesis
    unfolding sub_db_ok_def
    by (intro conjI, assumption?) (simp_all add: mem_db_def mem_rows_def list_table_save list_table_set list_table_frame)
qed

definition demo_sub :: Subscriber where
  "demo_sub = \<lparr>sb_ID = 7, sb_IMSI = ''208930000000001'', sb_MSISDN = ''+254'', sb_FirstName = ''A'', sb_LastName = ''B'', sb_Email = ''a'',
     sb_OrganizationID = '''', sb_Status = ''active'', sb_PlanID = 1, sb_Balance = f64_lit 5, sb_AuthKey = '''', sb_OPc = '''', sb_SQN = 0,
     sb_ServingPLMN = (''208'', ''93''), sb_EUICCID = ''e'', sb_ProfileID = ''p'', sb_ProfileStatus = ''active''\<rparr>"

definition demo_method :: "string \<Rightarrow> bool \<Rightarrow> PaymentMethod" where
  "demo_method i d = \<lparr>pm_ID = i, pm_SubscriberID = 7, pm_GatewayID = ''g'', pm_Type = ''card'', pm_CustomerID = ''cus_7'', pm_Last4 = ''1111'',
     pm_Brand = ''visa'', pm_ExpiryMonth = 1, pm_ExpiryYear = 2030, pm_IsDefault = d, pm_CreatedAt = 0\<rparr>"

definition demo_mem :: sub_mem where
  "demo_mem = \<lparr>sm_subs = [demo_sub], sm_sessions = [\<lparr>ss_ID = 1, ss_SubscriberID = 7, ss_SessionID = ''x'', ss_Status = ''active'', ss_EndTime = None\<rparr>],
     sm_alloc = [\<lparr>ia_ID = 1, ia_LastIMSI = 0, ia_MinIMSI = 1, ia_MaxIMSI = 999999999\<rparr>],
     sm_methods = [demo_method ''a'' True, demo_method ''b'' False], sm_alerts = [(7, ''low''), (8, ''low'')]\<rparr>"

definition demo_es2 :: es2 where
  "demo_es2 = \<lparr>es2_download = (\<lambda>_ _. Inr ''p''), es2_activate = (\<lambda>_ _. None), es2_deactivate = (\<lambda>_ _. None)\<rparr>"

lemmas mem_simps = mem_db_def mem_rows_def list_table_def demo_mem_def demo_sub_def demo_method_def demo_es2_def

lemma demo_get: "db_GetSubscriber mem_db 7 demo_mem = Inr demo_sub"
  by (simp add: db_GetSubscriber_def first_of_def mem_simps)

lemma mem_total: "no_failures (sd_subs mem_db)"
  by (simp add: no_failures_def mem_db_def list_table_def)

text \<open>A database with nothing but the allocation.\<close>

definition demo_alloc :: IMSIAllocation where
  "demo_alloc = \<lparr>ia_ID = 1, ia_LastIMSI = 0, ia_MinIMSI = 1, ia_MaxIMSI = 999999999\<rparr>"

definition new_mem :: sub_mem where
  "new_mem = \<lparr>sm_subs = [], sm_sessions = [], sm_alloc = [demo_alloc], sm_methods = [], sm_alerts = []\<rparr>"

lemma new_mem_alloc: "rw_alloc mem_rows new_mem = {#demo_alloc#}" "alloc_ok demo_alloc"
  by (simp_all add: mem_rows_def new_mem_def alloc_ok_def demo_alloc_def)

lemma two_imsis: "fst (allocate_many mem_db ''20893'' 2 new_mem) = [''208930000000001'', ''208930000000002'']"
  by code_simp

theorem imsis_sequential_witness:
  "distinct (fst (allocate_many mem_db ''20893'' 2 new_mem)) \<and> length (fst (allocate_many mem_db ''20893'' 2 new_mem)) = 2"
  using imsis_sequential[OF mem_db_ok new_mem_alloc, of "''20893''" 2] two_imsis by (metis length_Cons list.size(3) numeral_2_eq_2 prod.collapse)

lemma interleaved_imsis:
  "fst (interleave mem_db ''20893'' [True, False, False, True] (\<lambda>_. None) (\<lambda>_. None) new_mem) True = Some ''208930000000001''"
  "fst (interleave mem_db ''20893'' [True, False, False, True] (\<lambda>_. None) (\<lambda>_. None) new_mem) False = Some ''208930000000001''"
  by code_simp+

theorem overlapping_allocations_collide_witness:
  "\<exists>out s' x y. interleave mem_db ''20893'' [True, False, False, True] (\<lambda>_. None) (\<lambda>_. None) new_mem = (out, s')
     \<and> out True = Some x \<and> out False = Some y \<and> x = y"
proof -
  obtain out s' where o: "interleave mem_db ''20893'' [True, False, False, True] (\<lambda>_. None) (\<lambda>_. None) new_mem = (out, s')" by fastforce
  then have b: "out True = Some ''208930000000001''" "out False = Some ''208930000000001''" using interleaved_imsis by simp_all
  have "mset [True, False, False, True] = {#True, True, False, False#}" by simp
  from overlapping_allocations_collide[OF mem_db_ok new_mem_alloc this o b] o b show ?thesis by blast
qed

definition demo_request :: CreateSubscriberRequest where
  "demo_request = \<lparr>cs_MSISDN = ''+254'', cs_FirstName = ''A'', cs_LastName = ''B'', cs_Email = ''a'', cs_OrganizationID = '''', cs_PlanID = 1, cs_EUICCID = ''89''\<rparr>"

theorem esim_never_provisioned_witness:
  "\<exists>sub s'. CreateSubscriber mem_db demo_cipher ''20893'' '''' (Some (replicate 16 1)) 7 demo_request new_mem = Returns (Inr sub, s', Some 7)
     \<and> sb_EUICCID sub = ''89'' \<and> (\<exists>e. provisionESIMProfile mem_db demo_es2 7 s' = (Some e, s'))"
proof -
  obtain key opc where g: "generateAuthKeys demo_cipher '''' (Some (replicate 16 1)) = Returns (Inr (key, opc))"
    using generated_keys[OF _ demo_cipher_ok(1), of "replicate 16 1"] by simp
  have "allocateIMSI mem_db ''20893'' new_mem = (Inr (imsi_text ''20893'' 1), new_mem\<lparr>sm_alloc := [next_allocation demo_alloc]\<rparr>)"
    by (simp add: allocateIMSI_def GetIMSIAllocation_def store_allocation_def UpdateIMSIAllocation_def first_of_def next_allocation_def
        mem_db_def list_table_def new_mem_def demo_alloc_def)
  then obtain sub s' where c: "CreateSubscriber mem_db demo_cipher ''20893'' '''' (Some (replicate 16 1)) 7 demo_request new_mem = Returns (Inr sub, s', Some 7)"
    by (auto simp: CreateSubscriber_def g Let_def mem_db_def list_table_def demo_request_def)
  have "\<forall>r \<in># rw_subs mem_rows new_mem. sb_ID r \<noteq> 7" by (simp add: mem_rows_def new_mem_def)
  from esim_never_provisioned[OF mem_db_ok c this, of demo_es2] c show ?thesis by (auto simp: demo_request_def)
qed

theorem failed_top_ups_credit_witness:
  "rw_subs mem_rows (snd (top_ups mem_db ''208930000000001'' [f64_lit 10, f64_lit 10] demo_mem))
     = {#demo_sub\<lparr>sb_Balance := f64_add (f64_add (f64_lit 5) (f64_lit 10)) (f64_lit 10)\<rparr>#}"
proof -
  have r: "rw_subs mem_rows demo_mem = {#demo_sub#}" by (simp add: mem_rows_def demo_mem_def)
  obtain results s' where t: "top_ups mem_db ''208930000000001'' [f64_lit 10, f64_lit 10] demo_mem = (results, s')" by fastforce
  have "unique_by sb_IMSI (rw_subs mem_rows demo_mem)" "demo_sub \<in># rw_subs mem_rows demo_mem" "sb_IMSI demo_sub = ''208930000000001''"
    by (simp_all add: r unique_by_add demo_sub_def)
  from failed_top_ups_credit[OF mem_db_ok mem_total this t] have "rw_subs mem_rows s' = {#demo_sub\<lparr>sb_Balance := foldl f64_add (sb_Balance demo_sub) [f64_lit 10, f64_lit 10]\<rparr>#}"
    by (simp add: r)
  then show ?thesis using t by (simp add: demo_sub_def)
qed

lemma demo_keys: "session_keys_ok (rw_sessions mem_rows demo_mem)" "\<forall>x \<in># rw_subs mem_rows demo_mem. length (sb_IMSI x) = 15" "length (sb_IMSI demo_sub) = 15"
  by (simp_all add: session_keys_ok_def mem_rows_def demo_mem_def demo_sub_def)

theorem suspension_ends_no_session_witness:
  "rw_sessions mem_rows (snd (SuspendSubscriber mem_db (\<lambda>_. 5) 7 demo_mem)) = rw_sessions mem_rows demo_mem"
  using suspension_ends_no_session[OF mem_db_ok demo_keys(1,2), of "\<lambda>_. 5" 7 _ _ demo_es2] by (metis prod.collapse)

theorem terminated_profile_stays_active_witness:
  "\<exists>s'. TerminateSubscriber mem_db demo_es2 (\<lambda>_. 5) 7 demo_mem = (None, s')
     \<and> filter_mset (\<lambda>x. sb_ID x = 7) (rw_subs mem_rows s') = {#demo_sub\<lparr>sb_Status := ''terminated''\<rparr>#}"
proof -
  obtain e s' where t: "TerminateSubscriber mem_db demo_es2 (\<lambda>_. 5) 7 demo_mem = (e, s')" by fastforce
  have n: "show_int 7 = ''7''" by code_simp
  have "e = None"
    using t unfolding TerminateSubscriber_def deactivateESIMProfile_def demo_get sum.case Let_def
    by (simp add: terminateSubscriberSessions_def GetActiveSessionsByIMSI_def db_GetSubscriber_def first_of_def db_UpdateSubscriber_def mem_simps n)
  moreover have "sb_EUICCID demo_sub \<noteq> ''''" "sb_ProfileStatus demo_sub = ''active''" by (simp_all add: demo_sub_def)
  ultimately show ?thesis using terminated_profile_stays_active[OF mem_db_ok demo_get _ _ demo_keys(1,3)] t by blast
qed

definition demo_update :: UpdateSubscriberRequest where
  "demo_update = \<lparr>us_FirstName = Some ''C'', us_LastName = None, us_Email = None, us_Status = '''', us_PlanID = None\<rparr>"

theorem sequence_number_reused_witness:
  "\<exists>s1 s2 s3. incrementSQN (auth_queries mem_db) (auth_row_of demo_sub) demo_mem = (Inr 1, s1)
     \<and> db_UpdateSubscriber mem_db (apply_update demo_update demo_sub) s1 = (None, s2)
     \<and> incrementSQN (auth_queries mem_db) (auth_row_of demo_sub) s2 = (Inr 1, s3)"
proof -
  obtain n1 s1 where a: "incrementSQN (auth_queries mem_db) (auth_row_of demo_sub) demo_mem = (Inr n1, s1)" "sm_subs s1 = [demo_sub\<lparr>sb_SQN := 1\<rparr>]"
    by (simp add: incrementSQN_def auth_queries_def auth_row_of_def mem_simps next_sqn_def)
  obtain s2 where b: "db_UpdateSubscriber mem_db (apply_update demo_update demo_sub) s1 = (None, s2)" "sm_subs s2 = [apply_update demo_update demo_sub]"
    using a(2) by (simp add: db_UpdateSubscriber_def mem_db_def list_table_def demo_sub_def apply_update_def)
  obtain n2 s3 where c: "incrementSQN (auth_queries mem_db) (auth_row_of demo_sub) s2 = (Inr n2, s3)"
    using b(2) by (simp add: incrementSQN_def auth_queries_def auth_row_of_def mem_db_def apply_update_def demo_sub_def)
  have u: "unique_by sb_ID (rw_subs mem_rows demo_mem)" by (simp add: mem_rows_def demo_mem_def unique_by_add)
  have "n2 = n1 \<and> n1 = word_of_int (sb_SQN demo_sub + 1)" by (rule sequence_number_reused[OF mem_db_ok u demo_get a(1) b(1) c])
  then have "n1 = 1" "n2 = 1" by (simp_all add: demo_sub_def)
  then show ?thesis using a b c by blast
qed

theorem payment_defaults_witness:
  "\<exists>s1 s2. SetDefaultPaymentMethod mem_db ''b'' demo_mem = (None, s1) \<and> RemovePaymentMethod mem_db ''a'' demo_mem = (None, s2)
     \<and> one_default 7 (rw_methods mem_rows s1) \<and> one_default 7 (rw_methods mem_rows s2)"
proof -
  have r: "rw_methods mem_rows demo_mem = {#demo_method ''a'' True, demo_method ''b'' False#}" by (simp add: mem_rows_def demo_mem_def)
  have u: "unique_by pm_ID (rw_methods mem_rows demo_mem)" "one_default 7 (rw_methods mem_rows demo_mem)"
    by (simp_all add: r unique_by_add one_default_def demo_method_def)
  obtain s1 where s1: "SetDefaultPaymentMethod mem_db ''b'' demo_mem = (None, s1)"
    by (simp add: SetDefaultPaymentMethod_def first_of_def mem_db_def list_table_def demo_mem_def demo_method_def)
  obtain s2 where s2: "RemovePaymentMethod mem_db ''a'' demo_mem = (None, s2)"
    by (simp add: RemovePaymentMethod_def first_of_def mem_db_def list_table_def demo_mem_def demo_method_def deleted_def)
  show ?thesis using payment_defaults[OF mem_db_ok u s1 s2] s1 s2 by blast
qed

theorem deletion_all_or_nothing_witness:
  "\<exists>s'. DeleteSubscriber mem_db 7 demo_mem = (None, s') \<and> rw_subs mem_rows s' = {#} \<and> rw_methods mem_rows s' = {#} \<and> rw_alerts mem_rows s' = {#(8, ''low'')#}"
proof -
  have u: "unique_by sb_IMSI (rw_subs mem_rows demo_mem)" by (simp add: mem_rows_def demo_mem_def unique_by_add)
  obtain e s' where d: "DeleteSubscriber mem_db 7 demo_mem = (e, s')" by fastforce
  have "e = None" using d by (simp add: DeleteSubscriber_def db_GetSubscriber_def first_of_def deleted_def mem_simps)
  then show ?thesis using deletion_all_or_nothing[OF mem_db_ok u d] d by (simp add: mem_rows_def demo_mem_def demo_sub_def demo_method_def)
qed

end
