(* ===== verification/Tenant_Limiter.thy ===== *)
theory Tenant_Limiter
  imports Sliding_Window
begin

text \<open>
  The per-tenant rate limiter of \<open>apps/carrier-connector/internal/tenant/rate_limiter.go\<close>:
  sliding-window counters for the minute, the hour and the day, one tracker per tenant.
\<close>

section \<open>The sliding-window counter\<close>

record SlidingWindowCounter =
  swc_window :: duration
  swc_maxCount :: int
  swc_requests :: "time list"

definition NewSlidingWindowCounter :: "duration \<Rightarrow> int \<Rightarrow> SlidingWindowCounter" where
  "NewSlidingWindowCounter window maxCount =
     \<lparr>swc_window = window, swc_maxCount = maxCount, swc_requests = []\<rparr>"

definition swc_Allow :: "int \<Rightarrow> time \<Rightarrow> SlidingWindowCounter \<Rightarrow> bool \<times> SlidingWindowCounter" where
  "swc_Allow burstSize now swc =
     (let cutoff = now + (- swc_window swc);
          swc1 = swc\<lparr>swc_requests := filter (\<lambda>req. cutoff < req) (swc_requests swc)\<rparr>
      in if swc_maxCount swc1 \<le> int (length (swc_requests swc1)) then (False, swc1)
         else (True, swc1\<lparr>swc_requests := swc_requests swc1 @ [now]\<rparr>))"

definition swc_Count :: "time \<Rightarrow> SlidingWindowCounter \<Rightarrow> int" where
  "swc_Count now swc =
     (let cutoff = now + (- swc_window swc) in
      foldl (\<lambda>count req. if cutoff < req then count + 1 else count) 0 (swc_requests swc))"

lemma cutoff_filter: "filter ((<) (now - w)) xs = filter (\<lambda>x. now - x < (w :: int)) xs"
  by (rule filter_cong) auto

interpretation swc: sliding_window "swc_Allow b" swc_requests swc_maxCount swc_window "\<lambda>_. True"
  by unfold_locales (auto simp: swc_Allow_def Let_def cutoff_filter)

lemma swc_Count_length: "swc_Count now swc = int (length (filter (\<lambda>x. now - x < swc_window swc) (swc_requests swc)))"
proof -
  have "foldl (\<lambda>count req. if P req then count + 1 else count) n xs = n + int (length (filter P xs))"
    for P n and xs :: "time list"
    by (induction xs arbitrary: n) auto
  then show ?thesis by (simp add: swc_Count_def Let_def cutoff_filter)
qed

section \<open>Trackers and the limiter\<close>

type_synonym TenantPlan = string

abbreviation TenantPlanFree :: TenantPlan where "TenantPlanFree \<equiv> ''free''"
abbreviation TenantPlanBasic :: TenantPlan where "TenantPlanBasic \<equiv> ''basic''"
abbreviation TenantPlanPro :: TenantPlan where "TenantPlanPro \<equiv> ''pro''"
abbreviation TenantPlanEnterprise :: TenantPlan where "TenantPlanEnterprise \<equiv> ''enterprise''"

record RateLimit =
  RequestsPerMinute :: int
  RequestsPerHour :: int
  RequestsPerDay :: int
  BurstSize :: int

record TenantUsageTracker =
  ut_TenantID :: string
  ut_Plan :: TenantPlan
  ut_minute :: SlidingWindowCounter
  ut_hour :: SlidingWindowCounter
  ut_day :: SlidingWindowCounter
  ut_lastReset :: time

record TenantRateLimiter =
  trl_planLimits :: "TenantPlan \<rightharpoonup> RateLimit"
  trl_tenantUsage :: "string \<rightharpoonup> TenantUsageTracker"

definition NewTenantRateLimiter :: TenantRateLimiter where
  "NewTenantRateLimiter =
     \<lparr>trl_planLimits =
        [TenantPlanFree \<mapsto> \<lparr>RequestsPerMinute = 60, RequestsPerHour = 1000, RequestsPerDay = 10000, BurstSize = 10\<rparr>,
         TenantPlanBasic \<mapsto> \<lparr>RequestsPerMinute = 120, RequestsPerHour = 5000, RequestsPerDay = 50000, BurstSize = 20\<rparr>,
         TenantPlanPro \<mapsto> \<lparr>RequestsPerMinute = 300, RequestsPerHour = 15000, RequestsPerDay = 150000, BurstSize = 50\<rparr>,
         TenantPlanEnterprise \<mapsto> \<lparr>RequestsPerMinute = 1000, RequestsPerHour = 100000, RequestsPerDay = 1000000, BurstSize = 100\<rparr>],
      trl_tenantUsage = Map.empty\<rparr>"

text \<open>A missing plan reads as the zero \<open>RateLimit\<close>.\<close>

definition limits_of :: "TenantRateLimiter \<Rightarrow> TenantPlan \<Rightarrow> RateLimit" where
  "limits_of trl plan = (case trl_planLimits trl plan of Some l \<Rightarrow> l
     | None \<Rightarrow> \<lparr>RequestsPerMinute = 0, RequestsPerHour = 0, RequestsPerDay = 0, BurstSize = 0\<rparr>)"

definition new_tracker :: "TenantRateLimiter \<Rightarrow> string \<Rightarrow> TenantPlan \<Rightarrow> time \<Rightarrow> TenantUsageTracker" where
  "new_tracker trl tenantID plan now =
     (let limits = limits_of trl plan in
      \<lparr>ut_TenantID = tenantID, ut_Plan = plan,
       ut_minute = NewSlidingWindowCounter minute (RequestsPerMinute limits),
       ut_hour = NewSlidingWindowCounter hour (RequestsPerHour limits),
       ut_day = NewSlidingWindowCounter (24 * hour) (RequestsPerDay limits),
       ut_lastReset = now\<rparr>)"

text \<open>The readings of the clock during one call: for a new tracker and for the three windows.\<close>

record readings =
  rd_start :: time
  rd_minute :: time
  rd_hour :: time
  rd_day :: time

definition AllowRequest ::
  "string \<Rightarrow> TenantPlan \<Rightarrow> readings \<Rightarrow> TenantRateLimiter \<Rightarrow> bool \<times> TenantRateLimiter" where
  "AllowRequest tenantID plan rd trl =
     (let tracker = (case trl_tenantUsage trl tenantID of
            Some tr \<Rightarrow> tr | None \<Rightarrow> new_tracker trl tenantID plan (rd_start rd));
          store = (\<lambda>tr. trl\<lparr>trl_tenantUsage := (trl_tenantUsage trl)(tenantID \<mapsto> tr)\<rparr>);
          limits = limits_of trl plan;
          (okm, cm) = swc_Allow (BurstSize limits) (rd_minute rd) (ut_minute tracker);
          tracker1 = tracker\<lparr>ut_minute := cm\<rparr>
      in if \<not> okm then (False, store tracker1)
         else let (okh, ch) = swc_Allow (BurstSize limits) (rd_hour rd) (ut_hour tracker1);
                  tracker2 = tracker1\<lparr>ut_hour := ch\<rparr>
              in if \<not> okh then (False, store tracker2)
                 else let (okd, cd) = swc_Allow (BurstSize limits) (rd_day rd) (ut_day tracker2);
                          tracker3 = tracker2\<lparr>ut_day := cd\<rparr>
                      in (okd, store tracker3))"

datatype limiter_error = ErrTenantNotFound

record RateLimitUsage =
  ru_TenantID :: string
  ru_Plan :: TenantPlan
  ru_MinuteRequests :: int
  ru_MinuteLimit :: int
  ru_HourRequests :: int
  ru_HourLimit :: int
  ru_DayRequests :: int
  ru_DayLimit :: int
  ru_RemainingMinute :: int
  ru_RemainingHour :: int
  ru_RemainingDay :: int
  ru_ResetTime :: time

text \<open>\<open>GetUsageStats\<close>, with one reading of the clock for each of its six counts.\<close>

definition GetUsageStats :: "string \<Rightarrow> (nat \<Rightarrow> time) \<Rightarrow> TenantRateLimiter \<Rightarrow> limiter_error + RateLimitUsage" where
  "GetUsageStats tenantID now trl =
     (case trl_tenantUsage trl tenantID of
        None \<Rightarrow> Inl ErrTenantNotFound
      | Some tracker \<Rightarrow>
          let limits = limits_of trl (ut_Plan tracker) in
          Inr \<lparr>ru_TenantID = tenantID, ru_Plan = ut_Plan tracker,
            ru_MinuteRequests = swc_Count (now 0) (ut_minute tracker),
            ru_MinuteLimit = RequestsPerMinute limits,
            ru_HourRequests = swc_Count (now 1) (ut_hour tracker),
            ru_HourLimit = RequestsPerHour limits,
            ru_DayRequests = swc_Count (now 2) (ut_day tracker),
            ru_DayLimit = RequestsPerDay limits,
            ru_RemainingMinute = i64 (RequestsPerMinute limits - swc_Count (now 3) (ut_minute tracker)),
            ru_RemainingHour = i64 (RequestsPerHour limits - swc_Count (now 4) (ut_hour tracker)),
            ru_RemainingDay = i64 (RequestsPerDay limits - swc_Count (now 5) (ut_day tracker)),
            ru_ResetTime = ut_lastReset tracker + 24 * hour\<rparr>)"

definition UpdateTenantPlan :: "string \<Rightarrow> TenantPlan \<Rightarrow> TenantRateLimiter \<Rightarrow> TenantRateLimiter" where
  "UpdateTenantPlan tenantID newPlan trl =
     (case trl_tenantUsage trl tenantID of
        None \<Rightarrow> trl
      | Some tracker \<Rightarrow>
          let limits = limits_of trl newPlan in
          trl\<lparr>trl_tenantUsage := (trl_tenantUsage trl)(tenantID \<mapsto>
            tracker\<lparr>ut_Plan := newPlan,
              ut_minute := NewSlidingWindowCounter minute (RequestsPerMinute limits),
              ut_hour := NewSlidingWindowCounter hour (RequestsPerHour limits),
              ut_day := NewSlidingWindowCounter (24 * hour) (RequestsPerDay limits)\<rparr>)\<rparr>)"

text \<open>The loop deletes entries of the map it ranges over; the keys it visits are those whose
  tracker was reset before the cutoff, in any order.\<close>

definition CleanupExpiredTrackers :: "time \<Rightarrow> TenantRateLimiter \<Rightarrow> TenantRateLimiter" where
  "CleanupExpiredTrackers now trl =
     (let cutoff = now + (- (24 * hour)) in
      trl\<lparr>trl_tenantUsage := (\<lambda>t. case trl_tenantUsage trl t of
         None \<Rightarrow> None
       | Some tracker \<Rightarrow> if ut_lastReset tracker < cutoff then None else Some tracker)\<rparr>)"

section \<open>Runs of requests\<close>

record request =
  rq_tenant :: string
  rq_plan :: TenantPlan
  rq_at :: readings

fun AllowRequests :: "request list \<Rightarrow> TenantRateLimiter \<Rightarrow> bool list \<times> TenantRateLimiter" where
  "AllowRequests [] trl = ([], trl)"
| "AllowRequests (r # rs) trl =
     (let (ok, trl1) = AllowRequest (rq_tenant r) (rq_plan r) (rq_at r) trl;
          (oks, trl2) = AllowRequests rs trl1 in (ok # oks, trl2))"

datatype window = Minute | Hour | Day

fun counter :: "window \<Rightarrow> TenantUsageTracker \<Rightarrow> SlidingWindowCounter" where
  "counter Minute tr = ut_minute tr"
| "counter Hour tr = ut_hour tr"
| "counter Day tr = ut_day tr"

fun at_of :: "window \<Rightarrow> readings \<Rightarrow> time" where
  "at_of Minute rd = rd_minute rd"
| "at_of Hour rd = rd_hour rd"
| "at_of Day rd = rd_day rd"

fun quota :: "window \<Rightarrow> RateLimit \<Rightarrow> int" where
  "quota Minute l = RequestsPerMinute l"
| "quota Hour l = RequestsPerHour l"
| "quota Day l = RequestsPerDay l"

fun span :: "window \<Rightarrow> duration" where
  "span Minute = minute"
| "span Hour = hour"
| "span Day = 24 * hour"

text \<open>The times, on the clock of window \<open>w\<close>, of the requests of a tenant that were allowed.\<close>

fun allowed_times :: "window \<Rightarrow> string \<Rightarrow> request list \<Rightarrow> TenantRateLimiter \<Rightarrow> time list" where
  "allowed_times w a [] trl = []"
| "allowed_times w a (r # rs) trl =
     (let (ok, trl1) = AllowRequest (rq_tenant r) (rq_plan r) (rq_at r) trl in
      (if ok \<and> rq_tenant r = a then [at_of w (rq_at r)] else []) @ allowed_times w a rs trl1)"

definition tracker_of :: "string \<Rightarrow> TenantPlan \<Rightarrow> time \<Rightarrow> TenantRateLimiter \<Rightarrow> TenantUsageTracker" where
  "tracker_of a plan now trl = (case trl_tenantUsage trl a of
     Some tr \<Rightarrow> tr | None \<Rightarrow> new_tracker trl a plan now)"

text \<open>What one call does to the tenant's own counters.\<close>

lemma AllowRequest_counter:
  assumes "AllowRequest a plan rd trl = (ok, trl')"
  shows "\<exists>tr b called. trl_tenantUsage trl' a = Some tr \<and> (ok \<longrightarrow> called) \<and>
    counter w tr = (if called then snd (swc_Allow b (at_of w rd) (counter w (tracker_of a plan (rd_start rd) trl)))
      else counter w (tracker_of a plan (rd_start rd) trl)) \<and>
    (ok \<longrightarrow> fst (swc_Allow b (at_of w rd) (counter w (tracker_of a plan (rd_start rd) trl))))"
  using assms
  by (cases w) (auto simp: AllowRequest_def tracker_of_def Let_def split_beta
      intro!: exI[of _ "BurstSize (limits_of trl plan)"] split: if_splits)

lemma AllowRequest_others:
  assumes "AllowRequest a plan rd trl = (ok, trl')" "b \<noteq> a"
  shows "trl_tenantUsage trl' b = trl_tenantUsage trl b"
  using assms by (auto simp: AllowRequest_def Let_def split_beta split: if_splits)

lemma AllowRequest_limits:
  "AllowRequest a plan rd trl = (ok, trl') \<Longrightarrow> trl_planLimits trl' = trl_planLimits trl"
  by (auto simp: AllowRequest_def Let_def split_beta split: if_splits)


text \<open>The calls the run makes on the counter of window \<open>w\<close> of tenant \<open>a\<close>: the allowed
  requests are among those the counter admits on those calls.\<close>

lemma allowed_times_other:
  assumes "AllowRequest (rq_tenant r) (rq_plan r) (rq_at r) trl = (ok, trl1)" "rq_tenant r \<noteq> a"
  shows "allowed_times w a (r # rs) trl = allowed_times w a rs trl1"
  using assms by simp

lemma allowed_times_own:
  assumes "AllowRequest (rq_tenant r) (rq_plan r) (rq_at r) trl = (ok, trl1)" "rq_tenant r = a"
  shows "allowed_times w a (r # rs) trl
    = (if ok then [at_of w (rq_at r)] else []) @ allowed_times w a rs trl1"
  using assms by simp

lemma swc_burst: "swc_Allow b t c = swc_Allow 0 t c"
  by (simp add: swc_Allow_def)

lemma admitted_step:
  "in_window d u (if ok then t # xs else xs) \<le> in_window d u (admitted (swc_Allow 0) (t # cs) c)"
  if "in_window d u xs \<le> in_window d u (admitted (swc_Allow 0) cs (snd (swc_Allow 0 t c)))"
    "ok \<longrightarrow> fst (swc_Allow 0 t c)"
  using that by (simp add: split_beta Let_def)

lemma run_counter:
  assumes "trl_tenantUsage trl a = Some tr"
  shows "\<exists>cs. (\<forall>u. in_window d u (allowed_times w a rs trl)
      \<le> in_window d u (admitted (swc_Allow 0) cs (counter w tr)))
    \<and> (sorted (map (\<lambda>r. at_of w (rq_at r)) rs) \<longrightarrow> sorted cs)
    \<and> set cs \<subseteq> set (map (\<lambda>r. at_of w (rq_at r)) rs)"
  using assms
proof (induction rs arbitrary: trl tr)
  case Nil
  then show ?case by (intro exI[of _ "[]"]) simp
next
  case (Cons r rs)
  obtain ok trl1 where r: "AllowRequest (rq_tenant r) (rq_plan r) (rq_at r) trl = (ok, trl1)"
    by fastforce
  let ?t = "at_of w (rq_at r)"
  have sub: "set cs \<subseteq> set (map (\<lambda>r. at_of w (rq_at r)) rs) \<Longrightarrow>
      set cs \<subseteq> set (map (\<lambda>r. at_of w (rq_at r)) (r # rs))" for cs
    unfolding list.map list.set by (rule subset_insertI2)
  show ?case
  proof (cases "rq_tenant r = a")
    case False
    then have "trl_tenantUsage trl1 a = Some tr"
      using AllowRequest_others[OF r] Cons.prems by simp
    from Cons.IH[OF this] obtain cs where cs:
      "\<forall>u. in_window d u (allowed_times w a rs trl1) \<le> in_window d u (admitted (swc_Allow 0) cs (counter w tr))"
      "sorted (map (\<lambda>r. at_of w (rq_at r)) rs) \<longrightarrow> sorted cs" "set cs \<subseteq> set (map (\<lambda>r. at_of w (rq_at r)) rs)"
      by blast
    show ?thesis
      unfolding allowed_times_other[OF r False]
      using cs(1,2) sub[OF cs(3)] by (intro exI[of _ cs]) simp
  next
    case True
    have tr: "tracker_of a (rq_plan r) (rd_start (rq_at r)) trl = tr"
      using Cons.prems by (simp add: tracker_of_def)
    from AllowRequest_counter[OF r[unfolded True], of w] obtain tr1 b called where
      t0: "trl_tenantUsage trl1 a = Some tr1" "ok \<longrightarrow> called"
        "counter w tr1 = (if called then snd (swc_Allow b ?t (counter w tr)) else counter w tr)"
        "ok \<longrightarrow> fst (swc_Allow b ?t (counter w tr))"
      unfolding tr by blast
    note t1 = t0[unfolded swc_burst[of b]]
    from Cons.IH[OF t1(1)] obtain cs where cs:
      "\<forall>u. in_window d u (allowed_times w a rs trl1) \<le> in_window d u (admitted (swc_Allow 0) cs (counter w tr1))"
      "sorted (map (\<lambda>r. at_of w (rq_at r)) rs) \<longrightarrow> sorted cs" "set cs \<subseteq> set (map (\<lambda>r. at_of w (rq_at r)) rs)"
      by blast
    have own: "allowed_times w a (r # rs) trl = (if ok then ?t # allowed_times w a rs trl1 else allowed_times w a rs trl1)"
      by (simp only: allowed_times_own[OF r True]) simp
    show ?thesis
    proof (cases called)
      case False
      then show ?thesis
        unfolding own using t1(2,3) cs(1,2) sub[OF cs(3)] by (intro exI[of _ cs]) simp
    next
      case called: True
      have "in_window d u (allowed_times w a (r # rs) trl)
          \<le> in_window d u (admitted (swc_Allow 0) (?t # cs) (counter w tr))" for u
        unfolding own using cs(1) t1(3,4) called by (intro admitted_step) simp_all
      moreover have "sorted (map (\<lambda>r. at_of w (rq_at r)) (r # rs)) \<longrightarrow> sorted (?t # cs)"
        using cs(2,3) unfolding list.map sorted_simps by blast
      moreover have "set (?t # cs) \<subseteq> set (map (\<lambda>r. at_of w (rq_at r)) (r # rs))"
        using cs(3) unfolding list.map list.set by blast
      ultimately show ?thesis by blast
    qed
  qed
qed

lemma fresh_counter: "counter w (new_tracker trl a plan now)
    = NewSlidingWindowCounter (span w) (quota w (limits_of trl plan))"
  by (cases w) (simp_all add: new_tracker_def Let_def)

section \<open>Properties\<close>


definition demo_limiter :: TenantRateLimiter where
  "demo_limiter = NewTenantRateLimiter\<lparr>trl_tenantUsage :=
     [''acme'' \<mapsto> new_tracker NewTenantRateLimiter ''acme'' TenantPlanFree 0]\<rparr>"


text \<open>A single counter is exact: started empty and called at non-decreasing times, it
  refuses a request precisely when \<open>maxCount\<close> requests were admitted in the window before
  it, never earlier.\<close>

theorem sliding_counter_exact:
  assumes "sorted (ts @ [t])"
  shows "fst (swc_Allow b t (after (swc_Allow b) ts (NewSlidingWindowCounter w n)))
    \<longleftrightarrow> int (in_window w t (admitted (swc_Allow b) ts (NewSlidingWindowCounter w n))) < n"
  using swc.admitted_iff[of "NewSlidingWindowCounter w n" ts t b] assms
  by (simp add: NewSlidingWindowCounter_def)

theorem sliding_counter_exact_witness:
  "\<not> fst (swc_Allow 9 30 (after (swc_Allow 9) [5, 20] (NewSlidingWindowCounter 60 2)))
   \<and> int (in_window 60 30 (admitted (swc_Allow 9) [5, 20] (NewSlidingWindowCounter 60 2))) = 2"
proof -
  have "int (in_window 60 30 (admitted (swc_Allow 9) [5, 20] (NewSlidingWindowCounter 60 2))) = 2"
    by code_simp
  then show ?thesis using sliding_counter_exact[of "[5, 20]" 30 9 60 2] by simp
qed

text \<open>Tenants do not interfere: a request changes no other tenant's tracker, and what
  another tenant is answered does not depend on it.\<close>

theorem tenant_limiter_isolation:
  assumes "b \<noteq> a" and "snd (AllowRequest a plan rd trl) = trl'"
  shows "trl_tenantUsage trl' b = trl_tenantUsage trl b
    \<and> fst (AllowRequest b plan' rd' trl') = fst (AllowRequest b plan' rd' trl)"
proof -
  obtain ok where r: "AllowRequest a plan rd trl = (ok, trl')" using assms(2) by (metis prod.collapse)
  have u: "trl_tenantUsage trl' b = trl_tenantUsage trl b" and l: "trl_planLimits trl' = trl_planLimits trl"
    using AllowRequest_others[OF r assms(1)] AllowRequest_limits[OF r] by auto
  then have p: "limits_of trl' = limits_of trl" by (simp add: limits_of_def fun_eq_iff)
  then have n: "new_tracker trl' = new_tracker trl" by (simp add: new_tracker_def fun_eq_iff)
  from u show ?thesis unfolding AllowRequest_def u p n by (simp add: Let_def split_beta)
qed

theorem tenant_limiter_isolation_witness:
  "trl_tenantUsage (snd (AllowRequest ''acme'' TenantPlanFree \<lparr>rd_start = 1, rd_minute = 2, rd_hour = 3, rd_day = 4\<rparr> demo_limiter)) ''other''
   = trl_tenantUsage demo_limiter ''other''"
  using tenant_limiter_isolation[OF _ refl, of "''other''" "''acme''"] by simp

text \<open>A request that the hour or day window refuses has already used up a slot of the
  minute window.\<close>

theorem tenant_limiter_refused_still_counts:
  assumes "trl_tenantUsage trl a = Some tr"
    and "fst (swc_Allow (BurstSize (limits_of trl plan)) (rd_minute rd) (ut_minute tr))"
    and "\<not> fst (AllowRequest a plan rd trl)"
  shows "\<exists>tr'. trl_tenantUsage (snd (AllowRequest a plan rd trl)) a = Some tr'
    \<and> last (swc_requests (ut_minute tr')) = rd_minute rd \<and> swc_requests (ut_minute tr') \<noteq> []"
  using assms by (auto simp: AllowRequest_def swc_Allow_def Let_def split_beta split: if_splits)

theorem tenant_limiter_refused_still_counts_witness:
  "let trl = \<lparr>trl_planLimits = [''p'' \<mapsto> \<lparr>RequestsPerMinute = 5, RequestsPerHour = 0, RequestsPerDay = 9, BurstSize = 1\<rparr>],
              trl_tenantUsage = Map.empty\<rparr>;
       trl1 = trl\<lparr>trl_tenantUsage := [''a'' \<mapsto> new_tracker trl ''a'' ''p'' 0]\<rparr>;
       rd = \<lparr>rd_start = 1, rd_minute = 2, rd_hour = 3, rd_day = 4\<rparr>
   in \<not> fst (AllowRequest ''a'' ''p'' rd trl1) \<and>
     (\<exists>tr'. trl_tenantUsage (snd (AllowRequest ''a'' ''p'' rd trl1)) ''a'' = Some tr' \<and> swc_requests (ut_minute tr') \<noteq> [])"
proof -
  let ?trl = "\<lparr>trl_planLimits = [''p'' \<mapsto> \<lparr>RequestsPerMinute = 5, RequestsPerHour = 0, RequestsPerDay = 9, BurstSize = 1\<rparr>],
              trl_tenantUsage = Map.empty\<rparr>"
  let ?trl1 = "?trl\<lparr>trl_tenantUsage := [''a'' \<mapsto> new_tracker ?trl ''a'' ''p'' 0]\<rparr>"
  let ?rd = "\<lparr>rd_start = 1, rd_minute = 2, rd_hour = 3, rd_day = 4\<rparr>"
  have tr: "trl_tenantUsage ?trl1 ''a'' = Some (new_tracker ?trl ''a'' ''p'' 0)" by simp
  have m: "fst (swc_Allow (BurstSize (limits_of ?trl1 ''p'')) (rd_minute ?rd) (ut_minute (new_tracker ?trl ''a'' ''p'' 0)))"
    by (simp add: swc_Allow_def new_tracker_def limits_of_def NewSlidingWindowCounter_def Let_def)
  have n: "\<not> fst (AllowRequest ''a'' ''p'' ?rd ?trl1)"
    by (simp add: AllowRequest_def swc_Allow_def new_tracker_def limits_of_def NewSlidingWindowCounter_def Let_def)
  from tenant_limiter_refused_still_counts[OF tr m n] n show ?thesis by auto
qed

text \<open>A tracker is forgotten 24 hours after its tenant's first request however active the
  tenant is, because no request renews \<open>lastReset\<close>: the next request starts with empty windows,
  so the day quota can be spent twice within one day.\<close>

theorem tenant_limiter_cleanup_forgets:
  assumes "trl_tenantUsage trl a = Some tr"
    and "snd (AllowRequests rs trl) = trl'" and "ut_lastReset tr + 24 * hour < now"
  shows "trl_tenantUsage (CleanupExpiredTrackers now trl') a = None
    \<and> tracker_of a plan now (CleanupExpiredTrackers now trl')
      = new_tracker (CleanupExpiredTrackers now trl') a plan now"
proof -
  have "\<exists>tr'. trl_tenantUsage (snd (AllowRequests rs trl)) a = Some tr' \<and> ut_lastReset tr' = ut_lastReset tr"
    using assms(1)
  proof (induction rs arbitrary: trl tr)
    case (Cons r rs)
    obtain ok trl1 where r: "AllowRequest (rq_tenant r) (rq_plan r) (rq_at r) trl = (ok, trl1)" by fastforce
    have "\<exists>tr1. trl_tenantUsage trl1 a = Some tr1 \<and> ut_lastReset tr1 = ut_lastReset tr"
      using Cons.prems r by (auto simp: AllowRequest_def Let_def split_beta split: if_splits)
    then show ?case using Cons.IH[of trl1] r by (auto simp: split_beta Let_def)
  qed simp
  with assms(2,3) have "trl_tenantUsage (CleanupExpiredTrackers now trl') a = None"
    by (auto simp: CleanupExpiredTrackers_def Let_def)
  then show ?thesis by (simp add: tracker_of_def)
qed

theorem tenant_limiter_cleanup_forgets_witness:
  "trl_tenantUsage (CleanupExpiredTrackers 86400000000001
      (snd (AllowRequests [\<lparr>rq_tenant = ''acme'', rq_plan = TenantPlanFree,
         rq_at = \<lparr>rd_start = 0, rd_minute = 86400000000000, rd_hour = 86400000000000, rd_day = 86400000000000\<rparr>\<rparr>] demo_limiter)))
     ''acme'' = None"
proof -
  have 1: "trl_tenantUsage demo_limiter ''acme'' = Some (new_tracker NewTenantRateLimiter ''acme'' TenantPlanFree 0)"
    by (simp add: demo_limiter_def)
  have "ut_lastReset (new_tracker NewTenantRateLimiter ''acme'' TenantPlanFree 0) + 24 * hour < 86400000000001"
    by (simp add: new_tracker_def Let_def go_simps)
  from tenant_limiter_cleanup_forgets[OF 1 refl this] show ?thesis by blast
qed

end
