(* ===== verification/Tenant_Store.thy ===== *)
theory Tenant_Store
  imports Tenant_Limiter Go_Any Gorm
begin

text \<open>
  Tenants and their storage (\<open>apps/carrier-connector/internal\<close>: \<open>tenant/models.go\<close>, \<open>tenant/types.go\<close>,
  \<open>repository/tenant_repository_crud.go\<close>, \<open>tenant_repository_apikey_usage.go\<close>,
  \<open>tenant_repository.go\<close>): tenants, their users, keys and usage records in tables of \<open>Gorm\<close>, and the
  configuration, which is not stored but derived from the plan of a tenant. The columns
  \<open>created_at\<close> and \<open>updated_at\<close>, which GORM sets itself when it writes a row, hold the time the code assigned
  just before. The listings with patterns are SQL text and left out.
\<close>

section \<open>Rows\<close>

type_synonym TenantStatus = string
type_synonym TenantRole = string
type_synonym TenantUserStatus = string
type_synonym APIKeyStatus = string

abbreviation TenantStatusActive :: TenantStatus where "TenantStatusActive \<equiv> ''active''"
abbreviation TenantRoleOwner :: TenantRole where "TenantRoleOwner \<equiv> ''owner''"
abbreviation TenantRoleAdmin :: TenantRole where "TenantRoleAdmin \<equiv> ''admin''"
abbreviation TenantRoleManager :: TenantRole where "TenantRoleManager \<equiv> ''manager''"
abbreviation TenantRoleUser :: TenantRole where "TenantRoleUser \<equiv> ''user''"
abbreviation TenantRoleViewer :: TenantRole where "TenantRoleViewer \<equiv> ''viewer''"
abbreviation TenantUserStatusActive :: TenantUserStatus where "TenantUserStatusActive \<equiv> ''active''"
abbreviation APIKeyStatusActive :: APIKeyStatus where "APIKeyStatusActive \<equiv> ''active''"

record PasswordPolicy =
  pp_MinLength :: int
  pp_RequireUppercase :: bool
  pp_RequireLowercase :: bool
  pp_RequireNumbers :: bool
  pp_RequireSymbols :: bool
  pp_MaxAgeDays :: int

record TenantSettings =
  set_DefaultCurrency :: string
  set_SupportedCurrencies :: "string list"
  set_EnableMultiCurrency :: bool
  set_EnableAdvancedAnalytics :: bool
  set_EnableAPIAccess :: bool
  set_EnableWebhooks :: bool
  set_APIRateLimitPerMinute :: int
  set_APIRateLimitPerHour :: int
  set_Require2FA :: bool
  set_SessionTimeout :: int
  set_PasswordPolicy :: "PasswordPolicy option"
  set_DataRetentionDays :: int
  set_ComplianceRegions :: "string list"

record Tenant =
  t_ID :: string
  t_Name :: string
  t_Domain :: string
  t_Status :: TenantStatus
  t_Plan :: TenantPlan
  t_MaxUsers :: int
  t_MaxProfiles :: int
  t_MaxCarriers :: int
  t_Settings :: "TenantSettings option"
  t_Metadata :: metadata
  t_CreatedAt :: time
  t_UpdatedAt :: time
  t_DeletedAt :: "time option"

record TenantUser =
  tu_ID :: string
  tu_TenantID :: string
  tu_UserID :: string
  tu_Email :: string
  tu_Role :: TenantRole
  tu_Status :: TenantUserStatus
  tu_LastLogin :: "time option"
  tu_CreatedAt :: time
  tu_UpdatedAt :: time

record TenantUsage =
  tg_ID :: string
  tg_TenantID :: string
  tg_ResourceType :: string
  tg_ResourceCount :: int
  tg_QuotaLimit :: int
  tg_QuotaUsed :: int
  tg_QuotaRemaining :: int
  tg_PeriodStart :: time
  tg_PeriodEnd :: time
  tg_CreatedAt :: time
  tg_UpdatedAt :: time

record TenantAPIKey =
  ak_ID :: string
  ak_TenantID :: string
  ak_Name :: string
  ak_KeyHash :: string
  ak_KeyPrefix :: string
  ak_Permissions :: "string list"
  ak_RateLimit :: int
  ak_LastUsed :: "time option"
  ak_ExpiresAt :: "time option"
  ak_Status :: APIKeyStatus
  ak_CreatedBy :: string
  ak_CreatedAt :: time
  ak_UpdatedAt :: time

record ResourceQuota =
  rq_ResourceType :: string
  rq_Limit :: int
  rq_Period :: string
  rq_SoftLimit :: bool
  rq_WarningThreshold :: f64

record TenantConfig =
  tc_TenantID :: string
  tc_Config :: metadata
  tc_Settings :: "TenantSettings option"
  tc_Quotas :: "ResourceQuota list option"
  tc_Features :: "(string \<rightharpoonup> bool) option"

record QuotaStatus =
  qs_Used :: int
  qs_Limit :: int
  qs_Remaining :: int
  qs_Percent :: f64
  qs_Warning :: bool
  qs_Critical :: bool

record TenantUsageFilter =
  uf_TenantID :: string
  uf_ResourceType :: string
  uf_PeriodStart :: time
  uf_PeriodEnd :: time
  uf_Limit :: int
  uf_Offset :: int

text \<open>The statistics; the counters that no operation sets stay at zero and are left out.\<close>

record TenantUsageStats =
  us_TenantID :: string
  us_ResourceBreakdown :: "string \<rightharpoonup> int"
  us_QuotaStatus :: "string \<rightharpoonup> QuotaStatus"

section \<open>Tables\<close>

record 's tenant_db =
  tdb_tenants :: "(Tenant, 's) table"
  tdb_users :: "(TenantUser, 's) table"
  tdb_usage :: "(TenantUsage, 's) table"
  tdb_keys :: "(TenantAPIKey, 's) table"

datatype repo_error = RecordNotFound | RepoError string

definition first_record :: "string + 'row option \<Rightarrow> repo_error + 'row" where
  "first_record res = (case res of Inl e \<Rightarrow> Inl (RepoError e) | Inr None \<Rightarrow> Inl RecordNotFound | Inr (Some r) \<Rightarrow> Inr r)"

fun written :: "string option \<times> 's \<Rightarrow> repo_error option \<times> 's" where
  "written (e, s) = (map_option RepoError e, s)"

text \<open>A deletion that finds no row is no error.\<close>

fun deleted :: "(string + int) \<times> 's \<Rightarrow> repo_error option \<times> 's" where
  "deleted (Inl e, s) = (Some (RepoError e), s)"
| "deleted (Inr n, s) = (None, s)"

subsection \<open>Tenants and users\<close>

definition repo_CreateTenant :: "'s tenant_db \<Rightarrow> Tenant \<Rightarrow> 's \<Rightarrow> repo_error option \<times> 's" where
  "repo_CreateTenant db t s = written (tb_create (tdb_tenants db) t s)"

definition repo_GetTenant :: "'s tenant_db \<Rightarrow> string \<Rightarrow> 's \<Rightarrow> repo_error + Tenant" where
  "repo_GetTenant db i s = first_record (tb_first (tdb_tenants db) (\<lambda>t. t_ID t = i) (\<lambda>_. 0) s)"

definition repo_GetTenantByDomain :: "'s tenant_db \<Rightarrow> string \<Rightarrow> 's \<Rightarrow> repo_error + Tenant" where
  "repo_GetTenantByDomain db d s = first_record (tb_first (tdb_tenants db) (\<lambda>t. t_Domain t = d) (\<lambda>_. 0) s)"

definition repo_UpdateTenant :: "'s tenant_db \<Rightarrow> Tenant \<Rightarrow> 's \<Rightarrow> repo_error option \<times> 's" where
  "repo_UpdateTenant db t s = written (tb_save (tdb_tenants db) t s)"

definition repo_DeleteTenant :: "'s tenant_db \<Rightarrow> string \<Rightarrow> 's \<Rightarrow> repo_error option \<times> 's" where
  "repo_DeleteTenant db i s = deleted (tb_delete (tdb_tenants db) (\<lambda>t. t_ID t = i) s)"

definition repo_CreateTenantUser :: "'s tenant_db \<Rightarrow> TenantUser \<Rightarrow> 's \<Rightarrow> repo_error option \<times> 's" where
  "repo_CreateTenantUser db u s = written (tb_create (tdb_users db) u s)"

definition repo_GetTenantUser :: "'s tenant_db \<Rightarrow> string \<Rightarrow> string \<Rightarrow> 's \<Rightarrow> repo_error + TenantUser" where
  "repo_GetTenantUser db tenantID userID s =
     first_record (tb_first (tdb_users db) (\<lambda>u. tu_TenantID u = tenantID \<and> tu_UserID u = userID) (\<lambda>_. 0) s)"

definition repo_UpdateTenantUser :: "'s tenant_db \<Rightarrow> TenantUser \<Rightarrow> 's \<Rightarrow> repo_error option \<times> 's" where
  "repo_UpdateTenantUser db u s = written (tb_save (tdb_users db) u s)"

definition repo_DeleteTenantUser :: "'s tenant_db \<Rightarrow> string \<Rightarrow> string \<Rightarrow> 's \<Rightarrow> repo_error option \<times> 's" where
  "repo_DeleteTenantUser db tenantID userID s =
     deleted (tb_delete (tdb_users db) (\<lambda>u. tu_TenantID u = tenantID \<and> tu_UserID u = userID) s)"

subsection \<open>Keys and usage\<close>

definition repo_CreateAPIKey :: "'s tenant_db \<Rightarrow> TenantAPIKey \<Rightarrow> 's \<Rightarrow> repo_error option \<times> 's" where
  "repo_CreateAPIKey db k s = written (tb_create (tdb_keys db) k s)"

definition repo_GetAPIKey :: "'s tenant_db \<Rightarrow> string \<Rightarrow> 's \<Rightarrow> repo_error + TenantAPIKey" where
  "repo_GetAPIKey db i s = first_record (tb_first (tdb_keys db) (\<lambda>k. ak_ID k = i) (\<lambda>_. 0) s)"

definition repo_GetAPIKeyByHash :: "'s tenant_db \<Rightarrow> string \<Rightarrow> 's \<Rightarrow> repo_error + TenantAPIKey" where
  "repo_GetAPIKeyByHash db h s = first_record (tb_first (tdb_keys db) (\<lambda>k. ak_KeyHash k = h) (\<lambda>_. 0) s)"

definition repo_UpdateAPIKey :: "'s tenant_db \<Rightarrow> TenantAPIKey \<Rightarrow> 's \<Rightarrow> repo_error option \<times> 's" where
  "repo_UpdateAPIKey db k s = written (tb_save (tdb_keys db) k s)"

definition repo_DeleteAPIKey :: "'s tenant_db \<Rightarrow> string \<Rightarrow> 's \<Rightarrow> repo_error option \<times> 's" where
  "repo_DeleteAPIKey db i s = deleted (tb_delete (tdb_keys db) (\<lambda>k. ak_ID k = i) s)"

definition repo_ListAPIKeys :: "'s tenant_db \<Rightarrow> string \<Rightarrow> 's \<Rightarrow> repo_error + TenantAPIKey list" where
  "repo_ListAPIKeys db tenantID s =
     map_sum RepoError id (tb_find (tdb_keys db) (\<lambda>k. ak_TenantID k = tenantID) ak_CreatedAt None None s)"

definition repo_CreateUsage :: "'s tenant_db \<Rightarrow> TenantUsage \<Rightarrow> 's \<Rightarrow> repo_error option \<times> 's" where
  "repo_CreateUsage db u s = written (tb_create (tdb_usage db) u s)"

definition repo_GetUsage :: "'s tenant_db \<Rightarrow> string \<Rightarrow> string \<Rightarrow> 's \<Rightarrow> repo_error + TenantUsage" where
  "repo_GetUsage db tenantID resourceType s =
     first_record (tb_first (tdb_usage db) (\<lambda>u. tg_TenantID u = tenantID \<and> tg_ResourceType u = resourceType) (\<lambda>_. 0) s)"

definition repo_UpdateUsage :: "'s tenant_db \<Rightarrow> TenantUsage \<Rightarrow> 's \<Rightarrow> repo_error option \<times> 's" where
  "repo_UpdateUsage db u s = written (tb_save (tdb_usage db) u s)"

definition usage_matches :: "TenantUsageFilter \<Rightarrow> TenantUsage \<Rightarrow> bool" where
  "usage_matches f u \<longleftrightarrow> (uf_TenantID f = '''' \<or> tg_TenantID u = uf_TenantID f)
     \<and> (uf_ResourceType f = '''' \<or> tg_ResourceType u = uf_ResourceType f)
     \<and> (uf_PeriodStart f = zero_time \<or> uf_PeriodStart f \<le> tg_PeriodStart u)
     \<and> (uf_PeriodEnd f = zero_time \<or> tg_PeriodEnd u \<le> uf_PeriodEnd f)"

definition repo_ListUsage :: "'s tenant_db \<Rightarrow> TenantUsageFilter \<Rightarrow> 's \<Rightarrow> repo_error + TenantUsage list" where
  "repo_ListUsage db f s =
     map_sum RepoError id (tb_find (tdb_usage db) (usage_matches f) (\<lambda>_. 0)
       (if 0 < uf_Limit f then Some (uf_Limit f) else None) (if 0 < uf_Offset f then Some (uf_Offset f) else None) s)"

definition of_tenant :: "string \<Rightarrow> TenantUsageFilter" where
  "of_tenant tenantID = \<lparr>uf_TenantID = tenantID, uf_ResourceType = '''', uf_PeriodStart = zero_time,
     uf_PeriodEnd = zero_time, uf_Limit = 0, uf_Offset = 0\<rparr>"

definition repo_GetUsageStats :: "'s tenant_db \<Rightarrow> string \<Rightarrow> 's \<Rightarrow> repo_error + TenantUsageStats" where
  "repo_GetUsageStats db tenantID s =
     (case repo_ListUsage db (of_tenant tenantID) s of
        Inl e \<Rightarrow> Inl e
      | Inr usageRecords \<Rightarrow> Inr (foldl (\<lambda>stats usage. stats\<lparr>
          us_ResourceBreakdown := (us_ResourceBreakdown stats)(tg_ResourceType usage \<mapsto> tg_QuotaUsed usage),
          us_QuotaStatus := (us_QuotaStatus stats)(tg_ResourceType usage \<mapsto>
            \<lparr>qs_Used = tg_QuotaUsed usage, qs_Limit = tg_QuotaLimit usage, qs_Remaining = tg_QuotaRemaining usage,
             qs_Percent = f64_lit 0, qs_Warning = False, qs_Critical = False\<rparr>)\<rparr>)
          \<lparr>us_TenantID = tenantID, us_ResourceBreakdown = Map.empty, us_QuotaStatus = Map.empty\<rparr> usageRecords))"

section \<open>Configuration\<close>

definition monthly :: "string \<Rightarrow> int \<Rightarrow> ResourceQuota" where
  "monthly resourceType limit = \<lparr>rq_ResourceType = resourceType, rq_Limit = limit, rq_Period = ''monthly'',
     rq_SoftLimit = False, rq_WarningThreshold = f64_lit 0\<rparr>"

definition plan_quotas :: "TenantPlan \<Rightarrow> ResourceQuota list" where
  "plan_quotas plan =
     (if plan = TenantPlanFree then [monthly ''users'' 5, monthly ''profiles'' 100, monthly ''carriers'' 3]
      else if plan = TenantPlanBasic then [monthly ''users'' 25, monthly ''profiles'' 1000, monthly ''carriers'' 10]
      else if plan = TenantPlanPro then [monthly ''users'' 100, monthly ''profiles'' 10000, monthly ''carriers'' 50]
      else if plan = TenantPlanEnterprise then [monthly ''users'' (- 1), monthly ''profiles'' (- 1), monthly ''carriers'' (- 1)]
      else [])"

definition plan_features :: "TenantPlan \<Rightarrow> (string \<rightharpoonup> bool)" where
  "plan_features plan =
     (if plan = TenantPlanFree then
        [''multi_currency'' \<mapsto> False, ''advanced_analytics'' \<mapsto> False, ''api_access'' \<mapsto> True, ''webhooks'' \<mapsto> False]
      else if plan = TenantPlanBasic then
        [''multi_currency'' \<mapsto> True, ''advanced_analytics'' \<mapsto> False, ''api_access'' \<mapsto> True, ''webhooks'' \<mapsto> False]
      else if plan = TenantPlanPro \<or> plan = TenantPlanEnterprise then
        [''multi_currency'' \<mapsto> True, ''advanced_analytics'' \<mapsto> True, ''api_access'' \<mapsto> True, ''webhooks'' \<mapsto> True]
      else Map.empty)"

definition repo_GetConfig :: "'s tenant_db \<Rightarrow> string \<Rightarrow> 's \<Rightarrow> repo_error + TenantConfig" where
  "repo_GetConfig db tenantID s =
     (case repo_GetTenant db tenantID s of
        Inl e \<Rightarrow> Inl e
      | Inr t \<Rightarrow> Inr \<lparr>tc_TenantID = tenantID, tc_Config = Some Map.empty, tc_Settings = t_Settings t,
          tc_Quotas = Some (plan_quotas (t_Plan t)), tc_Features = Some (plan_features (t_Plan t))\<rparr>)"

definition repo_UpdateConfig :: "'s tenant_db \<Rightarrow> time \<Rightarrow> TenantConfig \<Rightarrow> 's \<Rightarrow> repo_error option \<times> 's" where
  "repo_UpdateConfig db now cfg s =
     (case repo_GetTenant db (tc_TenantID cfg) s of
        Inl e \<Rightarrow> (Some e, s)
      | Inr t \<Rightarrow> repo_UpdateTenant db (t\<lparr>t_Settings := tc_Settings cfg, t_Metadata := tc_Config cfg, t_UpdatedAt := now\<rparr>) s)"

section \<open>The tables of the tenants\<close>

definition tenant_db_ok ::
  "'s tenant_db \<Rightarrow> ('s \<Rightarrow> Tenant multiset) \<Rightarrow> ('s \<Rightarrow> TenantUser multiset) \<Rightarrow> ('s \<Rightarrow> TenantUsage multiset)
   \<Rightarrow> ('s \<Rightarrow> TenantAPIKey multiset) \<Rightarrow> bool" where
  "tenant_db_ok db tenants users usage keys \<longleftrightarrow>
     table_ok (tdb_tenants db) tenants (\<lambda>n r. n) \<and> save_ok (tdb_tenants db) tenants t_ID
   \<and> table_ok (tdb_users db) users (\<lambda>n r. n) \<and> save_ok (tdb_users db) users tu_ID
   \<and> table_ok (tdb_usage db) usage (\<lambda>n r. n) \<and> save_ok (tdb_usage db) usage tg_ID
   \<and> table_ok (tdb_keys db) keys (\<lambda>n r. n) \<and> save_ok (tdb_keys db) keys ak_ID
   \<and> table_frame (tdb_tenants db) users \<and> table_frame (tdb_tenants db) usage \<and> table_frame (tdb_tenants db) keys
   \<and> table_frame (tdb_users db) tenants \<and> table_frame (tdb_users db) usage \<and> table_frame (tdb_users db) keys
   \<and> table_frame (tdb_usage db) tenants \<and> table_frame (tdb_usage db) users \<and> table_frame (tdb_usage db) keys
   \<and> table_frame (tdb_keys db) tenants \<and> table_frame (tdb_keys db) users \<and> table_frame (tdb_keys db) usage"

lemma tenant_db_tables:
  assumes "tenant_db_ok db tenants users usage keys"
  shows "table_ok (tdb_tenants db) tenants (\<lambda>n r. n)" "save_ok (tdb_tenants db) tenants t_ID"
    "table_ok (tdb_users db) users (\<lambda>n r. n)" "save_ok (tdb_users db) users tu_ID"
    "table_ok (tdb_usage db) usage (\<lambda>n r. n)" "save_ok (tdb_usage db) usage tg_ID"
    "table_ok (tdb_keys db) keys (\<lambda>n r. n)" "save_ok (tdb_keys db) keys ak_ID"
  using assms by (simp_all add: tenant_db_ok_def)

lemma tenant_db_frames:
  assumes "tenant_db_ok db tenants users usage keys"
  shows "table_frame (tdb_tenants db) users" "table_frame (tdb_tenants db) usage" "table_frame (tdb_tenants db) keys"
    "table_frame (tdb_users db) tenants" "table_frame (tdb_users db) usage" "table_frame (tdb_users db) keys"
    "table_frame (tdb_usage db) tenants" "table_frame (tdb_usage db) users" "table_frame (tdb_usage db) keys"
    "table_frame (tdb_keys db) tenants" "table_frame (tdb_keys db) users" "table_frame (tdb_keys db) usage"
  using assms by (simp_all add: tenant_db_ok_def)

lemma first_record_cases:
  "table_ok t rows m \<Longrightarrow> first_record (tb_first t P k s) = Inr r \<Longrightarrow> r \<in># rows s \<and> P r"
  "table_ok t rows m \<Longrightarrow> first_record (tb_first t P k s) = Inl RecordNotFound \<Longrightarrow> \<forall>x \<in># rows s. \<not> P x"
  by (auto simp: first_record_def split: sum.splits option.splits dest: table_first table_first_none)

lemma created_rows: "table_ok t rows m \<Longrightarrow> written (tb_create t r s) = (e, s') \<Longrightarrow>
  rows s' = (if e = None then add_mset r (rows s) else rows s)"
  by (cases "tb_create t r s") (auto dest: table_create)

lemma saved_rows: "save_ok t rows key \<Longrightarrow> written (tb_save t r s) = (e, s') \<Longrightarrow>
  rows s' = (if e = None then add_mset r (filter_mset (\<lambda>x. key x \<noteq> key r) (rows s)) else rows s)"
  by (cases "tb_save t r s") (auto dest: table_save)

lemma deleted_rows: "table_ok t rows m \<Longrightarrow> deleted (tb_delete t P s) = (e, s') \<Longrightarrow>
  rows s' = (if e = None then filter_mset (\<lambda>x. \<not> P x) (rows s) else rows s)"
  by (cases "tb_delete t P s", cases "fst (tb_delete t P s)") (auto dest: table_delete)

lemma frame_written: "table_frame t rows \<Longrightarrow> rows (snd (written (tb_create t r s))) = rows s"
  "table_frame t rows \<Longrightarrow> rows (snd (written (tb_save t r s))) = rows s"
  "table_frame t rows \<Longrightarrow> rows (snd (deleted (tb_delete t P s))) = rows s"
  by (cases "tb_create t r s", simp add: frame_create, cases "tb_save t r s", simp add: frame_save,
    cases "tb_delete t P s", cases "fst (tb_delete t P s)", auto simp: frame_delete)

record tenant_memory =
  tm_tenants :: "Tenant list"
  tm_users :: "TenantUser list"
  tm_usage :: "TenantUsage list"
  tm_keys :: "TenantAPIKey list"

definition memory_tenants :: "tenant_memory tenant_db" where
  "memory_tenants = \<lparr>tdb_tenants = list_table tm_tenants (\<lambda>xs s. s\<lparr>tm_tenants := xs\<rparr>) t_ID (\<lambda>n r. n),
     tdb_users = list_table tm_users (\<lambda>xs s. s\<lparr>tm_users := xs\<rparr>) tu_ID (\<lambda>n r. n),
     tdb_usage = list_table tm_usage (\<lambda>xs s. s\<lparr>tm_usage := xs\<rparr>) tg_ID (\<lambda>n r. n),
     tdb_keys = list_table tm_keys (\<lambda>xs s. s\<lparr>tm_keys := xs\<rparr>) ak_ID (\<lambda>n r. n)\<rparr>"

lemma memory_tenants_ok:
  "tenant_db_ok memory_tenants (\<lambda>s. mset (tm_tenants s)) (\<lambda>s. mset (tm_users s)) (\<lambda>s. mset (tm_usage s)) (\<lambda>s. mset (tm_keys s))"
  unfolding tenant_db_ok_def memory_tenants_def
  by (simp add: list_table_ok list_table_save table_frame_def) (simp add: list_table_def)

end
