(* ===== verification/Tenant_Service.thy ===== *)
theory Tenant_Service
  imports Tenant_Store
begin

text \<open>
  The tenant service (\<open>apps/carrier-connector/internal/services\<close>: \<open>tenant_core.go\<close>,
  \<open>tenant_user.go\<close>, \<open>tenant_user_methods.go\<close>, \<open>tenant_apikey.go\<close>, \<open>tenant_config.go\<close>,
  \<open>tenant_quota.go\<close>) over the repository of \<open>Tenant_Store\<close>. Generated identifiers, random bytes and
  clock readings are arguments; \<open>now i\<close> is the i-th reading of a call. The log is not modelled.
\<close>

datatype tenant_error =
    NameRequired | DomainRequired | PlanRequired | DomainExists
  | TenantIDRequired | UserIDRequired | EmailRequired | RoleRequired | UserExists
  | Repo repo_error
  | TenantNotFound repo_error | TenantNotActive | UserNotFound repo_error | UserNotActive
  | KeyNotActive | KeyExpired
  | SettingsRequired | QuotasRequired | FeaturesRequired | QuotaTypeRequired | QuotaLimitInvalid | QuotaPeriodRequired
  | QuotaExceeded string int int | RateLimitExceeded | UnknownResourceType

section \<open>Tenants\<close>

record CreateTenantRequest =
  ct_Name :: string
  ct_Domain :: string
  ct_Plan :: TenantPlan
  ct_MaxUsers :: int
  ct_MaxProfiles :: int
  ct_MaxCarriers :: int
  ct_Settings :: "TenantSettings option"
  ct_Metadata :: metadata

record UpdateTenantRequest =
  utr_Name :: "string option"
  utr_Status :: "TenantStatus option"
  utr_Plan :: "TenantPlan option"
  utr_MaxUsers :: "int option"
  utr_MaxProfiles :: "int option"
  utr_MaxCarriers :: "int option"
  utr_Settings :: "TenantSettings option"
  utr_Metadata :: metadata

definition validateCreateTenantRequest :: "CreateTenantRequest \<Rightarrow> tenant_error option" where
  "validateCreateTenantRequest req =
     (if ct_Name req = '''' then Some NameRequired
      else if ct_Domain req = '''' then Some DomainRequired
      else if ct_Plan req = '''' then Some PlanRequired
      else None)"

definition base_settings :: TenantSettings where
  "base_settings = \<lparr>set_DefaultCurrency = ''USD'', set_SupportedCurrencies = [''USD'', ''EUR'', ''GBP''],
     set_EnableMultiCurrency = False, set_EnableAdvancedAnalytics = False, set_EnableAPIAccess = False, set_EnableWebhooks = False,
     set_APIRateLimitPerMinute = 60, set_APIRateLimitPerHour = 1000, set_Require2FA = False, set_SessionTimeout = 120,
     set_PasswordPolicy = None, set_DataRetentionDays = 90, set_ComplianceRegions = [''US'', ''EU'']\<rparr>"

definition getDefaultSettings :: "TenantPlan \<Rightarrow> TenantSettings" where
  "getDefaultSettings plan =
     (if plan = TenantPlanFree then base_settings\<lparr>set_EnableAPIAccess := True\<rparr>
      else if plan = TenantPlanBasic then base_settings\<lparr>set_EnableMultiCurrency := True, set_EnableAPIAccess := True\<rparr>
      else if plan = TenantPlanPro then base_settings\<lparr>set_EnableMultiCurrency := True, set_EnableAdvancedAnalytics := True,
        set_EnableAPIAccess := True, set_EnableWebhooks := True, set_Require2FA := True\<rparr>
      else if plan = TenantPlanEnterprise then base_settings\<lparr>set_EnableMultiCurrency := True, set_EnableAdvancedAnalytics := True,
        set_EnableAPIAccess := True, set_EnableWebhooks := True, set_Require2FA := True,
        set_APIRateLimitPerMinute := 1000, set_APIRateLimitPerHour := 10000\<rparr>
      else base_settings)"

definition getDefaultQuotas :: "TenantPlan \<Rightarrow> ResourceQuota list" where
  "getDefaultQuotas plan =
     (if plan = TenantPlanFree then [monthly ''users'' 5, monthly ''profiles'' 100, monthly ''carriers'' 3]
      else if plan = TenantPlanBasic then [monthly ''users'' 25, monthly ''profiles'' 1000, monthly ''carriers'' 10]
      else if plan = TenantPlanPro then [monthly ''users'' 100, monthly ''profiles'' 10000, monthly ''carriers'' 50]
      else if plan = TenantPlanEnterprise then [monthly ''users'' (- 1), monthly ''profiles'' (- 1), monthly ''carriers'' (- 1)]
      else [])"

definition getDefaultFeatures :: "TenantPlan \<Rightarrow> (string \<rightharpoonup> bool)" where
  "getDefaultFeatures plan =
     (let features = [''multi_currency'' \<mapsto> False, ''advanced_analytics'' \<mapsto> False, ''api_access'' \<mapsto> True,
            ''webhooks'' \<mapsto> False, ''custom_branding'' \<mapsto> False, ''priority_support'' \<mapsto> False]
      in if plan = TenantPlanBasic then features(''multi_currency'' \<mapsto> True)
         else if plan = TenantPlanPro then features(''multi_currency'' \<mapsto> True, ''advanced_analytics'' \<mapsto> True,
           ''webhooks'' \<mapsto> True, ''custom_branding'' \<mapsto> True)
         else if plan = TenantPlanEnterprise then features(''multi_currency'' \<mapsto> True, ''advanced_analytics'' \<mapsto> True,
           ''webhooks'' \<mapsto> True, ''custom_branding'' \<mapsto> True, ''priority_support'' \<mapsto> True)
         else features)"

definition new_tenant :: "string \<Rightarrow> (nat \<Rightarrow> time) \<Rightarrow> CreateTenantRequest \<Rightarrow> Tenant" where
  "new_tenant uuid now req = \<lparr>t_ID = uuid, t_Name = ct_Name req, t_Domain = ct_Domain req, t_Status = TenantStatusActive,
     t_Plan = ct_Plan req, t_MaxUsers = ct_MaxUsers req, t_MaxProfiles = ct_MaxProfiles req, t_MaxCarriers = ct_MaxCarriers req,
     t_Settings = (case ct_Settings req of None \<Rightarrow> Some (getDefaultSettings (ct_Plan req)) | Some x \<Rightarrow> Some x),
     t_Metadata = ct_Metadata req, t_CreatedAt = now 0, t_UpdatedAt = now 1, t_DeletedAt = None\<rparr>"

definition convertTenantConfig :: "string \<Rightarrow> TenantSettings option \<Rightarrow> TenantPlan \<Rightarrow> TenantConfig" where
  "convertTenantConfig tenantID settings plan = \<lparr>tc_TenantID = tenantID, tc_Config = Some Map.empty, tc_Settings = settings,
     tc_Quotas = Some (getDefaultQuotas plan), tc_Features = Some (getDefaultFeatures plan)\<rparr>"

text \<open>A failed lookup of the domain counts as a free one, and a failed configuration is only logged.\<close>

definition CreateTenant :: "'s tenant_db \<Rightarrow> string \<Rightarrow> (nat \<Rightarrow> time) \<Rightarrow> CreateTenantRequest \<Rightarrow> 's \<Rightarrow> (tenant_error + Tenant) \<times> 's" where
  "CreateTenant db uuid now req s =
     (case validateCreateTenantRequest req of
        Some e \<Rightarrow> (Inl e, s)
      | None \<Rightarrow>
          (case repo_GetTenantByDomain db (ct_Domain req) s of
             Inr _ \<Rightarrow> (Inl DomainExists, s)
           | Inl _ \<Rightarrow>
               let t = new_tenant uuid now req in
               (case repo_CreateTenant db t s of
                  (Some e, s') \<Rightarrow> (Inl (Repo e), s')
                | (None, s') \<Rightarrow> (Inr t, snd (repo_UpdateConfig db (now 2) (convertTenantConfig uuid (t_Settings t) (ct_Plan req)) s')))))"

definition assign :: "'a option \<Rightarrow> 'a \<Rightarrow> 'a" where
  "assign p x = (case p of None \<Rightarrow> x | Some y \<Rightarrow> y)"

definition update_tenant :: "time \<Rightarrow> UpdateTenantRequest \<Rightarrow> Tenant \<Rightarrow> Tenant" where
  "update_tenant now req t = t\<lparr>t_Name := assign (utr_Name req) (t_Name t), t_Status := assign (utr_Status req) (t_Status t),
     t_Plan := assign (utr_Plan req) (t_Plan t), t_MaxUsers := assign (utr_MaxUsers req) (t_MaxUsers t),
     t_MaxProfiles := assign (utr_MaxProfiles req) (t_MaxProfiles t), t_MaxCarriers := assign (utr_MaxCarriers req) (t_MaxCarriers t),
     t_Settings := (if utr_Settings req = None then t_Settings t else utr_Settings req),
     t_Metadata := (if utr_Metadata req = None then t_Metadata t else utr_Metadata req), t_UpdatedAt := now\<rparr>"

definition UpdateTenant :: "'s tenant_db \<Rightarrow> time \<Rightarrow> string \<Rightarrow> UpdateTenantRequest \<Rightarrow> 's \<Rightarrow> (tenant_error + Tenant) \<times> 's" where
  "UpdateTenant db now i req s =
     (case repo_GetTenant db i s of
        Inl e \<Rightarrow> (Inl (Repo e), s)
      | Inr t \<Rightarrow>
          let t' = update_tenant now req t in
          (case repo_UpdateTenant db t' s of (Some e, s') \<Rightarrow> (Inl (Repo e), s') | (None, s') \<Rightarrow> (Inr t', s')))"

definition DeleteTenant :: "'s tenant_db \<Rightarrow> string \<Rightarrow> 's \<Rightarrow> tenant_error option \<times> 's" where
  "DeleteTenant db i s = map_prod (map_option Repo) id (repo_DeleteTenant db i s)"

section \<open>Users\<close>

record CreateTenantUserRequest =
  cu_TenantID :: string
  cu_UserID :: string
  cu_Email :: string
  cu_Role :: TenantRole

record UpdateTenantUserRequest =
  uu_Role :: "TenantRole option"
  uu_Status :: "TenantUserStatus option"

definition validateCreateTenantUserRequest :: "CreateTenantUserRequest \<Rightarrow> tenant_error option" where
  "validateCreateTenantUserRequest req =
     (if cu_TenantID req = '''' then Some TenantIDRequired
      else if cu_UserID req = '''' then Some UserIDRequired
      else if cu_Email req = '''' then Some EmailRequired
      else if cu_Role req = '''' then Some RoleRequired
      else None)"

definition new_user :: "string \<Rightarrow> (nat \<Rightarrow> time) \<Rightarrow> CreateTenantUserRequest \<Rightarrow> TenantUser" where
  "new_user uuid now req = \<lparr>tu_ID = uuid, tu_TenantID = cu_TenantID req, tu_UserID = cu_UserID req, tu_Email = cu_Email req,
     tu_Role = cu_Role req, tu_Status = TenantUserStatusActive, tu_LastLogin = None, tu_CreatedAt = now 0, tu_UpdatedAt = now 1\<rparr>"

definition AddUserToTenant :: "'s tenant_db \<Rightarrow> string \<Rightarrow> (nat \<Rightarrow> time) \<Rightarrow> CreateTenantUserRequest \<Rightarrow> 's \<Rightarrow> (tenant_error + TenantUser) \<times> 's" where
  "AddUserToTenant db uuid now req s =
     (case validateCreateTenantUserRequest req of
        Some e \<Rightarrow> (Inl e, s)
      | None \<Rightarrow>
          (case repo_GetTenantUser db (cu_TenantID req) (cu_UserID req) s of
             Inr _ \<Rightarrow> (Inl UserExists, s)
           | Inl _ \<Rightarrow>
               let u = new_user uuid now req in
               (case repo_CreateTenantUser db u s of (Some e, s') \<Rightarrow> (Inl (Repo e), s') | (None, s') \<Rightarrow> (Inr u, s'))))"

definition UpdateTenantUser :: "'s tenant_db \<Rightarrow> time \<Rightarrow> string \<Rightarrow> string \<Rightarrow> UpdateTenantUserRequest \<Rightarrow> 's \<Rightarrow> (tenant_error + TenantUser) \<times> 's" where
  "UpdateTenantUser db now tenantID userID req s =
     (case repo_GetTenantUser db tenantID userID s of
        Inl e \<Rightarrow> (Inl (Repo e), s)
      | Inr u \<Rightarrow>
          let u' = u\<lparr>tu_Role := assign (uu_Role req) (tu_Role u), tu_Status := assign (uu_Status req) (tu_Status u), tu_UpdatedAt := now\<rparr> in
          (case repo_UpdateTenantUser db u' s of (Some e, s') \<Rightarrow> (Inl (Repo e), s') | (None, s') \<Rightarrow> (Inr u', s')))"

definition RemoveUserFromTenant :: "'s tenant_db \<Rightarrow> string \<Rightarrow> string \<Rightarrow> 's \<Rightarrow> tenant_error option \<times> 's" where
  "RemoveUserFromTenant db tenantID userID s = map_prod (map_option Repo) id (repo_DeleteTenantUser db tenantID userID s)"

definition role_permits :: "TenantRole \<Rightarrow> string \<Rightarrow> bool" where
  "role_permits role permission =
     (if role = TenantRoleOwner \<or> role = TenantRoleAdmin then True
      else if role = TenantRoleManager then permission \<noteq> ''delete''
      else if role = TenantRoleUser then permission = ''read''
      else False)"

definition HasPermission :: "'s tenant_db \<Rightarrow> string \<Rightarrow> string \<Rightarrow> string \<Rightarrow> 's \<Rightarrow> repo_error + bool" where
  "HasPermission db tenantID userID permission s =
     (case repo_GetTenantUser db tenantID userID s of
        Inl e \<Rightarrow> Inl e
      | Inr user \<Rightarrow> Inr (role_permits (tu_Role user) permission))"

record TenantContext =
  tx_TenantID :: string
  tx_TenantName :: string
  tx_Plan :: TenantPlan
  tx_UserID :: string
  tx_UserRole :: TenantRole
  tx_Settings :: "TenantSettings option"
  tx_Metadata :: metadata

definition ValidateTenantAccess :: "'s tenant_db \<Rightarrow> string \<Rightarrow> string \<Rightarrow> 's \<Rightarrow> tenant_error + TenantContext" where
  "ValidateTenantAccess db tenantID userID s =
     (case repo_GetTenant db tenantID s of
        Inl e \<Rightarrow> Inl (TenantNotFound e)
      | Inr t \<Rightarrow>
          if t_Status t \<noteq> ''active'' then Inl TenantNotActive
          else (case repo_GetTenantUser db tenantID userID s of
              Inl e \<Rightarrow> Inl (UserNotFound e)
            | Inr user \<Rightarrow>
                if tu_Status user \<noteq> ''active'' then Inl UserNotActive
                else Inr \<lparr>tx_TenantID = tenantID, tx_TenantName = t_Name t, tx_Plan = t_Plan t, tx_UserID = userID,
                       tx_UserRole = tu_Role user, tx_Settings = t_Settings t, tx_Metadata = t_Metadata t\<rparr>))"

definition GetTenantContext :: "'s tenant_db \<Rightarrow> string \<Rightarrow> 's \<Rightarrow> tenant_error + TenantContext" where
  "GetTenantContext db tenantID s =
     (case repo_GetTenant db tenantID s of
        Inl e \<Rightarrow> Inl (TenantNotFound e)
      | Inr t \<Rightarrow> Inr \<lparr>tx_TenantID = tenantID, tx_TenantName = t_Name t, tx_Plan = t_Plan t, tx_UserID = '''',
             tx_UserRole = '''', tx_Settings = t_Settings t, tx_Metadata = t_Metadata t\<rparr>)"

definition svc_ValidateResourceAccess :: "'s tenant_db \<Rightarrow> string \<Rightarrow> string \<Rightarrow> string \<Rightarrow> 's \<Rightarrow> tenant_error option" where
  "svc_ValidateResourceAccess db tenantID resourceType resourceID s =
     (case repo_GetTenant db tenantID s of
        Inl e \<Rightarrow> Some (TenantNotFound e)
      | Inr t \<Rightarrow>
          if t_Status t \<noteq> ''active'' then Some TenantNotActive
          else if resourceType \<in> set [''profiles'', ''carriers'', ''users''] then None
          else Some UnknownResourceType)"

section \<open>Keys\<close>

record CreateAPIKeyRequest =
  ca_Name :: string
  ca_Permissions :: "string list"
  ca_RateLimit :: int
  ca_ExpiresAt :: "time option"

record UpdateAPIKeyRequest =
  ua_Name :: "string option"
  ua_Permissions :: "string list option"
  ua_RateLimit :: "int option"
  ua_ExpiresAt :: "time option"
  ua_Status :: "APIKeyStatus option"

text \<open>Lower-case hexadecimal, of \<open>hex.EncodeToString\<close> and the verb \<open>%x\<close> on a string.\<close>

definition hex_digit :: "nat \<Rightarrow> char" where
  "hex_digit d = (if d < 10 then char_of (48 + d) else char_of (87 + d))"

definition hex_byte :: "char \<Rightarrow> string" where
  "hex_byte c = [hex_digit (of_char c div 16), hex_digit (of_char c mod 16)]"

definition hex_string :: "string \<Rightarrow> string" where
  "hex_string s = concat (map hex_byte s)"

definition hashAPIKey :: "string \<Rightarrow> string" where
  "hashAPIKey key = hex_string key"

text \<open>The 32 random bytes, or none when the source of randomness fails.\<close>

definition generateAPIKey :: "string option \<Rightarrow> string \<Rightarrow> string" where
  "generateAPIKey random uuid = (case random of None \<Rightarrow> uuid | Some bytes \<Rightarrow> ''tk_'' @ hex_string bytes)"

definition new_key :: "string \<Rightarrow> (nat \<Rightarrow> time) \<Rightarrow> string \<Rightarrow> string \<Rightarrow> CreateAPIKeyRequest \<Rightarrow> TenantAPIKey" where
  "new_key uuid now tenantID apiKey req = \<lparr>ak_ID = uuid, ak_TenantID = tenantID, ak_Name = ca_Name req, ak_KeyHash = hashAPIKey apiKey,
     ak_KeyPrefix = take 8 apiKey, ak_Permissions = ca_Permissions req, ak_RateLimit = ca_RateLimit req, ak_LastUsed = None,
     ak_ExpiresAt = ca_ExpiresAt req, ak_Status = APIKeyStatusActive, ak_CreatedBy = '''', ak_CreatedAt = now 0, ak_UpdatedAt = now 1\<rparr>"

text \<open>\<open>apiKey[:8]\<close> panics on a shorter string.\<close>

definition CreateAPIKey ::
  "'s tenant_db \<Rightarrow> string option \<Rightarrow> string \<Rightarrow> string \<Rightarrow> (nat \<Rightarrow> time) \<Rightarrow> string \<Rightarrow> CreateAPIKeyRequest \<Rightarrow> 's
   \<Rightarrow> ((tenant_error + TenantAPIKey \<times> string) \<times> 's) go" where
  "CreateAPIKey db random uuid1 uuid2 now tenantID req s =
     (if ca_Name req = '''' then Returns (Inl NameRequired, s)
      else
        let apiKey = generateAPIKey random uuid1 in
        if length apiKey < 8 then Panics
        else
          let k = new_key uuid2 now tenantID apiKey req in
          (case repo_CreateAPIKey db k s of
             (Some e, s') \<Rightarrow> Returns (Inl (Repo e), s')
           | (None, s') \<Rightarrow> Returns (Inr (k, apiKey), s')))"

definition update_key :: "time \<Rightarrow> UpdateAPIKeyRequest \<Rightarrow> TenantAPIKey \<Rightarrow> TenantAPIKey" where
  "update_key now req k = k\<lparr>ak_Name := assign (ua_Name req) (ak_Name k), ak_Permissions := assign (ua_Permissions req) (ak_Permissions k),
     ak_RateLimit := assign (ua_RateLimit req) (ak_RateLimit k),
     ak_ExpiresAt := (if ua_ExpiresAt req = None then ak_ExpiresAt k else ua_ExpiresAt req),
     ak_Status := assign (ua_Status req) (ak_Status k), ak_UpdatedAt := now\<rparr>"

definition UpdateAPIKey :: "'s tenant_db \<Rightarrow> time \<Rightarrow> string \<Rightarrow> UpdateAPIKeyRequest \<Rightarrow> 's \<Rightarrow> (tenant_error + TenantAPIKey) \<times> 's" where
  "UpdateAPIKey db now i req s =
     (case repo_GetAPIKey db i s of
        Inl e \<Rightarrow> (Inl (Repo e), s)
      | Inr k \<Rightarrow>
          let k' = update_key now req k in
          (case repo_UpdateAPIKey db k' s of (Some e, s') \<Rightarrow> (Inl (Repo e), s') | (None, s') \<Rightarrow> (Inr k', s')))"

definition DeleteAPIKey :: "'s tenant_db \<Rightarrow> string \<Rightarrow> 's \<Rightarrow> tenant_error option \<times> 's" where
  "DeleteAPIKey db i s = map_prod (map_option Repo) id (repo_DeleteAPIKey db i s)"

text \<open>The failure to store the time of use is only logged.\<close>

definition ValidateAPIKey :: "'s tenant_db \<Rightarrow> (nat \<Rightarrow> time) \<Rightarrow> string \<Rightarrow> 's \<Rightarrow> (tenant_error + TenantAPIKey) \<times> 's" where
  "ValidateAPIKey db now key s =
     (case repo_GetAPIKeyByHash db (hashAPIKey key) s of
        Inl e \<Rightarrow> (Inl (Repo e), s)
      | Inr k \<Rightarrow>
          if ak_Status k \<noteq> APIKeyStatusActive then (Inl KeyNotActive, s)
          else if (case ak_ExpiresAt k of Some e \<Rightarrow> e < now 0 | None \<Rightarrow> False) then (Inl KeyExpired, s)
          else
            let k' = k\<lparr>ak_LastUsed := Some (now 1)\<rparr>
            in (Inr k', snd (repo_UpdateAPIKey db k' s)))"

section \<open>Configuration\<close>

definition GetTenantConfig :: "'s tenant_db \<Rightarrow> string \<Rightarrow> 's \<Rightarrow> tenant_error + TenantConfig" where
  "GetTenantConfig db tenantID s = map_sum Repo id (repo_GetConfig db tenantID s)"

definition save_config :: "'s tenant_db \<Rightarrow> time \<Rightarrow> TenantConfig \<Rightarrow> 's \<Rightarrow> tenant_error option \<times> 's" where
  "save_config db now cfg s = map_prod (map_option Repo) id (repo_UpdateConfig db now cfg s)"

definition UpdateTenantConfig :: "'s tenant_db \<Rightarrow> time \<Rightarrow> string \<Rightarrow> TenantConfig \<Rightarrow> 's \<Rightarrow> tenant_error option \<times> 's" where
  "UpdateTenantConfig db now tenantID cfg s = save_config db now (cfg\<lparr>tc_TenantID := tenantID\<rparr>) s"

definition GetTenantSettings :: "'s tenant_db \<Rightarrow> string \<Rightarrow> 's \<Rightarrow> tenant_error + TenantSettings option" where
  "GetTenantSettings db tenantID s = map_sum Repo tc_Settings (repo_GetConfig db tenantID s)"

definition convertTenantSettings :: "TenantSettings option \<Rightarrow> TenantSettings" where
  "convertTenantSettings settings =
     (let zero = \<lparr>set_DefaultCurrency = '''', set_SupportedCurrencies = [],
            set_EnableMultiCurrency = False, set_EnableAdvancedAnalytics = False, set_EnableAPIAccess = False, set_EnableWebhooks = False,
            set_APIRateLimitPerMinute = 0, set_APIRateLimitPerHour = 0, set_Require2FA = False, set_SessionTimeout = 0,
            set_PasswordPolicy = None, set_DataRetentionDays = 0, set_ComplianceRegions = []\<rparr>
      in case settings of
           None \<Rightarrow> zero
         | Some x \<Rightarrow> zero\<lparr>set_DefaultCurrency := set_DefaultCurrency x, set_SupportedCurrencies := set_SupportedCurrencies x,
             set_EnableMultiCurrency := set_EnableMultiCurrency x, set_EnableAdvancedAnalytics := set_EnableAdvancedAnalytics x,
             set_EnableAPIAccess := set_EnableAPIAccess x, set_EnableWebhooks := set_EnableWebhooks x,
             set_Require2FA := set_Require2FA x, set_SessionTimeout := set_SessionTimeout x,
             set_DataRetentionDays := set_DataRetentionDays x, set_ComplianceRegions := set_ComplianceRegions x\<rparr>)"

definition UpdateTenantSettings :: "'s tenant_db \<Rightarrow> time \<Rightarrow> string \<Rightarrow> TenantSettings option \<Rightarrow> 's \<Rightarrow> tenant_error option \<times> 's" where
  "UpdateTenantSettings db now tenantID settings s =
     (case repo_GetConfig db tenantID s of
        Inl e \<Rightarrow> (Some (Repo e), s)
      | Inr cfg \<Rightarrow> save_config db now (cfg\<lparr>tc_Settings := Some (convertTenantSettings settings)\<rparr>) s)"

definition GetTenantFeatures :: "'s tenant_db \<Rightarrow> string \<Rightarrow> 's \<Rightarrow> tenant_error + (string \<rightharpoonup> bool) option" where
  "GetTenantFeatures db tenantID s = map_sum Repo tc_Features (repo_GetConfig db tenantID s)"

definition UpdateTenantFeatures :: "'s tenant_db \<Rightarrow> time \<Rightarrow> string \<Rightarrow> (string \<rightharpoonup> bool) option \<Rightarrow> 's \<Rightarrow> tenant_error option \<times> 's" where
  "UpdateTenantFeatures db now tenantID features s =
     (case repo_GetConfig db tenantID s of
        Inl e \<Rightarrow> (Some (Repo e), s)
      | Inr cfg \<Rightarrow> save_config db now (cfg\<lparr>tc_Features := features\<rparr>) s)"

definition GetTenantQuotas :: "'s tenant_db \<Rightarrow> string \<Rightarrow> 's \<Rightarrow> tenant_error + ResourceQuota list option" where
  "GetTenantQuotas db tenantID s = map_sum Repo tc_Quotas (repo_GetConfig db tenantID s)"

definition UpdateTenantQuotas :: "'s tenant_db \<Rightarrow> time \<Rightarrow> string \<Rightarrow> ResourceQuota list option \<Rightarrow> 's \<Rightarrow> tenant_error option \<times> 's" where
  "UpdateTenantQuotas db now tenantID quotas s =
     (case repo_GetConfig db tenantID s of
        Inl e \<Rightarrow> (Some (Repo e), s)
      | Inr cfg \<Rightarrow> save_config db now (cfg\<lparr>tc_Quotas := quotas\<rparr>) s)"

fun check_quotas :: "ResourceQuota list \<Rightarrow> tenant_error option" where
  "check_quotas [] = None"
| "check_quotas (qt # qs) =
     (if rq_ResourceType qt = '''' then Some QuotaTypeRequired
      else if rq_Limit qt < - 1 then Some QuotaLimitInvalid
      else if rq_Period qt = '''' then Some QuotaPeriodRequired
      else check_quotas qs)"

definition ValidateTenantConfig :: "TenantConfig \<Rightarrow> tenant_error option" where
  "ValidateTenantConfig cfg =
     (if tc_TenantID cfg = '''' then Some TenantIDRequired
      else if tc_Settings cfg = None then Some SettingsRequired
      else case tc_Quotas cfg of
          None \<Rightarrow> Some QuotasRequired
        | Some qs \<Rightarrow> if tc_Features cfg = None then Some FeaturesRequired else check_quotas qs)"

definition ResetTenantConfig :: "'s tenant_db \<Rightarrow> time \<Rightarrow> string \<Rightarrow> 's \<Rightarrow> tenant_error option \<times> 's" where
  "ResetTenantConfig db now tenantID s =
     (case repo_GetTenant db tenantID s of
        Inl e \<Rightarrow> (Some (Repo e), s)
      | Inr t \<Rightarrow> save_config db now (convertTenantConfig tenantID (t_Settings t) (t_Plan t)) s)"

section \<open>Quotas\<close>

fun quota_limit :: "string \<Rightarrow> ResourceQuota list \<Rightarrow> int" where
  "quota_limit resourceType [] = 0"
| "quota_limit resourceType (qt # qs) =
     (if rq_ResourceType qt = resourceType then rq_Limit qt else quota_limit resourceType qs)"

text \<open>The range over a nil slice visits nothing.\<close>

definition quotas_of :: "TenantConfig \<Rightarrow> ResourceQuota list" where
  "quotas_of cfg = (case tc_Quotas cfg of None \<Rightarrow> [] | Some qs \<Rightarrow> qs)"

definition CheckQuota :: "'s tenant_db \<Rightarrow> string \<Rightarrow> string \<Rightarrow> int \<Rightarrow> 's \<Rightarrow> tenant_error option" where
  "CheckQuota db tenantID resourceType amt s =
     (case repo_GetUsage db tenantID resourceType s of
        Inl e \<Rightarrow> Some (Repo e)
      | Inr usage \<Rightarrow>
          (case repo_GetConfig db tenantID s of
             Inl e \<Rightarrow> Some (Repo e)
           | Inr cfg \<Rightarrow>
               let quotaLimit = quota_limit resourceType (quotas_of cfg) in
               if 0 \<le> quotaLimit \<and> quotaLimit < i64 (tg_QuotaUsed usage + amt)
               then Some (QuotaExceeded resourceType (i64 (tg_QuotaUsed usage + amt)) quotaLimit)
               else None))"

fun current_usage :: "string \<Rightarrow> TenantUsage list \<Rightarrow> int" where
  "current_usage resourceType [] = 0"
| "current_usage resourceType (u # us) =
     (if tg_ResourceType u = resourceType then tg_QuotaUsed u else current_usage resourceType us)"

definition quota_status :: "int \<Rightarrow> int \<Rightarrow> QuotaStatus" where
  "quota_status used limit =
     (let percent = f64_mul (f64_div (f64_of_int used) (f64_of_int limit)) (f64_lit 100)
      in \<lparr>qs_Used = used, qs_Limit = limit, qs_Remaining = i64 (limit - used), qs_Percent = percent,
          qs_Warning = f64_le (f64_lit 80) percent, qs_Critical = f64_le (f64_lit 95) percent\<rparr>)"

text \<open>A configuration that cannot be read leaves the statistics without quotas.\<close>

definition svc_GetUsageStats :: "'s tenant_db \<Rightarrow> string \<Rightarrow> 's \<Rightarrow> tenant_error + TenantUsageStats" where
  "svc_GetUsageStats db tenantID s =
     (case repo_ListUsage db (of_tenant tenantID) s of
        Inl e \<Rightarrow> Inl (Repo e)
      | Inr usageRecords \<Rightarrow> Inr \<lparr>us_TenantID = tenantID, us_ResourceBreakdown = Map.empty,
          us_QuotaStatus = (case repo_GetConfig db tenantID s of
              Inl _ \<Rightarrow> Map.empty
            | Inr cfg \<Rightarrow> foldl (\<lambda>m qt. m(rq_ResourceType qt \<mapsto>
                quota_status (current_usage (rq_ResourceType qt) usageRecords) (rq_Limit qt))) Map.empty (quotas_of cfg))\<rparr>)"

definition GetQuotaStatus :: "'s tenant_db \<Rightarrow> string \<Rightarrow> 's \<Rightarrow> tenant_error + (string \<rightharpoonup> QuotaStatus)" where
  "GetQuotaStatus db tenantID s = map_sum id us_QuotaStatus (svc_GetUsageStats db tenantID s)"

definition usage_record :: "string \<Rightarrow> string \<Rightarrow> string \<Rightarrow> int \<Rightarrow> time \<Rightarrow> TenantUsage" where
  "usage_record i tenantID resourceType amt now = \<lparr>tg_ID = i, tg_TenantID = tenantID, tg_ResourceType = resourceType,
     tg_ResourceCount = 0, tg_QuotaLimit = 0, tg_QuotaUsed = amt, tg_QuotaRemaining = 0, tg_PeriodStart = zero_time,
     tg_PeriodEnd = zero_time, tg_CreatedAt = zero_time, tg_UpdatedAt = now\<rparr>"

definition svc_UpdateUsage :: "'s tenant_db \<Rightarrow> string \<Rightarrow> time \<Rightarrow> string \<Rightarrow> string \<Rightarrow> int \<Rightarrow> 's \<Rightarrow> tenant_error option \<times> 's" where
  "svc_UpdateUsage db i now tenantID resourceType amt s =
     map_prod (map_option Repo) id (repo_UpdateUsage db (usage_record i tenantID resourceType amt now) s)"

definition RecordAPIUsage :: "'s tenant_db \<Rightarrow> string \<Rightarrow> time \<Rightarrow> string \<Rightarrow> 's \<Rightarrow> tenant_error option \<times> 's" where
  "RecordAPIUsage db i now tenantID s =
     map_prod (map_option Repo) id (repo_UpdateUsage db (usage_record i tenantID ''api_calls'' 1 now) s)"

text \<open>The limiter is an interface that may be nil; the service is wired with a nil one.\<close>

definition CheckRateLimit :: "(string \<Rightarrow> string \<Rightarrow> bool) option \<Rightarrow> TenantContext \<Rightarrow> string \<Rightarrow> tenant_error option go" where
  "CheckRateLimit limiter tenantCtx endpoint =
     go_bind (deref limiter) (\<lambda>allow.
       Returns (if \<not> allow (tx_TenantID tenantCtx) (tx_TenantID tenantCtx @ '':'' @ endpoint) then Some RateLimitExceeded else None))"

section \<open>Users of tenants\<close>

text \<open>The operations of the service. The identifier of a new user is new. \<open>AddUserToTenant\<close> takes any
  error of the lookup, and not only a missing record, for "not a member"; a step is labelled with
  the memberships whose lookup failed in it, and a run with those of all its steps.\<close>

definition looked_up :: "repo_error + 'a \<Rightarrow> bool" where
  "looked_up r \<longleftrightarrow> (case r of Inl (RepoError _) \<Rightarrow> False | _ \<Rightarrow> True)"

definition failed_lookup :: "'s tenant_db \<Rightarrow> CreateTenantUserRequest \<Rightarrow> 's \<Rightarrow> (string \<times> string) list" where
  "failed_lookup db req s =
     (if looked_up (repo_GetTenantUser db (cu_TenantID req) (cu_UserID req) s) then [] else [(cu_TenantID req, cu_UserID req)])"

inductive user_step :: "'s tenant_db \<Rightarrow> ('s \<Rightarrow> TenantUser multiset) \<Rightarrow> 's \<Rightarrow> (string \<times> string) list \<Rightarrow> 's \<Rightarrow> bool" for db users where
  Add: "uuid \<notin># image_mset tu_ID (users s) \<Longrightarrow> user_step db users s (failed_lookup db req s) (snd (AddUserToTenant db uuid now req s))"
| Change: "user_step db users s [] (snd (UpdateTenantUser db t tenantID userID ureq s))"
| Remove: "user_step db users s [] (snd (RemoveUserFromTenant db tenantID userID s))"
| CreateTenant: "user_step db users s [] (snd (CreateTenant db uuid now creq s))"
| UpdateTenant: "user_step db users s [] (snd (UpdateTenant db t i treq s))"
| DeleteTenant: "user_step db users s [] (snd (DeleteTenant db i s))"
| CreateKey: "CreateAPIKey db random uuid1 uuid2 now tenantID kreq s = Returns (res, s') \<Longrightarrow> user_step db users s [] s'"
| UpdateKey: "user_step db users s [] (snd (UpdateAPIKey db t i ukreq s))"
| DeleteKey: "user_step db users s [] (snd (DeleteAPIKey db i s))"
| ValidateKey: "user_step db users s [] (snd (ValidateAPIKey db now key s))"
| Configure: "user_step db users s [] (snd (save_config db t cfg s))"
| Use: "user_step db users s [] (snd (svc_UpdateUsage db i t tenantID resourceType amt s))"

inductive user_reachable :: "'s tenant_db \<Rightarrow> ('s \<Rightarrow> TenantUser multiset) \<Rightarrow> 's \<Rightarrow> (string \<times> string) list \<Rightarrow> 's \<Rightarrow> bool" for db users s0 where
  Start: "user_reachable db users s0 [] s0"
| Step: "user_reachable db users s0 failed s \<Longrightarrow> user_step db users s missed s' \<Longrightarrow> user_reachable db users s0 (missed @ failed) s'"

abbreviation membership :: "TenantUser \<Rightarrow> string \<times> string" where
  "membership u \<equiv> (tu_TenantID u, tu_UserID u)"

text \<open>A membership is stored at most once more than its lookup failed.\<close>

definition users_wf :: "(string \<times> string) list \<Rightarrow> TenantUser multiset \<Rightarrow> bool" where
  "users_wf failed us \<longleftrightarrow> unique_by tu_ID us \<and> (\<forall>k. size (filter_mset (\<lambda>u. membership u = k) us) \<le> 1 + count_list failed k)
     \<and> (\<forall>u \<in># us. tu_TenantID u \<noteq> '''' \<and> tu_UserID u \<noteq> '''')"

lemma users_wf_sub: "users_wf failed us \<Longrightarrow> vs \<subseteq># us \<Longrightarrow> users_wf failed vs"
  unfolding users_wf_def by (meson mset_subset_eqD unique_by_sub multiset_filter_mono size_mset_mono le_trans)

lemma users_wf_more: "users_wf failed us \<Longrightarrow> users_wf (missed @ failed) us"
  unfolding users_wf_def count_list_append by (meson add_left_mono le_add2 le_trans)

lemma users_wf_add:
  assumes "users_wf failed us" "tu_ID u \<notin># image_mset tu_ID us" "tu_TenantID u \<noteq> ''''" "tu_UserID u \<noteq> ''''"
    and "missed = [membership u] \<or> (\<forall>x \<in># us. membership x \<noteq> membership u)"
  shows "users_wf (missed @ failed) (add_mset u us)"
proof -
  have "size (filter_mset (\<lambda>x. membership x = k) (add_mset u us)) \<le> 1 + count_list (missed @ failed) k" for k
  proof (cases "k = membership u")
    case True
    show ?thesis
    proof (cases "missed = [membership u]")
      case False
      then have "filter_mset (\<lambda>x. membership x = k) us = {#}" using assms(5) True by (auto simp: filter_mset_eq_conv)
      then have "size (filter_mset (\<lambda>x. membership x = k) us) = 0" by (simp only: size_empty)
      moreover have "filter_mset (\<lambda>x. membership x = k) (add_mset u us) = add_mset u (filter_mset (\<lambda>x. membership x = k) us)"
        using True by (simp only: filter_mset_add_mset if_True simp_thms)
      ultimately have "size (filter_mset (\<lambda>x. membership x = k) (add_mset u us)) = 1" by (simp only: size_add_mset)
      then show ?thesis by linarith
    qed (use assms(1) True in \<open>simp add: users_wf_def\<close>)
  next
    case False
    moreover have "size (filter_mset (\<lambda>x. membership x = k) us) \<le> 1 + count_list failed k" using assms(1) unfolding users_wf_def by blast
    ultimately show ?thesis by auto
  qed
  moreover have "unique_by tu_ID (add_mset u us)" using assms(1,2) unfolding users_wf_def unique_by_add by (metis image_eqI set_image_mset)
  moreover have "\<forall>x \<in># add_mset u us. tu_TenantID x \<noteq> [] \<and> tu_UserID x \<noteq> []" using assms(1,3,4) unfolding users_wf_def by simp
  ultimately show ?thesis unfolding users_wf_def by blast
qed

lemma users_wf_replace:
  assumes "users_wf failed us" "u \<in># us" "tu_ID u' = tu_ID u" "membership u' = membership u"
  shows "users_wf failed (add_mset u' (filter_mset (\<lambda>x. tu_ID x \<noteq> tu_ID u') us))"
proof -
  obtain vs where us: "us = add_mset u vs" using assms(2) by (meson multi_member_split)
  have "unique_by tu_ID us" using assms(1) by (simp add: users_wf_def)
  then have "filter_mset (\<lambda>x. tu_ID x \<noteq> tu_ID u') us = vs" using unique_by_remove[of tu_ID us u] assms(2,3) us by simp
  moreover have "users_wf failed (add_mset u' vs)"
  proof -
    have "size (filter_mset (\<lambda>x. membership x = k) (add_mset u' vs)) = size (filter_mset (\<lambda>x. membership x = k) us)" for k
      using assms(4) us by simp
    then show ?thesis using assms(1,3,4) unfolding users_wf_def by (simp add: us unique_by_add)
  qed
  ultimately show ?thesis by simp
qed

lemma add_user_rows:
  assumes ok: "tenant_db_ok db tenants users usage keys"
    and "uuid \<notin># image_mset tu_ID (users s)" and wf: "users_wf failed (users s)"
  shows "users_wf (failed_lookup db req s @ failed) (users (snd (AddUserToTenant db uuid now req s)))"
proof (cases "validateCreateTenantUserRequest req = None \<and> isl (repo_GetTenantUser db (cu_TenantID req) (cu_UserID req) s)")
  case True
  define u where "u = new_user uuid now req"
  obtain e where l: "repo_GetTenantUser db (cu_TenantID req) (cu_UserID req) s = Inl e" using True by (auto simp: isl_def)
  obtain e' s' where c: "repo_CreateTenantUser db u s = (e', s')" by (cases "repo_CreateTenantUser db u s")
  then have s': "snd (AddUserToTenant db uuid now req s) = s'" using True l
    by (cases e') (simp_all add: AddUserToTenant_def u_def Let_def)
  have "failed_lookup db req s = [membership u] \<or> (\<forall>x \<in># users s. membership x \<noteq> membership u)"
  proof (cases e)
    case RecordNotFound
    then show ?thesis using l first_record_cases(2)[OF tenant_db_tables(3)[OF ok]] by (auto simp: repo_GetTenantUser_def u_def new_user_def)
  qed (simp add: failed_lookup_def looked_up_def l u_def new_user_def)
  moreover have "tu_ID u = uuid" "tu_TenantID u \<noteq> ''''" "tu_UserID u \<noteq> ''''"
    using True by (auto simp: u_def new_user_def validateCreateTenantUserRequest_def split: if_splits)
  ultimately have "users_wf (failed_lookup db req s @ failed) (add_mset u (users s))" using wf assms(2) by (intro users_wf_add) auto
  then show ?thesis
    using created_rows[OF tenant_db_tables(3)[OF ok] c[unfolded repo_CreateTenantUser_def]] wf users_wf_more by (simp add: s')
next
  case False
  then have "snd (AddUserToTenant db uuid now req s) = s"
    by (auto simp: AddUserToTenant_def split: option.splits sum.splits)
  then show ?thesis using wf users_wf_more by simp
qed

lemma update_user_rows:
  assumes ok: "tenant_db_ok db tenants users usage keys" and wf: "users_wf failed (users s)"
  shows "users_wf failed (users (snd (UpdateTenantUser db t tenantID userID req s)))"
proof (cases "repo_GetTenantUser db tenantID userID s")
  case (Inr u)
  define u' where "u' = u\<lparr>tu_Role := assign (uu_Role req) (tu_Role u), tu_Status := assign (uu_Status req) (tu_Status u), tu_UpdatedAt := t\<rparr>"
  obtain e s' where c: "repo_UpdateTenantUser db u' s = (e, s')" by (cases "repo_UpdateTenantUser db u' s")
  have s': "snd (UpdateTenantUser db t tenantID userID req s) = s'"
    using c Inr by (cases e) (simp_all add: UpdateTenantUser_def u'_def)
  have u: "u \<in># users s" using first_record_cases(1)[OF tenant_db_tables(3)[OF ok]] Inr by (auto simp: repo_GetTenantUser_def)
  have k: "tu_ID u' = tu_ID u" "membership u' = membership u" by (simp_all add: u'_def)
  have "users_wf failed (add_mset u' (filter_mset (\<lambda>x. tu_ID x \<noteq> tu_ID u') (users s)))" by (rule users_wf_replace[OF wf u k])
  then show ?thesis
    using saved_rows[OF tenant_db_tables(4)[OF ok] c[unfolded repo_UpdateTenantUser_def]] wf by (simp add: s')
qed (use wf in \<open>simp add: UpdateTenantUser_def\<close>)

lemma other_rows:
  assumes ok: "tenant_db_ok db tenants users usage keys"
  shows "users (snd (CreateTenant db uuid now creq s)) = users s" "users (snd (UpdateTenant db t i treq s)) = users s"
    "users (snd (DeleteTenant db i s)) = users s" "users (snd (UpdateAPIKey db t i ukreq s)) = users s"
    "users (snd (DeleteAPIKey db i s)) = users s" "users (snd (ValidateAPIKey db now key s)) = users s"
    "users (snd (save_config db t cfg s)) = users s" "users (snd (svc_UpdateUsage db i t tenantID resourceType amt s)) = users s"
    "CreateAPIKey db random uuid1 uuid2 now tenantID kreq s = Returns (res, s') \<Longrightarrow> users s' = users s"
proof -
  note f = frame_written[OF tenant_db_frames(1)[OF ok]] frame_written[OF tenant_db_frames(8)[OF ok]]
    frame_written[OF tenant_db_frames(11)[OF ok]]
  have cfg: "users (snd (repo_UpdateConfig db t c s)) = users s" for t c s
    using f by (simp add: repo_UpdateConfig_def repo_UpdateTenant_def split: sum.splits)
  show "users (snd (CreateTenant db uuid now creq s)) = users s"
  proof -
    have "users s1 = users s" if "repo_CreateTenant db x s = (e, s1)" for x e s1
      using f(1)[of x s] that by (simp add: repo_CreateTenant_def)
    then show ?thesis using cfg by (auto simp: CreateTenant_def Let_def split: option.splits sum.splits prod.splits)
  qed
  show "users (snd (UpdateTenant db t i treq s)) = users s"
    using f(2) by (auto simp: UpdateTenant_def repo_UpdateTenant_def Let_def split: option.splits sum.splits prod.splits) (metis snd_conv)+
  show "users (snd (DeleteTenant db i s)) = users s" using f(3) by (simp add: DeleteTenant_def repo_DeleteTenant_def)
  show "users (snd (UpdateAPIKey db t i ukreq s)) = users s"
    using f(8) by (auto simp: UpdateAPIKey_def repo_UpdateAPIKey_def Let_def split: option.splits sum.splits prod.splits) (metis snd_conv)+
  show "users (snd (DeleteAPIKey db i s)) = users s" using f(9) by (simp add: DeleteAPIKey_def repo_DeleteAPIKey_def)
  show "users (snd (ValidateAPIKey db now key s)) = users s"
    using f(8) by (simp add: ValidateAPIKey_def repo_UpdateAPIKey_def Let_def split: sum.splits)
  show "users (snd (save_config db t cfg s)) = users s" using cfg by (simp add: save_config_def)
  show "users (snd (svc_UpdateUsage db i t tenantID resourceType amt s)) = users s"
    using f(5) by (simp add: svc_UpdateUsage_def repo_UpdateUsage_def)
  show "users s' = users s" if "CreateAPIKey db random uuid1 uuid2 now tenantID kreq s = Returns (res, s')"
    using that f(7) by (auto simp: CreateAPIKey_def repo_CreateAPIKey_def Let_def split: if_splits option.splits prod.splits) (metis snd_conv)+
qed

lemma user_step_wf:
  assumes ok: "tenant_db_ok db tenants users usage keys" and "user_step db users s missed s'" and "users_wf failed (users s)"
  shows "users_wf (missed @ failed) (users s')"
  using assms(2)
proof cases
  case (Remove tenantID userID)
  obtain e s1 where r: "repo_DeleteTenantUser db tenantID userID s = (e, s1)" by (cases "repo_DeleteTenantUser db tenantID userID s")
  then have "users s' = (if e = None then filter_mset (\<lambda>u. \<not> (tu_TenantID u = tenantID \<and> tu_UserID u = userID)) (users s) else users s)"
    using deleted_rows[OF tenant_db_tables(3)[OF ok] r[unfolded repo_DeleteTenantUser_def]] Remove by (simp add: RemoveUserFromTenant_def)
  then show ?thesis using users_wf_sub[OF assms(3)] assms(3) Remove(1) by (auto intro: multiset_filter_subset)
qed (use assms(3) add_user_rows[OF ok] update_user_rows[OF ok] other_rows[OF ok] in simp_all)

lemma user_reachable_wf:
  assumes "tenant_db_ok db tenants users usage keys" and "users s0 = {#}" and "user_reachable db users s0 failed s"
  shows "users_wf failed (users s)"
  using assms(3)
proof induction
  case Start
  then show ?case by (simp add: assms(2) users_wf_def)
next
  case (Step failed s missed s')
  then show ?case using user_step_wf[OF assms(1)] by blast
qed

text \<open>C24. Over any sequence of operations, each new user with a new identifier, a tenant has at most one
  membership of a user plus one for every addition of the user whose lookup of the membership the
  database failed to answer: exactly at most one if all were answered. Every membership names a
  tenant and a user.\<close>

theorem tenant_memberships:
  assumes "tenant_db_ok db tenants users usage keys" and "users s0 = {#}" and "user_reachable db users s0 failed s"
  shows "size (filter_mset (\<lambda>u. tu_TenantID u = a \<and> tu_UserID u = b) (users s)) \<le> 1 + count_list failed (a, b)
    \<and> (\<forall>u \<in># users s. tu_TenantID u \<noteq> '''' \<and> tu_UserID u \<noteq> '''')"
  using user_reachable_wf[OF assms] by (auto simp: users_wf_def dest!: spec[of _ "(a, b)"])

text \<open>A failed lookup does add a member a second time.\<close>

theorem failed_lookup_duplicates:
  assumes "tenant_db_ok db tenants users usage keys" and "u \<in># users s" and "membership u = (cu_TenantID req, cu_UserID req)"
    and "repo_GetTenantUser db (cu_TenantID req) (cu_UserID req) s = Inl (RepoError e)" and "AddUserToTenant db uuid now req s = (Inr v, s')"
  shows "2 \<le> size (filter_mset (\<lambda>x. membership x = membership u) (users s'))"
proof -
  obtain e' s1 where c: "repo_CreateTenantUser db (new_user uuid now req) s = (e', s1)" by (cases "repo_CreateTenantUser db (new_user uuid now req) s")
  have "e' = None \<and> s' = s1" using assms(4,5) c by (cases e') (auto simp: AddUserToTenant_def Let_def split: option.splits)
  then have "users s' = add_mset (new_user uuid now req) (users s)"
    using created_rows[OF tenant_db_tables(3)[OF assms(1)] c[unfolded repo_CreateTenantUser_def]] by simp
  moreover obtain M where "users s = add_mset u M" using assms(2) by (meson multi_member_split)
  ultimately show ?thesis using assms(3) by (simp add: new_user_def)
qed

definition demo_user_request :: CreateTenantUserRequest where
  "demo_user_request = \<lparr>cu_TenantID = ''t'', cu_UserID = ''u'', cu_Email = ''u@t'', cu_Role = TenantRoleManager\<rparr>"

definition demo_tenant :: "TenantPlan \<Rightarrow> Tenant" where
  "demo_tenant plan = \<lparr>t_ID = ''t'', t_Name = ''T'', t_Domain = ''t.com'', t_Status = TenantStatusActive, t_Plan = plan, t_MaxUsers = 1,
     t_MaxProfiles = 1, t_MaxCarriers = 1, t_Settings = None, t_Metadata = Some [''region'' \<mapsto> AnyString ''EU''],
     t_CreatedAt = 1, t_UpdatedAt = 1, t_DeletedAt = None\<rparr>"

definition demo_tenants :: "TenantPlan \<Rightarrow> tenant_memory" where
  "demo_tenants plan = \<lparr>tm_tenants = [demo_tenant plan], tm_users = [], tm_usage = [], tm_keys = []\<rparr>"

lemmas memory_ops = memory_tenants_def list_table_def first_record_def

theorem tenant_memberships_witness:
  "let s = snd (AddUserToTenant memory_tenants ''1'' (\<lambda>_. 5) demo_user_request (demo_tenants TenantPlanFree))
   in size (filter_mset (\<lambda>u. tu_TenantID u = ''t'' \<and> tu_UserID u = ''u'') (mset (tm_users s))) \<le> 1 \<and> length (tm_users s) = 1"
proof -
  let ?s = "demo_tenants TenantPlanFree"
  have none: "repo_GetTenantUser memory_tenants (cu_TenantID demo_user_request) (cu_UserID demo_user_request) ?s = Inl RecordNotFound"
    by (simp add: repo_GetTenantUser_def memory_ops demo_tenants_def)
  have f: "failed_lookup memory_tenants demo_user_request ?s = []" by (simp only: failed_lookup_def none looked_up_def) simp
  have "user_reachable memory_tenants (\<lambda>s. mset (tm_users s)) ?s (failed_lookup memory_tenants demo_user_request ?s @ [])
      (snd (AddUserToTenant memory_tenants ''1'' (\<lambda>_. 5) demo_user_request ?s))"
    by (rule user_reachable.Step[OF user_reachable.Start user_step.Add]) (simp add: demo_tenants_def)
  then have "user_reachable memory_tenants (\<lambda>s. mset (tm_users s)) ?s [] (snd (AddUserToTenant memory_tenants ''1'' (\<lambda>_. 5) demo_user_request ?s))"
    unfolding f by simp
  from tenant_memberships[OF memory_tenants_ok _ this, of "''t''" "''u''"]
  have "size (filter_mset (\<lambda>u. tu_TenantID u = ''t'' \<and> tu_UserID u = ''u'')
      (mset (tm_users (snd (AddUserToTenant memory_tenants ''1'' (\<lambda>_. 5) demo_user_request ?s))))) \<le> 1"
    by (simp add: demo_tenants_def)
  moreover have "length (tm_users (snd (AddUserToTenant memory_tenants ''1'' (\<lambda>_. 5) demo_user_request ?s))) = 1"
    by (simp add: AddUserToTenant_def none validateCreateTenantUserRequest_def Let_def)
      (simp add: demo_user_request_def repo_CreateTenantUser_def memory_tenants_def list_table_def demo_tenants_def)
  ultimately show ?thesis by (simp add: Let_def)
qed

section \<open>Roles\<close>

text \<open>Owners and administrators may do everything, a manager everything but delete, a user only read and
  a viewer nothing at all; each role permits what the next one does.\<close>

lemma roles_nested:
  "role_permits TenantRoleViewer p \<longrightarrow> role_permits TenantRoleUser p"
  "role_permits TenantRoleUser p \<longrightarrow> role_permits TenantRoleManager p"
  "role_permits TenantRoleManager p \<longrightarrow> role_permits TenantRoleAdmin p"
  "\<not> role_permits TenantRoleViewer ''read''"
  by (simp_all add: role_permits_def)

text \<open>The status of a user is not looked at: a suspended user of a suspended tenant keeps every
  permission of the role, although access of the user to the tenant is refused.\<close>

theorem suspended_users_keep_permissions:
  assumes "repo_GetTenant db a s = Inr t" and "repo_GetTenantUser db a b s = Inr u" and "t_Status t \<noteq> ''active'' \<or> tu_Status u \<noteq> ''active''"
  shows "HasPermission db a b p s = Inr (role_permits (tu_Role u) p) \<and> isl (ValidateTenantAccess db a b s)"
  using assms by (auto simp: HasPermission_def ValidateTenantAccess_def)

section \<open>Keys and their hashes\<close>

fun unhex_digit :: "char \<Rightarrow> nat" where
  "unhex_digit c = (if of_char c < (58 :: nat) then of_char c - 48 else of_char c - 87)"

fun unhex :: "string \<Rightarrow> string" where
  "unhex (a # b # cs) = char_of (16 * unhex_digit a + unhex_digit b) # unhex cs"
| "unhex _ = []"

lemma unhex_digit_hex: "d < 16 \<Longrightarrow> unhex_digit (hex_digit d) = d"
  by (simp add: hex_digit_def)

lemma unhex_hex [simp]: "unhex (hex_string s) = s"
proof (induction s)
  case (Cons c s)
  have "of_char c div 16 < (16 :: nat)" using mod_less_divisor[of 256 "of_char c :: nat"] by (simp add: div_less_iff_less_mult)
  then have "16 * unhex_digit (hex_digit (of_char c div 16)) + unhex_digit (hex_digit (of_char c mod 16)) = of_char c"
    by (simp only: unhex_digit_hex) simp
  then show ?case using Cons by (simp add: hex_string_def hex_byte_def del: unhex_digit.simps)
qed (simp add: hex_string_def)

lemma hash_inj: "hashAPIKey a = hashAPIKey b \<longleftrightarrow> a = b"
  by (metis hashAPIKey_def unhex_hex)

lemma generated_key_long: "length bytes = 32 \<Longrightarrow> length (generateAPIKey (Some bytes) uuid) = 67"
proof -
  have "length (hex_string bytes) = 2 * length bytes" by (induction bytes) (simp_all add: hex_string_def hex_byte_def)
  then show "length bytes = 32 \<Longrightarrow> ?thesis" by (simp add: generateAPIKey_def)
qed

lemma created_key:
  assumes "CreateAPIKey db random uuid1 uuid2 now tenantID req s = Returns (Inr (k, key), s')"
  shows "key = generateAPIKey random uuid1" "k = new_key uuid2 now tenantID key req" "repo_CreateAPIKey db k s = (None, s')"
  using assms by (auto simp: CreateAPIKey_def Let_def split: if_splits option.splits prod.splits)

text \<open>A key authenticates as soon as it is created and until it expires: \<open>ValidateAPIKey\<close> of the
  key that \<open>CreateAPIKey\<close> returned finds the stored record of the same tenant.\<close>

theorem api_key_roundtrip:
  assumes ok: "tenant_db_ok db tenants users usage keys"
    and created: "CreateAPIKey db random uuid1 uuid2 now tenantID req s = Returns (Inr (k, key), s')"
    and fresh: "\<forall>x \<in># keys s. ak_KeyHash x \<noteq> hashAPIKey key"
    and answered: "looked_up (repo_GetAPIKeyByHash db (hashAPIKey key) s')"
  shows "ak_TenantID k = tenantID \<and> fst (ValidateAPIKey db now' key s') =
      (if \<exists>e. ca_ExpiresAt req = Some e \<and> e < now' 0 then Inl KeyExpired else Inr (k\<lparr>ak_LastUsed := Some (now' 1)\<rparr>))"
proof -
  note c = created_key[OF created]
  have rows: "keys s' = add_mset k (keys s)"
    using created_rows[OF tenant_db_tables(7)[OF ok] c(3)[unfolded repo_CreateAPIKey_def]] by simp
  have k: "ak_KeyHash k = hashAPIKey key" "ak_Status k = APIKeyStatusActive" "ak_ExpiresAt k = ca_ExpiresAt req" "ak_TenantID k = tenantID"
    by (simp_all add: c(2) new_key_def)
  have "repo_GetAPIKeyByHash db (hashAPIKey key) s' = Inr k"
  proof (cases "repo_GetAPIKeyByHash db (hashAPIKey key) s'")
    case (Inl e)
    then have "repo_GetAPIKeyByHash db (hashAPIKey key) s' = Inl RecordNotFound"
      using answered by (cases e) (simp_all add: looked_up_def)
    from first_record_cases(2)[OF tenant_db_tables(7)[OF ok] this[unfolded repo_GetAPIKeyByHash_def]]
    show ?thesis by (simp add: rows k)
  next
    case (Inr x)
    from first_record_cases(1)[OF tenant_db_tables(7)[OF ok] this[unfolded repo_GetAPIKeyByHash_def]]
    show ?thesis using fresh Inr by (auto simp: rows)
  qed
  then show ?thesis using k by (auto simp: ValidateAPIKey_def Let_def split: option.splits)
qed

definition demo_key_request :: CreateAPIKeyRequest where
  "demo_key_request = \<lparr>ca_Name = ''n'', ca_Permissions = [''read''], ca_RateLimit = 9, ca_ExpiresAt = Some 50\<rparr>"

lemma demo_key_created:
  "CreateAPIKey memory_tenants (Some (replicate 32 CHR ''A'')) ''u1'' ''k'' (\<lambda>_. 5) ''t'' demo_key_request (demo_tenants p)
     = (let key = generateAPIKey (Some (replicate 32 CHR ''A'')) ''u1''; k = new_key ''k'' (\<lambda>_. 5) ''t'' key demo_key_request
        in Returns (Inr (k, key), (demo_tenants p)\<lparr>tm_keys := [k]\<rparr>))"
  by (simp add: CreateAPIKey_def Let_def generated_key_long)
    (simp add: demo_key_request_def repo_CreateAPIKey_def memory_tenants_def list_table_def demo_tenants_def)

theorem api_key_roundtrip_witness:
  "let key = generateAPIKey (Some (replicate 32 CHR ''A'')) ''u1''; k = new_key ''k'' (\<lambda>_. 5) ''t'' key demo_key_request
   in fst (ValidateAPIKey memory_tenants (\<lambda>_. 50) key ((demo_tenants TenantPlanFree)\<lparr>tm_keys := [k]\<rparr>)) = Inr (k\<lparr>ak_LastUsed := Some 50\<rparr>)
    \<and> fst (ValidateAPIKey memory_tenants (\<lambda>_. 51) key ((demo_tenants TenantPlanFree)\<lparr>tm_keys := [k]\<rparr>)) = Inl KeyExpired"
proof -
  let ?key = "generateAPIKey (Some (replicate 32 CHR ''A'')) ''u1''"
  have "looked_up (repo_GetAPIKeyByHash memory_tenants h s)" for h s
    by (auto simp: looked_up_def repo_GetAPIKeyByHash_def memory_ops split: option.splits list.splits)
  from api_key_roundtrip[OF memory_tenants_ok demo_key_created[unfolded Let_def] _ this, of TenantPlanFree "\<lambda>_. 50"]
    api_key_roundtrip[OF memory_tenants_ok demo_key_created[unfolded Let_def] _ this, of TenantPlanFree "\<lambda>_. 51"]
  show ?thesis by (simp add: Let_def demo_key_request_def demo_tenants_def)
qed

text \<open>The stored hash is the key itself in hexadecimal: whoever reads the table reads the keys. The
  hash is at least injective, so no other key is accepted.\<close>

lemma stored_hash_is_key:
  "CreateAPIKey db random uuid1 uuid2 now tenantID req s = Returns (Inr (k, key), s') \<Longrightarrow> unhex (ak_KeyHash k) = key"
  by (drule created_key(2)) (simp add: new_key_def hashAPIKey_def)

text \<open>C25. Authentication is sound: a key is accepted only when an active record that has not expired
  stores the hash of exactly this key, and the caller gets the tenant of that record.\<close>

theorem accepted_keys_are_active:
  assumes "tenant_db_ok db tenants users usage keys" and "fst (ValidateAPIKey db now key s) = Inr k'"
  shows "\<exists>k \<in># keys s. unhex (ak_KeyHash k) = key \<and> ak_Status k = APIKeyStatusActive \<and> ak_TenantID k' = ak_TenantID k
    \<and> (\<forall>e. ak_ExpiresAt k = Some e \<longrightarrow> now 0 \<le> e)"
proof -
  obtain k where k: "repo_GetAPIKeyByHash db (hashAPIKey key) s = Inr k" "ak_Status k = APIKeyStatusActive"
      "\<forall>e. ak_ExpiresAt k = Some e \<longrightarrow> now 0 \<le> e" "k' = k\<lparr>ak_LastUsed := Some (now 1)\<rparr>"
    using assms(2) by (auto simp: ValidateAPIKey_def Let_def split: sum.splits if_splits option.splits)
  from first_record_cases(1)[OF tenant_db_tables(7)[OF assms(1)] k(1)[unfolded repo_GetAPIKeyByHash_def]]
  have "k \<in># keys s" "unhex (ak_KeyHash k) = key" by (auto simp: hashAPIKey_def)
  then show ?thesis using k by auto
qed

theorem accepted_keys_are_active_witness:
  "let key = generateAPIKey (Some (replicate 32 CHR ''A'')) ''u1''; k = new_key ''k'' (\<lambda>_. 5) ''t'' key demo_key_request;
       s = (demo_tenants TenantPlanFree)\<lparr>tm_keys := [k]\<rparr>
   in fst (ValidateAPIKey memory_tenants (\<lambda>_. 50) key s) = Inr (k\<lparr>ak_LastUsed := Some 50\<rparr>)
     \<and> (\<exists>k \<in> set (tm_keys s). unhex (ak_KeyHash k) = key \<and> ak_TenantID k = ''t'')"
proof -
  let ?key = "generateAPIKey (Some (replicate 32 CHR ''A'')) ''u1''"
  let ?k = "new_key ''k'' (\<lambda>_. 5) ''t'' ?key demo_key_request"
  let ?s = "(demo_tenants TenantPlanFree)\<lparr>tm_keys := [?k]\<rparr>"
  have v: "fst (ValidateAPIKey memory_tenants (\<lambda>_. 50) ?key ?s) = Inr (?k\<lparr>ak_LastUsed := Some 50\<rparr>)"
    by (simp add: ValidateAPIKey_def repo_GetAPIKeyByHash_def memory_ops new_key_def demo_key_request_def Let_def)
  from accepted_keys_are_active[OF memory_tenants_ok v]
  have "\<exists>k \<in> set (tm_keys ?s). unhex (ak_KeyHash k) = ?key \<and> ak_TenantID k = ''t''" by (auto simp: new_key_def)
  with v show ?thesis by (simp add: Let_def)
qed

section \<open>Configuration is not stored\<close>

lemma save_config_rows:
  assumes ok: "tenant_db_ok db tenants users usage keys" and u: "unique_by t_ID (tenants s)"
    and "save_config db now cfg s = (None, s')"
  shows "\<exists>t \<in># tenants s. t_ID t = tc_TenantID cfg \<and>
    tenants s' = add_mset (t\<lparr>t_Settings := tc_Settings cfg, t_Metadata := tc_Config cfg, t_UpdatedAt := now\<rparr>) (tenants s - {#t#})"
proof -
  obtain t where t: "repo_GetTenant db (tc_TenantID cfg) s = Inr t"
      "repo_UpdateTenant db (t\<lparr>t_Settings := tc_Settings cfg, t_Metadata := tc_Config cfg, t_UpdatedAt := now\<rparr>) s = (None, s')"
    using assms(3) by (cases "repo_GetTenant db (tc_TenantID cfg) s")
      (auto simp: save_config_def repo_UpdateConfig_def map_prod_def split: prod.splits)
  from first_record_cases(1)[OF tenant_db_tables(1)[OF ok] t(1)[unfolded repo_GetTenant_def]]
  have m: "t \<in># tenants s" "t_ID t = tc_TenantID cfg" by auto
  show ?thesis
    using m saved_rows[OF tenant_db_tables(2)[OF ok] t(2)[unfolded repo_UpdateTenant_def]] unique_by_remove[OF u m(1)]
    by (intro bexI[of _ t]) simp_all
qed

lemma config_of_row:
  assumes ok: "tenant_db_ok db tenants users usage keys" and u: "unique_by t_ID (tenants s)"
    and "t \<in># tenants s" and "t_ID t = a" and "repo_GetConfig db a s = Inr cfg"
  shows "cfg = \<lparr>tc_TenantID = a, tc_Config = Some Map.empty, tc_Settings = t_Settings t,
    tc_Quotas = Some (plan_quotas (t_Plan t)), tc_Features = Some (plan_features (t_Plan t))\<rparr>"
proof -
  obtain x where x: "repo_GetTenant db a s = Inr x" using assms(5) by (auto simp: repo_GetConfig_def split: sum.splits)
  from first_record_cases(1)[OF tenant_db_tables(1)[OF ok] x[unfolded repo_GetTenant_def]]
  have "x = t" using unique_by_same[OF u] assms(3,4) by auto
  then show ?thesis using assms(5) x by (simp add: repo_GetConfig_def)
qed

text \<open>Updates of quotas and features succeed and change nothing: what is read back afterwards is
  what the plan says, as before. Instead the update erases the metadata of the tenant.\<close>

theorem config_updates_lost:
  assumes ok: "tenant_db_ok db tenants users usage keys" and u: "unique_by t_ID (tenants s)"
    and "repo_GetConfig db a s = Inr old" and "repo_GetConfig db a s' = Inr new"
    and "UpdateTenantQuotas db now a quotas s = (None, s') \<or> UpdateTenantFeatures db now a features s = (None, s')"
  shows "tc_Quotas new = tc_Quotas old \<and> tc_Features new = tc_Features old
    \<and> (\<exists>t \<in># tenants s. t_ID t = a \<and> tenants s' = add_mset (t\<lparr>t_Metadata := Some Map.empty, t_UpdatedAt := now\<rparr>) (tenants s - {#t#}))"
proof -
  obtain x where x: "repo_GetTenant db a s = Inr x" using assms(3) by (auto simp: repo_GetConfig_def split: sum.splits)
  from first_record_cases(1)[OF tenant_db_tables(1)[OF ok] x[unfolded repo_GetTenant_def]]
  have m: "x \<in># tenants s" "t_ID x = a" by auto
  note b = config_of_row[OF ok u m assms(3)]
  obtain cfg where cfg: "save_config db now cfg s = (None, s')" "tc_TenantID cfg = a" "tc_Settings cfg = t_Settings x" "tc_Config cfg = Some Map.empty"
    using assms(3,5) b by (auto simp: UpdateTenantQuotas_def UpdateTenantFeatures_def)
  obtain t where t: "t \<in># tenants s" "t_ID t = a"
      "tenants s' = add_mset (t\<lparr>t_Settings := t_Settings x, t_Metadata := Some Map.empty, t_UpdatedAt := now\<rparr>) (tenants s - {#t#})"
    using save_config_rows[OF ok u cfg(1)] cfg(2-4) by auto
  have "t = x" using unique_by_same[OF u t(1) m(1)] t(2) m(2) by simp
  then have s': "tenants s' = add_mset (t\<lparr>t_Metadata := Some Map.empty, t_UpdatedAt := now\<rparr>) (tenants s - {#t#})" using t(3) by simp
  have "unique_by t_ID (tenants s')"
    using unique_by_replace[OF u t(1) _ u, of "t\<lparr>t_Metadata := Some Map.empty, t_UpdatedAt := now\<rparr>"] unique_by_remove[OF u t(1)] by (simp add: s')
  from config_of_row[OF ok this _ _ assms(4), of "t\<lparr>t_Metadata := Some Map.empty, t_UpdatedAt := now\<rparr>"]
  have "tc_Quotas new = Some (plan_quotas (t_Plan t))" "tc_Features new = Some (plan_features (t_Plan t))"
    using t(2) by (simp_all add: s')
  then show ?thesis using b t(1,2) s' \<open>t = x\<close> by auto
qed

lemma demo_quota_update:
  "UpdateTenantQuotas memory_tenants 9 ''t'' (Some [monthly ''users'' 7]) (demo_tenants TenantPlanFree)
     = (None, (demo_tenants TenantPlanFree)\<lparr>tm_tenants := [(demo_tenant TenantPlanFree)\<lparr>t_Metadata := Some Map.empty, t_UpdatedAt := 9\<rparr>]\<rparr>)"
  by (simp add: UpdateTenantQuotas_def save_config_def repo_UpdateConfig_def repo_UpdateTenant_def repo_GetConfig_def repo_GetTenant_def
      memory_ops demo_tenants_def demo_tenant_def)

theorem config_updates_lost_witness:
  "let s = demo_tenants TenantPlanFree; s' = snd (UpdateTenantQuotas memory_tenants 9 ''t'' (Some [monthly ''users'' 7]) s)
   in UpdateTenantQuotas memory_tenants 9 ''t'' (Some [monthly ''users'' 7]) s = (None, s')
     \<and> map_sum id tc_Quotas (repo_GetConfig memory_tenants ''t'' s') = Inr (Some [monthly ''users'' 5, monthly ''profiles'' 100, monthly ''carriers'' 3])"
proof -
  let ?s = "demo_tenants TenantPlanFree" and ?u = "UpdateTenantQuotas memory_tenants 9 ''t'' (Some [monthly ''users'' 7]) (demo_tenants TenantPlanFree)"
  have g: "\<exists>c. repo_GetConfig memory_tenants ''t'' ?s = Inr c \<and> tc_Quotas c = Some (plan_quotas TenantPlanFree)"
    "\<exists>c. repo_GetConfig memory_tenants ''t'' (snd ?u) = Inr c"
    unfolding demo_quota_update by (simp_all add: repo_GetConfig_def repo_GetTenant_def memory_ops demo_tenants_def demo_tenant_def)
  then obtain c c' where c: "repo_GetConfig memory_tenants ''t'' ?s = Inr c" "tc_Quotas c = Some (plan_quotas TenantPlanFree)"
      "repo_GetConfig memory_tenants ''t'' (snd ?u) = Inr c'" by blast
  have u: "?u = (None, snd ?u)" by (simp add: demo_quota_update)
  have "unique_by t_ID (mset (tm_tenants ?s))" by (simp add: demo_tenants_def unique_by_add)
  from config_updates_lost[OF memory_tenants_ok this c(1,3) disjI1[OF u]] c u
  show ?thesis by (simp add: Let_def plan_quotas_def)
qed

text \<open>An update of the settings also sets the rate limits to zero and drops the password policy.\<close>

lemma settings_update_drops:
  "set_APIRateLimitPerMinute (convertTenantSettings st) = 0" "set_APIRateLimitPerHour (convertTenantSettings st) = 0"
  "set_PasswordPolicy (convertTenantSettings st) = None"
  by (cases st; simp add: convertTenantSettings_def)+

text \<open>The defaults the service computes and those the repository derives have the same quotas, but the
  repository does not know the features custom branding and priority support.\<close>

lemma default_quotas_agree: "getDefaultQuotas plan = plan_quotas plan"
  by (simp add: getDefaultQuotas_def plan_quotas_def)

lemma derived_features:
  assumes "plan \<in> {TenantPlanFree, TenantPlanBasic, TenantPlanPro, TenantPlanEnterprise}"
  shows "plan_features plan = (getDefaultFeatures plan)(''custom_branding'' := None, ''priority_support'' := None)"
proof
  fix k
  show "plan_features plan k = ((getDefaultFeatures plan)(''custom_branding'' := None, ''priority_support'' := None)) k"
    using assms by (elim insertE emptyE; hypsubst; simp add: plan_features_def getDefaultFeatures_def Let_def)
qed

section \<open>Quotas are not enforced\<close>

text \<open>Recording the usage of a resource, with a new identifier each time.\<close>

fun record_usage :: "'s tenant_db \<Rightarrow> string \<Rightarrow> string \<Rightarrow> (string \<times> int) list \<Rightarrow> 's \<Rightarrow> 's" where
  "record_usage db a resourceType [] s = s"
| "record_usage db a resourceType ((i, amt) # us) s =
     record_usage db a resourceType us (snd (svc_UpdateUsage db i 0 a resourceType amt s))"

lemma update_usage_rows:
  assumes "tenant_db_ok db tenants users usage keys"
  shows "usage (snd (svc_UpdateUsage db i t a r amt s)) \<subseteq># add_mset (usage_record i a r amt t) (usage s)"
proof -
  obtain e s' where w: "written (tb_save (tdb_usage db) (usage_record i a r amt t) s) = (e, s')"
    by (cases "written (tb_save (tdb_usage db) (usage_record i a r amt t) s)")
  from saved_rows[OF tenant_db_tables(6)[OF assms] w] w show ?thesis
    by (auto simp: svc_UpdateUsage_def repo_UpdateUsage_def intro: subset_mset.order_trans[OF multiset_filter_subset])
qed

lemma record_usage_rows:
  assumes "tenant_db_ok db tenants users usage keys"
  shows "x \<in># usage (record_usage db a r us s) \<Longrightarrow> x \<in># usage s \<or> (\<exists>(i, amt) \<in> set us. x = usage_record i a r amt 0)"
proof (induction us arbitrary: s)
  case (Cons u us)
  obtain i amt where u: "u = (i, amt)" by (cases u)
  let ?s = "snd (svc_UpdateUsage db i 0 a r amt s)"
  have "x \<in># usage ?s \<or> (\<exists>(i, amt) \<in> set us. x = usage_record i a r amt 0)"
    using Cons.IH[of ?s] Cons.prems by (simp add: u)
  moreover have "x = usage_record i a r amt 0 \<or> x \<in># usage s" if "x \<in># usage ?s"
    using mset_subset_eqD[OF update_usage_rows[OF assms, of i 0 a r amt s] that] by simp
  ultimately show ?case unfolding u by fastforce
qed simp

text \<open>The quota check sees one record, and recording usage adds records instead of adding up:
  however much usage has been recorded, the check accepts as long as no single recorded amount and the
  requested one together exceed the limit.\<close>

theorem quotas_not_enforced:
  assumes ok: "tenant_db_ok db tenants users usage keys"
    and "\<forall>u \<in># usage s. \<not> (tg_TenantID u = a \<and> tg_ResourceType u = r)"
    and "s' = record_usage db a r us s" and "repo_GetUsage db a r s' = Inr u" and "repo_GetConfig db a s' = Inr cfg"
    and "\<forall>(i, amt) \<in> set us. i64 (amt + req) \<le> quota_limit r (quotas_of cfg)"
  shows "CheckQuota db a r req s' = None"
proof -
  from first_record_cases(1)[OF tenant_db_tables(5)[OF ok] assms(4)[unfolded repo_GetUsage_def]]
  have "u \<in># usage s'" "tg_TenantID u = a" "tg_ResourceType u = r" by auto
  then obtain i amt where "(i, amt) \<in> set us" "u = usage_record i a r amt 0"
    using record_usage_rows[OF ok, of u a r us s] assms(2,3) by auto
  then have "i64 (tg_QuotaUsed u + req) \<le> quota_limit r (quotas_of cfg)" using assms(6) by (auto simp: usage_record_def)
  then show ?thesis using assms(4,5) by (simp add: CheckQuota_def Let_def)
qed

lemma demo_usage:
  "record_usage memory_tenants ''t'' ''users'' [(''1'', 4), (''2'', 4), (''3'', 4)] (demo_tenants TenantPlanFree)
     = (demo_tenants TenantPlanFree)\<lparr>tm_usage := map (\<lambda>i. usage_record i ''t'' ''users'' 4 0) [''3'', ''2'', ''1'']\<rparr>"
  by (simp add: svc_UpdateUsage_def repo_UpdateUsage_def memory_tenants_def list_table_def demo_tenants_def usage_record_def)

theorem quotas_not_enforced_witness:
  "let s = record_usage memory_tenants ''t'' ''users'' [(''1'', 4), (''2'', 4), (''3'', 4)] (demo_tenants TenantPlanFree)
   in CheckQuota memory_tenants ''t'' ''users'' 1 s = None \<and> sum_list (map tg_QuotaUsed (tm_usage s)) = 12
     \<and> quota_limit ''users'' (plan_quotas TenantPlanFree) = 5"
proof -
  let ?s = "record_usage memory_tenants ''t'' ''users'' [(''1'', 4), (''2'', 4), (''3'', 4)] (demo_tenants TenantPlanFree)"
  have u: "repo_GetUsage memory_tenants ''t'' ''users'' ?s = Inr (usage_record ''3'' ''t'' ''users'' 4 0)"
    unfolding demo_usage by (simp add: repo_GetUsage_def memory_ops usage_record_def)
  have cfg: "\<exists>c. repo_GetConfig memory_tenants ''t'' ?s = Inr c \<and> quotas_of c = plan_quotas TenantPlanFree"
    unfolding demo_usage by (simp add: repo_GetConfig_def repo_GetTenant_def memory_ops demo_tenants_def demo_tenant_def quotas_of_def)
  then obtain c where c: "repo_GetConfig memory_tenants ''t'' ?s = Inr c" "quotas_of c = plan_quotas TenantPlanFree" by blast
  have l: "quota_limit ''users'' (plan_quotas TenantPlanFree) = 5" by (simp add: plan_quotas_def monthly_def)
  have "CheckQuota memory_tenants ''t'' ''users'' 1 ?s = None"
    by (rule quotas_not_enforced[OF memory_tenants_ok _ refl u c(1)]) (simp_all add: c(2) l demo_tenants_def)
  then show ?thesis using l unfolding demo_usage by (simp add: Let_def usage_record_def)
qed

text \<open>A resource without a record of usage is refused whatever the quota, and so is every positive
  amount of a resource the plan does not name.\<close>

lemma unused_resource_refused:
  "repo_GetUsage db a r s = Inl e \<Longrightarrow> CheckQuota db a r amt s = Some (Repo e)"
  by (simp add: CheckQuota_def)

lemma unlimited_remaining_negative:
  "qs_Remaining (quota_status 3 (- 1)) = - 4"
  by (simp add: quota_status_def Let_def)

end
