(* ===== verification/Tenant_Access.thy ===== *)
theory Tenant_Access
  imports Tenant_Service
begin

text \<open>
  The tenant middleware (\<open>apps/carrier-connector/internal/tenant/middleware.go\<close>) in front of the handlers,
  over the tenant service and the tenant rate limiter. A gin context has the keys that \<open>c.Set\<close>
  stores and \<open>c.Get\<close> reads, and apart from them the values of the request's own context, whose keys
  are compared with their types. A middleware either passes a context on or aborts with a status and a
  message. The log is not modelled.
\<close>

datatype ctx_value = CtxTenant TenantContext | CtxString string | CtxOther string

datatype ctx_key = TenantContextKey string | StringKey string

record gin_context =
  gc_header :: "string \<Rightarrow> string"
  gc_host :: string
  gc_param :: "string \<Rightarrow> string"
  gc_method :: string
  gc_path :: string
  gc_agent :: string
  gc_client :: string
  gc_keys :: "string \<rightharpoonup> ctx_value"
  gc_values :: "ctx_key \<rightharpoonup> ctx_value"

datatype answer = Next gin_context | Abort int string

datatype access_error =
    TenantMissing | TenantRateLimited | KeyMissing | ServiceRefused tenant_error | ContextMissing | ContextInvalid

abbreviation TenantCtxKey :: string where "TenantCtxKey \<equiv> ''tenant_context''"
abbreviation UserIDKey :: string where "UserIDKey \<equiv> ''user_id''"

definition WithValue :: "ctx_key \<Rightarrow> ctx_value \<Rightarrow> gin_context \<Rightarrow> gin_context" where
  "WithValue k v c = c\<lparr>gc_values := (gc_values c)(k \<mapsto> v)\<rparr>"

section \<open>Who the tenant is\<close>

definition tenant_of_request :: "gin_context \<Rightarrow> string" where
  "tenant_of_request c =
     (let tenantID = gc_header c ''X-Tenant-ID'' in
      if tenantID = '''' then
        (let parts = split_on CHR ''.'' (gc_host c) in if 2 < length parts then hd parts else '''')
      else tenantID)"

definition ExtractTenantFromHeader ::
  "'s tenant_db \<Rightarrow> readings \<Rightarrow> gin_context \<Rightarrow> 's \<Rightarrow> TenantRateLimiter \<Rightarrow> (access_error + TenantContext) \<times> TenantRateLimiter" where
  "ExtractTenantFromHeader db rd c s trl =
     (let tenantID = tenant_of_request c in
      if tenantID = '''' then (Inl TenantMissing, trl)
      else (case GetTenantContext db tenantID s of
          Inl e \<Rightarrow> (Inl (ServiceRefused e), trl)
        | Inr tenantCtx \<Rightarrow>
            let (ok, trl') = AllowRequest tenantID (tx_Plan tenantCtx) rd trl
            in (if ok then Inr tenantCtx else Inl TenantRateLimited, trl')))"

definition bearer :: "string \<Rightarrow> string" where
  "bearer h = (if take 7 h = ''Bearer '' then drop 7 h else '''')"

definition key_of_request :: "gin_context \<Rightarrow> string" where
  "key_of_request c = (if gc_header c ''X-API-Key'' = '''' then bearer (gc_header c ''Authorization'') else gc_header c ''X-API-Key'')"

definition ExtractTenantFromAPIKey ::
  "'s tenant_db \<Rightarrow> (nat \<Rightarrow> time) \<Rightarrow> gin_context \<Rightarrow> 's \<Rightarrow> (access_error + TenantContext) \<times> 's" where
  "ExtractTenantFromAPIKey db now c s =
     (if key_of_request c = '''' then (Inl KeyMissing, s)
      else (case ValidateAPIKey db now (key_of_request c) s of
          (Inl e, s') \<Rightarrow> (Inl (ServiceRefused e), s')
        | (Inr apiKeyData, s') \<Rightarrow> (map_sum ServiceRefused id (GetTenantContext db (ak_TenantID apiKeyData) s'), s')))"

section \<open>Middleware\<close>

definition RequireTenant ::
  "'s tenant_db \<Rightarrow> readings \<Rightarrow> (nat \<Rightarrow> time) \<Rightarrow> gin_context \<Rightarrow> 's \<times> TenantRateLimiter \<Rightarrow> answer \<times> 's \<times> TenantRateLimiter" where
  "RequireTenant db rd now c st =
     (let (s, trl) = st;
          (r, trl1) = ExtractTenantFromHeader db rd c s trl;
          (r1, s1) = (case r of Inr x \<Rightarrow> (Inr x, s) | Inl _ \<Rightarrow> ExtractTenantFromAPIKey db now c s)
      in case r1 of
           Inl _ \<Rightarrow> (Abort 401 ''Invalid tenant or API key'', s1, trl1)
         | Inr tenantCtx \<Rightarrow>
             (case ValidateTenantAccess db (tx_TenantID tenantCtx) '''' s1 of
                Inl _ \<Rightarrow> (Abort 403 ''Tenant access denied'', s1, trl1)
              | Inr _ \<Rightarrow> (Next (WithValue (TenantContextKey TenantCtxKey) (CtxTenant tenantCtx) c), s1, trl1)))"

definition mw_GetTenantContext :: "gin_context \<Rightarrow> access_error + TenantContext" where
  "mw_GetTenantContext c =
     (case gc_keys c TenantCtxKey of
        None \<Rightarrow> Inl ContextMissing
      | Some (CtxTenant x) \<Rightarrow> Inr x
      | Some _ \<Rightarrow> Inl ContextInvalid)"

definition GetUserID :: "gin_context \<Rightarrow> string" where
  "GetUserID c = (case gc_keys c UserIDKey of Some (CtxString i) \<Rightarrow> i | _ \<Rightarrow> '''')"

definition InjectTenantContext :: "TenantContext \<Rightarrow> gin_context \<Rightarrow> gin_context" where
  "InjectTenantContext tenantCtx c = c\<lparr>gc_keys := (gc_keys c)(TenantCtxKey \<mapsto> CtxTenant tenantCtx)\<rparr>"

definition RequireTenantRole :: "TenantRole list \<Rightarrow> gin_context \<Rightarrow> answer" where
  "RequireTenantRole requiredRoles c =
     (case mw_GetTenantContext c of
        Inl _ \<Rightarrow> Abort 401 ''Invalid tenant context''
      | Inr tenantCtx \<Rightarrow>
          if tx_UserRole tenantCtx \<notin> set requiredRoles then Abort 403 ''Insufficient permissions'' else Next c)"

definition RequirePermission :: "'s tenant_db \<Rightarrow> string \<Rightarrow> gin_context \<Rightarrow> 's \<Rightarrow> answer" where
  "RequirePermission db permission c s =
     (case mw_GetTenantContext c of
        Inl _ \<Rightarrow> Abort 401 ''Invalid tenant context''
      | Inr tenantCtx \<Rightarrow>
          if GetUserID c = '''' then Abort 401 ''User ID not found''
          else (case HasPermission db (tx_TenantID tenantCtx) (GetUserID c) permission s of
              Inl _ \<Rightarrow> Abort 500 ''Permission check failed''
            | Inr hasPermission \<Rightarrow> if \<not> hasPermission then Abort 403 ''Permission denied'' else Next c))"

definition mw_RateLimit :: "readings \<Rightarrow> gin_context \<Rightarrow> TenantRateLimiter \<Rightarrow> answer \<times> TenantRateLimiter" where
  "mw_RateLimit rd c trl =
     (case mw_GetTenantContext c of
        Inl _ \<Rightarrow> (Abort 401 ''Tenant context required for rate limiting'', trl)
      | Inr tenantCtx \<Rightarrow>
          let (ok, trl') = AllowRequest (tx_TenantID tenantCtx) (tx_Plan tenantCtx) rd trl
          in (if \<not> ok then Abort 429 ''rate limit exceeded'' else Next c, trl'))"

definition TenantIsolation :: "gin_context \<Rightarrow> answer" where
  "TenantIsolation c =
     (case mw_GetTenantContext c of
        Inl _ \<Rightarrow> Abort 401 ''Invalid tenant context''
      | Inr tenantCtx \<Rightarrow> Next (WithValue (StringKey ''tenant_id'') (CtxString (tx_TenantID tenantCtx)) c))"

definition mw_ValidateResourceAccess :: "string \<Rightarrow> gin_context \<Rightarrow> answer" where
  "mw_ValidateResourceAccess resource c =
     (let resourceID = (if gc_param c ''id'' = '''' then gc_param c ''resource_id'' else gc_param c ''id'') in
      case mw_GetTenantContext c of
        Inl _ \<Rightarrow> Abort 401 ''Tenant context required''
      | Inr tenantCtx \<Rightarrow>
          Next (WithValue (StringKey ''tenant_id'') (CtxString (tx_TenantID tenantCtx))
            (WithValue (StringKey ''validated_resource_id'') (CtxString resourceID)
              (WithValue (StringKey ''validated_resource'') (CtxString resource) c))))"

record TenantEvent =
  te_ID :: string
  te_TenantID :: string
  te_UserID :: string
  te_EventType :: string
  te_EventData :: "string \<rightharpoonup> string"
  te_Timestamp :: time

text \<open>The event that is logged, if the context has a tenant; a failure to store it is only logged.\<close>

definition LogTenantActivity :: "string \<Rightarrow> string \<Rightarrow> time \<Rightarrow> gin_context \<Rightarrow> answer \<times> TenantEvent option" where
  "LogTenantActivity activity eventID now c =
     (case mw_GetTenantContext c of
        Inl _ \<Rightarrow> (Next c, None)
      | Inr tenantCtx \<Rightarrow> (Next c, Some \<lparr>te_ID = eventID, te_TenantID = tx_TenantID tenantCtx, te_UserID = GetUserID c,
          te_EventType = activity, te_EventData = [''method'' \<mapsto> gc_method c, ''path'' \<mapsto> gc_path c,
            ''user_agent'' \<mapsto> gc_agent c, ''ip_address'' \<mapsto> gc_client c], te_Timestamp = now\<rparr>))"

section \<open>Properties\<close>

lemma nobody_named_empty:
  assumes "tenant_db_ok db tenants users usage keys" "users_wf failed (users s)"
  shows "isl (ValidateTenantAccess db a '''' s)"
proof -
  have "isl (repo_GetTenantUser db a '''' s)"
  proof (cases "repo_GetTenantUser db a '''' s")
    case (Inr u)
    from first_record_cases(1)[OF tenant_db_tables(3)[OF assms(1)] this[unfolded repo_GetTenantUser_def]]
    show ?thesis using assms(2) by (auto simp: users_wf_def)
  qed simp
  then show ?thesis by (cases "repo_GetTenantUser db a '''' s") (auto simp: ValidateTenantAccess_def split: sum.splits)
qed

lemma key_extraction_users:
  assumes "tenant_db_ok db tenants users usage keys" "ExtractTenantFromAPIKey db now c s = (r, s')"
  shows "users s' = users s"
  using assms(2) other_rows(6)[OF assms(1), of now "key_of_request c" s]
  by (auto simp: ExtractTenantFromAPIKey_def split: if_splits prod.splits sum.splits)

text \<open>The middleware that requires a tenant admits nobody: it validates the access of the user with
  the empty identifier, and the service never stores such a user, so every request, with
  whatever valid header or key, is answered 401 or 403.\<close>

theorem require_tenant_admits_nobody:
  assumes "tenant_db_ok db tenants users usage keys" and "users s0 = {#}" and "user_reachable db users s0 failed s"
  shows "\<exists>code msg. fst (RequireTenant db rd now c (s, trl)) = Abort code msg \<and> code \<in> {401, 403}"
proof -
  have wf: "users_wf failed (users s)" by (rule user_reachable_wf[OF assms])
  obtain r trl1 where h: "ExtractTenantFromHeader db rd c s trl = (r, trl1)" by (cases "ExtractTenantFromHeader db rd c s trl")
  obtain r1 s1 where k: "(case r of Inr x \<Rightarrow> (Inr x, s) | Inl _ \<Rightarrow> ExtractTenantFromAPIKey db now c s) = (r1, s1)"
    by (cases "case r of Inr x \<Rightarrow> (Inr x, s) | Inl _ \<Rightarrow> ExtractTenantFromAPIKey db now c s")
  have "users s1 = users s" using k key_extraction_users[OF assms(1)] by (auto split: sum.splits)
  then have denied: "isl (ValidateTenantAccess db a '''' s1)" for a using nobody_named_empty[OF assms(1)] wf by simp
  show ?thesis
  proof (cases r1)
    case (Inr x)
    obtain e where "ValidateTenantAccess db (tx_TenantID x) '''' s1 = Inl e"
      using denied[of "tx_TenantID x"] by (auto simp: isl_def)
    then show ?thesis by (simp add: RequireTenant_def h k Inr)
  qed (simp add: RequireTenant_def h k)
qed

theorem require_tenant_admits_nobody_witness:
  "\<exists>code msg. fst (RequireTenant memory_tenants \<lparr>rd_start = 1, rd_minute = 1, rd_hour = 1, rd_day = 1\<rparr> (\<lambda>_. 1)
     \<lparr>gc_header = (\<lambda>h. if h = ''X-Tenant-ID'' then ''t'' else ''''), gc_host = '''', gc_param = (\<lambda>_. ''''), gc_method = ''GET'',
      gc_path = '''', gc_agent = '''', gc_client = '''', gc_keys = Map.empty, gc_values = Map.empty\<rparr>
     (snd (AddUserToTenant memory_tenants ''1'' (\<lambda>_. 5) demo_user_request (demo_tenants TenantPlanFree)), NewTenantRateLimiter)) = Abort code msg
   \<and> code \<in> {401, 403}"
proof (rule require_tenant_admits_nobody[OF memory_tenants_ok])
  let ?s = "demo_tenants TenantPlanFree"
  show "mset (tm_users ?s) = {#}" by (simp add: demo_tenants_def)
  show "user_reachable memory_tenants (\<lambda>s. mset (tm_users s)) ?s (failed_lookup memory_tenants demo_user_request ?s @ [])
      (snd (AddUserToTenant memory_tenants ''1'' (\<lambda>_. 5) demo_user_request ?s))"
    by (rule user_reachable.Step[OF user_reachable.Start user_step.Add]) (simp add: demo_tenants_def)
qed

text \<open>Even if it passed a request on, the next middleware would not find the tenant: it is stored
  under a typed key of the request's context, and looked for among the keys of the gin context.\<close>

lemma required_tenant_invisible:
  "fst (RequireTenant db rd now c st) = Next c' \<Longrightarrow> mw_GetTenantContext c' = mw_GetTenantContext c"
  by (auto simp: RequireTenant_def WithValue_def mw_GetTenantContext_def Let_def split: prod.splits sum.splits)

text \<open>A tenant is identified by a header alone, without any credentials.\<close>

lemma header_needs_no_credentials:
  assumes "gc_header c ''X-Tenant-ID'' = a" "a \<noteq> ''''" "GetTenantContext db a s = Inr x" "fst (AllowRequest a (tx_Plan x) rd trl)"
  shows "fst (ExtractTenantFromHeader db rd c s trl) = Inr x"
  using assms by (cases "AllowRequest a (tx_Plan x) rd trl") (simp add: ExtractTenantFromHeader_def tenant_of_request_def Let_def)

definition demo_context :: gin_context where
  "demo_context = \<lparr>gc_header = (\<lambda>_. ''''), gc_host = '''', gc_param = (\<lambda>p. if p = ''id'' then ''of-another-tenant'' else ''''),
     gc_method = ''GET'', gc_path = '''', gc_agent = '''', gc_client = '''',
     gc_keys = [TenantCtxKey \<mapsto> CtxTenant \<lparr>tx_TenantID = ''t'', tx_TenantName = ''T'', tx_Plan = ''free'', tx_UserID = '''',
       tx_UserRole = '''', tx_Settings = None, tx_Metadata = None\<rparr>], gc_values = Map.empty\<rparr>"

text \<open>The middleware called validation of resource access validates nothing: with a tenant in
  the context any resource of any other tenant passes, and is marked as validated.\<close>

theorem resource_access_unchecked:
  assumes "mw_GetTenantContext c = Inr x"
  shows "\<exists>c'. mw_ValidateResourceAccess resource c = Next c'
    \<and> gc_values c' (StringKey ''validated_resource'') = Some (CtxString resource)
    \<and> gc_values c' (StringKey ''validated_resource_id'')
        = Some (CtxString (if gc_param c ''id'' = '''' then gc_param c ''resource_id'' else gc_param c ''id''))"
  using assms by (simp add: mw_ValidateResourceAccess_def WithValue_def Let_def)

theorem resource_access_unchecked_witness:
  "\<exists>c'. mw_ValidateResourceAccess ''profile'' demo_context = Next c'
     \<and> gc_values c' (StringKey ''validated_resource_id'') = Some (CtxString ''of-another-tenant'')"
proof -
  have "\<exists>x. mw_GetTenantContext demo_context = Inr x" by (simp add: mw_GetTenantContext_def demo_context_def)
  then obtain x where "mw_GetTenantContext demo_context = Inr x" by blast
  from resource_access_unchecked[OF this, of "''profile''"] show ?thesis by (auto simp: demo_context_def)
qed

text \<open>The limiter decides, and a limited request of a tenant is answered 429.\<close>

lemma rate_limit_answer:
  "mw_GetTenantContext c = Inr x \<Longrightarrow>
     fst (mw_RateLimit rd c trl) = (if fst (AllowRequest (tx_TenantID x) (tx_Plan x) rd trl) then Next c else Abort 429 ''rate limit exceeded'')"
  by (simp add: mw_RateLimit_def split: prod.split)

end
