(* ===== verification/Threats.thy ===== *)
theory Threats
  imports Go_Any
begin

text \<open>
  The threat detector (\<open>apps/carrier-connector/internal/security/threat_detection.go\<close>): the activity of
  each address, the two detection rules, the blocking of addresses and the cleanup. The alert
  handler is a callback; the events it was called with are recorded in the state. \<open>now i\<close> is the
  i-th reading of the clock in a call, the log is not modelled.
\<close>

section \<open>Detector\<close>

type_synonym ThreatLevel = string
type_synonym ThreatType = string

abbreviation ThreatLevelMedium :: ThreatLevel where "ThreatLevelMedium \<equiv> ''medium''"
abbreviation ThreatLevelHigh :: ThreatLevel where "ThreatLevelHigh \<equiv> ''high''"
abbreviation ThreatLevelCritical :: ThreatLevel where "ThreatLevelCritical \<equiv> ''critical''"
abbreviation ThreatTypeBruteForce :: ThreatType where "ThreatTypeBruteForce \<equiv> ''brute_force''"
abbreviation ThreatTypeRateLimitAbuse :: ThreatType where "ThreatTypeRateLimitAbuse \<equiv> ''rate_limit_abuse''"
abbreviation ThreatTypeSQLInjection :: ThreatType where "ThreatTypeSQLInjection \<equiv> ''sql_injection''"

record ThreatEvent =
  te_ID :: string
  te_TenantID :: string
  te_Type :: ThreatType
  te_Level :: ThreatLevel
  te_Source :: string
  te_Target :: string
  te_Description :: string
  te_Metadata :: metadata
  te_DetectedAt :: time
  te_Mitigated :: bool
  te_MitigatedAt :: "time option"

record IPActivity =
  ia_IP :: string
  ia_FailedLogins :: int
  ia_RequestCount :: int
  ia_LastRequest :: time
  ia_FirstSeen :: time
  ia_SuspiciousCount :: int

record DetectionRule =
  dr_ID :: string
  dr_Name :: string
  dr_Type :: ThreatType
  dr_Threshold :: int
  dr_Window :: duration
  dr_Level :: ThreatLevel
  dr_Enabled :: bool

record ThreatDetectorConfig =
  tdc_MaxFailedLogins :: int
  tdc_RateLimitThreshold :: int
  tdc_AlertHandler :: bool

record ThreatDetector =
  td_rules :: "DetectionRule list"
  td_events :: "ThreatEvent list"
  td_ipTracker :: "string \<rightharpoonup> IPActivity"
  td_alertHandler :: bool
  td_handled :: "ThreatEvent list"

definition DefaultThreatDetectorConfig :: ThreatDetectorConfig where
  "DefaultThreatDetectorConfig = \<lparr>tdc_MaxFailedLogins = 5, tdc_RateLimitThreshold = 1000, tdc_AlertHandler = False\<rparr>"

definition defaultRules :: "ThreatDetectorConfig \<Rightarrow> DetectionRule list" where
  "defaultRules config =
     [\<lparr>dr_ID = ''brute_force_login'', dr_Name = ''Brute Force Login Detection'', dr_Type = ThreatTypeBruteForce,
       dr_Threshold = tdc_MaxFailedLogins config, dr_Window = 5 * minute, dr_Level = ThreatLevelHigh, dr_Enabled = True\<rparr>,
      \<lparr>dr_ID = ''rate_limit_abuse'', dr_Name = ''Rate Limit Abuse Detection'', dr_Type = ThreatTypeRateLimitAbuse,
       dr_Threshold = tdc_RateLimitThreshold config, dr_Window = minute, dr_Level = ThreatLevelMedium, dr_Enabled = True\<rparr>]"

definition NewThreatDetector :: "ThreatDetectorConfig \<Rightarrow> ThreatDetector" where
  "NewThreatDetector config = \<lparr>td_rules = defaultRules config, td_events = [], td_ipTracker = Map.empty,
     td_alertHandler = tdc_AlertHandler config, td_handled = []\<rparr>"

definition raiseAlert :: "ThreatEvent \<Rightarrow> ThreatDetector \<Rightarrow> ThreatDetector" where
  "raiseAlert ev td = td\<lparr>td_events := td_events td @ [ev],
     td_handled := (if td_alertHandler td then td_handled td @ [ev] else td_handled td)\<rparr>"

definition threat_event :: "ThreatType \<Rightarrow> ThreatLevel \<Rightarrow> string \<Rightarrow> string \<Rightarrow> string \<Rightarrow> time \<Rightarrow> metadata \<Rightarrow> ThreatEvent" where
  "threat_event ty level source target description now md = \<lparr>te_ID = '''', te_TenantID = '''', te_Type = ty, te_Level = level,
     te_Source = source, te_Target = target, te_Description = description, te_Metadata = md, te_DetectedAt = now,
     te_Mitigated = False, te_MitigatedAt = None\<rparr>"

definition activity_of :: "time \<Rightarrow> string \<Rightarrow> ThreatDetector \<Rightarrow> IPActivity" where
  "activity_of now ip td = (case td_ipTracker td ip of
     Some a \<Rightarrow> a
   | None \<Rightarrow> \<lparr>ia_IP = ip, ia_FailedLogins = 0, ia_RequestCount = 0, ia_LastRequest = zero_time, ia_FirstSeen = now, ia_SuspiciousCount = 0\<rparr>)"

definition rate_rule :: "string \<Rightarrow> string \<Rightarrow> int \<Rightarrow> time \<Rightarrow> DetectionRule \<Rightarrow> ThreatDetector \<Rightarrow> ThreatDetector" where
  "rate_rule ip path n now rule td =
     (if dr_Type rule = ThreatTypeRateLimitAbuse \<and> dr_Enabled rule \<and> dr_Threshold rule < n
      then raiseAlert (threat_event ThreatTypeRateLimitAbuse (dr_Level rule) ip path ''Rate limit threshold exceeded'' now None) td
      else td)"

definition RecordRequest :: "(nat \<Rightarrow> time) \<Rightarrow> string \<Rightarrow> string \<Rightarrow> ThreatDetector \<Rightarrow> ThreatDetector" where
  "RecordRequest now ip path td =
     (let a = activity_of (now 0) ip td;
          a' = a\<lparr>ia_RequestCount := i64 (ia_RequestCount a + 1), ia_LastRequest := now 1\<rparr>;
          td' = td\<lparr>td_ipTracker := (td_ipTracker td)(ip \<mapsto> a')\<rparr>
      in fold (rate_rule ip path (ia_RequestCount a') (now 2)) (td_rules td') td')"

definition login_rule :: "string \<Rightarrow> string \<Rightarrow> int \<Rightarrow> time \<Rightarrow> DetectionRule \<Rightarrow> ThreatDetector \<Rightarrow> ThreatDetector" where
  "login_rule ip user n now rule td =
     (if dr_Type rule = ThreatTypeBruteForce \<and> dr_Enabled rule \<and> dr_Threshold rule \<le> n
      then raiseAlert (threat_event ThreatTypeBruteForce (dr_Level rule) ip user ''Multiple failed login attempts detected'' now
        (Some [''attempts'' \<mapsto> AnyInt n])) td
      else td)"

definition RecordFailedLogin :: "(nat \<Rightarrow> time) \<Rightarrow> string \<Rightarrow> string \<Rightarrow> ThreatDetector \<Rightarrow> ThreatDetector" where
  "RecordFailedLogin now ip user td =
     (let a = activity_of (now 0) ip td;
          a' = a\<lparr>ia_FailedLogins := i64 (ia_FailedLogins a + 1), ia_LastRequest := now 1\<rparr>;
          td' = td\<lparr>td_ipTracker := (td_ipTracker td)(ip \<mapsto> a')\<rparr>
      in fold (login_rule ip user (ia_FailedLogins a') (now 2)) (td_rules td') td')"

definition containsIgnoreCase :: "string \<Rightarrow> string \<Rightarrow> bool" where
  "containsIgnoreCase s substr \<longleftrightarrow> length substr \<le> length s"

definition sql_patterns :: "string list" where
  "sql_patterns = ['''--'', '''; DROP'', ''1=1'', ''OR 1=1'', ''UNION SELECT'', '''; DELETE'', '''; UPDATE'', '''; INSERT'']"

fun detect_patterns :: "string list \<Rightarrow> string \<Rightarrow> time \<Rightarrow> string \<Rightarrow> ThreatDetector \<Rightarrow> bool \<times> ThreatDetector" where
  "detect_patterns [] ip now input td = (False, td)"
| "detect_patterns (p # ps) ip now input td =
     (if containsIgnoreCase input p
      then (True, raiseAlert (threat_event ThreatTypeSQLInjection ThreatLevelCritical ip '''' ''SQL injection attempt detected'' now
        (Some [''pattern'' \<mapsto> AnyString p])) td)
      else detect_patterns ps ip now input td)"

definition DetectSQLInjection :: "time \<Rightarrow> string \<Rightarrow> string \<Rightarrow> ThreatDetector \<Rightarrow> bool \<times> ThreatDetector" where
  "DetectSQLInjection now ip input td = detect_patterns sql_patterns ip now input td"

text \<open>A slice from beyond the end of the list, as of a negative limit, panics.\<close>

definition GetRecentEvents :: "int \<Rightarrow> ThreatDetector \<Rightarrow> ThreatEvent list go" where
  "GetRecentEvents limit td =
     (let n = int (length (td_events td)) in
      if n \<le> limit then Returns (td_events td)
      else if n < n - limit then Panics
      else Returns (drop (nat (n - limit)) (td_events td)))"

definition GetIPActivity :: "string \<Rightarrow> ThreatDetector \<Rightarrow> IPActivity option" where
  "GetIPActivity ip td = td_ipTracker td ip"

definition BlockIP :: "string \<Rightarrow> ThreatDetector \<Rightarrow> ThreatDetector" where
  "BlockIP ip td = (case td_ipTracker td ip of None \<Rightarrow> td
     | Some a \<Rightarrow> td\<lparr>td_ipTracker := (td_ipTracker td)(ip \<mapsto> a\<lparr>ia_SuspiciousCount := 999\<rparr>)\<rparr>)"

definition IsBlocked :: "string \<Rightarrow> ThreatDetector \<Rightarrow> bool" where
  "IsBlocked ip td = (case td_ipTracker td ip of None \<Rightarrow> False | Some a \<Rightarrow> 999 \<le> ia_SuspiciousCount a)"

definition cleanup :: "time \<Rightarrow> ThreatDetector \<Rightarrow> ThreatDetector" where
  "cleanup now td = td\<lparr>td_ipTracker := (\<lambda>ip. case td_ipTracker td ip of None \<Rightarrow> None
     | Some a \<Rightarrow> if ia_LastRequest a < now - hour \<and> ia_SuspiciousCount a < 999 then None else Some a)\<rparr>"

section \<open>Runs\<close>

datatype threat_op =
    Request "nat \<Rightarrow> time" string string | FailedLogin "nat \<Rightarrow> time" string string | CheckInput time string string
  | Block string | Clean time

fun threat_step :: "threat_op \<Rightarrow> ThreatDetector \<Rightarrow> ThreatDetector" where
  "threat_step (Request now ip path) td = RecordRequest now ip path td"
| "threat_step (FailedLogin now ip user) td = RecordFailedLogin now ip user td"
| "threat_step (CheckInput now ip input) td = snd (DetectSQLInjection now ip input td)"
| "threat_step (Block ip) td = BlockIP ip td"
| "threat_step (Clean now) td = cleanup now td"

definition threat_run :: "threat_op list \<Rightarrow> ThreatDetector \<Rightarrow> ThreatDetector" where
  "threat_run ops td = fold threat_step ops td"

lemma raise_frame [simp]: "td_ipTracker (raiseAlert ev td) = td_ipTracker td" "td_rules (raiseAlert ev td) = td_rules td"
  by (simp_all add: raiseAlert_def)

lemma rules_frame [simp]:
  "td_ipTracker (fold (rate_rule ip path n t) rs td) = td_ipTracker td" "td_rules (fold (rate_rule ip path n t) rs td) = td_rules td"
  "td_ipTracker (fold (login_rule ip user n t) rs td) = td_ipTracker td" "td_rules (fold (login_rule ip user n t) rs td) = td_rules td"
  by (induction rs arbitrary: td) (simp_all add: rate_rule_def login_rule_def)

lemma request_tracker: "td_ipTracker (RecordRequest now ip path td) = (td_ipTracker td)(ip \<mapsto>
    (activity_of (now 0) ip td)\<lparr>ia_RequestCount := i64 (ia_RequestCount (activity_of (now 0) ip td) + 1), ia_LastRequest := now 1\<rparr>)"
  "td_rules (RecordRequest now ip path td) = td_rules td"
  by (simp_all add: RecordRequest_def Let_def)

lemma login_tracker: "td_ipTracker (RecordFailedLogin now ip user td) = (td_ipTracker td)(ip \<mapsto>
    (activity_of (now 0) ip td)\<lparr>ia_FailedLogins := i64 (ia_FailedLogins (activity_of (now 0) ip td) + 1), ia_LastRequest := now 1\<rparr>)"
  "td_rules (RecordFailedLogin now ip user td) = td_rules td"
  by (simp_all add: RecordFailedLogin_def Let_def)

lemma detect_tracker: "td_ipTracker (snd (DetectSQLInjection now ip input td)) = td_ipTracker td"
  "td_rules (snd (DetectSQLInjection now ip input td)) = td_rules td"
proof -
  have "td_ipTracker (snd (detect_patterns ps ip now input td)) = td_ipTracker td \<and> td_rules (snd (detect_patterns ps ip now input td)) = td_rules td" for ps
    by (induction ps) auto
  then show "td_ipTracker (snd (DetectSQLInjection now ip input td)) = td_ipTracker td"
    "td_rules (snd (DetectSQLInjection now ip input td)) = td_rules td" by (simp_all add: DetectSQLInjection_def)
qed

text \<open>A blocked address stays blocked, whatever is recorded afterwards and however often the tracker is
  cleaned up: nothing unblocks it.\<close>

theorem blocked_forever:
  assumes "IsBlocked ip td"
  shows "IsBlocked ip (threat_run ops td)"
proof -
  have "IsBlocked ip (threat_step op td)" if "IsBlocked ip td" for op td
    using that by (cases op) (auto simp: IsBlocked_def request_tracker login_tracker detect_tracker activity_of_def BlockIP_def cleanup_def split: option.splits if_splits)
  then show ?thesis using assms unfolding threat_run_def by (induction ops arbitrary: td) auto
qed

text \<open>Only an address that is tracked can be blocked.\<close>

lemma block_needs_activity: "IsBlocked ip (BlockIP ip td) \<longleftrightarrow> td_ipTracker td ip \<noteq> None"
  by (auto simp: IsBlocked_def BlockIP_def split: option.splits)

text \<open>Every input of three bytes or more is an attempt of SQL injection, and no shorter one is: the
  patterns are never looked for.\<close>

theorem every_input_is_injection:
  "fst (DetectSQLInjection now ip input td) \<longleftrightarrow> 3 \<le> length input"
  by (simp add: DetectSQLInjection_def sql_patterns_def containsIgnoreCase_def)

text \<open>The number of requests of an address in a run.\<close>

definition requests_of :: "string \<Rightarrow> threat_op list \<Rightarrow> nat" where
  "requests_of ip ops = length (filter (\<lambda>op. case op of Request _ i _ \<Rightarrow> i = ip | _ \<Rightarrow> False) ops)"

definition count_of :: "string \<Rightarrow> ThreatDetector \<Rightarrow> int" where
  "count_of ip td = (case td_ipTracker td ip of None \<Rightarrow> 0 | Some a \<Rightarrow> ia_RequestCount a)"

definition abuse_events :: "string \<Rightarrow> ThreatDetector \<Rightarrow> ThreatEvent list" where
  "abuse_events ip td = filter (\<lambda>ev. te_Type ev = ThreatTypeRateLimitAbuse \<and> te_Source ev = ip) (td_events td)"

lemma fold_no_abuse: "(\<And>r td. f r td = td \<or> (\<exists>ev. f r td = raiseAlert ev td \<and> \<not> (te_Type ev = ThreatTypeRateLimitAbuse \<and> te_Source ev = ip))) \<Longrightarrow>
  abuse_events ip (fold f rs td) = abuse_events ip td"
proof (induction rs arbitrary: td)
  case (Cons r rs)
  have "abuse_events ip (f r td) = abuse_events ip td" using Cons.prems[of r td] by (auto simp: abuse_events_def raiseAlert_def)
  then show ?case using Cons by simp
qed simp

lemma request_alerts:
  assumes "td_rules td = defaultRules config"
  shows "length (abuse_events ip (RecordRequest now i path td)) = length (abuse_events ip td)
    + (if i = ip \<and> tdc_RateLimitThreshold config < i64 (ia_RequestCount (activity_of (now 0) i td) + 1) then 1 else 0)"
  using assms by (simp add: RecordRequest_def Let_def defaultRules_def rate_rule_def abuse_events_def raiseAlert_def threat_event_def)

lemma step_alerts:
  assumes "td_rules td = defaultRules config" "\<forall>t. op \<noteq> Clean t" "0 \<le> count_of ip td" "count_of ip td < max_i64"
  shows "td_rules (threat_step op td) = defaultRules config
    \<and> count_of ip (threat_step op td) = count_of ip td + int (requests_of ip [op])
    \<and> length (abuse_events ip (threat_step op td)) = length (abuse_events ip td)
      + (if requests_of ip [op] = 1 \<and> tdc_RateLimitThreshold config < count_of ip td + 1 then 1 else 0)"
proof (cases op)
  case (Request now i path)
  show ?thesis
    using assms request_alerts[OF assms(1), of ip now i path]
    by (auto simp: Request request_tracker requests_of_def count_of_def activity_of_def split: option.splits)
next
  case (FailedLogin now i user)
  have "abuse_events ip (RecordFailedLogin now i user td) = abuse_events ip td"
    unfolding RecordFailedLogin_def Let_def
    by (subst fold_no_abuse) (auto simp: login_rule_def threat_event_def abuse_events_def)
  then show ?thesis using assms by (simp add: FailedLogin login_tracker requests_of_def count_of_def activity_of_def split: option.splits)
next
  case (CheckInput now i input)
  have "abuse_events ip (snd (detect_patterns ps i now input td)) = abuse_events ip td" for ps
    by (induction ps) (auto simp: abuse_events_def raiseAlert_def threat_event_def)
  then show ?thesis using assms by (simp add: CheckInput detect_tracker requests_of_def count_of_def) (simp add: DetectSQLInjection_def)
next
  case (Block i)
  then show ?thesis using assms by (auto simp: BlockIP_def requests_of_def count_of_def abuse_events_def split: option.splits)
qed (use assms(2) in blast)

text \<open>The window of the rate rule is not used: between two cleanups every request of an address beyond
  the threshold raises an alert, however slowly the requests come, and no other does.\<close>

theorem rate_alerts_ignore_time:
  assumes "\<forall>t. Clean t \<notin> set ops" and "0 \<le> tdc_RateLimitThreshold config" and "length ops < 2 ^ 62"
  shows "length (abuse_events ip (threat_run ops (NewThreatDetector config))) = requests_of ip ops - nat (tdc_RateLimitThreshold config)
    \<and> count_of ip (threat_run ops (NewThreatDetector config)) = int (requests_of ip ops)"
proof -
  have "td_rules (threat_run ops (NewThreatDetector config)) = defaultRules config
    \<and> count_of ip (threat_run ops (NewThreatDetector config)) = int (requests_of ip ops)
    \<and> length (abuse_events ip (threat_run ops (NewThreatDetector config))) = requests_of ip ops - nat (tdc_RateLimitThreshold config)"
    using assms(1,3)
  proof (induction ops rule: rev_induct)
    case Nil
    then show ?case by (simp add: threat_run_def NewThreatDetector_def count_of_def requests_of_def abuse_events_def)
  next
    case (snoc op ops)
    let ?td = "threat_run ops (NewThreatDetector config)"
    have IH: "td_rules ?td = defaultRules config" "count_of ip ?td = int (requests_of ip ops)"
      "length (abuse_events ip ?td) = requests_of ip ops - nat (tdc_RateLimitThreshold config)" using snoc by simp_all
    have "requests_of ip ops \<le> length ops" by (simp add: requests_of_def)
    then have "count_of ip ?td < max_i64" using IH(2) snoc.prems(2) by simp
    moreover have "requests_of ip [op] \<le> 1" "requests_of ip (ops @ [op]) = requests_of ip ops + requests_of ip [op]" by (auto simp: requests_of_def)
    moreover have "\<forall>t. op \<noteq> Clean t" using snoc.prems(1) by auto
    ultimately show ?case using step_alerts[of ?td config op ip] IH assms(2)
      by (auto simp: threat_run_def le_Suc_eq)
  qed
  then show ?thesis by blast
qed

section \<open>An example\<close>

definition demo_detector :: ThreatDetector where
  "demo_detector = BlockIP ''a'' (RecordRequest (\<lambda>_. 0) ''a'' '''' (NewThreatDetector DefaultThreatDetectorConfig))"

theorem blocked_forever_witness: "IsBlocked ''a'' (threat_run [Clean (9 * hour), Request (\<lambda>_. 1) ''a'' ''''] demo_detector)"
  by (rule blocked_forever) (simp add: demo_detector_def IsBlocked_def BlockIP_def request_tracker)

theorem rate_alerts_ignore_time_witness:
  "length (abuse_events ''a'' (threat_run [Request (\<lambda>_. 0) ''a'' '''', Request (\<lambda>_. 99 * day) ''a'' '''']
     (NewThreatDetector (DefaultThreatDetectorConfig\<lparr>tdc_RateLimitThreshold := 1\<rparr>)))) = 1"
  using rate_alerts_ignore_time[of "[Request (\<lambda>_. 0) ''a'' '''', Request (\<lambda>_. 99 * day) ''a'' '''']"
    "DefaultThreatDetectorConfig\<lparr>tdc_RateLimitThreshold := 1\<rparr>" "''a''"]
  by (simp add: requests_of_def)

end
