(* ===== verification/Spec2Isabelle.thy ===== *)
theory Spec2Isabelle
  imports Api_Breaker Api_Limiter Auth Billing Billing_Service Breaker Cache Calendar Carrier_Plans Carriers Es2_Client Etag Exchange Float64 Fraud Geo_Router Go_Any Gorm Ids Infra_Breaker Learning Load_Balancer Maintenance Milenage Monitoring Mvno Net_IP Onboarding Plan_Service Plan_Store Prelude Pricing_Rules Rate_Plan Redis_Limiter Selection Sliding_Window Smdp_Manager Sorting Subscribers Tenant_Access Tenant_Limiter Tenant_Service Tenant_Store Threats
begin

text \<open>
  A verification library for the core logic of the telecom platform, two Go services: the carrier
  connector (\<open>apps/carrier-connector\<close>: carriers, eSIM profiles, rate plans, tenants) and the API server
  (\<open>apps/api-server\<close>: subscribers, authentication, charging). The definitions are translated from the source,
  with its names where Isabelle allows it, and are executable wherever the code is. The theorems are about those
  definitions.

  \<^bold>\<open>Conventions\<close> (\<open>Prelude\<close>). An \<open>int\<close> or \<open>int64\<close> is an \<open>int\<close> wrapped by \<open>i64\<close> where the source computes, an unsigned one is
  wrapped by \<open>u64\<close>; code that works on bits uses words (\<open>Ids\<close>, \<open>Milenage\<close>). A \<open>float64\<close> is a rational with the rounding of
  IEEE 754 binary64 after every operation, with infinities and NaN (\<open>Float64\<close>). A \<open>time.Time\<close> is a number of nanoseconds and every
  reading of the clock, every random number and every iteration order of a map is an argument. A panic is
  \<open>Panics\<close> of the type \<open>go\<close>, an error is the left side of a sum or a value of an error datatype. An operation that changes state
  returns the new state. A mutex is the atomicity of one operation; where the source releases it in between, the steps
  are separate definitions and the interleavings are modelled.

  \<^bold>\<open>What is a parameter\<close>. GORM and the database (\<open>Gorm\<close>: the operations on a table, with their documented behaviour as the
  hypotheses \<open>table_ok\<close>, \<open>save_ok\<close>, \<open>set_ok\<close>, \<open>find_ok\<close>, \<open>table_frame\<close>, which tables held as lists in memory have), HTTP servers, the network, JSON, AES and the
  random source. Hypotheses about them are satisfied by concrete instances in the witnesses.

  \<^bold>\<open>Theories and code\<close>.
  \<^item> \<open>Prelude\<close>, \<open>Float64\<close>, \<open>Go_Any\<close>, \<open>Calendar\<close>, \<open>Net_IP\<close>, \<open>Sorting\<close>, \<open>Gorm\<close>: integers, strings, time, binary64, the dynamic type \<open>any\<close>, the civil calendar of \<open>time\<close>,
    textual IP addresses, the contract of \<open>sort.Slice\<close>, tables.
  \<^item> \<open>Ids\<close>: Snowflake identifiers (\<open>internal/id\<close>): identifiers of a node strictly increase, decoding gives back the parts, what \<open>Generate\<close> returns and when it waits.
  \<^item> \<open>Breaker\<close>, \<open>Infra_Breaker\<close>, \<open>Api_Breaker\<close>: the two circuit breakers (\<open>infra/circuitbreaker.go\<close>, \<open>circuitbreaker/circuitbreaker.go\<close>) and their common contract,
    a locale that both instantiate: a state invariant under interleaved steps, tripping, recovery by exactly the success threshold.
  \<^item> \<open>Sliding_Window\<close>, \<open>Tenant_Limiter\<close>, \<open>Api_Limiter\<close>: request logs of a sliding window (\<open>tenant/rate_limiter.go\<close>, \<open>middleware/ratelimit.go\<close>): no more requests
    than the quota in any window, isolation of tenants.
  \<^item> \<open>Cache\<close>, \<open>Geo_Router\<close>, \<open>Maintenance\<close>, \<open>Threats\<close>, \<open>Fraud\<close>: the in-memory cache, geographic routing, predictive maintenance (\<open>infra\<close>), detection of threats and of
    fraud (\<open>security\<close>). \<open>Get\<close> of the cache is one step in the histories; the two steps between which the code holds no lock, and what can go wrong
    there, are stated beside it.
  \<^item> \<open>Carriers\<close>, \<open>Load_Balancer\<close>, \<open>Learning\<close>, \<open>Selection\<close>, \<open>Smdp_Manager\<close>, \<open>Es2_Client\<close>: the SM-DP+ manager (\<open>smdp\<close>, \<open>es2\<close>): the chosen carrier has the best score, weights stay a
    distribution, retries end with a success exactly when an attempt succeeds, the registry stays consistent.
    The weights are shown stable for performances between 0 and 100. What a repeated ES2+ request, whose body the first send has read, puts on the
    wire is left to the parameter \<open>net\<close> of \<open>Es2_Client\<close>.
  \<^item> \<open>Rate_Plan\<close>, \<open>Pricing_Rules\<close>, \<open>Plan_Store\<close>, \<open>Plan_Service\<close>, \<open>Carrier_Plans\<close>: rate plans, pricing rules, their storage, subscriptions and costs (\<open>rateplan\<close>, \<open>pricing\<close>,
    \<open>repository\<close>, \<open>services\<close>): one active subscription of a profile (unless \<open>UpdateSubscription\<close>, which checks nothing, activates one or moves it), breakdowns add up, a price
    applies exactly the matching rules of its tenant, prices of validated rules keep their limits. In \<open>Pricing_Rules\<close> the field
    \<open>TenantCtx\<close> of a pricing context, which nothing reads, is left out.
  \<^item> \<open>Exchange\<close>, \<open>Billing\<close>, \<open>Billing_Service\<close>: currencies, exchange rates and billing (\<open>currency\<close>, \<open>services\<close>).
  \<^item> \<open>Tenant_Store\<close>, \<open>Tenant_Service\<close>, \<open>Tenant_Access\<close>: tenants, users, API keys, quotas and the middleware (\<open>tenant\<close>, \<open>repository\<close>, \<open>services\<close>).
    Runs include the lookups the database fails to answer, each of which may add a member a second time.
  \<^item> \<open>Mvno\<close>, \<open>Onboarding\<close>: validation, provisioning and onboarding of virtual operators (\<open>mvno\<close>, \<open>services\<close>).
  \<^item> \<open>Milenage\<close>, \<open>Subscribers\<close>: the authentication centre against TS 35.206 written on bit strings, and the life cycle, IMSIs, profiles,
    balances and payment methods of subscribers (API server, \<open>services/subscriber_*.go\<close>, \<open>database\<close>). A saved subscriber keeps the plan that was
    loaded with it, as GORM writes the key of a loaded association back.
  \<^item> \<open>Monitoring\<close>, \<open>Redis_Limiter\<close>, \<open>Etag\<close>: health checks and alerts (\<open>monitoring\<close>), the limiter over Redis, whose two scripts are written out over its keys
    (the token bucket keeps every limit per whole seconds, in spite of a rounded rate), and the entity tags of the API server (\<open>middleware\<close>).
  \<^item> \<open>Auth\<close>: accounts of the API server, their tokens and sessions, the middleware, the policies and the handlers (\<open>models/auth.go\<close>, \<open>services/auth.go\<close>,
    \<open>middleware/auth.go\<close>, \<open>handlers/auth.go\<close>, \<open>rbac/casbin.go\<close>): sessions end with the password as long as the update that ends them succeeds and no
    refresh is under way, registration gives any role, refreshing and its limits.

  \<^bold>\<open>Bounds and fuel\<close>. Loops of the source are structural recursion over a list or recursion with a measure, proved to
  end. The waiting loop of \<open>Ids\<close> takes the clock readings as a list and gives \<open>None\<close> when they run out; \<open>snowflake_generate_returns\<close> says that one reading of a later
  millisecond is enough. The retry loop of \<open>Es2_Client\<close> ends by its counter. Background loops (health checks, cleanup,
  monitors) are one tick each; the theorems quantify over all sequences of ticks and operations.

  \<^bold>\<open>Not modelled\<close>. HTTP handlers, which decode a request, call a modelled operation and encode the answer; the generated API
  documentation; the command line client, the SDK and the Terraform provider, which only call the services over HTTP; SQL
  texts of listings and analytics; metrics, logging, Kubernetes, message queues and web sockets, whose effects are
  outside the program; data races on fields read without a lock, and unbounded memory. The manifest lists every part with the reason.
\<close>

end
